(* ===== verification/Prelude.thy ===== *)
theory Prelude
  imports Main "HOL-Library.Word"
begin

text \<open>
  What every component shares: the machine types of the C++ code, its failures as values,
  the byte order of \<^verbatim>\<open>memcpy\<close> on the integers it sends, decimal printing
  (\<^verbatim>\<open>std::to_string\<close>) and the list facts the containers use.

  Conventions. A \<^verbatim>\<open>std::string\<close> and a raw \<^verbatim>\<open>char\<close> buffer are both a list of bytes, written as
  \<^typ>\<open>string\<close>. A \<^verbatim>\<open>size_t\<close> is a \<^typ>\<open>nat\<close> with the wrap-around written out by \<open>wrap64\<close>.
  \<^verbatim>\<open>int\<close> is a 32-bit word read with \<^const>\<open>sint\<close>, \<^verbatim>\<open>double\<close> its 64-bit pattern.
\<close>

type_synonym bytes = string
type_synonym i32 = "32 word"
type_synonym u64 = "64 word"
type_synonym f64 = "64 word"

named_theorems codec_simps \<open>encoders and decoders of the wire format\<close>
named_theorems queue_simps \<open>the queues and lists of the utility layer\<close>
named_theorems step_simps \<open>unfolding the handlers and loops of the servers\<close>

section \<open>Failures as values\<close>

text \<open>
  \<^item> \<open>OutOfRange\<close>: the exception \<^verbatim>\<open>std::out_of_range\<close> (\<^verbatim>\<open>at()\<close>, \<^verbatim>\<open>substr()\<close>);
  \<^item> \<open>OutOfBounds\<close>: a read or write outside an allocated buffer, undefined in C++;
  \<^item> \<open>Uninitialised\<close>: bytes handed out that were never written;
  \<^item> \<open>AssertFailed\<close>: a failed \<^verbatim>\<open>assert\<close>;
  \<^item> \<open>NullDereference\<close>: use of a null or empty smart pointer, undefined in C++;
  \<^item> \<open>UseAfterFree\<close>: use of an object that has been destroyed, undefined in C++;
  \<^item> \<open>BadOptional\<close>: the exception \<^verbatim>\<open>std::bad_optional_access\<close> (\<^verbatim>\<open>value()\<close>);
  \<^item> \<open>DivideByZero\<close>: integer division by zero, undefined in C++;
  \<^item> \<open>InvalidArgument\<close>: the exception \<^verbatim>\<open>std::invalid_argument\<close> (\<^verbatim>\<open>stoi\<close>);
  \<^item> \<open>RedisError\<close>: the exception \<^verbatim>\<open>sw::redis::Error\<close>;
  \<^item> \<open>MongoError\<close>, \<open>BsonError\<close>: the exceptions \<^verbatim>\<open>mongocxx::exception\<close> and \<^verbatim>\<open>bsoncxx::exception\<close>;
  \<^item> \<open>FilesystemError\<close>, \<open>SystemError\<close>: the exceptions \<^verbatim>\<open>std::filesystem::filesystem_error\<close> and
    \<^verbatim>\<open>std::system_error\<close> (a thread that cannot be created);
  \<^item> \<open>TaskException\<close>: an exception of a task that leaves the thread it runs in.
\<close>

datatype cpp_error =
    OutOfRange | OutOfBounds | Uninitialised | AssertFailed
  | NullDereference | UseAfterFree | BadOptional | DivideByZero | InvalidArgument | RedisError
  | MongoError | BsonError | FilesystemError | SystemError | TaskException

type_synonym 'a result = "cpp_error + 'a"

definition rbind :: "'e + 'a \<Rightarrow> ('a \<Rightarrow> 'e + 'b) \<Rightarrow> 'e + 'b" where
  "rbind m f = (case m of Inl e \<Rightarrow> Inl e | Inr x \<Rightarrow> f x)"

lemma rbind_simps [simp]:
  "rbind (Inl e) f = Inl e"
  "rbind (Inr x) f = f x"
  by (simp_all add: rbind_def)

lemma rbind_assoc: "rbind (rbind m f) g = rbind m (\<lambda>x. rbind (f x) g)"
  by (cases m) simp_all

lemma rbind_eq_Inr: "rbind m f = Inr y \<longleftrightarrow> (\<exists>x. m = Inr x \<and> f x = Inr y)"
  by (cases m) simp_all

lemma rbind_eq_Inl: "rbind m f = Inl e \<longleftrightarrow> m = Inl e \<or> (\<exists>x. m = Inr x \<and> f x = Inl e)"
  by (cases m) simp_all

text \<open>The same with a state \<open>'w\<close> that survives the exception: the commands sent to a server.\<close>

definition and_then :: "'a result \<times> 'w \<Rightarrow> ('a \<Rightarrow> 'w \<Rightarrow> 'b result \<times> 'w) \<Rightarrow> 'b result \<times> 'w" where
  "and_then s f = (case s of (Inl e, log) \<Rightarrow> (Inl e, log) | (Inr x, log) \<Rightarrow> f x log)"

lemma and_then_simps [simp]:
  "and_then (Inl e, log) f = (Inl e, log)" "and_then (Inr x, log) f = f x log"
  by (simp_all add: and_then_def)

lemma and_then_Inr:
  "and_then s f = (Inr y, log') \<longleftrightarrow> (\<exists>x log. s = (Inr x, log) \<and> f x log = (Inr y, log'))"
  by (cases s; cases "fst s") (auto simp: and_then_def)

section \<open>size\_t\<close>

definition wrap64 :: "nat \<Rightarrow> nat" where
  "wrap64 n = n mod 2 ^ 64"

lemma wrap64_small [simp]: "n < 2 ^ 64 \<Longrightarrow> wrap64 n = n"
  by (simp add: wrap64_def)

lemma wrap64_less [simp]: "wrap64 n < 2 ^ 64"
  by (simp add: wrap64_def)

lemma wrap64_less_num [simp]: "wrap64 n < 18446744073709551616"
  using wrap64_less [of n] by simp

lemma wrap64_add_left [simp]: "wrap64 (wrap64 a + b) = wrap64 (a + b)"
  by (simp add: wrap64_def mod_add_left_eq)

section \<open>Little-endian bytes\<close>

text \<open>\<^verbatim>\<open>memcpy\<close> of an unsigned integer of \<open>k\<close> bytes on the little-endian target.\<close>

fun le_encode :: "nat \<Rightarrow> nat \<Rightarrow> bytes" where
  "le_encode 0 v = []"
| "le_encode (Suc k) v = char_of (v mod 256) # le_encode k (v div 256)"

fun le_decode :: "bytes \<Rightarrow> nat" where
  "le_decode [] = 0"
| "le_decode (c # cs) = of_char c + 256 * le_decode cs"

lemma length_le_encode [simp]: "length (le_encode k v) = k"
  by (induction k arbitrary: v) auto

lemma of_char_lt_256 [simp]: "(of_char c :: nat) < 256"
  by (metis char_of_char mod_less_divisor of_char_of zero_less_numeral)

lemma le_decode_encode [simp]: "le_decode (le_encode k v) = v mod 256 ^ k"
proof (induction k arbitrary: v)
  case 0
  then show ?case by simp
next
  case (Suc k)
  have "(v mod 256) + 256 * (v div 256 mod 256 ^ k) = v mod (256 * 256 ^ k)"
    by (simp add: mod_mult2_eq)
  with Suc show ?case by simp
qed

lemma le_encode_decode [simp]: "length bs = k \<Longrightarrow> le_encode k (le_decode bs) = bs"
  by (induction bs arbitrary: k) (auto simp: div_add1_eq)

lemma le_decode_less: "le_decode bs < 256 ^ length bs"
proof (induction bs)
  case Nil
  then show ?case by simp
next
  case (Cons c cs)
  have "of_char c + 256 * le_decode cs < 256 + 256 * le_decode cs"
    using of_char_lt_256 [of c] by linarith
  also have "\<dots> \<le> 256 * 256 ^ length cs"
    using Cons by simp
  finally show ?case by simp
qed

text \<open>The integers of the messages: \<^verbatim>\<open>size_t\<close>, 64-bit and 32-bit words.\<close>

definition enc_size :: "nat \<Rightarrow> bytes" where
  "enc_size n = le_encode 8 n"

definition enc_u64 :: "u64 \<Rightarrow> bytes" where
  "enc_u64 w = le_encode 8 (unat w)"

definition enc_i32 :: "i32 \<Rightarrow> bytes" where
  "enc_i32 w = le_encode 4 (unat w)"

definition enc_bool :: "bool \<Rightarrow> bytes" where
  "enc_bool b = le_encode 1 (if b then 1 else 0)"

definition dec_u64 :: "bytes \<Rightarrow> u64" where
  "dec_u64 bs = of_nat (le_decode bs)"

definition dec_i32 :: "bytes \<Rightarrow> i32" where
  "dec_i32 bs = of_nat (le_decode bs)"

definition dec_bool :: "bytes \<Rightarrow> bool" where
  "dec_bool bs = (le_decode bs \<noteq> 0)"

lemma length_enc [codec_simps, simp]:
  "length (enc_size n) = 8" "length (enc_u64 w) = 8" "length (enc_i32 i) = 4"
  "length (enc_bool b) = 1"
  by (simp_all add: enc_size_def enc_u64_def enc_i32_def enc_bool_def)

lemma dec_enc_size [codec_simps, simp]: "n < 2 ^ 64 \<Longrightarrow> le_decode (enc_size n) = n"
  by (simp add: enc_size_def)

lemma dec_enc_u64 [codec_simps, simp]: "dec_u64 (enc_u64 w) = w"
proof -
  have "unat w < 256 ^ 8" using unsigned_less [of w] by simp
  then show ?thesis by (simp add: dec_u64_def enc_u64_def)
qed

lemma dec_enc_i32 [codec_simps, simp]: "dec_i32 (enc_i32 w) = w"
proof -
  have "unat w < 256 ^ 4" using unsigned_less [of w] by simp
  then show ?thesis by (simp add: dec_i32_def enc_i32_def)
qed

lemma dec_enc_bool [codec_simps, simp]: "dec_bool (enc_bool b) = b"
  by (simp add: dec_bool_def enc_bool_def)

text \<open>A small count survives the conversion from \<^verbatim>\<open>int\<close> to \<^verbatim>\<open>size_t\<close>.\<close>

lemma unat_scast_of_nat:
  assumes "n < 2 ^ 31"
  shows "unat (scast (of_nat n :: i32) :: u64) = n"
proof -
  have "signed_take_bit 31 (int n) = int n"
    using assms by (intro signed_take_bit_int_eq_self) auto
  then have "sint (of_nat n :: i32) = int n"
    by (simp add: sint_uint unsigned_of_nat signed_take_bit_take_bit of_nat_take_bit)
  then show ?thesis
    using assms by (simp add: scast_eq unsigned_of_nat take_bit_nat_eq_self_iff)
qed

section \<open>Decimal strings\<close>

text \<open>\<^verbatim>\<open>std::to_string\<close> on the integral types, and the value of a string of digits.\<close>

fun decimal :: "nat \<Rightarrow> string" where
  "decimal n = (if n < 10 then [char_of (48 + n)] else decimal (n div 10) @ [char_of (48 + n mod 10)])"

declare decimal.simps [simp del]

definition to_string :: "int \<Rightarrow> string" where
  "to_string i = (if i < 0 then CHR 0x2D # decimal (nat (- i)) else decimal (nat i))"

text \<open>Six digits with leading zeros, as \<^verbatim>\<open>setw(6)\<close> and \<^verbatim>\<open>%f\<close> print them.\<close>

definition six_digits :: "nat \<Rightarrow> string" where
  "six_digits n = replicate (6 - length (decimal n)) (CHR 0x30) @ decimal n"

definition decimal_value :: "string \<Rightarrow> nat" where
  "decimal_value s = fold (\<lambda>c v. 10 * v + (of_char c - 48)) s 0"

lemma decimal_value_decimal [simp]: "decimal_value (decimal n) = n"
proof (induction n rule: decimal.induct)
  case (1 n)
  show ?case
  proof (cases "n < 10")
    case True
    then show ?thesis by (simp add: decimal.simps decimal_value_def)
  next
    case False
    then have "fold (\<lambda>c v. 10 * v + (of_char c - 48)) (decimal (n div 10)) 0 = n div 10"
      using 1 by (simp add: decimal_value_def)
    then show ?thesis using False by (simp add: decimal.simps [of n] decimal_value_def)
  qed
qed

lemma decimal_inject [simp]: "decimal m = decimal n \<longleftrightarrow> m = n"
  by (metis decimal_value_decimal)

lemma decimal_chars: "c \<in> set (decimal n) \<Longrightarrow> \<exists>d<10::nat. c = char_of (48 + d)"
proof (induction n rule: decimal.induct)
  case (1 n)
  show ?case
  proof (cases "n < 10")
    case True
    then show ?thesis using "1.prems" by (intro exI [of _ n]) (simp add: decimal.simps [of n])
  next
    case False
    then consider "c \<in> set (decimal (n div 10))" | "c = char_of (48 + n mod 10)"
      using "1.prems" by (auto simp: decimal.simps [of n])
    then show ?thesis
    proof cases
      case 1
      then show ?thesis using "1.IH" False by blast
    next
      case 2
      then show ?thesis by (intro exI [of _ "n mod 10"]) simp
    qed
  qed
qed

lemma decimal_first: "hd (decimal n) \<noteq> CHR 0x2D \<and> decimal n \<noteq> []"
proof (induction n rule: decimal.induct)
  case (1 n)
  have "char_of (48 + k) \<noteq> CHR 0x2D" if "k < 10" for k :: nat
  proof
    assume "char_of (48 + k) = CHR 0x2D"
    then have "(of_char (char_of (48 + k) :: char) :: nat) = 45" by simp
    then show False using that by simp
  qed
  then show ?case using 1 by (cases "n < 10") (simp_all add: decimal.simps [of n])
qed

lemma to_string_inject [simp]: "to_string i = to_string j \<longleftrightarrow> i = j"
  by (auto simp: to_string_def split: if_splits)
     (metis decimal_first list.sel(1) list.collapse)+

end
