(* ===== verification/Message_Codec.thy ===== *)
theory Message_Codec
  imports Prelude
begin

text \<open>
  The wire format of \<^verbatim>\<open>Base/message/BaseMessage\<close>. A message object is the record
  \<open>base_message\<close> (the members of \<^verbatim>\<open>struct BaseMessage\<close>); concrete messages extend the record
  as the C++ structs extend the base. The variadic templates \<^verbatim>\<open>countCapacity\<close>,
  \<^verbatim>\<open>pushMembers\<close> and \<^verbatim>\<open>popMembers\<close> become recursions over a list of members, one constructor
  of \<open>member\<close> per overload, and an arithmetic member is its object representation (the bytes
  \<^verbatim>\<open>memcpy\<close> moves).

  The lemmas show that \<^verbatim>\<open>count\<close> followed by \<^verbatim>\<open>serialize\<close> writes exactly the image \<open>wire_image\<close>
  (no byte outside the buffer, no byte left unwritten), and that \<^verbatim>\<open>deserialize\<close> of an image
  gives the members back, also into an object that has been used before.
\<close>

section \<open>The message object and its members\<close>

record base_message =
  MSG_NAME :: string
  MSG_LEN :: nat
  mData :: "char option list"
  ARRAY_LIKE_LENGHTS :: "nat list"
  ARRAY_LIKE_S_SIZE :: nat
  mArrayLikeIndex :: nat
  mCursor :: nat

definition MSG_NAME_NONE :: string where
  "MSG_NAME_NONE = ''MSG_NAME_NONE''"

text \<open>The overloads: an arithmetic type, a string, a vector of an arithmetic type (with its
  \<^verbatim>\<open>sizeof\<close>) and a vector of strings.\<close>

datatype member =
    Scalar bytes
  | Str string
  | Vec nat "bytes list"
  | Strs "string list"

section \<open>Counting the capacity\<close>

definition add_len :: "nat \<Rightarrow> 'a base_message_scheme \<Rightarrow> 'a base_message_scheme" where
  "add_len n m = m\<lparr>MSG_LEN := wrap64 (MSG_LEN m + n)\<rparr>"

definition add_array_like :: "nat \<Rightarrow> 'a base_message_scheme \<Rightarrow> 'a base_message_scheme" where
  "add_array_like n m =
     m\<lparr>ARRAY_LIKE_LENGHTS := ARRAY_LIKE_LENGHTS m @ [n],
       ARRAY_LIKE_S_SIZE := wrap64 (ARRAY_LIKE_S_SIZE m + 1)\<rparr>"

definition count_str :: "string \<Rightarrow> 'a base_message_scheme \<Rightarrow> 'a base_message_scheme" where
  "count_str s m = add_array_like (length s) (add_len (length s) m)"

fun countLength :: "member \<Rightarrow> 'a base_message_scheme \<Rightarrow> 'a base_message_scheme" where
  "countLength (Scalar bs) m = add_len (length bs) m"
| "countLength (Str s) m = count_str s m"
| "countLength (Vec sz vs) m = add_array_like (length vs) (add_len (sz * length vs) m)"
| "countLength (Strs ss) m = fold count_str ss m"

fun countCapacity :: "member list \<Rightarrow> 'a base_message_scheme \<Rightarrow> 'a base_message_scheme" where
  "countCapacity [] m = m"
| "countCapacity (x # xs) m = countCapacity xs (countLength x m)"

definition countHelper :: "'a base_message_scheme \<Rightarrow> 'a base_message_scheme" where
  "countHelper m =
     countCapacity [Str (MSG_NAME m), Scalar (enc_size (MSG_LEN m)),
                    Scalar (enc_size (ARRAY_LIKE_S_SIZE m))] m"

text \<open>\<^verbatim>\<open>MSG_LEN += sizeof(size_t) * ARRAY_LIKE_LENGHTS.size()\<close>, the last line of every \<^verbatim>\<open>count()\<close>.\<close>

definition addLengthsSize :: "'a base_message_scheme \<Rightarrow> 'a base_message_scheme" where
  "addLengthsSize m = add_len (8 * length (ARRAY_LIKE_LENGHTS m)) m"

definition count_members :: "member list \<Rightarrow> 'a base_message_scheme \<Rightarrow> 'a base_message_scheme" where
  "count_members ms m = addLengthsSize (countCapacity ms (countHelper m))"

section \<open>Serialization\<close>

definition memcpy_to :: "bytes \<Rightarrow> 'a base_message_scheme \<Rightarrow> 'a base_message_scheme result" where
  "memcpy_to bs m =
     (let cur = mCursor m; buf = mData m in
      if cur + length bs \<le> length buf
      then Inr (m\<lparr>mData := take cur buf @ map Some bs @ drop (cur + length bs) buf,
                  mCursor := cur + length bs\<rparr>)
      else Inl OutOfBounds)"

fun memcpy_all :: "bytes list \<Rightarrow> 'a base_message_scheme \<Rightarrow> 'a base_message_scheme result" where
  "memcpy_all [] m = Inr m"
| "memcpy_all (x # xs) m = rbind (memcpy_to x m) (memcpy_all xs)"

fun pushMember :: "member \<Rightarrow> 'a base_message_scheme \<Rightarrow> 'a base_message_scheme result" where
  "pushMember (Scalar bs) m = memcpy_to bs m"
| "pushMember (Str s) m = memcpy_to s m"
| "pushMember (Vec sz vs) m = memcpy_all vs m"
| "pushMember (Strs ss) m = memcpy_all ss m"

fun pushMembers :: "member list \<Rightarrow> 'a base_message_scheme \<Rightarrow> 'a base_message_scheme result" where
  "pushMembers [] m = Inr m"
| "pushMembers (x # xs) m = rbind (pushMember x m) (pushMembers xs)"

definition serializeHelper :: "'a base_message_scheme \<Rightarrow> 'a base_message_scheme result" where
  "serializeHelper m =
     pushMembers [Scalar (enc_size (MSG_LEN m)), Scalar (enc_size (ARRAY_LIKE_S_SIZE m)),
                  Vec 8 (map enc_size (ARRAY_LIKE_LENGHTS m)), Str (MSG_NAME m)]
       (m\<lparr>mCursor := 0, mData := replicate (MSG_LEN m) None\<rparr>)"

text \<open>\<^verbatim>\<open>std::string(mData, MSG_LEN)\<close>.\<close>

definition data_string :: "'a base_message_scheme \<Rightarrow> bytes result" where
  "data_string m =
     (if MSG_LEN m > length (mData m) then Inl OutOfBounds
      else if None \<in> set (take (MSG_LEN m) (mData m)) then Inl Uninitialised
      else Inr (map the (take (MSG_LEN m) (mData m))))"

definition serialize_members ::
  "member list \<Rightarrow> 'a base_message_scheme \<Rightarrow> (bytes \<times> 'a base_message_scheme) result" where
  "serialize_members ms m =
     rbind (serializeHelper m) (\<lambda>m. rbind (pushMembers ms m) (\<lambda>m.
     rbind (data_string m) (\<lambda>s. Inr (s, m))))"

section \<open>Deserialization\<close>

text \<open>The bytes readable through \<^verbatim>\<open>s.data()\<close>: those of the string and the terminating NUL.\<close>

definition c_str :: "string \<Rightarrow> bytes" where
  "c_str s = s @ [CHR 0x00]"

definition memcpy_from ::
  "bytes \<Rightarrow> nat \<Rightarrow> 'a base_message_scheme \<Rightarrow> (bytes \<times> 'a base_message_scheme) result" where
  "memcpy_from data n m =
     (if mCursor m + n \<le> length data
      then Inr (take n (drop (mCursor m) data), m\<lparr>mCursor := mCursor m + n\<rparr>)
      else Inl OutOfBounds)"

text \<open>\<^verbatim>\<open>ARRAY_LIKE_LENGHTS.at(mArrayLikeIndex++)\<close>.\<close>

definition next_len :: "'a base_message_scheme \<Rightarrow> (nat \<times> 'a base_message_scheme) result" where
  "next_len m =
     (if mArrayLikeIndex m < length (ARRAY_LIKE_LENGHTS m)
      then Inr (ARRAY_LIKE_LENGHTS m ! mArrayLikeIndex m,
                m\<lparr>mArrayLikeIndex := mArrayLikeIndex m + 1\<rparr>)
      else Inl OutOfRange)"

fun pop_elems ::
  "bytes \<Rightarrow> nat \<Rightarrow> nat \<Rightarrow> 'a base_message_scheme \<Rightarrow> (bytes list \<times> 'a base_message_scheme) result"
where
  "pop_elems data sz 0 m = Inr ([], m)"
| "pop_elems data sz (Suc n) m =
     rbind (memcpy_from data sz m) (\<lambda>(v, m).
     rbind (pop_elems data sz n m) (\<lambda>(vs, m). Inr (v # vs, m)))"

fun pop_strs ::
  "bytes \<Rightarrow> nat \<Rightarrow> nat \<Rightarrow> 'a base_message_scheme \<Rightarrow> (string list \<times> 'a base_message_scheme) result"
where
  "pop_strs data i 0 m = Inr ([], m)"
| "pop_strs data i (Suc n) m =
     (if i < length (ARRAY_LIKE_LENGHTS m)
      then rbind (memcpy_from data (ARRAY_LIKE_LENGHTS m ! i) m) (\<lambda>(s, m).
           rbind (pop_strs data (Suc i) n m) (\<lambda>(ss, m). Inr (s # ss, m)))
      else Inl OutOfRange)"

text \<open>The first argument after the data is the member before the call: its size and, for
  vectors, the elements already in it, which \<^verbatim>\<open>push_back\<close> keeps. The loop over strings runs
  from \<^verbatim>\<open>mArrayLikeIndex\<close> to \<^verbatim>\<open>ARRAY_LIKE_S_SIZE\<close> and does not advance the index.\<close>

fun popMember ::
  "bytes \<Rightarrow> member \<Rightarrow> 'a base_message_scheme \<Rightarrow> (member \<times> 'a base_message_scheme) result"
where
  "popMember data (Scalar bs) m =
     rbind (memcpy_from data (length bs) m) (\<lambda>(v, m). Inr (Scalar v, m))"
| "popMember data (Str s) m =
     rbind (next_len m) (\<lambda>(len, m).
     rbind (memcpy_from data len m) (\<lambda>(v, m). Inr (Str v, m)))"
| "popMember data (Vec sz vs) m =
     rbind (next_len m) (\<lambda>(len, m).
     rbind (pop_elems data sz len m) (\<lambda>(ws, m). Inr (Vec sz (vs @ ws), m)))"
| "popMember data (Strs ss) m =
     rbind (pop_strs data (mArrayLikeIndex m) (ARRAY_LIKE_S_SIZE m - mArrayLikeIndex m) m)
       (\<lambda>(ts, m). Inr (Strs (ss @ ts), m))"

fun popMembers ::
  "bytes \<Rightarrow> member list \<Rightarrow> 'a base_message_scheme \<Rightarrow> (member list \<times> 'a base_message_scheme) result"
where
  "popMembers data [] m = Inr ([], m)"
| "popMembers data (x # xs) m =
     rbind (popMember data x m) (\<lambda>(v, m).
     rbind (popMembers data xs m) (\<lambda>(vs, m). Inr (v # vs, m)))"

fun fill_lengths :: "bytes \<Rightarrow> nat \<Rightarrow> 'a base_message_scheme \<Rightarrow> 'a base_message_scheme result" where
  "fill_lengths data 0 m = Inr m"
| "fill_lengths data (Suc n) m =
     rbind (memcpy_from data 8 m) (\<lambda>(v, m).
     fill_lengths data n (m\<lparr>ARRAY_LIKE_LENGHTS := ARRAY_LIKE_LENGHTS m @ [le_decode v]\<rparr>))"

definition fillArrayLike :: "bytes \<Rightarrow> 'a base_message_scheme \<Rightarrow> 'a base_message_scheme result" where
  "fillArrayLike data m =
     (if ARRAY_LIKE_S_SIZE m = 0 then Inr m else fill_lengths data (ARRAY_LIKE_S_SIZE m) m)"

definition deserializeHelper :: "bytes \<Rightarrow> 'a base_message_scheme \<Rightarrow> 'a base_message_scheme result" where
  "deserializeHelper data m =
     rbind (memcpy_from data 8 (m\<lparr>mCursor := 0\<rparr>)) (\<lambda>(v, m).
     rbind (memcpy_from data 8 (m\<lparr>MSG_LEN := le_decode v\<rparr>)) (\<lambda>(v, m).
     rbind (fillArrayLike data (m\<lparr>ARRAY_LIKE_S_SIZE := le_decode v\<rparr>)) (\<lambda>m.
     rbind (next_len m) (\<lambda>(len, m).
     rbind (memcpy_from data len m) (\<lambda>(v, m). Inr (m\<lparr>MSG_NAME := v\<rparr>))))))"

definition deserialize_members ::
  "bytes \<Rightarrow> member list \<Rightarrow> 'a base_message_scheme \<Rightarrow> (member list \<times> 'a base_message_scheme) result"
where
  "deserialize_members data olds m =
     rbind (deserializeHelper data m) (\<lambda>m. popMembers data olds m)"

section \<open>The base message itself\<close>

definition new_base :: "base_message" where
  "new_base = \<lparr>MSG_NAME = MSG_NAME_NONE, MSG_LEN = 0, mData = [], ARRAY_LIKE_LENGHTS = [],
     ARRAY_LIKE_S_SIZE = 0, mArrayLikeIndex = 0, mCursor = 0\<rparr>"

definition count_base :: "'a base_message_scheme \<Rightarrow> 'a base_message_scheme" where
  "count_base m = addLengthsSize (countHelper m)"

definition serialize_base :: "'a base_message_scheme \<Rightarrow> (bytes \<times> 'a base_message_scheme) result" where
  "serialize_base m =
     rbind (serializeHelper m) (\<lambda>m. rbind (data_string m) (\<lambda>s. Inr (s, m)))"

definition deserialize_base :: "bytes \<Rightarrow> 'a base_message_scheme \<Rightarrow> 'a base_message_scheme result" where
  "deserialize_base data m = deserializeHelper data m"

definition GET_MSG_LEN :: "'a base_message_scheme \<Rightarrow> nat" where
  "GET_MSG_LEN m = MSG_LEN m"

definition GET_ARRAY_LIKE_S_SIZE :: "'a base_message_scheme \<Rightarrow> nat" where
  "GET_ARRAY_LIKE_S_SIZE m = ARRAY_LIKE_S_SIZE m"

text \<open>\<^verbatim>\<open>-1\<close> converted to \<^verbatim>\<open>size_t\<close> is \<open>2 ^ 64 - 1\<close>.\<close>

definition GET_ARRAY_LIKE_LENGTH_BY_INDEX :: "nat \<Rightarrow> 'a base_message_scheme \<Rightarrow> nat result" where
  "GET_ARRAY_LIKE_LENGTH_BY_INDEX index m =
     (if index \<ge> ARRAY_LIKE_S_SIZE m then Inr (2 ^ 64 - 1)
      else if index < length (ARRAY_LIKE_LENGHTS m) then Inr (ARRAY_LIKE_LENGHTS m ! index)
      else Inl OutOfRange)"


section \<open>The image on the wire\<close>

text \<open>The reference the operations are compared with: what one member contributes to the
  payload and to the list of lengths, and the image of a whole message.\<close>

fun flat :: "member \<Rightarrow> bytes" where
  "flat (Scalar bs) = bs"
| "flat (Str s) = s"
| "flat (Vec sz vs) = concat vs"
| "flat (Strs ss) = concat ss"

fun lens :: "member \<Rightarrow> nat list" where
  "lens (Scalar bs) = []"
| "lens (Str s) = [length s]"
| "lens (Vec sz vs) = [length vs]"
| "lens (Strs ss) = map length ss"

definition payload :: "member list \<Rightarrow> bytes" where
  "payload ms = concat (map flat ms)"

definition all_lens :: "member list \<Rightarrow> nat list" where
  "all_lens ms = concat (map lens ms)"

lemma payload_simps [simp, codec_simps]:
  "payload [] = []" "payload (x # xs) = flat x @ payload xs"
  "payload (xs @ ys) = payload xs @ payload ys"
  by (simp_all add: payload_def)

lemma all_lens_simps [simp, codec_simps]:
  "all_lens [] = []" "all_lens (x # xs) = lens x @ all_lens xs"
  "all_lens (xs @ ys) = all_lens xs @ all_lens ys"
  by (simp_all add: all_lens_def)

definition name_lens :: "string \<Rightarrow> member list \<Rightarrow> nat list" where
  "name_lens name ms = length name # all_lens ms"

definition wire_length :: "string \<Rightarrow> member list \<Rightarrow> nat" where
  "wire_length name ms =
     16 + 8 * length (name_lens name ms) + length name + length (payload ms)"

definition wire_image :: "string \<Rightarrow> member list \<Rightarrow> bytes" where
  "wire_image name ms =
     enc_size (wire_length name ms) @ enc_size (length (name_lens name ms)) @
     concat (map enc_size (name_lens name ms)) @ name @ payload ms"

lemma length_concat_const: "\<forall>x\<in>set xs. length x = n \<Longrightarrow> length (concat xs) = n * length xs"
  by (induction xs) auto

lemma length_wire_image [simp]: "length (wire_image name ms) = wire_length name ms"
  by (simp add: wire_image_def wire_length_def length_concat_const [of _ 8])

text \<open>Well-formed members: the elements of a vector all have its element size, and a vector
  of strings is the last member (the restriction the header of the file states).\<close>

fun wf_member :: "member \<Rightarrow> bool" where
  "wf_member (Vec sz vs) = list_all (\<lambda>v. length v = sz) vs"
| "wf_member _ = True"

fun strs_last :: "member list \<Rightarrow> bool" where
  "strs_last [] = True"
| "strs_last (Strs ss # xs) = (xs = [])"
| "strs_last (_ # xs) = strs_last xs"

fun is_strs :: "member \<Rightarrow> bool" where
  "is_strs (Strs _) = True"
| "is_strs _ = False"

definition wf_members :: "member list \<Rightarrow> bool" where
  "wf_members ms = (list_all wf_member ms \<and> strs_last ms)"

text \<open>An object member that a value can be read into: of the same kind and size, vectors
  still empty.\<close>

fun fits :: "member \<Rightarrow> member \<Rightarrow> bool" where
  "fits (Scalar a) (Scalar b) = (length a = length b)"
| "fits (Str a) (Str b) = True"
| "fits (Vec n a) (Vec k b) = (n = k \<and> a = [])"
| "fits (Strs a) (Strs b) = (a = [])"
| "fits _ _ = False"

section \<open>What counting computes\<close>

lemma fold_add_strs:
  "fold count_str ss m =
     m\<lparr>MSG_LEN := (if ss = [] then MSG_LEN m else wrap64 (MSG_LEN m + length (concat ss))),
       ARRAY_LIKE_LENGHTS := ARRAY_LIKE_LENGHTS m @ map length ss,
       ARRAY_LIKE_S_SIZE := (if ss = [] then ARRAY_LIKE_S_SIZE m
                             else wrap64 (ARRAY_LIKE_S_SIZE m + length ss))\<rparr>"
  by (induction ss arbitrary: m) (auto simp: count_str_def add_array_like_def add_len_def add.assoc)

lemma flat_Vec_length: "list_all (\<lambda>v. length v = sz) vs \<Longrightarrow> length (concat vs) = sz * length vs"
  by (induction vs) auto

lemma countLength_wf:
  assumes "wf_member x" and "MSG_LEN m < 2 ^ 64" and "ARRAY_LIKE_S_SIZE m < 2 ^ 64"
  shows "countLength x m =
     m\<lparr>MSG_LEN := wrap64 (MSG_LEN m + length (flat x)),
       ARRAY_LIKE_LENGHTS := ARRAY_LIKE_LENGHTS m @ lens x,
       ARRAY_LIKE_S_SIZE := wrap64 (ARRAY_LIKE_S_SIZE m + length (lens x))\<rparr>"
  using assms
  by (cases x)
    (auto simp: add_len_def count_str_def add_array_like_def fold_add_strs flat_Vec_length)

lemma countCapacity_wf:
  "list_all wf_member ms \<Longrightarrow> MSG_LEN m < 2 ^ 64 \<Longrightarrow> ARRAY_LIKE_S_SIZE m < 2 ^ 64 \<Longrightarrow>
   countCapacity ms m =
     m\<lparr>MSG_LEN := wrap64 (MSG_LEN m + length (payload ms)),
       ARRAY_LIKE_LENGHTS := ARRAY_LIKE_LENGHTS m @ all_lens ms,
       ARRAY_LIKE_S_SIZE := wrap64 (ARRAY_LIKE_S_SIZE m + length (all_lens ms))\<rparr>"
  by (induction ms arbitrary: m) (simp_all add: countLength_wf add.assoc)

text \<open>A message that has not been counted, as every constructor leaves it.\<close>

definition uncounted :: "'a base_message_scheme \<Rightarrow> bool" where
  "uncounted m = (MSG_LEN m = 0 \<and> ARRAY_LIKE_LENGHTS m = [] \<and> ARRAY_LIKE_S_SIZE m = 0 \<and>
                  mArrayLikeIndex m = 0)"

text \<open>A message whose counters agree with its name and members, as \<^verbatim>\<open>count()\<close> leaves it.\<close>

definition counted :: "member list \<Rightarrow> 'a base_message_scheme \<Rightarrow> bool" where
  "counted ms m = (MSG_LEN m = wire_length (MSG_NAME m) ms \<and>
                   ARRAY_LIKE_LENGHTS m = name_lens (MSG_NAME m) ms \<and>
                   ARRAY_LIKE_S_SIZE m = length (name_lens (MSG_NAME m) ms))"

lemma count_members_wf:
  assumes "uncounted m" and "list_all wf_member ms" and "wire_length (MSG_NAME m) ms < 2 ^ 64"
  shows "count_members ms m =
     m\<lparr>MSG_LEN := wire_length (MSG_NAME m) ms,
       ARRAY_LIKE_LENGHTS := name_lens (MSG_NAME m) ms,
       ARRAY_LIKE_S_SIZE := length (name_lens (MSG_NAME m) ms)\<rparr>"
  using assms
  by (simp add: count_members_def countHelper_def countCapacity_wf uncounted_def
        addLengthsSize_def add_len_def count_str_def wire_length_def name_lens_def add_array_like_def ac_simps)

lemma count_members_counted:
  assumes "uncounted m" and "list_all wf_member ms" and "wire_length (MSG_NAME m) ms < 2 ^ 64"
  shows "counted ms (count_members ms m)"
  using assms by (simp add: count_members_wf counted_def)

section \<open>What serialization writes\<close>

text \<open>The buffer of \<open>n\<close> bytes after the bytes \<open>bs\<close> have been written to its front.\<close>

definition filled :: "bytes \<Rightarrow> nat \<Rightarrow> 'a base_message_scheme \<Rightarrow> 'a base_message_scheme" where
  "filled bs n m = m\<lparr>mData := map Some bs @ replicate (n - length bs) None, mCursor := length bs\<rparr>"

lemma memcpy_to_filled:
  "length bs + length cs \<le> n \<Longrightarrow> memcpy_to cs (filled bs n m) = Inr (filled (bs @ cs) n m)"
  by (simp add: memcpy_to_def filled_def Let_def drop_replicate)

lemma memcpy_all_filled:
  "length bs + length (concat xs) \<le> n \<Longrightarrow>
   memcpy_all xs (filled bs n m) = Inr (filled (bs @ concat xs) n m)"
  by (induction xs arbitrary: bs) (simp_all add: memcpy_to_filled)

lemma pushMember_filled:
  "length bs + length (flat x) \<le> n \<Longrightarrow>
   pushMember x (filled bs n m) = Inr (filled (bs @ flat x) n m)"
  by (cases x) (simp_all add: memcpy_to_filled memcpy_all_filled)

lemma pushMembers_filled:
  "length bs + length (payload ms) \<le> n \<Longrightarrow>
   pushMembers ms (filled bs n m) = Inr (filled (bs @ payload ms) n m)"
  by (induction ms arbitrary: bs) (simp_all add: pushMember_filled)

lemma filled_init: "m\<lparr>mCursor := 0, mData := replicate n None\<rparr> = filled [] n m"
  by (simp add: filled_def)

lemma serialize_members_counted:
  assumes "counted ms m" and "wire_length (MSG_NAME m) ms < 2 ^ 64"
  shows "serialize_members ms m =
     Inr (wire_image (MSG_NAME m) ms, filled (wire_image (MSG_NAME m) ms) (MSG_LEN m) m)"
proof -
  let ?hd = "[Scalar (enc_size (MSG_LEN m)), Scalar (enc_size (ARRAY_LIKE_S_SIZE m)),
              Vec 8 (map enc_size (ARRAY_LIKE_LENGHTS m)), Str (MSG_NAME m)]"
  have img: "payload (?hd @ ms) = wire_image (MSG_NAME m) ms"
    using assms(1) by (simp add: counted_def wire_image_def)
  have len: "length (wire_image (MSG_NAME m) ms) = MSG_LEN m"
    using assms(1) by (simp add: counted_def)
  have le: "length (payload ?hd) + length (payload ms) = MSG_LEN m"
    using img len by (metis length_append payload_simps(3))
  have "serializeHelper m = Inr (filled (payload ?hd) (MSG_LEN m) m)"
    unfolding serializeHelper_def filled_init
    using pushMembers_filled [of "[]" ?hd "MSG_LEN m" m] le by simp
  moreover have "pushMembers ms (filled (payload ?hd) (MSG_LEN m) m) =
      Inr (filled (wire_image (MSG_NAME m) ms) (MSG_LEN m) m)"
    using pushMembers_filled [of "payload ?hd" ms "MSG_LEN m" m] le img by simp
  moreover have "data_string (filled (wire_image (MSG_NAME m) ms) (MSG_LEN m) m) =
      Inr (wire_image (MSG_NAME m) ms)"
    using len by (auto simp: data_string_def filled_def comp_def)
  ultimately show ?thesis
    by (simp add: serialize_members_def)
qed


section \<open>What deserialization reads\<close>

text \<open>The reader stands before \<open>xs\<close>, the rest of the data.\<close>

definition reading :: "bytes \<Rightarrow> 'a base_message_scheme \<Rightarrow> bytes \<Rightarrow> bool" where
  "reading data m xs = (mCursor m \<le> length data \<and> drop (mCursor m) data = xs)"

abbreviation advance :: "nat \<Rightarrow> 'a base_message_scheme \<Rightarrow> 'a base_message_scheme" where
  "advance n m \<equiv> m\<lparr>mCursor := mCursor m + n\<rparr>"

lemma reading_advance:
  assumes "reading data m (xs @ rest)"
  shows "reading data (advance (length xs) m) rest"
proof -
  have "mCursor m + length (xs @ rest) = length data"
    using assms by (auto simp: reading_def simp del: length_append)
      (metis length_drop le_add_diff_inverse length_append)
  moreover have "drop (length xs + mCursor m) data = rest"
    using assms by (simp add: reading_def flip: drop_drop)
  ultimately show ?thesis by (simp add: reading_def add.commute)
qed

lemma memcpy_from_reading:
  assumes "reading data m (xs @ rest)" and "n = length xs"
  shows "memcpy_from data n m = Inr (xs, advance n m)"
proof -
  have "mCursor (advance (length xs) m) \<le> length data"
    using reading_advance [OF assms(1)] by (simp add: reading_def)
  then show ?thesis
    using assms by (simp add: memcpy_from_def reading_def)
qed

lemma reading_cong [simp]:
  "reading data (m\<lparr>mArrayLikeIndex := i\<rparr>) xs = reading data m xs"
  "reading data (m\<lparr>MSG_NAME := s\<rparr>) xs = reading data m xs"
  "reading data (m\<lparr>MSG_LEN := n\<rparr>) xs = reading data m xs"
  "reading data (m\<lparr>ARRAY_LIKE_S_SIZE := n\<rparr>) xs = reading data m xs"
  "reading data (m\<lparr>ARRAY_LIKE_LENGHTS := ls\<rparr>) xs = reading data m xs"
  by (simp_all add: reading_def)

lemma pop_elems_reading:
  assumes "reading data m (concat vs @ rest)" and "\<forall>v\<in>set vs. length v = sz"
  shows "pop_elems data sz (length vs) m = Inr (vs, advance (length (concat vs)) m)"
  using assms
proof (induction vs arbitrary: m)
  case Nil
  then show ?case by simp
next
  case (Cons v vs)
  from Cons.prems have r: "reading data m (v @ (concat vs @ rest))" by simp
  have "memcpy_from data sz m = Inr (v, advance sz m)"
    using memcpy_from_reading [OF r] Cons.prems(2) by simp
  moreover have "reading data (advance sz m) (concat vs @ rest)"
    using reading_advance [OF r] Cons.prems(2) by simp
  ultimately show ?case
    using Cons.IH [of "advance sz m"] Cons.prems(2) by (simp add: add.assoc)
qed

lemma pop_strs_reading:
  assumes "reading data m (concat ss @ rest)" and "drop i (ARRAY_LIKE_LENGHTS m) = map length ss"
  shows "pop_strs data i (length ss) m = Inr (ss, advance (length (concat ss)) m)"
  using assms
proof (induction ss arbitrary: i m)
  case Nil
  then show ?case by simp
next
  case (Cons s ss)
  from Cons.prems have r: "reading data m (s @ (concat ss @ rest))" by simp
  from Cons.prems(2) have i: "i < length (ARRAY_LIKE_LENGHTS m)"
    by (metis drop_all list.discI list.map_disc_iff not_le)
  with Cons.prems(2) have "ARRAY_LIKE_LENGHTS m ! i = length s"
    and d: "drop (Suc i) (ARRAY_LIKE_LENGHTS m) = map length ss"
    by (simp_all add: Cons_nth_drop_Suc [symmetric])
  then have "memcpy_from data (ARRAY_LIKE_LENGHTS m ! i) m = Inr (s, advance (length s) m)"
    using memcpy_from_reading [OF r] by simp
  moreover note Cons.IH [of "advance (length s) m" "Suc i"]
  ultimately show ?case
    using i d reading_advance [OF r] by (simp add: add.assoc)
qed

lemma next_len_drop:
  assumes "drop (mArrayLikeIndex m) (ARRAY_LIKE_LENGHTS m) = l # ls"
  shows "next_len m = Inr (l, m\<lparr>mArrayLikeIndex := mArrayLikeIndex m + 1\<rparr>)"
    and "drop (mArrayLikeIndex m + 1) (ARRAY_LIKE_LENGHTS m) = ls"
    and "mArrayLikeIndex m + 1 \<le> length (ARRAY_LIKE_LENGHTS m)"
proof -
  have i: "mArrayLikeIndex m < length (ARRAY_LIKE_LENGHTS m)"
    using assms by (metis drop_all list.discI not_le)
  then have "ARRAY_LIKE_LENGHTS m ! mArrayLikeIndex m = l"
    and "drop (mArrayLikeIndex m + 1) (ARRAY_LIKE_LENGHTS m) = ls"
    using assms by (simp_all add: Cons_nth_drop_Suc [symmetric])
  with i show "next_len m = Inr (l, m\<lparr>mArrayLikeIndex := mArrayLikeIndex m + 1\<rparr>)"
    and "drop (mArrayLikeIndex m + 1) (ARRAY_LIKE_LENGHTS m) = ls"
    and "mArrayLikeIndex m + 1 \<le> length (ARRAY_LIKE_LENGHTS m)"
    by (simp_all add: next_len_def)
qed

text \<open>How far the index moves: a vector of strings leaves it where it is.\<close>

fun index_step :: "member \<Rightarrow> nat" where
  "index_step (Scalar bs) = 0"
| "index_step (Str s) = 1"
| "index_step (Vec sz vs) = 1"
| "index_step (Strs ss) = 0"

abbreviation read_over :: "member list \<Rightarrow> 'a base_message_scheme \<Rightarrow> 'a base_message_scheme" where
  "read_over ms m \<equiv> m\<lparr>mCursor := mCursor m + length (payload ms),
     mArrayLikeIndex := mArrayLikeIndex m + sum_list (map index_step ms)\<rparr>"

definition aligned :: "member list \<Rightarrow> 'a base_message_scheme \<Rightarrow> bool" where
  "aligned ms m =
     (drop (mArrayLikeIndex m) (ARRAY_LIKE_LENGHTS m) = all_lens ms \<and>
      (list_ex is_strs ms \<longrightarrow>
         ARRAY_LIKE_S_SIZE m = length (ARRAY_LIKE_LENGHTS m) \<and>
         mArrayLikeIndex m \<le> length (ARRAY_LIKE_LENGHTS m)))"

lemma popMember_reading:
  assumes "fits old x" and "wf_member x" and "reading data m (flat x @ rest)"
    and "aligned (x # ms) m" and "is_strs x \<longrightarrow> ms = []"
  shows "popMember data old m = Inr (x, read_over [x] m)"
    and "\<not> is_strs x \<longrightarrow> aligned ms (read_over [x] m)"
proof -
  have "popMember data old m = Inr (x, read_over [x] m) \<and>
        (\<not> is_strs x \<longrightarrow> aligned ms (read_over [x] m))"
  proof (cases x)
    case (Scalar bs)
    with assms show ?thesis
      by (cases old) (auto simp: memcpy_from_reading aligned_def)
  next
    case (Str s)
    with assms(4) have d: "drop (mArrayLikeIndex m) (ARRAY_LIKE_LENGHTS m) = length s # all_lens ms"
      by (simp add: aligned_def)
    from Str assms(3) have "reading data (m\<lparr>mArrayLikeIndex := mArrayLikeIndex m + 1\<rparr>) (s @ rest)"
      by simp
    with Str assms(1,4) next_len_drop [OF d] show ?thesis
      by (cases old) (auto simp: memcpy_from_reading aligned_def)
  next
    case (Vec sz vs)
    with assms(4) have d: "drop (mArrayLikeIndex m) (ARRAY_LIKE_LENGHTS m) = length vs # all_lens ms"
      by (simp add: aligned_def)
    from Vec assms(3)
    have "reading data (m\<lparr>mArrayLikeIndex := mArrayLikeIndex m + 1\<rparr>) (concat vs @ rest)"
      by simp
    with Vec assms(1,2,4) next_len_drop [OF d] show ?thesis
      by (cases old) (auto simp: pop_elems_reading aligned_def list_all_iff)
  next
    case (Strs ss)
    with assms(4,5) have d: "drop (mArrayLikeIndex m) (ARRAY_LIKE_LENGHTS m) = map length ss"
      and n: "ARRAY_LIKE_S_SIZE m = length (ARRAY_LIKE_LENGHTS m)"
      by (simp_all add: aligned_def)
    have n': "ARRAY_LIKE_S_SIZE m - mArrayLikeIndex m = length ss"
      unfolding n by (metis d length_drop length_map)
    from Strs assms(3) have r: "reading data m (concat ss @ rest)" by simp
    from Strs assms(1) have "old = Strs []" by (cases old) simp_all
    then show ?thesis
      by (simp add: Strs n' pop_strs_reading [OF r d])
  qed
  then show "popMember data old m = Inr (x, read_over [x] m)"
    and "\<not> is_strs x \<longrightarrow> aligned ms (read_over [x] m)"
    by simp_all
qed


lemma popMembers_reading:
  assumes "list_all2 fits olds ms" and "wf_members ms" and "reading data m (payload ms @ rest)"
    and "aligned ms m"
  shows "popMembers data olds m = Inr (ms, read_over ms m)"
  using assms
proof (induction ms arbitrary: olds m rule: list.induct)
  case Nil
  then show ?case by simp
next
  case (Cons x ms)
  from Cons.prems obtain old olds' where olds: "olds = old # olds'" "fits old x"
      "list_all2 fits olds' ms"
    by (auto simp: list_all2_Cons2)
  from Cons.prems have wf: "wf_member x" "wf_members ms" "is_strs x \<longrightarrow> ms = []"
    by (cases x; auto simp: wf_members_def)+
  from Cons.prems(3) have r: "reading data m (flat x @ (payload ms @ rest))" by simp
  note pm = popMember_reading [OF olds(2) wf(1) r Cons.prems(4) wf(3)]
  from reading_advance [OF r] have "reading data (read_over [x] m) (payload ms @ rest)" by simp
  with Cons.IH [OF olds(3) wf(2)] pm wf(3) olds(3) show ?case
    by (cases "is_strs x") (simp_all add: olds(1) add.assoc)
qed

lemma fill_lengths_reading:
  assumes "reading data m (concat (map enc_size ls) @ rest)" and "\<forall>l\<in>set ls. l < 2 ^ 64"
  shows "fill_lengths data (length ls) m =
    Inr (m\<lparr>mCursor := mCursor m + 8 * length ls,
           ARRAY_LIKE_LENGHTS := ARRAY_LIKE_LENGHTS m @ ls\<rparr>)"
  using assms
proof (induction ls arbitrary: m)
  case Nil
  then show ?case by simp
next
  case (Cons l ls)
  from Cons.prems have r: "reading data m (enc_size l @ (concat (map enc_size ls) @ rest))" by simp
  have "memcpy_from data 8 m = Inr (enc_size l, advance 8 m)"
    using memcpy_from_reading [OF r] by simp
  moreover note reading_advance [OF r]
  ultimately show ?case
    using Cons.IH [of "advance 8 m\<lparr>ARRAY_LIKE_LENGHTS := ARRAY_LIKE_LENGHTS m @ [l]\<rparr>"]
      Cons.prems(2)
    by (simp add: add.assoc)
qed

lemma name_lens_bound:
  assumes "wire_length name ms < 2 ^ 64" and "list_all wf_member ms"
    and "\<forall>sz vs. Vec sz vs \<in> set ms \<longrightarrow> 0 < sz"
  shows "\<forall>l\<in>set (name_lens name ms). l < 2 ^ 64"
proof -
  have "l \<le> length (flat x)" if "x \<in> set ms" "l \<in> set (lens x)" for l x
  proof (cases x)
    case (Vec sz vs)
    with that assms(2,3) have "length (flat x) = sz * length vs" "0 < sz" "l = length vs"
      by (auto simp: list_all_iff intro!: flat_Vec_length)
    then show ?thesis by (cases sz) auto
  next
    case (Strs ss)
    with that obtain s where "s \<in> set ss" "l = length s" by auto
    then have "l \<le> sum_list (map length ss)" by (simp add: member_le_sum_list)
    with Strs show ?thesis by (simp add: length_concat)
  qed (use that in auto)
  moreover have "length (flat x) \<le> length (payload ms)" if "x \<in> set ms" for x
    using that by (induction ms) auto
  ultimately have "l \<le> length (payload ms)" if "l \<in> set (all_lens ms)" for l
    using that by (fastforce simp: all_lens_def)
  then show ?thesis
    using assms(1) by (fastforce simp: name_lens_def wire_length_def)
qed

text \<open>The header: an object whose index has consumed all its lengths (in particular a fresh
  one) reads the counters, appends the new lengths and takes the name.\<close>

definition consumed :: "'a base_message_scheme \<Rightarrow> bool" where
  "consumed m = (mArrayLikeIndex m = length (ARRAY_LIKE_LENGHTS m))"

abbreviation header_read :: "string \<Rightarrow> member list \<Rightarrow> 'a base_message_scheme \<Rightarrow> 'a base_message_scheme"
where
  "header_read name ms m \<equiv>
     m\<lparr>MSG_NAME := name, MSG_LEN := wire_length name ms,
       ARRAY_LIKE_LENGHTS := ARRAY_LIKE_LENGHTS m @ name_lens name ms,
       ARRAY_LIKE_S_SIZE := length (name_lens name ms),
       mArrayLikeIndex := mArrayLikeIndex m + 1,
       mCursor := 16 + 8 * length (name_lens name ms) + length name\<rparr>"

lemma deserializeHelper_wire:
  assumes "consumed m" and "wire_length name ms < 2 ^ 64"
    and "\<forall>l\<in>set (name_lens name ms). l < 2 ^ 64"
  shows "deserializeHelper (wire_image name ms @ rest) m = Inr (header_read name ms m)"
    and "reading (wire_image name ms @ rest) (header_read name ms m) (payload ms @ rest)"
proof -
  let ?d = "wire_image name ms @ rest" and ?L = "name_lens name ms"
  let ?t0 = "enc_size (length ?L) @ (concat (map enc_size ?L) @ (name @ (payload ms @ rest)))"
  have n: "length ?L < 2 ^ 64" and w: "wire_length name ms < 2 ^ 64"
    using assms(2) by (simp_all add: wire_length_def)
  let ?m0 = "m\<lparr>mCursor := 0\<rparr>"
  have r0: "reading ?d ?m0 (enc_size (wire_length name ms) @ ?t0)"
    by (simp add: reading_def wire_image_def)
  let ?m1 = "m\<lparr>mCursor := 8, MSG_LEN := wire_length name ms\<rparr>"
  have r1: "reading ?d ?m1 ?t0"
    using reading_advance [OF r0] by simp
  let ?m2 = "m\<lparr>mCursor := 16, MSG_LEN := wire_length name ms, ARRAY_LIKE_S_SIZE := length ?L\<rparr>"
  have r2: "reading ?d ?m2 (concat (map enc_size ?L) @ (name @ (payload ms @ rest)))"
    using reading_advance [OF r1] by (simp add: reading_def)
  let ?m3 = "?m2\<lparr>mCursor := 16 + 8 * length ?L, ARRAY_LIKE_LENGHTS := ARRAY_LIKE_LENGHTS m @ ?L\<rparr>"
  have f: "fillArrayLike ?d ?m2 = Inr ?m3"
    using fill_lengths_reading [OF r2 assms(3)]
    by (simp add: fillArrayLike_def name_lens_def)
  have r3: "reading ?d ?m3 (name @ (payload ms @ rest))"
    using reading_advance [OF r2] by (simp add: length_concat_const [of _ 8])
  have "drop (mArrayLikeIndex ?m3) (ARRAY_LIKE_LENGHTS ?m3) = length name # all_lens ms"
    using assms(1) by (simp add: consumed_def name_lens_def)
  note nl = next_len_drop [OF this]
  have r4: "reading ?d (?m3\<lparr>mArrayLikeIndex := mArrayLikeIndex ?m3 + 1\<rparr>) (name @ (payload ms @ rest))"
    using r3 by simp
  from memcpy_from_reading [OF r0, of 8]
  have m0: "memcpy_from ?d 8 (m\<lparr>mCursor := 0\<rparr>) = Inr (enc_size (wire_length name ms), m\<lparr>mCursor := 8\<rparr>)"
    by simp
  from memcpy_from_reading [OF r1, of 8]
  have m1: "memcpy_from ?d 8 ?m1 = Inr (enc_size (length ?L), m\<lparr>mCursor := 16, MSG_LEN := wire_length name ms\<rparr>)"
    by simp
  from memcpy_from_reading [OF r4, of "length name"]
  have m4: "memcpy_from ?d (length name) (?m3\<lparr>mArrayLikeIndex := mArrayLikeIndex ?m3 + 1\<rparr>) =
      Inr (name, header_read name ms m\<lparr>MSG_NAME := MSG_NAME m\<rparr>)"
    by simp
  show "deserializeHelper ?d m = Inr (header_read name ms m)"
    unfolding deserializeHelper_def m0 rbind_simps prod.case dec_enc_size [OF w]
    using m1 f nl(1) m4 n by simp
  show "reading ?d (header_read name ms m) (payload ms @ rest)"
    using reading_advance [OF r4] by (simp add: reading_def)
qed

section \<open>Round trip\<close>

definition positive_sizes :: "member list \<Rightarrow> bool" where
  "positive_sizes ms = (\<forall>sz vs. Vec sz vs \<in> set ms \<longrightarrow> 0 < sz)"

text \<open>The object after a successful \<^verbatim>\<open>deserialize\<close>.\<close>

definition after_read :: "string \<Rightarrow> member list \<Rightarrow> 'a base_message_scheme \<Rightarrow> 'a base_message_scheme"
where
  "after_read name ms m = read_over ms (header_read name ms m)"

lemma deserialize_wire:
  assumes "consumed m" and "list_ex is_strs ms \<longrightarrow> ARRAY_LIKE_LENGHTS m = []"
    and "wf_members ms" and "positive_sizes ms" and "wire_length name ms < 2 ^ 64"
    and "list_all2 fits olds ms"
  shows "deserialize_members (wire_image name ms @ rest) olds m = Inr (ms, after_read name ms m)"
proof -
  from assms(3,4,5) have b: "\<forall>l\<in>set (name_lens name ms). l < 2 ^ 64"
    by (intro name_lens_bound) (auto simp: wf_members_def positive_sizes_def)
  note h = deserializeHelper_wire [OF assms(1,5) b, of rest]
  have "aligned ms (header_read name ms m)"
    using assms(1,2) by (auto simp: aligned_def consumed_def name_lens_def)
  from popMembers_reading [OF assms(6,3) h(2) this] h(1) show ?thesis
    by (simp add: deserialize_members_def after_read_def)
qed

lemma sum_index_step: "\<not> list_ex is_strs ms \<Longrightarrow> sum_list (map index_step ms) = length (all_lens ms)"
proof (induction ms)
  case Nil
  then show ?case by simp
next
  case (Cons x ms)
  then show ?case by (cases x) simp_all
qed

text \<open>Without a vector of strings the object has consumed all lengths again, so it can read
  the next message: the servers keep one object per thread and message type and read every
  message into it.\<close>

lemma consumed_after_read:
  "consumed m \<Longrightarrow> \<not> list_ex is_strs ms \<Longrightarrow> consumed (after_read name ms m)"
  by (simp add: consumed_def after_read_def sum_index_step name_lens_def)

lemma after_read_sel [simp]:
  "MSG_NAME (after_read name ms m) = name"
  "MSG_LEN (after_read name ms m) = wire_length name ms"
  "ARRAY_LIKE_S_SIZE (after_read name ms m) = length (name_lens name ms)"
  by (simp_all add: after_read_def)

lemma consumed_fresh: "uncounted m \<Longrightarrow> consumed m"
  by (simp add: consumed_def uncounted_def)

section \<open>Truncated data\<close>

text \<open>Reading more data than was there changes nothing that was read: a successful read only
  looked at the data it had.\<close>

lemma memcpy_from_mono:
  assumes "memcpy_from d n m = Inr (v, m')"
  shows "memcpy_from (d @ r) n m = Inr (v, m')" and "mCursor m' \<le> length d"
  using assms by (auto simp: memcpy_from_def split: if_splits)

lemma next_len_cursor: "next_len m = Inr (l, m') \<Longrightarrow> mCursor m' = mCursor m"
  by (auto simp: next_len_def split: if_splits)

lemma pop_elems_mono:
  "pop_elems d sz n m = Inr (vs, m') \<Longrightarrow> mCursor m \<le> length d \<Longrightarrow>
   pop_elems (d @ r) sz n m = Inr (vs, m') \<and> mCursor m' \<le> length d"
proof (induction n arbitrary: m vs)
  case 0
  then show ?case by simp
next
  case (Suc n)
  from Suc.prems(1) obtain v m1 ws where a: "memcpy_from d sz m = Inr (v, m1)"
      "pop_elems d sz n m1 = Inr (ws, m')" "vs = v # ws"
    by (auto simp: rbind_eq_Inr)
  from memcpy_from_mono [OF a(1)] Suc.IH [OF a(2)] a(3) show ?case by simp
qed

lemma pop_strs_mono:
  "pop_strs d i n m = Inr (ss, m') \<Longrightarrow> mCursor m \<le> length d \<Longrightarrow>
   pop_strs (d @ r) i n m = Inr (ss, m') \<and> mCursor m' \<le> length d"
proof (induction n arbitrary: i m ss)
  case 0
  then show ?case by simp
next
  case (Suc n)
  from Suc.prems(1) obtain v m1 ws
    where a: "i < length (ARRAY_LIKE_LENGHTS m)" "memcpy_from d (ARRAY_LIKE_LENGHTS m ! i) m = Inr (v, m1)"
      "pop_strs d (Suc i) n m1 = Inr (ws, m')" "ss = v # ws"
    by (auto simp: rbind_eq_Inr split: if_splits)
  from memcpy_from_mono [OF a(2)] Suc.IH [OF a(3)] a(1,4) show ?case by simp
qed

lemma popMember_mono:
  assumes "popMember d old m = Inr (v, m')" and "mCursor m \<le> length d"
  shows "popMember (d @ r) old m = Inr (v, m') \<and> mCursor m' \<le> length d"
proof (cases old)
  case (Scalar bs)
  with assms show ?thesis by (auto simp: rbind_eq_Inr dest: memcpy_from_mono)
next
  case (Str s)
  with assms show ?thesis by (auto simp: rbind_eq_Inr dest: memcpy_from_mono)
next
  case (Vec sz vs)
  with assms obtain l m1 ws where "next_len m = Inr (l, m1)" "pop_elems d sz l m1 = Inr (ws, m')"
      "v = Vec sz (vs @ ws)"
    by (auto simp: rbind_eq_Inr)
  then show ?thesis
    using Vec assms(2) pop_elems_mono [of d sz l m1 ws m' r] by (simp add: next_len_cursor)
next
  case (Strs ss)
  with assms obtain ts
    where "pop_strs d (mArrayLikeIndex m) (ARRAY_LIKE_S_SIZE m - mArrayLikeIndex m) m = Inr (ts, m')"
      "v = Strs (ss @ ts)"
    by (auto simp: rbind_eq_Inr)
  then show ?thesis
    using Strs assms(2) pop_strs_mono [of d _ _ m ts m' r] by simp
qed

lemma popMembers_mono:
  "popMembers d olds m = Inr (vs, m') \<Longrightarrow> mCursor m \<le> length d \<Longrightarrow>
   popMembers (d @ r) olds m = Inr (vs, m') \<and> mCursor m' \<le> length d"
proof (induction olds arbitrary: m vs)
  case Nil
  then show ?case by simp
next
  case (Cons x xs)
  from Cons.prems(1) obtain v m1 ws where a: "popMember d x m = Inr (v, m1)"
      "popMembers d xs m1 = Inr (ws, m')" "vs = v # ws"
    by (auto simp: rbind_eq_Inr)
  from popMember_mono [OF a(1) Cons.prems(2), of r] Cons.IH [OF a(2)] a(3) show ?case by simp
qed

lemma fill_lengths_mono:
  "fill_lengths d n m = Inr m' \<Longrightarrow> mCursor m \<le> length d \<Longrightarrow>
   fill_lengths (d @ r) n m = Inr m' \<and> mCursor m' \<le> length d"
proof (induction n arbitrary: m)
  case 0
  then show ?case by simp
next
  case (Suc n)
  from Suc.prems(1) obtain v m1 where a: "memcpy_from d 8 m = Inr (v, m1)"
      "fill_lengths d n (m1\<lparr>ARRAY_LIKE_LENGHTS := ARRAY_LIKE_LENGHTS m1 @ [le_decode v]\<rparr>) = Inr m'"
    by (auto simp: rbind_eq_Inr)
  from memcpy_from_mono [OF a(1)] Suc.IH [OF a(2)] show ?case by simp
qed

lemma deserializeHelper_mono:
  assumes "deserializeHelper d m = Inr m'"
  shows "deserializeHelper (d @ r) m = Inr m' \<and> mCursor m' \<le> length d"
proof -
  from assms obtain v1 m1 v2 m2 m3 l m4 v5 m5
    where a: "memcpy_from d 8 (m\<lparr>mCursor := 0\<rparr>) = Inr (v1, m1)"
      "memcpy_from d 8 (m1\<lparr>MSG_LEN := le_decode v1\<rparr>) = Inr (v2, m2)"
      "fillArrayLike d (m2\<lparr>ARRAY_LIKE_S_SIZE := le_decode v2\<rparr>) = Inr m3"
      "next_len m3 = Inr (l, m4)" "memcpy_from d l m4 = Inr (v5, m5)" "m' = m5\<lparr>MSG_NAME := v5\<rparr>"
    by (auto simp: deserializeHelper_def rbind_eq_Inr)
  have "fillArrayLike (d @ r) (m2\<lparr>ARRAY_LIKE_S_SIZE := le_decode v2\<rparr>) = Inr m3"
    using a(3) fill_lengths_mono [of d _ _ m3 r] memcpy_from_mono(2) [OF a(2)]
    by (auto simp: fillArrayLike_def split: if_splits)
  then show ?thesis
    using memcpy_from_mono(1) [OF a(1), of r] memcpy_from_mono(2) [OF a(1)] memcpy_from_mono(1) [OF a(2), of r] memcpy_from_mono(2) [OF a(2)]
      memcpy_from_mono(1) [OF a(5), of r] memcpy_from_mono(2) [OF a(5)] a(4,6)
    by (simp add: deserializeHelper_def)
qed

lemma deserialize_members_mono:
  assumes "deserialize_members d olds m = Inr (vs, m')"
  shows "deserialize_members (d @ r) olds m = Inr (vs, m')" and "mCursor m' \<le> length d"
proof -
  from assms obtain m1 where a: "deserializeHelper d m = Inr m1" "popMembers d olds m1 = Inr (vs, m')"
    by (auto simp: deserialize_members_def rbind_eq_Inr)
  with deserializeHelper_mono [OF a(1), of r] popMembers_mono [OF a(2), of r]
  show "deserialize_members (d @ r) olds m = Inr (vs, m')" and "mCursor m' \<le> length d"
    by (simp_all add: deserialize_members_def)
qed

lemma after_read_cursor: "mCursor (after_read name ms m) = wire_length name ms"
  by (simp add: after_read_def wire_length_def)

section \<open>Properties\<close>

text \<open>C2. For a message that has not been counted, \<^verbatim>\<open>count()\<close> followed by \<^verbatim>\<open>serialize()\<close> never
  writes outside the buffer it allocated, leaves no byte of it unwritten, and returns exactly the
  wire image: total length, number of lengths, the lengths, the name, the members.\<close>

theorem serialize_writes_image:
  assumes "uncounted m" and "list_all wf_member ms" and "wire_length (MSG_NAME m) ms < 2 ^ 64"
  shows "\<exists>m'. serialize_members ms (count_members ms m) = Inr (wire_image (MSG_NAME m) ms, m')"
  using serialize_members_counted [OF count_members_counted [OF assms]] assms
  by (simp add: count_members_wf)

theorem serialize_writes_image_witness:
  "\<exists>m'. serialize_members [Scalar (enc_u64 20), Str ''ann'', Vec 2 [''ab'', ''cd''], Strs [''x'', '''']]
     (count_members [Scalar (enc_u64 20), Str ''ann'', Vec 2 [''ab'', ''cd''], Strs [''x'', '''']] new_base)
     = Inr (wire_image MSG_NAME_NONE
              [Scalar (enc_u64 20), Str ''ann'', Vec 2 [''ab'', ''cd''], Strs [''x'', '''']], m')"
  using serialize_writes_image [of new_base "[Scalar (enc_u64 20), Str ''ann'', Vec 2 [''ab'', ''cd''], Strs [''x'', '''']]"]
  by (simp add: uncounted_def new_base_def wire_length_def name_lens_def MSG_NAME_NONE_def)

text \<open>C1. Round trip through the wire: the bytes of any counted message, read into any object
  that has consumed all its lengths (a fresh one, or one that has read messages before; a
  vector of strings needs a fresh one), give back the name and every member, whatever follows in
  the data.\<close>

theorem message_round_trip:
  assumes "uncounted m" and "wf_members ms" and "positive_sizes ms"
    and "wire_length (MSG_NAME m) ms < 2 ^ 64"
    and "consumed r" and "list_ex is_strs ms \<longrightarrow> ARRAY_LIKE_LENGHTS r = []"
    and "list_all2 fits olds ms"
  shows "\<exists>s m' r'. serialize_members ms (count_members ms m) = Inr (s, m') \<and>
           length s = MSG_LEN m' \<and> take 8 s = enc_size (MSG_LEN m') \<and>
           deserialize_members (s @ rest) olds r = Inr (ms, r') \<and>
           MSG_NAME r' = MSG_NAME m \<and> MSG_LEN r' = length s"
proof -
  have wf: "list_all wf_member ms" using assms(2) by (simp add: wf_members_def)
  note c = serialize_members_counted [OF count_members_counted [OF assms(1) wf assms(4)]]
  have "take 8 (wire_image (MSG_NAME m) ms) = enc_size (wire_length (MSG_NAME m) ms)"
    by (simp add: wire_image_def)
  then show ?thesis
    using c deserialize_wire [OF assms(5,6,2,3,4,7), of rest] assms(1,4) wf
    by (simp add: count_members_wf filled_def)
qed

theorem message_round_trip_witness:
  "\<exists>s m' r'. serialize_members [Scalar (enc_i32 7), Str ''ann'', Strs [''x'', '''']]
         (count_members [Scalar (enc_i32 7), Str ''ann'', Strs [''x'', '''']] new_base) = Inr (s, m') \<and>
       length s = MSG_LEN m' \<and> take 8 s = enc_size (MSG_LEN m') \<and>
       deserialize_members (s @ c_str []) [Scalar (enc_i32 0), Str [], Strs []] new_base
         = Inr ([Scalar (enc_i32 7), Str ''ann'', Strs [''x'', '''']], r') \<and>
       MSG_NAME r' = MSG_NAME new_base \<and> MSG_LEN r' = length s"
  by (rule message_round_trip)
    (simp_all add: uncounted_def new_base_def wire_length_def name_lens_def MSG_NAME_NONE_def
      wf_members_def positive_sizes_def consumed_def)

text \<open>A strict prefix of a message is never accepted: \<^verbatim>\<open>deserialize\<close> runs past the end of
  the data (there is no check on the length in the code, so this is what the framing of the
  connection must exclude).\<close>

theorem truncated_message_rejected:
  assumes "consumed r" and "list_ex is_strs ms \<longrightarrow> ARRAY_LIKE_LENGHTS r = []"
    and "wf_members ms" and "positive_sizes ms" and "wire_length name ms < 2 ^ 64"
    and "list_all2 fits olds ms" and "n < wire_length name ms"
  shows "\<exists>e. deserialize_members (take n (wire_image name ms)) olds r = Inl e"
proof (cases "deserialize_members (take n (wire_image name ms)) olds r")
  case (Inr p)
  then obtain vs m' where p: "deserialize_members (take n (wire_image name ms)) olds r = Inr (vs, m')"
    by (cases p) auto
  have "deserialize_members (wire_image name ms) olds r = Inr (vs, m')" and "mCursor m' \<le> n"
    using deserialize_members_mono(1) [OF p, of "drop n (wire_image name ms)"]
      deserialize_members_mono(2) [OF p] assms(7) by simp_all
  moreover have "deserialize_members (wire_image name ms) olds r = Inr (ms, after_read name ms r)"
    using deserialize_wire [OF assms(1-6), of "[]"] by simp
  ultimately show ?thesis using assms(7) after_read_cursor [of name ms r] by auto
qed simp

theorem truncated_message_rejected_witness:
  "\<exists>e. deserialize_members (take 30 (wire_image ''m'' [Scalar (enc_u64 1), Str ''ann''])) 
     [Scalar (enc_u64 0), Str []] new_base = Inl e"
  using truncated_message_rejected
    [of new_base "[Scalar (enc_u64 1), Str ''ann'']" "''m''" "[Scalar (enc_u64 0), Str []]" 30]
  by (simp add: new_base_def wire_length_def name_lens_def wf_members_def positive_sizes_def
      consumed_def)

text \<open>\<^verbatim>\<open>count()\<close> is meant to be called once: it adds to counters it never resets, so a
  second call makes \<^verbatim>\<open>serialize()\<close> hand out bytes of the buffer that were never written.\<close>

theorem count_twice_uninitialised:
  assumes "uncounted m" and "list_all wf_member ms"
    and "3 * wire_length (MSG_NAME m) ms < 2 ^ 64"
  shows "serialize_members ms (count_members ms (count_members ms m)) = Inl Uninitialised"
proof -
  let ?L = "name_lens (MSG_NAME m) ms" and ?W = "wire_length (MSG_NAME m) ms"
  let ?n = "?W + (16 + length (MSG_NAME m) + length (payload ms)) + 8 * (2 * length ?L)"
  let ?m = "m\<lparr>MSG_LEN := ?n, ARRAY_LIKE_LENGHTS := ?L @ ?L, ARRAY_LIKE_S_SIZE := 2 * length ?L\<rparr>"
  have W: "?W < 2 ^ 64" using assms(3) by simp
  have n: "?n < 2 ^ 64" using assms(3) by (simp add: wire_length_def)
  have m1: "count_members ms m = m\<lparr>MSG_LEN := ?W, ARRAY_LIKE_LENGHTS := ?L, ARRAY_LIKE_S_SIZE := length ?L\<rparr>"
    using count_members_wf [OF assms(1,2) W] .
  have m2: "count_members ms (count_members ms m) = ?m"
    unfolding m1 using n assms(2) W
    by (simp add: count_members_def countHelper_def countCapacity_wf addLengthsSize_def add_len_def
        count_str_def add_array_like_def name_lens_def ac_simps)
  let ?hd = "[Scalar (enc_size ?n), Scalar (enc_size (2 * length ?L)), Vec 8 (map enc_size (?L @ ?L)),
              Str (MSG_NAME m)]"
  have lt: "length (payload (?hd @ ms)) < ?n"
    by (simp add: wire_length_def length_concat_const [of _ 8])
  have "serializeHelper ?m = Inr (filled (payload ?hd) ?n ?m)"
    unfolding serializeHelper_def filled_init
    using pushMembers_filled [of "[]" ?hd ?n ?m] lt by simp
  moreover have "pushMembers ms (filled (payload ?hd) ?n ?m) = Inr (filled (payload (?hd @ ms)) ?n ?m)"
    using pushMembers_filled [of "payload ?hd" ms ?n ?m] lt by simp
  moreover have "data_string (filled (payload (?hd @ ms)) ?n ?m) = Inl Uninitialised"
    using lt by (simp add: data_string_def filled_def)
  ultimately show ?thesis by (simp add: serialize_members_def m2)
qed

theorem count_twice_uninitialised_witness:
  "serialize_members [Str ''ann''] (count_members [Str ''ann''] (count_members [Str ''ann''] new_base))
     = Inl Uninitialised"
  by (rule count_twice_uninitialised)
    (simp_all add: uncounted_def new_base_def wire_length_def name_lens_def MSG_NAME_NONE_def)

end
