(* ===== verification/Message_Format.thy ===== *)
theory Message_Format
  imports Message_Codec
begin

text \<open>
  The contract every concrete message has with the codec: which members it hands to
  \<^verbatim>\<open>countCapacity\<close>, \<^verbatim>\<open>pushMembers\<close> and \<^verbatim>\<open>popMembers\<close> (the same list, in the same order) and
  how the values read are stored in its fields. The locale \<open>message_format\<close> proves once that
  \<^verbatim>\<open>count\<close>, \<^verbatim>\<open>serialize\<close> and \<^verbatim>\<open>deserialize\<close> of such a message form a round trip; the theories
  of the messages interpret it on their own definitions.

  The theory also holds \<^verbatim>\<open>TimestampMessage\<close> and \<^verbatim>\<open>HeartBeatPacket\<close>, from which the messages of
  the servers derive.
\<close>

section \<open>Members as object representations\<close>

definition m_u64 :: "u64 \<Rightarrow> member" where "m_u64 w = Scalar (enc_u64 w)"
definition m_i32 :: "i32 \<Rightarrow> member" where "m_i32 w = Scalar (enc_i32 w)"
definition m_bool :: "bool \<Rightarrow> member" where "m_bool b = Scalar (enc_bool b)"
definition m_i32s :: "i32 list \<Rightarrow> member" where "m_i32s ws = Vec 4 (map enc_i32 ws)"
definition m_u64s :: "u64 list \<Rightarrow> member" where "m_u64s ws = Vec 8 (map enc_u64 ws)"

text \<open>The value a reference of the given type has after \<^verbatim>\<open>popMember\<close>; \<^verbatim>\<open>popMember\<close> keeps the
  constructor of the member, so the last equations are never reached.\<close>

fun as_u64 :: "member \<Rightarrow> u64" where
  "as_u64 (Scalar bs) = dec_u64 bs" | "as_u64 _ = 0"
fun as_i32 :: "member \<Rightarrow> i32" where
  "as_i32 (Scalar bs) = dec_i32 bs" | "as_i32 _ = 0"
fun as_bool :: "member \<Rightarrow> bool" where
  "as_bool (Scalar bs) = dec_bool bs" | "as_bool _ = False"
fun as_str :: "member \<Rightarrow> string" where
  "as_str (Str s) = s" | "as_str _ = []"
fun as_i32s :: "member \<Rightarrow> i32 list" where
  "as_i32s (Vec n vs) = map dec_i32 vs" | "as_i32s _ = []"
fun as_u64s :: "member \<Rightarrow> u64 list" where
  "as_u64s (Vec n vs) = map dec_u64 vs" | "as_u64s _ = []"
fun as_strs :: "member \<Rightarrow> string list" where
  "as_strs (Strs ss) = ss" | "as_strs _ = []"

lemma as_m [simp, codec_simps]:
  "as_u64 (m_u64 w) = w" "as_i32 (m_i32 i) = i" "as_bool (m_bool b) = b"
  "as_i32s (m_i32s ws) = ws" "as_u64s (m_u64s us) = us"
  by (simp_all add: m_u64_def m_i32_def m_bool_def m_i32s_def m_u64s_def comp_def)

lemma wf_m [simp, codec_simps]:
  "wf_member (m_u64 w)" "wf_member (m_i32 i)" "wf_member (m_bool b)" "wf_member (m_i32s ws)"
  "wf_member (m_u64s us)"
  by (simp_all add: m_u64_def m_i32_def m_bool_def m_i32s_def m_u64s_def list_all_iff)

lemma strs_last_m [simp, codec_simps]:
  "strs_last (m_u64 w # ms) = strs_last ms" "strs_last (m_i32 i # ms) = strs_last ms"
  "strs_last (m_bool b # ms) = strs_last ms" "strs_last (m_i32s ws # ms) = strs_last ms"
  "strs_last (m_u64s us # ms) = strs_last ms"
  by (simp_all add: m_u64_def m_i32_def m_bool_def m_i32s_def m_u64s_def)

lemma is_strs_m [simp, codec_simps]:
  "\<not> is_strs (m_u64 w)" "\<not> is_strs (m_i32 i)" "\<not> is_strs (m_bool b)" "\<not> is_strs (m_i32s ws)"
  "\<not> is_strs (m_u64s us)"
  by (simp_all add: m_u64_def m_i32_def m_bool_def m_i32s_def m_u64s_def)

lemma fits_m [simp, codec_simps]:
  "fits (m_u64 w) (m_u64 w')" "fits (m_i32 i) (m_i32 i')" "fits (m_bool b) (m_bool b')"
  "fits (m_i32s ws) (m_i32s ws') = (ws = [])" "fits (m_u64s us) (m_u64s us') = (us = [])"
  by (simp_all add: m_u64_def m_i32_def m_bool_def m_i32s_def m_u64s_def)

lemma flat_m [simp, codec_simps]:
  "length (flat (m_u64 w)) = 8" "length (flat (m_i32 i)) = 4" "length (flat (m_bool b)) = 1"
  "length (flat (m_i32s ws)) = 4 * length ws" "length (flat (m_u64s us)) = 8 * length us"
  "lens (m_u64 w) = []" "lens (m_i32 i) = []" "lens (m_bool b) = []"
  "lens (m_i32s ws) = [length ws]" "lens (m_u64s us) = [length us]"
  by (simp_all add: m_u64_def m_i32_def m_bool_def m_i32s_def m_u64s_def
      length_concat_const [of _ 4] length_concat_const [of _ 8])

fun pos_size :: "member \<Rightarrow> bool" where
  "pos_size (Vec sz vs) = (0 < sz)"
| "pos_size _ = True"

lemma pos_size_m [simp, codec_simps]:
  "pos_size (m_u64 w)" "pos_size (m_i32 i)" "pos_size (m_bool b)" "pos_size (m_i32s ws)"
  "pos_size (m_u64s us)"
  by (simp_all add: m_u64_def m_i32_def m_bool_def m_i32s_def m_u64s_def)

lemma positive_sizes_iff: "positive_sizes ms = list_all pos_size ms"
proof -
  have "pos_size x = (\<forall>sz vs. x = Vec sz vs \<longrightarrow> 0 < sz)" for x
    by (cases x) auto
  then show ?thesis by (auto simp: positive_sizes_def list_all_iff)
qed

section \<open>The contract of a message\<close>

definition deserialize_with ::
  "('a base_message_scheme \<Rightarrow> member list) \<Rightarrow>
   (member list \<Rightarrow> 'a base_message_scheme \<Rightarrow> 'a base_message_scheme) \<Rightarrow>
   bytes \<Rightarrow> 'a base_message_scheme \<Rightarrow> 'a base_message_scheme result"
where
  "deserialize_with members store data m =
     rbind (deserializeHelper data m) (\<lambda>m.
     rbind (popMembers data (members m) m) (\<lambda>(vs, m). Inr (store vs m)))"

lemma more_base_updates [simp]:
  "base_message.more (m\<lparr>MSG_NAME := s\<rparr>) = base_message.more m"
  "base_message.more (m\<lparr>MSG_LEN := n\<rparr>) = base_message.more m"
  "base_message.more (m\<lparr>mData := d\<rparr>) = base_message.more m"
  "base_message.more (m\<lparr>ARRAY_LIKE_LENGHTS := ls\<rparr>) = base_message.more m"
  "base_message.more (m\<lparr>ARRAY_LIKE_S_SIZE := n\<rparr>) = base_message.more m"
  "base_message.more (m\<lparr>mArrayLikeIndex := n\<rparr>) = base_message.more m"
  "base_message.more (m\<lparr>mCursor := n\<rparr>) = base_message.more m"
  by (cases m; simp)+

locale message_format =
  fixes members :: "'a base_message_scheme \<Rightarrow> member list"
    and store :: "member list \<Rightarrow> 'a base_message_scheme \<Rightarrow> 'a base_message_scheme"
  assumes members_more: "base_message.more m = base_message.more m' \<Longrightarrow> members m = members m'"
    and store_base: "base_message.truncate (store vs m) = base_message.truncate m"
    and store_members: "members (store (members m') m) = members m'"
    and members_wf: "wf_members (members m)"
    and members_pos: "list_all pos_size (members m)"
begin

lemma members_update [simp]:
  "members (m\<lparr>MSG_NAME := s\<rparr>) = members m"
  "members (m\<lparr>MSG_LEN := n\<rparr>) = members m"
  "members (m\<lparr>mData := d\<rparr>) = members m"
  "members (m\<lparr>ARRAY_LIKE_LENGHTS := ls\<rparr>) = members m"
  "members (m\<lparr>ARRAY_LIKE_S_SIZE := n\<rparr>) = members m"
  "members (m\<lparr>mArrayLikeIndex := n\<rparr>) = members m"
  "members (m\<lparr>mCursor := n\<rparr>) = members m"
  by (rule members_more; simp)+

lemma base_of_store:
  "MSG_NAME (store vs m) = MSG_NAME m" "MSG_LEN (store vs m) = MSG_LEN m"
  "ARRAY_LIKE_LENGHTS (store vs m) = ARRAY_LIKE_LENGHTS m"
  "ARRAY_LIKE_S_SIZE (store vs m) = ARRAY_LIKE_S_SIZE m"
  "mArrayLikeIndex (store vs m) = mArrayLikeIndex m" "mCursor (store vs m) = mCursor m"
  using store_base [of vs m] by (simp_all add: base_message.defs)

text \<open>\<^verbatim>\<open>count()\<close> and then \<^verbatim>\<open>serialize()\<close> produce the image of the name and the members.\<close>

lemma count_serialize:
  assumes "uncounted m" and "wire_length (MSG_NAME m) (members m) < 2 ^ 64"
  shows "\<exists>m'. serialize_members (members (count_members (members m) m)) (count_members (members m) m)
           = Inr (wire_image (MSG_NAME m) (members m), m')"
proof -
  have wf: "list_all wf_member (members m)" using members_wf by (simp add: wf_members_def)
  have c: "counted (members m) (count_members (members m) m)"
    using count_members_counted [OF assms(1) wf assms(2)] .
  moreover have "MSG_NAME (count_members (members m) m) = MSG_NAME m"
      "members (count_members (members m) m) = members m"
    using assms wf by (simp_all add: count_members_wf)
  ultimately show ?thesis
    using serialize_members_counted [OF c] assms(2) by simp
qed

text \<open>Reading an image into an object that has consumed all its lengths.\<close>

lemma deserialize_image:
  assumes "consumed r" and "list_ex is_strs (members m) \<longrightarrow> ARRAY_LIKE_LENGHTS r = []"
    and "wire_length name (members m) < 2 ^ 64" and "list_all2 fits (members r) (members m)"
  shows "deserialize_with members store (wire_image name (members m) @ rest) r =
           Inr (store (members m) (after_read name (members m) r))"
proof -
  have pos: "positive_sizes (members m)"
    using members_pos by (simp add: positive_sizes_iff)
  have "rbind (deserializeHelper (wire_image name (members m) @ rest) r)
          (popMembers (wire_image name (members m) @ rest) (members r)) =
        Inr (members m, after_read name (members m) r)"
    using deserialize_wire [OF assms(1,2) members_wf pos assms(3,4)]
    by (simp add: deserialize_members_def)
  then obtain m1
    where "deserializeHelper (wire_image name (members m) @ rest) r = Inr m1"
      and "popMembers (wire_image name (members m) @ rest) (members r) m1 =
             Inr (members m, after_read name (members m) r)"
    by (auto simp: rbind_eq_Inr)
  moreover from this have "m1 = header_read name (members m) r"
    using deserializeHelper_wire(1)
      [OF assms(1,3) name_lens_bound [OF assms(3) _ pos [unfolded positive_sizes_def]], of rest]
      members_wf by (simp add: wf_members_def)
  ultimately show ?thesis by (simp add: deserialize_with_def)
qed

lemma round_trip:
  assumes "uncounted m" and "wire_length (MSG_NAME m) (members m) < 2 ^ 64"
    and "consumed r" and "list_ex is_strs (members m) \<longrightarrow> ARRAY_LIKE_LENGHTS r = []"
    and "list_all2 fits (members r) (members m)"
  shows "\<exists>s m' r'. serialize_members (members (count_members (members m) m)) (count_members (members m) m) = Inr (s, m') \<and>
           deserialize_with members store (c_str s) r = Inr r' \<and>
           r' = store (members m) (after_read (MSG_NAME m) (members m) r) \<and>
           MSG_NAME r' = MSG_NAME m \<and>
           (\<not> list_ex is_strs (members m) \<longrightarrow> consumed r')"
  using count_serialize [OF assms(1,2)] deserialize_image [OF assms(3,4,2,5)]
    consumed_after_read [OF assms(3), of "members m" "MSG_NAME m"]
  by (auto simp: c_str_def base_of_store consumed_def)

end

section \<open>TimestampMessage\<close>

text \<open>\<^verbatim>\<open>getMillisecondsSinceEpoch\<close> reads the system clock: the reading is an argument of the
  constructor. \<^verbatim>\<open>HeartBeatPacket\<close> adds nothing to it.\<close>

record timestamp_message = base_message +
  MILLISECONDS_SINCE_EPOCH :: u64

definition TimestampMessage_members :: "'a timestamp_message_scheme \<Rightarrow> member list" where
  "TimestampMessage_members m =
    [m_u64 (MILLISECONDS_SINCE_EPOCH m)]"

definition TimestampMessage_store :: "member list \<Rightarrow> 'a timestamp_message_scheme \<Rightarrow> 'a timestamp_message_scheme" where
  "TimestampMessage_store vs m =
     m\<lparr>MILLISECONDS_SINCE_EPOCH := as_u64 (vs ! 0)\<rparr>"

definition TimestampMessage_count :: "'a timestamp_message_scheme \<Rightarrow> 'a timestamp_message_scheme" where
  "TimestampMessage_count m = count_members (TimestampMessage_members m) m"

definition TimestampMessage_serialize :: "'a timestamp_message_scheme \<Rightarrow> (bytes \<times> 'a timestamp_message_scheme) result" where
  "TimestampMessage_serialize m = serialize_members (TimestampMessage_members m) m"

definition TimestampMessage_deserialize :: "bytes \<Rightarrow> 'a timestamp_message_scheme \<Rightarrow> 'a timestamp_message_scheme result" where
  "TimestampMessage_deserialize data m = deserialize_with TimestampMessage_members TimestampMessage_store data m"

lemma TimestampMessage_format: "message_format TimestampMessage_members TimestampMessage_store"
proof (unfold_locales, goal_cases)
  case (1 m m')
  then show ?case by (cases m; cases m') (simp add: TimestampMessage_members_def)
qed (simp_all add: TimestampMessage_members_def TimestampMessage_store_def base_message.defs wf_members_def)

interpretation TimestampMessage_m: message_format TimestampMessage_members TimestampMessage_store
  by (rule TimestampMessage_format)

definition new_TimestampMessage :: "u64 \<Rightarrow> timestamp_message" where
  "new_TimestampMessage now = base_message.extend new_base \<lparr>MILLISECONDS_SINCE_EPOCH = now\<rparr>"

type_synonym heart_beat_packet = timestamp_message

definition new_HeartBeatPacket :: "u64 \<Rightarrow> heart_beat_packet" where
  "new_HeartBeatPacket now = new_TimestampMessage now"

lemma new_TimestampMessage_uncounted [simp]: "uncounted (new_TimestampMessage now)"
  by (simp add: new_TimestampMessage_def base_message.defs new_base_def uncounted_def)

end
