(* ===== verification/Custom_Messages.thy ===== *)
theory Custom_Messages
  imports Message_Format
begin

text \<open>
  The messages of the namespace \<^verbatim>\<open>message::test\<close> in \<^verbatim>\<open>Base/message/CustomMessages\<close>: vectors of
  an arithmetic type, a vector of strings, and the two messages of the login test.
\<close>

section \<open>TestVecNormal\<close>

record test_vec_normal = base_message +
  INTS :: "i32 list"
  DOUBLES :: "u64 list"

definition TestVecNormal_members :: "'a test_vec_normal_scheme \<Rightarrow> member list" where
  "TestVecNormal_members m =
    [m_i32s (INTS m), m_u64s (DOUBLES m)]"

definition TestVecNormal_store :: "member list \<Rightarrow> 'a test_vec_normal_scheme \<Rightarrow> 'a test_vec_normal_scheme" where
  "TestVecNormal_store vs m =
     m\<lparr>INTS := as_i32s (vs ! 0), DOUBLES := as_u64s (vs ! 1)\<rparr>"

definition TestVecNormal_count :: "'a test_vec_normal_scheme \<Rightarrow> 'a test_vec_normal_scheme" where
  "TestVecNormal_count m = count_members (TestVecNormal_members m) m"

definition TestVecNormal_serialize :: "'a test_vec_normal_scheme \<Rightarrow> (bytes \<times> 'a test_vec_normal_scheme) result" where
  "TestVecNormal_serialize m = serialize_members (TestVecNormal_members m) m"

definition TestVecNormal_deserialize :: "bytes \<Rightarrow> 'a test_vec_normal_scheme \<Rightarrow> 'a test_vec_normal_scheme result" where
  "TestVecNormal_deserialize data m = deserialize_with TestVecNormal_members TestVecNormal_store data m"

lemma TestVecNormal_format: "message_format TestVecNormal_members TestVecNormal_store"
proof (unfold_locales, goal_cases)
  case (1 m m')
  then show ?case by (cases m; cases m') (simp add: TestVecNormal_members_def)
qed (simp_all add: TestVecNormal_members_def TestVecNormal_store_def base_message.defs wf_members_def)

interpretation TestVecNormal_m: message_format TestVecNormal_members TestVecNormal_store
  by (rule TestVecNormal_format)

section \<open>TestStringsMessage\<close>

record test_strings_message = base_message +
  TS_BOOL :: bool
  TS_INTS :: "u64 list"
  TS_STRINGS :: "string list"

definition TestStringsMessage_members :: "'a test_strings_message_scheme \<Rightarrow> member list" where
  "TestStringsMessage_members m =
    [m_bool (TS_BOOL m), m_u64s (TS_INTS m), Strs (TS_STRINGS m)]"

definition TestStringsMessage_store :: "member list \<Rightarrow> 'a test_strings_message_scheme \<Rightarrow> 'a test_strings_message_scheme" where
  "TestStringsMessage_store vs m =
     m\<lparr>TS_BOOL := as_bool (vs ! 0), TS_INTS := as_u64s (vs ! 1),
       TS_STRINGS := as_strs (vs ! 2)\<rparr>"

definition TestStringsMessage_count :: "'a test_strings_message_scheme \<Rightarrow> 'a test_strings_message_scheme" where
  "TestStringsMessage_count m = count_members (TestStringsMessage_members m) m"

definition TestStringsMessage_serialize :: "'a test_strings_message_scheme \<Rightarrow> (bytes \<times> 'a test_strings_message_scheme) result" where
  "TestStringsMessage_serialize m = serialize_members (TestStringsMessage_members m) m"

definition TestStringsMessage_deserialize :: "bytes \<Rightarrow> 'a test_strings_message_scheme \<Rightarrow> 'a test_strings_message_scheme result" where
  "TestStringsMessage_deserialize data m = deserialize_with TestStringsMessage_members TestStringsMessage_store data m"

lemma TestStringsMessage_format: "message_format TestStringsMessage_members TestStringsMessage_store"
proof (unfold_locales, goal_cases)
  case (1 m m')
  then show ?case by (cases m; cases m') (simp add: TestStringsMessage_members_def)
qed (simp_all add: TestStringsMessage_members_def TestStringsMessage_store_def base_message.defs wf_members_def)

interpretation TestStringsMessage_m: message_format TestStringsMessage_members TestStringsMessage_store
  by (rule TestStringsMessage_format)

section \<open>MessagesPacker\<close>

record messages_packer = timestamp_message +
  MESSAGES :: "string list"

definition MessagesPacker_members :: "'a messages_packer_scheme \<Rightarrow> member list" where
  "MessagesPacker_members m =
    [Strs (MESSAGES m)]"

definition MessagesPacker_store :: "member list \<Rightarrow> 'a messages_packer_scheme \<Rightarrow> 'a messages_packer_scheme" where
  "MessagesPacker_store vs m =
     m\<lparr>MESSAGES := as_strs (vs ! 0)\<rparr>"

definition MessagesPacker_count :: "'a messages_packer_scheme \<Rightarrow> 'a messages_packer_scheme" where
  "MessagesPacker_count m = count_members (MessagesPacker_members m) m"

definition MessagesPacker_serialize :: "'a messages_packer_scheme \<Rightarrow> (bytes \<times> 'a messages_packer_scheme) result" where
  "MessagesPacker_serialize m = serialize_members (MessagesPacker_members m) m"

definition MessagesPacker_deserialize :: "bytes \<Rightarrow> 'a messages_packer_scheme \<Rightarrow> 'a messages_packer_scheme result" where
  "MessagesPacker_deserialize data m = deserialize_with MessagesPacker_members MessagesPacker_store data m"

lemma MessagesPacker_format: "message_format MessagesPacker_members MessagesPacker_store"
proof (unfold_locales, goal_cases)
  case (1 m m')
  then show ?case by (cases m; cases m') (simp add: MessagesPacker_members_def)
qed (simp_all add: MessagesPacker_members_def MessagesPacker_store_def base_message.defs wf_members_def)

interpretation MessagesPacker_m: message_format MessagesPacker_members MessagesPacker_store
  by (rule MessagesPacker_format)

section \<open>CLoginMessage\<close>

record c_login_message = timestamp_message +
  requestCode :: u64
  account :: string
  password :: string

definition CLoginMessage_members :: "'a c_login_message_scheme \<Rightarrow> member list" where
  "CLoginMessage_members m =
    [m_u64 (requestCode m), Str (account m), Str (password m)]"

definition CLoginMessage_store :: "member list \<Rightarrow> 'a c_login_message_scheme \<Rightarrow> 'a c_login_message_scheme" where
  "CLoginMessage_store vs m =
     m\<lparr>requestCode := as_u64 (vs ! 0), account := as_str (vs ! 1),
       password := as_str (vs ! 2)\<rparr>"

definition CLoginMessage_count :: "'a c_login_message_scheme \<Rightarrow> 'a c_login_message_scheme" where
  "CLoginMessage_count m = count_members (CLoginMessage_members m) m"

definition CLoginMessage_serialize :: "'a c_login_message_scheme \<Rightarrow> (bytes \<times> 'a c_login_message_scheme) result" where
  "CLoginMessage_serialize m = serialize_members (CLoginMessage_members m) m"

definition CLoginMessage_deserialize :: "bytes \<Rightarrow> 'a c_login_message_scheme \<Rightarrow> 'a c_login_message_scheme result" where
  "CLoginMessage_deserialize data m = deserialize_with CLoginMessage_members CLoginMessage_store data m"

lemma CLoginMessage_format: "message_format CLoginMessage_members CLoginMessage_store"
proof (unfold_locales, goal_cases)
  case (1 m m')
  then show ?case by (cases m; cases m') (simp add: CLoginMessage_members_def)
qed (simp_all add: CLoginMessage_members_def CLoginMessage_store_def base_message.defs wf_members_def)

interpretation CLoginMessage_m: message_format CLoginMessage_members CLoginMessage_store
  by (rule CLoginMessage_format)

section \<open>SLoginMessage\<close>

record s_login_message = timestamp_message +
  requestResult :: u64
  token :: string

definition SLoginMessage_members :: "'a s_login_message_scheme \<Rightarrow> member list" where
  "SLoginMessage_members m =
    [m_u64 (requestResult m), Str (token m)]"

definition SLoginMessage_store :: "member list \<Rightarrow> 'a s_login_message_scheme \<Rightarrow> 'a s_login_message_scheme" where
  "SLoginMessage_store vs m =
     m\<lparr>requestResult := as_u64 (vs ! 0), token := as_str (vs ! 1)\<rparr>"

definition SLoginMessage_count :: "'a s_login_message_scheme \<Rightarrow> 'a s_login_message_scheme" where
  "SLoginMessage_count m = count_members (SLoginMessage_members m) m"

definition SLoginMessage_serialize :: "'a s_login_message_scheme \<Rightarrow> (bytes \<times> 'a s_login_message_scheme) result" where
  "SLoginMessage_serialize m = serialize_members (SLoginMessage_members m) m"

definition SLoginMessage_deserialize :: "bytes \<Rightarrow> 'a s_login_message_scheme \<Rightarrow> 'a s_login_message_scheme result" where
  "SLoginMessage_deserialize data m = deserialize_with SLoginMessage_members SLoginMessage_store data m"

lemma SLoginMessage_format: "message_format SLoginMessage_members SLoginMessage_store"
proof (unfold_locales, goal_cases)
  case (1 m m')
  then show ?case by (cases m; cases m') (simp add: SLoginMessage_members_def)
qed (simp_all add: SLoginMessage_members_def SLoginMessage_store_def base_message.defs wf_members_def)

interpretation SLoginMessage_m: message_format SLoginMessage_members SLoginMessage_store
  by (rule SLoginMessage_format)

end
