(* ===== verification/Login_Messages.thy ===== *)
theory Login_Messages
  imports Message_Format
begin

text \<open>
  The messages between clients, the login server and the database server
  (\<^verbatim>\<open>Base/message/LoginMessage\<close>) and their codes.
\<close>

section \<open>Codes\<close>

definition CODE_NONE :: u64 where "CODE_NONE = 0"
definition LOGIN_REGISTER_REQUEST_CODE :: u64 where "LOGIN_REGISTER_REQUEST_CODE = 10"
definition LOGIN_LOGIN_REQUEST_CODE :: u64 where "LOGIN_LOGIN_REQUEST_CODE = 20"
definition LOGIN_OFFLINE_REQUEST_CODE :: u64 where "LOGIN_OFFLINE_REQUEST_CODE = 30"
definition LOGIN_LOGOUT_REQUEST_CODE :: u64 where "LOGIN_LOGOUT_REQUEST_CODE = 40"
definition LOGIN_CREATE_CHARACTER_CODE :: u64 where "LOGIN_CREATE_CHARACTER_CODE = 50"
definition LOGIN_DELETE_CHARACTER_CODE :: u64 where "LOGIN_DELETE_CHARACTER_CODE = 60"
definition LOGIN_CHARACTER_ENTER_GAME_CODE :: u64 where "LOGIN_CHARACTER_ENTER_GAME_CODE = 70"
definition LOGIN_REGISTER_RESULT_SUCCESS :: u64 where "LOGIN_REGISTER_RESULT_SUCCESS = 10010"
definition LOGIN_LOGIN_RESULT_SUCCESS :: u64 where "LOGIN_LOGIN_RESULT_SUCCESS = 10020"
definition LOGIN_CREATE_CHARACTER_RESULT_SUCCESS :: u64 where "LOGIN_CREATE_CHARACTER_RESULT_SUCCESS = 10050"
definition LOGIN_DELETE_CHARACTER_RESULT_SUCCESS :: u64 where "LOGIN_DELETE_CHARACTER_RESULT_SUCCESS = 10060"
definition LOGIN_CHARACTER_ENTER_SUCCESS :: u64 where "LOGIN_CHARACTER_ENTER_SUCCESS = 10070"
definition LOGIN_CHARACTER_ENTERING :: u64 where "LOGIN_CHARACTER_ENTERING = 10071"
definition LOGIN_REGISTER_ERROR_ACCOUNT_EXISTED :: u64 where "LOGIN_REGISTER_ERROR_ACCOUNT_EXISTED = 30011"
definition LOGIN_LOGIN_ERROR_ACCOUNT_NO_EXISTED :: u64 where "LOGIN_LOGIN_ERROR_ACCOUNT_NO_EXISTED = 30021"
definition LOGIN_LOGIN_ERROR_ACCOUNT_PASSWORD_MISMATCH :: u64 where "LOGIN_LOGIN_ERROR_ACCOUNT_PASSWORD_MISMATCH = 30022"
definition LOGIN_LOGIN_ERROR_ACCOUNT_ALREADY_ON :: u64 where "LOGIN_LOGIN_ERROR_ACCOUNT_ALREADY_ON = 30023"
definition LOGIN_CREATE_CHARACTER_ERROR_EXISTED :: u64 where "LOGIN_CREATE_CHARACTER_ERROR_EXISTED = 30051"
definition LOGIN_DELETE_CHARACTER_ERROR_NO_EXISTED :: u64 where "LOGIN_DELETE_CHARACTER_ERROR_NO_EXISTED = 30061"
definition LOGIN_CHARACTER_ERROR_ACCOUNT_MISMATCH :: u64 where "LOGIN_CHARACTER_ERROR_ACCOUNT_MISMATCH = 30071"
definition LOGIN_CHARACTER_ERROR_ENTER_GAME :: u64 where "LOGIN_CHARACTER_ERROR_ENTER_GAME = 30072"
definition LOGIN_ERROR_NO_SUCH_SERVICE :: u64 where "LOGIN_ERROR_NO_SUCH_SERVICE = 30098"
definition LOGIN_ERROR_FROM_DB :: u64 where "LOGIN_ERROR_FROM_DB = 30099"

lemmas login_codes =
  LOGIN_REGISTER_REQUEST_CODE_def
  LOGIN_LOGIN_REQUEST_CODE_def
  LOGIN_OFFLINE_REQUEST_CODE_def
  LOGIN_LOGOUT_REQUEST_CODE_def
  LOGIN_CREATE_CHARACTER_CODE_def
  LOGIN_DELETE_CHARACTER_CODE_def
  LOGIN_CHARACTER_ENTER_GAME_CODE_def
  LOGIN_REGISTER_RESULT_SUCCESS_def
  LOGIN_LOGIN_RESULT_SUCCESS_def
  LOGIN_CREATE_CHARACTER_RESULT_SUCCESS_def
  LOGIN_DELETE_CHARACTER_RESULT_SUCCESS_def
  LOGIN_CHARACTER_ENTER_SUCCESS_def
  LOGIN_CHARACTER_ENTERING_def
  LOGIN_REGISTER_ERROR_ACCOUNT_EXISTED_def
  LOGIN_LOGIN_ERROR_ACCOUNT_NO_EXISTED_def
  LOGIN_LOGIN_ERROR_ACCOUNT_PASSWORD_MISMATCH_def
  LOGIN_LOGIN_ERROR_ACCOUNT_ALREADY_ON_def
  LOGIN_CREATE_CHARACTER_ERROR_EXISTED_def
  LOGIN_DELETE_CHARACTER_ERROR_NO_EXISTED_def
  LOGIN_CHARACTER_ERROR_ACCOUNT_MISMATCH_def
  LOGIN_CHARACTER_ERROR_ENTER_GAME_def
  LOGIN_ERROR_NO_SUCH_SERVICE_def
  LOGIN_ERROR_FROM_DB_def

definition MESSAGE_TYPE_LOGIN :: string where
  "MESSAGE_TYPE_LOGIN = ''LOGIN_MESSAGE_TYPE''"
definition MESSAGE_TYPE_CHARACTER_BASE_INFO :: string where
  "MESSAGE_TYPE_CHARACTER_BASE_INFO = ''CHARACTER_BASE_INFO_MESSAGE_TYPE''"
definition LOGIN_TOKEN_NONE :: string where
  "LOGIN_TOKEN_NONE = []"

definition CODE_MESSAGE :: "u64 \<Rightarrow> string" where
  "CODE_MESSAGE code =
     (if code = LOGIN_REGISTER_REQUEST_CODE then ''LOGIN_REGISTER_REQUEST_CODE'' else [])"

section \<open>CharacterBaseInfo\<close>

record character_base_info = base_message +
  CB_CHARACTER_NAME :: string
  CB_CHARACTER_LEVEL :: i32
  CB_CHARACTER_GENDER :: bool
  CB_CHARACTER_OCCUPTION :: i32
  CB_CHARACTER_STATE :: i32

definition CharacterBaseInfo_members :: "'a character_base_info_scheme \<Rightarrow> member list" where
  "CharacterBaseInfo_members m =
    [Str (CB_CHARACTER_NAME m), m_i32 (CB_CHARACTER_LEVEL m), m_bool (CB_CHARACTER_GENDER m),
     m_i32 (CB_CHARACTER_OCCUPTION m), m_i32 (CB_CHARACTER_STATE m)]"

definition CharacterBaseInfo_store :: "member list \<Rightarrow> 'a character_base_info_scheme \<Rightarrow> 'a character_base_info_scheme" where
  "CharacterBaseInfo_store vs m =
     m\<lparr>CB_CHARACTER_NAME := as_str (vs ! 0), CB_CHARACTER_LEVEL := as_i32 (vs ! 1),
       CB_CHARACTER_GENDER := as_bool (vs ! 2), CB_CHARACTER_OCCUPTION := as_i32 (vs ! 3),
       CB_CHARACTER_STATE := as_i32 (vs ! 4)\<rparr>"

definition CharacterBaseInfo_count :: "'a character_base_info_scheme \<Rightarrow> 'a character_base_info_scheme" where
  "CharacterBaseInfo_count m = count_members (CharacterBaseInfo_members m) m"

definition CharacterBaseInfo_serialize :: "'a character_base_info_scheme \<Rightarrow> (bytes \<times> 'a character_base_info_scheme) result" where
  "CharacterBaseInfo_serialize m = serialize_members (CharacterBaseInfo_members m) m"

definition CharacterBaseInfo_deserialize :: "bytes \<Rightarrow> 'a character_base_info_scheme \<Rightarrow> 'a character_base_info_scheme result" where
  "CharacterBaseInfo_deserialize data m = deserialize_with CharacterBaseInfo_members CharacterBaseInfo_store data m"

lemma CharacterBaseInfo_format: "message_format CharacterBaseInfo_members CharacterBaseInfo_store"
proof (unfold_locales, goal_cases)
  case (1 m m')
  then show ?case by (cases m; cases m') (simp add: CharacterBaseInfo_members_def)
qed (simp_all add: CharacterBaseInfo_members_def CharacterBaseInfo_store_def base_message.defs wf_members_def)

interpretation CharacterBaseInfo_m: message_format CharacterBaseInfo_members CharacterBaseInfo_store
  by (rule CharacterBaseInfo_format)

section \<open>LoginRequestMessage\<close>

record login_request_message = timestamp_message +
  REQUEST_CODE :: u64
  ACCOUNT :: string
  PASSWORD :: string

definition LoginRequestMessage_members :: "'a login_request_message_scheme \<Rightarrow> member list" where
  "LoginRequestMessage_members m =
    [m_u64 (REQUEST_CODE m), Str (ACCOUNT m), Str (PASSWORD m)]"

definition LoginRequestMessage_store :: "member list \<Rightarrow> 'a login_request_message_scheme \<Rightarrow> 'a login_request_message_scheme" where
  "LoginRequestMessage_store vs m =
     m\<lparr>REQUEST_CODE := as_u64 (vs ! 0), ACCOUNT := as_str (vs ! 1),
       PASSWORD := as_str (vs ! 2)\<rparr>"

definition LoginRequestMessage_count :: "'a login_request_message_scheme \<Rightarrow> 'a login_request_message_scheme" where
  "LoginRequestMessage_count m = count_members (LoginRequestMessage_members m) m"

definition LoginRequestMessage_serialize :: "'a login_request_message_scheme \<Rightarrow> (bytes \<times> 'a login_request_message_scheme) result" where
  "LoginRequestMessage_serialize m = serialize_members (LoginRequestMessage_members m) m"

definition LoginRequestMessage_deserialize :: "bytes \<Rightarrow> 'a login_request_message_scheme \<Rightarrow> 'a login_request_message_scheme result" where
  "LoginRequestMessage_deserialize data m = deserialize_with LoginRequestMessage_members LoginRequestMessage_store data m"

lemma LoginRequestMessage_format: "message_format LoginRequestMessage_members LoginRequestMessage_store"
proof (unfold_locales, goal_cases)
  case (1 m m')
  then show ?case by (cases m; cases m') (simp add: LoginRequestMessage_members_def)
qed (simp_all add: LoginRequestMessage_members_def LoginRequestMessage_store_def base_message.defs wf_members_def)

interpretation LoginRequestMessage_m: message_format LoginRequestMessage_members LoginRequestMessage_store
  by (rule LoginRequestMessage_format)

section \<open>LoginResponseMessage\<close>

record login_response_message = timestamp_message +
  RESPONSE_CODE :: u64
  TOKEN :: string
  GAME_GATEWAY_IP :: string
  GAME_GATEWAY_PORT :: i32
  GAME_DS_IP :: string
  GAME_DS_PORT :: i32
  CHARACTER_BASE_INFO_MESSAGES :: "string list"

definition LoginResponseMessage_members :: "'a login_response_message_scheme \<Rightarrow> member list" where
  "LoginResponseMessage_members m =
    [m_u64 (RESPONSE_CODE m), Str (TOKEN m), Str (GAME_GATEWAY_IP m),
     m_i32 (GAME_GATEWAY_PORT m), Str (GAME_DS_IP m), m_i32 (GAME_DS_PORT m),
     Strs (CHARACTER_BASE_INFO_MESSAGES m)]"

definition LoginResponseMessage_store :: "member list \<Rightarrow> 'a login_response_message_scheme \<Rightarrow> 'a login_response_message_scheme" where
  "LoginResponseMessage_store vs m =
     m\<lparr>RESPONSE_CODE := as_u64 (vs ! 0), TOKEN := as_str (vs ! 1),
       GAME_GATEWAY_IP := as_str (vs ! 2), GAME_GATEWAY_PORT := as_i32 (vs ! 3),
       GAME_DS_IP := as_str (vs ! 4), GAME_DS_PORT := as_i32 (vs ! 5),
       CHARACTER_BASE_INFO_MESSAGES := as_strs (vs ! 6)\<rparr>"

definition LoginResponseMessage_count :: "'a login_response_message_scheme \<Rightarrow> 'a login_response_message_scheme" where
  "LoginResponseMessage_count m = count_members (LoginResponseMessage_members m) m"

definition LoginResponseMessage_serialize :: "'a login_response_message_scheme \<Rightarrow> (bytes \<times> 'a login_response_message_scheme) result" where
  "LoginResponseMessage_serialize m = serialize_members (LoginResponseMessage_members m) m"

definition LoginResponseMessage_deserialize :: "bytes \<Rightarrow> 'a login_response_message_scheme \<Rightarrow> 'a login_response_message_scheme result" where
  "LoginResponseMessage_deserialize data m = deserialize_with LoginResponseMessage_members LoginResponseMessage_store data m"

lemma LoginResponseMessage_format: "message_format LoginResponseMessage_members LoginResponseMessage_store"
proof (unfold_locales, goal_cases)
  case (1 m m')
  then show ?case by (cases m; cases m') (simp add: LoginResponseMessage_members_def)
qed (simp_all add: LoginResponseMessage_members_def LoginResponseMessage_store_def base_message.defs wf_members_def)

interpretation LoginResponseMessage_m: message_format LoginResponseMessage_members LoginResponseMessage_store
  by (rule LoginResponseMessage_format)

section \<open>LoginCharacterRequestMessage\<close>

record login_character_request_message = login_request_message +
  CHARACTER_NAME :: string
  CHARACTER_GENDER :: bool
  CHARACTER_OCCUPTION :: i32
  CHARACTER_STATE :: i32

definition LoginCharacterRequestMessage_members :: "'a login_character_request_message_scheme \<Rightarrow> member list" where
  "LoginCharacterRequestMessage_members m =
    [m_u64 (REQUEST_CODE m), Str (ACCOUNT m), Str (PASSWORD m), Str (CHARACTER_NAME m),
     m_bool (CHARACTER_GENDER m), m_i32 (CHARACTER_OCCUPTION m), m_i32 (CHARACTER_STATE m)]"

definition LoginCharacterRequestMessage_store :: "member list \<Rightarrow> 'a login_character_request_message_scheme \<Rightarrow> 'a login_character_request_message_scheme" where
  "LoginCharacterRequestMessage_store vs m =
     m\<lparr>REQUEST_CODE := as_u64 (vs ! 0), ACCOUNT := as_str (vs ! 1),
       PASSWORD := as_str (vs ! 2), CHARACTER_NAME := as_str (vs ! 3),
       CHARACTER_GENDER := as_bool (vs ! 4), CHARACTER_OCCUPTION := as_i32 (vs ! 5),
       CHARACTER_STATE := as_i32 (vs ! 6)\<rparr>"

definition LoginCharacterRequestMessage_count :: "'a login_character_request_message_scheme \<Rightarrow> 'a login_character_request_message_scheme" where
  "LoginCharacterRequestMessage_count m = count_members (LoginCharacterRequestMessage_members m) m"

definition LoginCharacterRequestMessage_serialize :: "'a login_character_request_message_scheme \<Rightarrow> (bytes \<times> 'a login_character_request_message_scheme) result" where
  "LoginCharacterRequestMessage_serialize m = serialize_members (LoginCharacterRequestMessage_members m) m"

definition LoginCharacterRequestMessage_deserialize :: "bytes \<Rightarrow> 'a login_character_request_message_scheme \<Rightarrow> 'a login_character_request_message_scheme result" where
  "LoginCharacterRequestMessage_deserialize data m = deserialize_with LoginCharacterRequestMessage_members LoginCharacterRequestMessage_store data m"

lemma LoginCharacterRequestMessage_format: "message_format LoginCharacterRequestMessage_members LoginCharacterRequestMessage_store"
proof (unfold_locales, goal_cases)
  case (1 m m')
  then show ?case by (cases m; cases m') (simp add: LoginCharacterRequestMessage_members_def)
qed (simp_all add: LoginCharacterRequestMessage_members_def LoginCharacterRequestMessage_store_def base_message.defs wf_members_def)

interpretation LoginCharacterRequestMessage_m: message_format LoginCharacterRequestMessage_members LoginCharacterRequestMessage_store
  by (rule LoginCharacterRequestMessage_format)

text \<open>\<^verbatim>\<open>initAccount\<close> copies the account of a login request into a character request.\<close>

definition initAccount ::
  "'b login_request_message_scheme \<Rightarrow> string \<Rightarrow> 'a login_character_request_message_scheme \<Rightarrow>
   'a login_character_request_message_scheme"
where
  "initAccount src msgName m = m\<lparr>MSG_NAME := msgName, ACCOUNT := ACCOUNT src, PASSWORD := PASSWORD src\<rparr>"

end
