(* ===== verification/Game_Messages.thy ===== *)
theory Game_Messages
  imports Message_Format
begin

text \<open>
  The messages of the dedicated servers and the game server (\<^verbatim>\<open>Base/message/GameMessage\<close>)
  and of the gateway (\<^verbatim>\<open>Base/message/GatewayMessage\<close>). A \<^verbatim>\<open>double\<close> is its 64-bit pattern.
\<close>

section \<open>Codes\<close>

definition GAME_DS_REGISTER_CODE :: u64 where "GAME_DS_REGISTER_CODE = 210"
definition GAME_DS_QUIT_CODE :: u64 where "GAME_DS_QUIT_CODE = 220"
definition GAME_DS_UPDATE_CODE :: u64 where "GAME_DS_UPDATE_CODE = 230"
definition GAME_LOAD_CHARACTER_CODE :: u64 where "GAME_LOAD_CHARACTER_CODE = 240"
definition GAME_UPLOAD_CHARACTER_CODE :: u64 where "GAME_UPLOAD_CHARACTER_CODE = 250"
definition GAME_LAST_UPLOAD_CHARACTER_CODE :: u64 where "GAME_LAST_UPLOAD_CHARACTER_CODE = 251"
definition GAME_DS_REGISTER_SUCCESS :: u64 where "GAME_DS_REGISTER_SUCCESS = 10210"
definition GAME_DS_QUIT_SUCCESS :: u64 where "GAME_DS_QUIT_SUCCESS = 10220"
definition GAME_DS_UPDATE_SUCCESS :: u64 where "GAME_DS_UPDATE_SUCCESS = 10230"
definition GAME_LOAD_CHARACTER_SUCCESS :: u64 where "GAME_LOAD_CHARACTER_SUCCESS = 10240"
definition GAME_UPLOAD_CHARACTER_SUCCESS :: u64 where "GAME_UPLOAD_CHARACTER_SUCCESS = 10250"
definition GAME_LAST_UPLOAD_CHARACTER_SUCCESS :: u64 where "GAME_LAST_UPLOAD_CHARACTER_SUCCESS = 10251"
definition GAME_DS_REGISTER_ERROR :: u64 where "GAME_DS_REGISTER_ERROR = 30210"
definition GAME_DS_QUIT_ERROR :: u64 where "GAME_DS_QUIT_ERROR = 30220"
definition GAME_DS_UPDATE_ERROR :: u64 where "GAME_DS_UPDATE_ERROR = 30230"
definition GAME_LOAD_CHARACTER_ERROR :: u64 where "GAME_LOAD_CHARACTER_ERROR = 30240"
definition GAME_DS_UNKNOWN_ERROR :: u64 where "GAME_DS_UNKNOWN_ERROR = 30999"

lemmas game_codes =
  GAME_DS_REGISTER_CODE_def
  GAME_DS_QUIT_CODE_def
  GAME_DS_UPDATE_CODE_def
  GAME_LOAD_CHARACTER_CODE_def
  GAME_UPLOAD_CHARACTER_CODE_def
  GAME_LAST_UPLOAD_CHARACTER_CODE_def
  GAME_DS_REGISTER_SUCCESS_def
  GAME_DS_QUIT_SUCCESS_def
  GAME_DS_UPDATE_SUCCESS_def
  GAME_LOAD_CHARACTER_SUCCESS_def
  GAME_UPLOAD_CHARACTER_SUCCESS_def
  GAME_LAST_UPLOAD_CHARACTER_SUCCESS_def
  GAME_DS_REGISTER_ERROR_def
  GAME_DS_QUIT_ERROR_def
  GAME_DS_UPDATE_ERROR_def
  GAME_LOAD_CHARACTER_ERROR_def
  GAME_DS_UNKNOWN_ERROR_def

definition GATEWAY_ENTER_GAME_REQUEST_CODE :: u64 where "GATEWAY_ENTER_GAME_REQUEST_CODE = 110"
definition GATEWAY_EXIT_GAME_REQUEST_CODE :: u64 where "GATEWAY_EXIT_GAME_REQUEST_CODE = 120"
definition GATEWAY_ENTER_GAME_RESULT_SUCCESS :: u64 where "GATEWAY_ENTER_GAME_RESULT_SUCCESS = 10110"
definition GATEWAY_EXIT_GAME_RESULT_SUCCESS :: u64 where "GATEWAY_EXIT_GAME_RESULT_SUCCESS = 10120"
definition GATEWAY_ENTER_GAME_ERROR :: u64 where "GATEWAY_ENTER_GAME_ERROR = 30110"
definition GATEWAY_EXIT_GAME_ERROR :: u64 where "GATEWAY_EXIT_GAME_ERROR = 30120"

lemmas gateway_codes =
  GATEWAY_ENTER_GAME_REQUEST_CODE_def
  GATEWAY_EXIT_GAME_REQUEST_CODE_def
  GATEWAY_ENTER_GAME_RESULT_SUCCESS_def
  GATEWAY_EXIT_GAME_RESULT_SUCCESS_def
  GATEWAY_ENTER_GAME_ERROR_def
  GATEWAY_EXIT_GAME_ERROR_def

section \<open>DSLoadOrUploadCharacterMessage\<close>

record ds_load_or_upload_character_message = timestamp_message +
  DL_CODE :: u64
  DL_SCENE_ID :: i32
  DL_ACCOUNT :: string
  DL_CHARACTER_NAME :: string
  DL_CHARACTER_DATA :: string

definition DSLoadOrUploadCharacterMessage_members :: "'a ds_load_or_upload_character_message_scheme \<Rightarrow> member list" where
  "DSLoadOrUploadCharacterMessage_members m =
    [m_u64 (DL_CODE m), m_i32 (DL_SCENE_ID m), Str (DL_ACCOUNT m), Str (DL_CHARACTER_NAME m),
     Str (DL_CHARACTER_DATA m)]"

definition DSLoadOrUploadCharacterMessage_store :: "member list \<Rightarrow> 'a ds_load_or_upload_character_message_scheme \<Rightarrow> 'a ds_load_or_upload_character_message_scheme" where
  "DSLoadOrUploadCharacterMessage_store vs m =
     m\<lparr>DL_CODE := as_u64 (vs ! 0), DL_SCENE_ID := as_i32 (vs ! 1),
       DL_ACCOUNT := as_str (vs ! 2), DL_CHARACTER_NAME := as_str (vs ! 3),
       DL_CHARACTER_DATA := as_str (vs ! 4)\<rparr>"

definition DSLoadOrUploadCharacterMessage_count :: "'a ds_load_or_upload_character_message_scheme \<Rightarrow> 'a ds_load_or_upload_character_message_scheme" where
  "DSLoadOrUploadCharacterMessage_count m = count_members (DSLoadOrUploadCharacterMessage_members m) m"

definition DSLoadOrUploadCharacterMessage_serialize :: "'a ds_load_or_upload_character_message_scheme \<Rightarrow> (bytes \<times> 'a ds_load_or_upload_character_message_scheme) result" where
  "DSLoadOrUploadCharacterMessage_serialize m = serialize_members (DSLoadOrUploadCharacterMessage_members m) m"

definition DSLoadOrUploadCharacterMessage_deserialize :: "bytes \<Rightarrow> 'a ds_load_or_upload_character_message_scheme \<Rightarrow> 'a ds_load_or_upload_character_message_scheme result" where
  "DSLoadOrUploadCharacterMessage_deserialize data m = deserialize_with DSLoadOrUploadCharacterMessage_members DSLoadOrUploadCharacterMessage_store data m"

lemma DSLoadOrUploadCharacterMessage_format: "message_format DSLoadOrUploadCharacterMessage_members DSLoadOrUploadCharacterMessage_store"
proof (unfold_locales, goal_cases)
  case (1 m m')
  then show ?case by (cases m; cases m') (simp add: DSLoadOrUploadCharacterMessage_members_def)
qed (simp_all add: DSLoadOrUploadCharacterMessage_members_def DSLoadOrUploadCharacterMessage_store_def base_message.defs wf_members_def)

interpretation DSLoadOrUploadCharacterMessage_m: message_format DSLoadOrUploadCharacterMessage_members DSLoadOrUploadCharacterMessage_store
  by (rule DSLoadOrUploadCharacterMessage_format)

section \<open>DSMessage\<close>

record ds_message = timestamp_message +
  DS_CODE :: u64
  DS_PORT :: i32
  DS_SCENE_ID :: i32
  DS_LOAD :: i32
  DS_SCENE_DATA :: string

definition DSMessage_members :: "'a ds_message_scheme \<Rightarrow> member list" where
  "DSMessage_members m =
    [m_u64 (DS_CODE m), m_i32 (DS_PORT m), m_i32 (DS_SCENE_ID m), m_i32 (DS_LOAD m),
     Str (DS_SCENE_DATA m)]"

definition DSMessage_store :: "member list \<Rightarrow> 'a ds_message_scheme \<Rightarrow> 'a ds_message_scheme" where
  "DSMessage_store vs m =
     m\<lparr>DS_CODE := as_u64 (vs ! 0), DS_PORT := as_i32 (vs ! 1),
       DS_SCENE_ID := as_i32 (vs ! 2), DS_LOAD := as_i32 (vs ! 3),
       DS_SCENE_DATA := as_str (vs ! 4)\<rparr>"

definition DSMessage_count :: "'a ds_message_scheme \<Rightarrow> 'a ds_message_scheme" where
  "DSMessage_count m = count_members (DSMessage_members m) m"

definition DSMessage_serialize :: "'a ds_message_scheme \<Rightarrow> (bytes \<times> 'a ds_message_scheme) result" where
  "DSMessage_serialize m = serialize_members (DSMessage_members m) m"

definition DSMessage_deserialize :: "bytes \<Rightarrow> 'a ds_message_scheme \<Rightarrow> 'a ds_message_scheme result" where
  "DSMessage_deserialize data m = deserialize_with DSMessage_members DSMessage_store data m"

lemma DSMessage_format: "message_format DSMessage_members DSMessage_store"
proof (unfold_locales, goal_cases)
  case (1 m m')
  then show ?case by (cases m; cases m') (simp add: DSMessage_members_def)
qed (simp_all add: DSMessage_members_def DSMessage_store_def base_message.defs wf_members_def)

interpretation DSMessage_m: message_format DSMessage_members DSMessage_store
  by (rule DSMessage_format)

section \<open>CharacterInfo\<close>

record character_info = base_message +
  CI_ACCOUNT :: string
  CI_NAME :: string
  CI_LEVEL :: i32
  CI_GENDER :: bool
  CI_OCCUPTION :: i32
  CI_STATE :: i32
  CI_EXP :: i32
  CI_HEALTH :: i32
  CI_MANA :: i32
  CI_ARMOR :: i32
  CI_STAMINA :: i32
  CI_STRENGTH :: i32
  CI_AGILITY :: i32
  CI_INTELLECT :: i32
  CI_SCENE_ID :: i32
  CI_SCENE_X :: u64
  CI_SCENE_Y :: u64
  CI_SCENE_Z :: u64

definition CharacterInfo_members :: "'a character_info_scheme \<Rightarrow> member list" where
  "CharacterInfo_members m =
    [Str (CI_ACCOUNT m), Str (CI_NAME m), m_i32 (CI_LEVEL m), m_bool (CI_GENDER m),
     m_i32 (CI_OCCUPTION m), m_i32 (CI_STATE m), m_i32 (CI_EXP m), m_i32 (CI_HEALTH m),
     m_i32 (CI_MANA m), m_i32 (CI_ARMOR m), m_i32 (CI_STAMINA m), m_i32 (CI_STRENGTH m),
     m_i32 (CI_AGILITY m), m_i32 (CI_INTELLECT m), m_i32 (CI_SCENE_ID m),
     m_u64 (CI_SCENE_X m), m_u64 (CI_SCENE_Y m), m_u64 (CI_SCENE_Z m)]"

definition CharacterInfo_store :: "member list \<Rightarrow> 'a character_info_scheme \<Rightarrow> 'a character_info_scheme" where
  "CharacterInfo_store vs m =
     m\<lparr>CI_ACCOUNT := as_str (vs ! 0), CI_NAME := as_str (vs ! 1),
       CI_LEVEL := as_i32 (vs ! 2), CI_GENDER := as_bool (vs ! 3),
       CI_OCCUPTION := as_i32 (vs ! 4), CI_STATE := as_i32 (vs ! 5),
       CI_EXP := as_i32 (vs ! 6), CI_HEALTH := as_i32 (vs ! 7), CI_MANA := as_i32 (vs ! 8),
       CI_ARMOR := as_i32 (vs ! 9), CI_STAMINA := as_i32 (vs ! 10),
       CI_STRENGTH := as_i32 (vs ! 11), CI_AGILITY := as_i32 (vs ! 12),
       CI_INTELLECT := as_i32 (vs ! 13), CI_SCENE_ID := as_i32 (vs ! 14),
       CI_SCENE_X := as_u64 (vs ! 15), CI_SCENE_Y := as_u64 (vs ! 16),
       CI_SCENE_Z := as_u64 (vs ! 17)\<rparr>"

definition CharacterInfo_count :: "'a character_info_scheme \<Rightarrow> 'a character_info_scheme" where
  "CharacterInfo_count m = count_members (CharacterInfo_members m) m"

definition CharacterInfo_serialize :: "'a character_info_scheme \<Rightarrow> (bytes \<times> 'a character_info_scheme) result" where
  "CharacterInfo_serialize m = serialize_members (CharacterInfo_members m) m"

definition CharacterInfo_deserialize :: "bytes \<Rightarrow> 'a character_info_scheme \<Rightarrow> 'a character_info_scheme result" where
  "CharacterInfo_deserialize data m = deserialize_with CharacterInfo_members CharacterInfo_store data m"

lemma CharacterInfo_format: "message_format CharacterInfo_members CharacterInfo_store"
proof (unfold_locales, goal_cases)
  case (1 m m')
  then show ?case by (cases m; cases m') (simp add: CharacterInfo_members_def)
qed (simp_all add: CharacterInfo_members_def CharacterInfo_store_def base_message.defs wf_members_def)

interpretation CharacterInfo_m: message_format CharacterInfo_members CharacterInfo_store
  by (rule CharacterInfo_format)

section \<open>EnterGameRequestMessage\<close>

record enter_game_request_message = timestamp_message +
  EG_REQUEST_CODE :: u64
  EG_ACCOUNT :: string
  EG_CHARACTER :: string

definition EnterGameRequestMessage_members :: "'a enter_game_request_message_scheme \<Rightarrow> member list" where
  "EnterGameRequestMessage_members m =
    [m_u64 (EG_REQUEST_CODE m), Str (EG_ACCOUNT m), Str (EG_CHARACTER m)]"

definition EnterGameRequestMessage_store :: "member list \<Rightarrow> 'a enter_game_request_message_scheme \<Rightarrow> 'a enter_game_request_message_scheme" where
  "EnterGameRequestMessage_store vs m =
     m\<lparr>EG_REQUEST_CODE := as_u64 (vs ! 0), EG_ACCOUNT := as_str (vs ! 1),
       EG_CHARACTER := as_str (vs ! 2)\<rparr>"

definition EnterGameRequestMessage_count :: "'a enter_game_request_message_scheme \<Rightarrow> 'a enter_game_request_message_scheme" where
  "EnterGameRequestMessage_count m = count_members (EnterGameRequestMessage_members m) m"

definition EnterGameRequestMessage_serialize :: "'a enter_game_request_message_scheme \<Rightarrow> (bytes \<times> 'a enter_game_request_message_scheme) result" where
  "EnterGameRequestMessage_serialize m = serialize_members (EnterGameRequestMessage_members m) m"

definition EnterGameRequestMessage_deserialize :: "bytes \<Rightarrow> 'a enter_game_request_message_scheme \<Rightarrow> 'a enter_game_request_message_scheme result" where
  "EnterGameRequestMessage_deserialize data m = deserialize_with EnterGameRequestMessage_members EnterGameRequestMessage_store data m"

lemma EnterGameRequestMessage_format: "message_format EnterGameRequestMessage_members EnterGameRequestMessage_store"
proof (unfold_locales, goal_cases)
  case (1 m m')
  then show ?case by (cases m; cases m') (simp add: EnterGameRequestMessage_members_def)
qed (simp_all add: EnterGameRequestMessage_members_def EnterGameRequestMessage_store_def base_message.defs wf_members_def)

interpretation EnterGameRequestMessage_m: message_format EnterGameRequestMessage_members EnterGameRequestMessage_store
  by (rule EnterGameRequestMessage_format)

section \<open>EnterGameResponseMessage\<close>

record enter_game_response_message = timestamp_message +
  EG_RESPONSE_CODE :: u64

definition EnterGameResponseMessage_members :: "'a enter_game_response_message_scheme \<Rightarrow> member list" where
  "EnterGameResponseMessage_members m =
    [m_u64 (EG_RESPONSE_CODE m)]"

definition EnterGameResponseMessage_store :: "member list \<Rightarrow> 'a enter_game_response_message_scheme \<Rightarrow> 'a enter_game_response_message_scheme" where
  "EnterGameResponseMessage_store vs m =
     m\<lparr>EG_RESPONSE_CODE := as_u64 (vs ! 0)\<rparr>"

definition EnterGameResponseMessage_count :: "'a enter_game_response_message_scheme \<Rightarrow> 'a enter_game_response_message_scheme" where
  "EnterGameResponseMessage_count m = count_members (EnterGameResponseMessage_members m) m"

definition EnterGameResponseMessage_serialize :: "'a enter_game_response_message_scheme \<Rightarrow> (bytes \<times> 'a enter_game_response_message_scheme) result" where
  "EnterGameResponseMessage_serialize m = serialize_members (EnterGameResponseMessage_members m) m"

definition EnterGameResponseMessage_deserialize :: "bytes \<Rightarrow> 'a enter_game_response_message_scheme \<Rightarrow> 'a enter_game_response_message_scheme result" where
  "EnterGameResponseMessage_deserialize data m = deserialize_with EnterGameResponseMessage_members EnterGameResponseMessage_store data m"

lemma EnterGameResponseMessage_format: "message_format EnterGameResponseMessage_members EnterGameResponseMessage_store"
proof (unfold_locales, goal_cases)
  case (1 m m')
  then show ?case by (cases m; cases m') (simp add: EnterGameResponseMessage_members_def)
qed (simp_all add: EnterGameResponseMessage_members_def EnterGameResponseMessage_store_def base_message.defs wf_members_def)

interpretation EnterGameResponseMessage_m: message_format EnterGameResponseMessage_members EnterGameResponseMessage_store
  by (rule EnterGameResponseMessage_format)

section \<open>ChatRequestMessage\<close>

record chat_request_message = timestamp_message +
  CH_REQUEST_CODE :: u64
  CH_ACCOUNT :: string
  CH_CHARACTER :: string
  CH_CHANNEL :: string
  CH_NOTE :: string

definition ChatRequestMessage_members :: "'a chat_request_message_scheme \<Rightarrow> member list" where
  "ChatRequestMessage_members m =
    [m_u64 (CH_REQUEST_CODE m), Str (CH_ACCOUNT m), Str (CH_CHARACTER m), Str (CH_CHANNEL m),
     Str (CH_NOTE m)]"

definition ChatRequestMessage_store :: "member list \<Rightarrow> 'a chat_request_message_scheme \<Rightarrow> 'a chat_request_message_scheme" where
  "ChatRequestMessage_store vs m =
     m\<lparr>CH_REQUEST_CODE := as_u64 (vs ! 0), CH_ACCOUNT := as_str (vs ! 1),
       CH_CHARACTER := as_str (vs ! 2), CH_CHANNEL := as_str (vs ! 3),
       CH_NOTE := as_str (vs ! 4)\<rparr>"

definition ChatRequestMessage_count :: "'a chat_request_message_scheme \<Rightarrow> 'a chat_request_message_scheme" where
  "ChatRequestMessage_count m = count_members (ChatRequestMessage_members m) m"

definition ChatRequestMessage_serialize :: "'a chat_request_message_scheme \<Rightarrow> (bytes \<times> 'a chat_request_message_scheme) result" where
  "ChatRequestMessage_serialize m = serialize_members (ChatRequestMessage_members m) m"

definition ChatRequestMessage_deserialize :: "bytes \<Rightarrow> 'a chat_request_message_scheme \<Rightarrow> 'a chat_request_message_scheme result" where
  "ChatRequestMessage_deserialize data m = deserialize_with ChatRequestMessage_members ChatRequestMessage_store data m"

lemma ChatRequestMessage_format: "message_format ChatRequestMessage_members ChatRequestMessage_store"
proof (unfold_locales, goal_cases)
  case (1 m m')
  then show ?case by (cases m; cases m') (simp add: ChatRequestMessage_members_def)
qed (simp_all add: ChatRequestMessage_members_def ChatRequestMessage_store_def base_message.defs wf_members_def)

interpretation ChatRequestMessage_m: message_format ChatRequestMessage_members ChatRequestMessage_store
  by (rule ChatRequestMessage_format)

end
