(* ===== verification/Carriers.thy ===== *)
theory Carriers
  imports Prelude
begin

text \<open>
  The carriers of \<^verbatim>\<open>message::message_carrier\<close>: the string records the servers put on the redis
  streams (\<^verbatim>\<open>FILL_2_VEC\<close>) and read back from them (\<^verbatim>\<open>FILL_2_THIS\<close>). A stream entry is a
  vector of (tag, value) pairs that \<^verbatim>\<open>FILL_2_THIS\<close> reads by position.
\<close>

section \<open>Tags and carriers\<close>

type_synonym fields = "(string \<times> string) list"

definition TYPE_TAG :: string where "TYPE_TAG = ''CARRIER_TYPE''"
definition SERVICE_TAG :: string where "SERVICE_TAG = ''CARRIER_SERVICE''"
definition NEXT_SERVICE_TAG :: string where "NEXT_SERVICE_TAG = ''CARRIER_NEXT_SERVICE''"
definition MESSAGE_TAG :: string where "MESSAGE_TAG = ''CARRIER_MESSAGE''"
definition CLIENT_ID_TAG :: string where "CLIENT_ID_TAG = ''CARRIER_CLIENT_ID_TAG''"
definition CLIENT_ADDRESS_TAG :: string where "CLIENT_ADDRESS_TAG = ''CARRIER_CLIENT_ADDRESS_TAG''"

record carrier =
  CARRIER_TYPE :: string
  CARRIER_SERVICE :: string
  CARRIER_NEXT_SERVICE :: string
  CARRIER_MESSAGE :: string

text \<open>\<^verbatim>\<open>LoginMessage\<close>, \<^verbatim>\<open>GatewayMessage\<close> and \<^verbatim>\<open>GameMessage\<close> add the same two members.\<close>

record client_carrier = carrier +
  CLIENT_ID :: string
  CLIENT_ADDRESS :: string

definition new_client_carrier :: client_carrier where
  "new_client_carrier = \<lparr>CARRIER_TYPE = [], CARRIER_SERVICE = [], CARRIER_NEXT_SERVICE = [],
     CARRIER_MESSAGE = [], CLIENT_ID = [], CLIENT_ADDRESS = []\<rparr>"

section \<open>Writing and reading\<close>

definition Carrier_FILL_2_VEC :: "'a carrier_scheme \<Rightarrow> fields \<Rightarrow> fields" where
  "Carrier_FILL_2_VEC c destVector =
     [(TYPE_TAG, CARRIER_TYPE c), (SERVICE_TAG, CARRIER_SERVICE c),
      (NEXT_SERVICE_TAG, CARRIER_NEXT_SERVICE c), (MESSAGE_TAG, CARRIER_MESSAGE c)]"

text \<open>\<^verbatim>\<open>sourceVector.at(i).second\<close>.\<close>

definition at_second :: "fields \<Rightarrow> nat \<Rightarrow> string result" where
  "at_second v i = (if i < length v then Inr (snd (v ! i)) else Inl OutOfRange)"

definition Carrier_FILL_2_THIS :: "fields \<Rightarrow> 'a carrier_scheme \<Rightarrow> 'a carrier_scheme result" where
  "Carrier_FILL_2_THIS v c =
     (if length v \<noteq> 4 then Inl AssertFailed
      else rbind (at_second v 0) (\<lambda>ty.
           rbind (at_second v 1) (\<lambda>sv.
           rbind (at_second v 2) (\<lambda>nsv.
           rbind (at_second v 3) (\<lambda>msg.
             Inr (c\<lparr>CARRIER_TYPE := ty, CARRIER_SERVICE := sv, CARRIER_NEXT_SERVICE := nsv,
                    CARRIER_MESSAGE := msg\<rparr>))))))"

definition client_fields :: "'a client_carrier_scheme \<Rightarrow> fields" where
  "client_fields c =
     [(TYPE_TAG, CARRIER_TYPE c), (SERVICE_TAG, CARRIER_SERVICE c),
      (NEXT_SERVICE_TAG, CARRIER_NEXT_SERVICE c), (CLIENT_ID_TAG, CLIENT_ID c),
      (CLIENT_ADDRESS_TAG, CLIENT_ADDRESS c), (MESSAGE_TAG, CARRIER_MESSAGE c)]"

definition client_assign :: "fields \<Rightarrow> 'a client_carrier_scheme \<Rightarrow> 'a client_carrier_scheme result" where
  "client_assign v c =
     rbind (at_second v 0) (\<lambda>ty.
     rbind (at_second v 1) (\<lambda>sv.
     rbind (at_second v 2) (\<lambda>nsv.
     rbind (at_second v 3) (\<lambda>cid.
     rbind (at_second v 4) (\<lambda>addr.
     rbind (at_second v 5) (\<lambda>msg.
       Inr (c\<lparr>CARRIER_TYPE := ty, CARRIER_SERVICE := sv, CARRIER_NEXT_SERVICE := nsv,
              CLIENT_ID := cid, CLIENT_ADDRESS := addr, CARRIER_MESSAGE := msg\<rparr>)))))))"

definition Login_FILL_2_VEC :: "'a client_carrier_scheme \<Rightarrow> fields \<Rightarrow> fields" where
  "Login_FILL_2_VEC c destVector = client_fields c"

definition Login_FILL_2_THIS :: "fields \<Rightarrow> 'a client_carrier_scheme \<Rightarrow> 'a client_carrier_scheme result" where
  "Login_FILL_2_THIS v c = (if length v \<noteq> 6 then Inl AssertFailed else client_assign v c)"

definition Gateway_FILL_2_VEC :: "'a client_carrier_scheme \<Rightarrow> fields \<Rightarrow> fields" where
  "Gateway_FILL_2_VEC c destVector = client_fields c"

definition Gateway_FILL_2_THIS :: "fields \<Rightarrow> 'a client_carrier_scheme \<Rightarrow> 'a client_carrier_scheme result" where
  "Gateway_FILL_2_THIS v c = (if length v \<noteq> 6 then Inl AssertFailed else client_assign v c)"

text \<open>In \<^verbatim>\<open>GameMessage\<close> the assertion is commented out.\<close>

definition Game_FILL_2_VEC :: "'a client_carrier_scheme \<Rightarrow> fields \<Rightarrow> fields" where
  "Game_FILL_2_VEC c destVector = client_fields c"

definition Game_FILL_2_THIS :: "fields \<Rightarrow> 'a client_carrier_scheme \<Rightarrow> 'a client_carrier_scheme result" where
  "Game_FILL_2_THIS v c = client_assign v c"

section \<open>The contract of a carrier\<close>

text \<open>A writer and a reader agree when the reader takes back every field the writer put and
  rejects entries that are too short. The keys in an entry are fixed, so the database server
  and the brokers can recognise it.\<close>

locale carrier_codec =
  fixes put :: "'c \<Rightarrow> fields \<Rightarrow> fields"
    and get :: "fields \<Rightarrow> 'c \<Rightarrow> 'c result"
    and width :: nat
  assumes put_length: "length (put c v) = width"
    and get_put: "get (put c v) c' = get (put c []) c'"
    and get_own: "get (put c v) c = Inr c"
    and get_overwrites: "get (put c v) d = Inr e \<Longrightarrow> put e w = put c w"
    and get_total: "\<exists>e. get (put c v) d = Inr e"
    and get_short: "length v < width \<Longrightarrow> \<exists>e. get v c = Inl e"
begin

lemma relay: "\<exists>e. get (put c v) d = Inr e \<and> put e w = put c w"
  using get_total get_overwrites by blast

lemma relay_twice:
  assumes "get (put c v) d = Inr e"
  shows "get (put e w) c = Inr c"
  using get_overwrites [OF assms, of w] get_own [of c w] by simp

end

lemma at_second_simps [simp]:
  "at_second (x # xs) 0 = Inr (snd x)"
  "at_second (x # xs) (Suc i) = at_second xs i"
  "at_second [] i = Inl OutOfRange"
  by (simp_all add: at_second_def)

lemma client_assign_short: "length v < 6 \<Longrightarrow> client_assign v c = Inl OutOfRange"
  by (auto simp: client_assign_def at_second_def)

lemma client_assign_fields:
  "client_assign (client_fields c @ rest) d =
     Inr (d\<lparr>CARRIER_TYPE := CARRIER_TYPE c, CARRIER_SERVICE := CARRIER_SERVICE c,
            CARRIER_NEXT_SERVICE := CARRIER_NEXT_SERVICE c, CLIENT_ID := CLIENT_ID c,
            CLIENT_ADDRESS := CLIENT_ADDRESS c, CARRIER_MESSAGE := CARRIER_MESSAGE c\<rparr>)"
  by (simp add: client_assign_def client_fields_def at_second_def)

lemmas client_carrier_defs =
  Login_FILL_2_VEC_def Login_FILL_2_THIS_def Gateway_FILL_2_VEC_def Gateway_FILL_2_THIS_def
  Game_FILL_2_VEC_def Game_FILL_2_THIS_def

lemma client_fields_length [simp]: "length (client_fields c) = 6"
  by (simp add: client_fields_def)

interpretation base_carrier: carrier_codec Carrier_FILL_2_VEC Carrier_FILL_2_THIS 4
  by unfold_locales
    (auto simp: Carrier_FILL_2_VEC_def Carrier_FILL_2_THIS_def at_second_def)

lemma client_assign_own: "client_assign (client_fields c) c = Inr c"
  using client_assign_fields [of c "[]" c] by simp

lemma client_assign_total: "\<exists>e. client_assign (client_fields c) d = Inr e"
  using client_assign_fields [of c "[]" d] by simp

lemma client_assign_same:
  assumes "client_assign (client_fields c) d = Inr e"
  shows "client_fields e = client_fields c"
proof -
  have "e = d\<lparr>CARRIER_TYPE := CARRIER_TYPE c, CARRIER_SERVICE := CARRIER_SERVICE c,
            CARRIER_NEXT_SERVICE := CARRIER_NEXT_SERVICE c, CLIENT_ID := CLIENT_ID c,
            CLIENT_ADDRESS := CLIENT_ADDRESS c, CARRIER_MESSAGE := CARRIER_MESSAGE c\<rparr>"
    using assms client_assign_fields [of c "[]" d] by simp
  then show ?thesis by (simp add: client_fields_def)
qed

interpretation login_carrier: carrier_codec Login_FILL_2_VEC Login_FILL_2_THIS 6
  by unfold_locales
    (auto simp: client_carrier_defs client_assign_own client_assign_total dest: client_assign_same)

interpretation gateway_carrier: carrier_codec Gateway_FILL_2_VEC Gateway_FILL_2_THIS 6
  by unfold_locales
    (auto simp: client_carrier_defs client_assign_own client_assign_total dest: client_assign_same)

interpretation game_carrier: carrier_codec Game_FILL_2_VEC Game_FILL_2_THIS 6
  by unfold_locales
    (auto simp: client_carrier_defs client_assign_own client_assign_total client_assign_short
      dest: client_assign_same)

end
