(* ===== verification/Safe_Queue.thy ===== *)
theory Safe_Queue
  imports Prelude
begin

text \<open>
  \<^verbatim>\<open>Base/utility/SafeQueue.h\<close>: the queue the thread pool, the buffers and the connections hand
  their work through. Every operation runs under the mutex of the queue, so it is a function on
  the queue; what happens between operations of several threads, the waiting on the condition
  variable included, is the step relation \<open>queue_step\<close>. The locale \<open>fifo\<close> is the contract of a
  first-in first-out queue and is interpreted on the operations of \<^verbatim>\<open>SafeQueue\<close>.
\<close>

section \<open>The operations\<close>

record 'a safe_queue =
  sq_mData :: "'a list"

definition new_SafeQueue :: "'a safe_queue" where
  "new_SafeQueue = \<lparr>sq_mData = []\<rparr>"

definition SafeQueue_copy :: "'a safe_queue \<Rightarrow> 'a safe_queue" where
  "SafeQueue_copy rhs = \<lparr>sq_mData = sq_mData rhs\<rparr>"

definition SafeQueue_push :: "'a \<Rightarrow> 'a safe_queue \<Rightarrow> 'a safe_queue" where
  "SafeQueue_push val q = q\<lparr>sq_mData := sq_mData q @ [val]\<rparr>"

text \<open>\<^verbatim>\<open>bool pop(T &)\<close> and \<^verbatim>\<open>shared_ptr<T> pop()\<close>: \<open>None\<close> is false, or the empty pointer.\<close>

definition SafeQueue_pop :: "'a safe_queue \<Rightarrow> 'a option \<times> 'a safe_queue" where
  "SafeQueue_pop q =
     (case sq_mData q of [] \<Rightarrow> (None, q) | x # xs \<Rightarrow> (Some x, q\<lparr>sq_mData := xs\<rparr>))"

text \<open>The loop of \<^verbatim>\<open>popN\<close> and \<^verbatim>\<open>waitAndPopN\<close>: \<open>i\<close> elements from the front to the back of the
  destination.\<close>

fun pop_loop :: "nat \<Rightarrow> 'a list \<Rightarrow> 'a list \<Rightarrow> 'a list \<times> 'a list" where
  "pop_loop (Suc i) dst (x # xs) = pop_loop i (dst @ [x]) xs"
| "pop_loop _ dst xs = (dst, xs)"

definition SafeQueue_popN :: "'a list \<Rightarrow> nat \<Rightarrow> 'a safe_queue \<Rightarrow> nat \<times> 'a list \<times> 'a safe_queue" where
  "SafeQueue_popN dst n q =
     (if sq_mData q = [] then (0, dst, q)
      else let m = min n (length (sq_mData q)); (dst', rest) = pop_loop m dst (sq_mData q)
           in (m, dst', q\<lparr>sq_mData := rest\<rparr>))"

text \<open>The bodies behind the wait: \<open>None\<close> while the predicate \<^verbatim>\<open>!sq_mData.empty()\<close> is false (the
  caller waits, or after the timeout reports failure).\<close>

definition SafeQueue_waitAndPop :: "'a safe_queue \<Rightarrow> ('a \<times> 'a safe_queue) option" where
  "SafeQueue_waitAndPop q =
     (case sq_mData q of [] \<Rightarrow> None | x # xs \<Rightarrow> Some (x, q\<lparr>sq_mData := xs\<rparr>))"

definition SafeQueue_waitAndPop_for :: "'a safe_queue \<Rightarrow> bool \<times> 'a option \<times> 'a safe_queue" where
  "SafeQueue_waitAndPop_for q =
     (case SafeQueue_waitAndPop q of Some (x, q') \<Rightarrow> (True, Some x, q') | None \<Rightarrow> (False, None, q))"

definition SafeQueue_waitAndPopN :: "'a list \<Rightarrow> nat \<Rightarrow> 'a safe_queue \<Rightarrow> ('a list \<times> 'a safe_queue) option" where
  "SafeQueue_waitAndPopN dst n q =
     (if sq_mData q = [] then None
      else let (dst', rest) = pop_loop (min n (length (sq_mData q))) dst (sq_mData q)
           in Some (dst', q\<lparr>sq_mData := rest\<rparr>))"

definition SafeQueue_empty :: "'a safe_queue \<Rightarrow> bool" where
  "SafeQueue_empty q = (sq_mData q = [])"

definition SafeQueue_size :: "'a safe_queue \<Rightarrow> nat" where
  "SafeQueue_size q = length (sq_mData q)"

fun drop_front :: "nat \<Rightarrow> 'a list \<Rightarrow> 'a list" where
  "drop_front (Suc i) (x # xs) = drop_front i xs"
| "drop_front _ xs = xs"

definition SafeQueue_clear :: "'a safe_queue \<Rightarrow> 'a safe_queue" where
  "SafeQueue_clear q = q\<lparr>sq_mData := drop_front (length (sq_mData q)) (sq_mData q)\<rparr>"

lemma pop_loop_eq [simp, queue_simps]: "pop_loop i dst xs = (dst @ take i xs, drop i xs)"
  by (induction i dst xs rule: pop_loop.induct) simp_all

lemma drop_front_all [simp, queue_simps]: "drop_front (length xs) xs = []"
  by (induction xs) simp_all

lemma SafeQueue_popN_eq [queue_simps]:
  "SafeQueue_popN dst n q =
     (min n (length (sq_mData q)), dst @ take n (sq_mData q), q\<lparr>sq_mData := drop n (sq_mData q)\<rparr>)"
  by (cases "n \<le> length (sq_mData q)") (auto simp: SafeQueue_popN_def Let_def min_def)

lemma SafeQueue_waitAndPopN_eq [queue_simps]:
  "SafeQueue_waitAndPopN dst n q =
     (if sq_mData q = [] then None
      else Some (dst @ take n (sq_mData q), q\<lparr>sq_mData := drop n (sq_mData q)\<rparr>))"
  by (cases "n \<le> length (sq_mData q)") (auto simp: SafeQueue_waitAndPopN_def Let_def min_def)

lemma SafeQueue_clear_eq [queue_simps]: "SafeQueue_clear q = q\<lparr>sq_mData := []\<rparr>"
  by (simp add: SafeQueue_clear_def)

section \<open>The contract of a sys_queue\<close>

datatype 'a qop = Enq 'a | Deq

fun run_queue :: "('a \<Rightarrow> 'q \<Rightarrow> 'q) \<Rightarrow> ('q \<Rightarrow> 'a option \<times> 'q) \<Rightarrow> 'a qop list \<Rightarrow> 'q \<Rightarrow> 'a list \<times> 'q" where
  "run_queue enq deq [] q = ([], q)"
| "run_queue enq deq (Enq x # ops) q = run_queue enq deq ops (enq x q)"
| "run_queue enq deq (Deq # ops) q =
     (let (r, q') = deq q; (out, q'') = run_queue enq deq ops q'
      in ((case r of None \<Rightarrow> out | Some x \<Rightarrow> x # out), q''))"

fun enqueued :: "'a qop list \<Rightarrow> 'a list" where
  "enqueued [] = []"
| "enqueued (Enq x # ops) = x # enqueued ops"
| "enqueued (Deq # ops) = enqueued ops"

locale fifo =
  fixes enq :: "'a \<Rightarrow> 'q \<Rightarrow> 'q"
    and deq :: "'q \<Rightarrow> 'a option \<times> 'q"
    and contents :: "'q \<Rightarrow> 'a list"
  assumes contents_enq: "contents (enq x q) = contents q @ [x]"
    and deq_empty: "contents q = [] \<Longrightarrow> deq q = (None, q)"
    and deq_front: "contents q = x # xs \<Longrightarrow> \<exists>q'. deq q = (Some x, q') \<and> contents q' = xs"
begin

lemma deq_cases:
  obtains (empty) "contents q = []" "deq q = (None, q)"
    | (front) x xs q' where "contents q = x # xs" "deq q = (Some x, q')" "contents q' = xs"
  using deq_empty deq_front by (cases "contents q") blast+

text \<open>Whatever the interleaving of operations: what came out, followed by what is still in the
  queue, is what was in it followed by what went in.\<close>

lemma run_fifo:
  "run_queue enq deq ops q = (out, q') \<Longrightarrow> contents q @ enqueued ops = out @ contents q'"
proof (induction ops arbitrary: q out q')
  case Nil
  then show ?case by simp
next
  case (Cons op ops)
  show ?case
  proof (cases op)
    case (Enq x)
    with Cons.IH [of "enq x q" out q'] Cons.prems show ?thesis by (simp add: contents_enq)
  next
    case Deq
    obtain out1 q1 where r: "run_queue enq deq ops (snd (deq q)) = (out1, q1)" by fastforce
    show ?thesis
    proof (cases q rule: deq_cases)
      case empty
      with Deq Cons.prems Cons.IH [OF r] r show ?thesis by (auto simp: Let_def)
    next
      case (front x xs q2)
      with Deq Cons.prems Cons.IH [OF r] r show ?thesis by (auto simp: Let_def)
    qed
  qed
qed

lemma deq_nonempty: "contents q \<noteq> [] \<Longrightarrow> fst (deq q) = Some (hd (contents q))"
  by (cases q rule: deq_cases) simp_all

end

interpretation sq: fifo SafeQueue_push SafeQueue_pop sq_mData
  by unfold_locales (auto simp: SafeQueue_push_def SafeQueue_pop_def)

section \<open>Threads and the condition variable\<close>

text \<open>
  A call waiting for data is a pair of a thread and the number of elements it takes when it
  runs (1 for \<^verbatim>\<open>waitAndPop\<close>, \<open>n\<close> for \<^verbatim>\<open>waitAndPopN\<close>). It is \<open>sys_sleeping\<close> inside \<^verbatim>\<open>wait\<close>, or
  \<open>sys_woken\<close> by \<^verbatim>\<open>notify_one\<close> (or spuriously) and not yet running again. The ghost components
  \<open>sys_pushed\<close> and \<open>sys_taken\<close> record what went in and came out.
\<close>

type_synonym waiter = "nat \<times> nat"

record 'a queue_sys =
  sys_queue :: "'a safe_queue"
  sys_sleeping :: "waiter list"
  sys_woken :: "waiter list"
  sys_pushed :: "'a list"
  sys_taken :: "'a list"

definition take_up_to :: "nat \<Rightarrow> 'a queue_sys \<Rightarrow> 'a queue_sys" where
  "take_up_to n s =
     (case SafeQueue_popN [] n (sys_queue s) of (m, xs, q) \<Rightarrow>
        s\<lparr>sys_queue := q, sys_taken := sys_taken s @ xs\<rparr>)"

inductive queue_step :: "'a queue_sys \<Rightarrow> 'a queue_sys \<Rightarrow> bool" where
  push_notify: "w \<in> set (sys_sleeping s) \<Longrightarrow>
    queue_step s (s\<lparr>sys_queue := SafeQueue_push x (sys_queue s), sys_pushed := sys_pushed s @ [x],
      sys_sleeping := remove1 w (sys_sleeping s), sys_woken := w # sys_woken s\<rparr>)"
| push_alone: "sys_sleeping s = [] \<Longrightarrow>
    queue_step s (s\<lparr>sys_queue := SafeQueue_push x (sys_queue s), sys_pushed := sys_pushed s @ [x]\<rparr>)"
| try_pop: "queue_step s (take_up_to n s)"
| enter_run: "\<not> SafeQueue_empty (sys_queue s) \<Longrightarrow> queue_step s (take_up_to n s)"
| enter_sleep: "SafeQueue_empty (sys_queue s) \<Longrightarrow> 0 < snd w \<Longrightarrow>
    queue_step s (s\<lparr>sys_sleeping := w # sys_sleeping s\<rparr>)"
| wake_run: "w \<in> set (sys_woken s) \<Longrightarrow> \<not> SafeQueue_empty (sys_queue s) \<Longrightarrow>
    queue_step s (take_up_to (snd w) (s\<lparr>sys_woken := remove1 w (sys_woken s)\<rparr>))"
| wake_sleep: "w \<in> set (sys_woken s) \<Longrightarrow> SafeQueue_empty (sys_queue s) \<Longrightarrow>
    queue_step s (s\<lparr>sys_woken := remove1 w (sys_woken s), sys_sleeping := w # sys_sleeping s\<rparr>)"
| spurious: "w \<in> set (sys_sleeping s) \<Longrightarrow>
    queue_step s (s\<lparr>sys_sleeping := remove1 w (sys_sleeping s), sys_woken := w # sys_woken s\<rparr>)"
| timeout: "w \<in> set (sys_sleeping s) \<Longrightarrow> SafeQueue_empty (sys_queue s) \<Longrightarrow>
    queue_step s (s\<lparr>sys_sleeping := remove1 w (sys_sleeping s)\<rparr>)"

definition new_queue_sys :: "'a queue_sys" where
  "new_queue_sys = \<lparr>sys_queue = new_SafeQueue, sys_sleeping = [], sys_woken = [], sys_pushed = [], sys_taken = []\<rparr>"

inductive queue_reach :: "'a queue_sys \<Rightarrow> bool" where
  start: "queue_reach new_queue_sys"
| step: "queue_reach s \<Longrightarrow> queue_step s s' \<Longrightarrow> queue_reach s'"

text \<open>A sleeping call is only left alone when enough calls have been woken to take everything
  that is in the queue.\<close>

definition queue_inv :: "'a queue_sys \<Rightarrow> bool" where
  "queue_inv s =
     (sys_pushed s = sys_taken s @ sq_mData (sys_queue s) \<and>
      (\<forall>w \<in> set (sys_sleeping s) \<union> set (sys_woken s). 0 < snd w) \<and>
      (sys_sleeping s \<noteq> [] \<longrightarrow> length (sq_mData (sys_queue s)) \<le> length (sys_woken s)))"

lemma take_up_to_sel [simp]:
  "sq_mData (sys_queue (take_up_to n s)) = drop n (sq_mData (sys_queue s))"
  "sys_taken (take_up_to n s) = sys_taken s @ take n (sq_mData (sys_queue s))"
  "sys_pushed (take_up_to n s) = sys_pushed s" "sys_sleeping (take_up_to n s) = sys_sleeping s"
  "sys_woken (take_up_to n s) = sys_woken s"
  by (simp_all add: take_up_to_def SafeQueue_popN_eq)

lemma length_remove1_Suc: "w \<in> set ws \<Longrightarrow> Suc (length (remove1 w ws)) = length ws"
  by (simp add: length_remove1) (metis Suc_pred length_pos_if_in_set)

lemma queue_step_inv: "queue_step s s' \<Longrightarrow> queue_inv s \<Longrightarrow> queue_inv s'"
proof (induction rule: queue_step.induct)
  case (wake_run w s)
  then have "0 < snd w" by (auto simp: queue_inv_def)
  then obtain k where "snd w = Suc k" by (auto simp: gr0_conv_Suc)
  with wake_run length_remove1_Suc [of w "sys_woken s"] show ?case
    by (auto simp: queue_inv_def SafeQueue_empty_def dest!: set_remove1_subset [THEN subsetD])
next
  case (push_notify w s x)
  then show ?case
    by (auto simp: queue_inv_def SafeQueue_push_def dest!: set_remove1_subset [THEN subsetD])
qed (auto simp: queue_inv_def SafeQueue_push_def SafeQueue_empty_def dest!: set_remove1_subset [THEN subsetD])

lemma queue_reach_inv: "queue_reach s \<Longrightarrow> queue_inv s"
proof (induction rule: queue_reach.induct)
  case start
  then show ?case by (simp add: new_queue_sys_def new_SafeQueue_def queue_inv_def)
next
  case (step s s')
  then show ?case by (simp add: queue_step_inv)
qed

section \<open>Properties\<close>

text \<open>C28. \<^verbatim>\<open>SafeQueue\<close> is first-in first-out and loses nothing under any interleaving of
  pushing, trying, waiting and timing-out threads: the elements pushed are, in order, those
  taken followed by those still in the queue.\<close>

theorem safe_queue_fifo:
  assumes "queue_reach s"
  shows "sys_pushed s = sys_taken s @ sq_mData (sys_queue s) \<and>
         fst (SafeQueue_pop (sys_queue s)) =
           (if length (sys_taken s) < length (sys_pushed s) then Some (sys_pushed s ! length (sys_taken s)) else None)"
proof -
  have p: "sys_pushed s = sys_taken s @ sq_mData (sys_queue s)"
    using queue_reach_inv [OF assms] by (simp add: queue_inv_def)
  show ?thesis
  proof (cases "sq_mData (sys_queue s) = []")
    case True
    with p sq.deq_empty [OF True] show ?thesis by simp
  next
    case False
    with p sq.deq_nonempty [OF False] show ?thesis by (simp add: hd_conv_nth nth_append)
  qed
qed

text \<open>C27. No wake-up is lost: as long as a call is still asleep on the condition variable, the
  queue holds no more elements than calls that have been woken and will take one. In particular
  data never stays in the queue with every consumer asleep. (\<^verbatim>\<open>waitAndPopN(q, 0)\<close>, which consumes
  a notification and takes nothing, is excluded.)\<close>

theorem safe_queue_no_lost_wakeup:
  assumes "queue_reach s" and "sys_sleeping s \<noteq> []"
  shows "SafeQueue_size (sys_queue s) \<le> length (sys_woken s)"
  using queue_reach_inv [OF assms(1)] assms(2) by (simp add: queue_inv_def SafeQueue_size_def)

definition two_sleepers :: "nat queue_sys" where
  "two_sleepers = \<lparr>sys_queue = new_SafeQueue, sys_sleeping = [(2, 1), (1, 1)], sys_woken = [], sys_pushed = [], sys_taken = []\<rparr>"

definition one_woken :: "nat queue_sys" where
  "one_woken = \<lparr>sys_queue = \<lparr>sq_mData = [7]\<rparr>, sys_sleeping = [(2, 1)], sys_woken = [(1, 1)], sys_pushed = [7], sys_taken = []\<rparr>"

lemma one_woken_reach: "queue_reach one_woken"
proof -
  have "queue_step (new_queue_sys :: nat queue_sys)
      \<lparr>sys_queue = new_SafeQueue, sys_sleeping = [(1, 1)], sys_woken = [], sys_pushed = [], sys_taken = []\<rparr>"
    using queue_step.enter_sleep [of "new_queue_sys :: nat queue_sys" "(1, 1)"]
    by (simp add: new_queue_sys_def new_SafeQueue_def SafeQueue_empty_def)
  moreover have "queue_step \<lparr>sys_queue = new_SafeQueue, sys_sleeping = [(1, 1)], sys_woken = [], sys_pushed = [], sys_taken = []\<rparr>
      two_sleepers"
    using queue_step.enter_sleep [of "\<lparr>sys_queue = new_SafeQueue, sys_sleeping = [(1, 1)], sys_woken = [],
      sys_pushed = [], sys_taken = []\<rparr> :: nat queue_sys" "(2, 1)"]
    by (simp add: two_sleepers_def new_SafeQueue_def SafeQueue_empty_def)
  moreover have "queue_step two_sleepers one_woken"
    using queue_step.push_notify [of "(1, 1)" two_sleepers 7]
    by (simp add: two_sleepers_def one_woken_def new_SafeQueue_def SafeQueue_push_def)
  ultimately show ?thesis by (meson queue_reach.intros)
qed

theorem safe_queue_fifo_witness:
  "sys_pushed one_woken = sys_taken one_woken @ sq_mData (sys_queue one_woken) \<and>
   fst (SafeQueue_pop (sys_queue one_woken)) = Some 7"
  using safe_queue_fifo [OF one_woken_reach] by (simp add: one_woken_def)

theorem safe_queue_no_lost_wakeup_witness:
  "SafeQueue_size (sys_queue one_woken) \<le> length (sys_woken one_woken)"
  using safe_queue_no_lost_wakeup [OF one_woken_reach] by (simp add: one_woken_def)

end
