(* ===== verification/Safe_Hashmap.thy ===== *)
theory Safe_Hashmap
  imports Prelude
begin

text \<open>
  \<^verbatim>\<open>Base/utility/SafeHashmap.h\<close>: a hash table of buckets, each a list of pairs under its own
  reader-writer lock. Every operation locks one bucket for its whole body (only \<^verbatim>\<open>size\<close> visits
  several), so it is a function on the table. The hash functor is a member of the object.

  The locale \<open>map_store\<close> is the contract of a map whose \<^verbatim>\<open>insert\<close> keeps an existing value; it is
  interpreted on \<^verbatim>\<open>Bucket\<close> and on \<^verbatim>\<open>SafeHashmap\<close>.
\<close>

section \<open>Bucket\<close>

record ('k, 'v) bucket =
  bk_mData :: "('k \<times> 'v) list"

definition new_Bucket :: "('k, 'v) bucket" where
  "new_Bucket = \<lparr>bk_mData = []\<rparr>"

text \<open>\<^verbatim>\<open>std::find_if\<close>: the position of the first pair with the key; \<open>None\<close> is \<^verbatim>\<open>end()\<close>.\<close>

fun find_key :: "'k \<Rightarrow> ('k \<times> 'v) list \<Rightarrow> nat option" where
  "find_key key [] = None"
| "find_key key (node # nodes) =
     (if fst node = key then Some 0 else map_option Suc (find_key key nodes))"

definition Bucket_find :: "'k \<Rightarrow> ('k, 'v) bucket \<Rightarrow> 'v option" where
  "Bucket_find key b =
     (case find_key key (bk_mData b) of None \<Rightarrow> None | Some i \<Rightarrow> Some (snd (bk_mData b ! i)))"

definition Bucket_insert :: "'k \<Rightarrow> 'v \<Rightarrow> ('k, 'v) bucket \<Rightarrow> ('k, 'v) bucket" where
  "Bucket_insert key val b =
     (case find_key key (bk_mData b) of
        None \<Rightarrow> b\<lparr>bk_mData := bk_mData b @ [(key, val)]\<rparr>
      | Some i \<Rightarrow> b)"

definition Bucket_insertOrAssign :: "'k \<Rightarrow> 'v \<Rightarrow> ('k, 'v) bucket \<Rightarrow> ('k, 'v) bucket" where
  "Bucket_insertOrAssign key val b =
     (case find_key key (bk_mData b) of
        None \<Rightarrow> b\<lparr>bk_mData := bk_mData b @ [(key, val)]\<rparr>
      | Some i \<Rightarrow> b\<lparr>bk_mData := (bk_mData b)[i := (fst (bk_mData b ! i), val)]\<rparr>)"

definition Bucket_erase :: "'k \<Rightarrow> ('k, 'v) bucket \<Rightarrow> ('k, 'v) bucket" where
  "Bucket_erase key b =
     (case find_key key (bk_mData b) of
        None \<Rightarrow> b
      | Some i \<Rightarrow> b\<lparr>bk_mData := take i (bk_mData b) @ drop (Suc i) (bk_mData b)\<rparr>)"

definition Bucket_empty :: "('k, 'v) bucket \<Rightarrow> bool" where
  "Bucket_empty b = (bk_mData b = [])"

definition Bucket_size :: "('k, 'v) bucket \<Rightarrow> nat" where
  "Bucket_size b = length (bk_mData b)"

text \<open>The values \<^verbatim>\<open>readAll\<close> calls the function on, in order.\<close>

definition Bucket_readAll :: "('k, 'v) bucket \<Rightarrow> 'v list" where
  "Bucket_readAll b = map snd (bk_mData b)"

section \<open>SafeHashmap\<close>

record ('k, 'v) safe_hashmap =
  mBucketSize :: nat
  mHashFunc :: "'k \<Rightarrow> nat"
  mHashtable :: "('k, 'v) bucket list"

definition new_SafeHashmap :: "nat \<Rightarrow> ('k \<Rightarrow> nat) \<Rightarrow> ('k, 'v) safe_hashmap" where
  "new_SafeHashmap bucketNum hashfunc =
     \<lparr>mBucketSize = (if bucketNum \<le> 0 then 1031 else bucketNum), mHashFunc = hashfunc,
      mHashtable = replicate bucketNum new_Bucket\<rparr>"

definition bucket_at :: "nat \<Rightarrow> ('k, 'v) safe_hashmap \<Rightarrow> ('k, 'v) bucket result" where
  "bucket_at i h = (if i < length (mHashtable h) then Inr (mHashtable h ! i) else Inl OutOfRange)"

definition slot :: "'k \<Rightarrow> ('k, 'v) safe_hashmap \<Rightarrow> nat" where
  "slot key h = mHashFunc h key mod mBucketSize h"

definition at_slot ::
  "'k \<Rightarrow> (('k, 'v) bucket \<Rightarrow> ('k, 'v) bucket) \<Rightarrow> ('k, 'v) safe_hashmap \<Rightarrow> ('k, 'v) safe_hashmap result"
where
  "at_slot key f h =
     rbind (bucket_at (slot key h) h) (\<lambda>b. Inr (h\<lparr>mHashtable := (mHashtable h)[slot key h := f b]\<rparr>))"

definition SafeHashmap_find :: "'k \<Rightarrow> ('k, 'v) safe_hashmap \<Rightarrow> 'v option result" where
  "SafeHashmap_find key h = rbind (bucket_at (slot key h) h) (\<lambda>b. Inr (Bucket_find key b))"

definition SafeHashmap_insert :: "'k \<Rightarrow> 'v \<Rightarrow> ('k, 'v) safe_hashmap \<Rightarrow> ('k, 'v) safe_hashmap result" where
  "SafeHashmap_insert key val h = at_slot key (Bucket_insert key val) h"

definition SafeHashmap_insertOrAssign ::
  "'k \<Rightarrow> 'v \<Rightarrow> ('k, 'v) safe_hashmap \<Rightarrow> ('k, 'v) safe_hashmap result" where
  "SafeHashmap_insertOrAssign key val h = at_slot key (Bucket_insert key val) h"

definition SafeHashmap_erase :: "'k \<Rightarrow> ('k, 'v) safe_hashmap \<Rightarrow> ('k, 'v) safe_hashmap result" where
  "SafeHashmap_erase key h = at_slot key (Bucket_erase key) h"

definition SafeHashmap_bucketSize :: "('k, 'v) safe_hashmap \<Rightarrow> nat" where
  "SafeHashmap_bucketSize h = mBucketSize h"

text \<open>The accumulator is declared \<^verbatim>\<open>auto res = 0\<close>, an \<^verbatim>\<open>int\<close>.\<close>

definition SafeHashmap_size :: "('k, 'v) safe_hashmap \<Rightarrow> u64" where
  "SafeHashmap_size h = scast (fold (\<lambda>b res. res + of_nat (Bucket_size b)) (mHashtable h) (0 :: i32))"

definition SafeHashmap_readAll :: "nat \<Rightarrow> ('k, 'v) safe_hashmap \<Rightarrow> 'v list result" where
  "SafeHashmap_readAll index h =
     (if index \<ge> mBucketSize h then Inr []
      else rbind (bucket_at index h) (\<lambda>b. Inr (Bucket_readAll b)))"

section \<open>The contract of the map\<close>

datatype ('k, 'v) map_op = Insert 'k 'v | Erase 'k

text \<open>The reference: what one operation does to a map.\<close>

fun ref_op :: "('k, 'v) map_op \<Rightarrow> ('k \<rightharpoonup> 'v) \<Rightarrow> ('k \<rightharpoonup> 'v)" where
  "ref_op (Insert k v) m = (case m k of None \<Rightarrow> m(k \<mapsto> v) | Some _ \<Rightarrow> m)"
| "ref_op (Erase k) m = m(k := None)"

fun run_map ::
  "('k \<Rightarrow> 'v \<Rightarrow> 's \<Rightarrow> 's result) \<Rightarrow> ('k \<Rightarrow> 's \<Rightarrow> 's result) \<Rightarrow> ('k, 'v) map_op list \<Rightarrow> 's \<Rightarrow> 's result"
where
  "run_map ins del [] s = Inr s"
| "run_map ins del (Insert k v # ops) s = rbind (ins k v s) (run_map ins del ops)"
| "run_map ins del (Erase k # ops) s = rbind (del k s) (run_map ins del ops)"

locale map_store =
  fixes invar :: "'s \<Rightarrow> bool"
    and abs :: "'s \<Rightarrow> ('k \<rightharpoonup> 'v)"
    and find :: "'k \<Rightarrow> 's \<Rightarrow> 'v option result"
    and ins :: "'k \<Rightarrow> 'v \<Rightarrow> 's \<Rightarrow> 's result"
    and del :: "'k \<Rightarrow> 's \<Rightarrow> 's result"
  assumes find_abs: "invar s \<Longrightarrow> find k s = Inr (abs s k)"
    and ins_abs: "invar s \<Longrightarrow> \<exists>s'. ins k v s = Inr s' \<and> invar s' \<and> abs s' = ref_op (Insert k v) (abs s)"
    and del_abs: "invar s \<Longrightarrow> \<exists>s'. del k s = Inr s' \<and> invar s' \<and> abs s' = ref_op (Erase k) (abs s)"
begin

lemma run_refines:
  "invar s \<Longrightarrow> \<exists>s'. run_map ins del ops s = Inr s' \<and> invar s' \<and> abs s' = fold ref_op ops (abs s)"
proof (induction ops arbitrary: s)
  case Nil
  then show ?case by simp
next
  case (Cons op ops)
  show ?case
  proof (cases op)
    case (Insert k v)
    from ins_abs [OF Cons.prems, of k v] obtain s1
      where "ins k v s = Inr s1" "invar s1" "abs s1 = ref_op (Insert k v) (abs s)" by blast
    with Cons.IH [of s1] Insert show ?thesis by (simp del: ref_op.simps)
  next
    case (Erase k)
    from del_abs [OF Cons.prems, of k] obtain s1
      where "del k s = Inr s1" "invar s1" "abs s1 = ref_op (Erase k) (abs s)" by blast
    with Cons.IH [of s1] Erase show ?thesis by (simp del: ref_op.simps)
  qed
qed

lemma find_after_run:
  assumes "invar s"
  shows "rbind (run_map ins del ops s) (find k) = Inr (fold ref_op ops (abs s) k)"
proof -
  from run_refines [OF assms, of ops] obtain s' where
    "run_map ins del ops s = Inr s'" "invar s'" "abs s' = fold ref_op ops (abs s)" by blast
  then show ?thesis by (simp add: find_abs)
qed

end

section \<open>The bucket keeps the contract\<close>

definition bucket_ok :: "('k, 'v) bucket \<Rightarrow> bool" where
  "bucket_ok b = distinct (map fst (bk_mData b))"

definition bucket_abs :: "('k, 'v) bucket \<Rightarrow> ('k \<rightharpoonup> 'v)" where
  "bucket_abs b = map_of (bk_mData b)"

lemma find_key_None: "find_key k xs = None \<longleftrightarrow> k \<notin> fst ` set xs"
  by (induction xs) auto

lemma find_key_Some:
  "find_key k xs = Some i \<Longrightarrow>
   \<exists>ys v zs. xs = ys @ (k, v) # zs \<and> length ys = i \<and> k \<notin> fst ` set ys"
proof (induction xs arbitrary: i)
  case Nil
  then show ?case by simp
next
  case (Cons x xs)
  show ?case
  proof (cases "fst x = k")
    case True
    with Cons.prems have "x # xs = [] @ (k, snd x) # xs \<and> length [] = i \<and> k \<notin> fst ` set []"
      by auto
    then show ?thesis by blast
  next
    case False
    with Cons.prems obtain j where "find_key k xs = Some j" "i = Suc j" by auto
    moreover from Cons.IH [OF this(1)] obtain ys v zs
      where "xs = ys @ (k, v) # zs" "length ys = j" "k \<notin> fst ` set ys" by blast
    ultimately have "x # xs = (x # ys) @ (k, v) # zs \<and> length (x # ys) = i \<and> k \<notin> fst ` set (x # ys)"
      using False by auto
    then show ?thesis by blast
  qed
qed

lemma bucket_cases:
  obtains (absent) "find_key k (bk_mData b) = None" "k \<notin> fst ` set (bk_mData b)"
    | (present) ys v zs where "find_key k (bk_mData b) = Some (length ys)"
        "bk_mData b = ys @ (k, v) # zs" "k \<notin> fst ` set ys"
  using find_key_None [of k "bk_mData b"] find_key_Some [of k "bk_mData b"]
  by (cases "find_key k (bk_mData b)") blast+

lemma map_of_absent [simp]: "k \<notin> fst ` set xs \<Longrightarrow> map_of xs k = None"
  by (simp add: map_of_eq_None_iff)

lemma Bucket_find_abs: "Bucket_find k b = bucket_abs b k"
  by (cases k b rule: bucket_cases) (auto simp: Bucket_find_def bucket_abs_def map_add_def)

lemma Bucket_insert_abs:
  assumes "bucket_ok b"
  shows "bucket_ok (Bucket_insert k v b)"
    and "bucket_abs (Bucket_insert k v b) = ref_op (Insert k v) (bucket_abs b)"
  using assms
  by (cases k b rule: bucket_cases;
      force simp: Bucket_insert_def bucket_ok_def bucket_abs_def map_add_def fun_eq_iff
        split: option.splits)+

lemma Bucket_erase_abs:
  assumes "bucket_ok b"
  shows "bucket_ok (Bucket_erase k b)" and "bucket_abs (Bucket_erase k b) = ref_op (Erase k) (bucket_abs b)"
  using assms
  by (cases k b rule: bucket_cases;
      force simp: Bucket_erase_def bucket_ok_def bucket_abs_def map_add_def fun_eq_iff
        split: option.splits)+

lemma Bucket_insertOrAssign_abs:
  assumes "bucket_ok b"
  shows "bucket_ok (Bucket_insertOrAssign k v b)"
    and "bucket_abs (Bucket_insertOrAssign k v b) = (bucket_abs b)(k \<mapsto> v)"
  using assms
  by (cases k b rule: bucket_cases;
      force simp: Bucket_insertOrAssign_def bucket_ok_def bucket_abs_def map_add_def fun_eq_iff
        list_update_append split: option.splits)+

interpretation bk: map_store bucket_ok bucket_abs "\<lambda>k b. Inr (Bucket_find k b)"
    "\<lambda>k v b. Inr (Bucket_insert k v b)" "\<lambda>k b. Inr (Bucket_erase k b)"
  by unfold_locales
    (simp_all add: Bucket_find_abs Bucket_insert_abs Bucket_erase_abs del: ref_op.simps)

section \<open>The table keeps the contract\<close>

definition hashmap_ok :: "('k, 'v) safe_hashmap \<Rightarrow> bool" where
  "hashmap_ok h =
     (0 < mBucketSize h \<and> length (mHashtable h) = mBucketSize h \<and>
      (\<forall>i < mBucketSize h. bucket_ok (mHashtable h ! i) \<and>
         (\<forall>k \<in> dom (bucket_abs (mHashtable h ! i)). slot k h = i)))"

definition hashmap_abs :: "('k, 'v) safe_hashmap \<Rightarrow> ('k \<rightharpoonup> 'v)" where
  "hashmap_abs h = (\<lambda>k. bucket_abs (mHashtable h ! slot k h) k)"

lemma slot_less: "hashmap_ok h \<Longrightarrow> slot k h < length (mHashtable h)"
  by (simp add: hashmap_ok_def slot_def)

lemma hashmap_find_abs: "hashmap_ok h \<Longrightarrow> SafeHashmap_find k h = Inr (hashmap_abs h k)"
  by (simp add: SafeHashmap_find_def bucket_at_def slot_less Bucket_find_abs hashmap_abs_def)

lemma at_slot_abs:
  assumes "hashmap_ok h" and "\<And>b. bucket_ok b \<Longrightarrow> bucket_ok (f b) \<and> bucket_abs (f b) = ref_op op (bucket_abs b)"
    and "op = Erase k \<or> (\<exists>v. op = Insert k v)"
  shows "\<exists>h'. at_slot k f h = Inr h' \<and> hashmap_ok h' \<and> hashmap_abs h' = ref_op op (hashmap_abs h)"
proof -
  let ?i = "slot k h" and ?b = "mHashtable h ! slot k h"
  let ?h = "h\<lparr>mHashtable := (mHashtable h)[slot k h := f ?b]\<rparr>"
  have i: "?i < length (mHashtable h)" using slot_less [OF assms(1)] .
  have b: "bucket_ok (f ?b)" "bucket_abs (f ?b) = ref_op op (bucket_abs ?b)"
    using assms(1,2) i by (auto simp: hashmap_ok_def)
  have sl [simp]: "slot k' ?h = slot k' h" for k' by (simp add: slot_def)
  have d: "dom (bucket_abs (f ?b)) \<subseteq> insert k (dom (bucket_abs ?b))"
    unfolding b(2) using assms(3) by (auto split: option.splits if_splits)
  have "hashmap_ok ?h"
    using assms(1) i b(1) d by (fastforce simp: hashmap_ok_def nth_list_update)
  moreover have "hashmap_abs ?h = ref_op op (hashmap_abs h)"
  proof
    fix k'
    have other: "k' \<noteq> k \<Longrightarrow> ref_op op m k' = m k'" for m :: "'a \<rightharpoonup> 'b"
      using assms(3) by (auto split: option.splits)
    have same: "ref_op op m k = ref_op op m' k" if "m k = m' k" for m m' :: "'a \<rightharpoonup> 'b"
      using assms(3) that by (auto split: option.splits)
    show "hashmap_abs ?h k' = ref_op op (hashmap_abs h) k'"
    proof (cases "k' = k")
      case True
      then show ?thesis
        using i b(2) same [of "bucket_abs ?b" "hashmap_abs h"] by (simp add: hashmap_abs_def)
    next
      case False
      then show ?thesis
        using i b(2) other by (cases "slot k' h = slot k h") (simp_all add: hashmap_abs_def)
    qed
  qed
  moreover have "at_slot k f h = Inr ?h"
    using i by (simp add: at_slot_def bucket_at_def)
  ultimately show ?thesis by blast
qed

interpretation hm: map_store hashmap_ok hashmap_abs SafeHashmap_find SafeHashmap_insert SafeHashmap_erase
proof unfold_locales
  fix s :: "('a, 'b) safe_hashmap" and k v
  assume s: "hashmap_ok s"
  then show "SafeHashmap_find k s = Inr (hashmap_abs s k)" by (rule hashmap_find_abs)
  show "\<exists>s'. SafeHashmap_insert k v s = Inr s' \<and> hashmap_ok s' \<and>
          hashmap_abs s' = ref_op (Insert k v) (hashmap_abs s)"
    unfolding SafeHashmap_insert_def
    by (rule at_slot_abs [OF s]; simp add: Bucket_insert_abs del: ref_op.simps)
  show "\<exists>s'. SafeHashmap_erase k s = Inr s' \<and> hashmap_ok s' \<and>
          hashmap_abs s' = ref_op (Erase k) (hashmap_abs s)"
    unfolding SafeHashmap_erase_def
    by (rule at_slot_abs [OF s]; simp add: Bucket_erase_abs del: ref_op.simps)
qed

lemma new_SafeHashmap_ok:
  "0 < n \<Longrightarrow> hashmap_ok (new_SafeHashmap n f)"
  "0 < n \<Longrightarrow> hashmap_abs (new_SafeHashmap n f) = Map.empty"
  by (simp_all add: hashmap_ok_def new_SafeHashmap_def bucket_ok_def new_Bucket_def bucket_abs_def
      hashmap_abs_def slot_def)

lemma SafeHashmap_insertOrAssign_is_insert: "SafeHashmap_insertOrAssign = SafeHashmap_insert"
  by (simp add: SafeHashmap_insertOrAssign_def SafeHashmap_insert_def fun_eq_iff)

lemma card_bucket: "bucket_ok b \<Longrightarrow> card (dom (bucket_abs b)) = Bucket_size b"
  by (simp add: bucket_ok_def bucket_abs_def Bucket_size_def dom_map_of_conv_image_fst
      distinct_card flip: set_map)

lemma size_fold:
  "fold (\<lambda>b res. res + of_nat (Bucket_size b)) bs (acc :: i32) =
     acc + of_nat (sum_list (map Bucket_size bs))"
  by (induction bs arbitrary: acc) (simp_all add: add.assoc)

lemma hashmap_card:
  assumes "hashmap_ok h"
  shows "card (dom (hashmap_abs h)) = sum_list (map Bucket_size (mHashtable h))"
proof -
  let ?n = "mBucketSize h" and ?d = "\<lambda>i. dom (bucket_abs (mHashtable h ! i))"
  have "dom (hashmap_abs h) = (\<Union>i<?n. ?d i)"
  proof
    show "dom (hashmap_abs h) \<subseteq> (\<Union>i<?n. ?d i)"
      using slot_less [OF assms] assms by (auto simp: hashmap_abs_def hashmap_ok_def)
    show "(\<Union>i<?n. ?d i) \<subseteq> dom (hashmap_abs h)"
    proof
      fix k assume "k \<in> (\<Union>i<?n. ?d i)"
      then obtain i where "i < ?n" "k \<in> ?d i" by blast
      moreover from this have "slot k h = i" using assms by (auto simp: hashmap_ok_def)
      ultimately show "k \<in> dom (hashmap_abs h)" by (auto simp: hashmap_abs_def)
    qed
  qed
  moreover have "card (\<Union>i<?n. ?d i) = (\<Sum>i<?n. card (?d i))"
  proof (rule card_UN_disjoint)
    have "slot k h = i" if "i < ?n" "k \<in> ?d i" for i k
      using assms that by (auto simp: hashmap_ok_def)
    then show "\<forall>i\<in>{..<?n}. \<forall>j\<in>{..<?n}. i \<noteq> j \<longrightarrow> ?d i \<inter> ?d j = {}" by blast
  qed (simp_all add: bucket_abs_def finite_dom_map_of)
  moreover have "(\<Sum>i<?n. card (?d i)) = (\<Sum>i<?n. Bucket_size (mHashtable h ! i))"
    using assms by (intro sum.cong) (simp_all add: hashmap_ok_def card_bucket)
  moreover have "\<dots> = sum_list (map Bucket_size (mHashtable h))"
    using assms by (simp add: sum_list_sum_nth hashmap_ok_def atLeast0LessThan)
  ultimately show ?thesis by simp
qed

section \<open>Properties\<close>

text \<open>C16. A \<^verbatim>\<open>SafeHashmap\<close> with at least one bucket is a map: after any sequence of
  \<^verbatim>\<open>insert\<close> and \<^verbatim>\<open>erase\<close>, whatever the hash function, no operation throws, \<^verbatim>\<open>find\<close> returns what
  the same sequence makes of a map whose insertion keeps an existing value, and \<^verbatim>\<open>size\<close> is the
  number of keys (as long as that fits the \<^verbatim>\<open>int\<close> it is counted in).\<close>

theorem hashmap_refines_map:
  fixes ops :: "('k, 'v) map_op list"
  assumes "0 < n"
  shows "\<exists>h. run_map SafeHashmap_insert SafeHashmap_erase ops (new_SafeHashmap n f) = Inr h \<and>
           (\<forall>k. SafeHashmap_find k h = Inr (fold ref_op ops Map.empty k)) \<and>
           (card (dom (fold ref_op ops Map.empty)) < 2 ^ 31 \<longrightarrow>
              unat (SafeHashmap_size h) = card (dom (fold ref_op ops Map.empty)))"
proof -
  from hm.run_refines [OF new_SafeHashmap_ok(1) [OF assms], of ops f] obtain h where h:
      "run_map SafeHashmap_insert SafeHashmap_erase ops (new_SafeHashmap n f) = Inr h"
      "hashmap_ok h" "hashmap_abs h = fold ref_op ops Map.empty"
    by (auto simp: new_SafeHashmap_ok(2) [OF assms])
  have "unat (SafeHashmap_size h) = card (dom (hashmap_abs h))" if "card (dom (hashmap_abs h)) < 2 ^ 31"
    using that unfolding hashmap_card [OF h(2)] SafeHashmap_size_def size_fold
    by (simp add: unat_scast_of_nat)
  with h hm.find_abs [OF h(2)] show ?thesis by auto
qed

definition sample_ops :: "(nat, bool) map_op list" where
  "sample_ops = [Insert 3 True, Insert 5 False, Insert 3 False, Erase 5]"

theorem hashmap_refines_map_witness:
  "\<exists>h. run_map SafeHashmap_insert SafeHashmap_erase sample_ops (new_SafeHashmap 2 id) = Inr h \<and>
       (\<forall>k. SafeHashmap_find k h = Inr (fold ref_op sample_ops Map.empty k)) \<and>
       (card (dom (fold ref_op sample_ops Map.empty)) < 2 ^ 31 \<longrightarrow>
          unat (SafeHashmap_size h) = card (dom (fold ref_op sample_ops Map.empty)))"
  using hashmap_refines_map [of 2 sample_ops id] by simp

text \<open>\<^verbatim>\<open>insertOrAssign\<close> of the table never assigns: it calls the \<^verbatim>\<open>insert\<close> of the bucket, so
  a value stored under a key stays, while \<^verbatim>\<open>Bucket::insertOrAssign\<close> does what its name says.\<close>

theorem insertOrAssign_never_assigns:
  assumes "hashmap_ok h" and "SafeHashmap_find k h = Inr (Some old)"
  shows "rbind (SafeHashmap_insertOrAssign k new h) (SafeHashmap_find k) = Inr (Some old) \<and>
         Bucket_find k (Bucket_insertOrAssign k new (mHashtable h ! slot k h)) = Some new"
proof
  have a: "hashmap_abs h k = Some old"
    using assms hashmap_find_abs [OF assms(1), of k] by simp
  obtain h' where "SafeHashmap_insert k new h = Inr h'" "hashmap_ok h'"
      "hashmap_abs h' = ref_op (Insert k new) (hashmap_abs h)"
    using hm.ins_abs [OF assms(1), of k new] by blast
  then show "rbind (SafeHashmap_insertOrAssign k new h) (SafeHashmap_find k) = Inr (Some old)"
    by (simp add: SafeHashmap_insertOrAssign_is_insert hashmap_find_abs a)
  have "bucket_ok (mHashtable h ! slot k h)"
    using assms(1) slot_less [OF assms(1), of k] by (simp add: hashmap_ok_def)
  then show "Bucket_find k (Bucket_insertOrAssign k new (mHashtable h ! slot k h)) = Some new"
    by (simp add: Bucket_find_abs Bucket_insertOrAssign_abs)
qed

definition one_entry :: "(nat, nat) safe_hashmap" where
  "one_entry = \<lparr>mBucketSize = 2, mHashFunc = id,
     mHashtable = [\<lparr>bk_mData = [(4, 1)]\<rparr>, \<lparr>bk_mData = []\<rparr>]\<rparr>"

lemma one_entry_ok: "hashmap_ok one_entry"
  by (auto simp: hashmap_ok_def one_entry_def bucket_ok_def bucket_abs_def slot_def less_2_cases_iff
      split: if_splits)

theorem insertOrAssign_never_assigns_witness:
  "rbind (SafeHashmap_insertOrAssign 4 9 one_entry) (SafeHashmap_find 4) = Inr (Some 1) \<and>
   Bucket_find 4 (Bucket_insertOrAssign 4 9 (mHashtable one_entry ! slot 4 one_entry)) = Some 9"
  by (rule insertOrAssign_never_assigns [OF one_entry_ok])
    (simp add: SafeHashmap_find_def bucket_at_def slot_def one_entry_def Bucket_find_def)

text \<open>A table constructed with 0 buckets takes 1031 as the divisor but creates none: every
  access throws \<^verbatim>\<open>std::out_of_range\<close>.\<close>

theorem zero_buckets_throw:
  "SafeHashmap_insert k v (new_SafeHashmap 0 f) = Inl OutOfRange \<and>
   SafeHashmap_find k (new_SafeHashmap 0 f :: ('k, 'v) safe_hashmap) = Inl OutOfRange \<and>
   SafeHashmap_erase k (new_SafeHashmap 0 f :: ('k, 'v) safe_hashmap) = Inl OutOfRange \<and>
   SafeHashmap_bucketSize (new_SafeHashmap 0 f :: ('k, 'v) safe_hashmap) = 1031"
  by (simp add: SafeHashmap_insert_def SafeHashmap_find_def SafeHashmap_erase_def at_slot_def
      bucket_at_def new_SafeHashmap_def SafeHashmap_bucketSize_def)

end
