(* ===== verification/Wheel_Timer.thy ===== *)
theory Wheel_Timer
  imports Safe_Queue
begin

text \<open>
  \<^verbatim>\<open>Base/utility/Timer\<close>: the timer of the servers, three wheels of 60 second, 60 minute and 24
  hour slots kept in one vector of lists. \<^verbatim>\<open>tick\<close> visits one second slot per second, and the
  minute and hour slots when a wheel has gone round; \<^verbatim>\<open>registerTask\<close> takes tasks from a
  \<^verbatim>\<open>SafeQueue\<close>. The two threads work on the wheels without a lock; here one iteration of either
  is atomic. The function of a task is opaque: calling it appends the id of the task and the
  function to the ghost list \<open>tw_fired\<close>.

  The loops over a slot run as long as the list has a next node, nodes appended on the way
  included, so they are partial functions; \<open>tick_total\<close> shows that they return.
\<close>

section \<open>TimerTask\<close>

record 'f timer_task =
  tt_Hours :: nat
  tt_Minutes :: nat
  tt_Seconds :: nat
  mCycleNumber :: int
  mID :: string
  mTask :: "'f option"

definition new_TimerTask :: "nat \<Rightarrow> nat \<Rightarrow> nat \<Rightarrow> int \<Rightarrow> string \<Rightarrow> 'f option \<Rightarrow> 'f timer_task" where
  "new_TimerTask hrs mins secs cycNum ident task =
     (let minCarry = secs div 60; hrCarry = wrap64 (mins + minCarry) div 60 in
      \<lparr>tt_Hours = wrap64 (hrs + hrCarry), tt_Minutes = wrap64 (mins + minCarry) mod 60,
       tt_Seconds = secs mod 60, mCycleNumber = cycNum, mID = ident, mTask = task\<rparr>)"

definition task_offset :: "nat \<Rightarrow> nat \<Rightarrow> nat \<Rightarrow> 'f timer_task \<Rightarrow> 'f timer_task" where
  "task_offset hrs mins secs t =
     (let carryMin = wrap64 (tt_Seconds t + secs) div 60;
          carryHr = wrap64 (tt_Minutes t + mins + carryMin) div 60 in
      t\<lparr>tt_Hours := wrap64 (tt_Hours t + (hrs + carryHr)),
        tt_Minutes := wrap64 (tt_Minutes t + mins) mod 60,
        tt_Seconds := wrap64 (tt_Seconds t + secs) mod 60\<rparr>)"

section \<open>TimerNode\<close>

record 'f timer_node =
  mTimerTask :: "'f timer_task"
  mHasSeconds :: bool
  mHasMinutes :: bool
  mHasHours :: bool
  mRound :: nat

definition new_TimerNode :: "'f timer_task \<Rightarrow> 'f timer_node" where
  "new_TimerNode t =
     \<lparr>mTimerTask = t, mHasSeconds = tt_Seconds t > 0, mHasMinutes = tt_Minutes t > 0,
      mHasHours = tt_Hours t > 0, mRound = (if tt_Hours t \<ge> 24 then tt_Hours t div 24 else 0)\<rparr>"

definition subRound :: "'f timer_node \<Rightarrow> bool \<times> 'f timer_node" where
  "subRound n = (if mRound n = 0 then (False, n) else (True, n\<lparr>mRound := mRound n - 1\<rparr>))"

section \<open>TimeWheelTimer\<close>

record 'f wheel_timer =
  tw_Seconds :: nat
  tw_Minutes :: nat
  tw_Hours :: nat
  mIncrPerSec :: nat
  mTimeWheel :: "'f timer_node list list"
  mTaskEntry :: "'f timer_task safe_queue"
  mRegisteredTasks :: "string \<rightharpoonup> 'f timer_task"
  tw_fired :: "(string \<times> 'f) list"

definition mSecondSlotsNum :: nat where "mSecondSlotsNum = 60"
definition mMinuteSlotsNum :: nat where "mMinuteSlotsNum = 60"
definition mHourSlotsNum :: nat where "mHourSlotsNum = 24"

lemmas slots_num [simp] = mSecondSlotsNum_def mMinuteSlotsNum_def mHourSlotsNum_def

definition new_TimeWheelTimer :: "'f wheel_timer" where
  "new_TimeWheelTimer =
     \<lparr>tw_Seconds = 0, tw_Minutes = 0, tw_Hours = 0, mIncrPerSec = 0,
      mTimeWheel = replicate (mSecondSlotsNum + mMinuteSlotsNum + mHourSlotsNum) [],
      mTaskEntry = new_SafeQueue, mRegisteredTasks = Map.empty, tw_fired = []\<rparr>"

definition addTask :: "'f timer_task \<Rightarrow> 'f wheel_timer \<Rightarrow> 'f wheel_timer" where
  "addTask t st = st\<lparr>mTaskEntry := SafeQueue_push t (mTaskEntry st)\<rparr>"

definition wheel_at :: "nat \<Rightarrow> 'f wheel_timer \<Rightarrow> 'f timer_node list result" where
  "wheel_at i st = (if i < length (mTimeWheel st) then Inr (mTimeWheel st ! i) else Inl OutOfRange)"

definition set_slot :: "nat \<Rightarrow> 'f timer_node list \<Rightarrow> 'f wheel_timer \<Rightarrow> 'f wheel_timer" where
  "set_slot i ns st = st\<lparr>mTimeWheel := (mTimeWheel st)[i := ns]\<rparr>"

definition push_node :: "nat \<Rightarrow> 'f timer_node \<Rightarrow> 'f wheel_timer \<Rightarrow> 'f wheel_timer result" where
  "push_node i n st = rbind (wheel_at i st) (\<lambda>ns. Inr (set_slot i (ns @ [n]) st))"

text \<open>\<open>x - 1\<close> on \<^verbatim>\<open>size_t\<close> is \<open>x + (2 ^ 64 - 1)\<close>.\<close>

definition addTimerNodeFor :: "'f timer_task \<Rightarrow> 'f wheel_timer \<Rightarrow> 'f wheel_timer result" where
  "addTimerNodeFor t st =
     (let hours = tt_Hours t; minutes = tt_Minutes t; seconds = tt_Seconds t in
      if hours = 0 \<and> minutes = 0 \<and> seconds = 0 then Inr st
      else
        let hrSlotNo = wrap64 (hours + tw_Hours st + (2 ^ 64 - 1)) mod mHourSlotsNum;
            minSlotNo = wrap64 (minutes + tw_Minutes st + (2 ^ 64 - 1)) mod mMinuteSlotsNum;
            secSlotNo = wrap64 (seconds + tw_Seconds st) mod mSecondSlotsNum;
            timerNode = new_TimerNode (task_offset (tw_Hours st) (tw_Minutes st) (tw_Seconds st) t) in
        if hours \<noteq> 0 then push_node (hrSlotNo + mSecondSlotsNum + mMinuteSlotsNum) timerNode st
        else if minutes \<noteq> 0 then push_node (minSlotNo + mSecondSlotsNum) timerNode st
        else push_node secSlotNo timerNode st)"

definition repeatTimerTask :: "string \<Rightarrow> 'f wheel_timer \<Rightarrow> 'f wheel_timer result" where
  "repeatTimerTask key st =
     (case mRegisteredTasks st key of
        None \<Rightarrow> Inr st
      | Some t \<Rightarrow>
          let t' = (if mCycleNumber t > 0 then t\<lparr>mCycleNumber := mCycleNumber t - 1\<rparr> else t) in
          addTimerNodeFor t' (st\<lparr>mRegisteredTasks := (mRegisteredTasks st)(key \<mapsto> t')\<rparr>))"

definition eraseTimerTask :: "string \<Rightarrow> 'f wheel_timer \<Rightarrow> 'f wheel_timer" where
  "eraseTimerTask key st = st\<lparr>mRegisteredTasks := (mRegisteredTasks st)(key := None)\<rparr>"

text \<open>One iteration of the loop of \<^verbatim>\<open>registerTask\<close>; with an empty queue the wait times out.\<close>

definition registerTask :: "'f wheel_timer \<Rightarrow> 'f wheel_timer result" where
  "registerTask st =
     (case SafeQueue_waitAndPop (mTaskEntry st) of
        None \<Rightarrow> Inr st
      | Some (t, q) \<Rightarrow>
          let st = st\<lparr>mTaskEntry := q\<rparr>; cycNum = mCycleNumber t in
          if cycNum = 0 then Inr (eraseTimerTask (mID t) st)
          else addTimerNodeFor t
            (if (cycNum < 0 \<or> cycNum > 1) \<and> mRegisteredTasks st (mID t) = None
             then st\<lparr>mRegisteredTasks := (mRegisteredTasks st)(mID t \<mapsto> t)\<rparr> else st))"

section \<open>The wheels\<close>

definition call_task :: "'f timer_task \<Rightarrow> 'f wheel_timer \<Rightarrow> 'f wheel_timer" where
  "call_task t st =
     (case mTask t of None \<Rightarrow> st | Some f \<Rightarrow> st\<lparr>tw_fired := tw_fired st @ [(mID t, f)]\<rparr>)"

text \<open>The body of the loop for the first node of the slot, which every iteration erases.\<close>

definition erase_head :: "nat \<Rightarrow> 'f wheel_timer \<Rightarrow> 'f wheel_timer" where
  "erase_head i st = set_slot i (tl (mTimeWheel st ! i)) st"

definition visit_second :: "nat \<Rightarrow> 'f timer_node \<Rightarrow> 'f wheel_timer \<Rightarrow> 'f wheel_timer result" where
  "visit_second slotNo n st =
     (let t = mTimerTask n; cycNum = mCycleNumber t; st = call_task t st in
      rbind (if cycNum = 1 then Inr (eraseTimerTask (mID t) st)
             else if cycNum > 1 \<or> cycNum < 0 then repeatTimerTask (mID t) st
             else Inr st)
        (\<lambda>st. Inr (erase_head slotNo st)))"

definition visit_minute :: "nat \<Rightarrow> 'f timer_node \<Rightarrow> 'f wheel_timer \<Rightarrow> 'f wheel_timer result" where
  "visit_minute slotNo n st =
     (if \<not> mHasSeconds n then Inr (call_task (mTimerTask n) (erase_head slotNo st))
      else if tw_Seconds st = 0 then Inl DivideByZero
      else
        let secSlotNo = wrap64 (tt_Seconds (mTimerTask n) + tw_Seconds st) mod tw_Seconds st in
        push_node secSlotNo (new_TimerNode (mTimerTask n)) (erase_head slotNo st))"

partial_function (option) second_loop :: "nat \<Rightarrow> 'f wheel_timer \<Rightarrow> 'f wheel_timer result option" where
  "second_loop slotNo st =
     (case wheel_at slotNo st of
        Inl e \<Rightarrow> Some (Inl e)
      | Inr [] \<Rightarrow> Some (Inr st)
      | Inr (n # ns) \<Rightarrow>
          (case visit_second slotNo n st of
             Inl e \<Rightarrow> Some (Inl e)
           | Inr st' \<Rightarrow> second_loop slotNo st'))"

partial_function (option) minute_loop :: "nat \<Rightarrow> 'f wheel_timer \<Rightarrow> 'f wheel_timer result option" where
  "minute_loop slotNo st =
     (case wheel_at slotNo st of
        Inl e \<Rightarrow> Some (Inl e)
      | Inr [] \<Rightarrow> Some (Inr st)
      | Inr (n # ns) \<Rightarrow>
          (case visit_minute slotNo n st of
             Inl e \<Rightarrow> Some (Inl e)
           | Inr st' \<Rightarrow> minute_loop slotNo st'))"

text \<open>The hour loop keeps the nodes with rounds left, so it walks by position. The result of the
  body says whether the node at the position was erased.\<close>

definition erase_at :: "nat \<Rightarrow> nat \<Rightarrow> 'f wheel_timer \<Rightarrow> 'f wheel_timer" where
  "erase_at i p st =
     set_slot i (take p (mTimeWheel st ! i) @ drop (Suc p) (mTimeWheel st ! i)) st"

definition visit_hour ::
  "nat \<Rightarrow> nat \<Rightarrow> 'f timer_node \<Rightarrow> 'f wheel_timer \<Rightarrow> (bool \<times> 'f wheel_timer) result"
where
  "visit_hour slotNo p n st =
     (if mRound n = 0 then
        (let t = mTimerTask n in
         if mHasMinutes n then
           let minSlotNo = wrap64 (tt_Minutes t + tw_Minutes st) mod mMinuteSlotsNum + mSecondSlotsNum - 1 in
           rbind (push_node minSlotNo (new_TimerNode t) (erase_at slotNo p st)) (\<lambda>st. Inr (True, st))
         else if mHasSeconds n then
           let secSlotNo = wrap64 (tt_Seconds t + tw_Seconds st) mod mSecondSlotsNum in
           rbind (push_node secSlotNo (new_TimerNode t) (erase_at slotNo p st)) (\<lambda>st. Inr (True, st))
         else Inr (True, call_task t (erase_at slotNo p st)))
      else
        Inr (False, set_slot slotNo ((mTimeWheel st ! slotNo)[p := snd (subRound n)]) st))"

partial_function (option) hour_loop :: "nat \<Rightarrow> nat \<Rightarrow> 'f wheel_timer \<Rightarrow> 'f wheel_timer result option" where
  "hour_loop slotNo p st =
     (case wheel_at slotNo st of
        Inl e \<Rightarrow> Some (Inl e)
      | Inr ns \<Rightarrow>
          (if p < length ns
           then (case visit_hour slotNo p (ns ! p) st of
                   Inl e \<Rightarrow> Some (Inl e)
                 | Inr (erased, st') \<Rightarrow> hour_loop slotNo (if erased then p else Suc p) st')
           else Some (Inr st)))"

definition checkSecondWheel :: "nat \<Rightarrow> 'f wheel_timer \<Rightarrow> 'f wheel_timer result option" where
  "checkSecondWheel slotNo st = second_loop slotNo st"

definition checkMinuteWheel :: "nat \<Rightarrow> 'f wheel_timer \<Rightarrow> 'f wheel_timer result option" where
  "checkMinuteWheel slotNo st = minute_loop slotNo st"

definition checkHourWheel :: "nat \<Rightarrow> 'f wheel_timer \<Rightarrow> 'f wheel_timer result option" where
  "checkHourWheel slotNo st = hour_loop slotNo 0 st"

definition then_do ::
  "'a result option \<Rightarrow> ('a \<Rightarrow> 'b result option) \<Rightarrow> 'b result option" where
  "then_do m f = (case m of None \<Rightarrow> None | Some (Inl e) \<Rightarrow> Some (Inl e) | Some (Inr x) \<Rightarrow> f x)"

lemma then_do_simps [simp]:
  "then_do None f = None" "then_do (Some (Inl e)) f = Some (Inl e)" "then_do (Some (Inr x)) f = f x"
  by (simp_all add: then_do_def)

text \<open>One iteration of the inner loop of \<^verbatim>\<open>tick\<close>: one second.\<close>

definition tick :: "'f wheel_timer \<Rightarrow> 'f wheel_timer result option" where
  "tick st =
     then_do (checkSecondWheel (tw_Seconds st) (st\<lparr>mIncrPerSec := 0\<rparr>)) (\<lambda>st.
     let st = st\<lparr>tw_Seconds := wrap64 (tw_Seconds st + 1)\<rparr> in
     if tw_Seconds st = mSecondSlotsNum then
       then_do (checkMinuteWheel (tw_Minutes st + mSecondSlotsNum) st) (\<lambda>st.
       let st = st\<lparr>tw_Seconds := 0, tw_Minutes := wrap64 (tw_Minutes st + 1)\<rparr> in
       if tw_Minutes st = mMinuteSlotsNum then
         then_do (checkHourWheel (tw_Hours st mod mHourSlotsNum + mMinuteSlotsNum + mSecondSlotsNum) st)
           (\<lambda>st. Some (Inr (st\<lparr>tw_Seconds := 0, tw_Minutes := 0, tw_Hours := wrap64 (tw_Hours st + 1)\<rparr>)))
       else Some (Inr st))
     else Some (Inr st))"

fun ticks :: "nat \<Rightarrow> 'f wheel_timer \<Rightarrow> 'f wheel_timer result option" where
  "ticks 0 st = Some (Inr st)"
| "ticks (Suc k) st = then_do (tick st) (ticks k)"

section \<open>The loops return\<close>

definition timer_ok :: "'f wheel_timer \<Rightarrow> bool" where
  "timer_ok st =
     (length (mTimeWheel st) = 144 \<and> tw_Seconds st < 60 \<and> tw_Minutes st < 60 \<and>
      (\<forall>t \<in> ran (mRegisteredTasks st). tt_Seconds t < 60))"

text \<open>While the hands are being moved the seconds, and then the minutes, stand at 60.\<close>

definition wheels_ok :: "'f wheel_timer \<Rightarrow> bool" where
  "wheels_ok st =
     (length (mTimeWheel st) = 144 \<and> (\<forall>t \<in> ran (mRegisteredTasks st). tt_Seconds t < 60))"

text \<open>What a step on the wheels leaves alone: the hands, the queue, the other slots' validity.\<close>

definition same_hands :: "'f wheel_timer \<Rightarrow> 'f wheel_timer \<Rightarrow> bool" where
  "same_hands st st' =
     (tw_Seconds st' = tw_Seconds st \<and> tw_Minutes st' = tw_Minutes st \<and>
      tw_Hours st' = tw_Hours st \<and> mTaskEntry st' = mTaskEntry st)"

lemma same_hands_refl [simp]: "same_hands st st"
  by (simp add: same_hands_def)

lemma same_hands_trans: "same_hands a b \<Longrightarrow> same_hands b c \<Longrightarrow> same_hands a c"
  by (simp add: same_hands_def)

lemma push_node_ok:
  assumes "wheels_ok st" and "i < 144"
  shows "push_node i n st = Inr (set_slot i (mTimeWheel st ! i @ [n]) st)"
    and "wheels_ok (set_slot i ns st)" and "same_hands st (set_slot i ns st)"
    and "mTimeWheel (set_slot i ns st) ! j = (if j = i then ns else mTimeWheel st ! j)"
  using assms
  by (auto simp: push_node_def wheel_at_def wheels_ok_def set_slot_def same_hands_def)

lemma call_task_simps [simp]:
  "wheels_ok (call_task t st) = wheels_ok st" "same_hands a (call_task t st) = same_hands a st"
  "mTimeWheel (call_task t st) = mTimeWheel st"
  "mRegisteredTasks (call_task t st) = mRegisteredTasks st"
  "tw_Seconds (call_task t st) = tw_Seconds st" "tw_Minutes (call_task t st) = tw_Minutes st"
  "tw_Hours (call_task t st) = tw_Hours st" "mTaskEntry (call_task t st) = mTaskEntry st"
  by (simp_all add: call_task_def wheels_ok_def same_hands_def split: option.splits)

text \<open>A task that only waits seconds goes to a slot that is not the one being visited.\<close>

lemma add_mod_neq: "(s::nat) \<noteq> 0 \<Longrightarrow> s < 60 \<Longrightarrow> b < 60 \<Longrightarrow> (s + b) mod 60 \<noteq> b"
  by (cases "s + b < 60") (auto simp: not_less le_mod_geq)

lemma addTimerNodeFor_ok:
  assumes "wheels_ok st" and "tw_Seconds st < 60" and "tt_Seconds t < 60"
  shows "\<exists>st'. addTimerNodeFor t st = Inr st' \<and> wheels_ok st' \<and> same_hands st st' \<and>
           mTimeWheel st' ! tw_Seconds st = mTimeWheel st ! tw_Seconds st \<and>
           mRegisteredTasks st' = mRegisteredTasks st \<and> tw_fired st' = tw_fired st"
proof -
  let ?h = "wrap64 (tt_Hours t + tw_Hours st + (2 ^ 64 - 1)) mod 24 + 120"
  let ?m = "wrap64 (tt_Minutes t + tw_Minutes st + (2 ^ 64 - 1)) mod 60 + 60"
  let ?s = "(tt_Seconds t + tw_Seconds st) mod 60"
  let ?n = "new_TimerNode (task_offset (tw_Hours st) (tw_Minutes st) (tw_Seconds st) t)"
  have w: "wrap64 (tt_Seconds t + tw_Seconds st) = tt_Seconds t + tw_Seconds st"
    using assms(2,3) by (intro wrap64_small) simp
  let ?i = "if tt_Hours t \<noteq> 0 then ?h else if tt_Minutes t \<noteq> 0 then ?m else ?s"
  have h: "?h < 144" by (simp add: less_le_trans [of _ 24 24])
  have m: "?m < 120" by (simp add: less_le_trans [of _ 60 60])
  have i: "?i < 144"
    using h m by (auto intro: less_le_trans)
  show ?thesis
  proof (cases "tt_Hours t = 0 \<and> tt_Minutes t = 0 \<and> tt_Seconds t = 0")
    case True
    with assms show ?thesis by (simp add: addTimerNodeFor_def)
  next
    case False
    have ne: "tw_Seconds st \<noteq> ?i"
      using assms(2,3) False add_mod_neq [of "tt_Seconds t" "tw_Seconds st"]
      by (auto intro: less_imp_neq less_le_trans)
    have "addTimerNodeFor t st = push_node ?i ?n st"
      using False by (auto simp: addTimerNodeFor_def Let_def w add.commute add.left_commute)
    with push_node_ok(1) [OF assms(1) i, of ?n]
      push_node_ok(2-4) [OF assms(1) i, where ns = "mTimeWheel st ! ?i @ [?n]"] ne show ?thesis
      by (simp add: set_slot_def)
  qed
qed

lemma repeatTimerTask_ok:
  assumes "wheels_ok st" and "tw_Seconds st < 60"
  shows "\<exists>st'. repeatTimerTask key st = Inr st' \<and> wheels_ok st' \<and> same_hands st st' \<and>
           mTimeWheel st' ! tw_Seconds st = mTimeWheel st ! tw_Seconds st \<and> tw_fired st' = tw_fired st"
proof (cases "mRegisteredTasks st key")
  case None
  with assms show ?thesis by (simp add: repeatTimerTask_def)
next
  case (Some t)
  let ?t = "if mCycleNumber t > 0 then t\<lparr>mCycleNumber := mCycleNumber t - 1\<rparr> else t"
  let ?st = "st\<lparr>mRegisteredTasks := (mRegisteredTasks st)(key \<mapsto> ?t)\<rparr>"
  have "tt_Seconds ?t < 60" using assms(1) Some by (auto simp: wheels_ok_def ran_def)
  moreover have "wheels_ok ?st" using assms(1) calculation by (auto simp: wheels_ok_def ran_def)
  ultimately obtain st' where "addTimerNodeFor ?t ?st = Inr st'" "wheels_ok st'" "same_hands ?st st'"
      "mTimeWheel st' ! tw_Seconds ?st = mTimeWheel ?st ! tw_Seconds ?st" "tw_fired st' = tw_fired ?st"
    using addTimerNodeFor_ok [of ?st ?t] assms(2) by auto
  with Some show ?thesis by (simp add: repeatTimerTask_def Let_def same_hands_def)
qed

lemma visit_second_ok:
  assumes "wheels_ok st" and "tw_Seconds st < 60"
  shows "\<exists>st'. visit_second (tw_Seconds st) n st = Inr st' \<and> wheels_ok st' \<and> same_hands st st' \<and>
           mTimeWheel st' ! tw_Seconds st = tl (mTimeWheel st ! tw_Seconds st)"
proof -
  let ?t = "mTimerTask n" and ?st = "call_task (mTimerTask n) st"
  have "\<exists>st'. (if mCycleNumber ?t = 1 then Inr (eraseTimerTask (mID ?t) ?st)
             else if mCycleNumber ?t > 1 \<or> mCycleNumber ?t < 0 then repeatTimerTask (mID ?t) ?st
             else Inr ?st) = Inr st' \<and> wheels_ok st' \<and> same_hands st st' \<and>
           mTimeWheel st' ! tw_Seconds st = mTimeWheel st ! tw_Seconds st"
    using repeatTimerTask_ok [of ?st "mID ?t"] assms
    by (auto simp: eraseTimerTask_def wheels_ok_def same_hands_def ran_def)
  then obtain st' where s: "(if mCycleNumber ?t = 1 then Inr (eraseTimerTask (mID ?t) ?st)
             else if mCycleNumber ?t > 1 \<or> mCycleNumber ?t < 0 then repeatTimerTask (mID ?t) ?st
             else Inr ?st) = Inr st'" "wheels_ok st'" "same_hands st st'"
           "mTimeWheel st' ! tw_Seconds st = mTimeWheel st ! tw_Seconds st" by blast
  have "visit_second (tw_Seconds st) n st = Inr (erase_head (tw_Seconds st) st')"
    unfolding visit_second_def Let_def s(1) by simp
  with s push_node_ok(2-4) [OF s(2), of "tw_Seconds st"] assms(2) same_hands_trans [OF s(3)]
  show ?thesis by (simp add: erase_head_def)
qed

lemma second_loop_ok:
  assumes "wheels_ok st" and "tw_Seconds st < 60"
  shows "\<exists>st'. second_loop (tw_Seconds st) st = Some (Inr st') \<and> wheels_ok st' \<and> same_hands st st'"
  using assms
proof (induction "length (mTimeWheel st ! tw_Seconds st)" arbitrary: st)
  case 0
  then have "wheel_at (tw_Seconds st) st = Inr []" by (simp add: wheel_at_def wheels_ok_def)
  then show ?case using "0.prems" by (subst second_loop.simps) simp
next
  case (Suc k)
  then obtain n ns where w: "mTimeWheel st ! tw_Seconds st = n # ns"
    by (cases "mTimeWheel st ! tw_Seconds st") auto
  from visit_second_ok [OF Suc.prems, of n] obtain st1 where v:
      "visit_second (tw_Seconds st) n st = Inr st1" "wheels_ok st1" "same_hands st st1"
      "mTimeWheel st1 ! tw_Seconds st = ns" using w by auto
  have t: "tw_Seconds st1 = tw_Seconds st" using v(3) by (simp add: same_hands_def)
  have "k = length (mTimeWheel st1 ! tw_Seconds st1)" using Suc.hyps(2) w v(4) t by simp
  from Suc.hyps(1) [OF this v(2)] Suc.prems(2) t v(3) obtain st' where
      "second_loop (tw_Seconds st) st1 = Some (Inr st')" "wheels_ok st'" "same_hands st st'"
    by (auto intro: same_hands_trans)
  moreover have "wheel_at (tw_Seconds st) st = Inr (n # ns)"
    using Suc.prems w by (simp add: wheel_at_def wheels_ok_def)
  ultimately show ?case using v(1) by (subst second_loop.simps) simp
qed

lemma minute_loop_ok:
  assumes "wheels_ok st" and "tw_Seconds st = 60" and "60 \<le> i" and "i < 120"
  shows "\<exists>st'. minute_loop i st = Some (Inr st') \<and> wheels_ok st' \<and> same_hands st st'"
  using assms
proof (induction "length (mTimeWheel st ! i)" arbitrary: st)
  case 0
  then have "wheel_at i st = Inr []" by (simp add: wheel_at_def wheels_ok_def)
  then show ?case using "0.prems" by (subst minute_loop.simps) simp
next
  case (Suc k)
  then obtain n ns where w: "mTimeWheel st ! i = n # ns"
    by (cases "mTimeWheel st ! i") auto
  let ?e = "set_slot i ns st"
  have i: "i < 144" using Suc.prems by simp
  note e = push_node_ok(2-4) [OF Suc.prems(1) i, of ns]
  have "\<exists>st1. visit_minute i n st = Inr st1 \<and> wheels_ok st1 \<and> same_hands st st1 \<and>
          mTimeWheel st1 ! i = ns"
  proof (cases "mHasSeconds n")
    case False
    with e w show ?thesis by (simp add: visit_minute_def erase_head_def)
  next
    case True
    let ?s = "wrap64 (tt_Seconds (mTimerTask n) + tw_Seconds st) mod tw_Seconds st"
    let ?n = "new_TimerNode (mTimerTask n)"
    have s: "?s < 60" using Suc.prems(2) by simp
    then have s': "?s < 144" by linarith
    note p = push_node_ok(1) [OF e(1) s', of ?n]
      push_node_ok(2-4) [OF e(1) s', where ns = "mTimeWheel ?e ! ?s @ [?n]"]
    have "visit_minute i n st = Inr (set_slot ?s (mTimeWheel ?e ! ?s @ [?n]) ?e)"
      unfolding visit_minute_def erase_head_def w list.sel(3) p(1) [symmetric] Let_def
      using True Suc.prems(2) by simp
    moreover have "?s \<noteq> i" using s Suc.prems(3) by linarith
    ultimately show ?thesis using p(2-4) e(3) [of i] same_hands_trans [OF e(2)] by auto
  qed
  then obtain st1 where v: "visit_minute i n st = Inr st1" "wheels_ok st1" "same_hands st st1"
      "mTimeWheel st1 ! i = ns" by blast
  have "k = length (mTimeWheel st1 ! i)" "tw_Seconds st1 = 60"
    using Suc.hyps(2) w v(3,4) Suc.prems(2) by (simp_all add: same_hands_def)
  from Suc.hyps(1) [OF this(1) v(2) this(2) Suc.prems(3,4)] v(3) obtain st' where
      "minute_loop i st1 = Some (Inr st')" "wheels_ok st'" "same_hands st st'"
    by (auto intro: same_hands_trans)
  moreover have "wheel_at i st = Inr (n # ns)"
    using Suc.prems w by (simp add: wheel_at_def wheels_ok_def)
  ultimately show ?case using v(1) by (subst minute_loop.simps) simp
qed

lemma visit_hour_ok:
  assumes "wheels_ok st" and "120 \<le> i" and "i < 144" and "p < length (mTimeWheel st ! i)"
  shows "\<exists>b st'. visit_hour i p n st = Inr (b, st') \<and> wheels_ok st' \<and> same_hands st st' \<and>
           length (mTimeWheel st' ! i) = length (mTimeWheel st ! i) - (if b then 1 else 0)"
proof (cases "mRound n = 0")
  case False
  with push_node_ok(2-4) [OF assms(1,3), of "(mTimeWheel st ! i)[p := snd (subRound n)]"]
  show ?thesis by (simp add: visit_hour_def) blast
next
  case True
  let ?ns = "take p (mTimeWheel st ! i) @ drop (Suc p) (mTimeWheel st ! i)"
  let ?e = "erase_at i p st"
  note e = push_node_ok(2-4) [OF assms(1,3), of ?ns]
  have l: "length ?ns = length (mTimeWheel st ! i) - 1" using assms(4) by simp
  have p: "\<exists>st'. push_node j k ?e = Inr st' \<and> wheels_ok st' \<and> same_hands st st' \<and>
             length (mTimeWheel st' ! i) = length (mTimeWheel st ! i) - 1" if "j < 120" for j k
  proof -
    from that assms(2) have j: "j < 144" "i \<noteq> j" by simp_all
    show ?thesis
      unfolding erase_at_def
      using push_node_ok(1) [OF e(1) j(1), of k]
        push_node_ok(2-4) [OF e(1) j(1), where ns = "mTimeWheel (set_slot i ?ns st) ! j @ [k]"]
        e(3) [of i] same_hands_trans [OF e(2)] j(2) l by auto
  qed
  let ?t = "mTimerTask n"
  have m: "wrap64 (tt_Minutes ?t + tw_Minutes st) mod 60 + 60 - 1 < 120"
    and s: "wrap64 (tt_Seconds ?t + tw_Seconds st) mod 60 < 120"
    by (simp_all add: less_le_trans [of _ 60])
  show ?thesis
    using True p [OF m] p [OF s] e l
    by (auto simp: visit_hour_def Let_def rbind_eq_Inr erase_at_def)
qed

lemma hour_loop_ok:
  assumes "wheels_ok st" and "120 \<le> i" and "i < 144"
  shows "\<exists>st'. hour_loop i p st = Some (Inr st') \<and> wheels_ok st' \<and> same_hands st st'"
  using assms
proof (induction "length (mTimeWheel st ! i) - p" arbitrary: st p)
  case 0
  then have "wheel_at i st = Inr (mTimeWheel st ! i)" by (simp add: wheel_at_def wheels_ok_def)
  then show ?case using "0.hyps" "0.prems" by (subst hour_loop.simps) simp
next
  case (Suc k)
  then have p: "p < length (mTimeWheel st ! i)" by simp
  let ?n = "mTimeWheel st ! i ! p"
  from visit_hour_ok [OF Suc.prems(1) Suc.prems(2,3) p, of ?n] obtain b st1 where v:
      "visit_hour i p ?n st = Inr (b, st1)" "wheels_ok st1" "same_hands st st1"
      "length (mTimeWheel st1 ! i) = length (mTimeWheel st ! i) - (if b then 1 else 0)" by blast
  let ?p = "if b then p else Suc p"
  have "k = length (mTimeWheel st1 ! i) - ?p" using Suc.hyps(2) v(4) by simp
  from Suc.hyps(1) [OF this v(2) Suc.prems(2,3)] v(3) obtain st' where
      "hour_loop i ?p st1 = Some (Inr st')" "wheels_ok st'" "same_hands st st'"
    by (auto intro: same_hands_trans)
  moreover have "wheel_at i st = Inr (mTimeWheel st ! i)"
    using Suc.prems by (simp add: wheel_at_def wheels_ok_def)
  ultimately show ?case using v(1) p by (subst hour_loop.simps) simp
qed

text \<open>The hands move like a clock, the hours without end.\<close>

definition clock :: "'f wheel_timer \<Rightarrow> nat" where
  "clock st = (tw_Hours st * 60 + tw_Minutes st) * 60 + tw_Seconds st"

lemma wheels_ok_updates [simp]:
  "wheels_ok (st\<lparr>mIncrPerSec := x\<rparr>) = wheels_ok st" "wheels_ok (st\<lparr>tw_Seconds := x\<rparr>) = wheels_ok st"
  "wheels_ok (st\<lparr>tw_Minutes := x\<rparr>) = wheels_ok st" "wheels_ok (st\<lparr>tw_Hours := x\<rparr>) = wheels_ok st"
  by (simp_all add: wheels_ok_def)

lemma tick_ok:
  assumes "timer_ok st" and "tw_Hours st < 2 ^ 64 - 1"
  shows "\<exists>st'. tick st = Some (Inr st') \<and> timer_ok st' \<and> clock st' = clock st + 1"
proof -
  let ?st = "st\<lparr>mIncrPerSec := 0\<rparr>"
  have w: "wheels_ok ?st" "tw_Seconds ?st < 60" and m: "tw_Minutes st < 60"
    using assms(1) by (simp_all add: timer_ok_def wheels_ok_def)
  obtain st1 where s1: "checkSecondWheel (tw_Seconds st) ?st = Some (Inr st1)" "wheels_ok st1"
      "same_hands st st1"
    using second_loop_ok [OF w] by (auto simp: checkSecondWheel_def same_hands_def)
  let ?st1 = "st1\<lparr>tw_Seconds := tw_Seconds st + 1\<rparr>"
  have sec: "wrap64 (tw_Seconds st1 + 1) = tw_Seconds st + 1"
    using s1(3) w(2) by (simp add: same_hands_def)
  show ?thesis
  proof (cases "tw_Seconds st + 1 = 60")
    case False
    then have "tick st = Some (Inr ?st1)"
      using s1(1,3) sec by (simp add: tick_def Let_def same_hands_def)
    then show ?thesis
      using False s1(2,3) w(2) m by (simp add: timer_ok_def wheels_ok_def same_hands_def clock_def)
  next
    case True
    have "wheels_ok ?st1" "tw_Seconds ?st1 = 60" using s1(2) True by simp_all
    from minute_loop_ok [OF this, of "tw_Minutes st + 60"] m obtain st2 where s2:
        "checkMinuteWheel (tw_Minutes st + 60) ?st1 = Some (Inr st2)" "wheels_ok st2" "same_hands ?st1 st2"
      by (auto simp: checkMinuteWheel_def)
    let ?st2 = "st2\<lparr>tw_Seconds := 0, tw_Minutes := tw_Minutes st + 1\<rparr>"
    have min: "wrap64 (tw_Minutes st2 + 1) = tw_Minutes st + 1" and m2: "tw_Minutes st1 = tw_Minutes st"
      and h2: "tw_Hours st2 = tw_Hours st"
      using s1(3) s2(3) m by (simp_all add: same_hands_def)
    show ?thesis
    proof (cases "tw_Minutes st + 1 = 60")
      case False
      then have "tick st = Some (Inr ?st2)"
        using s1(1) sec s2(1) True min m2 by (simp add: tick_def Let_def)
      then show ?thesis
        using False True s2(2) m h2 by (simp add: timer_ok_def wheels_ok_def clock_def)
    next
      case m60: True
      have "wheels_ok ?st2" using s2(2) by simp
      from hour_loop_ok [OF this, of "tw_Hours st mod 24 + 120" 0] obtain st3 where s3:
          "checkHourWheel (tw_Hours st mod 24 + 120) ?st2 = Some (Inr st3)" "wheels_ok st3"
          "same_hands ?st2 st3"
        by (auto simp: checkHourWheel_def less_diff_conv [symmetric])
      have "wrap64 (tw_Hours st3 + 1) = tw_Hours st + 1"
        using s3(3) h2 assms(2) by (simp add: same_hands_def)
      then have "tick st = Some (Inr (st3\<lparr>tw_Seconds := 0, tw_Minutes := 0, tw_Hours := tw_Hours st + 1\<rparr>))"
        using s1(1) sec s2(1) True min m2 m60 s3(1) h2 by (simp add: tick_def Let_def add.assoc)
      then show ?thesis
        using s3(2) True m60 by (simp add: timer_ok_def wheels_ok_def clock_def)
    qed
  qed
qed

lemma registerTask_ok:
  assumes "timer_ok st" and "\<forall>t \<in> set (sq_mData (mTaskEntry st)). tt_Seconds t < 60"
  shows "\<exists>st'. registerTask st = Inr st' \<and> timer_ok st' \<and> clock st' = clock st \<and>
           set (sq_mData (mTaskEntry st')) \<subseteq> set (sq_mData (mTaskEntry st))"
proof (cases "sq_mData (mTaskEntry st)")
  case Nil
  with assms show ?thesis by (simp add: registerTask_def SafeQueue_waitAndPop_def)
next
  case (Cons t ts)
  let ?st = "st\<lparr>mTaskEntry := mTaskEntry st\<lparr>sq_mData := ts\<rparr>\<rparr>"
  let ?st1 = "if (mCycleNumber t < 0 \<or> mCycleNumber t > 1) \<and> mRegisteredTasks ?st (mID t) = None
              then ?st\<lparr>mRegisteredTasks := (mRegisteredTasks ?st)(mID t \<mapsto> t)\<rparr> else ?st"
  have t: "tt_Seconds t < 60" using assms(2) Cons by simp
  have "wheels_ok ?st1" "tw_Seconds ?st1 < 60"
    using assms(1) t by (auto simp: timer_ok_def wheels_ok_def ran_def)
  from addTimerNodeFor_ok [OF this t] obtain st' where a: "addTimerNodeFor t ?st1 = Inr st'"
      "wheels_ok st'" "same_hands ?st1 st'" by blast
  show ?thesis
  proof (cases "mCycleNumber t = 0")
    case True
    with assms Cons show ?thesis
      by (auto simp: registerTask_def SafeQueue_waitAndPop_def Let_def eraseTimerTask_def
          timer_ok_def clock_def ran_def)
  next
    case False
    then have "registerTask st = Inr st'"
      using Cons a(1) by (simp add: registerTask_def SafeQueue_waitAndPop_def Let_def)
    then show ?thesis
      using a(2,3) assms(1) Cons
      by (auto simp: timer_ok_def wheels_ok_def same_hands_def clock_def split: if_splits)
  qed
qed

section \<open>The timer as a whole\<close>

text \<open>What the threads of a server do to its timer, one step at a time.\<close>

datatype 'f timer_event =
    AddTask nat nat nat int string "'f option"
  | RegisterTask
  | Tick

fun timer_do :: "'f timer_event \<Rightarrow> 'f wheel_timer \<Rightarrow> 'f wheel_timer result option" where
  "timer_do (AddTask h m s c i f) st = Some (Inr (addTask (new_TimerTask h m s c i f) st))"
| "timer_do RegisterTask st = Some (registerTask st)"
| "timer_do Tick st = tick st"

fun timer_run :: "'f timer_event list \<Rightarrow> 'f wheel_timer \<Rightarrow> 'f wheel_timer result option" where
  "timer_run [] st = Some (Inr st)"
| "timer_run (e # es) st = then_do (timer_do e st) (timer_run es)"

definition timer_inv :: "'f wheel_timer \<Rightarrow> bool" where
  "timer_inv st = (timer_ok st \<and> (\<forall>t \<in> set (sq_mData (mTaskEntry st)). tt_Seconds t < 60))"

lemma tick_queue: "timer_ok st \<Longrightarrow> tick st = Some (Inr st') \<Longrightarrow> mTaskEntry st' = mTaskEntry st"
proof -
  assume ok: "timer_ok st" and t: "tick st = Some (Inr st')"
  have w: "wheels_ok (st\<lparr>mIncrPerSec := 0\<rparr>)" "tw_Seconds (st\<lparr>mIncrPerSec := 0\<rparr>) < 60"
    and m: "tw_Minutes st < 60"
    using ok by (simp_all add: timer_ok_def wheels_ok_def)
  obtain st1 where s1: "checkSecondWheel (tw_Seconds st) (st\<lparr>mIncrPerSec := 0\<rparr>) = Some (Inr st1)"
      "wheels_ok st1" "same_hands st st1"
    using second_loop_ok [OF w] by (auto simp: checkSecondWheel_def same_hands_def)
  let ?st1 = "st1\<lparr>tw_Seconds := 60\<rparr>"
  have "wheels_ok ?st1" "tw_Seconds ?st1 = 60" using s1(2) by simp_all
  from minute_loop_ok [OF this, of "tw_Minutes st + 60"] m obtain st2 where s2:
      "checkMinuteWheel (tw_Minutes st + 60) ?st1 = Some (Inr st2)" "wheels_ok st2" "same_hands ?st1 st2"
    by (auto simp: checkMinuteWheel_def)
  let ?st2 = "st2\<lparr>tw_Seconds := 0, tw_Minutes := 60\<rparr>"
  have "wheels_ok ?st2" using s2(2) by simp
  from hour_loop_ok [OF this, of "tw_Hours st mod 24 + 120" 0] obtain st3 where s3:
      "checkHourWheel (tw_Hours st mod 24 + 120) ?st2 = Some (Inr st3)" "same_hands ?st2 st3"
    by (auto simp: checkHourWheel_def less_diff_conv [symmetric])
  show ?thesis
    using t s1(1,3) s2(1,3) s3 w(2) m
    by (auto simp: tick_def Let_def same_hands_def add.assoc split: if_splits)
qed

lemma timer_do_ok:
  assumes "timer_inv st" and "tw_Hours st < 2 ^ 64 - 1"
  shows "\<exists>st'. timer_do e st = Some (Inr st') \<and> timer_inv st' \<and>
           clock st' = clock st + (if e = Tick then 1 else 0)"
proof (cases e)
  case (AddTask h m s c i f)
  with assms show ?thesis
    by (auto simp: timer_inv_def addTask_def SafeQueue_push_def timer_ok_def clock_def
        new_TimerTask_def Let_def)
next
  case RegisterTask
  with assms registerTask_ok [of st] show ?thesis by (force simp: timer_inv_def)
next
  case Tick
  from assms tick_ok [of st] obtain st' where
      "tick st = Some (Inr st')" "timer_ok st'" "clock st' = clock st + 1"
    by (auto simp: timer_inv_def)
  with tick_queue [of st st'] assms(1) Tick show ?thesis by (auto simp: timer_inv_def)
qed

lemma new_timer_inv: "timer_inv new_TimeWheelTimer" "clock new_TimeWheelTimer = 0"
  by (simp_all add: timer_inv_def timer_ok_def new_TimeWheelTimer_def clock_def new_SafeQueue_def)

lemma timer_run_ok:
  assumes "timer_inv st" and "clock st + length es < 2 ^ 64"
  shows "\<exists>st'. timer_run es st = Some (Inr st') \<and> timer_inv st' \<and>
           clock st' = clock st + length (filter (\<lambda>e. e = Tick) es)"
  using assms
proof (induction es arbitrary: st)
  case Nil
  then show ?case by simp
next
  case (Cons e es)
  have "tw_Hours st * 3600 \<le> clock st" by (simp add: clock_def)
  then have "tw_Hours st < 2 ^ 64 - 1" using Cons.prems(2) by simp
  from timer_do_ok [OF Cons.prems(1) this, of e] obtain st1 where
      "timer_do e st = Some (Inr st1)" "timer_inv st1"
      "clock st1 = clock st + (if e = Tick then 1 else 0)" by blast
  with Cons.IH [of st1] Cons.prems(2) show ?case by (auto split: if_splits)
qed

section \<open>When a task runs\<close>

definition idle :: "'f wheel_timer \<Rightarrow> bool" where
  "idle st = (timer_ok st \<and> mTimeWheel st = replicate 144 [])"

text \<open>A timer whose only node belongs to the task \<open>t\<close>, stands \<open>r\<close> second slots ahead of the
  second hand and has the cycle number \<open>c\<close>.\<close>

definition lone :: "'f timer_task \<Rightarrow> 'f \<Rightarrow> int \<Rightarrow> nat \<Rightarrow> 'f wheel_timer \<Rightarrow> bool" where
  "lone t f c r st =
     (timer_ok st \<and>
      (\<exists>n. mTimeWheel st = (replicate 144 [])[(r + tw_Seconds st) mod 60 := [n]] \<and>
           mID (mTimerTask n) = mID t \<and> mTask (mTimerTask n) = Some f \<and>
           mCycleNumber (mTimerTask n) = c) \<and>
      (c \<noteq> 1 \<longrightarrow> mRegisteredTasks st (mID t) = Some (t\<lparr>mCycleNumber := c\<rparr>)))"

definition quiet_above :: "'f wheel_timer \<Rightarrow> bool" where
  "quiet_above st = (\<forall>i. 60 \<le> i \<and> i < 144 \<longrightarrow> mTimeWheel st ! i = [])"

lemma loop_empty:
  "wheels_ok st \<Longrightarrow> i < 144 \<Longrightarrow> mTimeWheel st ! i = [] \<Longrightarrow> second_loop i st = Some (Inr st)"
  "wheels_ok st \<Longrightarrow> i < 144 \<Longrightarrow> mTimeWheel st ! i = [] \<Longrightarrow> minute_loop i st = Some (Inr st)"
  "wheels_ok st \<Longrightarrow> i < 144 \<Longrightarrow> mTimeWheel st ! i = [] \<Longrightarrow> hour_loop i 0 st = Some (Inr st)"
  by (subst second_loop.simps minute_loop.simps hour_loop.simps,
      simp add: wheel_at_def wheels_ok_def)+

lemma tick_quiet:
  assumes "timer_ok st" and s1: "checkSecondWheel (tw_Seconds st) (st\<lparr>mIncrPerSec := 0\<rparr>) = Some (Inr st1)"
    and "wheels_ok st1" and "same_hands st st1" and "quiet_above st1"
  shows "\<exists>st'. tick st = Some (Inr st') \<and> timer_ok st' \<and> mTimeWheel st' = mTimeWheel st1 \<and>
           mRegisteredTasks st' = mRegisteredTasks st1 \<and> tw_fired st' = tw_fired st1 \<and>
           tw_Seconds st' = (tw_Seconds st + 1) mod 60"
proof -
  let ?st1 = "st1\<lparr>tw_Seconds := 60\<rparr>" and ?st2 = "st1\<lparr>tw_Seconds := 0, tw_Minutes := 60\<rparr>"
  have w: "wheels_ok ?st1" "wheels_ok ?st2" using assms(3) by simp_all
  have b: "tw_Seconds st < 60" "tw_Minutes st < 60" using assms(1) by (simp_all add: timer_ok_def)
  have "tw_Minutes st + 60 < 144" "60 \<le> tw_Minutes st + 60" using b by simp_all
  then have m: "checkMinuteWheel (tw_Minutes st + 60) ?st1 = Some (Inr ?st1)"
    using loop_empty(2) [OF w(1)] assms(5) by (simp add: checkMinuteWheel_def quiet_above_def)
  have "tw_Hours st mod 24 + 120 < 144" by (simp add: less_diff_conv [symmetric])
  then have h: "checkHourWheel (tw_Hours st mod 24 + 120) ?st2 = Some (Inr ?st2)"
    using loop_empty(3) [OF w(2)] assms(5) by (simp add: checkHourWheel_def quiet_above_def)
  show ?thesis
    using assms(1,3,4) s1 m h b
    by (cases "tw_Seconds st + 1 = 60"; cases "tw_Minutes st + 1 = 60")
      (auto simp: tick_def Let_def same_hands_def timer_ok_def wheels_ok_def add.assoc)
qed

lemma idle_tick:
  assumes "idle st"
  shows "\<exists>st'. tick st = Some (Inr st') \<and> idle st' \<and> tw_fired st' = tw_fired st"
proof -
  let ?st = "st\<lparr>mIncrPerSec := 0\<rparr>"
  have w: "wheels_ok ?st" and b: "tw_Seconds st < 60" and r: "mTimeWheel st = replicate 144 []"
    using assms by (simp_all add: idle_def timer_ok_def wheels_ok_def)
  have "checkSecondWheel (tw_Seconds st) ?st = Some (Inr ?st)"
    using loop_empty(1) [OF w, of "tw_Seconds st"] b r by (simp add: checkSecondWheel_def)
  moreover have "same_hands st ?st" "quiet_above ?st"
    using r by (simp_all add: same_hands_def quiet_above_def)
  ultimately show ?thesis
    using tick_quiet [of st ?st] assms w by (auto simp: idle_def)
qed

lemma idle_ticks:
  "idle st \<Longrightarrow> \<exists>st'. ticks k st = Some (Inr st') \<and> idle st' \<and> tw_fired st' = tw_fired st"
proof (induction k arbitrary: st)
  case 0
  then show ?case by simp
next
  case (Suc k)
  from idle_tick [OF Suc.prems] obtain st1 where
      "tick st = Some (Inr st1)" "idle st1" "tw_fired st1 = tw_fired st" by blast
  with Suc.IH [of st1] show ?case by simp
qed

lemma lone_wait:
  assumes "lone t f c (Suc r) st" and "Suc r < 60"
  shows "\<exists>st'. tick st = Some (Inr st') \<and> lone t f c r st' \<and> tw_fired st' = tw_fired st"
proof -
  let ?st = "st\<lparr>mIncrPerSec := 0\<rparr>"
  have w: "wheels_ok ?st" and b: "tw_Seconds st < 60"
    using assms(1) by (simp_all add: lone_def timer_ok_def wheels_ok_def)
  obtain n where r: "mTimeWheel st = (replicate 144 [])[(Suc r + tw_Seconds st) mod 60 := [n]]"
    using assms(1) by (auto simp: lone_def)
  have ne: "(Suc r + tw_Seconds st) mod 60 \<noteq> tw_Seconds st"
    using add_mod_neq [of "Suc r" "tw_Seconds st"] assms(2) b by blast
  have "checkSecondWheel (tw_Seconds st) ?st = Some (Inr ?st)"
    using loop_empty(1) [OF w, of "tw_Seconds st"] b r ne by (simp add: checkSecondWheel_def)
  moreover have "(Suc r + tw_Seconds st) mod 60 < 60" by simp
  then have "quiet_above ?st" using r by (auto simp: quiet_above_def nth_list_update)
  moreover have "same_hands st ?st" by (simp add: same_hands_def)
  ultimately obtain st' where "tick st = Some (Inr st')" "timer_ok st'" "mTimeWheel st' = mTimeWheel st"
      "mRegisteredTasks st' = mRegisteredTasks st" "tw_fired st' = tw_fired st"
      "tw_Seconds st' = (tw_Seconds st + 1) mod 60"
    using tick_quiet [of st ?st] assms(1) w by (auto simp: lone_def)
  moreover have "(r + (tw_Seconds st + 1) mod 60) mod 60 = (Suc r + tw_Seconds st) mod 60"
    by (simp add: mod_add_right_eq)
  ultimately show ?thesis using assms(1) by (auto simp: lone_def)
qed

definition next_cycle :: "int \<Rightarrow> int" where
  "next_cycle c = (if c > 0 then c - 1 else c)"

lemma lone_fire:
  assumes l: "lone t f c 0 st" and c: "c \<noteq> 0"
    and t: "tt_Hours t = 0" "tt_Minutes t = 0" "0 < tt_Seconds t" "tt_Seconds t < 60"
      "mTask t = Some f"
  shows "\<exists>st'. tick st = Some (Inr st') \<and> tw_fired st' = tw_fired st @ [(mID t, f)] \<and>
           (if c = 1 then idle st' \<and> mRegisteredTasks st' (mID t) = None
            else lone t f (next_cycle c) (tt_Seconds t - 1) st')"
proof -
  let ?b = "tw_Seconds st" and ?st = "st\<lparr>mIncrPerSec := 0\<rparr>"
  have w: "wheels_ok ?st" and b: "?b < 60"
    using l by (simp_all add: lone_def timer_ok_def wheels_ok_def)
  obtain n where r: "mTimeWheel st = (replicate 144 [])[?b := [n]]" "mID (mTimerTask n) = mID t"
      "mTask (mTimerTask n) = Some f" "mCycleNumber (mTimerTask n) = c"
    using l b by (auto simp: lone_def)
  let ?t = "t\<lparr>mCycleNumber := next_cycle c\<rparr>"
  let ?j = "(tt_Seconds t + ?b) mod 60"
  let ?n = "new_TimerNode (task_offset (tw_Hours st) (tw_Minutes st) ?b ?t)"
  let ?st1 = "if c = 1
    then ?st\<lparr>tw_fired := tw_fired st @ [(mID t, f)], mTimeWheel := replicate 144 [],
             mRegisteredTasks := (mRegisteredTasks st)(mID t := None)\<rparr>
    else ?st\<lparr>tw_fired := tw_fired st @ [(mID t, f)],
             mRegisteredTasks := (mRegisteredTasks st)(mID t \<mapsto> ?t),
             mTimeWheel := (replicate 144 [])[?j := [?n]]\<rparr>"
  have clr: "(replicate 144 [])[?b := []] = replicate 144 ([] :: 'a timer_node list)"
    using b by (simp add: list_update_same_conv)
  have j: "?j \<noteq> ?b" "?j < 60" using add_mod_neq [of "tt_Seconds t" ?b] t(3,4) b by auto
  have sw: "wrap64 (tt_Seconds t + ?b) = tt_Seconds t + ?b"
    using t(4) b by (intro wrap64_small) simp
  have "visit_second ?b n ?st = Inr ?st1"
  proof (cases "c = 1")
    case True
    then show ?thesis
      using r b by (simp add: visit_second_def call_task_def eraseTimerTask_def erase_head_def set_slot_def
          list_update_same_conv)
  next
    case False
    then have "mRegisteredTasks st (mID t) = Some (t\<lparr>mCycleNumber := c\<rparr>)"
      using l by (simp add: lone_def)
    then show ?thesis
      using False c r b t j sw
      by (auto simp: visit_second_def call_task_def repeatTimerTask_def erase_head_def set_slot_def
          addTimerNodeFor_def Let_def push_node_def wheel_at_def next_cycle_def list_update_swap
          nth_list_update clr)
  qed
  moreover have "wheel_at ?b ?st = Inr [n]" using r b by (simp add: wheel_at_def)
  moreover have w1: "wheels_ok ?st1"
    using w t(4) by (auto simp: wheels_ok_def ran_def)
  moreover have "mTimeWheel ?st1 ! ?b = []" using b j by simp
  ultimately have "checkSecondWheel ?b ?st = Some (Inr ?st1)"
    using loop_empty(1) [OF w1, of ?b] b
    unfolding checkSecondWheel_def by (subst second_loop.simps) simp
  moreover have "same_hands st ?st1" by (simp add: same_hands_def)
  moreover have "quiet_above ?st1" using j by (auto simp: quiet_above_def nth_list_update)
  moreover have ok: "timer_ok st" using l by (simp add: lone_def)
  ultimately obtain st' where s: "tick st = Some (Inr st')" "timer_ok st'" "mTimeWheel st' = mTimeWheel ?st1"
      "mRegisteredTasks st' = mRegisteredTasks ?st1" "tw_fired st' = tw_fired ?st1"
      "tw_Seconds st' = (?b + 1) mod 60"
    using tick_quiet [OF ok _ w1] by blast
  have "(tt_Seconds t - 1 + (?b + 1) mod 60) mod 60 = (tt_Seconds t - 1 + (?b + 1)) mod 60"
    by (simp add: mod_add_right_eq)
  then have p: "(tt_Seconds t - 1 + tw_Seconds st') mod 60 = ?j"
    using t(3) s(6) by simp
  show ?thesis
  proof (cases "c = 1")
    case True
    with s show ?thesis by (simp add: idle_def)
  next
    case False
    have "mID (mTimerTask ?n) = mID t" "mTask (mTimerTask ?n) = Some f"
        "mCycleNumber (mTimerTask ?n) = next_cycle c"
      using t(5) by (simp_all add: new_TimerNode_def task_offset_def Let_def)
    then have "lone t f (next_cycle c) (tt_Seconds t - 1) st'"
      unfolding lone_def p using s(2-4) False by auto
    with s False show ?thesis by simp
  qed
qed

text \<open>How often a task with cycle number \<open>c\<close> has run when its turn has come \<open>m\<close> times.\<close>

definition runs :: "int \<Rightarrow> nat \<Rightarrow> nat" where
  "runs c m = (if c < 0 then m else min m (nat c))"

lemma runs_simps: "runs c 0 = 0" "c \<noteq> 0 \<Longrightarrow> c \<noteq> 1 \<Longrightarrow> runs c (Suc m) = Suc (runs (next_cycle c) m)"
    "runs 1 (Suc m) = 1"
  by (auto simp: runs_def next_cycle_def min_def nat_diff_distrib)

lemma lone_schedule:
  assumes "lone t f c r st" and "c \<noteq> 0" and "r < 60"
    and t: "tt_Hours t = 0" "tt_Minutes t = 0" "0 < tt_Seconds t" "tt_Seconds t < 60" "mTask t = Some f"
  shows "\<exists>st'. ticks k st = Some (Inr st') \<and>
           tw_fired st' = tw_fired st @
             replicate (runs c (if k \<le> r then 0 else Suc ((k - Suc r) div tt_Seconds t))) (mID t, f)"
  using assms(1-3)
proof (induction k arbitrary: c r st)
  case 0
  then show ?case by (simp add: runs_simps)
next
  case (Suc k)
  show ?case
  proof (cases r)
    case (Suc r')
    with lone_wait [of t f c r' st] Suc.prems obtain st1 where
        "tick st = Some (Inr st1)" "lone t f c r' st1" "tw_fired st1 = tw_fired st" by auto
    with Suc.IH [of c r' st1] Suc.prems Suc show ?thesis by (cases "k \<le> r'") simp_all
  next
    case 0
    with lone_fire [of t f c st] Suc.prems t obtain st1 where s:
        "tick st = Some (Inr st1)" "tw_fired st1 = tw_fired st @ [(mID t, f)]"
        "if c = 1 then idle st1 \<and> mRegisteredTasks st1 (mID t) = None
         else lone t f (next_cycle c) (tt_Seconds t - 1) st1" by auto
    show ?thesis
    proof (cases "c = 1")
      case True
      with s idle_ticks [of st1 k] 0 show ?thesis by (auto simp: runs_simps)
    next
      case False
      have "next_cycle c \<noteq> 0" "tt_Seconds t - 1 < 60"
        using False Suc.prems(2) t(4) by (auto simp: next_cycle_def)
      with Suc.IH [of "next_cycle c" "tt_Seconds t - 1" st1] s False obtain st' where s':
          "ticks k st1 = Some (Inr st')"
          "tw_fired st' = tw_fired st1 @ replicate (runs (next_cycle c)
             (if k \<le> tt_Seconds t - 1 then 0 else Suc ((k - Suc (tt_Seconds t - 1)) div tt_Seconds t))) (mID t, f)"
        by auto
      have "(if k \<le> tt_Seconds t - 1 then 0 else Suc ((k - Suc (tt_Seconds t - 1)) div tt_Seconds t))
              = k div tt_Seconds t"
        using t(3) by (auto simp: le_div_geq)
      with s s' False 0 Suc.prems(2) show ?thesis by (simp add: runs_simps)
    qed
  qed
qed
text \<open>A node in the minute slot that is checked at the end of the current minute.\<close>

definition lone_minute :: "'f timer_node \<Rightarrow> 'f wheel_timer \<Rightarrow> bool" where
  "lone_minute n st =
     (timer_ok st \<and> mTimeWheel st = (replicate 144 [])[tw_Minutes st + 60 := [n]] \<and>
      \<not> mHasSeconds n)"

lemma lone_minute_second:
  assumes "lone_minute n st"
  shows "second_loop (tw_Seconds st) (st\<lparr>mIncrPerSec := 0\<rparr>) = Some (Inr (st\<lparr>mIncrPerSec := 0\<rparr>))"
  using assms loop_empty(1) [of "st\<lparr>mIncrPerSec := 0\<rparr>" "tw_Seconds st"]
  by (simp add: lone_minute_def timer_ok_def wheels_ok_def)

lemma lone_minute_wait:
  assumes "lone_minute n st" and "tw_Seconds st + 1 < 60"
  shows "\<exists>st'. tick st = Some (Inr st') \<and> lone_minute n st' \<and> tw_fired st' = tw_fired st \<and>
           tw_Seconds st' = tw_Seconds st + 1"
  using assms lone_minute_second [OF assms(1)]
  by (auto simp: tick_def checkSecondWheel_def Let_def lone_minute_def timer_ok_def)

lemma lone_minute_fire:
  assumes "lone_minute n st" and "tw_Seconds st + 1 = 60" and "mTask (mTimerTask n) = Some f"
  shows "\<exists>st'. tick st = Some (Inr st') \<and> idle st' \<and>
           tw_fired st' = tw_fired st @ [(mID (mTimerTask n), f)]"
proof -
  let ?i = "tw_Minutes st + 60" and ?st1 = "st\<lparr>mIncrPerSec := 0, tw_Seconds := 60\<rparr>"
  let ?st2 = "?st1\<lparr>mTimeWheel := replicate 144 [], tw_fired := tw_fired st @ [(mID (mTimerTask n), f)]\<rparr>"
  have w: "wheels_ok ?st1" "wheels_ok ?st2" and b: "tw_Minutes st < 60"
    using assms(1) by (simp_all add: lone_minute_def timer_ok_def wheels_ok_def)
  have "visit_minute ?i n ?st1 = Inr ?st2"
    using assms(1,3) b
    by (simp add: visit_minute_def lone_minute_def erase_head_def set_slot_def call_task_def
        list_update_same_conv)
  moreover have "wheel_at ?i ?st1 = Inr [n]"
    using assms(1) b by (simp add: wheel_at_def lone_minute_def)
  ultimately have m: "minute_loop ?i ?st1 = Some (Inr ?st2)"
    using loop_empty(2) [OF w(2), of ?i] b by (subst minute_loop.simps) simp
  have "tw_Hours st mod 24 + 120 < 144" by (simp add: less_diff_conv [symmetric])
  then have h: "hour_loop (tw_Hours st mod 24 + 120) 0 (?st2\<lparr>tw_Seconds := 0, tw_Minutes := 60\<rparr>) =
      Some (Inr (?st2\<lparr>tw_Seconds := 0, tw_Minutes := 60\<rparr>))"
    using w(2) by (intro loop_empty(3)) (simp_all add: wheels_ok_def)
  have ok: "timer_ok st" using assms(1) by (simp add: lone_minute_def)
  show ?thesis
    using lone_minute_second [OF assms(1)] m h assms(2) b ok
    by (cases "tw_Minutes st + 1 = 60")
      (auto simp: tick_def checkSecondWheel_def checkMinuteWheel_def checkHourWheel_def Let_def
        add.assoc idle_def timer_ok_def)
qed

lemma lone_minute_schedule:
  assumes "lone_minute n st" and "mTask (mTimerTask n) = Some f"
  shows "\<exists>st'. ticks k st = Some (Inr st') \<and>
           tw_fired st' = tw_fired st @
             (if k < 60 - tw_Seconds st then [] else [(mID (mTimerTask n), f)])"
  using assms(1)
proof (induction k arbitrary: st)
  case 0
  then show ?case by (simp add: lone_minute_def timer_ok_def)
next
  case (Suc k)
  have s: "tw_Seconds st < 60" using Suc.prems by (simp add: lone_minute_def timer_ok_def)
  show ?case
  proof (cases "tw_Seconds st + 1 < 60")
    case True
    with lone_minute_wait [OF Suc.prems] obtain st1 where "tick st = Some (Inr st1)"
        "lone_minute n st1" "tw_fired st1 = tw_fired st" "tw_Seconds st1 = tw_Seconds st + 1" by blast
    with Suc.IH [of st1] True show ?thesis by (auto simp: less_diff_conv)
  next
    case False
    with s lone_minute_fire [OF Suc.prems _ assms(2)] obtain st1 where "tick st = Some (Inr st1)"
        "idle st1" "tw_fired st1 = tw_fired st @ [(mID (mTimerTask n), f)]" by auto
    with idle_ticks [of st1 k] s False show ?thesis by auto
  qed
qed

section \<open>Properties\<close>

text \<open>C15. The timer never gets stuck and never leaves its wheels: from a new timer, whatever
  tasks are added, whenever they are registered and however the two threads interleave, every
  loop over a slot ends, no slot access is out of range, and the hands count the seconds.\<close>

theorem timer_never_stuck:
  assumes "length es < 2 ^ 64"
  shows "\<exists>st. timer_run es new_TimeWheelTimer = Some (Inr st) \<and> timer_ok st \<and>
           clock st = length (filter (\<lambda>e. e = Tick) es)"
  using timer_run_ok [OF new_timer_inv(1), of es] assms by (auto simp: new_timer_inv(2) timer_inv_def)

theorem timer_never_stuck_witness:
  "\<exists>st. timer_run [AddTask 0 0 2 3 ''a'' (Some True), RegisterTask, Tick, Tick, Tick] new_TimeWheelTimer
     = Some (Inr st) \<and> timer_ok st \<and> clock st = 3"
  using timer_never_stuck [of "[AddTask 0 0 2 3 ''a'' (Some True), RegisterTask, Tick, Tick, Tick]"]
  by (simp add: numeral_3_eq_3)

text \<open>C14. A task of \<open>s\<close> seconds (below a minute) on an otherwise idle timer runs one tick after
  its time, and then every \<open>s\<close> seconds: \<open>n\<close> times for an n-time task, for ever for a negative
  cycle number. After \<open>k\<close> ticks it has run \<open>(k - 1) div s\<close> times, at most \<open>n\<close>.\<close>

theorem seconds_task_schedule:
  assumes "idle st" and "sq_mData (mTaskEntry st) = []" and "mRegisteredTasks st ident = None"
    and "0 < s" and "s < 60" and "c \<noteq> 0"
  shows "\<exists>st1 st2. registerTask (addTask (new_TimerTask 0 0 s c ident (Some f)) st) = Inr st1 \<and>
           ticks k st1 = Some (Inr st2) \<and>
           tw_fired st2 = tw_fired st @ replicate (runs c ((k - 1) div s)) (ident, f)"
proof -
  let ?t = "new_TimerTask 0 0 s c ident (Some f)"
  let ?n = "new_TimerNode (task_offset (tw_Hours st) (tw_Minutes st) (tw_Seconds st) ?t)"
  let ?reg = "if c < 0 \<or> c > 1 then (mRegisteredTasks st)(ident \<mapsto> ?t) else mRegisteredTasks st"
  let ?st1 = "st\<lparr>mRegisteredTasks := ?reg,
    mTimeWheel := (replicate 144 [])[(s + tw_Seconds st) mod 60 := [?n]]\<rparr>"
  have ok: "timer_ok st" "tw_Seconds st < 60" "mTimeWheel st = replicate 144 []"
    using assms(1) by (simp_all add: idle_def timer_ok_def)
  have t: "tt_Hours ?t = 0" "tt_Minutes ?t = 0" "tt_Seconds ?t = s" "mTask ?t = Some f" "mID ?t = ident"
      "mCycleNumber ?t = c" "?t\<lparr>mCycleNumber := c\<rparr> = ?t"
    using assms(5) by (simp_all add: new_TimerTask_def)
  have sw: "wrap64 (s + tw_Seconds st) = s + tw_Seconds st"
    using assms(5) ok(2) by (intro wrap64_small) simp
  have j: "(s + tw_Seconds st) mod 60 < 144" by (rule less_trans [of _ 60]) simp_all
  have q: "mTaskEntry st = \<lparr>sq_mData = []\<rparr>" using assms(2) by (cases "mTaskEntry st") simp
  have r: "registerTask (addTask ?t st) = Inr ?st1"
    using assms(2,3,4,6) t ok(3) j q
    by (auto simp: registerTask_def addTask_def SafeQueue_push_def SafeQueue_waitAndPop_def Let_def
        addTimerNodeFor_def push_node_def wheel_at_def set_slot_def sw)
  have "mID (mTimerTask ?n) = ident" "mTask (mTimerTask ?n) = Some f" "mCycleNumber (mTimerTask ?n) = c"
    by (simp_all add: new_TimerNode_def task_offset_def Let_def new_TimerTask_def)
  moreover have "timer_ok ?st1"
    using ok(1) t(3) assms(5) by (auto simp: timer_ok_def ran_def)
  ultimately have "lone ?t f c s ?st1"
    using assms(6) t(7) by (auto simp: lone_def t(5))
  from lone_schedule [OF this assms(6,5) t(1,2) _ _ t(4), of k] assms(4,5)
  obtain st2 where "ticks k ?st1 = Some (Inr st2)"
      "tw_fired st2 = tw_fired st @ replicate (runs c (if k \<le> s then 0 else Suc ((k - Suc s) div s))) (ident, f)"
    by (auto simp: t(3,5))
  moreover have "(if k \<le> s then 0 else Suc ((k - Suc s) div s)) = (k - 1) div s"
    using assms(4) by (auto simp: le_div_geq)
  ultimately show ?thesis using r by auto
qed

theorem seconds_task_schedule_witness:
  "\<exists>st1 st2. registerTask (addTask (new_TimerTask 0 0 3 2 ''t'' (Some True)) new_TimeWheelTimer) = Inr st1 \<and>
     ticks 100 st1 = Some (Inr st2) \<and> tw_fired st2 = [(''t'', True), (''t'', True)]"
  using seconds_task_schedule [of new_TimeWheelTimer "''t''" 3 2 True 100]
  by (simp add: idle_def timer_ok_def new_TimeWheelTimer_def new_SafeQueue_def runs_def numeral_2_eq_2)

text \<open>A task of 60 seconds with cycle number -1 (all the time), registered while the second hand is
  at 0, runs once after 60 ticks and never again: the minute wheel calls a task without seconds and
  does not repeat it.\<close>

lemma minute_task_once:
  assumes "idle st" and "sq_mData (mTaskEntry st) = []" and "mRegisteredTasks st ident = None"
    and "tw_Seconds st = 0"
  shows "\<exists>st1 st2. registerTask (addTask (new_TimerTask 0 0 60 (-1) ident (Some f)) st) = Inr st1 \<and>
           ticks k st1 = Some (Inr st2) \<and>
           tw_fired st2 = tw_fired st @ (if k < 60 then [] else [(ident, f)])"
proof -
  let ?t = "new_TimerTask 0 0 60 (-1) ident (Some f)"
  let ?n = "new_TimerNode (task_offset (tw_Hours st) (tw_Minutes st) (tw_Seconds st) ?t)"
  let ?st1 = "st\<lparr>mRegisteredTasks := (mRegisteredTasks st)(ident \<mapsto> ?t),
    mTimeWheel := (replicate 144 [])[tw_Minutes st + 60 := [?n]]\<rparr>"
  have ok: "timer_ok st" "tw_Minutes st < 60" "mTimeWheel st = replicate 144 []"
    using assms(1) by (simp_all add: idle_def timer_ok_def)
  have t: "tt_Hours ?t = 0" "tt_Minutes ?t = 1" "tt_Seconds ?t = 0" "mID ?t = ident" "mCycleNumber ?t = -1"
    by (simp_all add: new_TimerTask_def)
  have mw: "wrap64 (1 + tw_Minutes st + (2 ^ 64 - 1)) = tw_Minutes st"
    using ok(2) by (simp add: wrap64_def)
  have q: "mTaskEntry st = \<lparr>sq_mData = []\<rparr>" using assms(2) by (cases "mTaskEntry st") simp
  have r: "registerTask (addTask ?t st) = Inr ?st1"
    using assms(2,3) t ok(2,3) q mw
    by (auto simp: registerTask_def addTask_def SafeQueue_push_def SafeQueue_waitAndPop_def Let_def
        addTimerNodeFor_def push_node_def wheel_at_def set_slot_def)
  have n: "mID (mTimerTask ?n) = ident" "mTask (mTimerTask ?n) = Some f" "\<not> mHasSeconds ?n"
    using assms(4) by (simp_all add: new_TimerNode_def task_offset_def Let_def new_TimerTask_def)
  have "timer_ok ?st1" using ok(1) t(3) by (auto simp: timer_ok_def ran_def)
  with n(3) have "lone_minute ?n ?st1" by (simp add: lone_minute_def)
  from lone_minute_schedule [OF this n(2), of k] n(1) r assms(4) show ?thesis by auto
qed

end
