(* ===== verification/IO_Buffer.thy ===== *)
theory IO_Buffer
  imports Safe_Queue
begin

text \<open>
  \<^verbatim>\<open>Base/net/IOBuffer.h\<close>: the buffer between a descriptor and the chunks waiting in a queue.
  \<^verbatim>\<open>read\<close> receives into the buffer (and an extra one on the stack), puts what came as one chunk
  into the queue and adapts the size; \<^verbatim>\<open>write\<close> puts what the kernel did not take back into the
  queue. The results of the system calls are arguments: \<open>None\<close> is a negative result, otherwise
  \<^verbatim>\<open>readv\<close> gives the bytes received (at most as many as fit) and \<^verbatim>\<open>write\<close> the number taken.
\<close>

definition IO_BUFFER_INITIAL_SIZE :: nat where "IO_BUFFER_INITIAL_SIZE = 1024"
definition IO_BUFFER_MAX_SIZE :: nat where "IO_BUFFER_MAX_SIZE = 1024 * 64"
definition IO_BUFFER_DECAY_LIMIT :: nat where "IO_BUFFER_DECAY_LIMIT = 5"

lemmas io_sizes [simp] = IO_BUFFER_INITIAL_SIZE_def IO_BUFFER_MAX_SIZE_def IO_BUFFER_DECAY_LIMIT_def

record io_buffer =
  ib_FD :: int
  ib_mData :: bytes
  mCurrSize :: nat
  mInitSize :: nat
  mMaxSize :: nat
  mDecayNum :: nat
  mDataQueue :: "bytes list"

definition new_IOBuffer :: "int \<Rightarrow> io_buffer" where
  "new_IOBuffer fd =
     \<lparr>ib_FD = fd, ib_mData = replicate IO_BUFFER_INITIAL_SIZE (CHR 0x00),
      mCurrSize = IO_BUFFER_INITIAL_SIZE, mInitSize = IO_BUFFER_INITIAL_SIZE,
      mMaxSize = IO_BUFFER_MAX_SIZE, mDecayNum = 0, mDataQueue = []\<rparr>"

definition IOBuffer_put :: "bytes \<Rightarrow> io_buffer \<Rightarrow> io_buffer" where
  "IOBuffer_put s b = b\<lparr>mDataQueue := mDataQueue b @ [s]\<rparr>"

definition IOBuffer_get :: "io_buffer \<Rightarrow> bytes option \<times> io_buffer" where
  "IOBuffer_get b =
     (case mDataQueue b of [] \<Rightarrow> (None, b) | x # xs \<Rightarrow> (Some x, b\<lparr>mDataQueue := xs\<rparr>))"

definition IOBuffer_empty :: "io_buffer \<Rightarrow> bool" where
  "IOBuffer_empty b = (mDataQueue b = [])"

interpretation ib: fifo IOBuffer_put IOBuffer_get mDataQueue
  by unfold_locales (auto simp: IOBuffer_put_def IOBuffer_get_def)

text \<open>The kernel stores bytes at the front of \<^verbatim>\<open>mData\<close>; past its end would be outside the string.\<close>

definition store_front :: "bytes \<Rightarrow> io_buffer \<Rightarrow> io_buffer result" where
  "store_front bs b =
     (if length bs \<le> length (ib_mData b)
      then Inr (b\<lparr>ib_mData := bs @ drop (length bs) (ib_mData b)\<rparr>) else Inl OutOfBounds)"

text \<open>\<^verbatim>\<open>put(mData.data(), n); mData.clear(); mData.resize(mCurrSize)\<close>.\<close>

definition deliver :: "nat \<Rightarrow> io_buffer \<Rightarrow> io_buffer result" where
  "deliver n b =
     (if n > length (ib_mData b) then Inl OutOfBounds
      else Inr ((IOBuffer_put (take n (ib_mData b)) b)\<lparr>ib_mData := replicate (mCurrSize b) (CHR 0x00)\<rparr>))"

definition resize_after :: "nat \<Rightarrow> bytes \<Rightarrow> io_buffer \<Rightarrow> io_buffer result" where
  "resize_after n extra b =
     (if mCurrSize b = 0 then Inl DivideByZero
      else
        let multiple = n div mCurrSize b in
        if multiple < 1 then
          (let decay = (mDecayNum b + 1) mod 2 ^ 16 in
           Inr (b\<lparr>mDecayNum := decay,
                  mCurrSize := (if decay \<ge> IO_BUFFER_DECAY_LIMIT then mInitSize b else mCurrSize b)\<rparr>))
        else
          Inr (b\<lparr>ib_mData := ib_mData b @ extra, mDecayNum := 0,
                 mCurrSize := (if (multiple + 1) * mInitSize b < mMaxSize b
                               then (multiple + 1) * mInitSize b else mMaxSize b)\<rparr>))"

definition IOBuffer_read :: "bytes option \<Rightarrow> io_buffer \<Rightarrow> (int \<times> io_buffer) result" where
  "IOBuffer_read received b =
     (case received of
        None \<Rightarrow> Inr (-1, b)
      | Some bs \<Rightarrow>
          rbind (store_front (take (mCurrSize b) bs) b) (\<lambda>b'.
          rbind (if mCurrSize b < mMaxSize b then resize_after (length bs) (drop (mCurrSize b) bs) b' else Inr b') (\<lambda>b'.
          rbind (if length bs > 0 then deliver (length bs) b' else Inr b') (\<lambda>b'.
            Inr (int (length bs), b')))))"

text \<open>The most bytes \<^verbatim>\<open>readv\<close>, or \<^verbatim>\<open>read\<close> once the size is at its maximum, can return.\<close>

definition read_capacity :: "io_buffer \<Rightarrow> nat" where
  "read_capacity b = (if mCurrSize b < mMaxSize b then mMaxSize b else mCurrSize b)"

text \<open>The result and the bytes the kernel took; \<^verbatim>\<open>len - n\<close> is never negative as the kernel takes
  at most \<^verbatim>\<open>len\<close>.\<close>

definition IOBuffer_write :: "nat option \<Rightarrow> bytes \<Rightarrow> io_buffer \<Rightarrow> int \<times> io_buffer" where
  "IOBuffer_write taken buf b =
     (case taken of
        None \<Rightarrow> (-1, b)
      | Some n \<Rightarrow>
          (int n, if length buf - n > 0 then IOBuffer_put (drop n buf) b else b))"

section \<open>Reading delivers what was received\<close>

definition buffer_ok :: "io_buffer \<Rightarrow> bool" where
  "buffer_ok b =
     (length (ib_mData b) = mCurrSize b \<and> 0 < mInitSize b \<and> mInitSize b \<le> mCurrSize b \<and>
      mCurrSize b \<le> mMaxSize b)"

lemma new_IOBuffer_ok: "buffer_ok (new_IOBuffer fd)"
  by (simp add: buffer_ok_def new_IOBuffer_def)

lemma IOBuffer_put_ok [simp]: "buffer_ok (IOBuffer_put s b) = buffer_ok b"
  by (simp add: buffer_ok_def IOBuffer_put_def)

lemma IOBuffer_read_ok:
  assumes "buffer_ok b" and "bs \<noteq> []" and "length bs \<le> read_capacity b"
  shows "\<exists>b'. IOBuffer_read (Some bs) b = Inr (int (length bs), b') \<and> buffer_ok b' \<and>
           mDataQueue b' = mDataQueue b @ [bs] \<and> mInitSize b' = mInitSize b \<and> mMaxSize b' = mMaxSize b"
proof -
  let ?c = "mCurrSize b" and ?i = "mInitSize b" and ?m = "mMaxSize b" and ?n = "length bs"
  have ok: "length (ib_mData b) = ?c" "0 < ?i" "?i \<le> ?c" "?c \<le> ?m"
    using assms(1) by (simp_all add: buffer_ok_def)
  let ?d = "take ?c bs @ drop (min ?n ?c) (ib_mData b)"
  have s: "store_front (take ?c bs) b = Inr (b\<lparr>ib_mData := ?d\<rparr>)"
    using ok(1) by (simp add: store_front_def min.commute)
  show ?thesis
  proof (cases "?c < ?m \<and> ?n \<ge> ?c")
    case True
    then have "1 \<le> ?n div ?c" using ok by (simp add: div_greater_zero_iff Suc_le_eq)
    moreover have "?i \<le> (?n div ?c + 1) * ?i" by simp
    moreover have "take ?n (?d @ drop ?c bs) = bs" using True ok(1) by (simp add: min_def)
    ultimately show ?thesis
      using True s ok assms(2)
      by (auto simp: IOBuffer_read_def resize_after_def Let_def deliver_def IOBuffer_put_def buffer_ok_def
          min_def)
  next
    case False
    then have le: "?n \<le> ?c" using assms(3) by (auto simp: read_capacity_def split: if_splits)
    then have "take ?n ?d = bs" "length ?d = ?c" using ok(1) by (simp_all add: min_def)
    moreover have "?n div ?c < 1" if "?n < ?c" using that by simp
    ultimately show ?thesis
      using False s ok assms(2) le
      by (auto simp: IOBuffer_read_def resize_after_def Let_def deliver_def IOBuffer_put_def buffer_ok_def)
  qed
qed

section \<open>Properties\<close>

text \<open>One call of \<^verbatim>\<open>read\<close> after the other: what \<^verbatim>\<open>readv\<close> gives each time, not empty.\<close>

fun read_all :: "bytes list \<Rightarrow> io_buffer \<Rightarrow> io_buffer result" where
  "read_all [] b = Inr b"
| "read_all (bs # rest) b = rbind (IOBuffer_read (Some bs) b) (\<lambda>(n, b). read_all rest b)"

lemma read_capacity_ok: "buffer_ok b \<Longrightarrow> read_capacity b = mMaxSize b"
  by (auto simp: read_capacity_def buffer_ok_def)

text \<open>C29. A buffer delivers exactly what it receives: as long as the system call returns between
  1 and 64 KB at a time, no read leaves the buffer or the stack array, the chunks in the queue
  are the received ones in their order, whatever growing and shrinking happens in between, and
  the size stays between 1 KB and 64 KB.\<close>

theorem buffer_delivers_received:
  assumes "\<forall>bs \<in> set chunks. bs \<noteq> [] \<and> length bs \<le> IO_BUFFER_MAX_SIZE"
  shows "\<exists>b. read_all chunks (new_IOBuffer fd) = Inr b \<and> mDataQueue b = chunks \<and>
           1024 \<le> mCurrSize b \<and> mCurrSize b \<le> 65536"
proof -
  have "\<exists>b'. read_all chunks b = Inr b' \<and> mDataQueue b' = mDataQueue b @ chunks \<and> buffer_ok b' \<and>
          mInitSize b' = mInitSize b \<and> mMaxSize b' = mMaxSize b"
    if "buffer_ok b" "\<forall>bs \<in> set chunks. bs \<noteq> [] \<and> length bs \<le> mMaxSize b" for b
    using that
  proof (induction chunks arbitrary: b)
    case Nil
    then show ?case by simp
  next
    case (Cons bs chunks)
    then have "bs \<noteq> []" "length bs \<le> read_capacity b" by (simp_all add: read_capacity_ok)
    from IOBuffer_read_ok [OF Cons.prems(1) this] obtain b1 where
        "IOBuffer_read (Some bs) b = Inr (int (length bs), b1)" "buffer_ok b1"
        "mDataQueue b1 = mDataQueue b @ [bs]" "mInitSize b1 = mInitSize b" "mMaxSize b1 = mMaxSize b"
      by blast
    with Cons.IH [of b1] Cons.prems(2) show ?case by simp
  qed
  from this [OF new_IOBuffer_ok] assms show ?thesis
    by (fastforce simp: new_IOBuffer_def buffer_ok_def)
qed

theorem buffer_delivers_received_witness:
  "\<exists>b. read_all [''abc'', replicate 3000 CHR ''x'', ''z''] (new_IOBuffer 5) = Inr b \<and>
       mDataQueue b = [''abc'', replicate 3000 CHR ''x'', ''z''] \<and>
       1024 \<le> mCurrSize b \<and> mCurrSize b \<le> 65536"
  by (rule buffer_delivers_received) simp

end
