(* ===== verification/Pollers.thy ===== *)
theory Pollers
  imports Prelude
begin

unbundle bit_operations_syntax

text \<open>
  \<^verbatim>\<open>Base/net/EventHandler.h\<close>, \<^verbatim>\<open>Poller.h\<close>, \<^verbatim>\<open>PollPoller.h\<close> and \<^verbatim>\<open>EpollPoller.h\<close>: which
  callbacks a ready descriptor triggers, and the tables that tie descriptors, handlers and the
  kernel's interest list together. Handlers are shared objects (\<^verbatim>\<open>std::shared_ptr\<close>), so they
  live in a store and are named by their address; the hash maps a descriptor to an address.

  The results of \<^verbatim>\<open>poll\<close>, \<^verbatim>\<open>epoll_wait\<close>, \<^verbatim>\<open>epoll_ctl\<close> and the clock are arguments of the
  operations. The rate statistics (\<^verbatim>\<open>mRate\<close>, a floating point value) are kept as the pair of
  counters they are computed from.
\<close>

section \<open>EventHandler\<close>

type_synonym u32 = "32 word"

definition POLLIN :: u32 where "POLLIN = 0x001"
definition POLLPRI :: u32 where "POLLPRI = 0x002"
definition POLLOUT :: u32 where "POLLOUT = 0x004"
definition POLLERR :: u32 where "POLLERR = 0x008"
definition POLLHUP :: u32 where "POLLHUP = 0x010"
definition POLLNVAL :: u32 where "POLLNVAL = 0x020"
definition POLLRDHUP :: u32 where "POLLRDHUP = 0x2000"
definition EPOLLET :: u32 where "EPOLLET = 0x80000000"

definition NONE_EVENT :: u32 where "NONE_EVENT = 0"
definition READ_EVENT :: u32 where "READ_EVENT = POLLIN OR POLLPRI"
definition WRITE_EVENT :: u32 where "WRITE_EVENT = POLLOUT"

lemmas event_masks = POLLIN_def POLLPRI_def POLLOUT_def POLLERR_def POLLHUP_def POLLNVAL_def
  POLLRDHUP_def EPOLLET_def NONE_EVENT_def READ_EVENT_def WRITE_EVENT_def

text \<open>A callback is present or not; what it does belongs to its owner.\<close>

datatype callback = CloseFunc | ErrorFunc | ReadFunc | WriteFunc

record event_handler =
  eh_FD :: int
  mEvents :: u32
  mRevents :: u32
  mIndex :: int
  mFuncs :: "callback set"

definition new_EventHandler :: "int \<Rightarrow> u32 \<Rightarrow> event_handler" where
  "new_EventHandler fd garbage =
     \<lparr>eh_FD = fd, mEvents = NONE_EVENT, mRevents = garbage, mIndex = -1, mFuncs = {}\<rparr>"

text \<open>The callbacks \<^verbatim>\<open>doEvnet\<close> calls, in order.\<close>

definition call_if :: "bool \<Rightarrow> callback \<Rightarrow> event_handler \<Rightarrow> callback list" where
  "call_if b f h = (if b \<and> f \<in> mFuncs h then [f] else [])"

definition doEvnet :: "event_handler \<Rightarrow> callback list" where
  "doEvnet h =
     call_if (mRevents h AND POLLHUP \<noteq> 0 \<and> \<not> (mRevents h AND POLLIN \<noteq> 0)) CloseFunc h @
     call_if (mRevents h AND (POLLNVAL OR POLLERR) \<noteq> 0) ErrorFunc h @
     call_if (mRevents h AND (POLLIN OR POLLPRI OR POLLRDHUP) \<noteq> 0) ReadFunc h @
     call_if (mRevents h AND POLLOUT \<noteq> 0) WriteFunc h"

definition setFunc :: "callback \<Rightarrow> event_handler \<Rightarrow> event_handler" where
  "setFunc f h = h\<lparr>mFuncs := insert f (mFuncs h)\<rparr>"

definition enableReading :: "event_handler \<Rightarrow> event_handler" where
  "enableReading h = h\<lparr>mEvents := mEvents h OR READ_EVENT\<rparr>"
definition disableReading :: "event_handler \<Rightarrow> event_handler" where
  "disableReading h = h\<lparr>mEvents := mEvents h AND NOT READ_EVENT\<rparr>"
definition enableWriting :: "event_handler \<Rightarrow> event_handler" where
  "enableWriting h = h\<lparr>mEvents := mEvents h OR WRITE_EVENT\<rparr>"
definition disableWriting :: "event_handler \<Rightarrow> event_handler" where
  "disableWriting h = h\<lparr>mEvents := mEvents h AND NOT WRITE_EVENT\<rparr>"
definition disableAll :: "event_handler \<Rightarrow> event_handler" where
  "disableAll h = h\<lparr>mEvents := NONE_EVENT\<rparr>"
definition isReadable :: "event_handler \<Rightarrow> bool" where
  "isReadable h = (mEvents h AND READ_EVENT \<noteq> 0)"
definition isWriteable :: "event_handler \<Rightarrow> bool" where
  "isWriteable h = (mEvents h AND WRITE_EVENT \<noteq> 0)"
definition isNoneEvent :: "event_handler \<Rightarrow> bool" where
  "isNoneEvent h = (mEvents h = NONE_EVENT)"

lemma interest_simps [simp, step_simps]:
  "isWriteable (enableWriting h)" "\<not> isWriteable (disableWriting h)"
  "isReadable (enableWriting h) = isReadable h" "isReadable (disableWriting h) = isReadable h"
  "isReadable (enableReading h)" "\<not> isReadable (disableReading h)"
  "isWriteable (enableReading h) = isWriteable h" "isWriteable (disableReading h) = isWriteable h"
  by (simp_all add: isWriteable_def isReadable_def enableReading_def disableReading_def
      enableWriting_def disableWriting_def event_masks bit.conj_disj_distrib2 and.assoc)

section \<open>The handler store and the base class\<close>

type_synonym addr = nat
type_synonym store = "addr \<rightharpoonup> event_handler"

record poller =
  mSettlement :: nat
  mAccumulatedMillisec :: nat
  mTouchedEventNum :: nat
  mRate :: "(nat \<times> nat) option"
  mDetectionIntervalInMilliseconds :: int
  mTimeoutInMilliseconds :: int
  mRestThresholdInseconds :: int
  mEventHandlerHash :: "int \<rightharpoonup> addr"

text \<open>\<^verbatim>\<open>emplace\<close> keeps an existing entry.\<close>

definition registerEventHandler :: "addr \<Rightarrow> event_handler \<Rightarrow> 'a poller_scheme \<Rightarrow> 'a poller_scheme" where
  "registerEventHandler a h p =
     (case mEventHandlerHash p (eh_FD h) of
        None \<Rightarrow> p\<lparr>mEventHandlerHash := (mEventHandlerHash p)(eh_FD h \<mapsto> a)\<rparr>
      | Some _ \<Rightarrow> p)"

definition eventSize :: "'a poller_scheme \<Rightarrow> nat" where
  "eventSize p = card (dom (mEventHandlerHash p))"

definition setSettlementPoint :: "nat \<Rightarrow> 'a poller_scheme \<Rightarrow> 'a poller_scheme" where
  "setSettlementPoint s p = p\<lparr>mSettlement := (if s < 100 then 100 else s)\<rparr>"

definition setTimeoutParam :: "int \<Rightarrow> int \<Rightarrow> int \<Rightarrow> 'a poller_scheme \<Rightarrow> 'a poller_scheme" where
  "setTimeoutParam interval timeout reset p =
     p\<lparr>mDetectionIntervalInMilliseconds := interval * 1000, mTimeoutInMilliseconds := timeout * 1000,
       mRestThresholdInseconds := reset\<rparr>"

text \<open>The tail of both \<^verbatim>\<open>poll\<close> functions.\<close>

definition settle :: "nat \<Rightarrow> 'a poller_scheme \<Rightarrow> 'a poller_scheme" where
  "settle dur p =
     (let acc = wrap64 (mAccumulatedMillisec p + dur) in
      if mTouchedEventNum p \<ge> mSettlement p
      then p\<lparr>mRate := Some (acc, mTouchedEventNum p), mTouchedEventNum := 0, mAccumulatedMillisec := 0\<rparr>
      else p\<lparr>mAccumulatedMillisec := acc\<rparr>)"

definition handler :: "addr \<Rightarrow> store \<Rightarrow> event_handler result" where
  "handler a hs = (case hs a of None \<Rightarrow> Inl NullDereference | Some h \<Rightarrow> Inr h)"

text \<open>A ready descriptor: its handler, if it has one, gets the events and joins the list.\<close>

definition touch :: "int \<Rightarrow> u32 \<Rightarrow> (int \<rightharpoonup> addr) \<Rightarrow> addr list \<times> store \<Rightarrow> addr list \<times> store" where
  "touch fd revents hash s =
     (case hash fd of
        None \<Rightarrow> s
      | Some a \<Rightarrow> (fst s @ [a], (snd s)(a := map_option (\<lambda>h. h\<lparr>mRevents := revents\<rparr>) (snd s a))))"

section \<open>PollPoller\<close>

record pollfd =
  pf_fd :: int
  pf_events :: "16 word"
  pf_revents :: "16 word"

record poll_poller = poller +
  mPollfds :: "pollfd list"

text \<open>\<^verbatim>\<open>::poll\<close> returned \<open>readyNum\<close>; the list holds the entries with the \<^verbatim>\<open>revents\<close> it stored.
  The loop counts \<open>readyNum\<close> down on every entry it visits.\<close>

fun poll_loop ::
  "pollfd list \<Rightarrow> int \<Rightarrow> (int \<rightharpoonup> addr) \<Rightarrow> addr list \<times> store \<Rightarrow> int \<times> addr list \<times> store"
where
  "poll_loop [] readyNum hash s = (readyNum, s)"
| "poll_loop (pfd # pfds) readyNum hash s =
     (if readyNum > 0
      then poll_loop pfds (readyNum - 1) hash (touch (pf_fd pfd) (scast (pf_revents pfd)) hash s)
      else (readyNum, s))"

definition PollPoller_poll ::
  "int \<Rightarrow> pollfd list \<Rightarrow> nat \<Rightarrow> 'a poll_poller_scheme \<Rightarrow> store \<Rightarrow> addr list \<times> store \<times> 'a poll_poller_scheme"
where
  "PollPoller_poll readyNum pfds dur p hs =
     (let p = p\<lparr>mPollfds := pfds\<rparr> in
      if readyNum > 0 then
        (case poll_loop pfds readyNum (mEventHandlerHash p) ([], hs) of (left, evs, hs') \<Rightarrow>
           (evs, hs', settle dur (p\<lparr>mTouchedEventNum := wrap64 (mTouchedEventNum p + nat left)\<rparr>)))
      else ([], hs, settle dur p))"

definition PollPoller_update ::
  "addr \<Rightarrow> 'a poll_poller_scheme \<Rightarrow> store \<Rightarrow> ('a poll_poller_scheme \<times> store) result"
where
  "PollPoller_update a p hs =
     rbind (handler a hs) (\<lambda>h.
     case mEventHandlerHash p (eh_FD h) of
       None \<Rightarrow> Inr (p, hs)
     | Some _ \<Rightarrow>
         if mIndex h < 0 then
           (let pfd = \<lparr>pf_fd = eh_FD h, pf_events = ucast (mEvents h), pf_revents = 0\<rparr>;
                pfds = mPollfds p @ [pfd] in
            Inr (p\<lparr>mPollfds := pfds, mEventHandlerHash := (mEventHandlerHash p)(eh_FD h \<mapsto> a)\<rparr>,
                 hs(a \<mapsto> h\<lparr>mIndex := int (length pfds) - 1\<rparr>)))
         else if nat (mIndex h) < length (mPollfds p) then
           (let fd = (if isNoneEvent h then - eh_FD h - 1 else eh_FD h) in
            Inr (p\<lparr>mPollfds := (mPollfds p)[nat (mIndex h) :=
                    \<lparr>pf_fd = fd, pf_events = ucast (mEvents h), pf_revents = 0\<rparr>]\<rparr>, hs))
         else Inl OutOfRange)"

definition pollfd_fd :: "int \<Rightarrow> int" where
  "pollfd_fd fd = (if fd < 0 then - fd - 1 else fd)"

text \<open>\<^verbatim>\<open>mEventHandlerHash[lastFD]\<close> makes a null pointer when the descriptor has no entry.\<close>

definition PollPoller_remove ::
  "addr \<Rightarrow> 'a poll_poller_scheme \<Rightarrow> store \<Rightarrow> ('a poll_poller_scheme \<times> store) result"
where
  "PollPoller_remove a p hs =
     rbind (handler a hs) (\<lambda>h.
     case mEventHandlerHash p (eh_FD h) of
       None \<Rightarrow> Inr (p, hs)
     | Some _ \<Rightarrow>
         let index = mIndex h in
         if index < 0 \<or> nat index \<ge> length (mPollfds p) then Inr (p, hs)
         else
           let hash = (mEventHandlerHash p)(eh_FD h := None) in
           if nat index = length (mPollfds p) - 1 then
             Inr (p\<lparr>mEventHandlerHash := hash, mPollfds := butlast (mPollfds p)\<rparr>, hs)
           else
             let lastFD = pollfd_fd (pf_fd (last (mPollfds p))) in
             case hash lastFD of
               None \<Rightarrow> Inl NullDereference
             | Some b \<Rightarrow>
                 rbind (handler b hs) (\<lambda>hb.
                   Inr (p\<lparr>mEventHandlerHash := hash,
                          mPollfds := butlast ((mPollfds p)[nat index := last (mPollfds p)])\<rparr>,
                        hs(b \<mapsto> hb\<lparr>mIndex := index\<rparr>))))"

section \<open>EpollPoller\<close>

text \<open>\<open>kernel\<close> is the interest list of the epoll descriptor; the boolean of each operation is
  whether \<^verbatim>\<open>epoll_ctl\<close> succeeded. Of the vector \<^verbatim>\<open>mEpollEvents\<close> only the size matters between
  calls.\<close>

record epoll_poller = poller +
  mEpollEvents_size :: nat
  kernel :: "int \<rightharpoonup> u32"

fun epoll_loop :: "(int \<times> u32) list \<Rightarrow> (int \<rightharpoonup> addr) \<Rightarrow> addr list \<times> store \<Rightarrow> addr list \<times> store" where
  "epoll_loop [] hash s = s"
| "epoll_loop ((fd, events) # evs) hash s = epoll_loop evs hash (touch fd events hash s)"

text \<open>\<open>None\<close>: \<^verbatim>\<open>epoll_wait\<close> failed; otherwise the events it returned, none after a timeout.\<close>

definition EpollPoller_poll ::
  "(int \<times> u32) list option \<Rightarrow> nat \<Rightarrow> 'a epoll_poller_scheme \<Rightarrow> store \<Rightarrow>
   addr list \<times> store \<times> 'a epoll_poller_scheme"
where
  "EpollPoller_poll ready dur p hs =
     (case ready of
        Some (e # es) \<Rightarrow>
          (let evs = e # es; n = length evs; (touched, hs') = epoll_loop evs (mEventHandlerHash p) ([], hs) in
           (touched, hs',
            settle dur (p\<lparr>mEpollEvents_size := (if n = mEpollEvents_size p then n * 2 + 1 else mEpollEvents_size p),
                          mTouchedEventNum := wrap64 (mTouchedEventNum p + n)\<rparr>)))
      | _ \<Rightarrow> ([], hs, settle dur p))"

definition EpollPoller_edgeTrigger :: "addr \<Rightarrow> bool \<Rightarrow> 'a epoll_poller_scheme \<Rightarrow> store \<Rightarrow> store result" where
  "EpollPoller_edgeTrigger a on p hs =
     rbind (handler a hs) (\<lambda>h.
     case mEventHandlerHash p (eh_FD h) of
       None \<Rightarrow> Inr hs
     | Some _ \<Rightarrow>
         Inr (hs(a \<mapsto> h\<lparr>mEvents := (if on then mEvents h OR EPOLLET else mEvents h AND NOT EPOLLET)\<rparr>)))"

definition EpollPoller_update ::
  "addr \<Rightarrow> bool \<Rightarrow> 'a epoll_poller_scheme \<Rightarrow> store \<Rightarrow> ('a epoll_poller_scheme \<times> store) result"
where
  "EpollPoller_update a ctl_ok p hs =
     rbind (handler a hs) (\<lambda>h.
     let fd = eh_FD h in
     case mEventHandlerHash p fd of
       None \<Rightarrow> Inr (p, hs)
     | Some b \<Rightarrow>
         if \<not> ctl_ok then Inr (p, hs)
         else if mIndex h < 0 then
           Inr (p\<lparr>kernel := (kernel p)(fd \<mapsto> mEvents h), mEventHandlerHash := (mEventHandlerHash p)(fd \<mapsto> a)\<rparr>,
                hs(a \<mapsto> h\<lparr>mIndex := 1\<rparr>))
         else if isNoneEvent h then
           rbind (handler b hs) (\<lambda>hb. Inr (p\<lparr>kernel := (kernel p)(fd := None)\<rparr>, hs(b \<mapsto> hb\<lparr>mIndex := -1\<rparr>)))
         else
           Inr (p\<lparr>kernel := (kernel p)(fd \<mapsto> mEvents h), mEventHandlerHash := (mEventHandlerHash p)(fd \<mapsto> a)\<rparr>, hs))"

definition EpollPoller_remove ::
  "addr \<Rightarrow> bool \<Rightarrow> 'a epoll_poller_scheme \<Rightarrow> store \<Rightarrow> ('a epoll_poller_scheme \<times> store) result"
where
  "EpollPoller_remove a ctl_ok p hs =
     rbind (handler a hs) (\<lambda>h.
     let fd = eh_FD h in
     case mEventHandlerHash p fd of
       None \<Rightarrow> Inr (p, hs)
     | Some _ \<Rightarrow>
         if \<not> ctl_ok then Inr (p, hs)
         else Inr (p\<lparr>kernel := (kernel p)(fd := None), mEventHandlerHash := (mEventHandlerHash p)(fd := None)\<rparr>,
                   hs(a \<mapsto> h\<lparr>mIndex := -1\<rparr>)))"

section \<open>The contract of a poller\<close>

text \<open>
  What an \<^verbatim>\<open>EventLoop\<close> relies on: a handler that is registered under its own descriptor can be
  updated and removed without failing, and the tables stay consistent. \<open>good\<close> is the
  consistency, \<open>owns\<close> says that the handler at an address is the one registered for its
  descriptor.
\<close>

definition owns :: "addr \<Rightarrow> 'a poller_scheme \<Rightarrow> store \<Rightarrow> bool" where
  "owns a p hs = (\<exists>h. hs a = Some h \<and> mEventHandlerHash p (eh_FD h) = Some a)"

datatype poller_op = Update addr bool | Remove addr bool

fun run_poller ::
  "(addr \<Rightarrow> bool \<Rightarrow> 'p \<Rightarrow> store \<Rightarrow> ('p \<times> store) result) \<Rightarrow> (addr \<Rightarrow> bool \<Rightarrow> 'p \<Rightarrow> store \<Rightarrow> ('p \<times> store) result) \<Rightarrow>
   poller_op list \<Rightarrow> 'p \<Rightarrow> store \<Rightarrow> ('p \<times> store) result"
where
  "run_poller upd rem [] p hs = Inr (p, hs)"
| "run_poller upd rem (Update a ok # ops) p hs = rbind (upd a ok p hs) (\<lambda>(p, hs). run_poller upd rem ops p hs)"
| "run_poller upd rem (Remove a ok # ops) p hs = rbind (rem a ok p hs) (\<lambda>(p, hs). run_poller upd rem ops p hs)"

fun op_addr :: "poller_op \<Rightarrow> addr" where
  "op_addr (Update a _) = a" | "op_addr (Remove a _) = a"

locale poller_table =
  fixes good :: "'p \<Rightarrow> store \<Rightarrow> bool"
    and registered :: "'p \<Rightarrow> int \<rightharpoonup> addr"
    and upd :: "addr \<Rightarrow> bool \<Rightarrow> 'p \<Rightarrow> store \<Rightarrow> ('p \<times> store) result"
    and rem :: "addr \<Rightarrow> bool \<Rightarrow> 'p \<Rightarrow> store \<Rightarrow> ('p \<times> store) result"
  assumes upd_good: "good p hs \<Longrightarrow> hs a = Some h \<Longrightarrow> registered p (eh_FD h) \<in> {None, Some a} \<Longrightarrow>
      \<exists>p' hs'. upd a ok p hs = Inr (p', hs') \<and> good p' hs' \<and> registered p' = registered p \<and>
        (\<forall>b. map_option eh_FD (hs' b) = map_option eh_FD (hs b))"
    and rem_good: "good p hs \<Longrightarrow> hs a = Some h \<Longrightarrow> registered p (eh_FD h) \<in> {None, Some a} \<Longrightarrow>
      \<exists>p' hs'. rem a ok p hs = Inr (p', hs') \<and> good p' hs' \<and>
        (registered p' = registered p \<or> registered p' = (registered p)(eh_FD h := None)) \<and>
        (\<forall>b. map_option eh_FD (hs' b) = map_option eh_FD (hs b))"
begin

definition proper :: "addr \<Rightarrow> 'p \<Rightarrow> store \<Rightarrow> bool" where
  "proper a p hs = (\<exists>h. hs a = Some h \<and> registered p (eh_FD h) \<in> {None, Some a})"

lemma proper_keep:
  assumes "proper b p hs" and "\<forall>b. map_option eh_FD (hs' b) = map_option eh_FD (hs b)"
    and "registered p' = registered p \<or> registered p' = (registered p)(fd := None)"
  shows "proper b p' hs'"
  using assms unfolding proper_def
  by (cases "hs' b"; force dest: spec [of _ b] split: if_splits)

lemma run_good:
  "good p hs \<Longrightarrow> \<forall>op \<in> set ops. proper (op_addr op) p hs \<Longrightarrow>
   \<exists>p' hs'. run_poller upd rem ops p hs = Inr (p', hs') \<and> good p' hs'"
proof (induction ops arbitrary: p hs)
  case Nil
  then show ?case by simp
next
  case (Cons op ops)
  show ?case
  proof (cases op)
    case (Update a ok)
    with Cons.prems obtain h where h: "hs a = Some h" "registered p (eh_FD h) \<in> {None, Some a}"
      by (auto simp: proper_def)
    from upd_good [OF Cons.prems(1) h, of ok] obtain p' hs' where u: "upd a ok p hs = Inr (p', hs')"
        "good p' hs'" "registered p' = registered p"
        "\<forall>b. map_option eh_FD (hs' b) = map_option eh_FD (hs b)" by blast
    have "\<forall>op \<in> set ops. proper (op_addr op) p' hs'"
      using Cons.prems(2) by (auto intro: proper_keep [OF _ u(4) disjI1 [OF u(3)]])
    with Cons.IH [OF u(2)] u(1) Update show ?thesis by simp
  next
    case (Remove a ok)
    with Cons.prems obtain h where h: "hs a = Some h" "registered p (eh_FD h) \<in> {None, Some a}"
      by (auto simp: proper_def)
    from rem_good [OF Cons.prems(1) h, of ok] obtain p' hs' where u: "rem a ok p hs = Inr (p', hs')"
        "good p' hs'" "registered p' = registered p \<or> registered p' = (registered p)(eh_FD h := None)"
        "\<forall>b. map_option eh_FD (hs' b) = map_option eh_FD (hs b)" by blast
    have "\<forall>op \<in> set ops. proper (op_addr op) p' hs'"
      using Cons.prems(2) by (auto intro: proper_keep [OF _ u(4,3)])
    with Cons.IH [OF u(2)] u(1) Remove show ?thesis by simp
  qed
qed

end

section \<open>PollPoller keeps its tables consistent\<close>

text \<open>Every registered handler with an index stands at that index of the array, and every entry
  of the array belongs to a registered handler that knows its position.\<close>

definition poll_good :: "'a poll_poller_scheme \<Rightarrow> store \<Rightarrow> bool" where
  "poll_good p hs =
     ((\<forall>fd a. mEventHandlerHash p fd = Some a \<longrightarrow> 0 \<le> fd \<and>
         (\<exists>h. hs a = Some h \<and> eh_FD h = fd \<and>
           (0 \<le> mIndex h \<longrightarrow> nat (mIndex h) < length (mPollfds p) \<and>
              pollfd_fd (pf_fd (mPollfds p ! nat (mIndex h))) = fd))) \<and>
      (\<forall>i < length (mPollfds p). \<exists>a h.
         mEventHandlerHash p (pollfd_fd (pf_fd (mPollfds p ! i))) = Some a \<and> hs a = Some h \<and>
         mIndex h = int i))"

lemma poll_good_entry:
  assumes "poll_good p hs" and "i < length (mPollfds p)"
  obtains a h where "mEventHandlerHash p (pollfd_fd (pf_fd (mPollfds p ! i))) = Some a"
    "hs a = Some h" "mIndex h = int i" "eh_FD h = pollfd_fd (pf_fd (mPollfds p ! i))"
  using assms by (fastforce simp: poll_good_def)

lemma poll_good_handler:
  assumes "poll_good p hs" and "mEventHandlerHash p fd = Some a"
  obtains h where "hs a = Some h" "eh_FD h = fd" "0 \<le> fd"
    "0 \<le> mIndex h \<Longrightarrow> nat (mIndex h) < length (mPollfds p) \<and>
       pollfd_fd (pf_fd (mPollfds p ! nat (mIndex h))) = fd"
  using assms by (fastforce simp: poll_good_def)

lemma poll_goodD:
  assumes "poll_good p hs" and "hs a = Some h" and "mEventHandlerHash p (eh_FD h) = Some a"
  shows "0 \<le> eh_FD h"
    and "0 \<le> mIndex h \<Longrightarrow> nat (mIndex h) < length (mPollfds p)"
    and "0 \<le> mIndex h \<Longrightarrow> pollfd_fd (pf_fd (mPollfds p ! nat (mIndex h))) = eh_FD h"
proof -
  obtain h' where "hs a = Some h'" "0 \<le> eh_FD h" "0 \<le> mIndex h' \<Longrightarrow> nat (mIndex h') < length (mPollfds p) \<and>
      pollfd_fd (pf_fd (mPollfds p ! nat (mIndex h'))) = eh_FD h"
    using poll_good_handler [OF assms(1,3)] by blast
  with assms(2) show "0 \<le> eh_FD h"
    and "0 \<le> mIndex h \<Longrightarrow> nat (mIndex h) < length (mPollfds p)"
    and "0 \<le> mIndex h \<Longrightarrow> pollfd_fd (pf_fd (mPollfds p ! nat (mIndex h))) = eh_FD h"
    by simp_all
qed

lemma pollfd_fd_simps [simp]: "0 \<le> fd \<Longrightarrow> pollfd_fd fd = fd" "0 \<le> fd \<Longrightarrow> pollfd_fd (- fd - 1) = fd"
  by (simp_all add: pollfd_fd_def)

lemma PollPoller_update_good:
  assumes g: "poll_good p hs" and h: "hs a = Some h" and r: "mEventHandlerHash p (eh_FD h) \<in> {None, Some a}"
  shows "\<exists>p' hs'. PollPoller_update a p hs = Inr (p', hs') \<and> poll_good p' hs' \<and>
           mEventHandlerHash p' = mEventHandlerHash p \<and>
           (\<forall>b. map_option eh_FD (hs' b) = map_option eh_FD (hs b))"
proof (cases "mEventHandlerHash p (eh_FD h)")
  case None
  with g h show ?thesis by (simp add: PollPoller_update_def handler_def)
next
  case (Some a')
  with r have reg: "mEventHandlerHash p (eh_FD h) = Some a" by simp
  note d = poll_goodD [OF g h reg]
  show ?thesis
  proof (cases "mIndex h < 0")
    case True
    let ?pfd = "\<lparr>pf_fd = eh_FD h, pf_events = ucast (mEvents h), pf_revents = 0\<rparr>"
    let ?p = "p\<lparr>mPollfds := mPollfds p @ [?pfd]\<rparr>"
    let ?hs = "hs(a \<mapsto> h\<lparr>mIndex := int (length (mPollfds p))\<rparr>)"
    have "PollPoller_update a p hs = Inr (?p, ?hs)"
      using reg True h by (simp add: PollPoller_update_def handler_def Let_def fun_upd_idem)
    moreover have "poll_good ?p ?hs"
      unfolding poll_good_def
    proof (intro conjI allI impI)
      fix fd b assume b: "mEventHandlerHash ?p fd = Some b"
      with g obtain hb where "hs b = Some hb" "eh_FD hb = fd" "0 \<le> fd"
          "0 \<le> mIndex hb \<Longrightarrow> nat (mIndex hb) < length (mPollfds p) \<and>
             pollfd_fd (pf_fd (mPollfds p ! nat (mIndex hb))) = fd"
        by (auto elim: poll_good_handler)
      then show "0 \<le> fd" and "\<exists>h. ?hs b = Some h \<and> eh_FD h = fd \<and>
          (0 \<le> mIndex h \<longrightarrow> nat (mIndex h) < length (mPollfds ?p) \<and>
             pollfd_fd (pf_fd (mPollfds ?p ! nat (mIndex h))) = fd)"
        using h d(1) by (cases "b = a"; auto simp: nth_append)+
    next
      fix i assume i: "i < length (mPollfds ?p)"
      show "\<exists>a' h'. mEventHandlerHash ?p (pollfd_fd (pf_fd (mPollfds ?p ! i))) = Some a' \<and>
              ?hs a' = Some h' \<and> mIndex h' = int i"
      proof (cases "i < length (mPollfds p)")
        case True
        obtain b hb where "mEventHandlerHash p (pollfd_fd (pf_fd (mPollfds p ! i))) = Some b"
            "hs b = Some hb" "mIndex hb = int i"
          using poll_good_entry [OF g True] by blast
        moreover from this have "b \<noteq> a" using h \<open>mIndex h < 0\<close> by auto
        ultimately show ?thesis using True by (auto simp: nth_append)
      next
        case False
        with i have "i = length (mPollfds p)" by simp
        then show ?thesis using reg d(1) by simp
      qed
    qed
    ultimately show ?thesis using h by auto
  next
    case False
    then have ix: "0 \<le> mIndex h" by simp
    let ?fd = "if isNoneEvent h then - eh_FD h - 1 else eh_FD h"
    let ?p = "p\<lparr>mPollfds := (mPollfds p)[nat (mIndex h) :=
      \<lparr>pf_fd = ?fd, pf_events = ucast (mEvents h), pf_revents = 0\<rparr>]\<rparr>"
    have same: "pollfd_fd (pf_fd (mPollfds ?p ! i)) = pollfd_fd (pf_fd (mPollfds p ! i))" for i
      using d(1) d(2,3) [OF ix] by (cases "i = nat (mIndex h)") auto
    have "PollPoller_update a p hs = Inr (?p, hs)"
      using reg False h d(2) [OF ix] by (simp add: PollPoller_update_def handler_def Let_def)
    moreover have "poll_good ?p hs"
      using g unfolding poll_good_def same by simp
    ultimately show ?thesis by simp
  qed
qed

lemma PollPoller_remove_good:
  assumes g: "poll_good p hs" and h: "hs a = Some h" and r: "mEventHandlerHash p (eh_FD h) \<in> {None, Some a}"
  shows "\<exists>p' hs'. PollPoller_remove a p hs = Inr (p', hs') \<and> poll_good p' hs' \<and>
           (mEventHandlerHash p' = mEventHandlerHash p \<or>
            mEventHandlerHash p' = (mEventHandlerHash p)(eh_FD h := None)) \<and>
           (\<forall>b. map_option eh_FD (hs' b) = map_option eh_FD (hs b))"
proof (cases "mEventHandlerHash p (eh_FD h) = None \<or> mIndex h < 0 \<or> nat (mIndex h) \<ge> length (mPollfds p)")
  case True
  with g h r show ?thesis
    by (auto simp: PollPoller_remove_def handler_def Let_def split: option.splits)
next
  case False
  with r have reg: "mEventHandlerHash p (eh_FD h) = Some a" and ix: "0 \<le> mIndex h"
    and lt: "nat (mIndex h) < length (mPollfds p)" by auto
  let ?pfds = "mPollfds p" and ?i = "nat (mIndex h)" and ?n = "length (mPollfds p) - 1"
  let ?hash = "(mEventHandlerHash p)(eh_FD h := None)"
  note d = poll_goodD(3) [OF g h reg ix]
  have ne: "?pfds \<noteq> []" using lt by auto
  have mine: "pollfd_fd (pf_fd (?pfds ! j)) = eh_FD h \<Longrightarrow> j = ?i" if "j < length ?pfds" for j
    using poll_good_entry [OF g that] reg h ix by (metis nat_int option.inject)
  show ?thesis
  proof (cases "?i = ?n")
    case True
    let ?p = "p\<lparr>mEventHandlerHash := ?hash, mPollfds := butlast ?pfds\<rparr>"
    have "PollPoller_remove a p hs = Inr (?p, hs)"
      using reg False True h by (simp add: PollPoller_remove_def handler_def Let_def)
    moreover have "poll_good ?p hs"
      unfolding poll_good_def
    proof (intro conjI allI impI)
      fix fd b assume "mEventHandlerHash ?p fd = Some b"
      then have b: "mEventHandlerHash p fd = Some b" "fd \<noteq> eh_FD h" by (auto split: if_splits)
      from poll_good_handler [OF g b(1)] obtain hb where hb: "hs b = Some hb" "eh_FD hb = fd" "0 \<le> fd"
          "0 \<le> mIndex hb \<Longrightarrow> nat (mIndex hb) < length ?pfds \<and> pollfd_fd (pf_fd (?pfds ! nat (mIndex hb))) = fd"
        by blast
      have "nat (mIndex hb) < ?n" if "0 \<le> mIndex hb"
      proof -
        have "nat (mIndex hb) \<noteq> ?n" using hb(4) [OF that] d True b(2) by auto
        with hb(4) [OF that] show ?thesis by linarith
      qed
      then show "0 \<le> fd" and "\<exists>h. hs b = Some h \<and> eh_FD h = fd \<and>
          (0 \<le> mIndex h \<longrightarrow> nat (mIndex h) < length (mPollfds ?p) \<and>
             pollfd_fd (pf_fd (mPollfds ?p ! nat (mIndex h))) = fd)"
        using hb by (auto simp: nth_butlast)
    next
      fix i assume i: "i < length (mPollfds ?p)"
      then have lt_i: "i < length ?pfds" "i \<noteq> ?i" using True by auto
      then show "\<exists>a' h'. mEventHandlerHash ?p (pollfd_fd (pf_fd (mPollfds ?p ! i))) = Some a' \<and>
              hs a' = Some h' \<and> mIndex h' = int i"
      proof -
        obtain c hc where "mEventHandlerHash p (pollfd_fd (pf_fd (?pfds ! i))) = Some c" "hs c = Some hc"
            "mIndex hc = int i" using poll_good_entry [OF g lt_i(1)] by blast
        with mine [OF lt_i(1)] lt_i(2) i show ?thesis by (auto simp: nth_butlast)
      qed
    qed
    ultimately show ?thesis by simp
  next
    case nl: False
    have n: "?n < length ?pfds" using ne by simp
    obtain b hb where b: "mEventHandlerHash p (pollfd_fd (pf_fd (?pfds ! ?n))) = Some b" "hs b = Some hb"
        "mIndex hb = int ?n" "eh_FD hb = pollfd_fd (pf_fd (?pfds ! ?n))"
      using poll_good_entry [OF g n] by blast
    have ba: "b \<noteq> a" and fdne: "pollfd_fd (pf_fd (?pfds ! ?n)) \<noteq> eh_FD h"
      using b h nl mine [OF n] by auto
    let ?p = "p\<lparr>mEventHandlerHash := ?hash, mPollfds := butlast (?pfds[?i := last ?pfds])\<rparr>"
    let ?hs = "hs(b \<mapsto> hb\<lparr>mIndex := mIndex h\<rparr>)"
    have "PollPoller_remove a p hs = Inr (?p, ?hs)"
      using reg False nl h ne b fdne
      by (simp add: PollPoller_remove_def handler_def Let_def last_conv_nth)
    moreover have "poll_good ?p ?hs"
      unfolding poll_good_def
    proof (intro conjI allI impI)
      fix fd c assume "mEventHandlerHash ?p fd = Some c"
      then have c: "mEventHandlerHash p fd = Some c" "fd \<noteq> eh_FD h" by (auto split: if_splits)
      from poll_good_handler [OF g c(1)] obtain hc where hc: "hs c = Some hc" "eh_FD hc = fd" "0 \<le> fd"
          "0 \<le> mIndex hc \<Longrightarrow> nat (mIndex hc) < length ?pfds \<and> pollfd_fd (pf_fd (?pfds ! nat (mIndex hc))) = fd"
        by blast
      show "0 \<le> fd" by (rule hc(3))
      have lt_i: "?i < ?n" using lt nl by simp
      show "\<exists>h'. ?hs c = Some h' \<and> eh_FD h' = fd \<and>
          (0 \<le> mIndex h' \<longrightarrow> nat (mIndex h') < length (mPollfds ?p) \<and>
             pollfd_fd (pf_fd (mPollfds ?p ! nat (mIndex h'))) = fd)"
      proof (cases "c = b")
        case True
        with hc b have "fd = pollfd_fd (pf_fd (?pfds ! ?n))" by simp
        then show ?thesis
          using True hc(1,2) b(2) lt_i ne lt by (simp add: nth_butlast last_conv_nth)
      next
        case False
        have "nat (mIndex hc) < ?n \<and> nat (mIndex hc) \<noteq> ?i" if "0 \<le> mIndex hc"
        proof -
          have "nat (mIndex hc) \<noteq> ?n" "nat (mIndex hc) \<noteq> ?i"
            using hc(4) [OF that] d c b(1) False by auto
          with hc(4) [OF that] show ?thesis by linarith
        qed
        then show ?thesis using False hc by (auto simp: nth_butlast)
      qed
    next
      fix i assume i: "i < length (mPollfds ?p)"
      show "\<exists>a' h'. mEventHandlerHash ?p (pollfd_fd (pf_fd (mPollfds ?p ! i))) = Some a' \<and>
              ?hs a' = Some h' \<and> mIndex h' = int i"
      proof (cases "i = ?i")
        case True
        then show ?thesis using i b fdne lt ne ix by (simp add: nth_butlast last_conv_nth)
      next
        case False
        have l: "i < length ?pfds" and n': "i \<noteq> ?n" using i by auto
        obtain c hc where c: "mEventHandlerHash p (pollfd_fd (pf_fd (?pfds ! i))) = Some c" "hs c = Some hc"
            "mIndex hc = int i" using poll_good_entry [OF g l] by blast
        have "c \<noteq> b" using c b n' by auto
        moreover have "pollfd_fd (pf_fd (?pfds ! i)) \<noteq> eh_FD h" using mine [OF l] False by blast
        ultimately show ?thesis using c i False by (auto simp: nth_butlast)
      qed
    qed
    ultimately show ?thesis using b(2) by auto
  qed
qed

interpretation pp: poller_table "poll_good :: poll_poller \<Rightarrow> _" mEventHandlerHash
    "\<lambda>a ok. PollPoller_update a" "\<lambda>a ok. PollPoller_remove a"
  by unfold_locales (erule (2) PollPoller_update_good, erule (2) PollPoller_remove_good)

section \<open>EpollPoller keeps its tables consistent\<close>

definition epoll_good :: "'a epoll_poller_scheme \<Rightarrow> store \<Rightarrow> bool" where
  "epoll_good p hs =
     ((\<forall>fd a. mEventHandlerHash p fd = Some a \<longrightarrow>
         (\<exists>h. hs a = Some h \<and> eh_FD h = fd \<and> (0 \<le> mIndex h \<longleftrightarrow> fd \<in> dom (kernel p)))) \<and>
      dom (kernel p) \<subseteq> dom (mEventHandlerHash p))"

lemma epoll_good_handler:
  assumes "epoll_good p hs" and "mEventHandlerHash p fd = Some a"
  obtains h where "hs a = Some h" "eh_FD h = fd" "0 \<le> mIndex h \<longleftrightarrow> fd \<in> dom (kernel p)"
  using assms unfolding epoll_good_def by blast

lemma epoll_good_update:
  assumes "epoll_good p hs" and "hs a = Some h" and "mEventHandlerHash p (eh_FD h) = Some a"
    and "mEventHandlerHash p' = mEventHandlerHash p"
    and "kernel p' = (kernel p)(eh_FD h := k)" and "(k \<noteq> None) = (0 \<le> i)"
  shows "epoll_good p' (hs(a \<mapsto> h\<lparr>mIndex := i\<rparr>))"
  unfolding epoll_good_def
proof (intro conjI allI impI)
  fix fd b assume "mEventHandlerHash p' fd = Some b"
  then have b: "mEventHandlerHash p fd = Some b" using assms(4) by simp
  from epoll_good_handler [OF assms(1) b] obtain hb where hb: "hs b = Some hb" "eh_FD hb = fd"
      "0 \<le> mIndex hb \<longleftrightarrow> fd \<in> dom (kernel p)" by blast
  show "\<exists>h'. (hs(a \<mapsto> h\<lparr>mIndex := i\<rparr>)) b = Some h' \<and> eh_FD h' = fd \<and>
          (0 \<le> mIndex h' \<longleftrightarrow> fd \<in> dom (kernel p'))"
  proof (cases "b = a")
    case True
    then show ?thesis using hb assms(2,5,6) by auto
  next
    case False
    then have "fd \<noteq> eh_FD h" using b assms(3) by auto
    then show ?thesis using False hb assms(5) by auto
  qed
next
  show "dom (kernel p') \<subseteq> dom (mEventHandlerHash p')"
    using assms(1,3,4,5) by (auto simp: epoll_good_def)
qed

lemma EpollPoller_update_good:
  assumes g: "epoll_good p hs" and h: "hs a = Some h" and r: "mEventHandlerHash p (eh_FD h) \<in> {None, Some a}"
  shows "\<exists>p' hs'. EpollPoller_update a ok p hs = Inr (p', hs') \<and> epoll_good p' hs' \<and>
           mEventHandlerHash p' = mEventHandlerHash p \<and>
           (\<forall>b. map_option eh_FD (hs' b) = map_option eh_FD (hs b))"
proof (cases "mEventHandlerHash p (eh_FD h) = None \<or> \<not> ok")
  case True
  with g h show ?thesis
    by (auto simp: EpollPoller_update_def handler_def Let_def split: option.splits)
next
  case False
  with r have reg: "mEventHandlerHash p (eh_FD h) = Some a" and ok: ok by auto
  have idem: "hs(a \<mapsto> h) = hs" using h by (simp add: fun_upd_idem)
  have up: "(mEventHandlerHash p)(eh_FD h \<mapsto> a) = mEventHandlerHash p" using reg by (simp add: fun_upd_idem)
  note gu = epoll_good_update [OF g h reg]
  show ?thesis
    using reg h ok gu [of "p\<lparr>kernel := (kernel p)(eh_FD h \<mapsto> mEvents h)\<rparr>" "Some (mEvents h)" 1]
      gu [of "p\<lparr>kernel := (kernel p)(eh_FD h := None)\<rparr>" None "-1"]
      gu [of "p\<lparr>kernel := (kernel p)(eh_FD h \<mapsto> mEvents h)\<rparr>" "Some (mEvents h)" "mIndex h"]
    by (auto simp: EpollPoller_update_def handler_def Let_def up idem)
qed

lemma EpollPoller_remove_good:
  assumes g: "epoll_good p hs" and h: "hs a = Some h" and r: "mEventHandlerHash p (eh_FD h) \<in> {None, Some a}"
  shows "\<exists>p' hs'. EpollPoller_remove a ok p hs = Inr (p', hs') \<and> epoll_good p' hs' \<and>
           (mEventHandlerHash p' = mEventHandlerHash p \<or>
            mEventHandlerHash p' = (mEventHandlerHash p)(eh_FD h := None)) \<and>
           (\<forall>b. map_option eh_FD (hs' b) = map_option eh_FD (hs b))"
proof (cases "mEventHandlerHash p (eh_FD h) = None \<or> \<not> ok")
  case True
  with g h show ?thesis
    by (auto simp: EpollPoller_remove_def handler_def Let_def split: option.splits)
next
  case False
  with r have reg: "mEventHandlerHash p (eh_FD h) = Some a" and ok: ok by auto
  let ?p = "p\<lparr>kernel := (kernel p)(eh_FD h := None), mEventHandlerHash := (mEventHandlerHash p)(eh_FD h := None)\<rparr>"
  have "epoll_good ?p (hs(a \<mapsto> h\<lparr>mIndex := -1\<rparr>))"
    unfolding epoll_good_def
  proof (intro conjI allI impI)
    fix fd b assume "mEventHandlerHash ?p fd = Some b"
    then have b: "mEventHandlerHash p fd = Some b" "fd \<noteq> eh_FD h" by (auto split: if_splits)
    from epoll_good_handler [OF g b(1)] obtain hb where hb: "hs b = Some hb" "eh_FD hb = fd"
        "0 \<le> mIndex hb \<longleftrightarrow> fd \<in> dom (kernel p)" by blast
    moreover have "b \<noteq> a" using hb h b(2) by auto
    ultimately show "\<exists>h'. (hs(a \<mapsto> h\<lparr>mIndex := -1\<rparr>)) b = Some h' \<and> eh_FD h' = fd \<and>
          (0 \<le> mIndex h' \<longleftrightarrow> fd \<in> dom (kernel ?p))"
      using b(2) by auto
  next
    show "dom (kernel ?p) \<subseteq> dom (mEventHandlerHash ?p)"
      using g by (auto simp: epoll_good_def)
  qed
  then show ?thesis
    using reg h ok by (auto simp: EpollPoller_remove_def handler_def Let_def)
qed

interpretation ep: poller_table "epoll_good :: epoll_poller \<Rightarrow> _" mEventHandlerHash
    EpollPoller_update EpollPoller_remove
  by unfold_locales (erule (2) EpollPoller_update_good, erule (2) EpollPoller_remove_good)

section \<open>Properties\<close>

lemma touch_fst: "fst (touch fd r hash s) = fst s @ (case hash fd of None \<Rightarrow> [] | Some a \<Rightarrow> [a])"
  by (simp add: touch_def split: option.splits)

lemma poll_loop_reports:
  "fst (snd (poll_loop pfds n hash s)) = fst s @ List.map_filter (\<lambda>pfd. hash (pf_fd pfd)) (take (nat n) pfds)"
proof (induction pfds n hash s rule: poll_loop.induct)
  case (1 n hash s)
  then show ?case by (simp add: List.map_filter_def)
next
  case (2 pfd pfds n hash s)
  show ?case
  proof (cases "n > 0")
    case True
    then have "nat n = Suc (nat (n - 1))" by simp
    with 2 True show ?thesis by (simp add: touch_fst List.map_filter_def split: option.splits)
  qed (simp add: List.map_filter_def)
qed

lemma epoll_loop_reports:
  "fst (epoll_loop evs hash s) = fst s @ List.map_filter (\<lambda>e. hash (fst e)) evs"
  by (induction evs hash s rule: epoll_loop.induct)
    (simp_all add: touch_fst List.map_filter_simps split: option.splits)

text \<open>C25. The tables of \<^verbatim>\<open>PollPoller\<close> never diverge: any sequence of updates and removals of
  handlers that own their descriptor runs without an out-of-range access or a null handler, and
  afterwards every entry of the \<^verbatim>\<open>pollfd\<close> array belongs to the registered handler whose index
  is the position of the entry, also after the swap with the last entry.\<close>

theorem poll_tables_consistent:
  fixes p :: poll_poller
  assumes "poll_good p hs"
    and "\<forall>op \<in> set ops. \<exists>h. hs (op_addr op) = Some h \<and>
           mEventHandlerHash p (eh_FD h) \<in> {None, Some (op_addr op)}"
  shows "\<exists>p' hs'. run_poller (\<lambda>a ok. PollPoller_update a) (\<lambda>a ok. PollPoller_remove a) ops p hs = Inr (p', hs') \<and>
           (\<forall>i < length (mPollfds p'). \<exists>a h.
              mEventHandlerHash p' (pollfd_fd (pf_fd (mPollfds p' ! i))) = Some a \<and> hs' a = Some h \<and>
              mIndex h = int i)"
  using pp.run_good [OF assms(1), of ops] assms(2) unfolding pp.proper_def poll_good_def by blast

definition demo_handler :: "int \<Rightarrow> event_handler" where
  "demo_handler fd = enableReading (new_EventHandler fd 0)"

definition demo_store :: store where
  "demo_store = [1 \<mapsto> demo_handler 7, 2 \<mapsto> demo_handler 9]"

definition demo_poll :: poll_poller where
  "demo_poll = \<lparr>mSettlement = 1000, mAccumulatedMillisec = 0, mTouchedEventNum = 0, mRate = None,
     mDetectionIntervalInMilliseconds = 30000, mTimeoutInMilliseconds = 300000,
     mRestThresholdInseconds = 3600, mEventHandlerHash = [7 \<mapsto> 1, 9 \<mapsto> 2], mPollfds = []\<rparr>"

lemma demo_poll_good: "poll_good demo_poll demo_store"
  by (auto simp: poll_good_def demo_poll_def demo_store_def demo_handler_def new_EventHandler_def
      enableReading_def split: if_splits)

theorem poll_tables_consistent_witness:
  "\<exists>p' hs'. run_poller (\<lambda>a ok. PollPoller_update a) (\<lambda>a ok. PollPoller_remove a)
       [Update 1 True, Update 2 True, Remove 1 True] demo_poll demo_store = Inr (p', hs') \<and>
     (\<forall>i < length (mPollfds p'). \<exists>a h.
        mEventHandlerHash p' (pollfd_fd (pf_fd (mPollfds p' ! i))) = Some a \<and> hs' a = Some h \<and>
        mIndex h = int i)"
  by (rule poll_tables_consistent [OF demo_poll_good])
    (simp add: demo_store_def demo_poll_def demo_handler_def new_EventHandler_def enableReading_def)

text \<open>C26. \<^verbatim>\<open>EpollPoller\<close> mirrors the interest list of the kernel: after any sequence of updates
  and removals of handlers that own their descriptor, whichever of the \<^verbatim>\<open>epoll_ctl\<close> calls
  fail, a registered handler has a non-negative index exactly when its descriptor is in the
  interest list.\<close>

theorem epoll_mirrors_kernel:
  fixes p :: epoll_poller
  assumes "epoll_good p hs"
    and "\<forall>op \<in> set ops. \<exists>h. hs (op_addr op) = Some h \<and>
           mEventHandlerHash p (eh_FD h) \<in> {None, Some (op_addr op)}"
  shows "\<exists>p' hs'. run_poller EpollPoller_update EpollPoller_remove ops p hs = Inr (p', hs') \<and>
           (\<forall>fd a. mEventHandlerHash p' fd = Some a \<longrightarrow>
              (\<exists>h. hs' a = Some h \<and> eh_FD h = fd \<and> (0 \<le> mIndex h \<longleftrightarrow> fd \<in> dom (kernel p'))))"
  using ep.run_good [OF assms(1), of ops] assms(2) unfolding ep.proper_def epoll_good_def by blast

definition demo_epoll :: epoll_poller where
  "demo_epoll = \<lparr>mSettlement = 1000, mAccumulatedMillisec = 0, mTouchedEventNum = 0, mRate = None,
     mDetectionIntervalInMilliseconds = 30000, mTimeoutInMilliseconds = 300000,
     mRestThresholdInseconds = 3600, mEventHandlerHash = [7 \<mapsto> 1, 9 \<mapsto> 2],
     mEpollEvents_size = 16, kernel = Map.empty\<rparr>"

lemma demo_epoll_good: "epoll_good demo_epoll demo_store"
  by (auto simp: epoll_good_def demo_epoll_def demo_store_def demo_handler_def new_EventHandler_def
      enableReading_def split: if_splits)

theorem epoll_mirrors_kernel_witness:
  "\<exists>p' hs'. run_poller EpollPoller_update EpollPoller_remove
       [Update 1 True, Update 2 False, Update 2 True, Remove 1 True] demo_epoll demo_store = Inr (p', hs') \<and>
     (\<forall>fd a. mEventHandlerHash p' fd = Some a \<longrightarrow>
        (\<exists>h. hs' a = Some h \<and> eh_FD h = fd \<and> (0 \<le> mIndex h \<longleftrightarrow> fd \<in> dom (kernel p'))))"
  by (rule epoll_mirrors_kernel [OF demo_epoll_good])
    (simp add: demo_store_def demo_epoll_def demo_handler_def new_EventHandler_def enableReading_def)

text \<open>When \<open>n\<close> descriptors are ready, \<^verbatim>\<open>EpollPoller::poll\<close> hands out the handlers of the ready
  ones, but \<^verbatim>\<open>PollPoller::poll\<close> hands out those of the first \<open>n\<close> entries of its array, ready or
  not: its loop counts \<open>readyNum\<close> down on every entry instead of on every ready one.\<close>

theorem poll_reports_prefix:
  "fst (PollPoller_poll n pfds dur p hs) =
     List.map_filter (\<lambda>pfd. mEventHandlerHash p (pf_fd pfd)) (take (nat n) pfds) \<and>
   fst (EpollPoller_poll (Some evs) dur' q hs) = List.map_filter (\<lambda>e. mEventHandlerHash q (fst e)) evs"
proof
  show "fst (PollPoller_poll n pfds dur p hs) =
     List.map_filter (\<lambda>pfd. mEventHandlerHash p (pf_fd pfd)) (take (nat n) pfds)"
    using poll_loop_reports [of pfds n "mEventHandlerHash p" "([], hs)"]
    by (cases "n > 0") (auto simp: PollPoller_poll_def Let_def List.map_filter_def split: prod.splits)
  show "fst (EpollPoller_poll (Some evs) dur' q hs) =
      List.map_filter (\<lambda>e. mEventHandlerHash q (fst e)) evs"
    using epoll_loop_reports [of evs "mEventHandlerHash q" "([], hs)"]
    by (cases evs; cases "epoll_loop evs (mEventHandlerHash q) ([], hs)")
      (simp_all add: EpollPoller_poll_def Let_def List.map_filter_simps)
qed

end
