(* ===== verification/Tcp_Connection.thy ===== *)
theory Tcp_Connection
  imports IO_Buffer Pollers
begin

text \<open>
  \<^verbatim>\<open>Base/net/TcpConnection.h\<close>: a connection with its input and output buffers and the string
  \<^verbatim>\<open>mIncompleteMessage\<close> that collects a message from several chunks. The theorems compare
  \<^verbatim>\<open>tryGet\<close> with reading from the one stream of bytes that has been received and not yet taken,
  \<open>pending\<close>, and describe what the sending side puts on the wire.

  \<^verbatim>\<open>std::move(mIncompleteMessage)\<close> leaves the string empty (what libstdc++ does; the standard
  says unspecified). \<open>tc_interest\<close> is the mask the poller was last told through
  \<^verbatim>\<open>mEventLoop->update\<close>; \<open>tc_wire\<close> is a ghost, the bytes the kernel took.
\<close>

section \<open>The connection\<close>

datatype ConnectionState = Disconnected | Connecting | Connected | Disconnecting

record tcp_connection =
  mConnectionHandler :: event_handler
  tc_interest :: u32
  mName :: string
  mPeerIP :: string
  mPeerIPPort :: string
  mCommunicationTimestamp :: u64
  mInputBuffer :: io_buffer
  mOutputBuffer :: io_buffer
  mMessageFunc :: bool
  mCloseFunc :: bool
  mState :: ConnectionState
  mIncompleteMessage :: bytes
  tc_wire :: bytes

definition loop_update :: "tcp_connection \<Rightarrow> tcp_connection" where
  "loop_update c = c\<lparr>tc_interest := mEvents (mConnectionHandler c)\<rparr>"

definition enable_writing :: "tcp_connection \<Rightarrow> tcp_connection" where
  "enable_writing c = loop_update (c\<lparr>mConnectionHandler := enableWriting (mConnectionHandler c)\<rparr>)"

definition disable_writing :: "tcp_connection \<Rightarrow> tcp_connection" where
  "disable_writing c = loop_update (c\<lparr>mConnectionHandler := disableWriting (mConnectionHandler c)\<rparr>)"

definition new_TcpConnection :: "int \<Rightarrow> string \<Rightarrow> string \<Rightarrow> string \<Rightarrow> u32 \<Rightarrow> tcp_connection" where
  "new_TcpConnection connfd ip ipport name garbage =
     (let h = new_EventHandler connfd garbage;
          h = setFunc ErrorFunc (setFunc CloseFunc (setFunc WriteFunc (setFunc ReadFunc h)));
          h = disableWriting (enableReading h) in
      loop_update
        \<lparr>mConnectionHandler = h, tc_interest = 0, mName = name, mPeerIP = ip, mPeerIPPort = ipport,
         mCommunicationTimestamp = 0, mInputBuffer = new_IOBuffer connfd,
         mOutputBuffer = new_IOBuffer connfd, mMessageFunc = False, mCloseFunc = False,
         mState = Connected, mIncompleteMessage = [], tc_wire = []\<rparr>)"

section \<open>Sending\<close>

text \<open>\<^verbatim>\<open>mOutputBuffer.write\<close>: the result \<open>None\<close> of the system call is an error.\<close>

definition out_write :: "nat option \<Rightarrow> bytes \<Rightarrow> tcp_connection \<Rightarrow> int \<times> tcp_connection" where
  "out_write accepted buf c =
     (case IOBuffer_write accepted buf (mOutputBuffer c) of (n, b) \<Rightarrow>
        (n, c\<lparr>mOutputBuffer := b,
              tc_wire := tc_wire c @ (case accepted of None \<Rightarrow> [] | Some k \<Rightarrow> take k buf)\<rparr>))"

definition send :: "bytes \<Rightarrow> nat option \<Rightarrow> tcp_connection \<Rightarrow> tcp_connection" where
  "send data accepted c =
     (case IOBuffer_get (mOutputBuffer c) of
        (None, b) \<Rightarrow>
          (case out_write accepted data (c\<lparr>mOutputBuffer := b\<rparr>) of (n, c) \<Rightarrow>
             if n \<ge> 0 \<and> int (length data) - n > 0 then enable_writing c else c)
      | (Some msg, b) \<Rightarrow>
          (case out_write accepted msg (c\<lparr>mOutputBuffer := b\<rparr>) of (n, c) \<Rightarrow>
             enable_writing (c\<lparr>mOutputBuffer := IOBuffer_put data (mOutputBuffer c)\<rparr>)))"

definition putToBuffer :: "bytes \<Rightarrow> tcp_connection \<Rightarrow> tcp_connection" where
  "putToBuffer data c = enable_writing (c\<lparr>mOutputBuffer := IOBuffer_put data (mOutputBuffer c)\<rparr>)"

definition writeFunc :: "nat option \<Rightarrow> tcp_connection \<Rightarrow> tcp_connection" where
  "writeFunc accepted c =
     (case IOBuffer_get (mOutputBuffer c) of
        (None, b) \<Rightarrow> disable_writing c
      | (Some msg, b) \<Rightarrow> snd (out_write accepted msg (c\<lparr>mOutputBuffer := b\<rparr>)))"

section \<open>Receiving\<close>

text \<open>\<^verbatim>\<open>get()\<close> dereferences the pointer without a test.\<close>

definition conn_get :: "tcp_connection \<Rightarrow> (bytes \<times> tcp_connection) result" where
  "conn_get c =
     (case IOBuffer_get (mInputBuffer c) of
        (None, b) \<Rightarrow> Inl NullDereference
      | (Some msg, b) \<Rightarrow> Inr (msg, c\<lparr>mInputBuffer := b\<rparr>))"

text \<open>The loop of \<^verbatim>\<open>tryGet\<close> over the queue: the result, the incomplete message and the queue.\<close>

fun tryGet_loop :: "nat \<Rightarrow> bool \<Rightarrow> bytes \<Rightarrow> bytes list \<Rightarrow> bytes \<times> bytes \<times> bytes list" where
  "tryGet_loop len takeAway inc [] = ([], inc, [])"
| "tryGet_loop len takeAway inc (msg # q) =
     (let l = length msg in
      if l + length inc = len then (inc @ msg, if takeAway then [] else inc @ msg, q)
      else if l + length inc < len then tryGet_loop len takeAway (inc @ msg) q
      else (take len (inc @ msg), if takeAway then drop len (inc @ msg) else inc @ msg, q))"

definition tryGet :: "nat \<Rightarrow> bool \<Rightarrow> tcp_connection \<Rightarrow> bytes \<times> tcp_connection" where
  "tryGet len takeAway c =
     (let inc = mIncompleteMessage c; b = mInputBuffer c in
      if len = 0 \<and> inc \<noteq> [] then
        (inc, if takeAway then c\<lparr>mIncompleteMessage := []\<rparr> else c)
      else if len = 0 \<and> mDataQueue b \<noteq> [] then
        (case IOBuffer_get b of (msg, b') \<Rightarrow> (the msg, c\<lparr>mInputBuffer := b'\<rparr>))
      else if length inc = len then (inc, c\<lparr>mIncompleteMessage := []\<rparr>)
      else if length inc > len then
        (take len inc, if takeAway then c\<lparr>mIncompleteMessage := drop len inc\<rparr> else c)
      else
        (case tryGet_loop len takeAway inc (mDataQueue b) of (res, inc', q) \<Rightarrow>
           (res, c\<lparr>mIncompleteMessage := inc', mInputBuffer := b\<lparr>mDataQueue := q\<rparr>\<rparr>)))"

datatype conn_event = MessageEvent | CloseEvent | CloseSocket | ErrorEvent | NoEvent

definition closeFunc :: "tcp_connection \<Rightarrow> conn_event" where
  "closeFunc c = (if mCloseFunc c then CloseEvent else CloseSocket)"

definition readFunc :: "bytes option \<Rightarrow> tcp_connection \<Rightarrow> (conn_event \<times> tcp_connection) result" where
  "readFunc received c =
     rbind (IOBuffer_read received (mInputBuffer c)) (\<lambda>(n, b).
       let c = c\<lparr>mInputBuffer := b\<rparr> in
       Inr (if n > 0 then (if mMessageFunc c then MessageEvent else NoEvent)
            else if n = 0 then closeFunc c
            else ErrorEvent, c))"

definition activeClose :: "bool \<Rightarrow> tcp_connection \<Rightarrow> conn_event" where
  "activeClose force c = (if mCloseFunc c then CloseEvent else CloseSocket)"

text \<open>The way the servers take one message out of a connection: peek the length, then take that
  many bytes (the head of the \<^verbatim>\<open>messageFunc\<close> of the login, game and gateway servers).\<close>

definition fetch_message :: "tcp_connection \<Rightarrow> bytes option \<times> tcp_connection" where
  "fetch_message c =
     (case tryGet 8 False c of (msg, c) \<Rightarrow>
        if msg = [] then (None, c)
        else
          let len = le_decode (take 8 msg) in
          if len \<ge> 8 then
            (case tryGet len True c of (msg, c) \<Rightarrow> (if msg = [] then None else Some msg, c))
          else (None, c))"

section \<open>The stream of received bytes\<close>

definition pending :: "tcp_connection \<Rightarrow> bytes" where
  "pending c = mIncompleteMessage c @ concat (mDataQueue (mInputBuffer c))"

lemma tryGet_loop_stream:
  assumes "length inc < len"
  shows "\<exists>inc' q'. tryGet_loop len takeAway inc q =
           (if len \<le> length (inc @ concat q) then take len (inc @ concat q) else [], inc', q') \<and>
         inc' @ concat q' =
           (if takeAway \<and> len \<le> length (inc @ concat q) then drop len (inc @ concat q)
            else inc @ concat q) \<and>
         (\<not> takeAway \<and> len \<le> length (inc @ concat q) \<longrightarrow> len \<le> length inc') \<and>
         (length (inc @ concat q) < len \<longrightarrow> q' = [])"
  using assms
proof (induction q arbitrary: inc)
  case Nil
  then show ?case by simp
next
  case (Cons msg q)
  show ?case
  proof (cases "length msg + length inc < len")
    case True
    then have l: "length (inc @ msg) < len" by simp
    have s: "(inc @ msg) @ concat q = inc @ concat (msg # q)" by simp
    have eq: "tryGet_loop len takeAway inc (msg # q) = tryGet_loop len takeAway (inc @ msg) q"
      using True by (simp add: Let_def)
    show ?thesis unfolding eq by (rule Cons.IH [OF l, unfolded s])
  next
    case False
    then show ?thesis by (auto simp: Let_def)
  qed
qed

lemma tryGet_stream:
  assumes "0 < len" and "takeAway \<or> length (mIncompleteMessage c) \<noteq> len"
  shows "\<exists>c'. tryGet len takeAway c =
           (if len \<le> length (pending c) then take len (pending c) else [], c') \<and>
         pending c' = (if takeAway \<and> len \<le> length (pending c) then drop len (pending c) else pending c) \<and>
         (\<not> takeAway \<and> len \<le> length (pending c) \<longrightarrow> len \<le> length (mIncompleteMessage c'))"
proof -
  let ?inc = "mIncompleteMessage c" and ?q = "mDataQueue (mInputBuffer c)"
  consider "length ?inc = len" | "length ?inc > len" | "length ?inc < len" by linarith
  then show ?thesis
  proof cases
    case 1
    with assms show ?thesis by (auto simp: tryGet_def Let_def pending_def)
  next
    case 2
    with assms show ?thesis by (auto simp: tryGet_def Let_def pending_def)
  next
    case 3
    from tryGet_loop_stream [OF 3, of takeAway ?q] obtain inc' q' where
      t: "tryGet_loop len takeAway ?inc ?q = (if len \<le> length (pending c) then take len (pending c) else [], inc', q')"
        "inc' @ concat q' = (if takeAway \<and> len \<le> length (pending c) then drop len (pending c) else pending c)"
        "\<not> takeAway \<and> len \<le> length (pending c) \<longrightarrow> len \<le> length inc'"
      unfolding pending_def by blast
    with 3 assms(1) show ?thesis by (auto simp: tryGet_def Let_def pending_def)
  qed
qed

lemma le_decode_head:
  assumes "take 8 m = enc_size n" and "n < 2 ^ 64"
  shows "le_decode (take 8 m) = n"
  using assms by simp

section \<open>Properties\<close>

text \<open>Taking \<open>len\<close> bytes works on the stream, not on the chunks: \<^verbatim>\<open>tryGet(len, true)\<close>
  returns exactly the first \<open>len\<close> received bytes and leaves the rest, or returns the empty string
  and loses nothing, however the bytes were cut into chunks.\<close>

theorem tryGet_takes_from_stream:
  assumes "0 < len"
  shows "\<exists>c'. tryGet len True c = (if len \<le> length (pending c) then take len (pending c) else [], c') \<and>
           pending c' = (if len \<le> length (pending c) then drop len (pending c) else pending c)"
  using tryGet_stream [OF assms, of True c] by auto

theorem tryGet_takes_from_stream_witness:
  "\<exists>c'. tryGet 4 True (new_TcpConnection 5 ''ip'' ''ip:1'' ''n'' 0) =
          (if 4 \<le> length (pending (new_TcpConnection 5 ''ip'' ''ip:1'' ''n'' 0))
           then take 4 (pending (new_TcpConnection 5 ''ip'' ''ip:1'' ''n'' 0)) else [], c') \<and>
        pending c' = (if 4 \<le> length (pending (new_TcpConnection 5 ''ip'' ''ip:1'' ''n'' 0))
           then drop 4 (pending (new_TcpConnection 5 ''ip'' ''ip:1'' ''n'' 0))
           else pending (new_TcpConnection 5 ''ip'' ''ip:1'' ''n'' 0))"
  by (rule tryGet_takes_from_stream) simp


definition two_chunks :: tcp_connection where
  "two_chunks = (new_TcpConnection 5 ''ip'' ''ip:1'' ''n'' 0)
     \<lparr>mInputBuffer := (new_IOBuffer 5)\<lparr>mDataQueue := [enc_size 10, ''hiX'']\<rparr>\<rparr>"


text \<open>When exactly the 8 bytes of the length have arrived on their own, the first attempt
  keeps them, but the next one moves them out of the connection: the header is lost and the rest
  of the message is read as if it started with a length.\<close>

theorem split_header_lost:
  assumes "mIncompleteMessage c = []" and "mDataQueue (mInputBuffer c) = [enc_size n]"
    and "8 < n" and "n < 2 ^ 64"
  shows "\<exists>c1 c2. fetch_message c = (None, c1) \<and> pending c1 = enc_size n \<and>
           fetch_message (c1\<lparr>mInputBuffer := IOBuffer_put data (mInputBuffer c1)\<rparr>) =
             (if n \<le> length data then Some (take n data) else None, c2) \<and>
           pending c2 = (if n \<le> length data then drop n data else data)"
proof -
  let ?c1 = "c\<lparr>mIncompleteMessage := enc_size n, mInputBuffer := (mInputBuffer c)\<lparr>mDataQueue := []\<rparr>\<rparr>"
  let ?d = "?c1\<lparr>mInputBuffer := IOBuffer_put data (mInputBuffer ?c1)\<rparr>"
  have ne: "enc_size n \<noteq> []" by (metis length_enc(1) list.size(3) zero_neq_numeral)
  have a: "tryGet 8 False c = (enc_size n, ?c1)"
    using assms by (simp add: tryGet_def Let_def)
  have b: "tryGet n True ?c1 = ([], ?c1)"
    using assms(3) by (simp add: tryGet_def Let_def)
  have f1: "fetch_message c = (None, ?c1)"
    using assms(3,4) ne by (simp add: fetch_message_def a b Let_def)
  have l: "tryGet 8 False ?d = (enc_size n, ?d\<lparr>mIncompleteMessage := []\<rparr>)"
    by (simp add: tryGet_def Let_def)
  have p: "pending (?d\<lparr>mIncompleteMessage := []\<rparr>) = data"
    by (simp add: pending_def IOBuffer_put_def)
  have n: "0 < n" using assms(3) by simp
  obtain c2 where "tryGet n True (?d\<lparr>mIncompleteMessage := []\<rparr>) = (if n \<le> length data then take n data else [], c2)"
      "pending c2 = (if n \<le> length data then drop n data else data)"
    using tryGet_stream [OF n, of True "?d\<lparr>mIncompleteMessage := []\<rparr>"] p by auto
  then have "fetch_message ?d = (if n \<le> length data then Some (take n data) else None, c2) \<and>
      pending c2 = (if n \<le> length data then drop n data else data)"
    unfolding fetch_message_def l prod.case using assms(3,4) ne n by (auto simp: Let_def)
  then show ?thesis using f1 by (intro exI [of _ ?c1] exI [of _ c2]) (simp add: pending_def)
qed

definition header_only :: tcp_connection where
  "header_only = (new_TcpConnection 5 ''ip'' ''ip:1'' ''n'' 0)
     \<lparr>mInputBuffer := (new_IOBuffer 5)\<lparr>mDataQueue := [enc_size 10]\<rparr>\<rparr>"

theorem split_header_lost_witness:
  "\<exists>c1 c2. fetch_message header_only = (None, c1) \<and> pending c1 = enc_size 10 \<and>
     fetch_message (c1\<lparr>mInputBuffer := IOBuffer_put ''hi'' (mInputBuffer c1)\<rparr>) = (None, c2) \<and>
     pending c2 = ''hi''"
  using split_header_lost [of header_only 10 "''hi''"]
  by (simp add: header_only_def new_TcpConnection_def loop_update_def Let_def)

section \<open>The outgoing stream\<close>

definition outgoing :: "tcp_connection \<Rightarrow> bytes" where
  "outgoing c = tc_wire c @ concat (mDataQueue (mOutputBuffer c))"

lemma enable_writing_sel [simp]:
  "outgoing (enable_writing c) = outgoing c" "mDataQueue (mOutputBuffer (enable_writing c)) = mDataQueue (mOutputBuffer c)"
  "tc_wire (enable_writing c) = tc_wire c"
  by (simp_all add: outgoing_def enable_writing_def loop_update_def)

text \<open>Sending on an idle connection: with nothing queued and the kernel taking any part of
  the data, \<^verbatim>\<open>send\<close> appends exactly the data to what goes out, and if a part is left the poller
  has been told to wait for writability.\<close>

theorem send_idle_appends:
  assumes "mDataQueue (mOutputBuffer c) = []" and "k \<le> length data"
  shows "outgoing (send data (Some k) c) = outgoing c @ data \<and>
         (k < length data \<longrightarrow>
            tc_interest (send data (Some k) c) = mEvents (mConnectionHandler (send data (Some k) c)) \<and>
            isWriteable (mConnectionHandler (send data (Some k) c)))"
  using assms
  by (auto simp: send_def IOBuffer_get_def out_write_def IOBuffer_write_def IOBuffer_put_def
      outgoing_def enable_writing_def loop_update_def)

theorem send_idle_appends_witness:
  "outgoing (send ''hello'' (Some 2) (new_TcpConnection 5 ''ip'' ''ip:1'' ''n'' 0)) = ''hello'' \<and>
   isWriteable (mConnectionHandler (send ''hello'' (Some 2) (new_TcpConnection 5 ''ip'' ''ip:1'' ''n'' 0)))"
  using send_idle_appends [of "new_TcpConnection 5 ''ip'' ''ip:1'' ''n'' 0" 2 "''hello''"]
  by (simp add: new_TcpConnection_def loop_update_def Let_def new_IOBuffer_def outgoing_def)

text \<open>What \<^verbatim>\<open>writeFunc\<close> does to the queued chunks \<open>a # q\<close>: a full write keeps the stream;
  after a partial write the rest of \<open>a\<close> goes to the back of the queue, behind \<open>q\<close>, so the bytes
  leave in another order as soon as \<open>q\<close> is not empty; after an error \<open>a\<close> is gone.\<close>

theorem writeFunc_outcomes:
  assumes "mDataQueue (mOutputBuffer c) = a # q" and "k \<le> length a"
  shows "(k = length a \<or> q = [] \<longrightarrow> outgoing (writeFunc (Some k) c) = outgoing c) \<and>
         outgoing (writeFunc (Some k) c) = tc_wire c @ take k a @ concat q @ drop k a \<and>
         outgoing (writeFunc None c) = tc_wire c @ concat q"
  using assms
  by (auto simp: writeFunc_def IOBuffer_get_def out_write_def IOBuffer_write_def IOBuffer_put_def
      outgoing_def)

theorem writeFunc_outcomes_witness:
  "outgoing (writeFunc (Some 1) (putToBuffer ''CD'' (putToBuffer ''AB''
      (new_TcpConnection 5 ''ip'' ''ip:1'' ''n'' 0)))) = ''ACDB''"
  using writeFunc_outcomes [of "putToBuffer ''CD'' (putToBuffer ''AB''
      (new_TcpConnection 5 ''ip'' ''ip:1'' ''n'' 0))" "''AB''" "[''CD'']" 1]
  by (simp add: putToBuffer_def IOBuffer_put_def new_TcpConnection_def loop_update_def Let_def
      new_IOBuffer_def enable_writing_def)

end
