(* ===== verification/Event_Loop.thy ===== *)
theory Event_Loop
  imports Pollers
begin

unbundle bit_operations_syntax

text \<open>
  \<^verbatim>\<open>Base/net/EventLoop.h\<close>, \<^verbatim>\<open>EventLoopThread.h\<close> and \<^verbatim>\<open>EventLoopThreadpool.h\<close>: the life of one loop
  thread under \<^verbatim>\<open>quit\<close>, and the choice of the loop for a new connection.

  The loop thread and the thread that calls \<^verbatim>\<open>quit\<close> interleave, so the loop is a step relation
  whose program counter names the statement it is about to execute. The tables of the poller are
  in the theory \<open>Pollers\<close>; here a poll is the list of handlers it reports. In the pool a loop
  thread is what the pool reads of it: whether it loops, its number of events, its rate and its
  thread id.
\<close>

section \<open>EventLoop: loop, quit and wakeup\<close>

datatype loop_pc =
    AtStart                \<comment> \<open>the thread has been created, \<^verbatim>\<open>loop\<close> has not begun\<close>
  | AtTest                 \<comment> \<open>the condition of the \<^verbatim>\<open>while\<close>\<close>
  | InPoll                 \<comment> \<open>inside \<^verbatim>\<open>mPoller->poll\<close>\<close>
  | DoingEvents "addr list" \<comment> \<open>the \<^verbatim>\<open>for\<close> loop, with the handlers left\<close>
  | Returned               \<comment> \<open>\<^verbatim>\<open>loop\<close> has returned, the thread can be joined\<close>

text \<open>\<open>el_eventfd\<close> is the counter of the eventfd \<^verbatim>\<open>mWakeupFD\<close>; \<open>handled\<close> collects the handlers
  whose \<^verbatim>\<open>doEvnet\<close> has been called.\<close>

record event_loop =
  el_pc :: loop_pc
  mRunning :: bool
  mIsDoingEvent :: bool
  mEventHandlers :: "addr list"
  mWakeupHandler :: addr
  el_eventfd :: nat
  handled :: "addr list"

definition new_EventLoop :: "addr \<Rightarrow> event_loop" where
  "new_EventLoop wake =
     \<lparr>el_pc = AtStart, mRunning = False, mIsDoingEvent = False, mEventHandlers = [],
      mWakeupHandler = wake, el_eventfd = 0, handled = []\<rparr>"

text \<open>An eventfd that would pass its maximum refuses the write; the code only prints a message.\<close>

definition wakeup :: "event_loop \<Rightarrow> event_loop" where
  "wakeup l = (if el_eventfd l + 1 < 2 ^ 64 - 1 then l\<lparr>el_eventfd := el_eventfd l + 1\<rparr> else l)"

definition quit :: "event_loop \<Rightarrow> event_loop" where
  "quit l = wakeup (l\<lparr>mRunning := False\<rparr>)"

text \<open>Reading an eventfd resets its counter.\<close>

definition nap :: "event_loop \<Rightarrow> event_loop" where
  "nap l = l\<lparr>el_eventfd := 0\<rparr>"

definition do_handler :: "addr \<Rightarrow> event_loop \<Rightarrow> event_loop" where
  "do_handler a l =
     (let l = l\<lparr>handled := handled l @ [a]\<rparr> in if a = mWakeupHandler l then nap l else l)"

text \<open>One statement of \<^verbatim>\<open>loop\<close>; \<open>ready\<close> is what the poll reports if this step is a poll.\<close>

definition loop_step :: "addr list \<Rightarrow> event_loop \<Rightarrow> event_loop" where
  "loop_step ready l =
     (case el_pc l of
        AtStart \<Rightarrow> l\<lparr>mRunning := True, el_pc := AtTest\<rparr>
      | AtTest \<Rightarrow>
          if mRunning l then l\<lparr>mEventHandlers := [], el_pc := InPoll\<rparr> else l\<lparr>el_pc := Returned\<rparr>
      | InPoll \<Rightarrow> l\<lparr>mEventHandlers := ready, mIsDoingEvent := True, el_pc := DoingEvents ready\<rparr>
      | DoingEvents [] \<Rightarrow> l\<lparr>mIsDoingEvent := False, el_pc := AtTest\<rparr>
      | DoingEvents (a # as) \<Rightarrow> (do_handler a l)\<lparr>el_pc := DoingEvents as\<rparr>
      | Returned \<Rightarrow> l)"

text \<open>The steps of the system: the loop thread, and the thread that adds events or quits.
  A poll that finds the eventfd written reports the wakeup handler.\<close>

datatype loop_event = Own "addr list" | Quit | Wakeup

definition poll_ok :: "addr list \<Rightarrow> event_loop \<Rightarrow> bool" where
  "poll_ok ready l = (el_pc l = InPoll \<and> el_eventfd l > 0 \<longrightarrow> mWakeupHandler l \<in> set ready)"

definition sys_loop_step :: "loop_event \<Rightarrow> event_loop \<Rightarrow> event_loop" where
  "sys_loop_step e l =
     (case e of Own ready \<Rightarrow> loop_step ready l | Quit \<Rightarrow> quit l | Wakeup \<Rightarrow> wakeup l)"

inductive loop_runs :: "event_loop \<Rightarrow> loop_event list \<Rightarrow> event_loop \<Rightarrow> bool" where
  runs_nil: "loop_runs l [] l"
| runs_own: "poll_ok ready l \<Longrightarrow> loop_runs (loop_step ready l) es l' \<Longrightarrow> loop_runs l (Own ready # es) l'"
| runs_quit: "loop_runs (quit l) es l' \<Longrightarrow> loop_runs l (Quit # es) l'"
| runs_wakeup: "loop_runs (wakeup l) es l' \<Longrightarrow> loop_runs l (Wakeup # es) l'"

inductive_cases loop_runs_elims:
  "loop_runs l [] l'" "loop_runs l (Own ready # es) l'" "loop_runs l (Quit # es) l'"
  "loop_runs l (Wakeup # es) l'"

inductive_simps loop_runs_simps:
  "loop_runs l [] l'" "loop_runs l (Own ready # es) l'" "loop_runs l (Quit # es) l'"
  "loop_runs l (Wakeup # es) l'"

text \<open>How many statements the loop thread has left once \<^verbatim>\<open>mRunning\<close> is false.\<close>

fun pc_left :: "addr list \<Rightarrow> loop_pc \<Rightarrow> nat" where
  "pc_left ready AtStart = 0"
| "pc_left ready AtTest = 1"
| "pc_left ready InPoll = length ready + 3"
| "pc_left ready (DoingEvents as) = length as + 2"
| "pc_left ready Returned = 0"

definition own_steps :: "loop_event list \<Rightarrow> addr list list" where
  "own_steps es = concat (map (\<lambda>e. case e of Own r \<Rightarrow> [r] | _ \<Rightarrow> []) es)"

lemma own_steps_simps [simp]:
  "own_steps [] = []" "own_steps (Own r # es) = r # own_steps es"
  "own_steps (Quit # es) = own_steps es" "own_steps (Wakeup # es) = own_steps es"
  by (simp_all add: own_steps_def)

lemma other_thread [simp]:
  "el_pc (wakeup l) = el_pc l" "mRunning (wakeup l) = mRunning l"
  "el_pc (quit l) = el_pc l" "\<not> mRunning (quit l)"
  by (simp_all add: wakeup_def quit_def)

lemma returned_stays: "loop_runs l es l' \<Longrightarrow> el_pc l = Returned \<Longrightarrow> el_pc l' = Returned"
  by (induction rule: loop_runs.induct) (simp_all add: loop_step_def)

text \<open>Once \<^verbatim>\<open>mRunning\<close> is false after the start, \<^verbatim>\<open>loop\<close> returns after the handlers it holds.\<close>

lemma stops_after_false:
  "loop_runs l es l' \<Longrightarrow> \<not> mRunning l \<Longrightarrow> el_pc l \<noteq> AtStart \<Longrightarrow>
   \<forall>r\<in>set (own_steps es). length r \<le> m \<Longrightarrow>
   pc_left (replicate m 0) (el_pc l) \<le> length (own_steps es) \<Longrightarrow> el_pc l' = Returned"
proof (induction rule: loop_runs.induct)
  case (runs_nil l)
  then show ?case by (cases "el_pc l") auto
next
  case (runs_own ready l es l')
  show ?case
  proof (cases "el_pc l")
    case Returned
    have "loop_runs l (Own ready # es) l'"
      using runs_own.hyps by (rule loop_runs.runs_own)
    then show ?thesis using Returned by (rule returned_stays)
  next
    case AtTest
    then have "el_pc (loop_step ready l) = Returned"
      using runs_own.prems by (simp add: loop_step_def)
    then show ?thesis using runs_own.hyps(2) returned_stays by blast
  next
    case (DoingEvents as)
    then show ?thesis using runs_own
      by (cases as) (simp_all add: loop_step_def do_handler_def nap_def Let_def split: if_splits)
  next
    case InPoll
    then show ?thesis using runs_own by (simp add: loop_step_def)
  next
    case AtStart
    then show ?thesis using runs_own by simp
  qed
qed simp_all

lemma runs_without_quit:
  "loop_runs l es l' \<Longrightarrow> Quit \<notin> set es \<Longrightarrow> mRunning l \<or> el_pc l = AtStart \<Longrightarrow> el_pc l \<noteq> Returned \<Longrightarrow>
   el_pc l' \<noteq> Returned \<and> (mRunning l' \<longleftrightarrow> mRunning l \<or> own_steps es \<noteq> [])"
proof (induction rule: loop_runs.induct)
  case (runs_own ready l es l')
  have "mRunning (loop_step ready l) \<and> el_pc (loop_step ready l) \<noteq> Returned"
    using runs_own.prems
    by (auto simp: loop_step_def do_handler_def nap_def Let_def split: loop_pc.splits list.splits)
  then show ?case using runs_own by simp
qed auto



text \<open>
  A \<^verbatim>\<open>quit\<close> that comes before the new thread has entered \<^verbatim>\<open>loop\<close> is lost, because \<^verbatim>\<open>loop\<close> sets
  \<^verbatim>\<open>mRunning\<close> itself: without a second \<^verbatim>\<open>quit\<close> the loop runs for ever and \<^verbatim>\<open>~EventLoopThread\<close>
  waits in \<^verbatim>\<open>join\<close>.
\<close>

theorem early_quit_lost:
  assumes "loop_runs (quit (new_EventLoop w)) es l'" and "Quit \<notin> set es"
  shows "el_pc l' \<noteq> Returned \<and> (mRunning l' \<longleftrightarrow> own_steps es \<noteq> [])"
  using runs_without_quit [OF assms]
  by (simp add: new_EventLoop_def quit_def wakeup_def)

theorem early_quit_lost_witness:
  "mRunning (sys_loop_step (Own []) (sys_loop_step (Own [7]) (sys_loop_step (Own [])
     (sys_loop_step (Own []) (quit (new_EventLoop 7))))))"
  using early_quit_lost [where w = 7 and es = "[Own [], Own [], Own [7], Own []]"
      and l' = "sys_loop_step (Own []) (sys_loop_step (Own [7]) (sys_loop_step (Own [])
     (sys_loop_step (Own []) (quit (new_EventLoop 7)))))"]
  by (simp add: loop_runs_simps poll_ok_def sys_loop_step_def loop_step_def quit_def wakeup_def
       new_EventLoop_def)

section \<open>EventLoopThreadpool\<close>

text \<open>
  \<open>None\<close> is an empty \<^verbatim>\<open>std::unique_ptr\<close>. \<open>et_events\<close> is \<^verbatim>\<open>getEventSize()\<close>, \<open>et_lastRate\<close> the
  bit pattern of \<^verbatim>\<open>getLastRate()\<close>. An index is an \<^verbatim>\<open>int\<close>; the number of hardware threads bounds it
  far below \<open>2\<^sup>3\<^sup>1\<close>, so it is written as \<^typ>\<open>int\<close>.
\<close>

record loop_thread =
  et_looping :: bool
  et_events :: nat
  et_lastRate :: f64
  et_id :: nat
  et_added :: "addr list"

record loop_pool =
  lp_mThreadNum :: nat
  lp_mNextIndex :: nat
  lp_mEventLoopThreads :: "loop_thread option list"

definition new_loop_thread :: "nat \<Rightarrow> loop_thread" where
  "new_loop_thread tid =
     \<lparr>et_looping = False, et_events = 1, et_lastRate = 0, et_id = tid, et_added = []\<rparr>"

text \<open>The constructor starts \<open>num\<close> threads; only \<^verbatim>\<open>mThreadNum\<close> is limited by the hardware.\<close>

definition new_EventLoopThreadpool :: "nat \<Rightarrow> nat \<Rightarrow> loop_pool" where
  "new_EventLoopThreadpool hardwareNum num =
     \<lparr>lp_mThreadNum = (if num > hardwareNum then hardwareNum else num), lp_mNextIndex = 0,
      lp_mEventLoopThreads = map (\<lambda>i. Some (new_loop_thread i)) [0..<num]\<rparr>"

definition thread_at :: "nat \<Rightarrow> loop_pool \<Rightarrow> loop_thread option result" where
  "thread_at i p =
     (if i < length (lp_mEventLoopThreads p) then Inr (lp_mEventLoopThreads p ! i) else Inl OutOfRange)"

definition isInactive :: "nat \<Rightarrow> loop_pool \<Rightarrow> bool result" where
  "isInactive i p =
     rbind (thread_at i p) (\<lambda>t. Inr (case t of None \<Rightarrow> True | Some th \<Rightarrow> \<not> et_looping th))"

definition getEventLoop :: "int \<Rightarrow> loop_pool \<Rightarrow> loop_thread option result" where
  "getEventLoop index p =
     (if index < 0 \<or> nat index \<ge> lp_mThreadNum p then Inr None
      else rbind (thread_at (nat index) p)
        (\<lambda>t. case t of None \<Rightarrow> Inl NullDereference | Some th \<Rightarrow> Inr (Some th)))"

fun getEventLoop_tid :: "nat \<Rightarrow> loop_thread option list \<Rightarrow> loop_thread option result" where
  "getEventLoop_tid tid [] = Inr None"
| "getEventLoop_tid tid (None # ts) = Inl NullDereference"
| "getEventLoop_tid tid (Some th # ts) =
     (if et_id th = tid then Inr (Some th) else getEventLoop_tid tid ts)"

text \<open>The ids of all threads, also of those above \<open>lp_mThreadNum\<close>.\<close>

fun getEventLoopThreadIDs :: "loop_thread option list \<Rightarrow> nat list result" where
  "getEventLoopThreadIDs [] = Inr []"
| "getEventLoopThreadIDs (None # ts) = Inl NullDereference"
| "getEventLoopThreadIDs (Some th # ts) = rbind (getEventLoopThreadIDs ts) (\<lambda>ids. Inr (et_id th # ids))"

lemma all_thread_ids [simp]:
  "getEventLoopThreadIDs (map (\<lambda>i. Some (new_loop_thread (f i))) xs) = Inr (map f xs)"
  by (induction xs) (simp_all add: new_loop_thread_def)

text \<open>The \<^verbatim>\<open>for\<close> loop of \<^verbatim>\<open>roundRobinIndex\<close>: \<open>k\<close> iterations are left, \<open>i\<close> is the next index.\<close>

fun roundRobin_loop :: "nat \<Rightarrow> nat \<Rightarrow> loop_pool \<Rightarrow> (int \<times> loop_pool) result" where
  "roundRobin_loop 0 i p = Inr (-1, p)"
| "roundRobin_loop (Suc k) i p =
     (if lp_mThreadNum p = 0 then Inl DivideByZero
      else rbind (isInactive (i mod lp_mThreadNum p) p) (\<lambda>inactive.
        if \<not> inactive then Inr (int (i mod lp_mThreadNum p), p)
        else roundRobin_loop k (i + 1)
          (p\<lparr>lp_mNextIndex := (lp_mNextIndex p + 1) mod lp_mThreadNum p\<rparr>)))"

definition roundRobinIndex :: "loop_pool \<Rightarrow> (int \<times> loop_pool) result" where
  "roundRobinIndex p =
     (let tmp = wrap64 (lp_mNextIndex p + 1);
          next = (if tmp = lp_mThreadNum p then 0 else tmp) in
      roundRobin_loop (wrap64 (tmp + lp_mThreadNum p) - next) next (p\<lparr>lp_mNextIndex := next\<rparr>))"

fun fewerEvents_loop :: "nat list \<Rightarrow> nat \<Rightarrow> int \<Rightarrow> loop_pool \<Rightarrow> int result" where
  "fewerEvents_loop [] fewer res p = Inr res"
| "fewerEvents_loop (i # is) fewer res p =
     rbind (thread_at i p) (\<lambda>t.
       case t of
         Some th \<Rightarrow>
           if et_looping th \<and> fewer > et_events th then fewerEvents_loop is (et_events th) (int i) p
           else fewerEvents_loop is fewer res p
       | None \<Rightarrow> fewerEvents_loop is fewer res p)"

definition fewerEventsIndex :: "loop_pool \<Rightarrow> int result" where
  "fewerEventsIndex p = fewerEvents_loop [0..<lp_mThreadNum p] (2 ^ 64 - 1) (-1) p"

text \<open>\<^verbatim>\<open><\<close> on \<^verbatim>\<open>double\<close>: sign and magnitude, false on a NaN; \<^verbatim>\<open>max()\<close> of \<^verbatim>\<open>double\<close>.\<close>

definition double_magnitude :: "f64 \<Rightarrow> nat" where
  "double_magnitude w = unat w mod 2 ^ 63"

definition double_key :: "f64 \<Rightarrow> int" where
  "double_key w =
     (if unat w < 2 ^ 63 then int (double_magnitude w) else - int (double_magnitude w))"

definition double_less :: "f64 \<Rightarrow> f64 \<Rightarrow> bool" where
  "double_less a b =
     (double_magnitude a \<le> 0x7FF0000000000000 \<and> double_magnitude b \<le> 0x7FF0000000000000 \<and>
      double_key a < double_key b)"

definition DOUBLE_MAX :: f64 where
  "DOUBLE_MAX = 0x7FEFFFFFFFFFFFFF"

fun fasterHandled_loop :: "nat list \<Rightarrow> f64 \<Rightarrow> int \<Rightarrow> loop_pool \<Rightarrow> int result" where
  "fasterHandled_loop [] faster res p = Inr res"
| "fasterHandled_loop (i # is) faster res p =
     rbind (thread_at i p) (\<lambda>t.
       case t of
         Some th \<Rightarrow>
           if et_looping th \<and> double_less (et_lastRate th) faster
           then fasterHandled_loop is (et_lastRate th) (int i) p
           else fasterHandled_loop is faster res p
       | None \<Rightarrow> fasterHandled_loop is faster res p)"

definition fasterHandledIndex :: "loop_pool \<Rightarrow> int result" where
  "fasterHandledIndex p = fasterHandled_loop [0..<lp_mThreadNum p] DOUBLE_MAX (-1) p"

datatype distribution_type = DEFAULT | ROUND_ROBIN | FEWER_EVENTS | FASTER_HANDLED

definition getDesiredIndex :: "distribution_type \<Rightarrow> loop_pool \<Rightarrow> (int \<times> loop_pool) result" where
  "getDesiredIndex which p =
     (if which = DEFAULT \<or> which = ROUND_ROBIN then roundRobinIndex p
      else if which = FEWER_EVENTS then rbind (fewerEventsIndex p) (\<lambda>i. Inr (i, p))
      else if which = FASTER_HANDLED then rbind (fasterHandledIndex p) (\<lambda>i. Inr (i, p))
      else Inr (-1, p))"

text \<open>\<^verbatim>\<open>EventLoopThread::addEvent\<close> on the chosen thread; \<open>fresh\<close>: the descriptor was not registered.\<close>

definition addEvent :: "addr \<Rightarrow> bool \<Rightarrow> loop_thread \<Rightarrow> loop_thread" where
  "addEvent a fresh th =
     th\<lparr>et_events := (if fresh then et_events th + 1 else et_events th), et_added := et_added th @ [a]\<rparr>"

definition distributionEvent ::
  "addr \<Rightarrow> bool \<Rightarrow> distribution_type \<Rightarrow> loop_pool \<Rightarrow> (bool \<times> loop_pool) result"
where
  "distributionEvent a fresh which p =
     rbind (getDesiredIndex which p) (\<lambda>(index, p).
       if index \<ge> 0 then
         rbind (thread_at (nat index) p) (\<lambda>t.
           case t of
             None \<Rightarrow> Inl NullDereference
           | Some th \<Rightarrow>
               Inr (True, p\<lparr>lp_mEventLoopThreads :=
                 (lp_mEventLoopThreads p)[nat index := Some (addEvent a fresh th)]\<rparr>))
       else Inr (False, p))"

subsection \<open>Round robin\<close>

definition active :: "loop_pool \<Rightarrow> nat \<Rightarrow> bool" where
  "active p i = (case lp_mEventLoopThreads p ! i of None \<Rightarrow> False | Some th \<Rightarrow> et_looping th)"

definition pool_ok :: "loop_pool \<Rightarrow> bool" where
  "pool_ok p = (0 < lp_mThreadNum p \<and> lp_mThreadNum p < 2 ^ 32 \<and> lp_mNextIndex p < lp_mThreadNum p \<and>
     lp_mThreadNum p \<le> length (lp_mEventLoopThreads p))"

lemma new_pool_ok:
  "0 < num \<Longrightarrow> 0 < hw \<Longrightarrow> hw < 2 ^ 32 \<Longrightarrow> pool_ok (new_EventLoopThreadpool hw num)"
  by (auto simp: pool_ok_def new_EventLoopThreadpool_def)

lemma active_next [simp]: "active (p\<lparr>lp_mNextIndex := m\<rparr>) = active p"
  by (rule ext) (simp add: active_def)

lemma isInactive_active [step_simps]:
  "i < length (lp_mEventLoopThreads p) \<Longrightarrow> isInactive i p = Inr (\<not> active p i)"
  by (simp add: isInactive_def thread_at_def active_def split: option.splits)

lemma roundRobin_loop_finds:
  "d < k \<Longrightarrow> 0 < lp_mThreadNum p \<Longrightarrow> lp_mThreadNum p \<le> length (lp_mEventLoopThreads p) \<Longrightarrow>
   active p ((i + d) mod lp_mThreadNum p) \<Longrightarrow> \<forall>e<d. \<not> active p ((i + e) mod lp_mThreadNum p) \<Longrightarrow>
   lp_mNextIndex p = i mod lp_mThreadNum p \<Longrightarrow>
   roundRobin_loop k i p =
     Inr (int ((i + d) mod lp_mThreadNum p), p\<lparr>lp_mNextIndex := (i + d) mod lp_mThreadNum p\<rparr>)"
proof (induction k arbitrary: d i p)
  case 0
  then show ?case by simp
next
  case (Suc k)
  have lt: "i mod lp_mThreadNum p < length (lp_mEventLoopThreads p)"
    using Suc.prems(2,3) mod_less_divisor order_less_le_trans by blast
  show ?case
  proof (cases d)
    case 0
    then show ?thesis using Suc.prems lt by (simp add: isInactive_active)
  next
    case (Suc d')
    let ?p = "p\<lparr>lp_mNextIndex := Suc (i mod lp_mThreadNum p) mod lp_mThreadNum p\<rparr>"
    have sh: "\<not> active p ((Suc i + e) mod lp_mThreadNum p)" if "e < d'" for e
      using Suc.prems(5) Suc that by (metis Suc_mono add_Suc_right add_Suc)
    have "\<not> active p (i mod lp_mThreadNum p)"
      using Suc.prems(5) Suc by (metis add_0_right zero_less_Suc)
    then have "roundRobin_loop (Suc k) i p = roundRobin_loop k (Suc i) ?p"
      using Suc.prems lt by (simp add: isInactive_active)
    also have "\<dots> = Inr (int ((Suc i + d') mod lp_mThreadNum p), ?p\<lparr>lp_mNextIndex := (Suc i + d') mod lp_mThreadNum p\<rparr>)"
      using Suc.IH [of d' ?p "Suc i"] Suc.prems Suc sh by (simp add: mod_Suc_eq)
    finally show ?thesis using Suc by simp
  qed
qed

lemma roundRobin_loop_none:
  "0 < lp_mThreadNum p \<Longrightarrow> lp_mThreadNum p \<le> length (lp_mEventLoopThreads p) \<Longrightarrow>
   \<forall>j<lp_mThreadNum p. \<not> active p j \<Longrightarrow>
   \<exists>nx. roundRobin_loop k i p = Inr (-1, p\<lparr>lp_mNextIndex := nx\<rparr>) \<and>
     (lp_mNextIndex p < lp_mThreadNum p \<longrightarrow> nx < lp_mThreadNum p)"
proof (induction k arbitrary: i p)
  case 0
  then show ?case by (intro exI [of _ "lp_mNextIndex p"]) simp
next
  case (Suc k)
  let ?p = "p\<lparr>lp_mNextIndex := Suc (lp_mNextIndex p) mod lp_mThreadNum p\<rparr>"
  have lt: "i mod lp_mThreadNum p < lp_mThreadNum p" using Suc.prems(1) by simp
  have "roundRobin_loop (Suc k) i p = roundRobin_loop k (Suc i) ?p"
    using Suc.prems lt by (simp add: isInactive_active)
  then show ?case using Suc.IH [of ?p "Suc i"] Suc.prems by auto
qed

text \<open>The index after \<open>s\<close>, in cyclic order, of the first active loop.\<close>

lemma first_active:
  assumes "active p j" and "j < n"
  obtains d where "d < n" and "active p ((s + d) mod n)" and "\<forall>e<d. \<not> active p ((s + e) mod n)"
proof -
  let ?P = "\<lambda>d. active p ((s + d) mod n)"
  let ?d = "(j + (n - s mod n)) mod n"
  have "(s + ?d) mod n = (s mod n + (j + (n - s mod n))) mod n"
    by (simp add: mod_simps)
  also have "s mod n + (j + (n - s mod n)) = j + n"
    using mod_less_divisor [of n s] assms(2) by linarith
  finally have "?P ?d" using assms by simp
  then have least: "?P (LEAST d. ?P d)" by (rule LeastI)
  have "(LEAST d. ?P d) \<le> ?d" using \<open>?P ?d\<close> by (rule Least_le)
  moreover have "?d < n" using assms(2) by simp
  ultimately have "(LEAST d. ?P d) < n" by linarith
  then show thesis using that least not_less_Least by blast
qed

lemma roundRobinIndex_unfold:
  assumes "pool_ok p"
  obtains k nx where "lp_mThreadNum p \<le> k" and "nx mod lp_mThreadNum p = nx"
    and "nx = (lp_mNextIndex p + 1) mod lp_mThreadNum p"
    and "roundRobinIndex p = roundRobin_loop k nx (p\<lparr>lp_mNextIndex := nx\<rparr>)"
proof -
  let ?n = "lp_mThreadNum p"
  have ok: "0 < ?n" "?n < 4294967296" "lp_mNextIndex p < ?n"
    using assms by (auto simp: pool_ok_def)
  show thesis
  proof (cases "lp_mNextIndex p + 1 = ?n")
    case True
    then have "roundRobinIndex p = roundRobin_loop (2 * ?n) 0 (p\<lparr>lp_mNextIndex := 0\<rparr>)"
      using ok by (simp add: roundRobinIndex_def Let_def mult_2)
    then show thesis using that [of "2 * ?n" 0] True by simp
  next
    case False
    then have "roundRobinIndex p =
        roundRobin_loop ?n (lp_mNextIndex p + 1) (p\<lparr>lp_mNextIndex := lp_mNextIndex p + 1\<rparr>)"
      using ok by (simp add: roundRobinIndex_def Let_def)
    then show thesis using that [of ?n "lp_mNextIndex p + 1"] False ok by simp
  qed
qed

text \<open>
  C36. \<^verbatim>\<open>roundRobinIndex\<close> on a pool with at least one thread never throws and never divides by zero;
  when some loop is running it returns the first running one after \<^verbatim>\<open>mNextIndex\<close> in cyclic order
  and remembers it, and it returns -1 exactly when none is running. Repeated calls thus spread
  connections over all running loops.
\<close>

theorem round_robin_next_active:
  assumes "pool_ok p"
  shows "\<exists>r p'. roundRobinIndex p = Inr (r, p') \<and> pool_ok p' \<and>
    lp_mEventLoopThreads p' = lp_mEventLoopThreads p \<and> lp_mThreadNum p' = lp_mThreadNum p \<and>
    (if \<exists>j<lp_mThreadNum p. active p j
     then \<exists>d<lp_mThreadNum p. r = int (lp_mNextIndex p') \<and>
        lp_mNextIndex p' = (lp_mNextIndex p + 1 + d) mod lp_mThreadNum p \<and>
        active p (lp_mNextIndex p') \<and>
        (\<forall>e<d. \<not> active p ((lp_mNextIndex p + 1 + e) mod lp_mThreadNum p))
     else r = -1)"
proof -
  let ?n = "lp_mThreadNum p"
  obtain k nx where k: "?n \<le> k" and nxm: "nx mod ?n = nx"
    and nx: "nx = (lp_mNextIndex p + 1) mod ?n"
    and rr: "roundRobinIndex p = roundRobin_loop k nx (p\<lparr>lp_mNextIndex := nx\<rparr>)"
    using roundRobinIndex_unfold [OF assms] by blast
  have ok: "0 < ?n" "?n \<le> length (lp_mEventLoopThreads p)" using assms by (auto simp: pool_ok_def)
  have shift: "(nx + e) mod ?n = (lp_mNextIndex p + 1 + e) mod ?n" for e
    unfolding nx by (rule mod_add_left_eq)
  show ?thesis
  proof (cases "\<exists>j<?n. active p j")
    case True
    then obtain d where d: "d < ?n" "active p ((nx + d) mod ?n)" "\<forall>e<d. \<not> active p ((nx + e) mod ?n)"
      using first_active by metis
    have "roundRobinIndex p = Inr (int ((nx + d) mod ?n), p\<lparr>lp_mNextIndex := (nx + d) mod ?n\<rparr>)"
      using rr roundRobin_loop_finds [of d k "p\<lparr>lp_mNextIndex := nx\<rparr>" nx] d k ok nxm by simp
    then show ?thesis
      using True d ok assms by (auto simp: pool_ok_def shift)
  next
    case False
    then obtain m where "roundRobinIndex p = Inr (-1, p\<lparr>lp_mNextIndex := m\<rparr>)" "m < ?n"
      using rr roundRobin_loop_none [of "p\<lparr>lp_mNextIndex := nx\<rparr>" k nx] ok nxm
      by auto (metis mod_less_divisor)
    then show ?thesis using False assms by (auto simp: pool_ok_def)
  qed
qed

definition demo_pool :: loop_pool where
  "demo_pool = (new_EventLoopThreadpool 8 3)
     \<lparr>lp_mEventLoopThreads := [Some ((new_loop_thread 0)\<lparr>et_looping := True\<rparr>),
        Some (new_loop_thread 1), Some ((new_loop_thread 2)\<lparr>et_looping := True\<rparr>)]\<rparr>"

theorem round_robin_next_active_witness:
  "\<exists>r p'. roundRobinIndex demo_pool = Inr (r, p') \<and> r = 2 \<and> lp_mNextIndex p' = 2"
proof -
  have ok: "pool_ok demo_pool"
    by (simp add: pool_ok_def demo_pool_def new_EventLoopThreadpool_def)
  obtain r p' where "roundRobinIndex demo_pool = Inr (r, p')"
    using round_robin_next_active [OF ok] by (elim exE conjE)
  moreover have "roundRobinIndex demo_pool = roundRobin_loop 3 1 (demo_pool\<lparr>lp_mNextIndex := 1\<rparr>)"
    by (simp add: demo_pool_def new_EventLoopThreadpool_def roundRobinIndex_def Let_def)
  moreover have "\<dots> = Inr (2, demo_pool\<lparr>lp_mNextIndex := 2\<rparr>)"
    unfolding numeral_3_eq_3
    by (simp add: demo_pool_def new_EventLoopThreadpool_def isInactive_def thread_at_def
        new_loop_thread_def numeral_2_eq_2)
  ultimately show ?thesis by simp
qed

end
