(* ===== verification/Redis_Client.thy ===== *)
theory Redis_Client
  imports Prelude "HOL-Library.List_Lexorder" "HOL-Library.Char_ord"
begin

text \<open>
  \<^verbatim>\<open>Broker/RSBrokerHelper.h\<close>: the calls of the servers on redis, with the exceptions they turn
  into results and the ones they let through.

  Redis itself is not part of the repository. It is a parameter \<open>srv\<close> of every operation: a
  function from the commands sent so far and the next command to the reply, so that any server
  state, and whatever other clients do, is some \<open>srv\<close>. An operation takes the list of commands
  sent so far and returns its result with the longer list. No law about \<open>srv\<close> is assumed.
\<close>

section \<open>Commands and replies\<close>

type_synonym item = "string \<times> (string \<times> string) list option"
type_synonym items = "item list"

text \<open>\<^verbatim>\<open>PendingItemType\<close>: id, consumer, idle milliseconds, deliveries. Of \<^verbatim>\<open>GroupInfoType\<close> and
  \<^verbatim>\<open>ConsumerInfoType\<close> the values, without the field names redis repeats in the reply.\<close>

record pending_item =
  pi_id :: string
  pi_consumer :: string
  pi_idle :: int
  pi_delivered :: int

record group_info =
  gi_name :: string
  gi_consumers :: int
  gi_pending :: int

record consumer_info =
  ci_name :: string
  ci_pending :: int
  ci_idle :: int

datatype redis_command =
    XADD string string "(string \<times> string) list" nat bool
  | XREADGROUP string string string string nat nat
  | XREAD "(string \<times> string) list" nat nat
  | XGROUP_CREATE string string string bool
  | XACK string string string
  | XPENDING string string string string nat "string option"
  | XINFO_GROUPS string
  | XINFO_CONSUMERS string string
  | XDEL string "string list"
  | XCLAIM string string string nat "string list"
  | XREVRANGE string string string nat
  | ZADD string string f64
  | ZREM string string
  | SMEMBERS string
  | EXISTS string
  | SREM string string
  | PUBLISH string string
  | SET string string
  | ZRANGEBYSCORE string
  | SADD string string
  | HSET string "(string \<times> string) list"
  | EXPIRE string nat
  | INCR string
  | HGET string string
  | HGETALL string
  | UNLINK string
  | TTL string

text \<open>\<open>ErrorReply\<close> raises \<^verbatim>\<open>sw::redis::ReplyError\<close>; \<open>Broken\<close> any other \<^verbatim>\<open>sw::redis::Error\<close> (a lost
  connection, a timeout); so does a reply of the wrong type.\<close>

datatype redis_reply =
    ErrorReply
  | Broken
  | IntReply int
  | StringReply string
  | KeysReply "string list"
  | ItemsReply items
  | StreamsReply "(string \<times> items) list"
  | PendingReply "pending_item list"
  | GroupsReply "group_info list"
  | ConsumersReply "consumer_info list"
  | MembersReply "(string \<times> f64) list"
  | FieldsReply "(string \<times> string) list"
  | NilReply
  | OkReply

type_synonym redis = "redis_command list \<Rightarrow> redis_command \<Rightarrow> redis_reply"
type_synonym log = "redis_command list"

fun as_int :: "redis_reply \<Rightarrow> int option" where
  "as_int (IntReply n) = Some n" | "as_int _ = None"

fun as_string :: "redis_reply \<Rightarrow> string option" where
  "as_string (StringReply s) = Some s" | "as_string _ = None"

fun as_keys :: "redis_reply \<Rightarrow> string list option" where
  "as_keys (KeysReply ks) = Some ks" | "as_keys _ = None"

fun as_items :: "redis_reply \<Rightarrow> items option" where
  "as_items (ItemsReply is) = Some is" | "as_items _ = None"

fun as_streams :: "redis_reply \<Rightarrow> (string \<times> items) list option" where
  "as_streams (StreamsReply s) = Some s" | "as_streams _ = None"

fun as_pending :: "redis_reply \<Rightarrow> pending_item list option" where
  "as_pending (PendingReply p) = Some p" | "as_pending _ = None"

fun as_groups :: "redis_reply \<Rightarrow> group_info list option" where
  "as_groups (GroupsReply g) = Some g" | "as_groups _ = None"

fun as_consumers :: "redis_reply \<Rightarrow> consumer_info list option" where
  "as_consumers (ConsumersReply c) = Some c" | "as_consumers _ = None"

fun as_members :: "redis_reply \<Rightarrow> (string \<times> f64) list option" where
  "as_members (MembersReply ms) = Some ms" | "as_members _ = None"

fun as_fields :: "redis_reply \<Rightarrow> (string \<times> string) list option" where
  "as_fields (FieldsReply fs) = Some fs" | "as_fields _ = None"

text \<open>\<^verbatim>\<open>OptionalString\<close>: the value may be missing.\<close>

fun as_optional_string :: "redis_reply \<Rightarrow> string option option" where
  "as_optional_string (StringReply s) = Some (Some s)"
| "as_optional_string NilReply = Some None"
| "as_optional_string _ = None"

text \<open>A call that lets the exception through, and one that catches it.\<close>

definition call :: "(redis_reply \<Rightarrow> 'a option) \<Rightarrow> redis_command \<Rightarrow> redis \<Rightarrow> log \<Rightarrow> 'a result \<times> log" where
  "call sel cmd srv log =
     (case sel (srv log cmd) of None \<Rightarrow> Inl RedisError | Some x \<Rightarrow> Inr x, log @ [cmd])"

definition try_call :: "(redis_reply \<Rightarrow> 'a option) \<Rightarrow> redis_command \<Rightarrow> redis \<Rightarrow> log \<Rightarrow> 'a option \<times> log" where
  "try_call sel cmd srv log = (sel (srv log cmd), log @ [cmd])"

lemma call_Inr: "call sel cmd srv log = (Inr x, log') \<longleftrightarrow> sel (srv log cmd) = Some x \<and> log' = log @ [cmd]"
  by (auto simp: call_def split: option.splits)

lemma call_log [simp]: "snd (call sel cmd srv log) = log @ [cmd]"
  by (simp add: call_def)

lemma try_call_log [simp]: "snd (try_call sel cmd srv log) = log @ [cmd]"
  by (simp add: try_call_def)

section \<open>RSBrokerHelper\<close>

definition push :: "string \<Rightarrow> (string \<times> string) list \<Rightarrow> nat \<Rightarrow> redis \<Rightarrow> log \<Rightarrow> string \<times> log" where
  "push key kvs maxLen srv log =
     (case try_call as_string (XADD key ''*'' kvs maxLen True) srv log of
        (None, log) \<Rightarrow> ('''', log)
      | (Some ident, log) \<Rightarrow> (ident, log))"

text \<open>Inserting the streams of a reply into the \<^verbatim>\<open>unordered_map\<close> keeps the first of a key.\<close>

fun insert_streams :: "(string \<times> items) list \<Rightarrow> (string \<times> items) list \<Rightarrow> (string \<times> items) list" where
  "insert_streams result [] = result"
| "insert_streams result ((key, is) # streams) =
     insert_streams (if key \<in> fst ` set result then result else result @ [(key, is)]) streams"

text \<open>The three \<^verbatim>\<open>pull\<close>s: the number of streams, if there was no error, and the streams; a read
  that times out gives no stream.\<close>

definition pulled ::
  "redis_command \<Rightarrow> redis \<Rightarrow> log \<Rightarrow> (nat option \<times> (string \<times> items) list) \<times> log"
where
  "pulled cmd srv log =
     (case try_call as_streams cmd srv log of
        (None, log) \<Rightarrow> ((None, []), log)
      | (Some streams, log) \<Rightarrow>
          (let result = insert_streams [] streams in ((Some (length result), result), log)))"

definition pull_group ::
  "string \<Rightarrow> string \<Rightarrow> string \<Rightarrow> string \<Rightarrow> nat \<Rightarrow> nat \<Rightarrow> redis \<Rightarrow> log \<Rightarrow>
   (nat option \<times> (string \<times> items) list) \<times> log"
where
  "pull_group key grp consumer ident ms count = pulled (XREADGROUP grp consumer key ident ms count)"

definition pull_key ::
  "string \<Rightarrow> string \<Rightarrow> nat \<Rightarrow> nat \<Rightarrow> redis \<Rightarrow> log \<Rightarrow> (nat option \<times> (string \<times> items) list) \<times> log"
where
  "pull_key key ident ms count = pulled (XREAD [(key, ident)] ms count)"

definition pull_keys ::
  "(string \<times> string) list \<Rightarrow> nat \<Rightarrow> nat \<Rightarrow> redis \<Rightarrow> log \<Rightarrow>
   (nat option \<times> (string \<times> items) list) \<times> log"
where
  "pull_keys keys ms count = pulled (XREAD keys ms count)"

text \<open>An error reply (the group exists already) still counts as success.\<close>

definition createGroup :: "string \<Rightarrow> string \<Rightarrow> string \<Rightarrow> redis \<Rightarrow> log \<Rightarrow> bool \<times> log" where
  "createGroup key grp ident srv log =
     (let cmd = XGROUP_CREATE key grp ident True in
      (srv log cmd = OkReply \<or> srv log cmd = ErrorReply, log @ [cmd]))"

definition ack :: "string \<Rightarrow> string \<Rightarrow> string \<Rightarrow> redis \<Rightarrow> log \<Rightarrow> int result \<times> log" where
  "ack key grp ident = call as_int (XACK key grp ident)"

definition getPending_all ::
  "string \<Rightarrow> string \<Rightarrow> nat \<Rightarrow> redis \<Rightarrow> log \<Rightarrow> pending_item list option \<times> log"
where
  "getPending_all key grp count = try_call as_pending (XPENDING key grp ''-'' ''+'' count None)"

definition getPending ::
  "string \<Rightarrow> string \<Rightarrow> string \<Rightarrow> nat \<Rightarrow> redis \<Rightarrow> log \<Rightarrow> pending_item list option \<times> log"
where
  "getPending key grp consumer count =
     try_call as_pending (XPENDING key grp ''-'' ''+'' count (Some consumer))"

definition getGroupsInfo :: "string \<Rightarrow> redis \<Rightarrow> log \<Rightarrow> group_info list option \<times> log" where
  "getGroupsInfo key = try_call as_groups (XINFO_GROUPS key)"

definition getConsumersInfo ::
  "string \<Rightarrow> string \<Rightarrow> redis \<Rightarrow> log \<Rightarrow> consumer_info list option \<times> log"
where
  "getConsumersInfo key grp = try_call as_consumers (XINFO_CONSUMERS key grp)"

definition del :: "string \<Rightarrow> string \<Rightarrow> redis \<Rightarrow> log \<Rightarrow> int result \<times> log" where
  "del key ident = call as_int (XDEL key [ident])"

definition del_all :: "string \<Rightarrow> string list \<Rightarrow> redis \<Rightarrow> log \<Rightarrow> int result \<times> log" where
  "del_all key ids = call as_int (XDEL key ids)"

definition claim ::
  "string \<Rightarrow> string \<Rightarrow> string \<Rightarrow> nat \<Rightarrow> string \<Rightarrow> redis \<Rightarrow> log \<Rightarrow> items option \<times> log"
where
  "claim key grp consumer ms ident = try_call as_items (XCLAIM key grp consumer ms [ident])"

definition claim_all ::
  "string \<Rightarrow> string \<Rightarrow> string \<Rightarrow> nat \<Rightarrow> string list \<Rightarrow> redis \<Rightarrow> log \<Rightarrow> items option \<times> log"
where
  "claim_all key grp consumer ms ids = try_call as_items (XCLAIM key grp consumer ms ids)"

text \<open>\<^verbatim>\<open>std::min\<close> on strings compares them byte by byte.\<close>

definition getPreviousID :: "string \<Rightarrow> string \<Rightarrow> redis \<Rightarrow> log \<Rightarrow> string result \<times> log" where
  "getPreviousID key ident srv log =
     (case call as_items (XREVRANGE key ident ''-'' 2) srv log of
        (Inl e, log) \<Rightarrow> (Inl e, log)
      | (Inr result, log) \<Rightarrow>
          if length result < 2 then (Inr '''', log)
          else (Inr (if fst (result ! 1) < fst (result ! 0) then fst (result ! 1) else fst (result ! 0)), log))"

definition sortedAdd :: "string \<Rightarrow> string \<Rightarrow> f64 \<Rightarrow> redis \<Rightarrow> log \<Rightarrow> int \<times> log" where
  "sortedAdd key member score srv log =
     (case try_call as_int (ZADD key member score) srv log of
        (None, log) \<Rightarrow> (-1, log)
      | (Some n, log) \<Rightarrow> (n, log))"

definition sortedRemove :: "string \<Rightarrow> string \<Rightarrow> redis \<Rightarrow> log \<Rightarrow> int \<times> log" where
  "sortedRemove key member srv log =
     (case try_call as_int (ZREM key member) srv log of
        (None, log) \<Rightarrow> (-1, log)
      | (Some n, log) \<Rightarrow> (n, log))"

lemmas helper_defs = push_def pulled_def pull_group_def pull_key_def pull_keys_def createGroup_def
  ack_def getPending_all_def getPending_def getGroupsInfo_def getConsumersInfo_def del_def
  del_all_def claim_def claim_all_def sortedAdd_def sortedRemove_def

text \<open>
  \<^verbatim>\<open>getPreviousID\<close> compares the two ids as strings: it returns the previous id exactly when
  that id is the smaller string, so for the ids 7-9 and 7-10 it returns the id it was given.
\<close>

theorem previous_id_by_string_order:
  assumes "srv log (XREVRANGE key newer ''-'' 2) = ItemsReply [(newer, v), (previous, w)]"
  shows "fst (getPreviousID key newer srv log) = Inr previous \<longleftrightarrow> previous \<le> newer"
  using assms by (auto simp: getPreviousID_def call_def)

theorem previous_id_by_string_order_witness:
  "fst (getPreviousID ''k'' ''7-10'' (\<lambda>log cmd. ItemsReply [(''7-10'', None), (''7-9'', None)]) [])
     \<noteq> Inr ''7-9''"
  by (subst previous_id_by_string_order [where v = None and w = None])
     (simp_all add: less_eq_list_code less_eq_char_def)

end
