(* ===== verification/Broker_Manager.thy ===== *)
theory Broker_Manager
  imports Redis_Client
begin

text \<open>
  \<^verbatim>\<open>Broker/RSBrokerManager.{h,cpp}\<close>: the process that looks after messages which were delivered to
  a consumer of a stream group and never acknowledged. Each round asks redis for the groups with
  pending messages, then for their consumers, then for the pending messages of each consumer, and
  acknowledges, deletes or transfers them.

  \<^verbatim>\<open>std::set<std::string>\<close> is a strictly increasing list; \<^verbatim>\<open>long long\<close> is \<^typ>\<open>int\<close>, with its
  conversion to \<^verbatim>\<open>size_t\<close> written out.
\<close>

section \<open>State and settings\<close>

fun set_insert :: "'a::linorder \<Rightarrow> 'a list \<Rightarrow> 'a list" where
  "set_insert x [] = [x]"
| "set_insert x (y # ys) = (if x < y then x # y # ys else if x = y then y # ys else y # set_insert x ys)"

lemma set_set_insert [simp, queue_simps]: "set (set_insert x xs) = insert x (set xs)"
  by (induction xs) auto

definition size_of_ll :: "int \<Rightarrow> nat" where
  "size_of_ll n = nat (n mod 2 ^ 64)"

record broker_manager =
  mNapMilliseconds :: nat
  mTolerantMilliseconds :: nat
  mTransferMilliseconds :: nat
  mMaxDelivered :: nat
  mKeys :: "string list"
  mPendingGroupQueue :: "(string \<times> string) list"
  mPendingConsumerQueue :: "(string \<times> string \<times> string \<times> nat) list"
  mPendingGroupsSibling :: "string \<rightharpoonup> string list"

definition new_RSBrokerManager :: broker_manager where
  "new_RSBrokerManager =
     \<lparr>mNapMilliseconds = 1000, mTolerantMilliseconds = 10000, mTransferMilliseconds = 5000,
      mMaxDelivered = 3, mKeys = [], mPendingGroupQueue = [], mPendingConsumerQueue = [],
      mPendingGroupsSibling = Map.empty\<rparr>"

definition setNapSecond :: "nat \<Rightarrow> broker_manager \<Rightarrow> broker_manager" where
  "setNapSecond ms m = m\<lparr>mNapMilliseconds := (if ms > 10 then ms else 1000)\<rparr>"

definition setTolerantTime :: "nat \<Rightarrow> broker_manager \<Rightarrow> broker_manager" where
  "setTolerantTime ms m = m\<lparr>mTolerantMilliseconds := (if ms \<ge> 8000 then ms else 10000)\<rparr>"

definition setTransferTime :: "nat \<Rightarrow> broker_manager \<Rightarrow> broker_manager" where
  "setTransferTime ms m = m\<lparr>mTransferMilliseconds := (if ms > 1000 then ms else 1000)\<rparr>"

definition setMaxDelivered :: "nat \<Rightarrow> broker_manager \<Rightarrow> broker_manager" where
  "setMaxDelivered n m = m\<lparr>mMaxDelivered := (if n \<ge> 3 then n else 3)\<rparr>"

definition registerKey :: "string \<Rightarrow> broker_manager \<Rightarrow> bool \<times> broker_manager" where
  "registerKey key m = (key \<notin> set (mKeys m), m\<lparr>mKeys := set_insert key (mKeys m)\<rparr>)"

section \<open>One round\<close>

text \<open>One group of the reply; \<^verbatim>\<open>insert_or_assign\<close> gives it an empty set of siblings.\<close>

definition note_group :: "string \<Rightarrow> group_info \<Rightarrow> broker_manager \<Rightarrow> broker_manager" where
  "note_group key g m =
     (let m = (if gi_pending g > 0
               then m\<lparr>mPendingGroupQueue := mPendingGroupQueue m @ [(key, gi_name g)]\<rparr> else m) in
      m\<lparr>mPendingGroupsSibling := (mPendingGroupsSibling m)(gi_name g \<mapsto> [])\<rparr>)"

definition pushPendingGroups ::
  "string \<Rightarrow> redis \<Rightarrow> broker_manager \<times> log \<Rightarrow> broker_manager \<times> log"
where
  "pushPendingGroups key srv s =
     (case getGroupsInfo key srv (snd s) of
        (None, log) \<Rightarrow> (fst s, log)
      | (Some groupsInfo, log) \<Rightarrow> (fold (note_group key) groupsInfo (fst s), log))"

definition note_consumer ::
  "string \<Rightarrow> string \<Rightarrow> consumer_info \<Rightarrow> broker_manager \<Rightarrow> broker_manager"
where
  "note_consumer key grp c m =
     (let m = (if ci_pending c > 0
               then m\<lparr>mPendingConsumerQueue :=
                 mPendingConsumerQueue m @ [(key, grp, ci_name c, size_of_ll (ci_pending c))]\<rparr> else m) in
      case mPendingGroupsSibling m grp of
        None \<Rightarrow> m
      | Some sibs \<Rightarrow>
          m\<lparr>mPendingGroupsSibling := (mPendingGroupsSibling m)(grp \<mapsto> set_insert (ci_name c) sibs)\<rparr>)"

definition pushPendingConsumers ::
  "string \<Rightarrow> string \<Rightarrow> redis \<Rightarrow> broker_manager \<times> log \<Rightarrow> broker_manager \<times> log"
where
  "pushPendingConsumers key grp srv s =
     (case getConsumersInfo key grp srv (snd s) of
        (None, log) \<Rightarrow> (fst s, log)
      | (Some consumersInfo, log) \<Rightarrow> (fold (note_consumer key grp) consumersInfo (fst s), log))"

text \<open>The empty string when there is none.\<close>

definition getOneSibling :: "string \<Rightarrow> string \<Rightarrow> broker_manager \<Rightarrow> string" where
  "getOneSibling grp consumer m =
     (case mPendingGroupsSibling m grp of
        None \<Rightarrow> ''''
      | Some sibs \<Rightarrow> (case List.find (\<lambda>c. c \<noteq> consumer) sibs of None \<Rightarrow> '''' | Some c \<Rightarrow> c))"

definition dead :: "broker_manager \<Rightarrow> pending_item \<Rightarrow> bool" where
  "dead m it = (size_of_ll (pi_delivered it) > mMaxDelivered m)"

definition expired :: "broker_manager \<Rightarrow> pending_item \<Rightarrow> bool" where
  "expired m it = (size_of_ll (pi_idle it) > mTolerantMilliseconds m)"

definition transferable :: "broker_manager \<Rightarrow> pending_item \<Rightarrow> bool" where
  "transferable m it = (size_of_ll (pi_idle it) > mTransferMilliseconds m)"

text \<open>The body of the innermost loop. \<^verbatim>\<open>ack\<close> and \<^verbatim>\<open>del\<close> let exceptions of redis through.\<close>

definition handle_item ::
  "string \<Rightarrow> string \<Rightarrow> broker_manager \<Rightarrow> redis \<Rightarrow> pending_item \<Rightarrow> log \<Rightarrow> unit result \<times> log"
where
  "handle_item key grp m srv it log =
     (if dead m it then
        (case ack key grp (pi_id it) srv log of
           (Inl e, log) \<Rightarrow> (Inl e, log)
         | (Inr _, log) \<Rightarrow>
             (case del key (pi_id it) srv log of (Inl e, log) \<Rightarrow> (Inl e, log) | (Inr _, log) \<Rightarrow> (Inr (), log)))
      else if expired m it then
        (case ack key grp (pi_id it) srv log of (Inl e, log) \<Rightarrow> (Inl e, log) | (Inr _, log) \<Rightarrow> (Inr (), log))
      else if transferable m it then
        (let sibling = getOneSibling grp (pi_consumer it) m in
         if sibling \<noteq> ''''
         then (Inr (), snd (claim key grp sibling (mTransferMilliseconds m) (pi_id it) srv log))
         else (Inr (), log))
      else (Inr (), log))"

fun handle_items ::
  "string \<Rightarrow> string \<Rightarrow> broker_manager \<Rightarrow> redis \<Rightarrow> pending_item list \<Rightarrow> log \<Rightarrow> unit result \<times> log"
where
  "handle_items key grp m srv [] log = (Inr (), log)"
| "handle_items key grp m srv (it # its) log =
     (case handle_item key grp m srv it log of
        (Inl e, log) \<Rightarrow> (Inl e, log)
      | (Inr _, log) \<Rightarrow> handle_items key grp m srv its log)"

lemma pushPendingConsumers_groups [simp]:
  "mPendingGroupQueue (fst (pushPendingConsumers key grp srv s)) = mPendingGroupQueue (fst s)"
proof -
  have "mPendingGroupQueue (fold (note_consumer key grp) cs m) = mPendingGroupQueue m" for cs m
    by (induction cs arbitrary: m) (simp_all add: note_consumer_def Let_def split: option.splits)
  then show ?thesis by (simp add: pushPendingConsumers_def split: prod.splits option.splits)
qed

function group_loop :: "redis \<Rightarrow> broker_manager \<times> log \<Rightarrow> broker_manager \<times> log" where
  "group_loop srv s =
     (case mPendingGroupQueue (fst s) of
        [] \<Rightarrow> s
      | (key, grp) # _ \<Rightarrow>
          (let (m, log) = pushPendingConsumers key grp srv s in
           group_loop srv (m\<lparr>mPendingGroupQueue := tl (mPendingGroupQueue m)\<rparr>, log)))"
  by pat_completeness auto
termination
proof (relation "measure (\<lambda>(srv, s). length (mPendingGroupQueue (fst s)))")
  fix srv s x21 x22 key grp p m log
  assume q: "mPendingGroupQueue (fst s) = x21 # x22"
    and p: "(p :: broker_manager \<times> log) = pushPendingConsumers key grp srv s" "(m, log) = p"
  then have "mPendingGroupQueue m = x21 # x22"
    by (metis fst_conv pushPendingConsumers_groups)
  then show "((srv, m\<lparr>mPendingGroupQueue := tl (mPendingGroupQueue m)\<rparr>, log), srv, s)
      \<in> measure (\<lambda>(srv, s). length (mPendingGroupQueue (fst s)))"
    using q by simp
qed simp

function consumer_loop :: "redis \<Rightarrow> broker_manager \<times> log \<Rightarrow> unit result \<times> broker_manager \<times> log" where
  "consumer_loop srv s =
     (case mPendingConsumerQueue (fst s) of
        [] \<Rightarrow> (Inr (), s)
      | (key, grp, consumer, pendingNum) # queue \<Rightarrow>
          (case (case getPending key grp consumer pendingNum srv (snd s) of
                   (None, log) \<Rightarrow> (Inr (), log)
                 | (Some its, log) \<Rightarrow> handle_items key grp (fst s) srv its log) of
             (Inl e, log) \<Rightarrow> (Inl e, fst s, log)
           | (Inr _, log) \<Rightarrow> consumer_loop srv ((fst s)\<lparr>mPendingConsumerQueue := queue\<rparr>, log)))"
  by pat_completeness auto
termination
  by (relation "measure (\<lambda>(srv, s). length (mPendingConsumerQueue (fst s)))") auto

declare group_loop.simps [simp del] consumer_loop.simps [simp del]

definition handlePending ::
  "redis \<Rightarrow> broker_manager \<times> log \<Rightarrow> unit result \<times> broker_manager \<times> log"
where
  "handlePending srv s =
     consumer_loop srv (group_loop srv (fold (\<lambda>key. pushPendingGroups key srv) (mKeys (fst s)) s))"

section \<open>What a round may send\<close>

text \<open>\<open>seen\<close>: the reply came to the command within this round, which began after \<open>start\<close> commands.\<close>

definition seen :: "nat \<Rightarrow> redis \<Rightarrow> log \<Rightarrow> redis_command \<Rightarrow> redis_reply \<Rightarrow> bool" where
  "seen start srv past cmd reply =
     (\<exists>a b. past = a @ cmd # b \<and> start \<le> length a \<and> srv a cmd = reply)"

lemma seen_append: "seen start srv past cmd reply \<Longrightarrow> seen start srv (past @ later) cmd reply"
  unfolding seen_def by fastforce

lemma seen_now: "start \<le> length past \<Longrightarrow> srv past cmd = reply \<Longrightarrow> seen start srv (past @ [cmd]) cmd reply"
  unfolding seen_def by blast

text \<open>\<open>reported\<close>: redis listed the item as pending for the group.\<close>

definition reported :: "nat \<Rightarrow> redis \<Rightarrow> log \<Rightarrow> string \<Rightarrow> string \<Rightarrow> pending_item \<Rightarrow> bool" where
  "reported start srv past key grp it =
     (\<exists>n c its. seen start srv past (XPENDING key grp ''-'' ''+'' n (Some c)) (PendingReply its) \<and> it \<in> set its)"

definition member :: "nat \<Rightarrow> redis \<Rightarrow> log \<Rightarrow> string \<Rightarrow> string \<Rightarrow> bool" where
  "member start srv past grp c =
     (\<exists>key cs. seen start srv past (XINFO_CONSUMERS key grp) (ConsumersReply cs) \<and> c \<in> ci_name ` set cs)"

lemma reported_append: "reported start srv past key grp it \<Longrightarrow> reported start srv (past @ later) key grp it"
  unfolding reported_def using seen_append by blast

lemma member_append: "member start srv past grp c \<Longrightarrow> member start srv (past @ later) grp c"
  unfolding member_def using seen_append by blast

fun allowed :: "broker_manager \<Rightarrow> nat \<Rightarrow> redis \<Rightarrow> log \<Rightarrow> redis_command \<Rightarrow> bool" where
  "allowed m start srv past (XINFO_GROUPS key) = True"
| "allowed m start srv past (XINFO_CONSUMERS key grp) = True"
| "allowed m start srv past (XPENDING key grp lo hi n c) = True"
| "allowed m start srv past (XACK key grp i) =
     (\<exists>it. reported start srv past key grp it \<and> pi_id it = i \<and> (dead m it \<or> expired m it))"
| "allowed m start srv past (XDEL key is) =
     (\<exists>grp it. reported start srv past key grp it \<and> is = [pi_id it] \<and> dead m it \<and>
        (\<exists>a. past = a @ [XACK key grp (pi_id it)]))"
| "allowed m start srv past (XCLAIM key grp c ms is) =
     (\<exists>it. reported start srv past key grp it \<and> is = [pi_id it] \<and> \<not> dead m it \<and> \<not> expired m it \<and>
        transferable m it \<and> ms = mTransferMilliseconds m \<and> c \<noteq> pi_consumer it \<and>
        member start srv past grp c)"
| "allowed m start srv past _ = False"

definition justified :: "broker_manager \<Rightarrow> nat \<Rightarrow> redis \<Rightarrow> log \<Rightarrow> bool" where
  "justified m start srv log =
     (start \<le> length log \<and>
      (\<forall>a cmd b. log = a @ cmd # b \<longrightarrow> start \<le> length a \<longrightarrow> allowed m start srv a cmd))"

lemma justified_start: "justified m (length log) srv log"
  by (simp add: justified_def)

lemma justified_snoc:
  assumes "justified m start srv log" and "allowed m start srv log cmd"
  shows "justified m start srv (log @ [cmd])"
  using assms unfolding justified_def
  by (auto simp: append_eq_append_conv2 Cons_eq_append_conv append_eq_Cons_conv)

text \<open>The settings never change in a round.\<close>

definition same_settings :: "broker_manager \<Rightarrow> broker_manager \<Rightarrow> bool" where
  "same_settings m m' =
     (mMaxDelivered m' = mMaxDelivered m \<and> mTolerantMilliseconds m' = mTolerantMilliseconds m \<and>
      mTransferMilliseconds m' = mTransferMilliseconds m)"

lemma same_settings_refl [simp]: "same_settings m m"
  by (simp add: same_settings_def)

lemma same_settings_limits:
  "same_settings m m' \<Longrightarrow> dead m' = dead m \<and> expired m' = expired m \<and> transferable m' = transferable m"
  by (auto simp: same_settings_def dead_def expired_def transferable_def fun_eq_iff)

text \<open>The siblings known for a queued group were reported in this round.\<close>

definition queued_groups :: "broker_manager \<Rightarrow> string set" where
  "queued_groups m =
     snd ` set (mPendingGroupQueue m) \<union> (\<lambda>(k, g, _). g) ` set (mPendingConsumerQueue m)"

definition siblings_ok :: "nat \<Rightarrow> redis \<Rightarrow> log \<Rightarrow> broker_manager \<Rightarrow> bool" where
  "siblings_ok start srv log m =
     (\<forall>g\<in>queued_groups m. \<forall>ss. mPendingGroupsSibling m g = Some ss \<longrightarrow> (\<forall>c\<in>set ss. member start srv log g c))"

definition round_inv :: "broker_manager \<Rightarrow> nat \<Rightarrow> redis \<Rightarrow> broker_manager \<times> log \<Rightarrow> bool" where
  "round_inv m0 start srv s =
     (same_settings m0 (fst s) \<and> justified m0 start srv (snd s) \<and> siblings_ok start srv (snd s) (fst s))"

lemma siblings_ok_append:
  "siblings_ok start srv log m \<Longrightarrow> siblings_ok start srv (log @ later) m"
  unfolding siblings_ok_def using member_append by blast

lemma note_group_inv:
  "siblings_ok start srv log m \<Longrightarrow> same_settings m0 m \<Longrightarrow>
   siblings_ok start srv log (note_group key g m) \<and> same_settings m0 (note_group key g m)"
  by (auto simp: siblings_ok_def note_group_def queued_groups_def same_settings_def Let_def)

lemma fold_note_group_inv:
  "siblings_ok start srv log m \<Longrightarrow> same_settings m0 m \<Longrightarrow>
   siblings_ok start srv log (fold (note_group key) gs m) \<and> same_settings m0 (fold (note_group key) gs m)"
  by (induction gs arbitrary: m) (simp_all add: note_group_inv)

lemma pushPendingGroups_inv:
  assumes "round_inv m0 start srv s"
  shows "round_inv m0 start srv (pushPendingGroups key srv s)"
proof -
  have inv: "same_settings m0 (fst s)" "siblings_ok start srv (snd s @ [XINFO_GROUPS key]) (fst s)"
    "justified m0 start srv (snd s @ [XINFO_GROUPS key])"
    using assms siblings_ok_append justified_snoc by (auto simp: round_inv_def)
  then show ?thesis
    using fold_note_group_inv [OF inv(2,1)]
    by (auto simp: pushPendingGroups_def getGroupsInfo_def try_call_def round_inv_def split: option.splits)
qed

lemma note_consumer_inv:
  "siblings_ok start srv log m \<Longrightarrow> same_settings m0 m \<Longrightarrow> g \<in> queued_groups m \<Longrightarrow>
   member start srv log g (ci_name c) \<Longrightarrow>
   siblings_ok start srv log (note_consumer key g c m) \<and> same_settings m0 (note_consumer key g c m) \<and>
   g \<in> queued_groups (note_consumer key g c m)"
  by (auto simp: siblings_ok_def note_consumer_def queued_groups_def same_settings_def Let_def
      split: option.splits if_splits)

lemma fold_note_consumer_inv:
  "siblings_ok start srv log m \<Longrightarrow> same_settings m0 m \<Longrightarrow> g \<in> queued_groups m \<Longrightarrow>
   \<forall>c\<in>set cs. member start srv log g (ci_name c) \<Longrightarrow>
   siblings_ok start srv log (fold (note_consumer key g) cs m) \<and>
   same_settings m0 (fold (note_consumer key g) cs m)"
  by (induction cs arbitrary: m) (simp_all add: note_consumer_inv)

lemma pushPendingConsumers_inv:
  assumes "round_inv m0 start srv s" and "g \<in> queued_groups (fst s)"
  shows "round_inv m0 start srv (pushPendingConsumers key g srv s)"
proof (cases "as_consumers (srv (snd s) (XINFO_CONSUMERS key g))")
  case None
  then show ?thesis
    using assms siblings_ok_append justified_snoc
    by (auto simp: round_inv_def pushPendingConsumers_def getConsumersInfo_def try_call_def)
next
  case (Some cs)
  let ?log = "snd s @ [XINFO_CONSUMERS key g]"
  have reply: "srv (snd s) (XINFO_CONSUMERS key g) = ConsumersReply cs"
    using Some by (cases "srv (snd s) (XINFO_CONSUMERS key g)") auto
  have "start \<le> length (snd s)" using assms(1) by (simp add: round_inv_def justified_def)
  then have "\<forall>c\<in>set cs. member start srv ?log g (ci_name c)"
    using seen_now [of start "snd s" srv "XINFO_CONSUMERS key g"] reply
    unfolding member_def by blast
  then show ?thesis
    using assms Some fold_note_consumer_inv [of start srv ?log "fst s" m0 g cs key]
      siblings_ok_append justified_snoc
    by (auto simp: round_inv_def pushPendingConsumers_def getConsumersInfo_def try_call_def)
qed

lemma set_tl_subset: "set (tl q) \<subseteq> set q"
  by (cases q) auto

lemma queued_groups_tl:
  "queued_groups (m\<lparr>mPendingGroupQueue := tl (mPendingGroupQueue m)\<rparr>) \<subseteq> queued_groups m"
  "queued_groups (m\<lparr>mPendingConsumerQueue := tl (mPendingConsumerQueue m)\<rparr>) \<subseteq> queued_groups m"
  unfolding queued_groups_def by (intro Un_mono image_mono; simp add: set_tl_subset)+

lemma siblings_ok_subset:
  "siblings_ok start srv log m \<Longrightarrow> queued_groups m' \<subseteq> queued_groups m \<Longrightarrow>
   mPendingGroupsSibling m' = mPendingGroupsSibling m \<Longrightarrow> siblings_ok start srv log m'"
  by (auto simp: siblings_ok_def)

lemma group_loop_inv: "round_inv m0 start srv s \<Longrightarrow> round_inv m0 start srv (group_loop srv s)"
proof (induction srv s rule: group_loop.induct)
  case (1 srv s)
  show ?case
  proof (cases "mPendingGroupQueue (fst s)")
    case Nil
    then show ?thesis using 1 by (simp add: group_loop.simps)
  next
    case (Cons kg q)
    obtain key grp where kg: "kg = (key, grp)" by fastforce
    obtain m log where p: "pushPendingConsumers key grp srv s = (m, log)" by fastforce
    have "round_inv m0 start srv (m, log)"
      using pushPendingConsumers_inv [of m0 start srv s grp key] 1(2) Cons kg p
      by (simp add: queued_groups_def)
    then have "round_inv m0 start srv (m\<lparr>mPendingGroupQueue := tl (mPendingGroupQueue m)\<rparr>, log)"
      using siblings_ok_subset [OF _ queued_groups_tl(1) [of m]]
      by (simp add: round_inv_def same_settings_def)
    then show ?thesis
      using 1(1) Cons kg p by (simp add: group_loop.simps [of srv s])
  qed
qed

lemma find_sibling:
  "getOneSibling grp c m = sib \<Longrightarrow> sib \<noteq> '''' \<Longrightarrow>
   \<exists>ss. mPendingGroupsSibling m grp = Some ss \<and> sib \<in> set ss \<and> sib \<noteq> c"
  by (auto simp: getOneSibling_def find_Some_iff split: option.splits)

lemma handle_item_justified:
  assumes "round_inv m0 start srv (m, log)" and "grp \<in> queued_groups m"
    and "reported start srv log key grp it"
  shows "justified m0 start srv (snd (handle_item key grp m srv it log)) \<and>
    (\<exists>later. snd (handle_item key grp m srv it log) = log @ later)"
proof -
  have just: "justified m0 start srv log" and lim: "dead m = dead m0" "expired m = expired m0"
      "transferable m = transferable m0" "mTransferMilliseconds m = mTransferMilliseconds m0"
    and sib: "siblings_ok start srv log m"
    using assms(1) same_settings_limits [of m0 m] by (auto simp: round_inv_def same_settings_def)
  have ack: "justified m0 start srv (log @ [XACK key grp (pi_id it)])" if "dead m0 it \<or> expired m0 it"
    using justified_snoc [OF just, of "XACK key grp (pi_id it)"] assms(3) that by auto
  have del: "justified m0 start srv ((log @ [XACK key grp (pi_id it)]) @ [XDEL key [pi_id it]])" if "dead m0 it"
    using justified_snoc [OF ack, of "XDEL key [pi_id it]"] that
      reported_append [OF assms(3), of "[XACK key grp (pi_id it)]"] by auto
  have claim: "justified m0 start srv (log @ [XCLAIM key grp c (mTransferMilliseconds m0) [pi_id it]])"
    if "\<not> dead m0 it" "\<not> expired m0 it" "transferable m0 it"
      "getOneSibling grp (pi_consumer it) m = c" "c \<noteq> ''''" for c
  proof (rule justified_snoc [OF just])
    have "member start srv log grp c \<and> c \<noteq> pi_consumer it"
      using find_sibling [OF that(4,5)] sib assms(2) by (auto simp: siblings_ok_def)
    then show "allowed m0 start srv log (XCLAIM key grp c (mTransferMilliseconds m0) [pi_id it])"
      using that assms(3) by auto
  qed
  show ?thesis
    using ack del claim just
    by (auto simp: handle_item_def ack_def del_def claim_def call_def try_call_def lim Let_def
        split: option.splits)
qed

lemma handle_items_justified:
  "round_inv m0 start srv (m, log) \<Longrightarrow> grp \<in> queued_groups m \<Longrightarrow>
   \<forall>it\<in>set its. reported start srv log key grp it \<Longrightarrow>
   justified m0 start srv (snd (handle_items key grp m srv its log)) \<and>
   (\<exists>later. snd (handle_items key grp m srv its log) = log @ later)"
proof (induction its arbitrary: log)
  case Nil
  then show ?case by (simp add: round_inv_def)
next
  case (Cons it its)
  have just: "justified m0 start srv (snd (handle_item key grp m srv it log))"
    and ext: "\<exists>later. snd (handle_item key grp m srv it log) = log @ later"
    using handle_item_justified [of m0 start srv m log grp key it] Cons.prems by auto
  obtain r log' where h: "handle_item key grp m srv it log = (r, log')" by fastforce
  then obtain later where log': "log' = log @ later" using ext by auto
  have "round_inv m0 start srv (m, log')"
    using Cons.prems(1) just h log' siblings_ok_append by (simp add: round_inv_def)
  moreover have "\<forall>it\<in>set its. reported start srv log' key grp it"
    using Cons.prems(3) reported_append log' by auto
  ultimately show ?case
    using Cons.IH [of log'] Cons.prems(2) h just log' by (cases r) auto
qed

lemma consumer_loop_justified:
  "round_inv m0 start srv s \<Longrightarrow> justified m0 start srv (snd (snd (consumer_loop srv s)))"
proof (induction "mPendingConsumerQueue (fst s)" arbitrary: s)
  case Nil
  then show ?case by (simp add: consumer_loop.simps round_inv_def)
next
  case (Cons e queue)
  note queue = Cons.hyps(2) [symmetric]
  obtain key grp consumer n where e: "e = (key, grp, consumer, n)" by (metis prod_cases4)
  define cmd where "cmd = XPENDING key grp ''-'' ''+'' n (Some consumer)"
  let ?log = "snd s @ [cmd]"
  let ?m = "(fst s)\<lparr>mPendingConsumerQueue := queue\<rparr>"
  have inv: "round_inv m0 start srv (fst s, ?log)"
    using Cons.prems justified_snoc siblings_ok_append by (auto simp: round_inv_def cmd_def)
  have g: "grp \<in> queued_groups (fst s)" using queue e by (force simp: queued_groups_def)
  have next_inv: "round_inv m0 start srv (?m, log)"
    if just: "justified m0 start srv log" and ext: "\<exists>later. log = ?log @ later" for log
  proof -
    obtain later where log: "log = ?log @ later" using ext by blast
    have "siblings_ok start srv log (fst s)"
      using inv siblings_ok_append [of start srv ?log "fst s" later]
      by (simp add: round_inv_def log)
    then have "siblings_ok start srv log ?m"
      using queued_groups_tl(2) [of "fst s"] queue by (elim siblings_ok_subset) simp_all
    then show ?thesis using just inv by (simp add: round_inv_def same_settings_def)
  qed
  show ?case
  proof (cases "as_pending (srv (snd s) cmd)")
    case None
    then show ?thesis
      using Cons.hyps(1) [of "(?m, ?log)"] next_inv [of ?log] inv queue e
      by (simp add: consumer_loop.simps [of srv s] getPending_def try_call_def cmd_def round_inv_def)
  next
    case (Some its)
    have reply: "srv (snd s) cmd = PendingReply its"
      using Some by (cases "srv (snd s) cmd") auto
    have "start \<le> length (snd s)" using Cons.prems by (simp add: round_inv_def justified_def)
    then have rep: "\<forall>it\<in>set its. reported start srv ?log key grp it"
      using seen_now [of start "snd s" srv cmd] reply
      unfolding reported_def cmd_def by blast
    obtain r log where h: "handle_items key grp (fst s) srv its ?log = (r, log)" by fastforce
    have "justified m0 start srv log" "\<exists>later. log = ?log @ later"
      using handle_items_justified [OF inv g rep] h by auto
    then show ?thesis
      using Cons.hyps(1) [of "(?m, log)"] next_inv [of log] queue e Some h
      by (cases r) (auto simp: consumer_loop.simps [of srv s] getPending_def try_call_def cmd_def)
  qed
qed

section \<open>What a round achieves\<close>

fun is_pending_query :: "redis_command \<Rightarrow> bool" where
  "is_pending_query (XPENDING key grp lo hi n c) = True"
| "is_pending_query _ = False"

text \<open>\<open>done_for\<close>: the commands free the group of a dead or expired item; \<open>answered\<close>: the items a
  query returned are dealt with by the commands after it.\<close>

definition done_for :: "broker_manager \<Rightarrow> string \<Rightarrow> string \<Rightarrow> pending_item \<Rightarrow> log \<Rightarrow> bool" where
  "done_for m key grp it cmds =
     ((dead m it \<longrightarrow> XACK key grp (pi_id it) \<in> set cmds \<and> XDEL key [pi_id it] \<in> set cmds) \<and>
      (expired m it \<longrightarrow> XACK key grp (pi_id it) \<in> set cmds))"

fun answered :: "broker_manager \<Rightarrow> redis \<Rightarrow> log \<Rightarrow> redis_command \<Rightarrow> log \<Rightarrow> bool" where
  "answered m srv past (XPENDING key grp lo hi n c) future =
     (\<forall>its. srv past (XPENDING key grp lo hi n c) = PendingReply its \<longrightarrow>
        (\<forall>it\<in>set its. done_for m key grp it future))"
| "answered m srv past _ future = True"

definition settled :: "broker_manager \<Rightarrow> nat \<Rightarrow> redis \<Rightarrow> log \<Rightarrow> bool" where
  "settled m start srv log =
     (\<forall>i<length log. start \<le> i \<longrightarrow> answered m srv (take i log) (log ! i) (drop (Suc i) log))"

lemma answered_no_query [simp]: "\<not> is_pending_query cmd \<Longrightarrow> answered m srv past cmd future"
  by (cases cmd) auto

lemma answered_append: "answered m srv past cmd future \<Longrightarrow> answered m srv past cmd (future @ later)"
  by (cases cmd) (auto simp: done_for_def)

lemma settled_append:
  assumes "settled m start srv log" and "\<forall>cmd\<in>set later. \<not> is_pending_query cmd"
  shows "settled m start srv (log @ later)"
  using assms answered_append unfolding settled_def
  by (auto simp: nth_append not_less)

lemma settled_block:
  assumes "settled m start srv log" and "answered m srv log cmd later"
    and "\<forall>cmd\<in>set later. \<not> is_pending_query cmd"
  shows "settled m start srv (log @ cmd # later)"
proof -
  have "answered m srv (take i (log @ cmd # later)) ((log @ cmd # later) ! i) (drop (Suc i) (log @ cmd # later))"
    if i: "i < length (log @ cmd # later)" "start \<le> i" for i
  proof (cases i "length log" rule: linorder_cases)
    case less
    then show ?thesis
      using assms(1) that answered_append unfolding settled_def by (simp add: nth_append)
  next
    case equal
    then show ?thesis using assms(2) by simp
  next
    case greater
    then obtain j where j: "i = length log + Suc j"
      by (metis add_Suc_right less_imp_Suc_add)
    then have "j < length later" using i by simp
    then show ?thesis using assms(3) j by (simp add: nth_append)
  qed
  then show ?thesis unfolding settled_def by blast
qed

lemma fold_invariant: "P s \<Longrightarrow> (\<And>x s. P s \<Longrightarrow> P (f x s)) \<Longrightarrow> P (fold f xs s)"
  by (induction xs arbitrary: s) auto

lemma pushPendingGroups_settled:
  "settled m start srv (snd s) \<Longrightarrow> settled m start srv (snd (pushPendingGroups key srv s))"
  using settled_append [of m start srv "snd s" "[XINFO_GROUPS key]"]
  by (simp add: pushPendingGroups_def getGroupsInfo_def try_call_def split: option.splits)

lemma group_loop_settled:
  "settled m start srv (snd s) \<Longrightarrow> settled m start srv (snd (group_loop srv s))"
proof (induction srv s rule: group_loop.induct)
  case (1 srv s)
  have "settled m start srv (snd (pushPendingConsumers key grp srv s))" for key grp
    using settled_append [of m start srv "snd s" "[XINFO_CONSUMERS key grp]"] 1(2)
    by (simp add: pushPendingConsumers_def getConsumersInfo_def try_call_def split: option.splits)
  then show ?case
    using 1 by (auto simp: group_loop.simps [of srv s] split: list.splits prod.splits) (metis snd_conv)
qed

lemma handle_item_done:
  assumes "handle_item key grp m srv it log = (Inr (), log')"
  shows "\<exists>later. log' = log @ later \<and> (\<forall>cmd\<in>set later. \<not> is_pending_query cmd) \<and> done_for m key grp it later"
  using assms
  by (auto simp: handle_item_def ack_def del_def claim_def call_def try_call_def done_for_def Let_def
      split: if_splits option.splits)

lemma handle_items_done:
  "handle_items key grp m srv its log = (Inr (), log') \<Longrightarrow>
   \<exists>later. log' = log @ later \<and> (\<forall>cmd\<in>set later. \<not> is_pending_query cmd) \<and>
     (\<forall>it\<in>set its. done_for m key grp it later)"
proof (induction its arbitrary: log)
  case Nil
  then show ?case by simp
next
  case (Cons it its)
  obtain log1 where one: "handle_item key grp m srv it log = (Inr (), log1)"
    and rest: "handle_items key grp m srv its log1 = (Inr (), log')"
    using Cons.prems by (auto split: prod.splits sum.splits)
  obtain l1 l2 where l: "log1 = log @ l1" "\<forall>cmd\<in>set l1. \<not> is_pending_query cmd" "done_for m key grp it l1"
    "log' = log1 @ l2" "\<forall>cmd\<in>set l2. \<not> is_pending_query cmd" "\<forall>it\<in>set its. done_for m key grp it l2"
    using handle_item_done [OF one] Cons.IH [OF rest] by blast
  then have "log' = log @ (l1 @ l2) \<and> (\<forall>cmd\<in>set (l1 @ l2). \<not> is_pending_query cmd) \<and>
      (\<forall>it\<in>set (it # its). done_for m key grp it (l1 @ l2))"
    by (auto simp: done_for_def)
  then show ?case by blast
qed

lemma done_for_settings: "same_settings m0 m \<Longrightarrow> done_for m key grp it = done_for m0 key grp it"
  using same_settings_limits [of m0 m] by (auto simp: done_for_def fun_eq_iff)

lemma consumer_loop_settled:
  "settled m0 start srv (snd s) \<Longrightarrow> same_settings m0 (fst s) \<Longrightarrow> consumer_loop srv s = (Inr (), m', log') \<Longrightarrow>
   settled m0 start srv log' \<and> mPendingConsumerQueue m' = [] \<and>
   mPendingGroupQueue m' = mPendingGroupQueue (fst s)"
proof (induction "mPendingConsumerQueue (fst s)" arbitrary: s)
  case Nil
  then show ?case by (auto simp: consumer_loop.simps)
next
  case (Cons e queue)
  note queue = Cons.hyps(2) [symmetric]
  obtain key grp consumer n where e: "e = (key, grp, consumer, n)" by (metis prod_cases4)
  define cmd where "cmd = XPENDING key grp ''-'' ''+'' n (Some consumer)"
  let ?m = "(fst s)\<lparr>mPendingConsumerQueue := queue\<rparr>"
  obtain later where next_loop: "consumer_loop srv (?m, snd s @ cmd # later) = (Inr (), m', log')"
    and later: "\<forall>cmd\<in>set later. \<not> is_pending_query cmd" "answered m0 srv (snd s) cmd later"
  proof (cases "as_pending (srv (snd s) cmd)")
    case None
    then have "answered m0 srv (snd s) cmd []" by (auto simp: cmd_def)
    moreover have "consumer_loop srv (?m, snd s @ [cmd]) = (Inr (), m', log')"
      using Cons.prems(3) queue e None
      by (simp add: consumer_loop.simps [of srv s] getPending_def try_call_def cmd_def)
    ultimately show thesis using that [of "[]"] by simp
  next
    case (Some its)
    have reply: "srv (snd s) cmd = PendingReply its"
      using Some by (cases "srv (snd s) cmd") auto
    obtain log where h: "handle_items key grp (fst s) srv its (snd s @ [cmd]) = (Inr (), log)"
      and l: "consumer_loop srv (?m, log) = (Inr (), m', log')"
      using Cons.prems(3) queue e Some
      by (auto simp: consumer_loop.simps [of srv s] getPending_def try_call_def cmd_def
          split: prod.splits sum.splits)
    show thesis
      using that handle_items_done [OF h] l reply done_for_settings [OF Cons.prems(2)]
      by (auto simp: cmd_def)
  qed
  have "settled m0 start srv (snd (?m, snd s @ cmd # later))"
    using settled_block [OF Cons.prems(1) later(2,1)] by simp
  then show ?case
    using Cons.hyps(1) [of "(?m, snd s @ cmd # later)"] next_loop Cons.prems(2) by (simp add: same_settings_def)
qed

text \<open>The loops unfolded as far as their queues are known.\<close>

lemma group_loop_steps [step_simps]:
  "mPendingGroupQueue m = [] \<Longrightarrow> group_loop srv (m, log) = (m, log)"
  "mPendingGroupQueue m = (key, grp) # q \<Longrightarrow>
   group_loop srv (m, log) =
     (let (m, log) = pushPendingConsumers key grp srv (m, log) in
      group_loop srv (m\<lparr>mPendingGroupQueue := tl (mPendingGroupQueue m)\<rparr>, log))"
  by (simp_all add: group_loop.simps [of srv "(m, log)"])

lemma consumer_loop_steps [step_simps]:
  "mPendingConsumerQueue m = [] \<Longrightarrow> consumer_loop srv (m, log) = (Inr (), m, log)"
  "mPendingConsumerQueue m = (key, grp, consumer, n) # q \<Longrightarrow>
   consumer_loop srv (m, log) =
     (case (case getPending key grp consumer n srv log of
              (None, log) \<Rightarrow> (Inr (), log)
            | (Some its, log) \<Rightarrow> handle_items key grp m srv its log) of
        (Inl e, log) \<Rightarrow> (Inl e, m, log)
      | (Inr _, log) \<Rightarrow> consumer_loop srv (m\<lparr>mPendingConsumerQueue := q\<rparr>, log))"
  unfolding consumer_loop.simps [of srv "(m, log)"] fst_conv snd_conv by simp_all

lemma group_loop_empties: "mPendingGroupQueue (fst (group_loop srv s)) = []"
proof (induction "mPendingGroupQueue (fst s)" arbitrary: s)
  case Nil
  then show ?case by (simp add: group_loop.simps [of srv s])
next
  case (Cons e q)
  obtain key grp m log where e: "e = (key, grp)" and p: "pushPendingConsumers key grp srv s = (m, log)"
    by (metis surj_pair)
  have "mPendingGroupQueue m = e # q"
    using pushPendingConsumers_groups [of key grp srv s] Cons.hyps(2) p by simp
  then show ?case
    using Cons.hyps(1) [of "(m\<lparr>mPendingGroupQueue := q\<rparr>, log)"] Cons.hyps(2) [symmetric] e p
    by (simp add: group_loop.simps [of srv s])
qed

lemmas round_defs = handlePending_def registerKey_def new_RSBrokerManager_def pushPendingGroups_def
  getGroupsInfo_def try_call_def call_def note_group_def pushPendingConsumers_def
  getConsumersInfo_def note_consumer_def getPending_def handle_item_def dead_def expired_def
  transferable_def size_of_ll_def ack_def del_def claim_def getOneSibling_def Let_def
  less_eq_list_code less_list_code less_char_def

lemma round_inv_start:
  "mPendingGroupQueue m = [] \<Longrightarrow> mPendingConsumerQueue m = [] \<Longrightarrow> round_inv m (length log) srv (m, log)"
  by (simp add: round_inv_def justified_start siblings_ok_def queued_groups_def)

lemma queues_filled_inv:
  assumes "mPendingGroupQueue m = []" and "mPendingConsumerQueue m = []"
  shows "round_inv m (length log) srv
    (group_loop srv (fold (\<lambda>key. pushPendingGroups key srv) (mKeys m) (m, log)))"
proof (rule group_loop_inv, rule fold_invariant [where P = "round_inv m (length log) srv"])
  show "round_inv m (length log) srv (m, log)" using assms by (rule round_inv_start)
qed (rule pushPendingGroups_inv)

section \<open>The properties of a round\<close>

text \<open>
  C13. Every command of a round is justified by what redis answered in the same round: a message is
  acknowledged only if it was reported pending for that group and was delivered more than
  \<^verbatim>\<open>mMaxDelivered\<close> times or idle longer than \<^verbatim>\<open>mTolerantMilliseconds\<close>; it is deleted only in the
  first case and only right after its acknowledgement; it is claimed only if it is neither, has
  been idle longer than \<^verbatim>\<open>mTransferMilliseconds\<close>, and for another consumer that was reported for a
  group of that name. No other command that changes redis is sent, also when the round is cut
  short by an exception.
\<close>

theorem broker_commands_justified:
  assumes "mPendingGroupQueue m = []" and "mPendingConsumerQueue m = []"
  shows "justified m (length log) srv (snd (snd (handlePending srv (m, log))))"
  unfolding handlePending_def fst_conv
  by (rule consumer_loop_justified [OF queues_filled_inv [OF assms]])

definition demo_manager :: broker_manager where
  "demo_manager = snd (registerKey ''k'' new_RSBrokerManager)"

fun demo_redis :: redis where
  "demo_redis log (XINFO_GROUPS key) = GroupsReply [\<lparr>gi_name = ''g'', gi_consumers = 2, gi_pending = 2\<rparr>]"
| "demo_redis log (XINFO_CONSUMERS key grp) =
     ConsumersReply [\<lparr>ci_name = ''c2'', ci_pending = 0, ci_idle = 3\<rparr>, \<lparr>ci_name = ''c1'', ci_pending = 2, ci_idle = 3\<rparr>]"
| "demo_redis log (XPENDING key grp lo hi n c) =
     PendingReply [\<lparr>pi_id = ''1-0'', pi_consumer = ''c1'', pi_idle = 200, pi_delivered = 5\<rparr>,
       \<lparr>pi_id = ''2-0'', pi_consumer = ''c1'', pi_idle = 6000, pi_delivered = 1\<rparr>]"
| "demo_redis log cmd = IntReply 1"

lemma demo_round:
  "handlePending demo_redis (demo_manager, []) =
     (Inr (), demo_manager\<lparr>mPendingGroupsSibling := [''g'' \<mapsto> [''c1'', ''c2'']]\<rparr>,
      [XINFO_GROUPS ''k'', XINFO_CONSUMERS ''k'' ''g'', XPENDING ''k'' ''g'' ''-'' ''+'' 2 (Some ''c1''),
       XACK ''k'' ''g'' ''1-0'', XDEL ''k'' [''1-0''], XCLAIM ''k'' ''g'' ''c2'' 5000 [''2-0'']])"
  by (simp add: demo_manager_def round_defs step_simps)

theorem broker_commands_justified_witness:
  "justified demo_manager 0 demo_redis (snd (snd (handlePending demo_redis (demo_manager, [])))) \<and>
   XDEL ''k'' [''1-0''] \<in> set (snd (snd (handlePending demo_redis (demo_manager, []))))"
  using broker_commands_justified [of demo_manager "[]" demo_redis] demo_round
  by (simp add: demo_manager_def registerKey_def new_RSBrokerManager_def)

text \<open>
  C34. A round that redis does not interrupt resolves what it finds: every message reported pending
  that was delivered too often is acknowledged and deleted later in the round, every one that was
  idle too long is acknowledged, and both queues are empty again at the end.
\<close>

theorem pending_messages_resolved:
  assumes "mPendingGroupQueue m = []" and "mPendingConsumerQueue m = []"
    and "handlePending srv (m, log) = (Inr (), m', log')"
  shows "settled m (length log) srv log' \<and> mPendingGroupQueue m' = [] \<and> mPendingConsumerQueue m' = []"
proof -
  let ?s = "group_loop srv (fold (\<lambda>key. pushPendingGroups key srv) (mKeys m) (m, log))"
  have "settled m (length log) srv (snd (fold (\<lambda>key. pushPendingGroups key srv) (mKeys m) (m, log)))"
    by (rule fold_invariant) (simp_all add: settled_def [of m "length log" srv log] pushPendingGroups_settled)
  then have "settled m (length log) srv (snd ?s)" by (rule group_loop_settled)
  moreover have "same_settings m (fst ?s)"
    using queues_filled_inv [OF assms(1,2)] by (simp add: round_inv_def)
  ultimately show ?thesis
    using consumer_loop_settled [of m "length log" srv ?s m' log'] assms(3) group_loop_empties
    by (simp add: handlePending_def)
qed

theorem pending_messages_resolved_witness:
  "settled demo_manager 0 demo_redis (snd (snd (handlePending demo_redis (demo_manager, []))))"
  using pending_messages_resolved [OF _ _ demo_round] demo_round
  by (simp add: demo_manager_def registerKey_def new_RSBrokerManager_def)

text \<open>Two streams that have a group of the same name, each with its own consumer.\<close>

fun two_streams :: redis where
  "two_streams log (XINFO_GROUPS key) = GroupsReply [\<lparr>gi_name = ''g'', gi_consumers = 1, gi_pending = 1\<rparr>]"
| "two_streams log (XINFO_CONSUMERS key grp) =
     ConsumersReply [\<lparr>ci_name = (if key = ''k1'' then ''c1'' else ''c2''), ci_pending = 1, ci_idle = 3\<rparr>]"
| "two_streams log (XPENDING key grp lo hi n c) =
     PendingReply (if key = ''k1''
       then [\<lparr>pi_id = ''1-0'', pi_consumer = ''c1'', pi_idle = 6000, pi_delivered = 1\<rparr>] else [])"
| "two_streams log cmd = IntReply 1"

text \<open>
  The siblings are kept by group name alone, not by stream and group: when two streams have a
  group of the same name, a message of the first stream is transferred to a consumer that only
  reads the second.
\<close>

theorem sibling_of_other_stream:
  "XCLAIM ''k1'' ''g'' ''c2'' 5000 [''1-0''] \<in> set (snd (snd (handlePending two_streams
     (snd (registerKey ''k2'' (snd (registerKey ''k1'' new_RSBrokerManager))), []))))"
  by (simp add: round_defs step_simps)

end
