(* ===== verification/Service_Registry.thy ===== *)
theory Service_Registry
  imports Redis_Client
begin

text \<open>
  \<^verbatim>\<open>CenterServer/ServiceRegistry.h\<close> with the keys of \<^verbatim>\<open>CenterServConf.h\<close>: the loop of the center
  server. Every five seconds it reads the set of service keys and asks redis whether each key
  still exists (a service renews its key, which expires otherwise). It counts the misses of a
  service, removes it after three, and publishes what changed.

  The services are visited in the order of the reply; the order of an \<^verbatim>\<open>unordered_set\<close> is
  unspecified, and the reply is arbitrary.
\<close>

section \<open>Configuration and state\<close>

record center_conf =
  SERVICE_REGISTRY_ID_KEY :: string
  SERVICE_KEYS :: string
  GATEWAY_KEYS :: string
  GAME_KEYS :: string
  KEY_HEARTBEAT_MESSAGE :: string
  SERVICE_REGISTRY_CHANNEL :: string
  REGISTRY_CONN_HOST :: string
  REGISTRY_CONN_PORT :: int
  REGISTRY_CONN_PASSWORD :: string
  REGISTRY_CONN_DB :: int
  REGISTRY_CONN_POOL_SIZE :: int

definition CenterServConf :: center_conf where
  "CenterServConf =
     \<lparr>SERVICE_REGISTRY_ID_KEY = ''Warring:ServReg:IDSuffix'',
      SERVICE_KEYS = ''Warring:Service:KEYS'',
      GATEWAY_KEYS = ''Warring:Service:GATEWAYS'',
      GAME_KEYS = ''Warring:Service:GAMES'',
      KEY_HEARTBEAT_MESSAGE = ''SEND_HEARTBEAT'',
      SERVICE_REGISTRY_CHANNEL = ''Warring:ServReg:Channel'',
      REGISTRY_CONN_HOST = ''127.0.0.1'',
      REGISTRY_CONN_PORT = 6379,
      REGISTRY_CONN_PASSWORD = [],
      REGISTRY_CONN_DB = 0,
      REGISTRY_CONN_POOL_SIZE = 1\<rparr>"

text \<open>\<^verbatim>\<open>mServiceKeys\<close>: the services known, with the misses of each.\<close>

type_synonym registry = "string \<rightharpoonup> nat"

text \<open>The body of the loop over the service keys.\<close>

definition check_service ::
  "center_conf \<Rightarrow> redis \<Rightarrow> string \<Rightarrow> registry \<Rightarrow> log \<Rightarrow> registry result \<times> log"
where
  "check_service conf srv serviceKey reg log =
     and_then (call as_int (EXISTS serviceKey) srv log) (\<lambda>existed log.
       if existed = 1 then
         (if reg serviceKey = None
          then and_then
            (call as_int (PUBLISH (SERVICE_REGISTRY_CHANNEL conf) (''+'' @ serviceKey)) srv log)
            (\<lambda>_ log. (Inr (reg(serviceKey \<mapsto> 0)), log))
          else (Inr (reg(serviceKey \<mapsto> 0)), log))
       else
         (let misses = (case reg serviceKey of None \<Rightarrow> 0 | Some n \<Rightarrow> n) + 1 in
          if misses \<ge> 3 then
            and_then (call as_int (SREM (SERVICE_KEYS conf) serviceKey) srv log) (\<lambda>_ log.
            and_then (call as_int (ZREM (GATEWAY_KEYS conf) serviceKey) srv log) (\<lambda>_ log.
            and_then (call as_int (ZREM (GAME_KEYS conf) serviceKey) srv log) (\<lambda>_ log.
            and_then (call as_int (PUBLISH (SERVICE_REGISTRY_CHANNEL conf) (''-'' @ serviceKey)) srv log)
              (\<lambda>_ log. (Inr (reg(serviceKey := None)), log)))))
          else (Inr (reg(serviceKey \<mapsto> misses)), log)))"

fun check_services ::
  "center_conf \<Rightarrow> redis \<Rightarrow> string list \<Rightarrow> registry \<Rightarrow> log \<Rightarrow> registry result \<times> log"
where
  "check_services conf srv [] reg log = (Inr reg, log)"
| "check_services conf srv (k # ks) reg log =
     and_then (check_service conf srv k reg log) (\<lambda>reg log. check_services conf srv ks reg log)"

definition registry_round ::
  "center_conf \<Rightarrow> redis \<Rightarrow> registry \<Rightarrow> log \<Rightarrow> registry result \<times> log"
where
  "registry_round conf srv reg log =
     and_then (call as_keys (SMEMBERS (SERVICE_KEYS conf)) srv log) (\<lambda>keys log.
     and_then (check_services conf srv (remdups keys) reg log) (\<lambda>reg log.
     and_then (call as_int (PUBLISH (SERVICE_REGISTRY_CHANNEL conf) (KEY_HEARTBEAT_MESSAGE conf)) srv log)
       (\<lambda>_ log. (Inr reg, log))))"

text \<open>\<^verbatim>\<open>run\<close> is the endless loop; its first \<open>n\<close> rounds.\<close>

fun run_registry :: "nat \<Rightarrow> center_conf \<Rightarrow> redis \<Rightarrow> registry \<Rightarrow> log \<Rightarrow> registry result \<times> log" where
  "run_registry 0 conf srv reg log = (Inr reg, log)"
| "run_registry (Suc n) conf srv reg log =
     and_then (registry_round conf srv reg log) (\<lambda>reg log. run_registry n conf srv reg log)"

text \<open>\<^verbatim>\<open>initKeys\<close>; a \<^verbatim>\<open>SET\<close> that succeeds answers OK.\<close>

fun as_ok :: "redis_reply \<Rightarrow> unit option" where
  "as_ok OkReply = Some ()" | "as_ok _ = None"

definition initKeys :: "center_conf \<Rightarrow> string \<Rightarrow> redis \<Rightarrow> log \<Rightarrow> unit result \<times> log" where
  "initKeys conf mIDSuffix = call as_ok (SET (SERVICE_REGISTRY_ID_KEY conf) mIDSuffix)"

section \<open>Services are removed only after three misses\<close>

text \<open>The answers redis gave about a service, in order; \<open>None\<close> where the call threw.\<close>

definition answers :: "redis \<Rightarrow> string \<Rightarrow> log \<Rightarrow> int option list" where
  "answers srv k log =
     map (\<lambda>i. as_int (srv (take i log) (log ! i))) (filter (\<lambda>i. log ! i = EXISTS k) [0..<length log])"

lemma answers_Nil [simp]: "answers srv k [] = []"
  by (simp add: answers_def)

lemma answers_snoc [simp]:
  "answers srv k (log @ [cmd]) =
     answers srv k log @ (if cmd = EXISTS k then [as_int (srv log cmd)] else [])"
proof -
  have "filter (\<lambda>i. (log @ [cmd]) ! i = EXISTS k) [0..<length log] =
      filter (\<lambda>i. log ! i = EXISTS k) [0..<length log]"
    by (rule filter_cong) (auto simp: nth_append)
  then show ?thesis by (auto simp: answers_def nth_append)
qed

text \<open>The last \<open>n\<close> answers were misses.\<close>

definition missed :: "redis \<Rightarrow> string \<Rightarrow> nat \<Rightarrow> log \<Rightarrow> bool" where
  "missed srv k n log =
     (n \<le> length (answers srv k log) \<and> Some 1 \<notin> set (take n (rev (answers srv k log))))"

lemma missed_0 [simp]: "missed srv k 0 log"
  by (simp add: missed_def)

lemma missed_other: "missed srv k n log \<Longrightarrow> cmd \<noteq> EXISTS k \<Longrightarrow> missed srv k n (log @ [cmd])"
  by (simp add: missed_def)

lemma missed_Suc:
  "missed srv k n log \<Longrightarrow> as_int (srv log (EXISTS k)) \<noteq> Some 1 \<Longrightarrow> missed srv k (Suc n) (log @ [EXISTS k])"
  by (auto simp: missed_def)

definition removals_justified :: "center_conf \<Rightarrow> redis \<Rightarrow> log \<Rightarrow> bool" where
  "removals_justified conf srv log =
     (\<forall>a b k. log = a @ SREM (SERVICE_KEYS conf) k # b \<longrightarrow> missed srv k 3 a)"

lemma removals_snoc:
  "removals_justified conf srv log \<Longrightarrow> (\<And>k. cmd = SREM (SERVICE_KEYS conf) k \<Longrightarrow> missed srv k 3 log) \<Longrightarrow>
   removals_justified conf srv (log @ [cmd])"
  unfolding removals_justified_def
  by (auto simp: append_eq_append_conv2 Cons_eq_append_conv append_eq_Cons_conv)

definition registry_inv :: "center_conf \<Rightarrow> redis \<Rightarrow> registry \<Rightarrow> log \<Rightarrow> bool" where
  "registry_inv conf srv reg log =
     (removals_justified conf srv log \<and> (\<forall>k n. reg k = Some n \<longrightarrow> n < 3 \<and> missed srv k n log))"

lemma registry_inv_other:
  "registry_inv conf srv reg log \<Longrightarrow> (\<And>k. cmd \<noteq> EXISTS k) \<Longrightarrow> (\<And>k. cmd \<noteq> SREM (SERVICE_KEYS conf) k) \<Longrightarrow>
   registry_inv conf srv reg (log @ [cmd])"
  using removals_snoc [of conf srv log cmd] by (simp add: registry_inv_def missed_other)

lemma after_exists:
  assumes "registry_inv conf srv reg log"
  shows "registry_inv conf srv (reg(k := None)) (log @ [EXISTS k])"
    and "as_int (srv log (EXISTS k)) \<noteq> Some 1 \<Longrightarrow>
      missed srv k ((case reg k of None \<Rightarrow> 0 | Some n \<Rightarrow> n) + 1) (log @ [EXISTS k])"
proof -
  show "registry_inv conf srv (reg(k := None)) (log @ [EXISTS k])"
    using assms removals_snoc [of conf srv log "EXISTS k"]
    by (simp add: registry_inv_def missed_other)
  show "missed srv k ((case reg k of None \<Rightarrow> 0 | Some n \<Rightarrow> n) + 1) (log @ [EXISTS k])"
    if "as_int (srv log (EXISTS k)) \<noteq> Some 1"
    using assms that missed_Suc [of srv k _ log]
    by (auto simp: registry_inv_def split: option.splits)
qed

lemma registry_inv_enter:
  "registry_inv conf srv (reg(k := None)) log \<Longrightarrow> n < 3 \<Longrightarrow> missed srv k n log \<Longrightarrow>
   registry_inv conf srv (reg(k \<mapsto> n)) log"
  unfolding registry_inv_def by (metis fun_upd_apply option.inject)

lemma registry_inv_remove:
  "registry_inv conf srv reg log \<Longrightarrow> missed srv k 3 log \<Longrightarrow>
   registry_inv conf srv reg (log @ [SREM (SERVICE_KEYS conf) k])"
  using removals_snoc [of conf srv log "SREM (SERVICE_KEYS conf) k"]
  by (auto simp: registry_inv_def missed_other)

text \<open>\<open>safe_result\<close>: the commands are justified, and the registry too if there is one.\<close>

definition safe_result :: "center_conf \<Rightarrow> redis \<Rightarrow> registry result \<times> log \<Rightarrow> bool" where
  "safe_result conf srv s =
     (removals_justified conf srv (snd s) \<and>
      (\<forall>reg. fst s = Inr reg \<longrightarrow> registry_inv conf srv reg (snd s)))"

lemma safe_result_Inr: "safe_result conf srv (Inr reg, log) = registry_inv conf srv reg log"
  by (auto simp: safe_result_def registry_inv_def)

text \<open>One call: with the reply the rest goes on, without it the commands so far are justified.\<close>

lemma safe_call:
  assumes "registry_inv conf srv reg (log @ [cmd])"
    and "\<And>n. sel (srv log cmd) = Some n \<Longrightarrow> safe_result conf srv (f n (log @ [cmd]))"
  shows "safe_result conf srv (and_then (call sel cmd srv log) f)"
  using assms by (cases "sel (srv log cmd)") (auto simp: call_def safe_result_def registry_inv_def)

lemma check_service_safe:
  assumes "registry_inv conf srv reg log"
  shows "safe_result conf srv (check_service conf srv k reg log)"
proof -
  let ?misses = "(case reg k of None \<Rightarrow> 0 | Some n \<Rightarrow> n) + 1"
  let ?log = "log @ [EXISTS k]"
  have inv: "registry_inv conf srv (reg(k := None)) ?log" using after_exists(1) [OF assms] .
  have "reg k = Some n \<Longrightarrow> n < 3" for n using assms by (simp add: registry_inv_def)
  then have le: "?misses \<le> 3" by (cases "reg k") fastforce+
  show ?thesis
    unfolding check_service_def
  proof (rule safe_call [OF inv])
    fix n assume n: "as_int (srv log (EXISTS k)) = Some n"
    show "safe_result conf srv
       (if n = 1
        then if reg k = None
             then and_then
                   (call as_int (PUBLISH (SERVICE_REGISTRY_CHANNEL conf) (''+'' @ k)) srv ?log)
                   (\<lambda>_ log. (Inr (reg(k \<mapsto> 0)), log))
             else (Inr (reg(k \<mapsto> 0)), ?log)
        else let misses = ?misses
             in if 3 \<le> misses
                then and_then (call as_int (SREM (SERVICE_KEYS conf) k) srv ?log)
                      (\<lambda>_ log. and_then (call as_int (ZREM (GATEWAY_KEYS conf) k) srv log)
                       (\<lambda>_ log. and_then (call as_int (ZREM (GAME_KEYS conf) k) srv log)
                        (\<lambda>_ log. and_then
                           (call as_int (PUBLISH (SERVICE_REGISTRY_CHANNEL conf) (''-'' @ k)) srv log)
                           (\<lambda>_ log. (Inr (reg(k := None)), log)))))
                else (Inr (reg(k \<mapsto> misses)), ?log))"
    proof (cases "n = 1")
      case True
      then show ?thesis
        using inv registry_inv_enter [of conf srv reg k] registry_inv_other [OF inv]
        by (auto simp: safe_result_Inr intro!: safe_call [where reg = "reg(k := None)"])
    next
      case False
      have miss: "missed srv k ?misses ?log"
        using after_exists(2) [OF assms, of k] n False by simp
      show ?thesis
      proof (cases "?misses < 3")
        case True
        then show ?thesis
          using False registry_inv_enter [OF inv _ miss] by (simp add: safe_result_Inr Let_def)
      next
        case False
        then have "missed srv k 3 ?log" using miss le by simp
        then have "registry_inv conf srv (reg(k := None)) (?log @ [SREM (SERVICE_KEYS conf) k])"
          by (rule registry_inv_remove [OF inv])
        then show ?thesis
          using False \<open>n \<noteq> 1\<close> registry_inv_other
          by (auto simp: safe_result_Inr Let_def simp del: append_assoc
              intro!: safe_call [where reg = "reg(k := None)"])
      qed
    qed
  qed
qed

lemma safe_and_then:
  "safe_result conf srv s \<Longrightarrow> (\<And>reg log. s = (Inr reg, log) \<Longrightarrow> registry_inv conf srv reg log \<Longrightarrow> safe_result conf srv (f reg log)) \<Longrightarrow>
   safe_result conf srv (and_then s f)"
  by (cases s; cases "fst s") (auto simp: safe_result_Inr safe_result_def)

lemma check_services_safe:
  "registry_inv conf srv reg log \<Longrightarrow> safe_result conf srv (check_services conf srv ks reg log)"
  by (induction ks arbitrary: reg log)
     (auto simp: safe_result_Inr intro!: safe_and_then check_service_safe)

lemma registry_round_safe:
  assumes "registry_inv conf srv reg log"
  shows "safe_result conf srv (registry_round conf srv reg log)"
  unfolding registry_round_def
proof (rule safe_call [where reg = reg])
  show inv: "registry_inv conf srv reg (log @ [SMEMBERS (SERVICE_KEYS conf)])"
    using assms by (rule registry_inv_other) simp_all
  fix keys
  show "safe_result conf srv (and_then (check_services conf srv (remdups keys) reg (log @ [SMEMBERS (SERVICE_KEYS conf)]))
     (\<lambda>reg log. and_then (call as_int (PUBLISH (SERVICE_REGISTRY_CHANNEL conf) (KEY_HEARTBEAT_MESSAGE conf)) srv log)
       (\<lambda>_ log. (Inr reg, log))))"
    by (rule safe_and_then [OF check_services_safe [OF inv]])
       (auto simp: safe_result_Inr intro!: safe_call registry_inv_other)
qed

lemma run_registry_safe:
  "registry_inv conf srv reg log \<Longrightarrow> safe_result conf srv (run_registry n conf srv reg log)"
  by (induction n arbitrary: reg log)
     (auto simp: safe_result_Inr intro!: safe_and_then registry_round_safe)

text \<open>
  C18. The center server never removes a living service: in any number of rounds from its start,
  whatever redis answers, a service key is taken from the set of services only when the last three
  times its existence was asked redis did not answer that it exists. This also holds when an
  exception ends the loop.
\<close>

theorem service_removed_after_three_misses:
  "removals_justified conf srv (snd (run_registry n conf srv Map.empty []))"
proof -
  have "registry_inv conf srv Map.empty []"
    by (simp add: registry_inv_def removals_justified_def)
  then show ?thesis using run_registry_safe [of conf srv Map.empty "[]" n] by (simp add: safe_result_def)
qed

section \<open>What happens to one service\<close>

text \<open>Redis does (not) know the key whenever it is asked between two lengths of the log; the key is
  among the members of the set until it is taken out.\<close>

definition missing_during :: "redis \<Rightarrow> string \<Rightarrow> nat \<Rightarrow> nat \<Rightarrow> bool" where
  "missing_during srv k lo hi =
     (\<forall>past. lo \<le> length past \<longrightarrow> length past < hi \<longrightarrow> as_int (srv past (EXISTS k)) \<noteq> Some 1)"

definition alive_from :: "redis \<Rightarrow> string \<Rightarrow> nat \<Rightarrow> bool" where
  "alive_from srv k lo = (\<forall>past. lo \<le> length past \<longrightarrow> as_int (srv past (EXISTS k)) = Some 1)"

definition listed :: "center_conf \<Rightarrow> redis \<Rightarrow> string \<Rightarrow> bool" where
  "listed conf srv k =
     (\<forall>past. SREM (SERVICE_KEYS conf) k \<notin> set past \<longrightarrow>
        (\<exists>ks. srv past (SMEMBERS (SERVICE_KEYS conf)) = KeysReply ks \<and> k \<in> set ks))"

definition next_misses :: "nat option \<Rightarrow> nat option" where
  "next_misses r =
     (let n = (case r of None \<Rightarrow> 0 | Some n \<Rightarrow> n) + 1 in if n \<ge> 3 then None else Some n)"

definition removal_sent :: "center_conf \<Rightarrow> string \<Rightarrow> log \<Rightarrow> bool" where
  "removal_sent conf k cmds =
     ({SREM (SERVICE_KEYS conf) k, ZREM (GATEWAY_KEYS conf) k, ZREM (GAME_KEYS conf) k,
       PUBLISH (SERVICE_REGISTRY_CHANNEL conf) (''-'' @ k)} \<subseteq> set cmds)"

definition removal_begun :: "center_conf \<Rightarrow> string \<Rightarrow> log \<Rightarrow> bool" where
  "removal_begun conf k cmds = (SREM (SERVICE_KEYS conf) k \<in> set cmds)"

lemma removal_simps [simp]:
  "\<not> removal_begun conf k []"
  "removal_begun conf k (a @ b) \<longleftrightarrow> removal_begun conf k a \<or> removal_begun conf k b"
  "removal_sent conf k a \<Longrightarrow> removal_sent conf k (a @ b)"
  "removal_sent conf k b \<Longrightarrow> removal_sent conf k (a @ b)"
  by (auto simp: removal_begun_def removal_sent_def)

lemma check_service_missing:
  assumes "check_service conf srv k reg log = (Inr reg', log')"
    and "as_int (srv log (EXISTS k)) \<noteq> Some 1"
  shows "\<exists>later. log' = log @ EXISTS k # later \<and> reg' k = next_misses (reg k) \<and>
    (if next_misses (reg k) = None then removal_sent conf k later else \<not> removal_begun conf k later)"
  using assms
  by (auto simp: check_service_def and_then_Inr call_Inr next_misses_def Let_def removal_sent_def
      removal_begun_def split: if_splits option.splits)

lemma check_service_other:
  assumes "check_service conf srv j reg log = (Inr reg', log')" and "j \<noteq> k"
  shows "\<exists>later. log' = log @ later \<and> reg' k = reg k \<and> \<not> removal_begun conf k later \<and>
    PUBLISH (SERVICE_REGISTRY_CHANNEL conf) (''+'' @ k) \<notin> set later"
  using assms
  by (auto simp: check_service_def and_then_Inr call_Inr Let_def removal_begun_def split: if_splits)

lemma check_services_other:
  "check_services conf srv ks reg log = (Inr reg', log') \<Longrightarrow> k \<notin> set ks \<Longrightarrow>
   \<exists>later. log' = log @ later \<and> reg' k = reg k \<and> \<not> removal_begun conf k later \<and>
     PUBLISH (SERVICE_REGISTRY_CHANNEL conf) (''+'' @ k) \<notin> set later"
proof (induction ks arbitrary: reg log)
  case Nil
  then show ?case by simp
next
  case (Cons j ks)
  obtain reg1 log1 where one: "check_service conf srv j reg log = (Inr reg1, log1)"
    and rest: "check_services conf srv ks reg1 log1 = (Inr reg', log')"
    using Cons.prems(1) by (auto simp: and_then_Inr)
  show ?case
    using check_service_other [OF one, of k] Cons.IH [OF rest] Cons.prems(2) by auto
qed

lemma check_services_missing:
  "check_services conf srv ks reg log = (Inr reg', log') \<Longrightarrow> k \<in> set ks \<Longrightarrow> distinct ks \<Longrightarrow>
   missing_during srv k (length log) (length log') \<Longrightarrow>
   \<exists>later. log' = log @ later \<and> reg' k = next_misses (reg k) \<and>
     (if next_misses (reg k) = None then removal_sent conf k later else \<not> removal_begun conf k later) \<and>
     (reg k = None \<longrightarrow> PUBLISH (SERVICE_REGISTRY_CHANNEL conf) (''+'' @ k) \<notin> set later)"
proof (induction ks arbitrary: reg log)
  case Nil
  then show ?case by simp
next
  case (Cons j ks)
  obtain reg1 log1 where one: "check_service conf srv j reg log = (Inr reg1, log1)"
    and rest: "check_services conf srv ks reg1 log1 = (Inr reg', log')"
    using Cons.prems(1) by (auto simp: and_then_Inr)
  show ?case
  proof (cases "j = k")
    case True
    obtain l1 where l1: "log1 = log @ l1" "l1 \<noteq> []"
      using one by (auto simp: check_service_def and_then_Inr call_Inr Let_def split: if_splits)
    obtain l2 where l2: "log' = log1 @ l2" "reg' k = reg1 k" "\<not> removal_begun conf k l2"
      "PUBLISH (SERVICE_REGISTRY_CHANNEL conf) (''+'' @ k) \<notin> set l2"
      using check_services_other [OF rest, of k] Cons.prems(3) True by auto
    have "as_int (srv log (EXISTS k)) \<noteq> Some 1"
      using Cons.prems(4) l1 l2 by (simp add: missing_during_def)
    then have "\<exists>later. log1 = log @ later \<and> reg1 k = next_misses (reg k) \<and>
        (if next_misses (reg k) = None then removal_sent conf k later else \<not> removal_begun conf k later) \<and>
        PUBLISH (SERVICE_REGISTRY_CHANNEL conf) (''+'' @ k) \<notin> set later"
      using one True
      by (auto simp: check_service_def and_then_Inr call_Inr next_misses_def Let_def removal_sent_def
          removal_begun_def split: if_splits option.splits)
    then show ?thesis using l2 by (auto split: if_splits)
  next
    case False
    obtain l1 where l1: "log1 = log @ l1" "reg1 k = reg k" "\<not> removal_begun conf k l1"
      "PUBLISH (SERVICE_REGISTRY_CHANNEL conf) (''+'' @ k) \<notin> set l1"
      using check_service_other [OF one False] by blast
    have "missing_during srv k (length log1) (length log')"
      using Cons.prems(4) l1 by (simp add: missing_during_def)
    then show ?thesis
      using Cons.IH [OF rest] Cons.prems(2,3) False l1 by (auto split: if_splits)
  qed
qed

lemma registry_round_missing:
  assumes "registry_round conf srv reg log = (Inr reg', log')"
    and "listed conf srv k" and "\<not> removal_begun conf k log"
    and "missing_during srv k (length log) (length log')"
    and "KEY_HEARTBEAT_MESSAGE conf \<noteq> ''+'' @ k"
  shows "\<exists>later. log' = log @ later \<and> reg' k = next_misses (reg k) \<and>
     (if next_misses (reg k) = None then removal_sent conf k later else \<not> removal_begun conf k later) \<and>
     (reg k = None \<longrightarrow> PUBLISH (SERVICE_REGISTRY_CHANNEL conf) (''+'' @ k) \<notin> set later)"
proof -
  let ?m = "SMEMBERS (SERVICE_KEYS conf)"
  let ?p = "PUBLISH (SERVICE_REGISTRY_CHANNEL conf) (KEY_HEARTBEAT_MESSAGE conf)"
  obtain ks log1 where ks: "as_keys (srv log ?m) = Some ks"
    and cs: "check_services conf srv (remdups ks) reg (log @ [?m]) = (Inr reg', log1)"
    and log': "log' = log1 @ [?p]"
    using assms(1) by (auto simp: registry_round_def and_then_Inr call_Inr)
  have "k \<in> set (remdups ks)"
    using assms(2,3) ks by (fastforce simp: listed_def removal_begun_def)
  moreover have "missing_during srv k (length (log @ [?m])) (length log1)"
    using assms(4) log' by (simp add: missing_during_def)
  ultimately obtain later where later: "log1 = (log @ [?m]) @ later" "reg' k = next_misses (reg k)"
      "if next_misses (reg k) = None then removal_sent conf k later else \<not> removal_begun conf k later"
      "reg k = None \<longrightarrow> PUBLISH (SERVICE_REGISTRY_CHANNEL conf) (''+'' @ k) \<notin> set later"
    using check_services_missing [OF cs] by fastforce
  show ?thesis
    using later log' assms(5)
    by (intro exI [of _ "[?m] @ later @ [?p]"]) (auto simp: removal_sent_def removal_begun_def)
qed

lemma missing_during_mono:
  "missing_during srv k lo hi \<Longrightarrow> lo \<le> lo' \<Longrightarrow> hi' \<le> hi \<Longrightarrow> missing_during srv k lo' hi'"
  by (simp add: missing_during_def)

lemma run_registry_extends:
  "run_registry n conf srv reg log = (Inr reg', log') \<Longrightarrow> \<exists>later. log' = log @ later"
proof (induction n arbitrary: reg log)
  case 0
  then show ?case by simp
next
  case (Suc n)
  obtain reg1 log1 where one: "registry_round conf srv reg log = (Inr reg1, log1)"
    and rest: "run_registry n conf srv reg1 log1 = (Inr reg', log')"
    using Suc.prems by (auto simp: and_then_Inr)
  have "\<exists>later. log1 = log @ later"
  proof -
    have "\<exists>later. log2 = log1 @ later"
      if "check_services conf srv ks r1 log1 = (Inr r2, log2)" for ks r1 r2 log1 log2
      using that
    proof (induction ks arbitrary: r1 log1)
      case (Cons j ks)
      obtain r log3 where c: "check_service conf srv j r1 log1 = (Inr r, log3)"
        and cs: "check_services conf srv ks r log3 = (Inr r2, log2)"
        using Cons.prems by (auto simp: and_then_Inr)
      have "\<exists>later. log3 = log1 @ later"
        using c by (auto simp: check_service_def and_then_Inr call_Inr Let_def split: if_splits)
      then show ?case using Cons.IH [OF cs] by auto
    qed simp
    then show ?thesis
      using one by (fastforce simp: registry_round_def and_then_Inr call_Inr)
  qed
  then show ?case using Suc.IH [OF rest] by auto
qed

text \<open>
  C19. A service whose key has expired is removed within three rounds: if redis lists it among the
  services but does not know its key while three rounds run without an exception, the rounds take
  it out of the three sets, publish its loss, and forget it.
\<close>

theorem dead_service_removed:
  assumes "run_registry 3 conf srv reg log = (Inr reg', log')"
    and "listed conf srv k" and "\<not> removal_begun conf k log"
    and "missing_during srv k (length log) (length log')"
    and "reg k = None \<or> reg k = Some 0"
    and "KEY_HEARTBEAT_MESSAGE conf \<noteq> ''+'' @ k"
  shows "\<exists>later. log' = log @ later \<and> removal_sent conf k later \<and> reg' k = None"
proof -
  obtain r1 l1 r2 l2 where one: "registry_round conf srv reg log = (Inr r1, l1)"
    and two: "registry_round conf srv r1 l1 = (Inr r2, l2)"
    and three: "registry_round conf srv r2 l2 = (Inr reg', log')"
    using assms(1) by (auto simp: numeral_3_eq_3 and_then_Inr)
  have ext: "\<exists>later. l' = l @ later" if "registry_round conf srv r l = (Inr r', l')" for r r' l l'
    using run_registry_extends [of 1 conf srv r l r' l'] that by (simp add: and_then_def)
  obtain e1 e2 e3 where e: "l1 = log @ e1" "l2 = l1 @ e2" "log' = l2 @ e3"
    using ext [OF one] ext [OF two] ext [OF three] by blast
  have m: "missing_during srv k (length log) (length l1)" "missing_during srv k (length l1) (length l2)"
      "missing_during srv k (length l2) (length log')"
    using assms(4) e by (auto elim!: missing_during_mono)
  have r1: "r1 k = Some 1 \<and> \<not> removal_begun conf k l1"
    using registry_round_missing [OF one assms(2,3) m(1) assms(6)] assms(3,5)
    by (auto simp: next_misses_def)
  have r2: "r2 k = Some 2 \<and> \<not> removal_begun conf k l2"
    using registry_round_missing [OF two assms(2) _ m(2) assms(6)] r1 by (auto simp: next_misses_def)
  show ?thesis
    using registry_round_missing [OF three assms(2) _ m(3) assms(6)] r2 e
    by (auto simp: next_misses_def)
qed

lemma check_service_alive:
  assumes "check_service conf srv k reg log = (Inr reg', log')"
    and "as_int (srv log (EXISTS k)) = Some 1" and "reg k \<noteq> None"
  shows "log' = log @ [EXISTS k] \<and> reg' k = Some 0"
  using assms by (auto simp: check_service_def and_then_Inr call_Inr)

lemma check_services_alive:
  "check_services conf srv ks reg log = (Inr reg', log') \<Longrightarrow> alive_from srv k (length log) \<Longrightarrow>
   reg k \<noteq> None \<Longrightarrow>
   \<exists>later. log' = log @ later \<and> reg' k \<noteq> None \<and>
     PUBLISH (SERVICE_REGISTRY_CHANNEL conf) (''+'' @ k) \<notin> set later"
proof (induction ks arbitrary: reg log)
  case Nil
  then show ?case by simp
next
  case (Cons j ks)
  obtain reg1 log1 where one: "check_service conf srv j reg log = (Inr reg1, log1)"
    and rest: "check_services conf srv ks reg1 log1 = (Inr reg', log')"
    using Cons.prems(1) by (auto simp: and_then_Inr)
  have "\<exists>later. log1 = log @ later \<and> reg1 k \<noteq> None \<and>
      PUBLISH (SERVICE_REGISTRY_CHANNEL conf) (''+'' @ k) \<notin> set later"
  proof (cases "j = k")
    case True
    then show ?thesis
      using check_service_alive [of conf srv k reg log reg1 log1] one Cons.prems(2,3)
      by (simp add: alive_from_def)
  next
    case False
    then show ?thesis using check_service_other [OF one False] Cons.prems(3) by auto
  qed
  moreover have "alive_from srv k (length log1)"
    using Cons.prems(2) calculation by (auto simp: alive_from_def)
  ultimately show ?case using Cons.IH [OF rest] by auto
qed

lemma run_registry_alive:
  "run_registry n conf srv reg log = (Inr reg', log') \<Longrightarrow> alive_from srv k (length log) \<Longrightarrow>
   reg k \<noteq> None \<Longrightarrow> KEY_HEARTBEAT_MESSAGE conf \<noteq> ''+'' @ k \<Longrightarrow>
   \<exists>later. log' = log @ later \<and> reg' k \<noteq> None \<and>
     PUBLISH (SERVICE_REGISTRY_CHANNEL conf) (''+'' @ k) \<notin> set later"
proof (induction n arbitrary: reg log)
  case 0
  then show ?case by simp
next
  case (Suc n)
  let ?m = "SMEMBERS (SERVICE_KEYS conf)"
  let ?p = "PUBLISH (SERVICE_REGISTRY_CHANNEL conf) (KEY_HEARTBEAT_MESSAGE conf)"
  obtain ks reg1 log1 where
    cs: "check_services conf srv (remdups ks) reg (log @ [?m]) = (Inr reg1, log1)"
    and rest: "run_registry n conf srv reg1 (log1 @ [?p]) = (Inr reg', log')"
    using Suc.prems(1) by (auto simp: registry_round_def and_then_Inr call_Inr)
  have alive: "alive_from srv k (length (log @ [?m]))" using Suc.prems(2) by (simp add: alive_from_def)
  obtain l1 where l1: "log1 = (log @ [?m]) @ l1" "reg1 k \<noteq> None"
    "PUBLISH (SERVICE_REGISTRY_CHANNEL conf) (''+'' @ k) \<notin> set l1"
    using check_services_alive [OF cs alive Suc.prems(3)] by blast
  have "alive_from srv k (length (log1 @ [?p]))" using Suc.prems(2) l1 by (simp add: alive_from_def)
  then obtain l2 where "log' = (log1 @ [?p]) @ l2" "reg' k \<noteq> None"
    "PUBLISH (SERVICE_REGISTRY_CHANNEL conf) (''+'' @ k) \<notin> set l2"
    using Suc.IH [OF rest] l1(2) Suc.prems(4) by blast
  then show ?case using l1 Suc.prems(4) by (intro exI [of _ "?m # l1 @ ?p # l2"]) auto
qed

text \<open>
  A service that is listed before its key exists is never announced: if its first check
  misses and redis knows the key at every later check, no number of rounds publishes the message
  that the service is there, because the missed check has already entered it among the known
  services.
\<close>

theorem late_service_never_announced:
  assumes "registry_round conf srv reg log = (Inr reg1, log1)" and "reg k = None"
    and "listed conf srv k" and "\<not> removal_begun conf k log"
    and "missing_during srv k (length log) (length log1)"
    and "alive_from srv k (length log1)"
    and "KEY_HEARTBEAT_MESSAGE conf \<noteq> ''+'' @ k"
    and "run_registry n conf srv reg1 log1 = (Inr reg', log')"
  shows "\<exists>later. log' = log @ later \<and> PUBLISH (SERVICE_REGISTRY_CHANNEL conf) (''+'' @ k) \<notin> set later"
proof -
  obtain l1 where l1: "log1 = log @ l1" "reg1 k \<noteq> None"
    "PUBLISH (SERVICE_REGISTRY_CHANNEL conf) (''+'' @ k) \<notin> set l1"
    using registry_round_missing [OF assms(1,3,4,5,7)] assms(2) by (auto simp: next_misses_def)
  then show ?thesis
    using run_registry_alive [OF assms(8,6) _ assms(7)] by auto
qed

text \<open>A redis that lists one service until it is removed, and knows its key from a given length on.\<close>

fun late_redis :: "nat \<Rightarrow> redis" where
  "late_redis from past (SMEMBERS key) =
     KeysReply (if SREM (SERVICE_KEYS CenterServConf) ''login'' \<in> set past then [] else [''login''])"
| "late_redis from past (EXISTS key) = IntReply (if length past < from then 0 else 1)"
| "late_redis from past cmd = IntReply 1"

lemma late_redis_run:
  "run_registry 3 CenterServConf (late_redis 100) Map.empty [] =
     (Inr Map.empty,
      [SMEMBERS (SERVICE_KEYS CenterServConf), EXISTS ''login'',
       PUBLISH (SERVICE_REGISTRY_CHANNEL CenterServConf) (KEY_HEARTBEAT_MESSAGE CenterServConf),
       SMEMBERS (SERVICE_KEYS CenterServConf), EXISTS ''login'',
       PUBLISH (SERVICE_REGISTRY_CHANNEL CenterServConf) (KEY_HEARTBEAT_MESSAGE CenterServConf),
       SMEMBERS (SERVICE_KEYS CenterServConf), EXISTS ''login'',
       SREM (SERVICE_KEYS CenterServConf) ''login'', ZREM (GATEWAY_KEYS CenterServConf) ''login'',
       ZREM (GAME_KEYS CenterServConf) ''login'',
       PUBLISH (SERVICE_REGISTRY_CHANNEL CenterServConf) ''-login'',
       PUBLISH (SERVICE_REGISTRY_CHANNEL CenterServConf) (KEY_HEARTBEAT_MESSAGE CenterServConf)])"
  by (simp add: numeral_3_eq_3 registry_round_def check_service_def call_def and_then_def Let_def)

theorem dead_service_removed_witness:
  "removal_sent CenterServConf ''login'' (snd (run_registry 3 CenterServConf (late_redis 100) Map.empty []))"
  using dead_service_removed [OF late_redis_run, of "''login''"]
  by (simp add: late_redis_run listed_def missing_during_def removal_begun_def)
     (simp add: CenterServConf_def)

theorem late_service_never_announced_witness:
  "PUBLISH (SERVICE_REGISTRY_CHANNEL CenterServConf) ''+login'' \<notin>
     set (snd (run_registry 3 CenterServConf (late_redis 3) Map.empty []))"
proof -
  let ?log1 = "[SMEMBERS (SERVICE_KEYS CenterServConf), EXISTS ''login'',
       PUBLISH (SERVICE_REGISTRY_CHANNEL CenterServConf) (KEY_HEARTBEAT_MESSAGE CenterServConf)]"
  have one: "registry_round CenterServConf (late_redis 3) Map.empty [] = (Inr [''login'' \<mapsto> 1], ?log1)"
    by (simp add: registry_round_def check_service_def call_def and_then_def Let_def)
  obtain reg' log' where two: "run_registry 2 CenterServConf (late_redis 3) [''login'' \<mapsto> 1] ?log1 = (Inr reg', log')"
    by (simp add: numeral_2_eq_2 registry_round_def check_service_def call_def and_then_def Let_def)
  have "run_registry 3 CenterServConf (late_redis 3) Map.empty [] = (Inr reg', log')"
    using one two by (simp add: numeral_3_eq_3 numeral_2_eq_2 and_then_def)
  then show ?thesis
    using late_service_never_announced [OF one _ _ _ _ _ _ two, of "''login''"]
    by (simp add: listed_def missing_during_def alive_from_def removal_begun_def)
       (simp add: CenterServConf_def)
qed

end
