(* ===== verification/Message_Ops.thy ===== *)
theory Message_Ops
  imports Tcp_Connection Login_Messages Game_Messages Carriers Redis_Client
begin

text \<open>
  What the login and the gateway server do with a message of a client: \<^verbatim>\<open>messageFunc\<close> of
  \<^verbatim>\<open>LoginServer/LoginMessageOp.{h,cpp}\<close> and \<^verbatim>\<open>GatewayServer/GatewayMessageOp.{h,cpp}\<close>, and the check
  of \<^verbatim>\<open>checkHeartbeat\<close>. The head of \<^verbatim>\<open>messageFunc\<close> (take a message, read its name, find the object
  registered for the thread and the name, read the message into it) is the same text in the three
  servers and is one definition, \<open>receive_message\<close>, with the virtual \<^verbatim>\<open>deserialize\<close> as argument.

  A registered object lives as long as the server and is reused for every message of its name, so
  it is part of the state. Arguments stand for the clock and for what the kernel takes of a reply.
\<close>

section \<open>Configurations\<close>

record login_conf =
  lc_SERVER_IO_THREAD_NUM :: nat
  lc_SERVER_SAFE_HASH_BUCKET_SIZE :: nat
  lc_CONNECTION_BLACKLIST :: "string list"
  lc_HEARTBEAT_TIMEOUT_IN_SECONDS :: nat
  lc_EVENTLOOP_DETECTION_INTERVAL_IN_SECONDS :: nat
  lc_EVENTLOOP_TIMEOUT_IN_SECONDS :: nat
  lc_EVENTLOOP_RESET_THRESHOLD_IN_SECONDS :: nat
  MESSAGE_LOGIN_BASE_MSG :: string
  MESSAGE_LOGIN_HEARTBEAT_MSG :: string
  MESSAGE_LOGIN_LOGIN_MSG :: string
  MESSAGE_LOGIN_LOGIN_CHARACTER_MSG :: string
  MESSAGE_LOGIN_LOGIN_RESPONSE_MSG :: string
  lc_BROKER_CONN_HOST :: string
  lc_BROKER_CONN_PORT :: int
  lc_BROKER_CONN_PASSWORD :: string
  lc_BROKER_CONN_DB :: int
  lc_BROKER_CONN_POOL_SIZE :: int
  lc_BROKER_DB_KEY :: string
  lc_BROKER_DB_GROUP :: string
  BROKER_LOGIN_KEY :: string
  BROKER_LOGIN_GROUP :: string
  lc_STREAM_CUSTOMER_PULL_NAP_IN_MILLISECONDS :: nat

definition LoginServConf :: login_conf where
  "LoginServConf =
     \<lparr>lc_SERVER_IO_THREAD_NUM = 4,
      lc_SERVER_SAFE_HASH_BUCKET_SIZE = 1031,
      lc_CONNECTION_BLACKLIST = [],
      lc_HEARTBEAT_TIMEOUT_IN_SECONDS = 3600,
      lc_EVENTLOOP_DETECTION_INTERVAL_IN_SECONDS = 30,
      lc_EVENTLOOP_TIMEOUT_IN_SECONDS = 300,
      lc_EVENTLOOP_RESET_THRESHOLD_IN_SECONDS = 3600,
      MESSAGE_LOGIN_BASE_MSG = ''LOGIN_BASE_MSG'',
      MESSAGE_LOGIN_HEARTBEAT_MSG = ''HEARTBEAT_MSG'',
      MESSAGE_LOGIN_LOGIN_MSG = ''LOGIN_LOGIN_MSG'',
      MESSAGE_LOGIN_LOGIN_CHARACTER_MSG = ''LOGIN_LOGIN_CHARACTER_MSG'',
      MESSAGE_LOGIN_LOGIN_RESPONSE_MSG = ''LOGIN_LOGIN_RESPONSE_MSG'',
      lc_BROKER_CONN_HOST = ''127.0.0.1'',
      lc_BROKER_CONN_PORT = 6379,
      lc_BROKER_CONN_PASSWORD = [],
      lc_BROKER_CONN_DB = 0,
      lc_BROKER_CONN_POOL_SIZE = 5,
      lc_BROKER_DB_KEY = ''Warring:DBServ4LoginServ'',
      lc_BROKER_DB_GROUP = ''Warring:DBServ:Group'',
      BROKER_LOGIN_KEY = ''Warring:LoginServ'',
      BROKER_LOGIN_GROUP = ''Warring:LoginServ:Group'',
      lc_STREAM_CUSTOMER_PULL_NAP_IN_MILLISECONDS = 100\<rparr>"

record gateway_conf =
  wc_SERVER_IO_THREAD_NUM :: nat
  wc_SERVER_SAFE_HASH_BUCKET_SIZE :: nat
  wc_CONNECTION_BLACKLIST :: "string list"
  wc_HEARTBEAT_TIMEOUT_IN_SECONDS :: nat
  wc_EVENTLOOP_DETECTION_INTERVAL_IN_SECONDS :: nat
  wc_EVENTLOOP_TIMEOUT_IN_SECONDS :: nat
  wc_EVENTLOOP_RESET_THRESHOLD_IN_SECONDS :: nat
  MESSAGE_GATEWAY_BASE_MSG :: string
  MESSAGE_GATEWAY_HEARTBEAT_MSG :: string
  MESSAGE_GATEWAY_ENTER_GANE_MSG :: string
  wc_BROKER_CONN_HOST :: string
  wc_BROKER_CONN_PORT :: int
  wc_BROKER_CONN_PASSWORD :: string
  wc_BROKER_CONN_DB :: int
  wc_BROKER_CONN_POOL_SIZE :: int
  wc_REGISTRY_CONN_HOST :: string
  wc_REGISTRY_CONN_PORT :: int
  wc_REGISTRY_CONN_PASSWORD :: string
  wc_REGISTRY_CONN_DB :: int
  wc_REGISTRY_CONN_POOL_SIZE :: int
  wc_SERVICE_REGISTRY_ID_KEY :: string
  wc_SERVICE_KEYS :: string
  wc_GATEWAY_KEYS :: string
  BROKER_GATEWAY_KEY :: string
  BROKER_GATEWAY_GROUP :: string
  BROKER_GATEWAY_KEY_HEARTBEAT_IN_SECOND :: nat
  BROKER_GATEWAY_KEY_HEARTBEAT_TOLERANCE :: nat
  BROKER_GATEWAY_KEY_HEARTBEAT_MESSAGE :: string
  wc_SERVICE_REGISTRY_CHANNEL :: string
  wc_STREAM_CUSTOMER_PULL_NAP_IN_MILLISECONDS :: nat

definition GatewayServConf :: gateway_conf where
  "GatewayServConf =
     \<lparr>wc_SERVER_IO_THREAD_NUM = 4,
      wc_SERVER_SAFE_HASH_BUCKET_SIZE = 1031,
      wc_CONNECTION_BLACKLIST = [],
      wc_HEARTBEAT_TIMEOUT_IN_SECONDS = 60,
      wc_EVENTLOOP_DETECTION_INTERVAL_IN_SECONDS = 30,
      wc_EVENTLOOP_TIMEOUT_IN_SECONDS = 300,
      wc_EVENTLOOP_RESET_THRESHOLD_IN_SECONDS = 3600,
      MESSAGE_GATEWAY_BASE_MSG = ''GATEWAY_BASE_MSG'',
      MESSAGE_GATEWAY_HEARTBEAT_MSG = ''HEARTBEAT_MSG'',
      MESSAGE_GATEWAY_ENTER_GANE_MSG = ''GATEWAY_ENTER_GAME_MSG'',
      wc_BROKER_CONN_HOST = ''127.0.0.1'',
      wc_BROKER_CONN_PORT = 6379,
      wc_BROKER_CONN_PASSWORD = [],
      wc_BROKER_CONN_DB = 0,
      wc_BROKER_CONN_POOL_SIZE = 5,
      wc_REGISTRY_CONN_HOST = ''127.0.0.1'',
      wc_REGISTRY_CONN_PORT = 6379,
      wc_REGISTRY_CONN_PASSWORD = [],
      wc_REGISTRY_CONN_DB = 0,
      wc_REGISTRY_CONN_POOL_SIZE = 1,
      wc_SERVICE_REGISTRY_ID_KEY = ''Warring:ServReg:IDSuffix'',
      wc_SERVICE_KEYS = ''Warring:Service:KEYS'',
      wc_GATEWAY_KEYS = ''Warring:Service:GATEWAYS'',
      BROKER_GATEWAY_KEY = ''Warring:GatewayServ_'',
      BROKER_GATEWAY_GROUP = ''GatewayServ:Group'',
      BROKER_GATEWAY_KEY_HEARTBEAT_IN_SECOND = 5,
      BROKER_GATEWAY_KEY_HEARTBEAT_TOLERANCE = 3,
      BROKER_GATEWAY_KEY_HEARTBEAT_MESSAGE = ''SEND_HEARTBEAT'',
      wc_SERVICE_REGISTRY_CHANNEL = ''Warring:ServReg:Channel'',
      wc_STREAM_CUSTOMER_PULL_NAP_IN_MILLISECONDS = 100\<rparr>"

section \<open>The head of messageFunc\<close>

type_synonym thread_id = nat
type_synonym 'o message_types = "thread_id \<rightharpoonup> (string \<rightharpoonup> 'o)"

text \<open>\<^verbatim>\<open>mMessageTypes[tid].emplace(msgName, object)\<close> keeps an object that is there.\<close>

definition registerMessageType :: "thread_id \<Rightarrow> string \<Rightarrow> 'o \<Rightarrow> 'o message_types \<Rightarrow> 'o message_types" where
  "registerMessageType tid msgName obj types =
     (let objs = (case types tid of None \<Rightarrow> Map.empty | Some objs \<Rightarrow> objs) in
      types(tid \<mapsto> (case objs msgName of None \<Rightarrow> objs(msgName \<mapsto> obj) | Some _ \<Rightarrow> objs)))"

text \<open>The message and its object when one was taken, its thread and name are registered and it was
  read; a message that is not registered is gone. \<open>now\<close> is the clock when \<^verbatim>\<open>baseMsg\<close> is made.\<close>

definition receive_message ::
  "(bytes \<Rightarrow> 'o \<Rightarrow> 'o result) \<Rightarrow> u64 \<Rightarrow> thread_id \<Rightarrow> tcp_connection \<Rightarrow> 'o message_types \<Rightarrow>
   ((bytes \<times> 'o) option \<times> tcp_connection \<times> 'o message_types) result"
where
  "receive_message deserialize now tid c types =
     (case fetch_message c of
        (None, c) \<Rightarrow> Inr (None, c, types)
      | (Some msg, c) \<Rightarrow>
          rbind (TimestampMessage_deserialize (c_str msg) (new_TimestampMessage now)) (\<lambda>baseMsg.
          let msgType = MSG_NAME baseMsg in
          case types tid of
            None \<Rightarrow> Inr (None, c, types)
          | Some objs \<Rightarrow>
              (case objs msgType of
                 None \<Rightarrow> Inr (None, c, types)
               | Some obj \<Rightarrow>
                   rbind (deserialize (c_str msg) obj) (\<lambda>obj.
                   Inr (Some (msg, obj), c, types(tid \<mapsto> objs(msgType \<mapsto> obj)))))))"

definition setCurrentTimestamp :: "u64 \<Rightarrow> tcp_connection \<Rightarrow> tcp_connection" where
  "setCurrentTimestamp timestamp c = c\<lparr>mCommunicationTimestamp := timestamp\<rparr>"

text \<open>The answer to a heartbeat, made at the time \<open>now\<close>.\<close>

definition reply_heartbeat ::
  "string \<Rightarrow> u64 \<Rightarrow> nat option \<Rightarrow> tcp_connection \<Rightarrow> tcp_connection result"
where
  "reply_heartbeat name now accepted c =
     (let repHBMsg = TimestampMessage_count ((new_HeartBeatPacket now)\<lparr>MSG_NAME := name\<rparr>) in
      rbind (TimestampMessage_serialize repHBMsg) (\<lambda>(data, _). Inr (send data accepted c)))"

section \<open>LoginMessageOp\<close>

datatype login_object =
    LoginTimestamp timestamp_message
  | LoginHeartBeat heart_beat_packet
  | LoginRequest login_request_message
  | LoginCharacterRequest login_character_request_message

fun login_deserialize :: "bytes \<Rightarrow> login_object \<Rightarrow> login_object result" where
  "login_deserialize data (LoginTimestamp m) = rbind (TimestampMessage_deserialize data m) (\<lambda>m. Inr (LoginTimestamp m))"
| "login_deserialize data (LoginHeartBeat m) = rbind (TimestampMessage_deserialize data m) (\<lambda>m. Inr (LoginHeartBeat m))"
| "login_deserialize data (LoginRequest m) = rbind (LoginRequestMessage_deserialize data m) (\<lambda>m. Inr (LoginRequest m))"
| "login_deserialize data (LoginCharacterRequest m) =
     rbind (LoginCharacterRequestMessage_deserialize data m) (\<lambda>m. Inr (LoginCharacterRequest m))"

definition login_carrier :: "login_conf \<Rightarrow> string \<Rightarrow> bytes \<Rightarrow> tcp_connection \<Rightarrow> client_carrier" where
  "login_carrier conf type msg c =
     new_client_carrier\<lparr>CARRIER_TYPE := type, CARRIER_SERVICE := BROKER_LOGIN_KEY conf,
       CARRIER_NEXT_SERVICE := lc_BROKER_DB_KEY conf, CLIENT_ID := mName c,
       CLIENT_ADDRESS := mPeerIPPort c, CARRIER_MESSAGE := msg\<rparr>"

text \<open>\<^verbatim>\<open>push\<close> has the default length 5000; the lengths of the stream are redis' business.\<close>

definition login_dispatch ::
  "login_conf \<Rightarrow> redis \<Rightarrow> u64 \<Rightarrow> nat option \<Rightarrow> bytes \<Rightarrow> login_object \<Rightarrow> tcp_connection \<Rightarrow> log \<Rightarrow>
   (tcp_connection \<times> log) result"
where
  "login_dispatch conf srv now accepted msg obj c log =
     (case obj of
        LoginTimestamp m \<Rightarrow> Inr (c, log)
      | LoginRequest m \<Rightarrow>
          (let c = setCurrentTimestamp (MILLISECONDS_SINCE_EPOCH m) c;
               carrier = login_carrier conf (MSG_NAME m) msg c in
           Inr (c, snd (push (lc_BROKER_DB_KEY conf) (Login_FILL_2_VEC carrier []) 5000 srv log)))
      | LoginCharacterRequest m \<Rightarrow>
          (let c = setCurrentTimestamp (MILLISECONDS_SINCE_EPOCH m) c;
               carrier = login_carrier conf (MSG_NAME m) msg c in
           Inr (c, snd (push (lc_BROKER_DB_KEY conf) (Login_FILL_2_VEC carrier []) 5000 srv log)))
      | LoginHeartBeat m \<Rightarrow>
          rbind (reply_heartbeat (MESSAGE_LOGIN_HEARTBEAT_MSG conf) now accepted
                   (setCurrentTimestamp (MILLISECONDS_SINCE_EPOCH m) c))
            (\<lambda>c. Inr (c, log)))"

definition login_messageFunc ::
  "login_conf \<Rightarrow> redis \<Rightarrow> u64 \<Rightarrow> nat option \<Rightarrow> thread_id \<Rightarrow> tcp_connection option \<Rightarrow>
   login_object message_types \<Rightarrow> log \<Rightarrow>
   (tcp_connection option \<times> login_object message_types \<times> log) result"
where
  "login_messageFunc conf srv now accepted tid conn types log =
     (case conn of
        None \<Rightarrow> Inr (None, types, log)
      | Some c \<Rightarrow>
          rbind (receive_message login_deserialize now tid c types) (\<lambda>(received, c, types).
          case received of
            None \<Rightarrow> Inr (Some c, types, log)
          | Some (msg, obj) \<Rightarrow>
              rbind (login_dispatch conf srv now accepted msg obj c log) (\<lambda>(c, log).
              Inr (Some c, types, log))))"

text \<open>The objects the constructor of \<^verbatim>\<open>LoginServer\<close> registers for a thread. \<open>garbage\<close> are the
  members without initialiser.\<close>

definition new_LoginRequestMessage :: "u64 \<Rightarrow> login_request_message" where
  "new_LoginRequestMessage now =
     timestamp_message.extend (new_TimestampMessage now)
       \<lparr>REQUEST_CODE = CODE_NONE, ACCOUNT = [], PASSWORD = []\<rparr>"

definition new_LoginCharacterRequestMessage ::
  "u64 \<Rightarrow> bool \<times> i32 \<times> i32 \<Rightarrow> login_character_request_message"
where
  "new_LoginCharacterRequestMessage now garbage =
     (case garbage of (gender, occuption, state) \<Rightarrow>
        login_request_message.extend (new_LoginRequestMessage now)
          \<lparr>CHARACTER_NAME = [], CHARACTER_GENDER = gender, CHARACTER_OCCUPTION = occuption,
           CHARACTER_STATE = state\<rparr>)"

definition login_register ::
  "login_conf \<Rightarrow> u64 \<Rightarrow> bool \<times> i32 \<times> i32 \<Rightarrow> thread_id \<Rightarrow> login_object message_types \<Rightarrow> login_object message_types"
where
  "login_register conf now garbage tid types =
     registerMessageType tid (MESSAGE_LOGIN_LOGIN_CHARACTER_MSG conf)
       (LoginCharacterRequest (new_LoginCharacterRequestMessage now garbage))
     (registerMessageType tid (MESSAGE_LOGIN_LOGIN_MSG conf) (LoginRequest (new_LoginRequestMessage now))
     (registerMessageType tid (MESSAGE_LOGIN_HEARTBEAT_MSG conf) (LoginHeartBeat (new_HeartBeatPacket now))
     (registerMessageType tid (MESSAGE_LOGIN_BASE_MSG conf) (LoginTimestamp (new_TimestampMessage now)) types)))"

section \<open>GatewayMessageOp\<close>

datatype gateway_object =
    GatewayTimestamp timestamp_message
  | GatewayHeartBeat heart_beat_packet
  | EnterGameRequest enter_game_request_message
  | ChatRequest chat_request_message

fun gateway_deserialize :: "bytes \<Rightarrow> gateway_object \<Rightarrow> gateway_object result" where
  "gateway_deserialize data (GatewayTimestamp m) = rbind (TimestampMessage_deserialize data m) (\<lambda>m. Inr (GatewayTimestamp m))"
| "gateway_deserialize data (GatewayHeartBeat m) = rbind (TimestampMessage_deserialize data m) (\<lambda>m. Inr (GatewayHeartBeat m))"
| "gateway_deserialize data (EnterGameRequest m) =
     rbind (EnterGameRequestMessage_deserialize data m) (\<lambda>m. Inr (EnterGameRequest m))"
| "gateway_deserialize data (ChatRequest m) = rbind (ChatRequestMessage_deserialize data m) (\<lambda>m. Inr (ChatRequest m))"

text \<open>The carriers are filled and dropped: the calls of \<^verbatim>\<open>push\<close> are commented out.\<close>

definition gateway_dispatch ::
  "gateway_conf \<Rightarrow> u64 \<Rightarrow> nat option \<Rightarrow> bytes \<Rightarrow> gateway_object \<Rightarrow> tcp_connection \<Rightarrow> tcp_connection result"
where
  "gateway_dispatch conf now accepted msg obj c =
     (case obj of
        GatewayTimestamp m \<Rightarrow> Inr c
      | EnterGameRequest m \<Rightarrow> Inr (setCurrentTimestamp (MILLISECONDS_SINCE_EPOCH m) c)
      | ChatRequest m \<Rightarrow> Inr (setCurrentTimestamp (MILLISECONDS_SINCE_EPOCH m) c)
      | GatewayHeartBeat m \<Rightarrow>
          reply_heartbeat (MESSAGE_GATEWAY_HEARTBEAT_MSG conf) now accepted
            (setCurrentTimestamp (MILLISECONDS_SINCE_EPOCH m) c))"

definition gateway_messageFunc ::
  "gateway_conf \<Rightarrow> u64 \<Rightarrow> nat option \<Rightarrow> thread_id \<Rightarrow> tcp_connection option \<Rightarrow>
   gateway_object message_types \<Rightarrow> (tcp_connection option \<times> gateway_object message_types) result"
where
  "gateway_messageFunc conf now accepted tid conn types =
     (case conn of
        None \<Rightarrow> Inr (None, types)
      | Some c \<Rightarrow>
          rbind (receive_message gateway_deserialize now tid c types) (\<lambda>(received, c, types).
          case received of
            None \<Rightarrow> Inr (Some c, types)
          | Some (msg, obj) \<Rightarrow>
              rbind (gateway_dispatch conf now accepted msg obj c) (\<lambda>c. Inr (Some c, types))))"

definition new_EnterGameRequestMessage :: "u64 \<Rightarrow> u64 \<Rightarrow> enter_game_request_message" where
  "new_EnterGameRequestMessage now garbage =
     timestamp_message.extend (new_TimestampMessage now)
       \<lparr>EG_REQUEST_CODE = garbage, EG_ACCOUNT = [], EG_CHARACTER = []\<rparr>"

text \<open>The constructor of \<^verbatim>\<open>GatewayServer\<close> registers three types, not the chat request.\<close>

definition gateway_register ::
  "gateway_conf \<Rightarrow> u64 \<Rightarrow> u64 \<Rightarrow> thread_id \<Rightarrow> gateway_object message_types \<Rightarrow> gateway_object message_types"
where
  "gateway_register conf now garbage tid types =
     registerMessageType tid (MESSAGE_GATEWAY_ENTER_GANE_MSG conf) (EnterGameRequest (new_EnterGameRequestMessage now garbage))
     (registerMessageType tid (MESSAGE_GATEWAY_HEARTBEAT_MSG conf) (GatewayHeartBeat (new_HeartBeatPacket now))
     (registerMessageType tid (MESSAGE_GATEWAY_BASE_MSG conf) (GatewayTimestamp (new_TimestampMessage now)) types))"

section \<open>The heartbeat check\<close>

text \<open>\<^verbatim>\<open>now - lastTimestamp\<close> is a \<^verbatim>\<open>time_t\<close> that the comparison with a \<^verbatim>\<open>size_t\<close> converts to unsigned.
  \<open>CloseEvent\<close> and \<open>CloseSocket\<close> are what \<^verbatim>\<open>activeClose\<close> does; without a connection of that name
  nothing happens.\<close>

definition heartbeat_timed_out :: "nat \<Rightarrow> u64 \<Rightarrow> u64 \<Rightarrow> bool" where
  "heartbeat_timed_out timeoutSeconds now lastTimestamp =
     (unat (now - lastTimestamp) \<ge> wrap64 (timeoutSeconds * 1000))"

definition checkHeartbeat :: "nat \<Rightarrow> u64 \<Rightarrow> tcp_connection option \<Rightarrow> conn_event" where
  "checkHeartbeat timeoutSeconds now conn =
     (case conn of
        None \<Rightarrow> NoEvent
      | Some c \<Rightarrow>
          if heartbeat_timed_out timeoutSeconds now (mCommunicationTimestamp c)
          then activeClose False c else NoEvent)"

section \<open>Reading a message out of a connection\<close>

text \<open>The two fields in which taking a message changes a connection.\<close>

definition same_peer :: "tcp_connection \<Rightarrow> tcp_connection \<Rightarrow> bool" where
  "same_peer c c' = (\<exists>inc b. c' = c\<lparr>mIncompleteMessage := inc, mInputBuffer := b\<rparr>)"

lemma same_peer_sel:
  "same_peer c c' \<Longrightarrow>
   mName c' = mName c \<and> mPeerIP c' = mPeerIP c \<and> mPeerIPPort c' = mPeerIPPort c \<and>
   mCommunicationTimestamp c' = mCommunicationTimestamp c \<and> mOutputBuffer c' = mOutputBuffer c \<and>
   tc_wire c' = tc_wire c \<and> mCloseFunc c' = mCloseFunc c"
  by (auto simp: same_peer_def)

lemma tryGet_same_peer: "tryGet len b c = (r, c') \<Longrightarrow> same_peer c c'"
  unfolding same_peer_def
  by (rule exI [of _ "mIncompleteMessage c'"], rule exI [of _ "mInputBuffer c'"])
     (auto simp: tryGet_def Let_def split: if_splits prod.splits)

lemma same_peer_trans: "same_peer c c1 \<Longrightarrow> same_peer c1 c2 \<Longrightarrow> same_peer c c2"
  by (clarsimp simp: same_peer_def) (rule exI, rule exI, rule refl)

lemma fetch_same_peer: "fetch_message c = (r, c') \<Longrightarrow> same_peer c c'"
  by (auto simp: fetch_message_def Let_def split: prod.splits if_splits
      intro: tryGet_same_peer same_peer_trans)

lemma wire_image_head: "wire_length name ms < 2 ^ 64 \<Longrightarrow> take 8 (wire_image name ms) = enc_size (wire_length name ms)"
  by (simp add: wire_image_def)

lemma wire_image_long: "16 \<le> wire_length name ms"
  by (simp add: wire_length_def)

lemma fetch_first:
  assumes "pending c = wire_image name ms @ rest" and "wire_length name ms < 2 ^ 64"
    and "length (mIncompleteMessage c) \<noteq> 8"
  shows "\<exists>c'. fetch_message c = (Some (wire_image name ms), c') \<and> pending c' = rest \<and> same_peer c c'"
proof -
  let ?m = "wire_image name ms"
  let ?n = "wire_length name ms"
  obtain c1 where c1: "tryGet 8 False c = (take 8 (pending c), c1)" "pending c1 = pending c"
    using tryGet_stream [of 8 False c] assms(1,3) wire_image_long [of name ms] by auto
  have n: "0 < ?n" using wire_image_long [of name ms] by linarith
  obtain c2 where c2: "tryGet ?n True c1 = (?m, c2)" "pending c2 = rest"
    using tryGet_stream [OF n, of True c1] c1(2) assms(1) by auto
  have head: "take 8 (pending c) = enc_size ?n"
    using assms(1,2) wire_image_long [of name ms] wire_image_head [of name ms] by simp
  have ne: "enc_size ?n \<noteq> []" "?m \<noteq> []"
    using n length_enc(1) [of ?n] length_wire_image [of name ms]
    by (metis list.size(3) zero_neq_numeral, metis list.size(3) less_numeral_extra(3))
  have "fetch_message c = (Some ?m, c2)"
    using c1(1) c2(1) head ne assms(2) wire_image_long [of name ms]
    by (simp add: fetch_message_def Let_def)
  then show ?thesis using c2(2) fetch_same_peer by blast
qed

text \<open>The name read through a \<^verbatim>\<open>TimestampMessage\<close> is the name of any message with 8 more bytes.\<close>

lemma base_name_read:
  assumes "wire_length name ms < 2 ^ 64" and "wf_members ms" and "list_all pos_size ms"
    and "8 \<le> length (payload ms) + length rest"
  shows "\<exists>b. TimestampMessage_deserialize (wire_image name ms @ rest) (new_TimestampMessage now) = Inr b \<and>
    MSG_NAME b = name"
proof -
  let ?t = "new_TimestampMessage now"
  let ?h = "header_read name ms ?t"
  let ?data = "wire_image name ms @ rest"
  have pos: "positive_sizes ms" using assms(3) by (simp add: positive_sizes_iff)
  have bound: "\<forall>l\<in>set (name_lens name ms). l < 2 ^ 64"
    using name_lens_bound [OF assms(1) _ pos [unfolded positive_sizes_def]] assms(2)
    by (simp add: wf_members_def)
  have "consumed ?t" by (rule consumed_fresh) simp
  then have h: "deserializeHelper ?data ?t = Inr ?h"
    by (rule deserializeHelper_wire(1) [OF _ assms(1) bound])
  have len: "mCursor ?h + 8 \<le> length ?data"
    using assms(4) by (simp add: wire_length_def)
  then obtain v where "popMembers ?data (TimestampMessage_members ?h) ?h =
      Inr ([Scalar v], ?h\<lparr>mCursor := mCursor ?h + 8\<rparr>)"
    by (simp add: TimestampMessage_members_def m_u64_def memcpy_from_def)
  then show ?thesis
    using h by (simp add: TimestampMessage_deserialize_def deserialize_with_def TimestampMessage_store_def)
qed

lemma receive_registered:
  assumes "pending c = wire_image name ms @ rest" and "wire_length name ms < 2 ^ 64"
    and "length (mIncompleteMessage c) \<noteq> 8"
    and "wf_members ms" and "list_all pos_size ms" and "7 \<le> length (payload ms)"
    and "types tid = Some objs" and "objs name = Some obj"
    and "des (c_str (wire_image name ms)) obj = Inr obj'"
  shows "\<exists>c'. receive_message des now tid c types =
      Inr (Some (wire_image name ms, obj'), c', types(tid \<mapsto> objs(name \<mapsto> obj'))) \<and>
    pending c' = rest \<and> same_peer c c'"
proof -
  obtain c' where c': "fetch_message c = (Some (wire_image name ms), c')" "pending c' = rest" "same_peer c c'"
    using fetch_first [OF assms(1-3)] by blast
  obtain b where b: "TimestampMessage_deserialize (c_str (wire_image name ms)) (new_TimestampMessage now) = Inr b"
    "MSG_NAME b = name"
    using base_name_read [OF assms(2,4,5), of "[CHR 0x00]" now] assms(6) by (auto simp: c_str_def)
  show ?thesis
    using c' b assms(7-9) by (simp add: receive_message_def Let_def)
qed

section \<open>Login requests\<close>

lemma login_request_read:
  fixes m r :: login_request_message
  assumes "consumed r" and "wire_length name (LoginRequestMessage_members m) < 2 ^ 64"
  shows "LoginRequestMessage_deserialize (c_str (wire_image name (LoginRequestMessage_members m))) r =
    Inr (LoginRequestMessage_store (LoginRequestMessage_members m)
      (after_read name (LoginRequestMessage_members m) r))"
  unfolding LoginRequestMessage_deserialize_def c_str_def
  by (rule LoginRequestMessage_m.deserialize_image [OF assms(1) _ assms(2)])
     (simp_all add: LoginRequestMessage_members_def)

lemma login_request_result:
  fixes m r :: login_request_message
  assumes "r' = LoginRequestMessage_store (LoginRequestMessage_members m)
      (after_read name (LoginRequestMessage_members m) r)"
  shows "MSG_NAME r' = name" "REQUEST_CODE r' = REQUEST_CODE m" "ACCOUNT r' = ACCOUNT m"
    "PASSWORD r' = PASSWORD m" "MILLISECONDS_SINCE_EPOCH r' = MILLISECONDS_SINCE_EPOCH r"
    "consumed r \<Longrightarrow> consumed r'"
proof -
  have "MILLISECONDS_SINCE_EPOCH (after_read name ms r) = MILLISECONDS_SINCE_EPOCH r" for ms
    by (simp add: after_read_def)
  then show "MSG_NAME r' = name" "REQUEST_CODE r' = REQUEST_CODE m" "ACCOUNT r' = ACCOUNT m"
    "PASSWORD r' = PASSWORD m" "MILLISECONDS_SINCE_EPOCH r' = MILLISECONDS_SINCE_EPOCH r"
    by (simp_all add: assms LoginRequestMessage_store_def LoginRequestMessage_members_def)
  show "consumed r \<Longrightarrow> consumed r'"
    using consumed_after_read [of r "LoginRequestMessage_members m" name]
    by (simp add: assms LoginRequestMessage_m.base_of_store consumed_def LoginRequestMessage_members_def)
qed

lemma setCurrentTimestamp_sel [simp]:
  "mName (setCurrentTimestamp t c) = mName c" "mPeerIPPort (setCurrentTimestamp t c) = mPeerIPPort c"
  "mCommunicationTimestamp (setCurrentTimestamp t c) = t" "pending (setCurrentTimestamp t c) = pending c"
  "mOutputBuffer (setCurrentTimestamp t c) = mOutputBuffer c" "tc_wire (setCurrentTimestamp t c) = tc_wire c"
  "outgoing (setCurrentTimestamp t c) = outgoing c"
  by (simp_all add: setCurrentTimestamp_def pending_def outgoing_def)

lemma login_request_step:
  fixes m r :: login_request_message
  assumes "pending c = wire_image (MSG_NAME m) (LoginRequestMessage_members m) @ rest"
    and "wire_length (MSG_NAME m) (LoginRequestMessage_members m) < 2 ^ 64"
    and "length (mIncompleteMessage c) \<noteq> 8"
    and "types tid = Some objs" and "objs (MSG_NAME m) = Some (LoginRequest r)" and "consumed r"
  shows "\<exists>c' r'. login_messageFunc conf srv now accepted tid (Some c) types log =
      Inr (Some c', types(tid \<mapsto> objs(MSG_NAME m \<mapsto> LoginRequest r')),
        log @ [XADD (lc_BROKER_DB_KEY conf) ''*'' (client_fields (login_carrier conf (MSG_NAME m)
          (wire_image (MSG_NAME m) (LoginRequestMessage_members m)) c)) 5000 True]) \<and>
    pending c' = rest \<and> outgoing c' = outgoing c \<and>
    mCommunicationTimestamp c' = MILLISECONDS_SINCE_EPOCH r \<and> mCloseFunc c' = mCloseFunc c \<and>
    REQUEST_CODE r' = REQUEST_CODE m \<and> ACCOUNT r' = ACCOUNT m \<and> PASSWORD r' = PASSWORD m \<and>
    MILLISECONDS_SINCE_EPOCH r' = MILLISECONDS_SINCE_EPOCH r \<and> consumed r'"
proof -
  let ?ms = "LoginRequestMessage_members m"
  define r' where "r' = LoginRequestMessage_store ?ms (after_read (MSG_NAME m) ?ms r)"
  have read: "login_deserialize (c_str (wire_image (MSG_NAME m) ?ms)) (LoginRequest r) = Inr (LoginRequest r')"
    using login_request_read [OF assms(6,2)] by (simp add: r'_def)
  have ms: "wf_members ?ms" "list_all pos_size ?ms" "7 \<le> length (payload ?ms)"
    by (simp_all add: LoginRequestMessage_members_def wf_members_def)
  obtain c' where c': "receive_message login_deserialize now tid c types =
      Inr (Some (wire_image (MSG_NAME m) ?ms, LoginRequest r'), c',
        types(tid \<mapsto> objs(MSG_NAME m \<mapsto> LoginRequest r')))"
    and pend: "pending c' = rest" and peer: "same_peer c c'"
    using receive_registered [where types = types and tid = tid and objs = objs and des = login_deserialize,
      OF assms(1-3) ms assms(4,5) read, of now] by blast
  note res = login_request_result [OF r'_def]
  note sel = same_peer_sel [OF peer]
  show ?thesis
    using c' pend sel res assms(6)
    by (intro exI [of _ "setCurrentTimestamp (MILLISECONDS_SINCE_EPOCH r) c'"] exI [of _ r'])
       (simp add: login_messageFunc_def login_dispatch_def Let_def push_def try_call_def login_carrier_def
         Login_FILL_2_VEC_def client_fields_def outgoing_def setCurrentTimestamp_def pending_def
         split: option.splits)
qed

lemma login_carrier_read:
  "Login_FILL_2_THIS (client_fields (login_carrier conf ty msg c)) new_client_carrier = Inr (login_carrier conf ty msg c)"
  by (simp add: client_carrier_defs login_carrier_def client_fields_def client_assign_def at_second_def
      new_client_carrier_def numeral_eq_Suc)

lemma login_carrier_sel:
  "CARRIER_MESSAGE (login_carrier conf ty msg c) = msg" "CARRIER_TYPE (login_carrier conf ty msg c) = ty"
  "CLIENT_ID (login_carrier conf ty msg c) = mName c"
  "CLIENT_ADDRESS (login_carrier conf ty msg c) = mPeerIPPort c"
  "CARRIER_SERVICE (login_carrier conf ty msg c) = BROKER_LOGIN_KEY conf"
  by (simp_all add: login_carrier_def)

text \<open>
  C7. A login request that has arrived whole is forwarded: \<^verbatim>\<open>messageFunc\<close> takes exactly its bytes
  from the stream, reads its fields into the registered object, which stays usable for the next
  request, and adds exactly one entry to the stream of the database server. The reader of the
  entry gets the untouched bytes of the request with the name and the address of the connection.
\<close>

theorem login_request_forwarded:
  fixes m r :: login_request_message
  assumes "pending c = wire_image (MSG_NAME m) (LoginRequestMessage_members m) @ rest"
    and "wire_length (MSG_NAME m) (LoginRequestMessage_members m) < 2 ^ 64"
    and "length (mIncompleteMessage c) \<noteq> 8"
    and "types tid = Some objs" and "objs (MSG_NAME m) = Some (LoginRequest r)" and "consumed r"
  shows "\<exists>c' r' fields carrier. login_messageFunc conf srv now accepted tid (Some c) types log =
      Inr (Some c', types(tid \<mapsto> objs(MSG_NAME m \<mapsto> LoginRequest r')),
        log @ [XADD (lc_BROKER_DB_KEY conf) ''*'' fields 5000 True]) \<and>
    pending c' = rest \<and> consumed r' \<and>
    REQUEST_CODE r' = REQUEST_CODE m \<and> ACCOUNT r' = ACCOUNT m \<and> PASSWORD r' = PASSWORD m \<and>
    Login_FILL_2_THIS fields new_client_carrier = Inr carrier \<and>
    CARRIER_MESSAGE carrier = wire_image (MSG_NAME m) (LoginRequestMessage_members m) \<and>
    CARRIER_TYPE carrier = MSG_NAME m \<and> CLIENT_ID carrier = mName c \<and>
    CLIENT_ADDRESS carrier = mPeerIPPort c \<and> CARRIER_SERVICE carrier = BROKER_LOGIN_KEY conf"
proof -
  let ?carrier = "login_carrier conf (MSG_NAME m) (wire_image (MSG_NAME m) (LoginRequestMessage_members m)) c"
  obtain c' r' where "login_messageFunc conf srv now accepted tid (Some c) types log =
      Inr (Some c', types(tid \<mapsto> objs(MSG_NAME m \<mapsto> LoginRequest r')),
        log @ [XADD (lc_BROKER_DB_KEY conf) ''*'' (client_fields ?carrier) 5000 True])"
    and "pending c' = rest" "consumed r'" "REQUEST_CODE r' = REQUEST_CODE m" "ACCOUNT r' = ACCOUNT m"
      "PASSWORD r' = PASSWORD m"
    using login_request_step [where types = types and tid = tid and objs = objs and m = m and r = r,
        OF assms, of conf srv now accepted log] by blast
  then show ?thesis
    by (intro exI [of _ c'] exI [of _ r'] exI [of _ "client_fields ?carrier"] exI [of _ ?carrier])
       (simp add: login_carrier_read login_carrier_sel)
qed

text \<open>
  A request does not count as a sign of life: \<^verbatim>\<open>LoginRequestMessage\<close> does not put its time on
  the wire, so the time of the connection becomes the time at which the server registered the
  message type. The next heartbeat check therefore closes a connection that has just sent a
  request whenever the server has run for the timeout.
\<close>

theorem login_request_keeps_old_time:
  fixes m r :: login_request_message
  assumes "pending c = wire_image (MSG_NAME m) (LoginRequestMessage_members m) @ rest"
    and "wire_length (MSG_NAME m) (LoginRequestMessage_members m) < 2 ^ 64"
    and "length (mIncompleteMessage c) \<noteq> 8"
    and "types tid = Some objs" and "objs (MSG_NAME m) = Some (LoginRequest r)" and "consumed r"
    and "MILLISECONDS_SINCE_EPOCH r = started"
    and "wrap64 (timeoutSeconds * 1000) \<le> unat (now' - started)"
  shows "\<exists>c' types' log'. login_messageFunc conf srv now accepted tid (Some c) types log =
      Inr (Some c', types', log') \<and>
    mCommunicationTimestamp c' = started \<and>
    checkHeartbeat timeoutSeconds now' (Some c') = activeClose False c \<and>
    activeClose False c \<noteq> NoEvent"
  using login_request_step [where types = types and tid = tid and objs = objs and m = m and r = r, OF assms(1-6),
      of conf srv now accepted log] assms(7,8)
  by (auto simp: checkHeartbeat_def heartbeat_timed_out_def activeClose_def)

definition demo_login :: login_request_message where
  "demo_login = (new_LoginRequestMessage 0)
     \<lparr>MSG_NAME := ''LOGIN_LOGIN_MSG'', REQUEST_CODE := 20, ACCOUNT := ''ann'', PASSWORD := ''pw''\<rparr>"

definition demo_types :: "login_object message_types" where
  "demo_types = login_register LoginServConf 1000 (False, 0, 0) 4 Map.empty"

definition demo_objs :: "string \<rightharpoonup> login_object" where
  "demo_objs = the (demo_types 4)"

lemma demo_types_login:
  "demo_types 4 = Some demo_objs"
  "demo_objs ''LOGIN_LOGIN_MSG'' = Some (LoginRequest (new_LoginRequestMessage 1000))"
  "demo_objs ''HEARTBEAT_MSG'' = Some (LoginHeartBeat (new_HeartBeatPacket 1000))"
  by (simp_all add: demo_types_def demo_objs_def login_register_def registerMessageType_def LoginServConf_def)

lemma new_login_consumed: "consumed (new_LoginRequestMessage now)"
  by (simp add: new_LoginRequestMessage_def consumed_def new_TimestampMessage_def timestamp_message.defs
      base_message.defs new_base_def)

definition demo_conn :: "bytes \<Rightarrow> tcp_connection" where
  "demo_conn received = (new_TcpConnection 5 ''ip'' ''ip:1'' ''conn'' 0)
     \<lparr>mInputBuffer := (new_IOBuffer 5)\<lparr>mDataQueue := [received]\<rparr>\<rparr>"

lemma demo_conn_sel [simp]:
  "pending (demo_conn bs) = bs" "mIncompleteMessage (demo_conn bs) = []" "mName (demo_conn bs) = ''conn''"
  "mCloseFunc (demo_conn bs) = False" "mDataQueue (mOutputBuffer (demo_conn bs)) = []"
  "outgoing (demo_conn bs) = []"
  by (simp_all add: demo_conn_def new_TcpConnection_def loop_update_def pending_def Let_def
      new_IOBuffer_def outgoing_def)

lemma demo_login_small:
  "MSG_NAME demo_login = ''LOGIN_LOGIN_MSG''"
  "wire_length (MSG_NAME demo_login) (LoginRequestMessage_members demo_login) < 2 ^ 64"
  by (simp_all add: demo_login_def LoginRequestMessage_members_def wire_length_def name_lens_def)

theorem login_request_forwarded_witness:
  "\<exists>c' types' key fields carrier. login_messageFunc LoginServConf (\<lambda>_ _. StringReply ''1-0'') 7 None 4
      (Some (demo_conn (wire_image ''LOGIN_LOGIN_MSG'' (LoginRequestMessage_members demo_login)))) demo_types [] =
      Inr (Some c', types', [XADD key ''*'' fields 5000 True]) \<and> pending c' = [] \<and>
    Login_FILL_2_THIS fields new_client_carrier = Inr carrier \<and> CLIENT_ID carrier = ''conn''"
  using login_request_forwarded [of "demo_conn (wire_image ''LOGIN_LOGIN_MSG'' (LoginRequestMessage_members demo_login))"
      demo_login "[]" demo_types 4 demo_objs "new_LoginRequestMessage 1000" LoginServConf "\<lambda>_ _. StringReply ''1-0''" 7 None "[]"]
    demo_types_login demo_login_small new_login_consumed
  by fastforce

theorem login_request_keeps_old_time_witness:
  "\<exists>c' types' log'. login_messageFunc LoginServConf (\<lambda>_ _. StringReply ''1-0'') 3601000 None 4
      (Some (demo_conn (wire_image ''LOGIN_LOGIN_MSG'' (LoginRequestMessage_members demo_login)))) demo_types [] =
      Inr (Some c', types', log') \<and>
    checkHeartbeat (lc_HEARTBEAT_TIMEOUT_IN_SECONDS LoginServConf) 3601000 (Some c') = CloseSocket"
proof -
  have "MILLISECONDS_SINCE_EPOCH (new_LoginRequestMessage 1000) = 1000"
    by (simp add: new_LoginRequestMessage_def timestamp_message.defs new_TimestampMessage_def base_message.defs)
  moreover have "wrap64 (lc_HEARTBEAT_TIMEOUT_IN_SECONDS LoginServConf * 1000) \<le> unat (3601000 - 1000 :: u64)"
    by (simp add: LoginServConf_def)
  ultimately show ?thesis
    using login_request_keeps_old_time [of "demo_conn (wire_image ''LOGIN_LOGIN_MSG'' (LoginRequestMessage_members demo_login))"
        demo_login "[]" demo_types 4 demo_objs "new_LoginRequestMessage 1000" 1000
        "lc_HEARTBEAT_TIMEOUT_IN_SECONDS LoginServConf" 3601000 LoginServConf "\<lambda>_ _. StringReply ''1-0''" 3601000 None "[]"]
      demo_types_login demo_login_small new_login_consumed
    by (fastforce simp: activeClose_def)
qed

section \<open>Heartbeats\<close>

lemma send_idle:
  assumes "mDataQueue (mOutputBuffer c) = []" and "k \<le> length data"
  shows "outgoing (send data (Some k) c) = outgoing c @ data" "pending (send data (Some k) c) = pending c"
    "mCommunicationTimestamp (send data (Some k) c) = mCommunicationTimestamp c"
  using assms
  by (auto simp: send_def IOBuffer_get_def out_write_def IOBuffer_write_def IOBuffer_put_def
      outgoing_def enable_writing_def loop_update_def pending_def)

lemma reply_heartbeat_data:
  assumes "wire_length name [m_u64 now] < 2 ^ 64"
  shows "reply_heartbeat name now accepted c = Inr (send (wire_image name [m_u64 now]) accepted c)"
proof -
  let ?m = "(new_HeartBeatPacket now)\<lparr>MSG_NAME := name\<rparr>"
  have ms: "TimestampMessage_members ?m = [m_u64 now]"
    by (simp add: TimestampMessage_members_def new_HeartBeatPacket_def new_TimestampMessage_def base_message.defs)
  have "uncounted ?m"
    by (simp add: uncounted_def new_HeartBeatPacket_def new_TimestampMessage_def base_message.defs new_base_def)
  then obtain m' where "serialize_members (TimestampMessage_members (count_members (TimestampMessage_members ?m) ?m))
      (count_members (TimestampMessage_members ?m) ?m) = Inr (wire_image name [m_u64 now], m')"
    using TimestampMessage_m.count_serialize [of ?m] assms ms by auto
  then show ?thesis
    by (simp add: reply_heartbeat_def TimestampMessage_count_def TimestampMessage_serialize_def Let_def)
qed

lemma heartbeat_read:
  fixes hb r :: heart_beat_packet
  assumes "consumed r" and "wire_length name (TimestampMessage_members hb) < 2 ^ 64"
  shows "\<exists>r'. TimestampMessage_deserialize (c_str (wire_image name (TimestampMessage_members hb))) r = Inr r' \<and>
    MILLISECONDS_SINCE_EPOCH r' = MILLISECONDS_SINCE_EPOCH hb \<and> consumed r'"
proof -
  let ?ms = "TimestampMessage_members hb"
  have "TimestampMessage_deserialize (c_str (wire_image name ?ms)) r =
      Inr (TimestampMessage_store ?ms (after_read name ?ms r))"
    unfolding TimestampMessage_deserialize_def c_str_def
    by (rule TimestampMessage_m.deserialize_image [OF assms(1) _ assms(2)])
       (simp_all add: TimestampMessage_members_def)
  moreover have "consumed (TimestampMessage_store ?ms (after_read name ?ms r))"
    using consumed_after_read [OF assms(1), of ?ms name]
    by (simp add: TimestampMessage_m.base_of_store consumed_def TimestampMessage_members_def)
  ultimately show ?thesis
    by (simp add: TimestampMessage_store_def TimestampMessage_members_def)
qed

text \<open>
  A heartbeat packet is answered: \<^verbatim>\<open>messageFunc\<close> takes exactly its bytes, sets the time of the
  connection to the time the client sent, and with nothing else queued puts exactly one heartbeat
  packet with the server's own time behind what has been sent to the client, however much of it
  the kernel takes at once. Nothing goes to redis.
\<close>

theorem heartbeat_answered:
  fixes hb r :: heart_beat_packet
  assumes "pending c = wire_image (MSG_NAME hb) (TimestampMessage_members hb) @ rest"
    and "wire_length (MSG_NAME hb) (TimestampMessage_members hb) < 2 ^ 64"
    and "length (mIncompleteMessage c) \<noteq> 8"
    and "types tid = Some objs" and "objs (MSG_NAME hb) = Some (LoginHeartBeat r)" and "consumed r"
    and "mDataQueue (mOutputBuffer c) = []"
    and "wire_length (MESSAGE_LOGIN_HEARTBEAT_MSG conf) [m_u64 now] < 2 ^ 64"
    and "k \<le> wire_length (MESSAGE_LOGIN_HEARTBEAT_MSG conf) [m_u64 now]"
  shows "\<exists>c' r'. login_messageFunc conf srv now (Some k) tid (Some c) types log =
      Inr (Some c', types(tid \<mapsto> objs(MSG_NAME hb \<mapsto> LoginHeartBeat r')), log) \<and>
    pending c' = rest \<and> consumed r' \<and> mCommunicationTimestamp c' = MILLISECONDS_SINCE_EPOCH hb \<and>
    outgoing c' = outgoing c @ wire_image (MESSAGE_LOGIN_HEARTBEAT_MSG conf) [m_u64 now]"
proof -
  let ?ms = "TimestampMessage_members hb" and ?data = "wire_image (MESSAGE_LOGIN_HEARTBEAT_MSG conf) [m_u64 now]"
  obtain r' where r': "TimestampMessage_deserialize (c_str (wire_image (MSG_NAME hb) ?ms)) r = Inr r'"
    "MILLISECONDS_SINCE_EPOCH r' = MILLISECONDS_SINCE_EPOCH hb" "consumed r'"
    using heartbeat_read [OF assms(6,2)] by blast
  then have read: "login_deserialize (c_str (wire_image (MSG_NAME hb) ?ms)) (LoginHeartBeat r) = Inr (LoginHeartBeat r')"
    by simp
  have ms: "wf_members ?ms" "list_all pos_size ?ms" "7 \<le> length (payload ?ms)"
    by (simp_all add: TimestampMessage_members_def wf_members_def)
  obtain c1 where c1: "receive_message login_deserialize now tid c types =
      Inr (Some (wire_image (MSG_NAME hb) ?ms, LoginHeartBeat r'), c1,
        types(tid \<mapsto> objs(MSG_NAME hb \<mapsto> LoginHeartBeat r')))"
    and pend: "pending c1 = rest" and peer: "same_peer c c1"
    using receive_registered [where types = types and tid = tid and objs = objs and des = login_deserialize,
        OF assms(1-3) ms assms(4,5) read, of now] by blast
  let ?c2 = "setCurrentTimestamp (MILLISECONDS_SINCE_EPOCH hb) c1"
  have idle: "mDataQueue (mOutputBuffer ?c2) = []" using same_peer_sel [OF peer] assms(7) by simp
  have len: "k \<le> length ?data" using assms(9) by simp
  have "login_messageFunc conf srv now (Some k) tid (Some c) types log =
      Inr (Some (send ?data (Some k) ?c2), types(tid \<mapsto> objs(MSG_NAME hb \<mapsto> LoginHeartBeat r')), log)"
    using c1 r'(2) by (simp add: login_messageFunc_def login_dispatch_def reply_heartbeat_data [OF assms(8)])
  then show ?thesis
    using send_idle [OF idle len] pend r'(3) same_peer_sel [OF peer]
    by (intro exI [of _ "send ?data (Some k) ?c2"] exI [of _ r']) (simp add: outgoing_def)
qed

theorem heartbeat_answered_witness:
  "\<exists>c' types'. login_messageFunc LoginServConf (\<lambda>_ _. Broken) 9000 (Some 5) 4
      (Some (demo_conn (wire_image ''HEARTBEAT_MSG'' [m_u64 8000]))) demo_types [] = Inr (Some c', types', []) \<and>
    mCommunicationTimestamp c' = 8000 \<and> outgoing c' = wire_image ''HEARTBEAT_MSG'' [m_u64 9000]"
proof -
  let ?hb = "(new_HeartBeatPacket 8000)\<lparr>MSG_NAME := ''HEARTBEAT_MSG''\<rparr>"
  have hb: "MSG_NAME ?hb = ''HEARTBEAT_MSG''" "TimestampMessage_members ?hb = [m_u64 8000]"
      "MILLISECONDS_SINCE_EPOCH ?hb = 8000" "consumed (new_HeartBeatPacket 1000)"
    by (simp_all add: TimestampMessage_members_def new_HeartBeatPacket_def new_TimestampMessage_def
        base_message.defs new_base_def consumed_def)
  have name: "MESSAGE_LOGIN_HEARTBEAT_MSG LoginServConf = ''HEARTBEAT_MSG''" by (simp add: LoginServConf_def)
  have len: "wire_length ''HEARTBEAT_MSG'' [m_u64 t] = 45" for t
    by (simp add: wire_length_def name_lens_def)
  show ?thesis
    using heartbeat_answered [of "demo_conn (wire_image ''HEARTBEAT_MSG'' [m_u64 8000])" ?hb "[]" demo_types 4
        demo_objs "new_HeartBeatPacket 1000" LoginServConf 9000 5 "\<lambda>_ _. Broken" "[]"]
      hb name len demo_types_login
    by fastforce
qed

section \<open>Messages that are dropped\<close>

text \<open>
  A message whose name is not registered for the thread is taken from the stream and ignored:
  nothing is answered, forwarded or remembered. The gateway registers no chat request, so it
  drops every chat request although \<^verbatim>\<open>messageFunc\<close> has a branch for it.
\<close>

theorem unregistered_message_dropped:
  fixes m :: chat_request_message
  assumes "pending c = wire_image (MSG_NAME m) (ChatRequestMessage_members m) @ rest"
    and "wire_length (MSG_NAME m) (ChatRequestMessage_members m) < 2 ^ 64"
    and "length (mIncompleteMessage c) \<noteq> 8"
    and "MSG_NAME m \<notin> {MESSAGE_GATEWAY_BASE_MSG conf, MESSAGE_GATEWAY_HEARTBEAT_MSG conf, MESSAGE_GATEWAY_ENTER_GANE_MSG conf}"
  shows "\<exists>c'. gateway_messageFunc conf now accepted tid (Some c) (gateway_register conf started garbage tid Map.empty) =
      Inr (Some c', gateway_register conf started garbage tid Map.empty) \<and>
    pending c' = rest \<and> outgoing c' = outgoing c \<and> mCommunicationTimestamp c' = mCommunicationTimestamp c"
proof -
  let ?ms = "ChatRequestMessage_members m"
  let ?types = "gateway_register conf started garbage tid Map.empty"
  obtain objs where objs: "?types tid = Some objs" "objs (MSG_NAME m) = None"
    using assms(4) by (auto simp: gateway_register_def registerMessageType_def Let_def split: option.splits)
  have ms: "wf_members ?ms" "list_all pos_size ?ms" "7 \<le> length (payload ?ms)"
    by (simp_all add: ChatRequestMessage_members_def wf_members_def)
  obtain c' where c': "fetch_message c = (Some (wire_image (MSG_NAME m) ?ms), c')" "pending c' = rest" "same_peer c c'"
    using fetch_first [OF assms(1-3)] by blast
  obtain b where b: "TimestampMessage_deserialize (c_str (wire_image (MSG_NAME m) ?ms)) (new_TimestampMessage now) = Inr b"
    "MSG_NAME b = MSG_NAME m"
    using base_name_read [OF assms(2) ms(1,2), of "[CHR 0x00]" now] ms(3) by (auto simp: c_str_def)
  show ?thesis
    using c' b objs same_peer_sel [OF c'(3)]
    by (simp add: gateway_messageFunc_def receive_message_def Let_def outgoing_def)
qed

definition demo_chat :: chat_request_message where
  "demo_chat = timestamp_message.extend ((new_TimestampMessage 0)\<lparr>MSG_NAME := ''GATEWAY_CHAT_MSG''\<rparr>)
     \<lparr>CH_REQUEST_CODE = 130, CH_ACCOUNT = ''a'', CH_CHARACTER = ''c'', CH_CHANNEL = ''p'', CH_NOTE = ''hi''\<rparr>"

theorem unregistered_message_dropped_witness:
  "\<exists>c' types'. gateway_messageFunc GatewayServConf 5 None 4
      (Some (demo_conn (wire_image ''GATEWAY_CHAT_MSG'' (ChatRequestMessage_members demo_chat))))
      (gateway_register GatewayServConf 0 0 4 Map.empty) = Inr (Some c', types') \<and> pending c' = [] \<and> outgoing c' = []"
proof -
  have "MSG_NAME demo_chat = ''GATEWAY_CHAT_MSG''"
    by (simp add: demo_chat_def timestamp_message.defs new_TimestampMessage_def base_message.defs)
  moreover have "wire_length ''GATEWAY_CHAT_MSG'' (ChatRequestMessage_members demo_chat) < 2 ^ 64"
    by (simp add: demo_chat_def timestamp_message.defs ChatRequestMessage_members_def wire_length_def name_lens_def)
  ultimately show ?thesis
    using unregistered_message_dropped [of "demo_conn (wire_image ''GATEWAY_CHAT_MSG'' (ChatRequestMessage_members demo_chat))"
        demo_chat "[]" GatewayServConf 5 None 4 0 0]
    by (auto simp: GatewayServConf_def)
qed

text \<open>
  The heartbeat check counts in unsigned arithmetic: with a timeout of less than \<open>2 ^ 63\<close>
  milliseconds it keeps a connection exactly when its time is less than the timeout ago. A time
  that lies in the future of the server's clock, even by a millisecond, closes the connection.
\<close>

theorem heartbeat_check_unsigned:
  assumes "timeoutSeconds * 1000 < 2 ^ 63" and "mCommunicationTimestamp c = t"
    and "unat now < 2 ^ 63" and "unat t < 2 ^ 63"
  shows "checkHeartbeat timeoutSeconds now (Some c) = NoEvent \<longleftrightarrow>
    unat t \<le> unat now \<and> unat now - unat t < timeoutSeconds * 1000"
proof -
  have small: "wrap64 (timeoutSeconds * 1000) = timeoutSeconds * 1000"
    using assms(1) by (simp add: wrap64_def)
  have not_none: "activeClose False c \<noteq> NoEvent" by (simp add: activeClose_def)
  show ?thesis
  proof (cases "unat t \<le> unat now")
    case True
    then have "unat (now - t) = unat now - unat t" by (simp add: unat_sub word_le_nat_alt)
    then show ?thesis
      using True assms(2) small not_none
      by (auto simp: checkHeartbeat_def heartbeat_timed_out_def)
  next
    case False
    then have "unat (now - t) = unat now + 2 ^ 64 - unat t" by (simp add: unat_sub_if')
    then have "unat (now - t) \<ge> 2 ^ 63" using assms(4) by simp
    then show ?thesis
      using False assms(1,2) small not_none
      by (auto simp: checkHeartbeat_def heartbeat_timed_out_def)
  qed
qed

theorem heartbeat_check_unsigned_witness:
  "checkHeartbeat 60 1000000 (Some (setCurrentTimestamp 1000001 (demo_conn []))) \<noteq> NoEvent"
  by (subst heartbeat_check_unsigned [where t = 1000001]) simp_all

end
