(* ===== verification/Game_Ops.thy ===== *)
theory Game_Ops
  imports Message_Ops
begin

text \<open>
  The game server: \<^verbatim>\<open>GameServer/SceneManager.h\<close>, which keeps the addresses of the scene servers in
  a table and in sorted sets of redis, \<^verbatim>\<open>messageFunc\<close> of \<^verbatim>\<open>GameServer/GameMessageOp.{h,cpp}\<close> and
  \<^verbatim>\<open>checkHeartbeat\<close> of \<^verbatim>\<open>GameHeartbeatOp.h\<close>. The server uses two redis connections, for the
  registry and for the broker; each has its own list of commands.
\<close>

section \<open>Loads as doubles\<close>

text \<open>The conversion of an \<^verbatim>\<open>int\<close> to \<^verbatim>\<open>double\<close> is exact: sign, exponent and 52 bits of fraction.\<close>

fun ilog2 :: "nat \<Rightarrow> nat" where
  "ilog2 n = (if n < 2 then 0 else Suc (ilog2 (n div 2)))"

declare ilog2.simps [simp del]

definition double_of_int :: "int \<Rightarrow> f64" where
  "double_of_int i =
     (if i = 0 then 0
      else let m = nat \<bar>i\<bar>; e = ilog2 m in
        of_nat ((if i < 0 then 2 ^ 63 else 0) + (e + 1023) * 2 ^ 52 + (m - 2 ^ e) * 2 ^ (52 - e)))"

text \<open>\<^verbatim>\<open>long\<close> returned as \<^verbatim>\<open>int\<close>.\<close>

definition int_of_long :: "int \<Rightarrow> int" where
  "int_of_long n = sint (word_of_int n :: i32)"

section \<open>SceneManager\<close>

type_synonym scenes = "string \<rightharpoonup> string"

definition scene_address :: "string \<Rightarrow> i32 \<Rightarrow> string" where
  "scene_address ip dsPort = ip @ '':'' @ to_string (sint dsPort)"

definition registerScene ::
  "string \<Rightarrow> string \<Rightarrow> i32 \<Rightarrow> i32 \<Rightarrow> scenes \<Rightarrow> redis \<Rightarrow> log \<Rightarrow> int \<times> scenes \<times> log"
where
  "registerScene ip sceneKey dsPort load scenes srv log =
     (let address = scene_address ip dsPort in
      case scenes address of
        None \<Rightarrow>
          (case sortedAdd sceneKey address (double_of_int (sint load)) srv log of (r, log) \<Rightarrow>
             (int_of_long r, scenes(address \<mapsto> sceneKey), log))
      | Some _ \<Rightarrow> (-1, scenes, log))"

definition removeScene :: "string \<Rightarrow> scenes \<Rightarrow> redis \<Rightarrow> log \<Rightarrow> int \<times> scenes \<times> log" where
  "removeScene address scenes srv log =
     (case scenes address of
        None \<Rightarrow> (-1, scenes, log)
      | Some sceneKey \<Rightarrow>
          (case sortedRemove sceneKey address srv log of (r, log) \<Rightarrow>
             (int_of_long r, scenes(address := None), log)))"

definition updateScene :: "string \<Rightarrow> string \<Rightarrow> i32 \<Rightarrow> redis \<Rightarrow> log \<Rightarrow> int \<times> log" where
  "updateScene address sceneKey load srv log =
     (case sortedAdd sceneKey address (double_of_int (sint load)) srv log of (r, log) \<Rightarrow> (int_of_long r, log))"

definition getLowLoadScene :: "string \<Rightarrow> redis \<Rightarrow> log \<Rightarrow> string result \<times> log" where
  "getLowLoadScene sceneKey srv log =
     and_then (call as_members (ZRANGEBYSCORE sceneKey) srv log) (\<lambda>result log.
       (Inr (case result of [] \<Rightarrow> '''' | (member, _) # _ \<Rightarrow> member), log))"

definition generateSceneIDKey :: "string \<Rightarrow> i32 \<Rightarrow> string" where
  "generateSceneIDKey keyPrefix sceneID = keyPrefix @ to_string (sint sceneID)"

section \<open>GameMessageOp\<close>

record game_conf =
  gc_SERVER_IO_THREAD_NUM :: nat
  gc_SERVER_SAFE_HASH_BUCKET_SIZE :: nat
  gc_CONNECTION_BLACKLIST :: "string list"
  gc_HEARTBEAT_TIMEOUT_IN_SECONDS :: nat
  gc_EVENTLOOP_DETECTION_INTERVAL_IN_SECONDS :: nat
  gc_EVENTLOOP_TIMEOUT_IN_SECONDS :: nat
  gc_EVENTLOOP_RESET_THRESHOLD_IN_SECONDS :: nat
  MESSAGE_GAME_BASE_MSG :: string
  MESSAGE_GAME_HEARTBEAT_MSG :: string
  MESSAGE_GAME_MSG :: string
  MESSAGE_GAME_CHARACTER_MSG :: string
  gc_BROKER_CONN_HOST :: string
  gc_BROKER_CONN_PORT :: int
  gc_BROKER_CONN_PASSWORD :: string
  gc_BROKER_CONN_DB :: int
  gc_BROKER_CONN_POOL_SIZE :: int
  gc_REGISTRY_CONN_HOST :: string
  gc_REGISTRY_CONN_PORT :: int
  gc_REGISTRY_CONN_PASSWORD :: string
  gc_REGISTRY_CONN_DB :: int
  gc_REGISTRY_CONN_POOL_SIZE :: int
  gc_SERVICE_REGISTRY_ID_KEY :: string
  gc_SERVICE_KEYS :: string
  gc_GAME_KEYS :: string
  gc_GATEWAY_KEYS :: string
  gc_BROKER_DB_KEY :: string
  gc_BROKER_DB_GROUP :: string
  BROKER_GAME_KEY :: string
  BROKER_GAME_GROUP :: string
  BROKER_GAME_KEY_HEARTBEAT_IN_SECOND :: nat
  BROKER_GAME_KEY_HEARTBEAT_TOLERANCE :: nat
  BROKER_GAME_KEY_HEARTBEAT_MESSAGE :: string
  gc_SERVICE_REGISTRY_CHANNEL :: string
  SERVICE_DS_PREFIX :: string
  gc_STREAM_CUSTOMER_PULL_NAP_IN_MILLISECONDS :: nat

definition GameServConf :: game_conf where
  "GameServConf =
     \<lparr>gc_SERVER_IO_THREAD_NUM = 4,
      gc_SERVER_SAFE_HASH_BUCKET_SIZE = 1031,
      gc_CONNECTION_BLACKLIST = [],
      gc_HEARTBEAT_TIMEOUT_IN_SECONDS = 600,
      gc_EVENTLOOP_DETECTION_INTERVAL_IN_SECONDS = 30,
      gc_EVENTLOOP_TIMEOUT_IN_SECONDS = 300,
      gc_EVENTLOOP_RESET_THRESHOLD_IN_SECONDS = 3600,
      MESSAGE_GAME_BASE_MSG = ''GAME_BASE_MSG'',
      MESSAGE_GAME_HEARTBEAT_MSG = ''HEARTBEAT_MSG'',
      MESSAGE_GAME_MSG = ''GAME_MSG'',
      MESSAGE_GAME_CHARACTER_MSG = ''GAME_CHARACTER_MSG'',
      gc_BROKER_CONN_HOST = ''127.0.0.1'',
      gc_BROKER_CONN_PORT = 6379,
      gc_BROKER_CONN_PASSWORD = [],
      gc_BROKER_CONN_DB = 0,
      gc_BROKER_CONN_POOL_SIZE = 5,
      gc_REGISTRY_CONN_HOST = ''127.0.0.1'',
      gc_REGISTRY_CONN_PORT = 6379,
      gc_REGISTRY_CONN_PASSWORD = [],
      gc_REGISTRY_CONN_DB = 0,
      gc_REGISTRY_CONN_POOL_SIZE = 1,
      gc_SERVICE_REGISTRY_ID_KEY = ''Warring:ServReg:IDSuffix'',
      gc_SERVICE_KEYS = ''Warring:Service:KEYS'',
      gc_GAME_KEYS = ''Warring:Service:GAMES'',
      gc_GATEWAY_KEYS = ''Warring:Service:GATEWAYS'',
      gc_BROKER_DB_KEY = ''Warring:DBServ4GameServ'',
      gc_BROKER_DB_GROUP = ''Warring:DBServ:Group'',
      BROKER_GAME_KEY = ''Warring:GameServ_'',
      BROKER_GAME_GROUP = ''GameServ:Group'',
      BROKER_GAME_KEY_HEARTBEAT_IN_SECOND = 5,
      BROKER_GAME_KEY_HEARTBEAT_TOLERANCE = 3,
      BROKER_GAME_KEY_HEARTBEAT_MESSAGE = ''SEND_HEARTBEAT'',
      gc_SERVICE_REGISTRY_CHANNEL = ''Warring:ServReg:Channel'',
      SERVICE_DS_PREFIX = ''Warring:Scene:'',
      gc_STREAM_CUSTOMER_PULL_NAP_IN_MILLISECONDS = 100\<rparr>"

datatype game_object =
    GameTimestamp timestamp_message
  | GameHeartBeat heart_beat_packet
  | GameDS ds_message
  | GameCharacter ds_load_or_upload_character_message

fun game_deserialize :: "bytes \<Rightarrow> game_object \<Rightarrow> game_object result" where
  "game_deserialize data (GameTimestamp m) = rbind (TimestampMessage_deserialize data m) (\<lambda>m. Inr (GameTimestamp m))"
| "game_deserialize data (GameHeartBeat m) = rbind (TimestampMessage_deserialize data m) (\<lambda>m. Inr (GameHeartBeat m))"
| "game_deserialize data (GameDS m) = rbind (DSMessage_deserialize data m) (\<lambda>m. Inr (GameDS m))"
| "game_deserialize data (GameCharacter m) =
     rbind (DSLoadOrUploadCharacterMessage_deserialize data m) (\<lambda>m. Inr (GameCharacter m))"

text \<open>Default constructed objects; \<open>garbage\<close> are the members without initialiser.\<close>

definition new_DSMessage :: "u64 \<Rightarrow> u64 \<times> i32 \<times> i32 \<times> i32 \<Rightarrow> ds_message" where
  "new_DSMessage now garbage =
     (case garbage of (code, port, scene, load) \<Rightarrow>
        timestamp_message.extend (new_TimestampMessage now)
          \<lparr>DS_CODE = code, DS_PORT = port, DS_SCENE_ID = scene, DS_LOAD = load, DS_SCENE_DATA = []\<rparr>)"

definition new_DSLoadOrUploadCharacterMessage ::
  "u64 \<Rightarrow> u64 \<times> i32 \<Rightarrow> ds_load_or_upload_character_message"
where
  "new_DSLoadOrUploadCharacterMessage now garbage =
     timestamp_message.extend (new_TimestampMessage now)
       \<lparr>DL_CODE = fst garbage, DL_SCENE_ID = snd garbage, DL_ACCOUNT = [], DL_CHARACTER_NAME = [],
        DL_CHARACTER_DATA = []\<rparr>"

text \<open>The \<^verbatim>\<open>switch\<close> over the code: the code of the answer and what becomes of the scenes.\<close>

definition ds_request ::
  "game_conf \<Rightarrow> ds_message \<Rightarrow> tcp_connection \<Rightarrow> scenes \<Rightarrow> redis \<Rightarrow> log \<Rightarrow> u64 \<times> scenes \<times> log"
where
  "ds_request conf m c scenes srv log =
     (if DS_CODE m = GAME_DS_REGISTER_CODE then
        (let sceneKey = generateSceneIDKey (SERVICE_DS_PREFIX conf) (DS_SCENE_ID m) in
         case registerScene (mPeerIP c) sceneKey (DS_PORT m) (DS_LOAD m) scenes srv log of
           (result, scenes, log) \<Rightarrow>
             (if result \<ge> 0 then GAME_DS_REGISTER_SUCCESS else GAME_DS_REGISTER_ERROR, scenes, log))
      else if DS_CODE m = GAME_DS_UPDATE_CODE then
        (let sceneKey = generateSceneIDKey (SERVICE_DS_PREFIX conf) (DS_SCENE_ID m) in
         case updateScene (mPeerIPPort c) sceneKey (DS_LOAD m) srv log of
           (result, log) \<Rightarrow>
             (if result \<ge> 0 then GAME_DS_UPDATE_SUCCESS else GAME_DS_UPDATE_ERROR, scenes, log))
      else if DS_CODE m = GAME_DS_QUIT_CODE then
        (case removeScene (mPeerIPPort c) scenes srv log of
           (result, scenes, log) \<Rightarrow>
             (if result \<ge> 0 then GAME_DS_QUIT_SUCCESS else GAME_DS_QUIT_ERROR, scenes, log))
      else (GAME_DS_UNKNOWN_ERROR, scenes, log))"

text \<open>\<^verbatim>\<open>dsResMsg\<close> is an automatic variable: its port and load are indeterminate (\<open>garbage\<close>).\<close>

definition ds_response :: "u64 \<Rightarrow> i32 \<times> i32 \<Rightarrow> u64 \<Rightarrow> ds_message \<Rightarrow> ds_message" where
  "ds_response now garbage code m =
     timestamp_message.extend ((new_TimestampMessage now)\<lparr>MSG_NAME := MSG_NAME m\<rparr>)
       \<lparr>DS_CODE = code, DS_PORT = fst garbage, DS_SCENE_ID = DS_SCENE_ID m, DS_LOAD = snd garbage,
        DS_SCENE_DATA = []\<rparr>"

definition handle_ds ::
  "game_conf \<Rightarrow> redis \<Rightarrow> u64 \<Rightarrow> i32 \<times> i32 \<Rightarrow> nat option \<Rightarrow> ds_message \<Rightarrow> tcp_connection \<Rightarrow> scenes \<Rightarrow> log \<Rightarrow>
   (tcp_connection \<times> scenes \<times> log) result"
where
  "handle_ds conf srv now garbage accepted m c scenes log =
     (let c = setCurrentTimestamp (MILLISECONDS_SINCE_EPOCH m) c in
      case ds_request conf m c scenes srv log of (code, scenes, log) \<Rightarrow>
        rbind (DSMessage_serialize (DSMessage_count (ds_response now garbage code m))) (\<lambda>(data, _).
        Inr (send data accepted c, scenes, log)))"

definition game_carrier :: "game_conf \<Rightarrow> string \<Rightarrow> bytes \<Rightarrow> tcp_connection \<Rightarrow> client_carrier" where
  "game_carrier conf type msg c =
     new_client_carrier\<lparr>CARRIER_TYPE := type, CARRIER_SERVICE := BROKER_GAME_KEY conf,
       CARRIER_NEXT_SERVICE := gc_BROKER_DB_KEY conf, CLIENT_ID := mName c,
       CLIENT_ADDRESS := mPeerIPPort c, CARRIER_MESSAGE := msg\<rparr>"

text \<open>\<open>reg\<close> and \<open>brk\<close> are the redis of the registry and of the broker.\<close>

definition game_dispatch ::
  "game_conf \<Rightarrow> redis \<Rightarrow> redis \<Rightarrow> u64 \<Rightarrow> i32 \<times> i32 \<Rightarrow> nat option \<Rightarrow> bytes \<Rightarrow> game_object \<Rightarrow> tcp_connection \<Rightarrow>
   scenes \<Rightarrow> log \<Rightarrow> log \<Rightarrow> (tcp_connection \<times> scenes \<times> log \<times> log) result"
where
  "game_dispatch conf reg brk now garbage accepted msg obj c scenes regLog brkLog =
     (case obj of
        GameTimestamp m \<Rightarrow> Inr (c, scenes, regLog, brkLog)
      | GameDS m \<Rightarrow>
          rbind (handle_ds conf reg now garbage accepted m c scenes regLog) (\<lambda>(c, scenes, regLog).
          Inr (c, scenes, regLog, brkLog))
      | GameCharacter m \<Rightarrow>
          (let c = setCurrentTimestamp (MILLISECONDS_SINCE_EPOCH m) c;
               carrier = game_carrier conf (MSG_NAME m) msg c in
           Inr (c, scenes, regLog, snd (push (gc_BROKER_DB_KEY conf) (Game_FILL_2_VEC carrier []) 5000 brk brkLog)))
      | GameHeartBeat m \<Rightarrow>
          rbind (reply_heartbeat (MESSAGE_GAME_HEARTBEAT_MSG conf) now accepted
                   (setCurrentTimestamp (MILLISECONDS_SINCE_EPOCH m) c))
            (\<lambda>c. Inr (c, scenes, regLog, brkLog)))"

definition game_messageFunc ::
  "game_conf \<Rightarrow> redis \<Rightarrow> redis \<Rightarrow> u64 \<Rightarrow> i32 \<times> i32 \<Rightarrow> nat option \<Rightarrow> thread_id \<Rightarrow> tcp_connection option \<Rightarrow>
   game_object message_types \<Rightarrow> scenes \<Rightarrow> log \<Rightarrow> log \<Rightarrow>
   (tcp_connection option \<times> game_object message_types \<times> scenes \<times> log \<times> log) result"
where
  "game_messageFunc conf reg brk now garbage accepted tid conn types scenes regLog brkLog =
     (case conn of
        None \<Rightarrow> Inr (None, types, scenes, regLog, brkLog)
      | Some c \<Rightarrow>
          rbind (receive_message game_deserialize now tid c types) (\<lambda>(received, c, types).
          case received of
            None \<Rightarrow> Inr (Some c, types, scenes, regLog, brkLog)
          | Some (msg, obj) \<Rightarrow>
              rbind (game_dispatch conf reg brk now garbage accepted msg obj c scenes regLog brkLog)
                (\<lambda>(c, scenes, regLog, brkLog). Inr (Some c, types, scenes, regLog, brkLog))))"

text \<open>\<^verbatim>\<open>GameHeartbeatOp::checkHeartbeat\<close> and \<^verbatim>\<open>GameServer::closeFunc\<close> also drop the scene.\<close>

definition game_checkHeartbeat ::
  "nat \<Rightarrow> u64 \<Rightarrow> tcp_connection option \<Rightarrow> scenes \<Rightarrow> redis \<Rightarrow> log \<Rightarrow> conn_event \<times> scenes \<times> log"
where
  "game_checkHeartbeat timeoutSeconds now conn scenes srv log =
     (case conn of
        None \<Rightarrow> (NoEvent, scenes, log)
      | Some c \<Rightarrow>
          if heartbeat_timed_out timeoutSeconds now (mCommunicationTimestamp c)
          then (case removeScene (mPeerIPPort c) scenes srv log of (_, scenes, log) \<Rightarrow>
                  (activeClose False c, scenes, log))
          else (NoEvent, scenes, log))"

definition game_closeFunc :: "string \<Rightarrow> scenes \<Rightarrow> redis \<Rightarrow> log \<Rightarrow> scenes \<times> log" where
  "game_closeFunc address scenes srv log =
     (case removeScene address scenes srv log of (_, scenes, log) \<Rightarrow> (scenes, log))"

lemma double_of_int_examples:
  "double_of_int 1 = 0x3FF0000000000000" "double_of_int (-3) = 0xC008000000000000"
  by (simp_all add: double_of_int_def Let_def ilog2.simps [of 1] ilog2.simps [of 3] ilog2.simps [of "Suc 0"])

section \<open>The sorted sets of redis\<close>

text \<open>The members of the sorted set at a key after the commands, had it been empty before.\<close>

definition zset_step :: "string \<Rightarrow> redis_command \<Rightarrow> string set \<Rightarrow> string set" where
  "zset_step key cmd S =
     (case cmd of
        ZADD k m s \<Rightarrow> if k = key then insert m S else S
      | ZREM k m \<Rightarrow> if k = key then S - {m} else S
      | _ \<Rightarrow> S)"

definition zmembers :: "string \<Rightarrow> log \<Rightarrow> string set" where
  "zmembers key log = fold (zset_step key) log {}"

lemma zmembers_append [simp]:
  "zmembers key (log @ cmds) = fold (zset_step key) cmds (zmembers key log)"
  by (simp add: zmembers_def)

text \<open>Redis answers \<^verbatim>\<open>ZADD\<close> and \<^verbatim>\<open>ZREM\<close> with the number of members added or removed.\<close>

definition zset_up :: "redis \<Rightarrow> bool" where
  "zset_up srv =
     ((\<forall>log k m s. srv log (ZADD k m s) \<in> {IntReply 0, IntReply 1}) \<and>
      (\<forall>log k m. srv log (ZREM k m) \<in> {IntReply 0, IntReply 1}))"

lemma sortedAdd_up:
  assumes "zset_up srv"
  shows "\<exists>r. sortedAdd key member s srv log = (r, log @ [ZADD key member s]) \<and> int_of_long r \<ge> 0"
proof -
  have "srv log (ZADD key member s) \<in> {IntReply 0, IntReply 1}" using assms by (simp add: zset_up_def)
  then show ?thesis by (auto simp: sortedAdd_def try_call_def int_of_long_def)
qed

lemma sortedRemove_up:
  assumes "zset_up srv"
  shows "\<exists>r. sortedRemove key member srv log = (r, log @ [ZREM key member]) \<and> int_of_long r \<ge> 0"
proof -
  have "srv log (ZREM key member) \<in> {IntReply 0, IntReply 1}" using assms by (simp add: zset_up_def)
  then show ?thesis by (auto simp: sortedRemove_def try_call_def int_of_long_def)
qed

abbreviation scene_key :: "game_conf \<Rightarrow> ds_message \<Rightarrow> string" where
  "scene_key conf m \<equiv> generateSceneIDKey (SERVICE_DS_PREFIX conf) (DS_SCENE_ID m)"

lemma request_register:
  assumes "zset_up srv" and "DS_CODE m = GAME_DS_REGISTER_CODE"
    and "scenes (scene_address (mPeerIP c) (DS_PORT m)) = None"
  shows "ds_request conf m c scenes srv log =
    (GAME_DS_REGISTER_SUCCESS, scenes(scene_address (mPeerIP c) (DS_PORT m) \<mapsto> scene_key conf m),
     log @ [ZADD (scene_key conf m) (scene_address (mPeerIP c) (DS_PORT m)) (double_of_int (sint (DS_LOAD m)))])"
  using sortedAdd_up [OF assms(1), of "scene_key conf m" "scene_address (mPeerIP c) (DS_PORT m)"
      "double_of_int (sint (DS_LOAD m))" log] assms(2,3)
  by (auto simp: ds_request_def registerScene_def Let_def)

lemma request_update:
  assumes "zset_up srv" and "DS_CODE m = GAME_DS_UPDATE_CODE"
  shows "ds_request conf m c scenes srv log =
    (GAME_DS_UPDATE_SUCCESS, scenes,
     log @ [ZADD (scene_key conf m) (mPeerIPPort c) (double_of_int (sint (DS_LOAD m)))])"
  using sortedAdd_up [OF assms(1), of "scene_key conf m" "mPeerIPPort c"
      "double_of_int (sint (DS_LOAD m))" log] assms(2)
  by (auto simp: ds_request_def updateScene_def Let_def game_codes)

lemma request_quit:
  assumes "zset_up srv" and "DS_CODE m = GAME_DS_QUIT_CODE"
  shows "ds_request conf m c scenes srv log =
    (case scenes (mPeerIPPort c) of
       None \<Rightarrow> (GAME_DS_QUIT_ERROR, scenes, log)
     | Some key \<Rightarrow> (GAME_DS_QUIT_SUCCESS, scenes(mPeerIPPort c := None), log @ [ZREM key (mPeerIPPort c)]))"
  using sortedRemove_up [OF assms(1), of _ "mPeerIPPort c" log] assms(2)
  by (auto simp: ds_request_def removeScene_def Let_def game_codes split: option.splits prod.splits)
     (metis prod.inject)+

section \<open>Properties\<close>

text \<open>
  A scene server that connects from the very port it serves on can be registered and taken
  out again: registering and quitting both succeed, the table is as before, and its address is no
  longer in the sorted set of its scene.
\<close>

theorem scene_register_quit:
  assumes "zset_up srv" and "mPeerIPPort c = scene_address (mPeerIP c) (DS_PORT m)"
    and "DS_CODE m = GAME_DS_REGISTER_CODE" and "DS_CODE q = GAME_DS_QUIT_CODE"
    and "scenes (mPeerIPPort c) = None"
  shows "\<exists>s1 l1 l2. ds_request conf m c scenes srv log = (GAME_DS_REGISTER_SUCCESS, s1, l1) \<and>
    mPeerIPPort c \<in> zmembers (scene_key conf m) l1 \<and>
    ds_request conf q c s1 srv l1 = (GAME_DS_QUIT_SUCCESS, scenes, l2) \<and>
    mPeerIPPort c \<notin> zmembers (scene_key conf m) l2"
proof -
  have "scenes(mPeerIPPort c := None) = scenes" using assms(5) by auto
  then show ?thesis
    using request_register [OF assms(1,3), of scenes c conf log] assms(2,5)
      request_quit [OF assms(1,4)]
    by (simp add: zset_step_def)
qed

text \<open>
  A scene server registers under its serving port, but is updated and removed under the
  peer's port of its connection. When the two differ, an update puts a second, unknown address
  into the sorted set, the quit request is answered with an error, and neither the quit nor the
  closing of the connection takes any of the two addresses out: the servers keep handing out a
  scene server that is gone.
\<close>

theorem scene_server_leaves_entries:
  assumes "zset_up srv" and "mPeerIPPort c \<noteq> scene_address (mPeerIP c) (DS_PORT m)"
    and "DS_CODE m = GAME_DS_REGISTER_CODE" and "DS_CODE u = GAME_DS_UPDATE_CODE"
    and "DS_CODE q = GAME_DS_QUIT_CODE" and "DS_SCENE_ID u = DS_SCENE_ID m"
    and "scenes (mPeerIPPort c) = None" and "scenes (scene_address (mPeerIP c) (DS_PORT m)) = None"
  shows "\<exists>s1 l1 l2 l3. ds_request conf m c scenes srv log = (GAME_DS_REGISTER_SUCCESS, s1, l1) \<and>
    ds_request conf u c s1 srv l1 = (GAME_DS_UPDATE_SUCCESS, s1, l2) \<and>
    ds_request conf q c s1 srv l2 = (GAME_DS_QUIT_ERROR, s1, l2) \<and>
    game_closeFunc (mPeerIPPort c) s1 srv l2 = (s1, l3) \<and>
    {scene_address (mPeerIP c) (DS_PORT m), mPeerIPPort c} \<subseteq> zmembers (scene_key conf m) l3"
  using request_register [where scenes = scenes, OF assms(1,3,8), of conf log] request_update [OF assms(1,4)]
    request_quit [OF assms(1,5)] assms(2,6,7)
  by (simp add: zset_step_def game_closeFunc_def removeScene_def)

text \<open>
  The answer to a request of a scene server is one message with the name and the scene of the
  request and the code of the outcome, put behind what has been sent; but its port and its load
  are whatever the memory of the automatic variable held.
\<close>

theorem scene_answer_leaks_memory:
  assumes "ds_request conf m (setCurrentTimestamp (MILLISECONDS_SINCE_EPOCH m) c) scenes srv log = (code, scenes', log')"
    and "mDataQueue (mOutputBuffer c) = []"
    and "wire_length (MSG_NAME m) (DSMessage_members (ds_response now garbage code m)) < 2 ^ 64"
    and "k \<le> wire_length (MSG_NAME m) (DSMessage_members (ds_response now garbage code m))"
  shows "\<exists>c'. handle_ds conf srv now garbage (Some k) m c scenes log = Inr (c', scenes', log') \<and>
    mCommunicationTimestamp c' = MILLISECONDS_SINCE_EPOCH m \<and>
    outgoing c' = outgoing c @ wire_image (MSG_NAME m)
      [m_u64 code, m_i32 (fst garbage), m_i32 (DS_SCENE_ID m), m_i32 (snd garbage), Str []]"
proof -
  let ?r = "ds_response now garbage code m" and ?c = "setCurrentTimestamp (MILLISECONDS_SINCE_EPOCH m) c"
  have name: "MSG_NAME ?r = MSG_NAME m"
    by (simp add: ds_response_def timestamp_message.defs)
  have ms: "DSMessage_members ?r = [m_u64 code, m_i32 (fst garbage), m_i32 (DS_SCENE_ID m), m_i32 (snd garbage), Str []]"
    by (simp add: ds_response_def timestamp_message.defs DSMessage_members_def)
  have "uncounted ?r"
    by (simp add: uncounted_def ds_response_def timestamp_message.defs new_TimestampMessage_def
        base_message.defs new_base_def)
  then obtain r' where r': "DSMessage_serialize (DSMessage_count ?r) =
      Inr (wire_image (MSG_NAME m) (DSMessage_members ?r), r')"
    using DSMessage_m.count_serialize [of ?r] assms(3) name
    by (auto simp: DSMessage_serialize_def DSMessage_count_def)
  have idle: "mDataQueue (mOutputBuffer ?c) = []" using assms(2) by simp
  have len: "k \<le> length (wire_image (MSG_NAME m) (DSMessage_members ?r))" using assms(4) by simp
  show ?thesis
    using assms(1) r' send_idle [OF idle len] ms by (simp add: handle_ds_def Let_def)
qed

definition demo_ds :: "u64 \<Rightarrow> ds_message" where
  "demo_ds code = timestamp_message.extend ((new_TimestampMessage 9)\<lparr>MSG_NAME := ''GAME_MSG''\<rparr>)
     \<lparr>DS_CODE = code, DS_PORT = 80, DS_SCENE_ID = 7, DS_LOAD = 3, DS_SCENE_DATA = []\<rparr>"

lemma demo_ds_sel [simp]:
  "DS_CODE (demo_ds code) = code" "DS_PORT (demo_ds code) = 80" "DS_SCENE_ID (demo_ds code) = 7"
  "MSG_NAME (demo_ds code) = ''GAME_MSG''"
  by (simp_all add: demo_ds_def timestamp_message.defs)

lemma demo_peer [simp]: "mPeerIP (demo_conn bs) = ''ip''" "mPeerIPPort (demo_conn bs) = ''ip:1''"
  by (simp_all add: demo_conn_def new_TcpConnection_def loop_update_def Let_def)

lemma demo_address: "scene_address ''ip'' 80 = ''ip:80''"
  by code_simp

lemma demo_up: "zset_up (\<lambda>_ _. IntReply 1)"
  by (simp add: zset_up_def)

theorem scene_register_quit_witness:
  "\<exists>s1 l1 l2. ds_request GameServConf (demo_ds GAME_DS_REGISTER_CODE) ((demo_conn [])\<lparr>mPeerIPPort := ''ip:80''\<rparr>)
      Map.empty (\<lambda>_ _. IntReply 1) [] = (GAME_DS_REGISTER_SUCCESS, s1, l1) \<and>
    ds_request GameServConf (demo_ds GAME_DS_QUIT_CODE) ((demo_conn [])\<lparr>mPeerIPPort := ''ip:80''\<rparr>)
      s1 (\<lambda>_ _. IntReply 1) l1 = (GAME_DS_QUIT_SUCCESS, Map.empty, l2)"
  using scene_register_quit [OF demo_up, of "(demo_conn [])\<lparr>mPeerIPPort := ''ip:80''\<rparr>"
      "demo_ds GAME_DS_REGISTER_CODE" "demo_ds GAME_DS_QUIT_CODE" Map.empty GameServConf "[]"]
  by (auto simp: demo_address)

theorem scene_server_leaves_entries_witness:
  "\<exists>s1 l1 l2 l3. ds_request GameServConf (demo_ds GAME_DS_REGISTER_CODE) (demo_conn [])
      Map.empty (\<lambda>_ _. IntReply 1) [] = (GAME_DS_REGISTER_SUCCESS, s1, l1) \<and>
    ds_request GameServConf (demo_ds GAME_DS_QUIT_CODE) (demo_conn []) s1 (\<lambda>_ _. IntReply 1) l2 =
      (GAME_DS_QUIT_ERROR, s1, l2) \<and>
    {''ip:80'', ''ip:1''} \<subseteq> zmembers (scene_key GameServConf (demo_ds GAME_DS_REGISTER_CODE)) l3"
  using scene_server_leaves_entries [OF demo_up, of "demo_conn []"
      "demo_ds GAME_DS_REGISTER_CODE" "demo_ds GAME_DS_UPDATE_CODE" "demo_ds GAME_DS_QUIT_CODE" Map.empty GameServConf "[]"]
  by (auto simp: demo_address)

theorem scene_answer_leaks_memory_witness:
  "\<exists>c'. handle_ds GameServConf (\<lambda>_ _. IntReply 1) 5 (17, 4) (Some 3) (demo_ds 1) (demo_conn []) Map.empty [] =
      Inr (c', Map.empty, []) \<and>
    outgoing c' = wire_image ''GAME_MSG'' [m_u64 GAME_DS_UNKNOWN_ERROR, m_i32 17, m_i32 7, m_i32 4, Str []]"
proof -
  have req: "ds_request GameServConf (demo_ds 1)
      (setCurrentTimestamp (MILLISECONDS_SINCE_EPOCH (demo_ds 1)) (demo_conn [])) Map.empty (\<lambda>_ _. IntReply 1) [] =
      (GAME_DS_UNKNOWN_ERROR, Map.empty, [])"
    by (simp add: ds_request_def game_codes)
  have "wire_length ''GAME_MSG'' (DSMessage_members (ds_response 5 (17, 4) GAME_DS_UNKNOWN_ERROR (demo_ds 1))) = 60"
    by (simp add: ds_response_def timestamp_message.defs DSMessage_members_def wire_length_def name_lens_def)
  then show ?thesis
    using scene_answer_leaks_memory [OF req, of 5 "(17, 4)" 3] by fastforce
qed

end
