(* ===== verification/Tcp_Server.thy ===== *)
theory Tcp_Server
  imports Event_Loop Safe_Hashmap Wheel_Timer Tcp_Connection
begin

text \<open>
  \<^verbatim>\<open>Base/net/TcpServer.h\<close> with the decisions of \<^verbatim>\<open>Acceptor.h\<close>: the table of connections, their
  creation and removal, the dispatch of the events of a connection, and the timer tasks.

  A connection is an object on the heap that lives as long as some \<^verbatim>\<open>std::shared_ptr\<close> owns it: an
  entry of the table, the pointer bound in its own \<^verbatim>\<open>mCloseFunc\<close>, or a local variable of a thread.
  \<open>ts_conns\<close> is the heap, \<open>ts_bound\<close> the objects whose bound pointer has not been reset, \<open>ts_held\<close>
  the local owners. Each operation below is what one thread does under one lock or between two
  points where another thread can interfere; \<open>newConnectionFunc\<close> is split where the event loop can
  already report the new descriptor. What the loops' pollers hold is the subject of \<^verbatim>\<open>Pollers\<close>.

  The server above (login, gateway, game) is the argument of the operations: its state is \<open>'w\<close>, its
  \<^verbatim>\<open>messageFunc\<close> and \<^verbatim>\<open>closeFunc\<close> are the arguments \<open>onMessage\<close> and \<open>onClose\<close>. System call results are arguments.
\<close>

section \<open>State\<close>

text \<open>A timer task of the server is a value of \<open>'t\<close>, what the timer calls is the id it pushes.\<close>

record 't tcp_server =
  ts_mServName :: string
  ts_mTcpConnections :: "(string, addr) safe_hashmap"
  ts_mConnBlacklist :: "string set"
  ts_mEventLoopThreadpool :: loop_pool
  ts_mTimer :: "string wheel_timer option"
  ts_mTimerTasks :: "string \<rightharpoonup> 't"
  ts_mTimeoutTaskIDQueue :: "string list"
  ts_conns :: "addr \<rightharpoonup> tcp_connection"
  ts_bound :: "addr set"
  ts_held :: "addr list"

definition new_TcpServer ::
  "string \<Rightarrow> nat \<Rightarrow> nat \<Rightarrow> nat \<Rightarrow> (string \<Rightarrow> nat) \<Rightarrow> 't tcp_server"
where
  "new_TcpServer servName hardwareNum thdNum bucketSize hashfunc =
     \<lparr>ts_mServName = servName, ts_mTcpConnections = new_SafeHashmap bucketSize hashfunc,
      ts_mConnBlacklist = {}, ts_mEventLoopThreadpool = new_EventLoopThreadpool hardwareNum thdNum,
      ts_mTimer = None, ts_mTimerTasks = Map.empty, ts_mTimeoutTaskIDQueue = [],
      ts_conns = Map.empty, ts_bound = {}, ts_held = []\<rparr>"

definition linkTimer :: "string wheel_timer option \<Rightarrow> 't tcp_server \<Rightarrow> bool \<times> 't tcp_server" where
  "linkTimer timer s = (timer \<noteq> None, s\<lparr>ts_mTimer := timer\<rparr>)"

definition addToBlacklist :: "string list \<Rightarrow> 't tcp_server \<Rightarrow> 't tcp_server" where
  "addToBlacklist ips s = s\<lparr>ts_mConnBlacklist := ts_mConnBlacklist s \<union> set ips\<rparr>"

definition isInBlacklist :: "string \<Rightarrow> 't tcp_server \<Rightarrow> bool" where
  "isInBlacklist ip s = (ip \<in> ts_mConnBlacklist s)"

text \<open>The number is the sum over the first \<open>mEventLoopThdNum\<close> loops (\<^verbatim>\<open>getSize()\<close> of the pool).\<close>

definition getActiveConnectionNum :: "'t tcp_server \<Rightarrow> nat result" where
  "getActiveConnectionNum s =
     fold (\<lambda>i num. rbind num (\<lambda>num.
         rbind (getEventLoop (int i) (ts_mEventLoopThreadpool s)) (\<lambda>th.
           Inr (case th of None \<Rightarrow> num | Some th \<Rightarrow> wrap64 (num + et_events th)))))
       [0..<lp_mThreadNum (ts_mEventLoopThreadpool s)] (Inr 0)"

section \<open>Timer tasks\<close>

text \<open>\<open>ident\<close> is what \<^verbatim>\<open>generateID\<close> returns, a string made from the clock.\<close>

definition registerTimerTask ::
  "nat \<Rightarrow> nat \<Rightarrow> nat \<Rightarrow> int \<Rightarrow> 't \<Rightarrow> string \<Rightarrow> 't tcp_server \<Rightarrow> bool \<times> 't tcp_server"
where
  "registerTimerTask hours minutes seconds cyc func ident s =
     (case ts_mTimer s of
        None \<Rightarrow> (False, s)
      | Some timer \<Rightarrow>
          (case ts_mTimerTasks s ident of
             None \<Rightarrow>
               (True, s\<lparr>ts_mTimerTasks := (ts_mTimerTasks s)(ident \<mapsto> func),
                        ts_mTimer := Some (addTask (new_TimerTask hours minutes seconds cyc ident (Some ident)) timer)\<rparr>)
           | Some _ \<Rightarrow> (False, s)))"

definition pushTaskID :: "string \<Rightarrow> 't tcp_server \<Rightarrow> 't tcp_server" where
  "pushTaskID ident s = s\<lparr>ts_mTimeoutTaskIDQueue := ts_mTimeoutTaskIDQueue s @ [ident]\<rparr>"

text \<open>One round of the loop of \<^verbatim>\<open>timerWork\<close> with \<^verbatim>\<open>runTimerTask\<close>: \<open>None\<close> when it waits, otherwise the
  function it calls, if the id has one.\<close>

definition runTimerTask :: "string \<Rightarrow> 't tcp_server \<Rightarrow> 't option" where
  "runTimerTask ident s = ts_mTimerTasks s ident"

definition timerWork :: "'t tcp_server \<Rightarrow> ('t option \<times> 't tcp_server) option" where
  "timerWork s =
     (case ts_mTimeoutTaskIDQueue s of
        [] \<Rightarrow> None
      | ident # q \<Rightarrow> Some (runTimerTask ident s, s\<lparr>ts_mTimeoutTaskIDQueue := q\<rparr>))"

text \<open>The timer thread: \<open>k\<close> seconds, each call of a task pushes its id.\<close>

definition timer_seconds :: "nat \<Rightarrow> 't tcp_server \<Rightarrow> 't tcp_server result option" where
  "timer_seconds k s =
     (case ts_mTimer s of
        None \<Rightarrow> Some (Inr s)
      | Some timer \<Rightarrow>
          then_do (ticks k timer) (\<lambda>timer'.
            Some (Inr (fold (pushTaskID \<circ> snd) (drop (length (tw_fired timer)) (tw_fired timer'))
              (s\<lparr>ts_mTimer := Some timer'\<rparr>)))))"

definition timer_register :: "'t tcp_server \<Rightarrow> 't tcp_server result" where
  "timer_register s =
     (case ts_mTimer s of
        None \<Rightarrow> Inr s
      | Some timer \<Rightarrow> rbind (registerTask timer) (\<lambda>timer. Inr (s\<lparr>ts_mTimer := Some timer\<rparr>)))"

section \<open>Ownership\<close>

definition table_addrs :: "'t tcp_server \<Rightarrow> addr list" where
  "table_addrs s = concat (map Bucket_readAll (mHashtable (ts_mTcpConnections s)))"

definition owned :: "'t tcp_server \<Rightarrow> addr \<Rightarrow> bool" where
  "owned s a = (a \<in> set (table_addrs s) \<or> a \<in> ts_bound s \<or> a \<in> set (ts_held s))"

text \<open>An object that lost its last owner is destroyed.\<close>

definition collect :: "'t tcp_server \<Rightarrow> 't tcp_server" where
  "collect s = s\<lparr>ts_conns := (\<lambda>a. if owned s a then ts_conns s a else None)\<rparr>"

definition hold :: "addr \<Rightarrow> 't tcp_server \<Rightarrow> 't tcp_server" where
  "hold a s = s\<lparr>ts_held := a # ts_held s\<rparr>"

definition unhold :: "addr \<Rightarrow> 't tcp_server \<Rightarrow> 't tcp_server" where
  "unhold a s = collect (s\<lparr>ts_held := remove1 a (ts_held s)\<rparr>)"

text \<open>The object behind a pointer that the code dereferences.\<close>

definition conn_at :: "addr \<Rightarrow> 't tcp_server \<Rightarrow> tcp_connection result" where
  "conn_at a s = (case ts_conns s a of None \<Rightarrow> Inl UseAfterFree | Some c \<Rightarrow> Inr c)"

definition set_conn :: "addr \<Rightarrow> tcp_connection \<Rightarrow> 't tcp_server \<Rightarrow> 't tcp_server" where
  "set_conn a c s = s\<lparr>ts_conns := (ts_conns s)(a \<mapsto> c)\<rparr>"

text \<open>\<^verbatim>\<open>getConnPtrRef\<close>: a pointer the caller holds from then on.\<close>

definition getConnPtrRef :: "string \<Rightarrow> 't tcp_server \<Rightarrow> (addr option \<times> 't tcp_server) result" where
  "getConnPtrRef connID s =
     rbind (SafeHashmap_find connID (ts_mTcpConnections s)) (\<lambda>r.
       Inr (case r of None \<Rightarrow> (None, s) | Some a \<Rightarrow> (Some a, hold a s)))"

section \<open>Accepting a connection\<close>

record socket_addr =
  sa_ip :: string
  sa_hostService :: string

definition generateConnID :: "int \<Rightarrow> socket_addr \<Rightarrow> 't tcp_server \<Rightarrow> string" where
  "generateConnID connfd peerAddr s =
     ts_mServName s @ ''_fd'' @ to_string connfd @ ''_'' @ sa_hostService peerAddr"

text \<open>
  \<^verbatim>\<open>newConnectionFunc\<close> up to the call of \<^verbatim>\<open>mConnNameFunc\<close>: the name of the connection, if one was
  made. \<open>a\<close> is the address of the new object, \<open>garbage\<close> its uninitialised \<^verbatim>\<open>mRevents\<close>. The
  constructor has registered the descriptor with the event loop by then. The local \<^verbatim>\<open>tcpConnPtr\<close>
  owns the object until the end of the function.
\<close>

definition newConnection_begin ::
  "int \<Rightarrow> socket_addr \<Rightarrow> addr \<Rightarrow> u32 \<Rightarrow> 't tcp_server \<Rightarrow> (string option \<times> 't tcp_server) result"
where
  "newConnection_begin connfd peerAddr a garbage s =
     rbind (getDesiredIndex ROUND_ROBIN (ts_mEventLoopThreadpool s)) (\<lambda>(index, pool).
     rbind (getEventLoop index pool) (\<lambda>eventloopPtr.
       let s = s\<lparr>ts_mEventLoopThreadpool := pool\<rparr> in
       case eventloopPtr of
         None \<Rightarrow> Inr (None, s)
       | Some _ \<Rightarrow>
           (let connName = generateConnID connfd peerAddr s;
                c = new_TcpConnection connfd (sa_ip peerAddr) (sa_hostService peerAddr) connName garbage;
                s = hold a (set_conn a c s) in
            rbind (SafeHashmap_insert connName a (ts_mTcpConnections s)) (\<lambda>table.
            Inr (Some connName, s\<lparr>ts_mTcpConnections := table\<rparr>)))))"

text \<open>The rest: the two callbacks; \<^verbatim>\<open>bind\<close> copies the pointer into the object's own callback.\<close>

definition newConnection_end :: "addr \<Rightarrow> 't tcp_server \<Rightarrow> 't tcp_server result" where
  "newConnection_end a s =
     rbind (conn_at a s) (\<lambda>c.
     let s = set_conn a (c\<lparr>mMessageFunc := True, mCloseFunc := True\<rparr>) s in
     Inr (unhold a (s\<lparr>ts_bound := insert a (ts_bound s)\<rparr>)))"

text \<open>\<open>connNameFunc\<close> is the callback of the server above, on this state alone in all three.\<close>

definition newConnectionFunc ::
  "(string \<Rightarrow> 't tcp_server \<Rightarrow> 't tcp_server) \<Rightarrow> int \<Rightarrow> socket_addr \<Rightarrow> addr \<Rightarrow> u32 \<Rightarrow> 't tcp_server \<Rightarrow>
   't tcp_server result"
where
  "newConnectionFunc connNameFunc connfd peerAddr a garbage s =
     rbind (newConnection_begin connfd peerAddr a garbage s) (\<lambda>(name, s).
       case name of
         None \<Rightarrow> Inr s
       | Some connName \<Rightarrow> newConnection_end a (connNameFunc connName s))"

text \<open>\<^verbatim>\<open>Acceptor::connFunc\<close> with \<^verbatim>\<open>connFilterFunc\<close>, the same in the three servers: \<open>Refused\<close> closes
  the descriptor.\<close>

datatype admission = NoConnection | Refused | Admitted

definition connFilterFunc :: "socket_addr \<Rightarrow> 't tcp_server \<Rightarrow> bool" where
  "connFilterFunc addr s = (\<not> isInBlacklist (sa_ip addr) s)"

definition connFunc ::
  "(string \<Rightarrow> 't tcp_server \<Rightarrow> 't tcp_server) \<Rightarrow> int \<Rightarrow> socket_addr \<Rightarrow> addr \<Rightarrow> u32 \<Rightarrow> 't tcp_server \<Rightarrow>
   (admission \<times> 't tcp_server) result"
where
  "connFunc connNameFunc connfd peerAddr a garbage s =
     (if connfd > 0 then
        (if connFilterFunc peerAddr s
         then rbind (newConnectionFunc connNameFunc connfd peerAddr a garbage s) (\<lambda>s. Inr (Admitted, s))
         else Inr (Refused, s))
      else Inr (NoConnection, s))"

section \<open>Removing a connection\<close>

text \<open>The callback \<^verbatim>\<open>mCloseFunc\<close> of the object at \<open>a\<close>; its argument keeps the object alive during the
  call. \<^verbatim>\<open>connPtr\<close> is the pointer bound in it, empty after the first call.\<close>

definition removeConnection ::
  "(string \<Rightarrow> 'w \<Rightarrow> 'w) \<Rightarrow> addr \<Rightarrow> 't tcp_server \<times> 'w \<Rightarrow> ('t tcp_server \<times> 'w) result"
where
  "removeConnection onClose a sw =
     (case sw of (s, w) \<Rightarrow>
        if a \<notin> ts_bound s then Inl NullDereference
        else rbind (conn_at a s) (\<lambda>c.
          rbind (SafeHashmap_erase (mName c) (ts_mTcpConnections s)) (\<lambda>table.
          Inr (collect (s\<lparr>ts_mTcpConnections := table, ts_bound := ts_bound s - {a}\<rparr>),
               onClose (mPeerIPPort c) w))))"

text \<open>What a connection's own \<^verbatim>\<open>closeFunc\<close> or \<^verbatim>\<open>activeClose\<close> ends in; \<open>CloseSocket\<close> closes the
  descriptor and leaves the object and the table alone.\<close>

definition close_event ::
  "(string \<Rightarrow> 'w \<Rightarrow> 'w) \<Rightarrow> conn_event \<Rightarrow> addr \<Rightarrow> 't tcp_server \<times> 'w \<Rightarrow> ('t tcp_server \<times> 'w) result"
where
  "close_event onClose ev a sw =
     (if ev = CloseEvent then removeConnection onClose a sw else Inr sw)"

section \<open>The events of a connection\<close>

text \<open>The results of the system calls of one \<^verbatim>\<open>doEvnet\<close>.\<close>

record io_results =
  io_received :: "bytes option"
  io_accepted :: "nat option"

text \<open>One callback of the handler: it is bound to the raw \<^verbatim>\<open>this\<close> of the connection.\<close>

definition run_callback ::
  "(tcp_connection \<Rightarrow> 'w \<Rightarrow> (tcp_connection \<times> 'w) result) \<Rightarrow> (string \<Rightarrow> 'w \<Rightarrow> 'w) \<Rightarrow> io_results \<Rightarrow> addr \<Rightarrow>
   callback \<Rightarrow> 't tcp_server \<times> 'w \<Rightarrow> ('t tcp_server \<times> 'w) result"
where
  "run_callback onMessage onClose io a cb sw =
     (case sw of (s, w) \<Rightarrow>
        rbind (conn_at a s) (\<lambda>c.
          case cb of
            ReadFunc \<Rightarrow>
              rbind (readFunc (io_received io) c) (\<lambda>(ev, c).
                if ev = MessageEvent
                then rbind (onMessage c w) (\<lambda>(c, w). Inr (set_conn a c s, w))
                else close_event onClose ev a (set_conn a c s, w))
          | WriteFunc \<Rightarrow> Inr (set_conn a (writeFunc (io_accepted io) c) s, w)
          | CloseFunc \<Rightarrow> close_event onClose (closeFunc c) a (s, w)
          | ErrorFunc \<Rightarrow> Inr (s, w)))"

fun run_callbacks ::
  "(tcp_connection \<Rightarrow> 'w \<Rightarrow> (tcp_connection \<times> 'w) result) \<Rightarrow> (string \<Rightarrow> 'w \<Rightarrow> 'w) \<Rightarrow> io_results \<Rightarrow> addr \<Rightarrow>
   callback list \<Rightarrow> 't tcp_server \<times> 'w \<Rightarrow> ('t tcp_server \<times> 'w) result"
where
  "run_callbacks onMessage onClose io a [] sw = Inr sw"
| "run_callbacks onMessage onClose io a (cb # cbs) sw =
     rbind (run_callback onMessage onClose io a cb sw) (run_callbacks onMessage onClose io a cbs)"

text \<open>The loop calls \<^verbatim>\<open>doEvnet\<close> of the handler, which the loop itself keeps alive.\<close>

definition conn_events ::
  "(tcp_connection \<Rightarrow> 'w \<Rightarrow> (tcp_connection \<times> 'w) result) \<Rightarrow> (string \<Rightarrow> 'w \<Rightarrow> 'w) \<Rightarrow> io_results \<Rightarrow> addr \<Rightarrow>
   event_handler \<Rightarrow> 't tcp_server \<times> 'w \<Rightarrow> ('t tcp_server \<times> 'w) result"
where
  "conn_events onMessage onClose io a h = run_callbacks onMessage onClose io a (doEvnet h)"

section \<open>The invariant of the server\<close>

text \<open>Exactly the owned objects exist, and the table leads from a name to an object of that name.\<close>

definition server_inv :: "'t tcp_server \<Rightarrow> bool" where
  "server_inv s =
     (hashmap_ok (ts_mTcpConnections s) \<and> dom (ts_conns s) = {a. owned s a} \<and>
      (\<forall>n a. hashmap_abs (ts_mTcpConnections s) n = Some a \<longrightarrow>
         (\<exists>c. ts_conns s a = Some c \<and> mName c = n)))"

lemma server_inv_name:
  "server_inv s \<Longrightarrow> hashmap_abs (ts_mTcpConnections s) n = Some a \<Longrightarrow>
   \<exists>c. ts_conns s a = Some c \<and> mName c = n"
  unfolding server_inv_def by blast

lemma in_readAll: "bucket_ok b \<Longrightarrow> a \<in> set (Bucket_readAll b) \<longleftrightarrow> a \<in> ran (bucket_abs b)"
  by (auto simp: Bucket_readAll_def bucket_ok_def bucket_abs_def ran_distinct)

lemma values_ran:
  assumes "hashmap_ok h"
  shows "a \<in> set (concat (map Bucket_readAll (mHashtable h))) \<longleftrightarrow> a \<in> ran (hashmap_abs h)"
proof
  assume "a \<in> set (concat (map Bucket_readAll (mHashtable h)))"
  then obtain b where b: "b \<in> set (mHashtable h)" "a \<in> set (Bucket_readAll b)" by auto
  then obtain i where i: "i < length (mHashtable h)" "a \<in> set (Bucket_readAll (mHashtable h ! i))"
    unfolding in_set_conv_nth [of b] by blast
  then have "a \<in> ran (bucket_abs (mHashtable h ! i))"
    using assms i in_readAll [of "mHashtable h ! i" a] by (simp add: hashmap_ok_def)
  then obtain k where k: "bucket_abs (mHashtable h ! i) k = Some a" by (auto simp: ran_def)
  then have "slot k h = i" using assms i by (auto simp: hashmap_ok_def)
  then show "a \<in> ran (hashmap_abs h)" using k by (auto simp: ran_def hashmap_abs_def)
next
  assume "a \<in> ran (hashmap_abs h)"
  then obtain k where k: "bucket_abs (mHashtable h ! slot k h) k = Some a"
    by (auto simp: ran_def hashmap_abs_def)
  have sl: "slot k h < length (mHashtable h)" by (rule slot_less [OF assms])
  then have "bucket_ok (mHashtable h ! slot k h)" using assms by (simp add: hashmap_ok_def)
  then have "a \<in> set (Bucket_readAll (mHashtable h ! slot k h))"
    using k in_readAll [of "mHashtable h ! slot k h" a] by (auto simp: ran_def)
  then show "a \<in> set (concat (map Bucket_readAll (mHashtable h)))" using sl by auto
qed

lemma owned_iff:
  "hashmap_ok (ts_mTcpConnections s) \<Longrightarrow>
   owned s a \<longleftrightarrow> a \<in> ran (hashmap_abs (ts_mTcpConnections s)) \<or> a \<in> ts_bound s \<or> a \<in> set (ts_held s)"
  unfolding owned_def table_addrs_def by (simp only: values_ran)

lemma owned_collect [simp]: "owned (collect s) = owned s"
  by (rule ext) (simp add: owned_def collect_def table_addrs_def)

lemma collect_sel [simp]:
  "ts_mTcpConnections (collect s) = ts_mTcpConnections s" "ts_bound (collect s) = ts_bound s"
  "ts_held (collect s) = ts_held s" "ts_mTimerTasks (collect s) = ts_mTimerTasks s"
  "ts_mTimer (collect s) = ts_mTimer s" "ts_mTimeoutTaskIDQueue (collect s) = ts_mTimeoutTaskIDQueue s"
  by (simp_all add: collect_def)

text \<open>Owners may go away, as long as the table only shrinks.\<close>

lemma collect_inv:
  assumes "server_inv s" and "hashmap_ok t"
    and "\<And>n a. hashmap_abs t n = Some a \<Longrightarrow> hashmap_abs (ts_mTcpConnections s) n = Some a"
    and "bnd \<subseteq> ts_bound s" and "set hld \<subseteq> set (ts_held s)"
  shows "server_inv (collect (s\<lparr>ts_mTcpConnections := t, ts_bound := bnd, ts_held := hld\<rparr>))"
proof -
  let ?s = "s\<lparr>ts_mTcpConnections := t, ts_bound := bnd, ts_held := hld\<rparr>"
  have ran: "ran (hashmap_abs t) \<subseteq> ran (hashmap_abs (ts_mTcpConnections s))"
    using assms(3) by (auto simp: ran_def)
  have own: "owned s a" if "owned ?s a" for a
    using that ran assms(1,2,4,5) by (auto simp: owned_iff server_inv_def)
  have live: "ts_conns s a \<noteq> None" if "owned ?s a" for a
    using own [OF that] assms(1) by (auto simp: server_inv_def)
  have "dom (ts_conns (collect ?s)) = {a. owned ?s a}"
    using live by (auto simp: collect_def dom_def)
  moreover have "\<exists>c. ts_conns (collect ?s) a = Some c \<and> mName c = n" if "hashmap_abs t n = Some a" for n a
  proof -
    have "owned ?s a" using that assms(2) by (auto simp: owned_iff ran_def)
    moreover have "ts_conns (collect ?s) a = (if owned ?s a then ts_conns s a else None)"
      by (simp add: collect_def)
    ultimately show ?thesis using assms(1) assms(3) [OF that] by (simp add: server_inv_def)
  qed
  ultimately show ?thesis using assms(2) by (simp add: server_inv_def)
qed

lemma unhold_inv: "server_inv s \<Longrightarrow> server_inv (unhold a s)"
  using collect_inv [where s = s and t = "ts_mTcpConnections s" and bnd = "ts_bound s" and hld = "remove1 a (ts_held s)"]
    set_remove1_subset [of a "ts_held s"]
  by (simp add: unhold_def server_inv_def)

lemma server_inv_cong:
  assumes "ts_mTcpConnections s' = ts_mTcpConnections s" and "ts_bound s' = ts_bound s"
    and "ts_held s' = ts_held s" and "ts_conns s' = ts_conns s"
  shows "server_inv s' = server_inv s"
  using assms by (simp add: server_inv_def owned_def table_addrs_def)

lemma set_conn_inv:
  assumes "server_inv s" and "ts_conns s a = Some c" and "mName c' = mName c"
  shows "server_inv (set_conn a c' s)"
proof -
  have "owned (set_conn a c' s) = owned s" by (rule ext) (simp add: owned_def set_conn_def table_addrs_def)
  moreover have "dom ((ts_conns s)(a \<mapsto> c')) = dom (ts_conns s)" using assms(2) by auto
  moreover have "\<exists>d. ((ts_conns s)(a \<mapsto> c')) b = Some d \<and> mName d = n"
    if named: "hashmap_abs (ts_mTcpConnections s) n = Some b" for n b
  proof -
    obtain d where "ts_conns s b = Some d" "mName d = n"
      using server_inv_name [OF assms(1) named] by blast
    then show ?thesis using assms(2,3) by (cases "b = a") auto
  qed
  ultimately show ?thesis using assms(1) by (simp add: server_inv_def set_conn_def)
qed

lemma hold_inv:
  assumes "server_inv s" and "ts_conns s a \<noteq> None"
  shows "server_inv (hold a s)"
proof -
  have "owned (hold a s) b \<longleftrightarrow> b = a \<or> owned s b" for b
    by (auto simp: owned_def hold_def table_addrs_def)
  moreover have "owned s a" using assms by (auto simp: server_inv_def)
  ultimately have "owned (hold a s) = owned s" by auto
  then show ?thesis using assms by (simp add: server_inv_def hold_def)
qed

lemma set_conn_sel [simp]:
  "ts_mTcpConnections (set_conn a c s) = ts_mTcpConnections s" "ts_bound (set_conn a c s) = ts_bound s"
  "ts_held (set_conn a c s) = ts_held s" "ts_conns (set_conn a c s) = (ts_conns s)(a \<mapsto> c)"
  "ts_mTimerTasks (set_conn a c s) = ts_mTimerTasks s" "ts_mTimer (set_conn a c s) = ts_mTimer s"
  by (simp_all add: set_conn_def)

lemma hold_sel [simp]:
  "ts_mTcpConnections (hold a s) = ts_mTcpConnections s" "ts_bound (hold a s) = ts_bound s"
  "ts_held (hold a s) = a # ts_held s" "ts_conns (hold a s) = ts_conns s"
  by (simp_all add: hold_def)

lemma getConnPtrRef_inv:
  assumes "server_inv s"
  shows "getConnPtrRef n s = Inr (case hashmap_abs (ts_mTcpConnections s) n of None \<Rightarrow> (None, s) | Some a \<Rightarrow> (Some a, hold a s))"
    and "getConnPtrRef n s = Inr (r, s') \<Longrightarrow> server_inv s'"
proof -
  have ok: "hashmap_ok (ts_mTcpConnections s)" using assms by (simp add: server_inv_def)
  show eq: "getConnPtrRef n s = Inr (case hashmap_abs (ts_mTcpConnections s) n of None \<Rightarrow> (None, s) | Some a \<Rightarrow> (Some a, hold a s))"
    by (simp add: getConnPtrRef_def hm.find_abs [OF ok])
  assume r: "getConnPtrRef n s = Inr (r, s')"
  show "server_inv s'"
  proof (cases "hashmap_abs (ts_mTcpConnections s) n")
    case None
    then show ?thesis using r eq assms by simp
  next
    case (Some a)
    then have "ts_conns s a \<noteq> None" using server_inv_name [OF assms] by fastforce
    then show ?thesis using r eq Some hold_inv [OF assms, of a] by simp
  qed
qed

subsection \<open>Every operation keeps it\<close>

lemma new_TcpServer_inv: "0 < bucketSize \<Longrightarrow> server_inv (new_TcpServer nm hw n bucketSize f)"
  by (simp add: server_inv_def new_TcpServer_def new_SafeHashmap_ok owned_iff)

lemma timer_ops_inv [simp]:
  "server_inv (snd (registerTimerTask h m sec cyc func ident s)) = server_inv s"
  "server_inv (pushTaskID ident s) = server_inv s"
  "server_inv (s\<lparr>ts_mTimer := t\<rparr>) = server_inv s"
  "server_inv (s\<lparr>ts_mTimeoutTaskIDQueue := q\<rparr>) = server_inv s"
  "server_inv (s\<lparr>ts_mEventLoopThreadpool := p\<rparr>) = server_inv s"
  by (rule server_inv_cong; simp add: registerTimerTask_def pushTaskID_def split: option.splits)+

lemma timerWork_inv: "timerWork s = Some (f, s') \<Longrightarrow> server_inv s' = server_inv s"
  by (auto simp: timerWork_def split: list.splits)

lemma push_all_inv: "server_inv (fold (pushTaskID \<circ> snd) xs s) = server_inv s"
  by (induction xs arbitrary: s) auto

lemma timer_seconds_inv: "timer_seconds k s = Some (Inr s') \<Longrightarrow> server_inv s' = server_inv s"
  by (auto simp: timer_seconds_def then_do_def push_all_inv split: option.splits sum.splits)

lemma timer_register_inv: "timer_register s = Inr s' \<Longrightarrow> server_inv s' = server_inv s"
  by (auto simp: timer_register_def rbind_eq_Inr split: option.splits)

lemma insert_inv:
  assumes "server_inv s" and "ts_conns s a = None" and "mName c = n"
    and "SafeHashmap_insert n a (ts_mTcpConnections s) = Inr t"
  shows "server_inv ((hold a (set_conn a c s))\<lparr>ts_mTcpConnections := t\<rparr>)"
proof -
  let ?s = "(hold a (set_conn a c s))\<lparr>ts_mTcpConnections := t\<rparr>"
  have ok: "hashmap_ok (ts_mTcpConnections s)" using assms(1) by (simp add: server_inv_def)
  have t: "hashmap_ok t" "hashmap_abs t = ref_op (Insert n a) (hashmap_abs (ts_mTcpConnections s))"
    using hm.ins_abs [OF ok, of n a] assms(4) by auto
  have old: "ts_conns s b \<noteq> None" if "hashmap_abs (ts_mTcpConnections s) m = Some b" for m b
    using server_inv_name [OF assms(1) that] by blast
  have ran: "ran (hashmap_abs t) \<subseteq> insert a (ran (hashmap_abs (ts_mTcpConnections s)))"
    "ran (hashmap_abs (ts_mTcpConnections s)) \<subseteq> ran (hashmap_abs t)"
    unfolding t(2) by (auto simp: ran_def split: option.splits if_splits) (metis option.distinct(1))
  have own: "owned ?s b \<longleftrightarrow> b = a \<or> owned s b" for b
  proof -
    have "owned ?s b \<longleftrightarrow> b \<in> ran (hashmap_abs t) \<or> b \<in> ts_bound s \<or> b = a \<or> b \<in> set (ts_held s)"
      using owned_iff [of ?s b] t(1) by simp
    then show ?thesis using ran owned_iff [OF ok, of b] by auto
  qed
  have dom: "dom (ts_conns ?s) = {b. owned ?s b}"
    using assms(1) own by (auto simp: server_inv_def)
  have "\<exists>d. ts_conns ?s b = Some d \<and> mName d = m" if m: "hashmap_abs t m = Some b" for m b
  proof (cases "hashmap_abs (ts_mTcpConnections s) m = Some b")
    case True
    then have "b \<noteq> a" using old assms(2) by blast
    then show ?thesis using server_inv_name [OF assms(1) True] by simp
  next
    case False
    then have "m = n \<and> b = a" using m unfolding t(2) by (auto split: option.splits if_splits)
    then show ?thesis using assms(3) by simp
  qed
  then show ?thesis using t(1) dom unfolding server_inv_def by simp
qed

lemma newConnection_begin_inv:
  assumes "server_inv s" and "ts_conns s a = None"
    and "newConnection_begin connfd peer a garbage s = Inr (r, s')"
  shows "server_inv s'" and "r = Some n \<Longrightarrow> ts_conns s' a \<noteq> None \<and> a \<in> set (ts_held s')"
proof -
  obtain index pool th where p: "getDesiredIndex ROUND_ROBIN (ts_mEventLoopThreadpool s) = Inr (index, pool)"
    "getEventLoop index pool = Inr th"
    using assms(3) by (auto simp: newConnection_begin_def rbind_eq_Inr)
  let ?s = "s\<lparr>ts_mEventLoopThreadpool := pool\<rparr>"
  have inv: "server_inv ?s" using assms(1) by simp
  have "server_inv s' \<and> (r = Some n \<longrightarrow> ts_conns s' a \<noteq> None \<and> a \<in> set (ts_held s'))"
  proof (cases th)
    case None
    then show ?thesis using assms(3) p inv by (simp add: newConnection_begin_def)
  next
    case (Some x)
    let ?n = "generateConnID connfd peer ?s"
    let ?c = "new_TcpConnection connfd (sa_ip peer) (sa_hostService peer) ?n garbage"
    have nm: "mName ?c = ?n" by (simp add: new_TcpConnection_def Let_def loop_update_def)
    obtain t where t: "SafeHashmap_insert ?n a (ts_mTcpConnections s) = Inr t"
      and s': "s' = (hold a (set_conn a ?c ?s))\<lparr>ts_mTcpConnections := t\<rparr>"
      using assms(3) p Some by (auto simp: newConnection_begin_def Let_def rbind_eq_Inr)
    have "server_inv s'"
      unfolding s' by (rule insert_inv [OF inv _ nm]) (use assms(2) t in simp_all)
    then show ?thesis by (simp add: s')
  qed
  then show "server_inv s'" "r = Some n \<Longrightarrow> ts_conns s' a \<noteq> None \<and> a \<in> set (ts_held s')" by auto
qed

lemma bound_inv:
  assumes "server_inv s" and "ts_conns s a \<noteq> None"
  shows "server_inv (s\<lparr>ts_bound := insert a (ts_bound s)\<rparr>)"
proof -
  have "owned (s\<lparr>ts_bound := insert a (ts_bound s)\<rparr>) b \<longleftrightarrow> b = a \<or> owned s b" for b
    by (auto simp: owned_def table_addrs_def)
  moreover have "owned s a" using assms by (auto simp: server_inv_def)
  ultimately have "owned (s\<lparr>ts_bound := insert a (ts_bound s)\<rparr>) = owned s" by auto
  then show ?thesis using assms(1) by (simp add: server_inv_def)
qed

lemma newConnection_end_inv:
  assumes "server_inv s" and "newConnection_end a s = Inr s'"
  shows "server_inv s'"
proof -
  obtain c where c: "ts_conns s a = Some c"
    and s': "s' = unhold a ((set_conn a (c\<lparr>mMessageFunc := True, mCloseFunc := True\<rparr>) s)\<lparr>ts_bound := insert a (ts_bound s)\<rparr>)"
    using assms(2) by (auto simp: newConnection_end_def conn_at_def Let_def rbind_eq_Inr split: option.splits)
  have "server_inv (set_conn a (c\<lparr>mMessageFunc := True, mCloseFunc := True\<rparr>) s)"
    by (rule set_conn_inv [OF assms(1) c]) simp
  from bound_inv [OF this, of a] show ?thesis unfolding s' by (intro unhold_inv) simp
qed

lemma removeConnection_inv:
  assumes "server_inv s" and "removeConnection onClose a (s, w) = Inr (s', w')"
  shows "server_inv s'"
proof -
  have ok: "hashmap_ok (ts_mTcpConnections s)" using assms(1) by (simp add: server_inv_def)
  obtain c t where "ts_conns s a = Some c" and t: "SafeHashmap_erase (mName c) (ts_mTcpConnections s) = Inr t"
    and s': "s' = collect (s\<lparr>ts_mTcpConnections := t, ts_bound := ts_bound s - {a}\<rparr>)"
    using assms(2) by (auto simp: removeConnection_def conn_at_def rbind_eq_Inr split: if_splits option.splits)
  have "hashmap_ok t \<and> hashmap_abs t = ref_op (Erase (mName c)) (hashmap_abs (ts_mTcpConnections s))"
    using hm.del_abs [OF ok, of "mName c"] t by auto
  then have "server_inv (collect (s\<lparr>ts_mTcpConnections := t, ts_bound := ts_bound s - {a}, ts_held := ts_held s\<rparr>))"
    by (intro collect_inv [OF assms(1)]) (auto split: if_splits)
  then show ?thesis unfolding s' by simp
qed

text \<open>A server above that does not rename connections.\<close>

definition keeps_name :: "(tcp_connection \<Rightarrow> 'w \<Rightarrow> (tcp_connection \<times> 'w) result) \<Rightarrow> bool" where
  "keeps_name onMessage = (\<forall>c w c' w'. onMessage c w = Inr (c', w') \<longrightarrow> mName c' = mName c)"

lemma keeps_mName [simp]:
  "mName (writeFunc k c) = mName c" "mName (putToBuffer data c) = mName c"
  by (auto simp: writeFunc_def putToBuffer_def out_write_def enable_writing_def
      disable_writing_def loop_update_def split: prod.splits option.splits)

lemma readFunc_mName: "readFunc r c = Inr (ev, c') \<Longrightarrow> mName c' = mName c"
  by (auto simp: readFunc_def rbind_eq_Inr Let_def)

lemma run_callback_inv:
  assumes "keeps_name onMessage" and "server_inv s"
    and "run_callback onMessage onClose io a cb (s, w) = Inr (s', w')"
  shows "server_inv s'"
proof -
  obtain c where c: "ts_conns s a = Some c"
    using assms(3) by (auto simp: run_callback_def conn_at_def rbind_eq_Inr split: option.splits)
  have close: "server_inv s'"
    if "close_event onClose ev a (s1, w) = Inr (s', w')" and "server_inv s1" for s1 ev
    using that removeConnection_inv by (auto simp: close_event_def split: if_splits)
  show ?thesis
  proof (cases cb)
    case CloseFunc
    then have "close_event onClose (closeFunc c) a (s, w) = Inr (s', w')"
      using assms(3) c by (simp add: run_callback_def conn_at_def)
    then show ?thesis using assms(2) by (rule close)
  next
    case ErrorFunc
    then show ?thesis using assms(2,3) c by (simp add: run_callback_def conn_at_def)
  next
    case WriteFunc
    then have "s' = set_conn a (writeFunc (io_accepted io) c) s"
      using assms(3) c by (simp add: run_callback_def conn_at_def)
    then show ?thesis using set_conn_inv [OF assms(2) c] by simp
  next
    case ReadFunc
    then obtain ev c1 where r: "readFunc (io_received io) c = Inr (ev, c1)"
      using assms(3) c by (auto simp: run_callback_def conn_at_def rbind_eq_Inr)
    show ?thesis
    proof (cases "ev = MessageEvent")
      case True
      then obtain c2 where c2: "onMessage c1 w = Inr (c2, w')" and s': "s' = set_conn a c2 s"
        using assms(3) c ReadFunc r by (auto simp: run_callback_def conn_at_def rbind_eq_Inr)
      have "mName c2 = mName c1" using assms(1) c2 unfolding keeps_name_def by blast
      then show ?thesis
        unfolding s' using set_conn_inv [OF assms(2) c, of c2] readFunc_mName [OF r] by simp
    next
      case False
      then have "close_event onClose ev a (set_conn a c1 s, w) = Inr (s', w')"
        using assms(3) c ReadFunc r by (simp add: run_callback_def conn_at_def)
      moreover have "server_inv (set_conn a c1 s)"
        using set_conn_inv [OF assms(2) c, of c1] readFunc_mName [OF r] by simp
      ultimately show ?thesis by (rule close)
    qed
  qed
qed

lemma run_callbacks_inv:
  assumes "keeps_name onMessage"
  shows "server_inv s \<Longrightarrow> run_callbacks onMessage onClose io a cbs (s, w) = Inr (s', w') \<Longrightarrow> server_inv s'"
proof (induction cbs arbitrary: s w)
  case Nil
  then show ?case by simp
next
  case (Cons cb cbs)
  then obtain s1 w1 where "run_callback onMessage onClose io a cb (s, w) = Inr (s1, w1)"
    and "run_callbacks onMessage onClose io a cbs (s1, w1) = Inr (s', w')"
    by (auto simp: rbind_eq_Inr)
  then show ?case using Cons.IH run_callback_inv [OF assms Cons.prems(1)] by blast
qed

lemma conn_events_inv:
  "keeps_name onMessage \<Longrightarrow> server_inv s \<Longrightarrow> conn_events onMessage onClose io a h (s, w) = Inr (s', w') \<Longrightarrow>
   server_inv s'"
  unfolding conn_events_def by (rule run_callbacks_inv)

section \<open>The last event of a connection\<close>

text \<open>The peer has closed: the read gives 0 bytes, and the connection leaves the table.\<close>

lemma read_closed:
  assumes "buffer_ok (mInputBuffer c)"
  shows "\<exists>b. readFunc (Some []) c = Inr (closeFunc c, c\<lparr>mInputBuffer := b\<rparr>) \<and>
    mDataQueue b = mDataQueue (mInputBuffer c)"
  using assms
  by (cases "mInputBuffer c")
     (auto simp: readFunc_def IOBuffer_read_def store_front_def resize_after_def closeFunc_def Let_def
       buffer_ok_def rbind_def)

lemma remove_last_owner:
  assumes "server_inv s" and "ts_conns s a = Some c" and "a \<in> ts_bound s" and "a \<notin> set (ts_held s)"
  shows "\<exists>s'. removeConnection onClose a (s, w) = Inr (s', onClose (mPeerIPPort c) w) \<and>
    ts_conns s' a = None \<and> server_inv s' \<and>
    hashmap_abs (ts_mTcpConnections s') = (hashmap_abs (ts_mTcpConnections s))(mName c := None) \<and>
    (\<forall>b. b \<noteq> a \<and> b \<in> ts_bound s \<longrightarrow> ts_conns s' b = ts_conns s b)"
proof -
  have ok: "hashmap_ok (ts_mTcpConnections s)" using assms(1) by (simp add: server_inv_def)
  obtain t where t: "SafeHashmap_erase (mName c) (ts_mTcpConnections s) = Inr t" "hashmap_ok t"
    "hashmap_abs t = (hashmap_abs (ts_mTcpConnections s))(mName c := None)"
    using hm.del_abs [OF ok, of "mName c"] by auto
  let ?s = "s\<lparr>ts_mTcpConnections := t, ts_bound := ts_bound s - {a}\<rparr>"
  have r: "removeConnection onClose a (s, w) = Inr (collect ?s, onClose (mPeerIPPort c) w)"
    using assms(2,3) t(1) by (simp add: removeConnection_def conn_at_def)
  have "n = mName c" if "hashmap_abs (ts_mTcpConnections s) n = Some a" for n
    using server_inv_name [OF assms(1) that] assms(2) by simp
  then have "a \<notin> ran (hashmap_abs t)" unfolding t(3) by (auto simp: ran_def split: if_splits)
  then have "\<not> owned ?s a" using assms(4) t(2) by (simp add: owned_iff)
  then have "ts_conns (collect ?s) a = None" by (simp add: collect_def)
  moreover have "ts_conns (collect ?s) b = ts_conns s b" if "b \<noteq> a" "b \<in> ts_bound s" for b
    using that by (simp add: collect_def owned_def)
  moreover have "server_inv (collect ?s)" using removeConnection_inv [OF assms(1) r] .
  ultimately show ?thesis using r t(3) by auto
qed

text \<open>
  C32. When the peer has closed, the event loop takes the connection out of the table, calls the
  close function of the server with its address and destroys the object, and touches no other
  connection. But \<^verbatim>\<open>doEvnet\<close> goes on after the read: if the descriptor was also reported writable,
  as it is while an answer waits to be sent, \<^verbatim>\<open>writeFunc\<close> runs on the destroyed object.
\<close>

theorem peer_close_use_after_free:
  assumes "server_inv s" and "ts_conns s a = Some c" and "a \<in> ts_bound s" and "a \<notin> set (ts_held s)"
    and "mCloseFunc c" and "buffer_ok (mInputBuffer c)"
    and "mRevents h AND POLLIN \<noteq> 0" and "mRevents h AND (POLLNVAL OR POLLERR) = 0"
    and "{ReadFunc, WriteFunc} \<subseteq> mFuncs h" and "io_received io = Some []"
  shows "if mRevents h AND POLLOUT \<noteq> 0
    then conn_events onMessage onClose io a h (s, w) = Inl UseAfterFree
    else \<exists>s'. conn_events onMessage onClose io a h (s, w) = Inr (s', onClose (mPeerIPPort c) w) \<and>
      ts_conns s' a = None \<and> server_inv s' \<and>
      hashmap_abs (ts_mTcpConnections s') = (hashmap_abs (ts_mTcpConnections s))(mName c := None) \<and>
      (\<forall>b. b \<noteq> a \<and> b \<in> ts_bound s \<longrightarrow> ts_conns s' b = ts_conns s b)"
proof -
  have rd: "mRevents h AND (POLLIN OR POLLPRI OR POLLRDHUP) \<noteq> 0"
    using assms(7) by (metis bit.conj_disj_distrib bit_eq_iff or_eq_0_iff)
  have cbs: "doEvnet h = ReadFunc # (if mRevents h AND POLLOUT \<noteq> 0 then [WriteFunc] else [])"
    using assms(7-9) rd by (simp add: doEvnet_def call_if_def)
  obtain b where b: "readFunc (Some []) c = Inr (CloseEvent, c\<lparr>mInputBuffer := b\<rparr>)"
    using read_closed [OF assms(6)] assms(5) by (auto simp: closeFunc_def)
  let ?c = "c\<lparr>mInputBuffer := b\<rparr>" and ?s = "set_conn a (c\<lparr>mInputBuffer := b\<rparr>) s"
  have inv: "server_inv ?s" by (rule set_conn_inv [OF assms(1,2)]) simp
  obtain s' where s': "removeConnection onClose a (?s, w) = Inr (s', onClose (mPeerIPPort c) w)"
    "ts_conns s' a = None" "server_inv s'"
    "hashmap_abs (ts_mTcpConnections s') = (hashmap_abs (ts_mTcpConnections s))(mName c := None)"
    "\<forall>b. b \<noteq> a \<and> b \<in> ts_bound s \<longrightarrow> ts_conns s' b = ts_conns s b"
    using remove_last_owner [OF inv, of a ?c onClose w] assms(3,4) by auto
  have "run_callback onMessage onClose io a ReadFunc (s, w) = Inr (s', onClose (mPeerIPPort c) w)"
    using assms(2,10) b s'(1) by (simp add: run_callback_def conn_at_def close_event_def)
  then show ?thesis
    using s' cbs by (simp add: conn_events_def run_callback_def conn_at_def)
qed

lemma collect_same:
  assumes "\<And>a. \<not> owned s a \<Longrightarrow> ts_conns s a = None"
  shows "collect s = s"
proof -
  have "(\<lambda>a. if owned s a then ts_conns s a else None) = ts_conns s"
    by (rule ext) (simp add: assms)
  then show ?thesis by (simp add: collect_def)
qed

text \<open>What accepting a connection does when its name is new and a loop is running.\<close>

definition touches_only_tasks :: "('t tcp_server \<Rightarrow> 't tcp_server) \<Rightarrow> bool" where
  "touches_only_tasks f = (\<forall>s. ts_mTcpConnections (f s) = ts_mTcpConnections s \<and> ts_bound (f s) = ts_bound s \<and>
     ts_held (f s) = ts_held s \<and> ts_conns (f s) = ts_conns s)"

lemma connection_begun:
  assumes "server_inv s"
    and "getDesiredIndex ROUND_ROBIN (ts_mEventLoopThreadpool s) = Inr (index, pool)"
    and "getEventLoop index pool = Inr (Some th)" and nm: "nm = generateConnID connfd peer s"
  shows "\<exists>t. SafeHashmap_insert nm a (ts_mTcpConnections s) = Inr t \<and> hashmap_ok t \<and>
    hashmap_abs t = ref_op (Insert nm a) (hashmap_abs (ts_mTcpConnections s)) \<and>
    newConnection_begin connfd peer a garbage s = Inr (Some nm,
      (hold a (set_conn a (new_TcpConnection connfd (sa_ip peer) (sa_hostService peer) nm garbage)
        (s\<lparr>ts_mEventLoopThreadpool := pool\<rparr>)))\<lparr>ts_mTcpConnections := t\<rparr>)"
proof -
  have ok: "hashmap_ok (ts_mTcpConnections s)" using assms(1) by (simp add: server_inv_def)
  obtain t where t: "SafeHashmap_insert nm a (ts_mTcpConnections s) = Inr t" "hashmap_ok t"
    "hashmap_abs t = ref_op (Insert nm a) (hashmap_abs (ts_mTcpConnections s))"
    using hm.ins_abs [OF ok] by metis
  have "generateConnID connfd peer (s\<lparr>ts_mEventLoopThreadpool := pool\<rparr>) = nm" by (simp add: nm generateConnID_def)
  then show ?thesis
    using assms(2,3) t by (simp add: newConnection_begin_def Let_def)
qed

lemma connection_made:
  assumes "server_inv s" and "ts_conns s a = None"
    and "getDesiredIndex ROUND_ROBIN (ts_mEventLoopThreadpool s) = Inr (index, pool)"
    and "getEventLoop index pool = Inr (Some th)"
    and "\<And>n. touches_only_tasks (connNameFunc n)"
    and nm: "nm = generateConnID connfd peer s"
  shows "\<exists>s'. newConnectionFunc connNameFunc connfd peer a garbage s = Inr s' \<and> server_inv s' \<and>
    hashmap_abs (ts_mTcpConnections s') = ref_op (Insert nm a) (hashmap_abs (ts_mTcpConnections s)) \<and>
    ts_conns s' = (ts_conns s)(a \<mapsto> (new_TcpConnection connfd (sa_ip peer) (sa_hostService peer) nm garbage)
      \<lparr>mMessageFunc := True, mCloseFunc := True\<rparr>) \<and>
    ts_bound s' = insert a (ts_bound s) \<and> ts_held s' = ts_held s"
proof -
  let ?c = "new_TcpConnection connfd (sa_ip peer) (sa_hostService peer) nm garbage"
  let ?s1 = "s\<lparr>ts_mEventLoopThreadpool := pool\<rparr>"
  obtain t where t: "SafeHashmap_insert nm a (ts_mTcpConnections s) = Inr t" "hashmap_ok t"
    "hashmap_abs t = ref_op (Insert nm a) (hashmap_abs (ts_mTcpConnections s))"
    and begun: "newConnection_begin connfd peer a garbage s =
      Inr (Some nm, (hold a (set_conn a ?c ?s1))\<lparr>ts_mTcpConnections := t\<rparr>)"
    using connection_begun [OF assms(1,3,4) nm] by metis
  let ?s2 = "(hold a (set_conn a ?c ?s1))\<lparr>ts_mTcpConnections := t\<rparr>"
  have inv2: "server_inv ?s2" by (rule newConnection_begin_inv(1) [OF assms(1,2) begun])
  let ?s3 = "connNameFunc nm ?s2"
  have frame: "ts_mTcpConnections ?s3 = t" "ts_bound ?s3 = ts_bound s" "ts_held ?s3 = a # ts_held s"
    "ts_conns ?s3 = (ts_conns s)(a \<mapsto> ?c)"
    using assms(5) [of nm] by (simp_all add: touches_only_tasks_def)
  have inv3: "server_inv ?s3"
    using inv2 server_inv_cong [of ?s3 ?s2] frame by simp
  let ?c' = "?c\<lparr>mMessageFunc := True, mCloseFunc := True\<rparr>"
  let ?s4 = "(set_conn a ?c' ?s3)\<lparr>ts_bound := insert a (ts_bound s)\<rparr>"
  have ended: "newConnection_end a ?s3 = Inr (unhold a ?s4)"
    by (simp add: newConnection_end_def conn_at_def frame)
  have inv5: "server_inv (unhold a ?s4)" by (rule newConnection_end_inv [OF inv3 ended])
  have own: "owned (?s4\<lparr>ts_held := ts_held s\<rparr>) b" if "ts_conns s b \<noteq> None \<or> b = a" for b
  proof -
    have "b = a \<or> owned ?s3 b" using that inv3 frame(4) by (auto simp: server_inv_def)
    then show ?thesis using frame by (auto simp: owned_def table_addrs_def)
  qed
  have "collect (?s4\<lparr>ts_held := ts_held s\<rparr>) = ?s4\<lparr>ts_held := ts_held s\<rparr>"
  proof (rule collect_same)
    fix b assume "\<not> owned (?s4\<lparr>ts_held := ts_held s\<rparr>) b"
    then have "ts_conns s b = None \<and> b \<noteq> a" using own by blast
    then show "ts_conns (?s4\<lparr>ts_held := ts_held s\<rparr>) b = None" by (simp add: frame)
  qed
  then have "unhold a ?s4 = ?s4\<lparr>ts_held := ts_held s\<rparr>" by (simp add: unhold_def frame)
  then show ?thesis
    using begun ended inv5 t frame by (simp add: newConnectionFunc_def)
qed

text \<open>A server with one running event loop, and the connection 5 from a client at port 4000.\<close>

definition demo_server :: "string tcp_server" where
  "demo_server = (new_TcpServer ''S'' 1 1 3 length)
     \<lparr>ts_mEventLoopThreadpool := \<lparr>lp_mThreadNum = 1, lp_mNextIndex = 0,
        lp_mEventLoopThreads = [Some ((new_loop_thread 0)\<lparr>et_looping := True\<rparr>)]\<rparr>\<rparr>"

definition demo_peer :: socket_addr where
  "demo_peer = \<lparr>sa_ip = ''10.0.0.7'', sa_hostService = ''10.0.0.7:4000''\<rparr>"

definition demo_name :: string where
  "demo_name = ''S_fd5_10.0.0.7:4000''"

definition with_client :: "string tcp_server" where
  "with_client = (case newConnectionFunc (\<lambda>name s. s) 5 demo_peer 100 0 demo_server of
     Inl e \<Rightarrow> demo_server | Inr s \<Rightarrow> s)"

definition demo_client :: tcp_connection where
  "demo_client = (new_TcpConnection 5 ''10.0.0.7'' ''10.0.0.7:4000'' demo_name 0)
     \<lparr>mMessageFunc := True, mCloseFunc := True\<rparr>"

lemma demo_server_inv: "server_inv demo_server"
proof -
  have "server_inv (new_TcpServer ''S'' 1 1 3 length)" by (rule new_TcpServer_inv) simp
  then show ?thesis by (simp add: demo_server_def)
qed

lemma demo_loop:
  "getDesiredIndex ROUND_ROBIN (ts_mEventLoopThreadpool demo_server) = Inr (0, ts_mEventLoopThreadpool demo_server)"
  "getEventLoop 0 (ts_mEventLoopThreadpool demo_server) = Inr (Some ((new_loop_thread 0)\<lparr>et_looping := True\<rparr>))"
  by (simp_all add: demo_server_def getDesiredIndex_def roundRobinIndex_def isInactive_def thread_at_def
      getEventLoop_def Let_def wrap64_def)

lemma demo_name_made: "generateConnID 5 demo_peer demo_server = demo_name"
  by (simp add: generateConnID_def demo_peer_def demo_server_def new_TcpServer_def demo_name_def
      to_string_def decimal.simps [of 5]) code_simp

lemma with_client_state:
  "server_inv with_client" "ts_conns with_client = [100 \<mapsto> demo_client]" "ts_bound with_client = {100}"
  "ts_held with_client = []" "hashmap_abs (ts_mTcpConnections with_client) = [demo_name \<mapsto> 100]"
proof -
  have s: "ts_conns demo_server = Map.empty" "ts_bound demo_server = {}" "ts_held demo_server = []"
    "hashmap_abs (ts_mTcpConnections demo_server) = Map.empty"
    by (simp_all add: demo_server_def new_TcpServer_def new_SafeHashmap_ok)
  have f: "touches_only_tasks ((\<lambda>name s. s) n)" for n :: string by (simp add: touches_only_tasks_def)
  from connection_made [OF demo_server_inv _ demo_loop f demo_name_made [symmetric], of 100 0] s
  show "server_inv with_client" "ts_conns with_client = [100 \<mapsto> demo_client]" "ts_bound with_client = {100}"
  "ts_held with_client = []" "hashmap_abs (ts_mTcpConnections with_client) = [demo_name \<mapsto> 100]"
    by (auto simp: with_client_def demo_client_def demo_peer_def)
qed

lemma demo_client_facts:
  "mCloseFunc demo_client" "buffer_ok (mInputBuffer demo_client)"
  "{ReadFunc, WriteFunc} \<subseteq> mFuncs (mConnectionHandler demo_client)" "mPeerIPPort demo_client = ''10.0.0.7:4000''"
  "mName demo_client = demo_name" "mCommunicationTimestamp demo_client = 0"
  by (simp_all add: demo_client_def new_TcpConnection_def loop_update_def Let_def new_IOBuffer_ok
      setFunc_def enableReading_def disableWriting_def)

theorem peer_close_use_after_free_witness:
  "conn_events (\<lambda>c w. Inr (c, w)) (\<lambda>addr w. addr # w) \<lparr>io_received = Some [], io_accepted = None\<rparr> 100
     ((mConnectionHandler demo_client)\<lparr>mRevents := POLLIN OR POLLOUT\<rparr>) (with_client, []) = Inl UseAfterFree \<and>
   (\<exists>s'. conn_events (\<lambda>c w. Inr (c, w)) (\<lambda>addr w. addr # w) \<lparr>io_received = Some [], io_accepted = None\<rparr> 100
     ((mConnectionHandler demo_client)\<lparr>mRevents := POLLIN\<rparr>) (with_client, []) = Inr (s', [''10.0.0.7:4000'']))"
proof -
  note close = peer_close_use_after_free [OF with_client_state(1), of 100 demo_client _ _ "\<lambda>c w. Inr (c, w)" "\<lambda>addr w. addr # w" "[]"]
  have "mRevents ((mConnectionHandler demo_client)\<lparr>mRevents := POLLIN OR POLLOUT\<rparr>) AND POLLOUT \<noteq> 0"
    "mRevents ((mConnectionHandler demo_client)\<lparr>mRevents := POLLIN\<rparr>) AND POLLOUT = 0"
    by (simp_all add: event_masks)
  then show ?thesis
    using close [of "(mConnectionHandler demo_client)\<lparr>mRevents := POLLIN OR POLLOUT\<rparr>" "\<lparr>io_received = Some [], io_accepted = None\<rparr>"]
      close [of "(mConnectionHandler demo_client)\<lparr>mRevents := POLLIN\<rparr>" "\<lparr>io_received = Some [], io_accepted = None\<rparr>"]
      demo_client_facts with_client_state
    by (auto simp: event_masks)
qed

section \<open>Names\<close>

lemma no_separator: "CHR ''_'' \<notin> set (to_string i)"
proof -
  have "(char_of (48 + d) :: char) \<noteq> CHR ''_''" if "d < 10" for d :: nat
  proof
    assume "(char_of (48 + d) :: char) = CHR ''_''"
    then have "(of_char (char_of (48 + d) :: char) :: nat) = 95" by simp
    then show False using that by simp
  qed
  then have "CHR ''_'' \<notin> set (decimal n)" for n using decimal_chars by metis
  then show ?thesis by (simp add: to_string_def)
qed

lemma split_at_first:
  assumes "x \<notin> set us" and "x \<notin> set vs" and "us @ x # as = vs @ x # bs"
  shows "us = vs \<and> as = bs"
  using assms
proof (induction us arbitrary: vs)
  case Nil
  then show ?case by (cases vs) auto
next
  case (Cons u us)
  then show ?case by (cases vs) auto
qed

text \<open>
  The name of a connection determines its descriptor and its peer's address: two connections
  of a server have the same name only if they have the same descriptor and the same peer, so
  connections that are open at the same time are never confused in the table.
\<close>

theorem connection_name_unique:
  "generateConnID fd1 peer1 s = generateConnID fd2 peer2 s \<longleftrightarrow>
   fd1 = fd2 \<and> sa_hostService peer1 = sa_hostService peer2"
  using split_at_first [OF no_separator [of fd1] no_separator [of fd2]]
  by (auto simp: generateConnID_def)

section \<open>Events before the callbacks are set\<close>

lemma early_read:
  assumes "buffer_ok b" and "length bs \<le> read_capacity b" and "mInputBuffer c = b" and "\<not> mMessageFunc c"
    and "\<not> mCloseFunc c" and "mDataQueue b = []" and "mIncompleteMessage c = []"
  shows "\<exists>ev b'. readFunc (Some bs) c = Inr (ev, c\<lparr>mInputBuffer := b'\<rparr>) \<and> ev \<noteq> MessageEvent \<and> ev \<noteq> CloseEvent \<and>
    pending (c\<lparr>mInputBuffer := b'\<rparr>) = bs"
proof (cases "bs = []")
  case True
  have "buffer_ok (mInputBuffer c)" using assms(1,3) by simp
  then obtain b' where "readFunc (Some []) c = Inr (closeFunc c, c\<lparr>mInputBuffer := b'\<rparr>)" "mDataQueue b' = []"
    using read_closed [of c] assms(3,6) by auto
  then show ?thesis
    using True assms(5,7) by (intro exI [of _ CloseSocket] exI [of _ b']) (simp add: closeFunc_def pending_def)
next
  case False
  then show ?thesis
    using IOBuffer_read_ok [OF assms(1) False assms(2)] assms(3-7)
    by (fastforce simp: readFunc_def pending_def)
qed

lemma unhold_bound: "a \<in> ts_bound s \<Longrightarrow> ts_conns (unhold a s) a = ts_conns s a"
  by (simp add: unhold_def collect_def owned_def)

lemma unhold_table [simp]: "ts_mTcpConnections (unhold a s) = ts_mTcpConnections s"
  by (simp add: unhold_def)

text \<open>
  The descriptor is registered with the event loop before \<^verbatim>\<open>newConnectionFunc\<close> has set the
  callbacks. What arrives in between is received but handled by nobody: a first message stays in
  the buffer until the client sends more, and a connection the client has closed again stays in
  the table, its object alive, without the close function of the server ever being called.
\<close>

theorem early_events_lost:
  assumes "server_inv s" and "ts_conns s a = None"
    and "hashmap_abs (ts_mTcpConnections s) (generateConnID connfd peer s) = None"
    and "newConnection_begin connfd peer a garbage s = Inr (Some n, s1)"
    and "doEvnet h = [ReadFunc]" and "io_received io = Some bs" and "length bs \<le> IO_BUFFER_MAX_SIZE"
  shows "\<exists>s2 s3 c. conn_events onMessage onClose io a h (s1, w) = Inr (s2, w) \<and>
    newConnection_end a s2 = Inr s3 \<and> hashmap_abs (ts_mTcpConnections s3) n = Some a \<and>
    ts_conns s3 a = Some c \<and> pending c = bs"
proof -
  let ?c = "new_TcpConnection connfd (sa_ip peer) (sa_hostService peer) n garbage"
  obtain pool t where n: "n = generateConnID connfd peer s"
    and t: "SafeHashmap_insert n a (ts_mTcpConnections s) = Inr t"
    and s1: "s1 = (hold a (set_conn a ?c (s\<lparr>ts_mEventLoopThreadpool := pool\<rparr>)))\<lparr>ts_mTcpConnections := t\<rparr>"
    using assms(4) by (auto simp: newConnection_begin_def Let_def rbind_eq_Inr generateConnID_def split: option.splits)
  have abs: "hashmap_abs t n = Some a"
    using hm.ins_abs [of "ts_mTcpConnections s" n a] assms(1,3) t n by (auto simp: server_inv_def)
  have c: "mInputBuffer ?c = new_IOBuffer connfd" "\<not> mMessageFunc ?c" "\<not> mCloseFunc ?c" "mIncompleteMessage ?c = []"
    by (simp_all add: new_TcpConnection_def Let_def loop_update_def)
  have cap: "length bs \<le> read_capacity (new_IOBuffer connfd)"
    using assms(7) read_capacity_ok [OF new_IOBuffer_ok] by (simp add: new_IOBuffer_def)
  have "mDataQueue (new_IOBuffer connfd) = []" by (simp add: new_IOBuffer_def)
  then obtain ev b' where r: "readFunc (Some bs) ?c = Inr (ev, ?c\<lparr>mInputBuffer := b'\<rparr>)"
    "ev \<noteq> MessageEvent" "ev \<noteq> CloseEvent" "pending (?c\<lparr>mInputBuffer := b'\<rparr>) = bs"
    using early_read [OF new_IOBuffer_ok cap c(1-3)] c(4) by blast
  let ?c2 = "?c\<lparr>mInputBuffer := b'\<rparr>" and ?s2 = "set_conn a (?c\<lparr>mInputBuffer := b'\<rparr>) s1"
  have ev: "conn_events onMessage onClose io a h (s1, w) = Inr (?s2, w)"
    using assms(5,6) r by (simp add: conn_events_def run_callback_def conn_at_def s1 close_event_def)
  let ?c3 = "?c2\<lparr>mMessageFunc := True, mCloseFunc := True\<rparr>"
  let ?s3 = "unhold a ((set_conn a ?c3 ?s2)\<lparr>ts_bound := insert a (ts_bound s1)\<rparr>)"
  have "newConnection_end a ?s2 = Inr ?s3"
    by (simp add: newConnection_end_def conn_at_def)
  moreover have "ts_conns ?s3 a = Some ?c3" by (subst unhold_bound) simp_all
  moreover have "hashmap_abs (ts_mTcpConnections ?s3) n = Some a" using abs by (simp add: s1)
  moreover have "pending ?c3 = bs" using r(4) by (simp add: pending_def)
  ultimately show ?thesis using ev by blast
qed

definition half_made :: "string tcp_server" where
  "half_made = (case newConnection_begin 5 demo_peer 100 0 demo_server of Inl e \<Rightarrow> demo_server | Inr (_, s) \<Rightarrow> s)"

lemma half_made: "newConnection_begin 5 demo_peer 100 0 demo_server = Inr (Some demo_name, half_made)"
proof -
  obtain s where "newConnection_begin 5 demo_peer 100 0 demo_server = Inr (Some demo_name, s)"
    using connection_begun [OF demo_server_inv demo_loop demo_name_made [symmetric]] by metis
  then show ?thesis by (simp add: half_made_def)
qed

theorem early_events_lost_witness:
  "\<exists>s2 s3 c. conn_events (\<lambda>c w. Inr (c, w)) (\<lambda>addr w. addr # w) \<lparr>io_received = Some ''hello'', io_accepted = None\<rparr> 100
     ((mConnectionHandler demo_client)\<lparr>mRevents := POLLIN\<rparr>) (half_made, []) = Inr (s2, []) \<and>
    newConnection_end 100 s2 = Inr s3 \<and> hashmap_abs (ts_mTcpConnections s3) demo_name = Some 100 \<and>
    ts_conns s3 100 = Some c \<and> pending c = ''hello''"
proof (rule early_events_lost [OF demo_server_inv _ _ half_made])
  show "ts_conns demo_server 100 = None"
    "hashmap_abs (ts_mTcpConnections demo_server) (generateConnID 5 demo_peer demo_server) = None"
    by (simp_all add: demo_server_def new_TcpServer_def new_SafeHashmap_ok)
  show "doEvnet ((mConnectionHandler demo_client)\<lparr>mRevents := POLLIN\<rparr>) = [ReadFunc]"
    using demo_client_facts(3) by (simp add: doEvnet_def call_if_def event_masks)
qed simp_all

end
