(* ===== verification/Servers.thy ===== *)
theory Servers
  imports Tcp_Server Game_Ops
begin

text \<open>
  The three servers around \<^verbatim>\<open>TcpServer\<close>: \<^verbatim>\<open>LoginServer.cpp\<close>, \<^verbatim>\<open>GatewayServer.cpp\<close> and
  \<^verbatim>\<open>GameServer.cpp\<close>. Their callbacks are put into the operations of \<^verbatim>\<open>Tcp_Server\<close>; what they add is
  the heartbeat check of the timer thread, the threads that take answers from their stream and put
  them into a connection, and the registration of the gateway and game server as a service.

  \<open>server_step\<close> interleaves these threads; the invariant of \<^verbatim>\<open>Tcp_Server\<close> holds in every state they
  reach without a failure, and the theorems say what an answer does and how the threads get into
  each other's way.
\<close>

section \<open>Heartbeat\<close>

text \<open>The timer task of a connection is its name: \<^verbatim>\<open>mConnID\<close> of the heartbeat object bound in it.\<close>

definition login_connNameFunc :: "login_conf \<Rightarrow> string \<Rightarrow> string \<Rightarrow> string tcp_server \<Rightarrow> string tcp_server" where
  "login_connNameFunc conf ident connName s =
     snd (registerTimerTask 0 0 (lc_HEARTBEAT_TIMEOUT_IN_SECONDS conf) (-1) connName ident s)"

definition gateway_connNameFunc :: "gateway_conf \<Rightarrow> string \<Rightarrow> string \<Rightarrow> string tcp_server \<Rightarrow> string tcp_server" where
  "gateway_connNameFunc conf ident connName s =
     snd (registerTimerTask 0 0 (wc_HEARTBEAT_TIMEOUT_IN_SECONDS conf) (-1) connName ident s)"

definition game_connNameFunc :: "game_conf \<Rightarrow> string \<Rightarrow> string \<Rightarrow> string tcp_server \<Rightarrow> string tcp_server" where
  "game_connNameFunc conf ident connName s =
     snd (registerTimerTask 0 0 (gc_HEARTBEAT_TIMEOUT_IN_SECONDS conf) (-1) connName ident s)"

text \<open>
  \<^verbatim>\<open>checkHeartbeat\<close> runs in the thread of the timer tasks: it takes a pointer from the table, and
  later, with other threads in between, looks at the time and perhaps closes. \<open>check\<close> is what the
  server does with the connection in its own state.
\<close>

definition heartbeat_begin :: "string \<Rightarrow> 't tcp_server \<Rightarrow> (addr option \<times> 't tcp_server) result" where
  "heartbeat_begin connID s = getConnPtrRef connID s"

definition heartbeat_end ::
  "(tcp_connection \<Rightarrow> 'w \<Rightarrow> conn_event \<times> 'w) \<Rightarrow> (string \<Rightarrow> 'w \<Rightarrow> 'w) \<Rightarrow> addr \<Rightarrow> 't tcp_server \<times> 'w \<Rightarrow>
   ('t tcp_server \<times> 'w) result"
where
  "heartbeat_end check onClose a sw =
     (case sw of (s, w) \<Rightarrow>
        rbind (conn_at a s) (\<lambda>c.
          case check c w of (ev, w) \<Rightarrow>
            rbind (close_event onClose ev a (s, w)) (\<lambda>(s, w). Inr (unhold a s, w))))"

definition simple_check :: "nat \<Rightarrow> u64 \<Rightarrow> tcp_connection \<Rightarrow> 'w \<Rightarrow> conn_event \<times> 'w" where
  "simple_check timeoutSeconds now c w = (checkHeartbeat timeoutSeconds now (Some c), w)"

section \<open>What the servers put into TcpServer\<close>

type_synonym login_world = "login_object message_types \<times> log"
type_synonym gateway_world = "gateway_object message_types"
type_synonym game_world = "game_object message_types \<times> scenes \<times> log \<times> log"

definition login_onMessage ::
  "login_conf \<Rightarrow> redis \<Rightarrow> u64 \<Rightarrow> nat option \<Rightarrow> thread_id \<Rightarrow> tcp_connection \<Rightarrow> login_world \<Rightarrow>
   (tcp_connection \<times> login_world) result"
where
  "login_onMessage conf srv now accepted tid c w =
     (case w of (types, log) \<Rightarrow>
        rbind (login_messageFunc conf srv now accepted tid (Some c) types log) (\<lambda>(c', types, log).
          case c' of None \<Rightarrow> Inl NullDereference | Some c' \<Rightarrow> Inr (c', types, log)))"

definition gateway_onMessage ::
  "gateway_conf \<Rightarrow> u64 \<Rightarrow> nat option \<Rightarrow> thread_id \<Rightarrow> tcp_connection \<Rightarrow> gateway_world \<Rightarrow>
   (tcp_connection \<times> gateway_world) result"
where
  "gateway_onMessage conf now accepted tid c types =
     rbind (gateway_messageFunc conf now accepted tid (Some c) types) (\<lambda>(c', types).
       case c' of None \<Rightarrow> Inl NullDereference | Some c' \<Rightarrow> Inr (c', types))"

definition game_onMessage ::
  "game_conf \<Rightarrow> redis \<Rightarrow> redis \<Rightarrow> u64 \<Rightarrow> i32 \<times> i32 \<Rightarrow> nat option \<Rightarrow> thread_id \<Rightarrow> tcp_connection \<Rightarrow> game_world \<Rightarrow>
   (tcp_connection \<times> game_world) result"
where
  "game_onMessage conf reg brk now garbage accepted tid c w =
     (case w of (types, scenes, regLog, brkLog) \<Rightarrow>
        rbind (game_messageFunc conf reg brk now garbage accepted tid (Some c) types scenes regLog brkLog)
          (\<lambda>(c', w). case c' of None \<Rightarrow> Inl NullDereference | Some c' \<Rightarrow> Inr (c', w)))"

text \<open>The login and the gateway server set no close function.\<close>

definition no_onClose :: "string \<Rightarrow> 'w \<Rightarrow> 'w" where
  "no_onClose address w = w"

definition game_onClose :: "redis \<Rightarrow> string \<Rightarrow> game_world \<Rightarrow> game_world" where
  "game_onClose reg address w =
     (case w of (types, scenes, regLog, brkLog) \<Rightarrow>
        (case game_closeFunc address scenes reg regLog of (scenes, regLog) \<Rightarrow> (types, scenes, regLog, brkLog)))"

definition game_check :: "nat \<Rightarrow> u64 \<Rightarrow> redis \<Rightarrow> tcp_connection \<Rightarrow> game_world \<Rightarrow> conn_event \<times> game_world" where
  "game_check timeoutSeconds now reg c w =
     (case w of (types, scenes, regLog, brkLog) \<Rightarrow>
        (case game_checkHeartbeat timeoutSeconds now (Some c) scenes reg regLog of (ev, scenes, regLog) \<Rightarrow>
           (ev, types, scenes, regLog, brkLog)))"

text \<open>The objects the constructor of \<^verbatim>\<open>GameServer\<close> registers for a thread; \<open>garbage\<close> are the members
  without initialiser.\<close>

definition game_register ::
  "game_conf \<Rightarrow> u64 \<Rightarrow> u64 \<times> i32 \<times> i32 \<times> i32 \<Rightarrow> u64 \<times> i32 \<Rightarrow> thread_id \<Rightarrow> game_object message_types \<Rightarrow>
   game_object message_types"
where
  "game_register conf now garbage garbage' tid types =
     registerMessageType tid (MESSAGE_GAME_CHARACTER_MSG conf)
       (GameCharacter (new_DSLoadOrUploadCharacterMessage now garbage'))
     (registerMessageType tid (MESSAGE_GAME_MSG conf) (GameDS (new_DSMessage now garbage))
     (registerMessageType tid (MESSAGE_GAME_HEARTBEAT_MSG conf) (GameHeartBeat (new_HeartBeatPacket now))
     (registerMessageType tid (MESSAGE_GAME_BASE_MSG conf) (GameTimestamp (new_TimestampMessage now)) types)))"

section \<open>Answers\<close>

text \<open>An answer for the connection with the name; \<open>False\<close> when there is none.\<close>

definition deliver_answer :: "string \<Rightarrow> bytes \<Rightarrow> 't tcp_server \<Rightarrow> (bool \<times> 't tcp_server) result" where
  "deliver_answer connID data s =
     rbind (getConnPtrRef connID s) (\<lambda>(r, s).
       case r of
         None \<Rightarrow> Inr (False, s)
       | Some a \<Rightarrow>
           rbind (conn_at a s) (\<lambda>c. Inr (True, unhold a (set_conn a (putToBuffer data c) s))))"

text \<open>\<^verbatim>\<open>result[key].at(0)\<close> with its \<^verbatim>\<open>second.value()\<close>; \<^verbatim>\<open>operator[]\<close> makes an empty stream.\<close>

definition first_item :: "(string \<times> items) list \<Rightarrow> string \<Rightarrow> (string \<times> (string \<times> string) list) result" where
  "first_item result key =
     (case map_of result key of
        None \<Rightarrow> Inl OutOfRange
      | Some [] \<Rightarrow> Inl OutOfRange
      | Some ((ident, v) # _) \<Rightarrow> (case v of None \<Rightarrow> Inl BadOptional | Some kvs \<Rightarrow> Inr (ident, kvs)))"

text \<open>
  One round of the loop of a stream consumer. \<open>fill\<close> reads the carrier, \<open>found\<close> and \<open>lost\<close> are the
  calls after an answer was put into a connection or its connection was gone. An exception ends
  the thread (its future is only read by the destructor); what was done before stays done.
\<close>

definition consume ::
  "string \<Rightarrow> string \<Rightarrow> string \<Rightarrow> nat \<Rightarrow> (fields \<Rightarrow> client_carrier \<Rightarrow> client_carrier result) \<Rightarrow>
   (string \<Rightarrow> redis \<Rightarrow> log \<Rightarrow> unit result \<times> log) \<Rightarrow> (string \<Rightarrow> redis \<Rightarrow> log \<Rightarrow> unit result \<times> log) \<Rightarrow> redis \<Rightarrow>
   't tcp_server \<Rightarrow> log \<Rightarrow> unit result \<times> 't tcp_server \<times> log"
where
  "consume key grp consumer ms fill found lost srv s log =
     (case pull_group key grp consumer ''>'' ms 1 srv log of ((n, result), log) \<Rightarrow>
        if n = Some 1 then
          (case rbind (first_item result key) (\<lambda>(ident, kvs).
                  rbind (fill kvs new_client_carrier) (\<lambda>carrier.
                  rbind (deliver_answer (CLIENT_ID carrier) (CARRIER_MESSAGE carrier) s) (\<lambda>(put, s). Inr (ident, put, s)))) of
             Inl e \<Rightarrow> (Inl e, s, log)
           | Inr (ident, put, s) \<Rightarrow>
               (case (if put then found else lost) ident srv log of (r, log) \<Rightarrow> (r, s, log)))
        else (Inr (), s, log))"

definition ignore_reply :: "'a result \<times> log \<Rightarrow> unit result \<times> log" where
  "ignore_reply r = (case r of (x, log) \<Rightarrow> (rbind x (\<lambda>_. Inr ()), log))"

definition no_reply :: "string \<Rightarrow> redis \<Rightarrow> log \<Rightarrow> unit result \<times> log" where
  "no_reply ident srv log = (Inr (), log)"

definition login_consume :: "login_conf \<Rightarrow> redis \<Rightarrow> 't tcp_server \<Rightarrow> log \<Rightarrow> unit result \<times> 't tcp_server \<times> log" where
  "login_consume conf =
     consume (BROKER_LOGIN_KEY conf) (BROKER_LOGIN_GROUP conf) ''LoginStreamConsumer''
       (lc_STREAM_CUSTOMER_PULL_NAP_IN_MILLISECONDS conf) Login_FILL_2_THIS
       (\<lambda>ident srv log. ignore_reply (ack (BROKER_LOGIN_KEY conf) (BROKER_LOGIN_GROUP conf) ident srv log))
       (\<lambda>ident srv log. ignore_reply (del (BROKER_LOGIN_KEY conf) ident srv log))"

text \<open>The gateway's loop is commented out: its thread makes one round.\<close>

definition gateway_consume :: "gateway_conf \<Rightarrow> redis \<Rightarrow> 't tcp_server \<Rightarrow> log \<Rightarrow> unit result \<times> 't tcp_server \<times> log" where
  "gateway_consume conf =
     consume (BROKER_GATEWAY_KEY conf) (BROKER_GATEWAY_GROUP conf) ''GatewayStreamConsumer''
       (wc_STREAM_CUSTOMER_PULL_NAP_IN_MILLISECONDS conf) Gateway_FILL_2_THIS no_reply no_reply"

definition game_consume :: "game_conf \<Rightarrow> redis \<Rightarrow> 't tcp_server \<Rightarrow> log \<Rightarrow> unit result \<times> 't tcp_server \<times> log" where
  "game_consume conf =
     consume (BROKER_GAME_KEY conf) (BROKER_GAME_GROUP conf) ''GameStreamConsumer''
       (gc_STREAM_CUSTOMER_PULL_NAP_IN_MILLISECONDS conf) Game_FILL_2_THIS no_reply no_reply"

text \<open>\<open>n\<close> rounds of a loop that only an exception ends.\<close>

fun consumer_rounds ::
  "nat \<Rightarrow> ('t tcp_server \<Rightarrow> log \<Rightarrow> unit result \<times> 't tcp_server \<times> log) \<Rightarrow> 't tcp_server \<Rightarrow> log \<Rightarrow>
   unit result \<times> 't tcp_server \<times> log"
where
  "consumer_rounds 0 step s log = (Inr (), s, log)"
| "consumer_rounds (Suc n) step s log =
     (case step s log of
        (Inl e, s, log) \<Rightarrow> (Inl e, s, log)
      | (Inr _, s, log) \<Rightarrow> consumer_rounds n step s log)"

definition loginStreamConsumerFunc ::
  "nat \<Rightarrow> login_conf \<Rightarrow> redis \<Rightarrow> 't tcp_server \<Rightarrow> log \<Rightarrow> unit result \<times> 't tcp_server \<times> log" where
  "loginStreamConsumerFunc n conf srv = consumer_rounds n (login_consume conf srv)"

definition gatewayStreamConsumerFunc ::
  "gateway_conf \<Rightarrow> redis \<Rightarrow> 't tcp_server \<Rightarrow> log \<Rightarrow> unit result \<times> 't tcp_server \<times> log" where
  "gatewayStreamConsumerFunc conf srv = gateway_consume conf srv"

definition gameStreamConsumerFunc ::
  "nat \<Rightarrow> game_conf \<Rightarrow> redis \<Rightarrow> 't tcp_server \<Rightarrow> log \<Rightarrow> unit result \<times> 't tcp_server \<times> log" where
  "gameStreamConsumerFunc n conf srv = consumer_rounds n (game_consume conf srv)"

section \<open>The servers as services\<close>

text \<open>\<^verbatim>\<open>intiKey\<close> appends a number from redis to the key of the stream; \<^verbatim>\<open>initKey\<close> makes its group.\<close>

definition gateway_intiKey :: "gateway_conf \<Rightarrow> redis \<Rightarrow> log \<Rightarrow> bool \<times> gateway_conf \<times> log" where
  "gateway_intiKey conf srv log =
     (case try_call as_int (INCR (wc_SERVICE_REGISTRY_ID_KEY conf)) srv log of
        (None, log) \<Rightarrow> (False, conf, log)
      | (Some suffix, log) \<Rightarrow>
          (True, conf\<lparr>BROKER_GATEWAY_KEY := BROKER_GATEWAY_KEY conf @ to_string suffix\<rparr>, log))"

definition gateway_initKey :: "gateway_conf \<Rightarrow> redis \<Rightarrow> log \<Rightarrow> bool \<times> gateway_conf \<times> log" where
  "gateway_initKey conf srv log =
     (case gateway_intiKey conf srv log of (result, conf, log) \<Rightarrow>
        (result, conf,
         if result then snd (createGroup (BROKER_GATEWAY_KEY conf) (BROKER_GATEWAY_GROUP conf) ''$'' srv log) else log))"

definition game_intiKey :: "game_conf \<Rightarrow> redis \<Rightarrow> log \<Rightarrow> bool \<times> game_conf \<times> log" where
  "game_intiKey conf srv log =
     (case try_call as_int (INCR (gc_SERVICE_REGISTRY_ID_KEY conf)) srv log of
        (None, log) \<Rightarrow> (False, conf, log)
      | (Some suffix, log) \<Rightarrow>
          (True, conf\<lparr>BROKER_GAME_KEY := BROKER_GAME_KEY conf @ to_string suffix\<rparr>, log))"

definition game_initKey :: "game_conf \<Rightarrow> redis \<Rightarrow> log \<Rightarrow> bool \<times> game_conf \<times> log" where
  "game_initKey conf srv log =
     (case game_intiKey conf srv log of (result, conf, log) \<Rightarrow>
        (result, conf,
         if result then snd (createGroup (BROKER_GAME_KEY conf) (BROKER_GAME_GROUP conf) ''$'' srv log) else log))"

definition service_key :: "string \<Rightarrow> string \<Rightarrow> nat \<Rightarrow> string" where
  "service_key brokerKey ip port = brokerKey @ '':'' @ ip @ '':'' @ to_string (int port)"

text \<open>The three commands of \<^verbatim>\<open>registerService\<close> before it subscribes; none of them is caught.\<close>

definition register_commands :: "string \<Rightarrow> string \<Rightarrow> string \<Rightarrow> nat \<Rightarrow> nat \<Rightarrow> redis \<Rightarrow> log \<Rightarrow> unit result \<times> log" where
  "register_commands keys keyWithAddress ip port ttl srv log =
     and_then (call as_int (SADD keys keyWithAddress) srv log) (\<lambda>_ log.
     and_then (call as_int (HSET keyWithAddress [(''address'', ip), (''port'', to_string (int port))]) srv log) (\<lambda>_ log.
     and_then (call as_int (EXPIRE keyWithAddress ttl) srv log) (\<lambda>_ log. (Inr (), log))))"

definition gateway_registerService :: "gateway_conf \<Rightarrow> string \<Rightarrow> nat \<Rightarrow> redis \<Rightarrow> log \<Rightarrow> unit result \<times> log" where
  "gateway_registerService conf ip port =
     register_commands (wc_SERVICE_KEYS conf) (service_key (BROKER_GATEWAY_KEY conf) ip port) ip port
       (wrap64 (BROKER_GATEWAY_KEY_HEARTBEAT_IN_SECOND conf * BROKER_GATEWAY_KEY_HEARTBEAT_TOLERANCE conf))"

definition game_registerService :: "game_conf \<Rightarrow> string \<Rightarrow> nat \<Rightarrow> redis \<Rightarrow> log \<Rightarrow> unit result \<times> log" where
  "game_registerService conf ip port =
     register_commands (gc_SERVICE_KEYS conf) (service_key (BROKER_GAME_KEY conf) ip port) ip port
       (wrap64 (BROKER_GAME_KEY_HEARTBEAT_IN_SECOND conf * BROKER_GAME_KEY_HEARTBEAT_TOLERANCE conf))"

text \<open>
  \<^verbatim>\<open>onMessageFunc\<close>: a heartbeat of the center server renews the key and reports the number of
  connections, which is below \<open>2\<^sup>5\<^sup>3\<close> and exact as a \<^verbatim>\<open>double\<close>. \<^verbatim>\<open>front()\<close> of an empty message is
  outside the string.
\<close>

definition on_message ::
  "string \<Rightarrow> string \<Rightarrow> nat \<Rightarrow> string \<Rightarrow> string \<Rightarrow> 't tcp_server \<Rightarrow> redis \<Rightarrow> log \<Rightarrow> unit result \<times> log"
where
  "on_message heartbeat keyWithAddress ttl loads msg s srv log =
     (if msg = heartbeat then
        (case getActiveConnectionNum s of
           Inl e \<Rightarrow> (Inl e, log)
         | Inr activeNum \<Rightarrow>
             and_then (call as_int (EXPIRE keyWithAddress ttl) srv log) (\<lambda>_ log.
             and_then (call as_int (ZADD loads keyWithAddress (double_of_int (int activeNum))) srv log)
               (\<lambda>_ log. (Inr (), log))))
      else if msg = '''' then (Inl OutOfBounds, log)
      else (Inr (), log))"

definition gateway_onMessageFunc ::
  "gateway_conf \<Rightarrow> string \<Rightarrow> string \<Rightarrow> 't tcp_server \<Rightarrow> redis \<Rightarrow> log \<Rightarrow> unit result \<times> log" where
  "gateway_onMessageFunc conf keyWithAddress =
     on_message (BROKER_GATEWAY_KEY_HEARTBEAT_MESSAGE conf) keyWithAddress
       (wrap64 (BROKER_GATEWAY_KEY_HEARTBEAT_IN_SECOND conf * BROKER_GATEWAY_KEY_HEARTBEAT_TOLERANCE conf))
       (wc_GATEWAY_KEYS conf)"

definition game_onMessageFunc ::
  "game_conf \<Rightarrow> string \<Rightarrow> string \<Rightarrow> 't tcp_server \<Rightarrow> redis \<Rightarrow> log \<Rightarrow> unit result \<times> log" where
  "game_onMessageFunc conf keyWithAddress =
     on_message (BROKER_GAME_KEY_HEARTBEAT_MESSAGE conf) keyWithAddress
       (wrap64 (BROKER_GAME_KEY_HEARTBEAT_IN_SECOND conf * BROKER_GAME_KEY_HEARTBEAT_TOLERANCE conf))
       (gc_GAME_KEYS conf)"

text \<open>The loop of \<^verbatim>\<open>PSConsumerFunc\<close> goes on after every exception of redis, also of the callback.\<close>

definition ps_round :: "unit result \<times> log \<Rightarrow> unit result \<times> log" where
  "ps_round r = (case r of (Inl e, log) \<Rightarrow> (if e = RedisError then Inr () else Inl e, log) | (Inr _, log) \<Rightarrow> (Inr (), log))"

section \<open>The servers do not rename connections\<close>

lemma receive_mName:
  "receive_message des now tid c types = Inr (r, c', types') \<Longrightarrow> mName c' = mName c"
  using fetch_same_peer [of c] same_peer_sel
  by (fastforce simp: receive_message_def Let_def rbind_eq_Inr split: prod.splits option.splits)

lemma send_mName [simp]: "mName (send data k c) = mName c" "mName (setCurrentTimestamp t c) = mName c"
  by (auto simp: send_def out_write_def enable_writing_def loop_update_def setCurrentTimestamp_def
      split: prod.splits option.splits)

lemma reply_mName: "reply_heartbeat nm now k c = Inr c' \<Longrightarrow> mName c' = mName c"
  by (auto simp: reply_heartbeat_def Let_def rbind_eq_Inr)

lemma handle_ds_mName: "handle_ds conf srv now g k m c sc log = Inr (c', r) \<Longrightarrow> mName c' = mName c"
  by (auto simp: handle_ds_def Let_def rbind_eq_Inr split: prod.splits)

lemma login_dispatch_mName: "login_dispatch conf srv now k msg obj c log = Inr (c', log') \<Longrightarrow> mName c' = mName c"
  by (cases obj) (auto simp: login_dispatch_def Let_def rbind_eq_Inr dest: reply_mName)

lemma gateway_dispatch_mName: "gateway_dispatch conf now k msg obj c = Inr c' \<Longrightarrow> mName c' = mName c"
  by (cases obj) (auto simp: gateway_dispatch_def dest: reply_mName)

lemma game_dispatch_mName:
  "game_dispatch conf reg brk now g k msg obj c sc l1 l2 = Inr (c', r) \<Longrightarrow> mName c' = mName c"
  by (cases obj) (auto simp: game_dispatch_def Let_def rbind_eq_Inr dest: reply_mName handle_ds_mName)

lemma login_messageFunc_mName:
  assumes "login_messageFunc conf srv now k tid (Some c) types log = Inr (c', r)"
  shows "\<exists>d. c' = Some d \<and> mName d = mName c"
proof (cases "receive_message login_deserialize now tid c types")
  case (Inr x)
  obtain rcv c1 types1 where x: "x = (rcv, c1, types1)" by (cases x)
  have nm: "mName c1 = mName c" using receive_mName Inr x by blast
  show ?thesis
  proof (cases rcv)
    case None
    then show ?thesis using assms Inr x nm by (auto simp: login_messageFunc_def)
  next
    case (Some m)
    obtain msg obj where m: "m = (msg, obj)" by (cases m)
    have eq: "login_messageFunc conf srv now k tid (Some c) types log = rbind (login_dispatch conf srv now k msg obj c1 log) (\<lambda>(c, log). Inr (Some c, types1, log))"
      using Inr x Some m by (simp add: login_messageFunc_def)
    show ?thesis
    proof (cases "login_dispatch conf srv now k msg obj c1 log")
      case (Inl e)
      then show ?thesis using assms unfolding eq by simp
    next
      case (Inr y)
      obtain c2 z where y: "y = (c2, z)" by (cases y)
      have "mName c2 = mName c1" using login_dispatch_mName Inr y by blast
      then show ?thesis using assms nm unfolding eq Inr y by (cases z) auto
    qed
  qed
qed (use assms in \<open>simp add: login_messageFunc_def\<close>)

lemma gateway_messageFunc_mName:
  assumes "gateway_messageFunc conf now k tid (Some c) types = Inr (c', r)"
  shows "\<exists>d. c' = Some d \<and> mName d = mName c"
proof (cases "receive_message gateway_deserialize now tid c types")
  case (Inr x)
  obtain rcv c1 types1 where x: "x = (rcv, c1, types1)" by (cases x)
  have nm: "mName c1 = mName c" using receive_mName Inr x by blast
  show ?thesis
  proof (cases rcv)
    case None
    then show ?thesis using assms Inr x nm by (auto simp: gateway_messageFunc_def)
  next
    case (Some m)
    obtain msg obj where m: "m = (msg, obj)" by (cases m)
    have eq: "gateway_messageFunc conf now k tid (Some c) types = rbind (gateway_dispatch conf now k msg obj c1) (\<lambda>c. Inr (Some c, types1))"
      using Inr x Some m by (simp add: gateway_messageFunc_def)
    show ?thesis
    proof (cases "gateway_dispatch conf now k msg obj c1")
      case (Inl e)
      then show ?thesis using assms unfolding eq by simp
    next
      case (Inr y)
      have "mName y = mName c1" using gateway_dispatch_mName Inr by blast
      then show ?thesis using assms nm unfolding eq Inr by auto
    qed
  qed
qed (use assms in \<open>simp add: gateway_messageFunc_def\<close>)

lemma game_messageFunc_mName:
  assumes "game_messageFunc conf reg brk now g k tid (Some c) types sc l1 l2 = Inr (c', r)"
  shows "\<exists>d. c' = Some d \<and> mName d = mName c"
proof (cases "receive_message game_deserialize now tid c types")
  case (Inr x)
  obtain rcv c1 types1 where x: "x = (rcv, c1, types1)" by (cases x)
  have nm: "mName c1 = mName c" using receive_mName Inr x by blast
  show ?thesis
  proof (cases rcv)
    case None
    then show ?thesis using assms Inr x nm by (auto simp: game_messageFunc_def)
  next
    case (Some m)
    obtain msg obj where m: "m = (msg, obj)" by (cases m)
    have eq: "game_messageFunc conf reg brk now g k tid (Some c) types sc l1 l2 = rbind (game_dispatch conf reg brk now g k msg obj c1 sc l1 l2) (\<lambda>(c, scenes, regLog, brkLog). Inr (Some c, types1, scenes, regLog, brkLog))"
      using Inr x Some m by (simp add: game_messageFunc_def)
    show ?thesis
    proof (cases "game_dispatch conf reg brk now g k msg obj c1 sc l1 l2")
      case (Inl e)
      then show ?thesis using assms unfolding eq by simp
    next
      case (Inr y)
      obtain c2 z where y: "y = (c2, z)" by (cases y)
      have "mName c2 = mName c1" using game_dispatch_mName Inr y by blast
      then show ?thesis using assms nm unfolding eq Inr y by (cases z) auto
    qed
  qed
qed (use assms in \<open>simp add: game_messageFunc_def\<close>)

lemma login_keeps_name: "keeps_name (login_onMessage conf srv now k tid)"
  unfolding keeps_name_def
proof (intro allI impI)
  fix c w c' w' assume r: "login_onMessage conf srv now k tid c w = Inr (c', w')"
  obtain types log where w: "w = (types, log)" by (cases w)
  obtain d y where d: "login_messageFunc conf srv now k tid (Some c) types log = Inr (d, y)"
    using r by (auto simp: w login_onMessage_def rbind_eq_Inr)
  then show "mName c' = mName c"
    using login_messageFunc_mName [OF d] r by (cases y) (auto simp: w login_onMessage_def)
qed

lemma gateway_keeps_name: "keeps_name (gateway_onMessage conf now k tid)"
  unfolding keeps_name_def
proof (intro allI impI)
  fix c w c' w' assume r: "gateway_onMessage conf now k tid c w = Inr (c', w')"
  obtain d y where d: "gateway_messageFunc conf now k tid (Some c) w = Inr (d, y)"
    using r by (auto simp: gateway_onMessage_def rbind_eq_Inr)
  then show "mName c' = mName c"
    using gateway_messageFunc_mName [OF d] r by (auto simp: gateway_onMessage_def)
qed

lemma game_keeps_name: "keeps_name (game_onMessage conf reg brk now g k tid)"
  unfolding keeps_name_def
proof (intro allI impI)
  fix c w c' w' assume r: "game_onMessage conf reg brk now g k tid c w = Inr (c', w')"
  obtain types sc l1 l2 where w: "w = (types, sc, l1, l2)" by (cases w)
  obtain d y where d: "game_messageFunc conf reg brk now g k tid (Some c) types sc l1 l2 = Inr (d, y)"
    using r by (auto simp: w game_onMessage_def rbind_eq_Inr)
  then show "mName c' = mName c"
    using game_messageFunc_mName [OF d] r by (auto simp: w game_onMessage_def)
qed

section \<open>The threads together\<close>

text \<open>
  One step of a server. Event loops start and count their descriptors (\<open>loops\<close>). \<open>onMessage\<close> may depend on the clock and on what redis and the kernel
  answer, so each step takes any of a set. An address is that of a new object only if no object is
  there.
\<close>

inductive server_step ::
  "(tcp_connection \<Rightarrow> 'w \<Rightarrow> (tcp_connection \<times> 'w) result) set \<Rightarrow> (string \<Rightarrow> 'w \<Rightarrow> 'w) \<Rightarrow>
   (tcp_connection \<Rightarrow> 'w \<Rightarrow> conn_event \<times> 'w) set \<Rightarrow> string tcp_server \<times> 'w \<Rightarrow> string tcp_server \<times> 'w \<Rightarrow> bool"
  for msgs onClose checks
where
  accept_begin: "connFilterFunc peer s \<Longrightarrow> ts_conns s a = None \<Longrightarrow>
    newConnection_begin connfd peer a garbage s = Inr (r, s') \<Longrightarrow> server_step msgs onClose checks (s, w) (s', w)"
| name_func: "server_step msgs onClose checks (s, w) (snd (registerTimerTask 0 0 seconds (-1) n ident s), w)"
| accept_end: "a \<in> set (ts_held s) \<Longrightarrow> newConnection_end a s = Inr s' \<Longrightarrow>
    server_step msgs onClose checks (s, w) (s', w)"
| events: "ts_conns s a \<noteq> None \<Longrightarrow> onMessage \<in> msgs \<Longrightarrow>
    conn_events onMessage onClose io a h (s, w) = Inr sw \<Longrightarrow> server_step msgs onClose checks (s, w) sw"
| tick_timer: "timer_seconds k s = Some (Inr s') \<Longrightarrow> server_step msgs onClose checks (s, w) (s', w)"
| take_task: "timer_register s = Inr s' \<Longrightarrow> server_step msgs onClose checks (s, w) (s', w)"
| timer_task: "timerWork s = Some (f, s') \<Longrightarrow> server_step msgs onClose checks (s, w) (s', w)"
| hb_begin: "heartbeat_begin n s = Inr (r, s') \<Longrightarrow> server_step msgs onClose checks (s, w) (s', w)"
| hb_end: "a \<in> set (ts_held s) \<Longrightarrow> check \<in> checks \<Longrightarrow> heartbeat_end check onClose a (s, w) = Inr sw \<Longrightarrow>
    server_step msgs onClose checks (s, w) sw"
| loops: "server_step msgs onClose checks (s, w) (s\<lparr>ts_mEventLoopThreadpool := pool\<rparr>, w)"
| link_timer: "server_step msgs onClose checks (s, w) (snd (linkTimer timer s), w)"
| answer: "deliver_answer n data s = Inr (put, s') \<Longrightarrow> server_step msgs onClose checks (s, w) (s', w)"

inductive_cases server_step_cases: "server_step msgs onClose checks sw sw'"

lemma close_event_inv:
  "server_inv s \<Longrightarrow> close_event onClose ev a (s, w) = Inr (s', w') \<Longrightarrow> server_inv s'"
  using removeConnection_inv by (auto simp: close_event_def split: if_splits)

lemma heartbeat_end_inv:
  assumes "server_inv s" and "heartbeat_end check onClose a (s, w) = Inr (s', w')"
  shows "server_inv s'"
proof -
  obtain c where c: "conn_at a s = Inr c" using assms(2) by (auto simp: heartbeat_end_def rbind_eq_Inr)
  obtain ev w1 where k: "check c w = (ev, w1)" by (cases "check c w")
  obtain s2 where "close_event onClose ev a (s, w1) = Inr (s2, w')" and s': "s' = unhold a s2"
    using assms(2) by (auto simp: heartbeat_end_def c k rbind_eq_Inr)
  have "server_inv s2" by (rule close_event_inv [OF assms(1)]) fact
  then show ?thesis unfolding s' by (rule unhold_inv)
qed

lemma deliver_answer_inv:
  assumes "server_inv s" and "deliver_answer n data s = Inr (put, s')"
  shows "server_inv s'"
proof -
  obtain r s1 where g: "getConnPtrRef n s = Inr (r, s1)"
    using assms(2) by (auto simp: deliver_answer_def rbind_eq_Inr)
  have inv: "server_inv s1" by (rule getConnPtrRef_inv(2) [OF assms(1) g])
  show ?thesis
  proof (cases r)
    case None
    then show ?thesis using assms(2) g inv by (simp add: deliver_answer_def)
  next
    case (Some a)
    then obtain c where c: "ts_conns s1 a = Some c" and s': "s' = unhold a (set_conn a (putToBuffer data c) s1)"
      using assms(2) g by (auto simp: deliver_answer_def conn_at_def rbind_eq_Inr split: option.splits)
    show ?thesis unfolding s' by (intro unhold_inv set_conn_inv [OF inv c]) simp
  qed
qed

lemma server_step_inv:
  assumes "server_step msgs onClose checks sw sw'" and "\<forall>f\<in>msgs. keeps_name f" and "server_inv (fst sw)"
  shows "server_inv (fst sw')"
  using assms
proof (induction rule: server_step.induct)
  case (events s a onMessage io h w sw)
  then show ?case using conn_events_inv [of onMessage s onClose io a h w] by (cases sw) auto
next
  case (hb_end a s check w sw)
  then show ?case using heartbeat_end_inv by (cases sw) fastforce
qed (auto simp: heartbeat_begin_def linkTimer_def
    dest: newConnection_begin_inv(1) newConnection_end_inv timer_seconds_inv timer_register_inv timerWork_inv
      getConnPtrRef_inv(2) deliver_answer_inv)

lemma server_run_inv:
  assumes "(server_step msgs onClose checks)\<^sup>*\<^sup>* sw sw'" and "\<forall>f\<in>msgs. keeps_name f" and "server_inv (fst sw)"
  shows "server_inv (fst sw')"
  using assms by (induction rule: rtranclp_induct) (auto intro: server_step_inv)


definition demo_steps :: "string tcp_server \<times> login_world \<Rightarrow> string tcp_server \<times> login_world \<Rightarrow> bool" where
  "demo_steps = server_step {login_onMessage LoginServConf (\<lambda>log cmd. Broken) 7 (Some 0) 1} no_onClose {simple_check 60 7}"

lemma with_client_end: "newConnection_end 100 half_made = Inr with_client"
proof -
  have "newConnectionFunc (\<lambda>name s. s) 5 demo_peer 100 0 demo_server = newConnection_end 100 half_made"
    by (simp add: newConnectionFunc_def half_made)
  moreover have "\<exists>s. newConnectionFunc (\<lambda>name s. s) 5 demo_peer 100 0 demo_server = Inr s"
    using connection_made [OF demo_server_inv _ demo_loop _ demo_name_made [symmetric], where a = 100 and connNameFunc = "\<lambda>n s. s"]
    by (auto simp: touches_only_tasks_def demo_server_def new_TcpServer_def)
  ultimately show ?thesis by (auto simp: with_client_def)
qed

lemma with_client_reached:
  "demo_steps\<^sup>*\<^sup>* (new_TcpServer ''S'' 1 1 3 length, Map.empty, []) (with_client, Map.empty, [])"
proof -
  have 1: "demo_steps (new_TcpServer ''S'' 1 1 3 length, Map.empty, []) (demo_server, Map.empty, [])"
    unfolding demo_steps_def demo_server_def by (rule server_step.loops)
  have 2: "demo_steps (demo_server, Map.empty, []) (half_made, Map.empty, [])"
    unfolding demo_steps_def
    by (rule server_step.accept_begin [OF _ _ half_made])
       (simp_all add: connFilterFunc_def isInBlacklist_def demo_server_def new_TcpServer_def)
  have "100 \<in> set (ts_held half_made)"
    by (rule conjunct2 [OF newConnection_begin_inv(2) [OF demo_server_inv _ half_made refl]])
       (simp add: demo_server_def new_TcpServer_def)
  then have 3: "demo_steps (half_made, Map.empty, []) (with_client, Map.empty, [])"
    unfolding demo_steps_def using with_client_end by (rule server_step.accept_end)
  show ?thesis using 1 2 3 by (meson converse_rtranclp_into_rtranclp r_into_rtranclp)
qed


section \<open>Answers from the database server\<close>

lemma login_round:
  assumes "server_inv s"
    and "cmd = XREADGROUP (BROKER_LOGIN_GROUP conf) ''LoginStreamConsumer'' (BROKER_LOGIN_KEY conf) ''>''
      (lc_STREAM_CUSTOMER_PULL_NAP_IN_MILLISECONDS conf) 1"
    and "srv log cmd = StreamsReply [(BROKER_LOGIN_KEY conf, [(ident, Some (Login_FILL_2_VEC carrier []))])]"
  shows "login_consume conf srv s log =
    (case hashmap_abs (ts_mTcpConnections s) (CLIENT_ID carrier) of
       None \<Rightarrow> (case ignore_reply (del (BROKER_LOGIN_KEY conf) ident srv (log @ [cmd])) of (r, log) \<Rightarrow> (r, s, log))
     | Some a \<Rightarrow>
         (case ignore_reply (ack (BROKER_LOGIN_KEY conf) (BROKER_LOGIN_GROUP conf) ident srv (log @ [cmd])) of (r, log) \<Rightarrow>
            (r, set_conn a (putToBuffer (CARRIER_MESSAGE carrier) (the (ts_conns s a))) s, log)))"
proof -
  obtain car where car: "Login_FILL_2_THIS (Login_FILL_2_VEC carrier []) new_client_carrier = Inr car"
    "CLIENT_ID car = CLIENT_ID carrier" "CARRIER_MESSAGE car = CARRIER_MESSAGE carrier"
    using client_assign_fields [of carrier "[]" new_client_carrier]
    by (simp add: Login_FILL_2_THIS_def Login_FILL_2_VEC_def client_fields_def)
  have pull: "pull_group (BROKER_LOGIN_KEY conf) (BROKER_LOGIN_GROUP conf) ''LoginStreamConsumer'' ''>''
      (lc_STREAM_CUSTOMER_PULL_NAP_IN_MILLISECONDS conf) 1 srv log =
    ((Some 1, [(BROKER_LOGIN_KEY conf, [(ident, Some (Login_FILL_2_VEC carrier []))])]), log @ [cmd])"
    unfolding pull_group_def pulled_def try_call_def assms(2) [symmetric] assms(3) by simp
  show ?thesis
  proof (cases "hashmap_abs (ts_mTcpConnections s) (CLIENT_ID carrier)")
    case None
    then show ?thesis
      using pull car
      by (simp add: login_consume_def consume_def first_item_def deliver_answer_def
          getConnPtrRef_inv(1) [OF assms(1)])
  next
    case (Some a)
    then obtain c where c: "ts_conns s a = Some c" "mName c = CLIENT_ID carrier"
      using server_inv_name [OF assms(1)] by blast
    let ?s = "set_conn a (putToBuffer (CARRIER_MESSAGE carrier) c) s"
    have inv: "server_inv ?s" by (rule set_conn_inv [OF assms(1) c(1)]) simp
    have "unhold a (set_conn a (putToBuffer (CARRIER_MESSAGE carrier) c) (hold a s)) = ?s"
      unfolding unhold_def using inv
      by (subst collect_same) (auto simp: server_inv_def owned_def table_addrs_def set_conn_def hold_def dom_def)
    then show ?thesis
      using pull car Some c
      by (simp add: login_consume_def consume_def first_item_def deliver_answer_def conn_at_def
          getConnPtrRef_inv(1) [OF assms(1)])
  qed
qed

lemma putToBuffer_outgoing [simp]: "outgoing (putToBuffer data c) = outgoing c @ data"
  by (simp add: putToBuffer_def IOBuffer_put_def outgoing_def enable_writing_def loop_update_def)

text \<open>
  C6. An answer reaches the client it is meant for and nobody else: when the consumer of the login
  server reads a carrier, the message goes behind everything queued for the connection whose name
  is the \<^verbatim>\<open>CLIENT_ID\<close> and the entry is acknowledged; when there is no such connection, the entry is
  deleted and no connection changes.
\<close>

theorem answer_to_its_connection:
  assumes "server_inv s"
    and "cmd = XREADGROUP (BROKER_LOGIN_GROUP conf) ''LoginStreamConsumer'' (BROKER_LOGIN_KEY conf) ''>''
      (lc_STREAM_CUSTOMER_PULL_NAP_IN_MILLISECONDS conf) 1"
    and "srv log cmd = StreamsReply [(BROKER_LOGIN_KEY conf, [(ident, Some (Login_FILL_2_VEC carrier []))])]"
    and "srv (log @ [cmd]) (XACK (BROKER_LOGIN_KEY conf) (BROKER_LOGIN_GROUP conf) ident) = IntReply i"
    and "srv (log @ [cmd]) (XDEL (BROKER_LOGIN_KEY conf) [ident]) = IntReply j"
  shows "case hashmap_abs (ts_mTcpConnections s) (CLIENT_ID carrier) of
      Some a \<Rightarrow>
        (\<exists>c s'. ts_conns s a = Some c \<and> mName c = CLIENT_ID carrier \<and>
           login_consume conf srv s log =
             (Inr (), s', log @ [cmd, XACK (BROKER_LOGIN_KEY conf) (BROKER_LOGIN_GROUP conf) ident]) \<and>
           ts_conns s' = (ts_conns s)(a \<mapsto> putToBuffer (CARRIER_MESSAGE carrier) c) \<and>
           outgoing (putToBuffer (CARRIER_MESSAGE carrier) c) = outgoing c @ CARRIER_MESSAGE carrier)
    | None \<Rightarrow> login_consume conf srv s log = (Inr (), s, log @ [cmd, XDEL (BROKER_LOGIN_KEY conf) [ident]])"
  using login_round [where srv = srv and log = log, OF assms(1-3)] assms(4,5) server_inv_name [OF assms(1), of "CLIENT_ID carrier"]
  by (cases "hashmap_abs (ts_mTcpConnections s) (CLIENT_ID carrier)")
     (fastforce simp: ack_def del_def call_def ignore_reply_def)+

definition demo_answer :: client_carrier where
  "demo_answer = new_client_carrier\<lparr>CLIENT_ID := demo_name, CARRIER_MESSAGE := ''welcome''\<rparr>"

definition demo_broker :: "redis_reply \<Rightarrow> redis" where
  "demo_broker reply log cmd =
     (case cmd of
        XREADGROUP grp consumer key ident ms n \<Rightarrow> StreamsReply [(key, [(''1-0'', Some (Login_FILL_2_VEC demo_answer []))])]
      | _ \<Rightarrow> reply)"

theorem answer_to_its_connection_witness:
  "\<exists>c s'. ts_conns with_client 100 = Some c \<and>
     fst (login_consume LoginServConf (demo_broker (IntReply 1)) with_client []) = Inr () \<and>
     fst (snd (login_consume LoginServConf (demo_broker (IntReply 1)) with_client [])) = s' \<and>
     ts_conns s' = (ts_conns with_client)(100 \<mapsto> putToBuffer ''welcome'' c)"
  using answer_to_its_connection [OF with_client_state(1) refl, of "demo_broker (IntReply 1)" "[]" LoginServConf "''1-0''" demo_answer 1 1]
    with_client_state(5)
  by (auto simp: demo_broker_def demo_answer_def)

text \<open>
  One failed acknowledgement ends the thread that delivers the answers of the login server: the
  answer itself has been put into its connection, but the exception of \<^verbatim>\<open>ack\<close> leaves the loop, and
  however long the server runs it never reads another answer.
\<close>

theorem redis_error_ends_consumer:
  assumes "server_inv s"
    and "cmd = XREADGROUP (BROKER_LOGIN_GROUP conf) ''LoginStreamConsumer'' (BROKER_LOGIN_KEY conf) ''>''
      (lc_STREAM_CUSTOMER_PULL_NAP_IN_MILLISECONDS conf) 1"
    and "srv log cmd = StreamsReply [(BROKER_LOGIN_KEY conf, [(ident, Some (Login_FILL_2_VEC carrier []))])]"
    and "hashmap_abs (ts_mTcpConnections s) (CLIENT_ID carrier) = Some a"
    and "srv (log @ [cmd]) (XACK (BROKER_LOGIN_KEY conf) (BROKER_LOGIN_GROUP conf) ident) = Broken"
  shows "\<exists>c s'. ts_conns s a = Some c \<and> ts_conns s' = (ts_conns s)(a \<mapsto> putToBuffer (CARRIER_MESSAGE carrier) c) \<and>
    (\<forall>rounds. loginStreamConsumerFunc (Suc rounds) conf srv s log =
      (Inl RedisError, s', log @ [cmd, XACK (BROKER_LOGIN_KEY conf) (BROKER_LOGIN_GROUP conf) ident]))"
proof -
  obtain c where c: "ts_conns s a = Some c" using server_inv_name [OF assms(1,4)] by blast
  have "login_consume conf srv s log = (Inl RedisError, set_conn a (putToBuffer (CARRIER_MESSAGE carrier) c) s,
      log @ [cmd, XACK (BROKER_LOGIN_KEY conf) (BROKER_LOGIN_GROUP conf) ident])"
    using login_round [where srv = srv and log = log, OF assms(1-3)] assms(4,5) c by (simp add: ack_def call_def ignore_reply_def)
  then show ?thesis
    using c by (intro exI [of _ c] exI [of _ "set_conn a (putToBuffer (CARRIER_MESSAGE carrier) c) s"])
      (simp add: loginStreamConsumerFunc_def)
qed

theorem redis_error_ends_consumer_witness:
  "\<exists>s'. \<forall>rounds. \<exists>log'. loginStreamConsumerFunc (Suc rounds) LoginServConf (demo_broker Broken) with_client [] =
     (Inl RedisError, s', log')"
  using redis_error_ends_consumer [OF with_client_state(1) refl, of "demo_broker Broken" "[]" LoginServConf "''1-0''" demo_answer 100]
    with_client_state(5)
  by (auto simp: demo_broker_def demo_answer_def)

section \<open>The heartbeat against the event loop\<close>

lemma remove_held:
  assumes "server_inv s" and "ts_conns s a = Some c" and "a \<in> ts_bound s" and "a \<in> set (ts_held s)"
  shows "\<exists>s'. removeConnection onClose a (s, w) = Inr (s', onClose (mPeerIPPort c) w) \<and>
    ts_conns s' a = Some c \<and> a \<notin> ts_bound s'"
proof -
  have ok: "hashmap_ok (ts_mTcpConnections s)" using assms(1) by (simp add: server_inv_def)
  obtain t where "SafeHashmap_erase (mName c) (ts_mTcpConnections s) = Inr t"
    using hm.del_abs [OF ok, of "mName c"] by auto
  then show ?thesis
    using assms(2-4) by (simp add: removeConnection_def conn_at_def collect_def owned_def)
qed

text \<open>
  C33. The heartbeat check of the timer thread and the event loop can close the same connection: when
  the peer's close is handled between the moment the check takes the pointer from the table and the
  moment it closes, \<^verbatim>\<open>activeClose\<close> calls a close function whose bound pointer is already empty, and
  \<^verbatim>\<open>removeConnection\<close> dereferences it.
\<close>

theorem heartbeat_close_race:
  assumes "server_inv s" and "hashmap_abs (ts_mTcpConnections s) connID = Some a" and "ts_conns s a = Some c"
    and "a \<in> ts_bound s" and "mCloseFunc c" and "buffer_ok (mInputBuffer c)"
    and "doEvnet h = [ReadFunc]" and "io_received io = Some []"
    and "heartbeat_timed_out timeoutSeconds now (mCommunicationTimestamp c)"
  shows "\<exists>s1 s2. heartbeat_begin connID s = Inr (Some a, s1) \<and>
    conn_events onMessage onClose io a h (s1, w) = Inr (s2, onClose (mPeerIPPort c) w) \<and>
    heartbeat_end (simple_check timeoutSeconds now) onClose a (s2, onClose (mPeerIPPort c) w) = Inl NullDereference"
proof -
  have begun: "heartbeat_begin connID s = Inr (Some a, hold a s)"
    using getConnPtrRef_inv(1) [OF assms(1)] assms(2) by (simp add: heartbeat_begin_def)
  obtain b where b: "readFunc (Some []) c = Inr (CloseEvent, c\<lparr>mInputBuffer := b\<rparr>)"
    using read_closed [OF assms(6)] assms(5) by (auto simp: closeFunc_def)
  let ?c = "c\<lparr>mInputBuffer := b\<rparr>" and ?s = "set_conn a (c\<lparr>mInputBuffer := b\<rparr>) (hold a s)"
  have "server_inv (hold a s)" using hold_inv [OF assms(1)] assms(3) by simp
  then have inv: "server_inv ?s" by (rule set_conn_inv) (use assms(3) in simp_all)
  obtain s2 where s2: "removeConnection onClose a (?s, w) = Inr (s2, onClose (mPeerIPPort c) w)"
    "ts_conns s2 a = Some ?c" "a \<notin> ts_bound s2"
    using remove_held [OF inv, of a ?c onClose w] assms(4) by auto
  have "conn_events onMessage onClose io a h (hold a s, w) = Inr (s2, onClose (mPeerIPPort c) w)"
    using assms(3,7,8) b s2(1) by (simp add: conn_events_def run_callback_def conn_at_def close_event_def)
  moreover have "heartbeat_end (simple_check timeoutSeconds now) onClose a (s2, onClose (mPeerIPPort c) w) = Inl NullDereference"
    using s2 assms(5,9)
    by (simp add: heartbeat_end_def conn_at_def simple_check_def checkHeartbeat_def activeClose_def
        close_event_def removeConnection_def)
  ultimately show ?thesis using begun by blast
qed

theorem heartbeat_close_race_witness:
  "\<exists>s1 s2. heartbeat_begin demo_name with_client = Inr (Some 100, s1) \<and>
    conn_events (\<lambda>c w. Inr (c, w)) no_onClose \<lparr>io_received = Some [], io_accepted = None\<rparr> 100
      ((mConnectionHandler demo_client)\<lparr>mRevents := POLLIN\<rparr>) (s1, ()) = Inr (s2, ()) \<and>
    heartbeat_end (simple_check 3600 3600000) no_onClose 100 (s2, ()) = Inl NullDereference"
proof -
  have "doEvnet ((mConnectionHandler demo_client)\<lparr>mRevents := POLLIN\<rparr>) = [ReadFunc]"
    using demo_client_facts(3) by (simp add: doEvnet_def call_if_def event_masks)
  moreover have "heartbeat_timed_out 3600 3600000 (mCommunicationTimestamp demo_client)"
    by (simp add: heartbeat_timed_out_def demo_client_facts wrap64_def)
  ultimately show ?thesis
    using heartbeat_close_race [OF with_client_state(1), of demo_name 100 demo_client
        "(mConnectionHandler demo_client)\<lparr>mRevents := POLLIN\<rparr>" "\<lparr>io_received = Some [], io_accepted = None\<rparr>"
        3600 3600000 "\<lambda>c w. Inr (c, w)" no_onClose "()"]
      demo_client_facts with_client_state
    by simp
qed

text \<open>
  The gateway checks the heartbeat of a connection once: of a connection that is accepted while the
  second hand of the timer stands at 0, with the timeout of 60 seconds of \<^verbatim>\<open>GatewayServConf\<close>, the check
  is queued after 60 seconds and never again, although it was registered with cycle number -1 for
  ever. A client that falls silent later keeps its connection.
\<close>

theorem gateway_heartbeat_once:
  assumes "ts_mTimer s = Some timer" and "idle timer" and "sq_mData (mTaskEntry timer) = []"
    and "mRegisteredTasks timer ident = None" and "tw_Seconds timer = 0"
    and "ts_mTimerTasks s ident = None" and "ts_mTimeoutTaskIDQueue s = []"
  shows "\<exists>s1 s2. timer_register (gateway_connNameFunc GatewayServConf ident connName s) = Inr s1 \<and>
    timer_seconds k s1 = Some (Inr s2) \<and> runTimerTask ident s2 = Some connName \<and>
    ts_mTimeoutTaskIDQueue s2 = (if k < 60 then [] else [ident])"
proof -
  let ?t = "new_TimerTask 0 0 60 (-1) ident (Some ident)"
  obtain t1 t2 where t: "registerTask (addTask ?t timer) = Inr t1" "ticks k t1 = Some (Inr t2)"
    "tw_fired t2 = tw_fired timer @ (if k < 60 then [] else [(ident, ident)])"
    using minute_task_once [OF assms(2-5), of ident k] by blast
  have fired: "tw_fired t1 = tw_fired timer"
    using minute_task_once [OF assms(2-5), of ident 0] t(1) by auto
  let ?s = "gateway_connNameFunc GatewayServConf ident connName s"
  have s: "ts_mTimer ?s = Some (addTask ?t timer)" "ts_mTimerTasks ?s ident = Some connName"
    "ts_mTimeoutTaskIDQueue ?s = []"
    using assms(1,6,7) by (simp_all add: gateway_connNameFunc_def registerTimerTask_def GatewayServConf_def)
  then have r: "timer_register ?s = Inr (?s\<lparr>ts_mTimer := Some t1\<rparr>)"
    using t(1) by (simp add: timer_register_def)
  let ?s2 = "fold (pushTaskID \<circ> snd) (drop (length (tw_fired t1)) (tw_fired t2)) (?s\<lparr>ts_mTimer := Some t2\<rparr>)"
  have "timer_seconds k (?s\<lparr>ts_mTimer := Some t1\<rparr>) = Some (Inr ?s2)"
    using t(2) by (simp add: timer_seconds_def)
  moreover have "runTimerTask ident ?s2 = Some connName \<and> ts_mTimeoutTaskIDQueue ?s2 = (if k < 60 then [] else [ident])"
    using t(3) fired s by (simp add: runTimerTask_def pushTaskID_def)
  ultimately show ?thesis using r by blast
qed

theorem gateway_heartbeat_once_witness:
  "\<exists>s1 s2. timer_register (gateway_connNameFunc GatewayServConf ''t'' demo_name (demo_server\<lparr>ts_mTimer := Some new_TimeWheelTimer\<rparr>)) = Inr s1 \<and>
    timer_seconds 100000 s1 = Some (Inr s2) \<and> ts_mTimeoutTaskIDQueue s2 = [''t'']"
  using gateway_heartbeat_once [of "demo_server\<lparr>ts_mTimer := Some new_TimeWheelTimer\<rparr>" new_TimeWheelTimer "''t''" demo_name 100000]
  by (auto simp: idle_def timer_ok_def new_TimeWheelTimer_def new_SafeQueue_def demo_server_def new_TcpServer_def)

section \<open>Admission\<close>

lemma registerTimerTask_frame: "touches_only_tasks (\<lambda>s. snd (registerTimerTask h m sec cyc func ident s))"
  by (auto simp: touches_only_tasks_def registerTimerTask_def split: option.splits)

text \<open>
  The acceptor refuses exactly the peers on the blacklist. Any other peer with a new name is
  admitted as long as an event loop runs: its connection is found under the name, calls the
  server's functions, and no other connection or name is touched.
\<close>

theorem admitted_connection_reachable:
  assumes "server_inv s" and "ts_conns s a = None" and "0 < connfd"
    and "getDesiredIndex ROUND_ROBIN (ts_mEventLoopThreadpool s) = Inr (index, pool)"
    and "getEventLoop index pool = Inr (Some th)"
    and "hashmap_abs (ts_mTcpConnections s) (generateConnID connfd peer s) = None"
  shows "if sa_ip peer \<in> ts_mConnBlacklist s
    then connFunc (login_connNameFunc conf ident) connfd peer a garbage s = Inr (Refused, s)
    else \<exists>s' c. connFunc (login_connNameFunc conf ident) connfd peer a garbage s = Inr (Admitted, s') \<and>
      hashmap_abs (ts_mTcpConnections s') = (hashmap_abs (ts_mTcpConnections s))(generateConnID connfd peer s \<mapsto> a) \<and>
      ts_conns s' = (ts_conns s)(a \<mapsto> c) \<and> mName c = generateConnID connfd peer s \<and>
      mPeerIPPort c = sa_hostService peer \<and> mMessageFunc c \<and> mCloseFunc c \<and> pending c = [] \<and> outgoing c = []"
proof -
  have frame: "touches_only_tasks (login_connNameFunc conf ident n)" for n
    using registerTimerTask_frame by (simp add: login_connNameFunc_def [abs_def])
  let ?n = "generateConnID connfd peer s"
  let ?c = "(new_TcpConnection connfd (sa_ip peer) (sa_hostService peer) ?n garbage)\<lparr>mMessageFunc := True, mCloseFunc := True\<rparr>"
  have c: "mName ?c = ?n" "mPeerIPPort ?c = sa_hostService peer" "mMessageFunc ?c" "mCloseFunc ?c"
    "pending ?c = []" "outgoing ?c = []"
    by (simp_all add: new_TcpConnection_def Let_def loop_update_def pending_def outgoing_def new_IOBuffer_def)
  obtain s' where s': "newConnectionFunc (login_connNameFunc conf ident) connfd peer a garbage s = Inr s'"
    "hashmap_abs (ts_mTcpConnections s') = (hashmap_abs (ts_mTcpConnections s))(?n \<mapsto> a)"
    "ts_conns s' = (ts_conns s)(a \<mapsto> ?c)"
    using connection_made [where connNameFunc = "login_connNameFunc conf ident" and connfd = connfd and peer = peer and garbage = garbage, OF assms(1,2,4,5) frame refl]
      assms(6) by auto
  show ?thesis
  proof (cases "sa_ip peer \<in> ts_mConnBlacklist s")
    case True
    then show ?thesis using assms(3) by (simp add: connFunc_def connFilterFunc_def isInBlacklist_def)
  next
    case False
    then have "connFunc (login_connNameFunc conf ident) connfd peer a garbage s = Inr (Admitted, s')"
      using assms(3) s'(1) by (simp add: connFunc_def connFilterFunc_def isInBlacklist_def)
    with False s'(2,3) c show ?thesis by (simp only: if_False) (intro exI [of _ s'] exI [of _ ?c] conjI; simp)
  qed
qed

theorem admitted_connection_reachable_witness:
  "\<exists>s' c. connFunc (login_connNameFunc LoginServConf ''t'') 5 demo_peer 100 0 demo_server = Inr (Admitted, s') \<and>
     ts_conns s' = [100 \<mapsto> c] \<and> mName c = demo_name"
proof -
  have d: "ts_conns demo_server = Map.empty" "hashmap_abs (ts_mTcpConnections demo_server) = Map.empty"
    "sa_ip demo_peer \<notin> ts_mConnBlacklist demo_server"
    by (simp_all add: demo_server_def new_TcpServer_def new_SafeHashmap_ok)
  show ?thesis
    using admitted_connection_reachable [OF demo_server_inv _ _ demo_loop, of 100 5 demo_peer LoginServConf "''t''" 0] d
    by (auto simp: demo_name_made)
qed

end
