(* ===== verification/Game_Data.thy ===== *)
theory Game_Data
  imports Prelude
begin

text \<open>
  The tables of \<^verbatim>\<open>GameDataTable\<close>: the codes of the states, occupations and scenes and the names of
  the fields of a character (\<^verbatim>\<open>GameDataCode.h\<close>), and what a new character starts with
  (\<^verbatim>\<open>NewerCharacterInit\<close> of \<^verbatim>\<open>GameDataCharacterAttribute.h\<close>).
\<close>

section \<open>Codes\<close>

definition GAME_DATA_CODE_STATE_QI :: i32 where "GAME_DATA_CODE_STATE_QI = 100011"
definition GAME_DATA_CODE_STATE_CHU :: i32 where "GAME_DATA_CODE_STATE_CHU = 100012"
definition GAME_DATA_CODE_STATE_YAN :: i32 where "GAME_DATA_CODE_STATE_YAN = 100013"
definition GAME_DATA_CODE_STATE_QIN :: i32 where "GAME_DATA_CODE_STATE_QIN = 100014"
definition GAME_DATA_CODE_STATE_ZHAO :: i32 where "GAME_DATA_CODE_STATE_ZHAO = 100015"
definition GAME_DATA_CODE_STATE_WEI :: i32 where "GAME_DATA_CODE_STATE_WEI = 100016"
definition GAME_DATA_CODE_STATE_HAN :: i32 where "GAME_DATA_CODE_STATE_HAN = 100017"
definition GAME_DATA_CODE_OCCUPTION_FARMER :: i32 where "GAME_DATA_CODE_OCCUPTION_FARMER = 100111"
definition GAME_DATA_CODE_OCCUPTION_HANDICRAFTSMAN :: i32 where "GAME_DATA_CODE_OCCUPTION_HANDICRAFTSMAN = 100112"
definition GAME_DATA_CODE_OCCUPTION_HUNTER :: i32 where "GAME_DATA_CODE_OCCUPTION_HUNTER = 100113"
definition GAME_DATA_CODE_OCCUPTION_EXPLORER :: i32 where "GAME_DATA_CODE_OCCUPTION_EXPLORER = 100114"
definition GAME_DATA_CODE_OCCUPTION_SOLDIER :: i32 where "GAME_DATA_CODE_OCCUPTION_SOLDIER = 100115"
definition GAME_DATA_CODE_OCCUPTION_VENDOR :: i32 where "GAME_DATA_CODE_OCCUPTION_VENDOR = 100116"
definition GAME_DATA_CODE_OCCUPTION_SCHOLAR :: i32 where "GAME_DATA_CODE_OCCUPTION_SCHOLAR = 100117"
definition GAME_DATA_CODE_OCCUPTION_DOCTOR :: i32 where "GAME_DATA_CODE_OCCUPTION_DOCTOR = 100118"
definition GAME_DATA_CODE_OCCUPTION_WIZARD :: i32 where "GAME_DATA_CODE_OCCUPTION_WIZARD = 100119"
definition GAME_DATA_SCENE_QI_1 :: i32 where "GAME_DATA_SCENE_QI_1 = 200001"
definition GAME_DATA_SCENE_QI_2 :: i32 where "GAME_DATA_SCENE_QI_2 = 200002"
definition GAME_DATA_SCENE_QI_3 :: i32 where "GAME_DATA_SCENE_QI_3 = 200003"
definition GAME_DATA_SCENE_QI_4 :: i32 where "GAME_DATA_SCENE_QI_4 = 200004"
definition GAME_DATA_SCENE_QI_5 :: i32 where "GAME_DATA_SCENE_QI_5 = 200005"
definition GAME_DATA_SCENE_QI_6 :: i32 where "GAME_DATA_SCENE_QI_6 = 200006"
definition GAME_DATA_SCENE_QI_7 :: i32 where "GAME_DATA_SCENE_QI_7 = 200007"
definition GAME_DATA_SCENE_QI_8 :: i32 where "GAME_DATA_SCENE_QI_8 = 200008"
definition GAME_DATA_SCENE_QI_9 :: i32 where "GAME_DATA_SCENE_QI_9 = 200009"
definition GAME_DATA_SCENE_QI_10 :: i32 where "GAME_DATA_SCENE_QI_10 = 200010"
definition GAME_DATA_SCENE_CHU_1 :: i32 where "GAME_DATA_SCENE_CHU_1 = 200101"
definition GAME_DATA_SCENE_CHU_2 :: i32 where "GAME_DATA_SCENE_CHU_2 = 200102"
definition GAME_DATA_SCENE_CHU_3 :: i32 where "GAME_DATA_SCENE_CHU_3 = 200103"
definition GAME_DATA_SCENE_CHU_4 :: i32 where "GAME_DATA_SCENE_CHU_4 = 200104"
definition GAME_DATA_SCENE_CHU_5 :: i32 where "GAME_DATA_SCENE_CHU_5 = 200105"
definition GAME_DATA_SCENE_CHU_6 :: i32 where "GAME_DATA_SCENE_CHU_6 = 200106"
definition GAME_DATA_SCENE_CHU_7 :: i32 where "GAME_DATA_SCENE_CHU_7 = 200107"
definition GAME_DATA_SCENE_CHU_8 :: i32 where "GAME_DATA_SCENE_CHU_8 = 200108"
definition GAME_DATA_SCENE_CHU_9 :: i32 where "GAME_DATA_SCENE_CHU_9 = 200109"
definition GAME_DATA_SCENE_CHU_10 :: i32 where "GAME_DATA_SCENE_CHU_10 = 200110"
definition GAME_DATA_SCENE_YAN_1 :: i32 where "GAME_DATA_SCENE_YAN_1 = 200201"
definition GAME_DATA_SCENE_YAN_2 :: i32 where "GAME_DATA_SCENE_YAN_2 = 200202"
definition GAME_DATA_SCENE_QIN_1 :: i32 where "GAME_DATA_SCENE_QIN_1 = 200301"
definition GAME_DATA_SCENE_QIN_2 :: i32 where "GAME_DATA_SCENE_QIN_2 = 200302"
definition GAME_DATA_SCENE_ZHAO_1 :: i32 where "GAME_DATA_SCENE_ZHAO_1 = 200401"
definition GAME_DATA_SCENE_ZHAO_2 :: i32 where "GAME_DATA_SCENE_ZHAO_2 = 200402"
definition GAME_DATA_SCENE_WEI_1 :: i32 where "GAME_DATA_SCENE_WEI_1 = 200501"
definition GAME_DATA_SCENE_WEI_2 :: i32 where "GAME_DATA_SCENE_WEI_2 = 200502"
definition GAME_DATA_SCENE_HAN_1 :: i32 where "GAME_DATA_SCENE_HAN_1 = 200601"
definition GAME_DATA_SCENE_HAN_2 :: i32 where "GAME_DATA_SCENE_HAN_2 = 200602"

lemmas state_codes =
  GAME_DATA_CODE_STATE_QI_def
  GAME_DATA_CODE_STATE_CHU_def
  GAME_DATA_CODE_STATE_YAN_def
  GAME_DATA_CODE_STATE_QIN_def
  GAME_DATA_CODE_STATE_ZHAO_def
  GAME_DATA_CODE_STATE_WEI_def
  GAME_DATA_CODE_STATE_HAN_def

lemmas scene_codes =
  GAME_DATA_SCENE_QI_1_def
  GAME_DATA_SCENE_QI_2_def
  GAME_DATA_SCENE_QI_3_def
  GAME_DATA_SCENE_QI_4_def
  GAME_DATA_SCENE_QI_5_def
  GAME_DATA_SCENE_QI_6_def
  GAME_DATA_SCENE_QI_7_def
  GAME_DATA_SCENE_QI_8_def
  GAME_DATA_SCENE_QI_9_def
  GAME_DATA_SCENE_QI_10_def
  GAME_DATA_SCENE_CHU_1_def
  GAME_DATA_SCENE_CHU_2_def
  GAME_DATA_SCENE_CHU_3_def
  GAME_DATA_SCENE_CHU_4_def
  GAME_DATA_SCENE_CHU_5_def
  GAME_DATA_SCENE_CHU_6_def
  GAME_DATA_SCENE_CHU_7_def
  GAME_DATA_SCENE_CHU_8_def
  GAME_DATA_SCENE_CHU_9_def
  GAME_DATA_SCENE_CHU_10_def
  GAME_DATA_SCENE_YAN_1_def
  GAME_DATA_SCENE_YAN_2_def
  GAME_DATA_SCENE_QIN_1_def
  GAME_DATA_SCENE_QIN_2_def
  GAME_DATA_SCENE_ZHAO_1_def
  GAME_DATA_SCENE_ZHAO_2_def
  GAME_DATA_SCENE_WEI_1_def
  GAME_DATA_SCENE_WEI_2_def
  GAME_DATA_SCENE_HAN_1_def
  GAME_DATA_SCENE_HAN_2_def

section \<open>Field names\<close>

definition FIELD_ACCOUNT :: string where "FIELD_ACCOUNT = ''account''"
definition FIELD_PASSWORD :: string where "FIELD_PASSWORD = ''password''"
definition FIELD_CHARACTER_BASE_INFO :: string where "FIELD_CHARACTER_BASE_INFO = ''base_info''"
definition FIELD_CHARACTER_NAME :: string where "FIELD_CHARACTER_NAME = ''name''"
definition FIELD_CHARACTER_LEVEL :: string where "FIELD_CHARACTER_LEVEL = ''level''"
definition FIELD_CHARACTER_GENDER :: string where "FIELD_CHARACTER_GENDER = ''gender''"
definition FIELD_CHARACTER_OCCUPTION :: string where "FIELD_CHARACTER_OCCUPTION = ''occuption''"
definition FIELD_CHARACTER_STATE :: string where "FIELD_CHARACTER_STATE = ''state''"
definition FIELD_ATTRIBUTE :: string where "FIELD_ATTRIBUTE = ''attribute''"
definition FIELD_EXP :: string where "FIELD_EXP = ''exp''"
definition FIELD_HEALTH :: string where "FIELD_HEALTH = ''health''"
definition FIELD_MANA :: string where "FIELD_MANA = ''mana''"
definition FIELD_ARMOR :: string where "FIELD_ARMOR = ''armor''"
definition FIELD_STAMINA :: string where "FIELD_STAMINA = ''stamina''"
definition FIELD_STRENGTH :: string where "FIELD_STRENGTH = ''strength''"
definition FIELD_AGILITY :: string where "FIELD_AGILITY = ''agility''"
definition FIELD_INTELLECT :: string where "FIELD_INTELLECT = ''intellect''"
definition FIELD_LOCATION :: string where "FIELD_LOCATION = ''location''"
definition FIELD_SCENE_ID :: string where "FIELD_SCENE_ID = ''scene_id''"
definition FIELD_SCENE_X :: string where "FIELD_SCENE_X = ''scene_x''"
definition FIELD_SCENE_Y :: string where "FIELD_SCENE_Y = ''scene_y''"
definition FIELD_SCENE_Z :: string where "FIELD_SCENE_Z = ''scene_z''"
definition FIELD_CHARACTER_DATA :: string where "FIELD_CHARACTER_DATA = ''character_data''"

lemmas field_names [simp] =
  FIELD_ACCOUNT_def
  FIELD_PASSWORD_def
  FIELD_CHARACTER_BASE_INFO_def
  FIELD_CHARACTER_NAME_def
  FIELD_CHARACTER_LEVEL_def
  FIELD_CHARACTER_GENDER_def
  FIELD_CHARACTER_OCCUPTION_def
  FIELD_CHARACTER_STATE_def
  FIELD_ATTRIBUTE_def
  FIELD_EXP_def
  FIELD_HEALTH_def
  FIELD_MANA_def
  FIELD_ARMOR_def
  FIELD_STAMINA_def
  FIELD_STRENGTH_def
  FIELD_AGILITY_def
  FIELD_INTELLECT_def
  FIELD_LOCATION_def
  FIELD_SCENE_ID_def
  FIELD_SCENE_X_def
  FIELD_SCENE_Y_def
  FIELD_SCENE_Z_def
  FIELD_CHARACTER_DATA_def

section \<open>New characters\<close>

text \<open>The doubles of the table, as bit patterns; 0 converts to \<open>0.0\<close>.\<close>

definition DOUBLE_2000 :: f64 where "DOUBLE_2000 = 0x409F400000000000"
definition DOUBLE_90 :: f64 where "DOUBLE_90 = 0x4056800000000000"

definition newerSpawnLocation :: "i32 \<Rightarrow> i32 \<Rightarrow> i32 \<times> f64 \<times> f64 \<times> f64" where
  "newerSpawnLocation state occuption =
     (if state = GAME_DATA_CODE_STATE_QI then (GAME_DATA_SCENE_QI_1, DOUBLE_2000, DOUBLE_2000, DOUBLE_90)
      else if state = GAME_DATA_CODE_STATE_CHU then (GAME_DATA_SCENE_CHU_1, DOUBLE_2000, DOUBLE_2000, DOUBLE_90)
      else if state = GAME_DATA_CODE_STATE_YAN then (GAME_DATA_SCENE_YAN_1, DOUBLE_2000, DOUBLE_2000, DOUBLE_90)
      else if state = GAME_DATA_CODE_STATE_QIN then (GAME_DATA_SCENE_QIN_1, DOUBLE_2000, DOUBLE_2000, DOUBLE_90)
      else if state = GAME_DATA_CODE_STATE_ZHAO then (GAME_DATA_SCENE_ZHAO_1, DOUBLE_2000, DOUBLE_2000, DOUBLE_90)
      else if state = GAME_DATA_CODE_STATE_WEI then (GAME_DATA_SCENE_WEI_1, DOUBLE_2000, DOUBLE_2000, DOUBLE_90)
      else if state = GAME_DATA_CODE_STATE_HAN then (GAME_DATA_SCENE_HAN_1, DOUBLE_2000, DOUBLE_2000, DOUBLE_90)
      else (- 1, 0, 0, 0))"

text \<open>\<^verbatim>\<open>unordered_map\<close>; \<open>[]\<close> of a name it does not hold inserts 0.\<close>

definition newerAttribute :: "i32 \<Rightarrow> i32 \<Rightarrow> string \<rightharpoonup> i32" where
  "newerAttribute state occuption =
     [FIELD_EXP \<mapsto> 0, FIELD_HEALTH \<mapsto> 100, FIELD_MANA \<mapsto> 50, FIELD_ARMOR \<mapsto> 10,
      FIELD_STAMINA \<mapsto> 100, FIELD_STRENGTH \<mapsto> 10, FIELD_AGILITY \<mapsto> 10, FIELD_INTELLECT \<mapsto> 10]"

definition attribute :: "(string \<rightharpoonup> i32) \<Rightarrow> string \<Rightarrow> i32" where
  "attribute attributes name = (case attributes name of None \<Rightarrow> 0 | Some v \<Rightarrow> v)"

definition newerSkill :: "i32 \<Rightarrow> i32 \<Rightarrow> i32 \<rightharpoonup> i32" where
  "newerSkill state occuption = Map.empty"

lemma newerAttribute_values [simp]:
  "attribute (newerAttribute s oc) ''exp'' = 0"
  "attribute (newerAttribute s oc) ''health'' = 100"
  "attribute (newerAttribute s oc) ''mana'' = 50"
  "attribute (newerAttribute s oc) ''armor'' = 10"
  "attribute (newerAttribute s oc) ''stamina'' = 100"
  "attribute (newerAttribute s oc) ''strength'' = 10"
  "attribute (newerAttribute s oc) ''agility'' = 10"
  "attribute (newerAttribute s oc) ''intellect'' = 10"
  by (simp_all add: attribute_def newerAttribute_def)

end
