(* ===== verification/Mongo_Client.thy ===== *)
theory Mongo_Client
  imports Prelude
begin

text \<open>
  What the database server uses of \<^verbatim>\<open>mongocxx\<close> and \<^verbatim>\<open>bsoncxx\<close>. Neither library nor MongoDB is part
  of the repository. A document is the data that \<^verbatim>\<open>make_document\<close> and \<^verbatim>\<open>make_array\<close> are given. The
  driver is a parameter of every operation: a function from the commands sent so far and the next
  command to the reply, the reading of \<^verbatim>\<open>std::chrono::system_clock\<close> at that moment, and the function
  \<^verbatim>\<open>with_transaction\<close>, which calls its callback any number of times. What the documentation of the
  driver promises of \<^verbatim>\<open>with_transaction\<close> is the relation \<open>transaction_run\<close>, a hypothesis of the
  theorems that need it.
\<close>

section \<open>Documents\<close>

datatype bson =
    BString string
  | BInt32 i32
  | BDouble f64
  | BBool bool
  | BDate u64
  | BArray "bson list"
  | BDocument "(string \<times> bson) list"

type_synonym document = "(string \<times> bson) list"

text \<open>\<^verbatim>\<open>operator[]\<close> finds the first field of the name. A missing field, or one of an \<^verbatim>\<open>operator[]\<close>
  on something that is no document, is an invalid element, and every \<^verbatim>\<open>get_\<close> of an invalid element
  or of one of another type throws.\<close>

type_synonym element = "bson option"

definition field :: "document \<Rightarrow> string \<Rightarrow> element" where
  "field d name = map_of d name"

fun subfield :: "element \<Rightarrow> string \<Rightarrow> element" where
  "subfield (Some (BDocument d)) name = field d name"
| "subfield _ name = None"

fun get_int32 :: "element \<Rightarrow> i32 result" where
  "get_int32 (Some (BInt32 i)) = Inr i" | "get_int32 _ = Inl BsonError"

fun get_bool :: "element \<Rightarrow> bool result" where
  "get_bool (Some (BBool b)) = Inr b" | "get_bool _ = Inl BsonError"

fun get_string :: "element \<Rightarrow> string result" where
  "get_string (Some (BString s)) = Inr s" | "get_string _ = Inl BsonError"

fun get_double :: "element \<Rightarrow> f64 result" where
  "get_double (Some (BDouble x)) = Inr x" | "get_double _ = Inl BsonError"

fun get_array :: "element \<Rightarrow> bson list result" where
  "get_array (Some (BArray xs)) = Inr xs" | "get_array _ = Inl BsonError"

lemma field_simps [simp]:
  "field ((n, v) # d) n = Some v"
  "m \<noteq> n \<Longrightarrow> field ((n, v) # d) m = field d m"
  "field [] m = None"
  by (simp_all add: field_def)

section \<open>The driver\<close>

text \<open>A command names its collection by the two strings the code passes, and says whether the
  code passed a client session to it.\<close>

type_synonym collection = "string \<times> string"

datatype mongo_command =
    ACQUIRE
  | START_SESSION
  | START_TRANSACTION
  | COMMIT_TRANSACTION
  | ABORT_TRANSACTION
  | CREATE_INDEX collection document bool
  | FIND_ONE collection document "document option"
  | FIND_ONE_AND_UPDATE collection document document
  | AGGREGATE collection document document
  | INSERT_ONE bool collection document
  | UPDATE_ONE bool collection document document
  | DELETE_ONE bool collection document

text \<open>\<open>MongoException\<close> throws \<^verbatim>\<open>mongocxx::exception\<close> with the code; so does a reply of the wrong
  kind. \<open>Counted\<close> is the number of documents inserted, modified or deleted.\<close>

datatype mongo_reply =
    MongoException int
  | NoClient
  | Done
  | Counted int
  | Found "document option"
  | Cursor "document list"

type_synonym mongo_log = "mongo_command list"

fun exception_code :: "mongo_reply \<Rightarrow> int" where
  "exception_code (MongoException code) = code" | "exception_code _ = 0"

fun as_done :: "mongo_reply \<Rightarrow> unit option" where
  "as_done Done = Some ()" | "as_done _ = None"

fun as_counted :: "mongo_reply \<Rightarrow> int option" where
  "as_counted (Counted n) = Some n" | "as_counted _ = None"

fun as_found :: "mongo_reply \<Rightarrow> document option option" where
  "as_found (Found d) = Some d" | "as_found _ = None"

fun as_cursor :: "mongo_reply \<Rightarrow> document list option" where
  "as_cursor (Cursor ds) = Some ds" | "as_cursor _ = None"

text \<open>A callback of \<^verbatim>\<open>with_transaction\<close> changes the variables it captures (here one \<^verbatim>\<open>int\<close>) and
  either returns or throws a \<^verbatim>\<open>mongocxx::exception\<close> with its code.\<close>

type_synonym transaction_cb = "int \<times> mongo_log \<Rightarrow> (int + unit) \<times> int \<times> mongo_log"

record mongo =
  mg_reply :: "mongo_log \<Rightarrow> mongo_command \<Rightarrow> mongo_reply"
  mg_clock :: "mongo_log \<Rightarrow> u64"
  mg_with_transaction :: "transaction_cb \<Rightarrow> transaction_cb"

text \<open>A call throws (\<open>Inl\<close> the code) or gives its value. \<open>mthen\<close> runs the next statement unless the
  last one threw; \<open>uncaught\<close> lets the exception leave the function.\<close>

definition mcall ::
  "(mongo_reply \<Rightarrow> 'a option) \<Rightarrow> mongo_command \<Rightarrow> mongo \<Rightarrow> mongo_log \<Rightarrow> (int + 'a) \<times> mongo_log"
where
  "mcall sel cmd db log =
     (case sel (mg_reply db log cmd) of
        None \<Rightarrow> Inl (exception_code (mg_reply db log cmd))
      | Some x \<Rightarrow> Inr x, log @ [cmd])"

definition mthen ::
  "(int + 'a) \<times> mongo_log \<Rightarrow> ('a \<Rightarrow> mongo_log \<Rightarrow> (int + 'b) \<times> mongo_log) \<Rightarrow> (int + 'b) \<times> mongo_log"
where
  "mthen s f = (case s of (Inl code, log) \<Rightarrow> (Inl code, log) | (Inr x, log) \<Rightarrow> f x log)"

definition uncaught :: "(int + 'a) \<times> mongo_log \<Rightarrow> 'a result \<times> mongo_log" where
  "uncaught s = (case s of (Inl code, log) \<Rightarrow> (Inl MongoError, log) | (Inr x, log) \<Rightarrow> (Inr x, log))"

lemma mthen_simps [simp]:
  "mthen (Inl code, log) f = (Inl code, log)" "mthen (Inr x, log) f = f x log"
  by (simp_all add: mthen_def)

lemma uncaught_simps [simp]:
  "uncaught (Inl code, log) = (Inl MongoError, log)" "uncaught (Inr x, log) = (Inr x, log)"
  by (simp_all add: uncaught_def)

text \<open>\<^verbatim>\<open>mPool.acquire()\<close>, converted to \<^verbatim>\<open>bool\<close>.\<close>

definition acquire :: "mongo \<Rightarrow> mongo_log \<Rightarrow> bool \<times> mongo_log" where
  "acquire db log = (mg_reply db log ACQUIRE \<noteq> NoClient, log @ [ACQUIRE])"

section \<open>Transactions\<close>

text \<open>
  The documented behaviour of \<^verbatim>\<open>with_transaction\<close>: every attempt starts a transaction and calls
  the callback. If the callback throws, the transaction is aborted and the exception rethrown, or
  everything is tried again after a transient error; if it returns, the transaction is committed.
  A commit that fails is sent again, or everything is tried again, or the exception is thrown.
\<close>

inductive transaction_run ::
  "(mongo_log \<Rightarrow> mongo_command \<Rightarrow> mongo_reply) \<Rightarrow> transaction_cb \<Rightarrow>
   int \<times> mongo_log \<Rightarrow> (int + unit) \<times> int \<times> mongo_log \<Rightarrow> bool"
and commit_run ::
  "(mongo_log \<Rightarrow> mongo_command \<Rightarrow> mongo_reply) \<Rightarrow> transaction_cb \<Rightarrow>
   int \<times> mongo_log \<Rightarrow> (int + unit) \<times> int \<times> mongo_log \<Rightarrow> bool"
for reply cb
where
  callback_throws:
    "cb (v, log @ [START_TRANSACTION]) = (Inl code, v', log') \<Longrightarrow>
     transaction_run reply cb (v, log) (Inl code, v', log' @ [ABORT_TRANSACTION])"
| callback_again:
    "cb (v, log @ [START_TRANSACTION]) = (Inl code, v', log') \<Longrightarrow>
     transaction_run reply cb (v', log' @ [ABORT_TRANSACTION]) out \<Longrightarrow> transaction_run reply cb (v, log) out"
| callback_returns:
    "cb (v, log @ [START_TRANSACTION]) = (Inr (), v', log') \<Longrightarrow>
     commit_run reply cb (v', log') out \<Longrightarrow> transaction_run reply cb (v, log) out"
| commit_done:
    "reply log COMMIT_TRANSACTION = Done \<Longrightarrow>
     commit_run reply cb (v, log) (Inr (), v, log @ [COMMIT_TRANSACTION])"
| commit_throws:
    "reply log COMMIT_TRANSACTION = MongoException code \<Longrightarrow>
     commit_run reply cb (v, log) (Inl code, v, log @ [COMMIT_TRANSACTION])"
| commit_again:
    "reply log COMMIT_TRANSACTION = MongoException code \<Longrightarrow>
     commit_run reply cb (v, log @ [COMMIT_TRANSACTION]) out \<Longrightarrow> commit_run reply cb (v, log) out"
| transaction_again:
    "reply log COMMIT_TRANSACTION = MongoException code \<Longrightarrow>
     transaction_run reply cb (v, log @ [COMMIT_TRANSACTION]) out \<Longrightarrow> commit_run reply cb (v, log) out"

definition transactional :: "mongo \<Rightarrow> bool" where
  "transactional db =
     (\<forall>cb st. transaction_run (mg_reply db) cb st (mg_with_transaction db cb st))"

text \<open>
  The writes that take effect, for the documented meaning of sessions: one sent without a session
  at once, one of a transaction when its commit is confirmed, none that threw or found nothing.
\<close>

definition is_write :: "mongo_command \<Rightarrow> bool" where
  "is_write cmd =
     (case cmd of
        INSERT_ONE b c d \<Rightarrow> True | UPDATE_ONE b c f d \<Rightarrow> True | DELETE_ONE b c d \<Rightarrow> True
      | FIND_ONE_AND_UPDATE c f d \<Rightarrow> True | _ \<Rightarrow> False)"

definition in_session :: "mongo_command \<Rightarrow> bool" where
  "in_session cmd =
     (case cmd of INSERT_ONE b c d \<Rightarrow> b | UPDATE_ONE b c f d \<Rightarrow> b | DELETE_ONE b c d \<Rightarrow> b | _ \<Rightarrow> False)"

definition confirmed :: "mongo_reply \<Rightarrow> bool" where
  "confirmed r = (case r of MongoException code \<Rightarrow> False | NoClient \<Rightarrow> False | Found None \<Rightarrow> False | _ \<Rightarrow> True)"

record effects =
  ef_sent :: mongo_log
  ef_done :: mongo_log
  ef_open :: mongo_log

definition effect_step ::
  "(mongo_log \<Rightarrow> mongo_command \<Rightarrow> mongo_reply) \<Rightarrow> mongo_command \<Rightarrow> effects \<Rightarrow> effects"
where
  "effect_step reply cmd e =
     (let e' = e\<lparr>ef_sent := ef_sent e @ [cmd]\<rparr> in
      if cmd = START_TRANSACTION \<or> cmd = ABORT_TRANSACTION then e'\<lparr>ef_open := []\<rparr>
      else if cmd = COMMIT_TRANSACTION then
        (if reply (ef_sent e) cmd = Done then e'\<lparr>ef_done := ef_done e @ ef_open e, ef_open := []\<rparr> else e')
      else if \<not> confirmed (reply (ef_sent e) cmd) then e'
      else if in_session cmd then e'\<lparr>ef_open := ef_open e @ [cmd]\<rparr>
      else if is_write cmd then e'\<lparr>ef_done := ef_done e @ [cmd]\<rparr>
      else e')"

definition effects :: "(mongo_log \<Rightarrow> mongo_command \<Rightarrow> mongo_reply) \<Rightarrow> mongo_log \<Rightarrow> effects" where
  "effects reply log = fold (effect_step reply) log \<lparr>ef_sent = [], ef_done = [], ef_open = []\<rparr>"

abbreviation effective :: "(mongo_log \<Rightarrow> mongo_command \<Rightarrow> mongo_reply) \<Rightarrow> mongo_log \<Rightarrow> mongo_log" where
  "effective reply log \<equiv> ef_done (effects reply log)"

lemma effects_append [simp]:
  "effects reply (log @ cmds) = fold (effect_step reply) cmds (effects reply log)"
  by (simp add: effects_def)

lemma ef_sent_step [simp]: "ef_sent (effect_step reply cmd e) = ef_sent e @ [cmd]"
  by (simp add: effect_step_def Let_def)

lemma ef_sent_effects [simp]: "ef_sent (effects reply log) = log"
proof (induction log rule: rev_induct)
  case Nil
  then show ?case by (simp add: effects_def)
next
  case (snoc cmd log)
  then show ?case by (simp add: effect_step_def Let_def)
qed

lemma mcall_Inr: "mcall sel cmd db log = (Inr x, log') \<longleftrightarrow> sel (mg_reply db log cmd) = Some x \<and> log' = log @ [cmd]"
  by (auto simp: mcall_def split: option.splits)

lemma mcall_log [simp]: "snd (mcall sel cmd db log) = log @ [cmd]"
  by (simp add: mcall_def)

lemma counted_confirmed: "as_counted r = Some n \<Longrightarrow> confirmed r"
  by (cases r) (simp_all add: confirmed_def)

lemma effect_step_done: "\<exists>xs. ef_done (effect_step reply cmd e) = ef_done e @ xs"
  by (simp add: effect_step_def Let_def)

text \<open>What has taken effect stays.\<close>

lemma effective_grows: "\<exists>xs. effective reply (log @ later) = effective reply log @ xs"
proof (induction later rule: rev_induct)
  case Nil
  then show ?case by simp
next
  case (snoc cmd later)
  then obtain xs where "effective reply (log @ later) = effective reply log @ xs" by blast
  moreover obtain ys where "effective reply ((log @ later) @ [cmd]) = effective reply (log @ later) @ ys"
    using effect_step_done by (metis effects_append fold_simps)
  ultimately show ?case by (metis append.assoc)
qed

lemma effect_step_cases [simp]:
  "ef_done (effect_step reply START_TRANSACTION e) = ef_done e"
  "ef_open (effect_step reply START_TRANSACTION e) = []"
  "ef_done (effect_step reply ABORT_TRANSACTION e) = ef_done e"
  "ef_open (effect_step reply ABORT_TRANSACTION e) = []"
  "ef_done (effect_step reply ACQUIRE e) = ef_done e"
  "ef_done (effect_step reply START_SESSION e) = ef_done e"
  "ef_done (effect_step reply (FIND_ONE c f pr) e) = ef_done e"
  by (simp_all add: effect_step_def Let_def in_session_def is_write_def)

lemma effect_step_session:
  assumes "in_session cmd"
  shows "ef_done (effect_step reply cmd e) = ef_done e"
    "ef_open (effect_step reply cmd e) =
       (if confirmed (reply (ef_sent e) cmd) then ef_open e @ [cmd] else ef_open e)"
  using assms by (cases cmd; simp add: effect_step_def Let_def in_session_def)+

lemma effect_step_direct:
  assumes "is_write cmd" and "\<not> in_session cmd"
  shows "ef_done (effect_step reply cmd e) =
    (if confirmed (reply (ef_sent e) cmd) then ef_done e @ [cmd] else ef_done e)"
  using assms by (cases cmd; simp add: effect_step_def Let_def in_session_def is_write_def)

lemma effect_step_commit:
  "ef_done (effect_step reply COMMIT_TRANSACTION e) =
     (if reply (ef_sent e) COMMIT_TRANSACTION = Done then ef_done e @ ef_open e else ef_done e)"
  "reply (ef_sent e) COMMIT_TRANSACTION \<noteq> Done \<Longrightarrow>
     ef_open (effect_step reply COMMIT_TRANSACTION e) = ef_open e"
  by (simp_all add: effect_step_def Let_def)

text \<open>A callback whose writes are all sent in the session is all or nothing.\<close>

definition all_or_nothing ::
  "(mongo_log \<Rightarrow> mongo_command \<Rightarrow> mongo_reply) \<Rightarrow> transaction_cb \<Rightarrow> mongo_log \<Rightarrow> bool"
where
  "all_or_nothing reply cb writes =
     (\<forall>v log r v' log'. ef_open (effects reply log) = [] \<longrightarrow> cb (v, log) = (r, v', log') \<longrightarrow>
        effective reply log' = effective reply log \<and> (r = Inr () \<longrightarrow> ef_open (effects reply log') = writes))"

lemma all_or_nothing_start:
  assumes "all_or_nothing reply cb writes" and "cb (v, log @ [START_TRANSACTION]) = (r, v', log')"
  shows "effective reply log' = effective reply log" "r = Inr () \<Longrightarrow> ef_open (effects reply log') = writes"
proof -
  have "ef_open (effects reply (log @ [START_TRANSACTION])) = []" by simp
  with assms have "effective reply log' = effective reply (log @ [START_TRANSACTION]) \<and>
      (r = Inr () \<longrightarrow> ef_open (effects reply log') = writes)"
    unfolding all_or_nothing_def by blast
  then show "effective reply log' = effective reply log" "r = Inr () \<Longrightarrow> ef_open (effects reply log') = writes"
    by simp_all
qed

lemma transaction_atomic:
  assumes "all_or_nothing reply cb writes"
  shows "transaction_run reply cb st out \<Longrightarrow>
      effective reply (snd (snd out)) = effective reply (snd st) @ (if fst out = Inr () then writes else [])"
    and "commit_run reply cb st out \<Longrightarrow> ef_open (effects reply (snd st)) = writes \<Longrightarrow>
      effective reply (snd (snd out)) = effective reply (snd st) @ (if fst out = Inr () then writes else [])"
proof (induction rule: transaction_run_commit_run.inducts)
  case (callback_throws v log code v' log')
  then show ?case using all_or_nothing_start [OF assms, of v log] by simp
next
  case (callback_again v log code v' log' out)
  then show ?case using all_or_nothing_start [OF assms, of v log] by simp
next
  case (callback_returns v log v' log' out)
  then show ?case using all_or_nothing_start [OF assms, of v log] by simp
qed (simp_all add: effect_step_commit)

section \<open>A driver\<close>

text \<open>The simplest driver that keeps the contract: it never tries anything again.\<close>

definition simple_driver :: "(mongo_log \<Rightarrow> mongo_command \<Rightarrow> mongo_reply) \<Rightarrow> mongo" where
  "simple_driver reply =
     \<lparr>mg_reply = reply, mg_clock = (\<lambda>log. of_nat (length log)),
      mg_with_transaction = (\<lambda>cb (v, log).
        case cb (v, log @ [START_TRANSACTION]) of
          (Inl code, v', log') \<Rightarrow> (Inl code, v', log' @ [ABORT_TRANSACTION])
        | (Inr _, v', log') \<Rightarrow>
            (case reply log' COMMIT_TRANSACTION of
               Done \<Rightarrow> (Inr (), v', log' @ [COMMIT_TRANSACTION])
             | r \<Rightarrow> (Inl (exception_code r), v', log' @ [COMMIT_TRANSACTION])))\<rparr>"

lemma simple_driver_sel [simp]: "mg_reply (simple_driver reply) = reply"
  by (simp add: simple_driver_def)

lemma simple_driver_transactional:
  assumes "\<And>log. reply log COMMIT_TRANSACTION = Done \<or> (\<exists>code. reply log COMMIT_TRANSACTION = MongoException code)"
  shows "transactional (simple_driver reply)"
  unfolding transactional_def
proof (intro allI)
  fix cb :: transaction_cb and st :: "int \<times> mongo_log"
  obtain v log where st: "st = (v, log)" by (cases st)
  obtain r v' log' where cb: "cb (v, log @ [START_TRANSACTION]) = (r, v', log')" by (metis prod_cases3)
  show "transaction_run (mg_reply (simple_driver reply)) cb st (mg_with_transaction (simple_driver reply) cb st)"
  proof (cases r)
    case (Inl code)
    then show ?thesis using cb st by (simp add: simple_driver_def callback_throws)
  next
    case (Inr u)
    then have "transaction_run reply cb (v, log) out" if "commit_run reply cb (v', log') out" for out
      using cb that by (simp add: callback_returns)
    then show ?thesis
      using cb st Inr assms [of log'] by (auto simp: simple_driver_def commit_done commit_throws)
  qed
qed

end
