(* ===== verification/Db_Documents.thy ===== *)
theory Db_Documents
  imports Mongo_Client Game_Data Login_Messages Game_Messages
begin

text \<open>
  The schema of the database (\<^verbatim>\<open>DBServer/db/Schema.h\<close>), the documents the database server builds
  (\<^verbatim>\<open>MakeDocHelper\<close> of \<^verbatim>\<open>DBServer/db/Document.cpp\<close>) and how it reads them back into messages. The
  clock is an argument where the code reads it.
\<close>

section \<open>Schema\<close>

record schema_item =
  it_mID :: i32
  it_mCurrentStack :: i32
  it_mBound :: bool

record schema_equipment = schema_item +
  eq_mCurrentAbrasion :: i32

record schema_skill =
  sk_mID :: i32

record schema_character_base_info =
  sc_mName :: string
  sc_mLevel :: i32
  sc_mGender :: bool
  sc_mOccuption :: i32
  sc_mState :: i32

record schema_account =
  sa_mAccount :: string
  sa_mPassword :: string
  sa_mCharacters :: "schema_character_base_info list"
  sa_mLastLoginTime :: string
  sa_mLastLogoffTime :: string
  sa_mLastLoginAddress :: string

record schema_character_base_attribute =
  ba_mHealth :: i32
  ba_mStamina :: i32
  ba_mMana :: i32
  ba_mExperience :: i32

text \<open>The vectors of pointers as the objects they point to; no code uses them.\<close>

record schema_character =
  ch_mAccount :: string
  ch_mCharacterBaseInfo :: schema_character_base_info
  ch_mBaseAttribute :: schema_character_base_attribute
  ch_mEquipped :: "schema_equipment list"
  ch_mBackpack :: "schema_item list"
  ch_mInventory :: "schema_item list"

section \<open>MakeDocHelper\<close>

definition makeDocNewAccount :: "string \<Rightarrow> string \<Rightarrow> string \<Rightarrow> u64 \<Rightarrow> document" where
  "makeDocNewAccount accountName password address now =
     [(''account'', BString accountName),
      (''password'', BString password),
      (''characters'', BArray [BDocument
        [(''character_name'', BString accountName), (''character_level'', BInt32 0),
         (''character_gender'', BBool True), (''character_occuption'', BInt32 0),
         (''character_state'', BInt32 0)]]),
      (''last_login_time'', BDate now),
      (''last_logout_time'', BString []),
      (''last_login_address'', BString address),
      (''on_off'', BBool False)]"

definition makeDocAccountAndCharacter :: "string \<Rightarrow> string \<Rightarrow> document" where
  "makeDocAccountAndCharacter accountName characterName =
     [(''account'', BString accountName), (''characters.character_name'', BString characterName)]"

definition makeDocAccountInsertNewCharacter_schema :: "schema_character_base_info \<Rightarrow> document" where
  "makeDocAccountInsertNewCharacter_schema newCharacter =
     [(''$push'', BDocument [(''characters'', BDocument
        [(''character_name'', BString (sc_mName newCharacter)),
         (''character_level'', BInt32 (sc_mLevel newCharacter)),
         (''character_gender'', BBool (sc_mGender newCharacter)),
         (''character_occuption'', BInt32 (sc_mOccuption newCharacter)),
         (''character_state'', BInt32 (sc_mState newCharacter))])])]"

definition makeDocAccountInsertNewCharacter :: "'a login_character_request_message_scheme \<Rightarrow> document" where
  "makeDocAccountInsertNewCharacter newCharacter =
     [(''$push'', BDocument [(''characters'', BDocument
        [(''character_name'', BString (CHARACTER_NAME newCharacter)),
         (''character_level'', BInt32 1),
         (''character_gender'', BBool (CHARACTER_GENDER newCharacter)),
         (''character_occuption'', BInt32 (CHARACTER_OCCUPTION newCharacter)),
         (''character_state'', BInt32 (CHARACTER_STATE newCharacter))])])]"

definition makeDocAccountUpdateCharacter :: "'a character_base_info_scheme \<Rightarrow> document" where
  "makeDocAccountUpdateCharacter characterBaseInfo =
     [(''$set'', BDocument
        [(''characters.$.character_level'', BInt32 (CB_CHARACTER_LEVEL characterBaseInfo))])]"

definition makeDocAccountLogout :: "u64 \<Rightarrow> document" where
  "makeDocAccountLogout now =
     [(''$set'', BDocument [(''last_logout_time'', BDate now), (''on_off'', BBool False)])]"

definition makeDocAccountRemoveCharacter :: "string \<Rightarrow> document" where
  "makeDocAccountRemoveCharacter characterName =
     [(''$pull'', BDocument [(''characters'', BDocument [(''character_name'', BString characterName)])])]"

definition makeDocNewCharacter_schema :: "string \<Rightarrow> schema_character_base_info \<Rightarrow> document" where
  "makeDocNewCharacter_schema accountName newCharacter =
     [(''account'', BString accountName),
      (''base_info'', BDocument
        [(''name'', BString (sc_mName newCharacter)), (''level'', BInt32 (sc_mLevel newCharacter)),
         (''gender'', BBool (sc_mGender newCharacter)),
         (''occuption'', BInt32 (sc_mOccuption newCharacter)),
         (''state'', BInt32 (sc_mState newCharacter))])]"

definition makeDocNewCharacter :: "'a login_character_request_message_scheme \<Rightarrow> document" where
  "makeDocNewCharacter newCharacter =
     (let attributes = newerAttribute (CHARACTER_STATE newCharacter) (CHARACTER_OCCUPTION newCharacter) in
      case newerSpawnLocation (CHARACTER_STATE newCharacter) (CHARACTER_OCCUPTION newCharacter) of
        (sceneID, x, y, z) \<Rightarrow>
          [(''account'', BString (ACCOUNT newCharacter)),
           (''base_info'', BDocument
             [(''name'', BString (CHARACTER_NAME newCharacter)), (''level'', BInt32 1),
              (''gender'', BBool (CHARACTER_GENDER newCharacter)),
              (''occuption'', BInt32 (CHARACTER_OCCUPTION newCharacter)),
              (''state'', BInt32 (CHARACTER_STATE newCharacter))]),
           (''attribute'', BDocument
             (map (\<lambda>name. (name, BInt32 (attribute attributes name)))
               [FIELD_EXP, FIELD_HEALTH, FIELD_MANA, FIELD_ARMOR, FIELD_STAMINA, FIELD_STRENGTH,
                FIELD_AGILITY, FIELD_INTELLECT])),
           (''location'', BDocument
             [(FIELD_SCENE_ID, BInt32 sceneID), (FIELD_SCENE_X, BDouble x), (FIELD_SCENE_Y, BDouble y),
              (FIELD_SCENE_Z, BDouble z)])])"

definition makeDocUpdateCharacter :: "'a character_info_scheme \<Rightarrow> document" where
  "makeDocUpdateCharacter characterInfo =
     [(''$set'', BDocument
        [(''base_info.level'', BInt32 (CI_LEVEL characterInfo)),
         (''attribute.exp'', BInt32 (CI_EXP characterInfo)),
         (''attribute.health'', BInt32 (CI_HEALTH characterInfo)),
         (''attribute.mana'', BInt32 (CI_MANA characterInfo)),
         (''attribute.armor'', BInt32 (CI_ARMOR characterInfo)),
         (''attribute.stamina'', BInt32 (CI_STAMINA characterInfo)),
         (''attribute.strength'', BInt32 (CI_STRENGTH characterInfo)),
         (''attribute.agility'', BInt32 (CI_AGILITY characterInfo)),
         (''attribute.intellect'', BInt32 (CI_INTELLECT characterInfo)),
         (''location.scene_id'', BInt32 (CI_SCENE_ID characterInfo)),
         (''location.scene_x'', BDouble (CI_SCENE_X characterInfo)),
         (''location.scene_y'', BDouble (CI_SCENE_Y characterInfo)),
         (''location.scene_z'', BDouble (CI_SCENE_Z characterInfo))])]"

section \<open>Reading documents\<close>

text \<open>A default constructed message: no member has a value before it is assigned (\<open>garbage\<close>).\<close>

definition new_CharacterBaseInfo :: "i32 \<times> bool \<times> i32 \<times> i32 \<Rightarrow> character_base_info" where
  "new_CharacterBaseInfo garbage =
     (case garbage of (level, gender, occuption, state) \<Rightarrow>
        base_message.extend new_base
          \<lparr>CB_CHARACTER_NAME = [], CB_CHARACTER_LEVEL = level, CB_CHARACTER_GENDER = gender,
           CB_CHARACTER_OCCUPTION = occuption, CB_CHARACTER_STATE = state\<rparr>)"

text \<open>One entry of the array \<^verbatim>\<open>character member\<close>, read into the schema and into the message. The
  first never assigns the gender.\<close>

definition read_schema_base_info :: "bool \<Rightarrow> element \<Rightarrow> schema_character_base_info result" where
  "read_schema_base_info garbage character =
     rbind (get_string (subfield character ''character_name'')) (\<lambda>name.
     rbind (get_int32 (subfield character ''character_level'')) (\<lambda>level.
     rbind (get_int32 (subfield character ''character_occuption'')) (\<lambda>occuption.
     rbind (get_int32 (subfield character ''character_state'')) (\<lambda>state.
       Inr \<lparr>sc_mName = name, sc_mLevel = level, sc_mGender = garbage, sc_mOccuption = occuption,
            sc_mState = state\<rparr>))))"

definition read_base_info :: "string \<Rightarrow> element \<Rightarrow> character_base_info result" where
  "read_base_info name character =
     rbind (get_int32 (subfield character ''character_level'')) (\<lambda>level.
     rbind (get_bool (subfield character ''character_gender'')) (\<lambda>gender.
     rbind (get_int32 (subfield character ''character_occuption'')) (\<lambda>occuption.
     rbind (get_int32 (subfield character ''character_state'')) (\<lambda>state.
       Inr ((new_CharacterBaseInfo (level, gender, occuption, state))\<lparr>CB_CHARACTER_NAME := name\<rparr>)))))"

text \<open>The document of a character (\<^verbatim>\<open>CharacterOp\<close>), field by field in the order of the code.\<close>

definition read_character_info :: "string \<Rightarrow> string \<Rightarrow> document \<Rightarrow> character_info result" where
  "read_character_info accountName characterName d =
     (let base_info = field d FIELD_CHARACTER_BASE_INFO; attribute = field d FIELD_ATTRIBUTE;
          location = field d FIELD_LOCATION in
      rbind (get_int32 (subfield base_info FIELD_CHARACTER_LEVEL)) (\<lambda>level.
      rbind (get_bool (subfield base_info FIELD_CHARACTER_GENDER)) (\<lambda>gender.
      rbind (get_int32 (subfield base_info FIELD_CHARACTER_OCCUPTION)) (\<lambda>occuption.
      rbind (get_int32 (subfield base_info FIELD_CHARACTER_STATE)) (\<lambda>state.
      rbind (get_int32 (subfield attribute FIELD_EXP)) (\<lambda>exp.
      rbind (get_int32 (subfield attribute FIELD_HEALTH)) (\<lambda>health.
      rbind (get_int32 (subfield attribute FIELD_MANA)) (\<lambda>mana.
      rbind (get_int32 (subfield attribute FIELD_ARMOR)) (\<lambda>armor.
      rbind (get_int32 (subfield attribute FIELD_STAMINA)) (\<lambda>stamina.
      rbind (get_int32 (subfield attribute FIELD_STRENGTH)) (\<lambda>strength.
      rbind (get_int32 (subfield attribute FIELD_AGILITY)) (\<lambda>agility.
      rbind (get_int32 (subfield attribute FIELD_INTELLECT)) (\<lambda>intellect.
      rbind (get_int32 (subfield location FIELD_SCENE_ID)) (\<lambda>sceneID.
      rbind (get_double (subfield location FIELD_SCENE_X)) (\<lambda>x.
      rbind (get_double (subfield location FIELD_SCENE_Y)) (\<lambda>y.
      rbind (get_double (subfield location FIELD_SCENE_Z)) (\<lambda>z.
        Inr (base_message.extend new_base
          \<lparr>CI_ACCOUNT = accountName, CI_NAME = characterName, CI_LEVEL = level, CI_GENDER = gender,
           CI_OCCUPTION = occuption, CI_STATE = state, CI_EXP = exp, CI_HEALTH = health, CI_MANA = mana,
           CI_ARMOR = armor, CI_STAMINA = stamina, CI_STRENGTH = strength, CI_AGILITY = agility,
           CI_INTELLECT = intellect, CI_SCENE_ID = sceneID, CI_SCENE_X = x, CI_SCENE_Y = y,
           CI_SCENE_Z = z\<rparr>))))))))))))))))))"

section \<open>What is written is what is read\<close>

definition spawn_scene :: "i32 \<Rightarrow> i32" where
  "spawn_scene state = fst (newerSpawnLocation state 0)"

lemma newerSpawnLocation_scene:
  "\<exists>x y z. newerSpawnLocation s oc = (spawn_scene s, x, y, z)"
  by (simp add: spawn_scene_def newerSpawnLocation_def)

lemma read_new_character:
  fixes m :: login_character_request_message
  shows "\<exists>info. read_character_info (ACCOUNT m) (CHARACTER_NAME m) (makeDocNewCharacter m) = Inr info \<and>
    CI_ACCOUNT info = ACCOUNT m \<and> CI_NAME info = CHARACTER_NAME m \<and> CI_LEVEL info = 1 \<and>
    CI_GENDER info = CHARACTER_GENDER m \<and> CI_OCCUPTION info = CHARACTER_OCCUPTION m \<and>
    CI_STATE info = CHARACTER_STATE m \<and> CI_HEALTH info = 100 \<and> CI_MANA info = 50 \<and>
    CI_SCENE_ID info = spawn_scene (CHARACTER_STATE m) \<and> MSG_NAME info = MSG_NAME_NONE \<and> uncounted info"
proof -
  obtain x y z where "newerSpawnLocation (CHARACTER_STATE m) (CHARACTER_OCCUPTION m) =
      (spawn_scene (CHARACTER_STATE m), x, y, z)"
    using newerSpawnLocation_scene by blast
  then show ?thesis
    by (simp add: makeDocNewCharacter_def read_character_info_def base_message.defs new_base_def uncounted_def)
qed

end
