(* ===== verification/Database.thy ===== *)
theory Database
  imports Db_Documents
begin

text \<open>
  \<^verbatim>\<open>AccountOp\<close>, \<^verbatim>\<open>CharacterOp\<close> and \<^verbatim>\<open>Database\<close> of \<^verbatim>\<open>DBServer/db\<close>: every operation of the database
  server on MongoDB, with the exceptions each operation turns into its result code and the ones it
  lets through. The driver \<open>db\<close> is a parameter; an operation extends the list of commands sent.
\<close>

section \<open>Names and clients\<close>

record db_names =
  mDBName :: string
  mAccountCollectionName :: string
  mCharacterCollectionName :: string

definition accounts :: "db_names \<Rightarrow> collection" where
  "accounts op = (mDBName op, mAccountCollectionName op)"

definition characters :: "db_names \<Rightarrow> collection" where
  "characters op = (mDBName op, mCharacterCollectionName op)"

text \<open>The members are assigned before the assertions fail.\<close>

definition AccountOp_initDBCollName :: "string \<Rightarrow> string \<Rightarrow> string \<Rightarrow> db_names \<Rightarrow> db_names result" where
  "AccountOp_initDBCollName dbName accountCollName characterCollName op =
     (if dbName = [] \<or> accountCollName = [] \<or> characterCollName = [] then Inl AssertFailed
      else Inr \<lparr>mDBName = dbName, mAccountCollectionName = accountCollName,
                mCharacterCollectionName = characterCollName\<rparr>)"

definition CharacterOp_initDBCollName :: "string \<Rightarrow> string \<Rightarrow> string \<Rightarrow> db_names \<Rightarrow> db_names result" where
  "CharacterOp_initDBCollName = AccountOp_initDBCollName"

text \<open>\<^verbatim>\<open>auto client = mPool.acquire()\<close> and what follows, or \<open>none\<close> when there is no client.\<close>

definition with_pool_client :: "mongo \<Rightarrow> mongo_log \<Rightarrow> 'a result \<Rightarrow> (mongo_log \<Rightarrow> 'a result \<times> mongo_log) \<Rightarrow> 'a result \<times> mongo_log" where
  "with_pool_client db log none f =
     (case acquire db log of (found, log) \<Rightarrow> if found then f log else (none, log))"

text \<open>\<^verbatim>\<open>catch (const mongocxx::exception &)\<close>, with the exceptions of another type left as they are.\<close>

definition catching :: "(int \<Rightarrow> 'a) \<Rightarrow> (int + 'a result) \<times> mongo_log \<Rightarrow> 'a result \<times> mongo_log" where
  "catching handler s = (case s of (Inl code, log) \<Rightarrow> (Inr (handler code), log) | (Inr r, log) \<Rightarrow> (r, log))"

lemma catching_simps [simp]:
  "catching handler (Inl code, log) = (Inr (handler code), log)" "catching handler (Inr r, log) = (r, log)"
  by (simp_all add: catching_def)

text \<open>11000 is the code of a duplicate key.\<close>

definition duplicate_code :: "int \<Rightarrow> int" where
  "duplicate_code code = (if code = 11000 then 0 else -1)"

section \<open>AccountOp: writes\<close>

definition AccountOp_createIndex :: "mongo \<Rightarrow> db_names \<Rightarrow> mongo_log \<Rightarrow> bool result \<times> mongo_log" where
  "AccountOp_createIndex db op log =
     with_pool_client db log (Inl NullDereference) (\<lambda>log.
       catching (\<lambda>_. False)
         (mthen (mcall as_done (CREATE_INDEX (accounts op) [(''account'', BInt32 1)] True) db log) (\<lambda>_ log.
          mthen (mcall as_done (CREATE_INDEX (accounts op) [(''characters.character_name'', BInt32 1)] True) db log)
            (\<lambda>_ log. (Inr (Inr True), log)))))"

definition AccountOp_addNewAccount ::
  "mongo \<Rightarrow> db_names \<Rightarrow> string \<Rightarrow> string \<Rightarrow> string \<Rightarrow> mongo_log \<Rightarrow> int result \<times> mongo_log"
where
  "AccountOp_addNewAccount db op accountName password address log =
     with_pool_client db log (Inr (-1)) (\<lambda>log.
       catching duplicate_code
         (mthen (mcall as_counted
            (INSERT_ONE False (accounts op) (makeDocNewAccount accountName password address (mg_clock db log))) db log)
            (\<lambda>inserted log. (Inr (Inr inserted), log))))"

text \<open>The callback of both \<^verbatim>\<open>addNewCharacter\<close>, and what they do around it.\<close>

definition insert_cb :: "mongo \<Rightarrow> db_names \<Rightarrow> string \<Rightarrow> document \<Rightarrow> document \<Rightarrow> transaction_cb" where
  "insert_cb db op accountName update doc st =
     (case st of (v, log) \<Rightarrow>
        case mthen (mcall as_counted (UPDATE_ONE True (accounts op) [(''account'', BString accountName)] update) db log)
               (\<lambda>_ log. mthen (mcall as_counted (INSERT_ONE True (characters op) doc) db log) (\<lambda>_ log. (Inr (), log))) of
          (r, log) \<Rightarrow> (r, v, log))"

definition insert_character ::
  "mongo \<Rightarrow> db_names \<Rightarrow> string \<Rightarrow> string \<Rightarrow> document \<Rightarrow> document \<Rightarrow> mongo_log \<Rightarrow> int result \<times> mongo_log"
where
  "insert_character db op accountName characterName update doc log =
     and_then (uncaught (mcall as_found
         (FIND_ONE (accounts op) (makeDocAccountAndCharacter accountName characterName) None) db log)) (\<lambda>findResult log.
       if findResult \<noteq> None then (Inr 0, log)
       else and_then (uncaught (mcall as_done START_SESSION db log)) (\<lambda>_ log.
         case mg_with_transaction db (insert_cb db op accountName update doc) (0, log) of
           (Inr _, _, log) \<Rightarrow> (Inr 1, log)
         | (Inl code, _, log) \<Rightarrow> (Inr (duplicate_code code), log)))"

definition AccountOp_addNewCharacter_schema ::
  "mongo \<Rightarrow> db_names \<Rightarrow> string \<Rightarrow> schema_character_base_info \<Rightarrow> mongo_log \<Rightarrow> int result \<times> mongo_log"
where
  "AccountOp_addNewCharacter_schema db op accountName newCharacter log =
     with_pool_client db log (Inr (-1)) (\<lambda>log.
       if accountName = sc_mName newCharacter then (Inr (-1), log)
       else insert_character db op accountName (sc_mName newCharacter)
         (makeDocAccountInsertNewCharacter_schema newCharacter)
         (makeDocNewCharacter_schema accountName newCharacter) log)"

text \<open>The overload for the message uses the client unchecked and lets any name through.\<close>

definition AccountOp_addNewCharacter ::
  "mongo \<Rightarrow> db_names \<Rightarrow> 'a login_character_request_message_scheme \<Rightarrow> mongo_log \<Rightarrow> int result \<times> mongo_log"
where
  "AccountOp_addNewCharacter db op newCharacter log =
     with_pool_client db log (Inl NullDereference)
       (insert_character db op (ACCOUNT newCharacter) (CHARACTER_NAME newCharacter)
         (makeDocAccountInsertNewCharacter newCharacter) (makeDocNewCharacter newCharacter))"

text \<open>The commands of this callback are sent without the session.\<close>

definition remove_cb :: "mongo \<Rightarrow> db_names \<Rightarrow> string \<Rightarrow> string \<Rightarrow> transaction_cb" where
  "remove_cb db op accountName characterName st =
     (case st of (removeResultCode, log) \<Rightarrow>
        case mthen (mcall as_counted (UPDATE_ONE False (accounts op) [(''account'', BString accountName)]
                 (makeDocAccountRemoveCharacter characterName)) db log) (\<lambda>modified log.
               if modified = 1 then
                 mthen (mcall as_counted (DELETE_ONE False (characters op)
                   [(''account'', BString accountName), (''base_info.name'', BString characterName)]) db log)
                   (\<lambda>deleted log. (Inr deleted, log))
               else (Inr removeResultCode, log)) of
          (Inl code, log) \<Rightarrow> (Inl code, removeResultCode, log)
        | (Inr removeResultCode, log) \<Rightarrow> (Inr (), removeResultCode, log))"

definition AccountOp_removeCharacter ::
  "mongo \<Rightarrow> db_names \<Rightarrow> string \<Rightarrow> string \<Rightarrow> mongo_log \<Rightarrow> int result \<times> mongo_log"
where
  "AccountOp_removeCharacter db op accountName characterName log =
     with_pool_client db log (Inr (-1)) (\<lambda>log.
       if accountName = characterName then (Inr (-1), log)
       else and_then (uncaught (mcall as_done START_SESSION db log)) (\<lambda>_ log.
         case mg_with_transaction db (remove_cb db op accountName characterName) (0, log) of
           (Inr _, removeResultCode, log) \<Rightarrow> (Inr removeResultCode, log)
         | (Inl _, _, log) \<Rightarrow> (Inr (-1), log)))"

definition update_cb :: "mongo \<Rightarrow> db_names \<Rightarrow> 'a character_info_scheme \<Rightarrow> bool \<Rightarrow> transaction_cb" where
  "update_cb db op characterInfo isLast st =
     (case st of (v, log) \<Rightarrow>
        let account = (''account'', BString (CI_ACCOUNT characterInfo));
            baseInfo = (new_CharacterBaseInfo (CI_LEVEL characterInfo, CI_GENDER characterInfo,
              CI_OCCUPTION characterInfo, CI_STATE characterInfo))\<lparr>CB_CHARACTER_NAME := CI_NAME characterInfo\<rparr> in
        case mthen (if isLast
                 then mcall as_counted (UPDATE_ONE True (accounts op) [account] (makeDocAccountLogout (mg_clock db log))) db log
                 else (Inr 0, log)) (\<lambda>_ log.
             mthen (mcall as_counted (UPDATE_ONE True (accounts op)
                 [account, (''characters.character_name'', BString (CI_NAME characterInfo))]
                 (makeDocAccountUpdateCharacter baseInfo)) db log) (\<lambda>_ log.
             mthen (mcall as_counted (UPDATE_ONE True (characters op)
                 [account, (''base_info.name'', BString (CI_NAME characterInfo))]
                 (makeDocUpdateCharacter characterInfo)) db log) (\<lambda>_ log. (Inr (), log)))) of
          (r, log) \<Rightarrow> (r, v, log))"

definition AccountOp_updateCharacter ::
  "mongo \<Rightarrow> db_names \<Rightarrow> 'a character_info_scheme \<Rightarrow> bool \<Rightarrow> mongo_log \<Rightarrow> int result \<times> mongo_log"
where
  "AccountOp_updateCharacter db op characterInfo isLast log =
     with_pool_client db log (Inl NullDereference) (\<lambda>log.
       and_then (uncaught (mcall as_found (FIND_ONE (accounts op)
           (makeDocAccountAndCharacter (CI_ACCOUNT characterInfo) (CI_NAME characterInfo)) None) db log)) (\<lambda>findResult log.
         if findResult = None then (Inr 0, log)
         else and_then (uncaught (mcall as_done START_SESSION db log)) (\<lambda>_ log.
           case mg_with_transaction db (update_cb db op characterInfo isLast) (0, log) of
             (Inr _, _, log) \<Rightarrow> (Inr 1, log)
           | (Inl _, _, log) \<Rightarrow> (Inr (-1), log))))"

section \<open>AccountOp: reads\<close>

definition match_account :: "string \<Rightarrow> document" where
  "match_account accountName = [(''account'', BString accountName)]"

text \<open>\<^verbatim>\<open>value - 1\<close> on \<^verbatim>\<open>int32_t\<close>. A document without the field throws \<^verbatim>\<open>bsoncxx::exception\<close>, which no
  handler of \<^verbatim>\<open>mongocxx::exception\<close> catches.\<close>

definition AccountOp_getCharacterNum :: "mongo \<Rightarrow> db_names \<Rightarrow> string \<Rightarrow> mongo_log \<Rightarrow> int result \<times> mongo_log" where
  "AccountOp_getCharacterNum db op accountName log =
     with_pool_client db log (Inr (-1)) (\<lambda>log.
       catching (\<lambda>_. -1)
         (mthen (mcall as_cursor (AGGREGATE (accounts op) (match_account accountName)
            [(''character num'', BDocument [(''$size'', BString ''$characters'')])]) db log) (\<lambda>result log.
          (Inr (case result of
                  [] \<Rightarrow> Inr 0
                | d # _ \<Rightarrow> rbind (get_int32 (field d ''character num'')) (\<lambda>n. Inr (sint (n - 1)))), log))))"

text \<open>The three readers of all characters leave out the first, which is the placeholder.\<close>

definition slice_characters :: document where
  "slice_characters =
     [(''character member'', BDocument [(''$slice'', BArray [BString ''$characters'', BInt32 1, BInt32 100])])]"

fun read_all :: "(element \<Rightarrow> 'a result) \<Rightarrow> bson list \<Rightarrow> 'a list result" where
  "read_all rd [] = Inr []"
| "read_all rd (x # xs) = rbind (rd (Some x)) (\<lambda>v. rbind (read_all rd xs) (\<lambda>vs. Inr (v # vs)))"

definition all_characters ::
  "(element \<Rightarrow> 'a result) \<Rightarrow> mongo \<Rightarrow> db_names \<Rightarrow> string \<Rightarrow> mongo_log \<Rightarrow> 'a list option result \<times> mongo_log"
where
  "all_characters rd db op accountName log =
     with_pool_client db log (Inr None) (\<lambda>log.
       catching (\<lambda>_. None)
         (mthen (mcall as_cursor (AGGREGATE (accounts op) (match_account accountName) slice_characters) db log)
            (\<lambda>result log.
              (Inr (case result of
                      [] \<Rightarrow> Inr (Some [])
                    | d # _ \<Rightarrow> rbind (get_array (field d ''character member'')) (\<lambda>characterArray.
                        rbind (read_all rd characterArray) (\<lambda>res. Inr (Some res)))), log))))"

definition AccountOp_getAllCharacterName ::
  "mongo \<Rightarrow> db_names \<Rightarrow> string \<Rightarrow> mongo_log \<Rightarrow> string list option result \<times> mongo_log"
where
  "AccountOp_getAllCharacterName =
     all_characters (\<lambda>character. get_string (subfield character ''character_name''))"

definition AccountOp_getAllCharacterBaseInfo ::
  "bool \<Rightarrow> mongo \<Rightarrow> db_names \<Rightarrow> string \<Rightarrow> mongo_log \<Rightarrow> schema_character_base_info list option result \<times> mongo_log"
where
  "AccountOp_getAllCharacterBaseInfo garbage = all_characters (read_schema_base_info garbage)"

definition AccountOp_getAllCharacterBaseInfoFill2Message ::
  "mongo \<Rightarrow> db_names \<Rightarrow> string \<Rightarrow> mongo_log \<Rightarrow> character_base_info list option result \<times> mongo_log"
where
  "AccountOp_getAllCharacterBaseInfoFill2Message =
     all_characters (\<lambda>character.
       rbind (get_string (subfield character ''character_name'')) (\<lambda>name. read_base_info name character))"

text \<open>\<^verbatim>\<open>catch (const std::exception &)\<close>: everything that is thrown becomes \<^verbatim>\<open>nullopt\<close>.\<close>

definition catch_all :: "'a option result \<Rightarrow> 'a option result" where
  "catch_all r = (case r of Inl e \<Rightarrow> Inr None | Inr x \<Rightarrow> Inr x)"

definition AccountOp_getOneCharacterBaseInfoFill2Message ::
  "mongo \<Rightarrow> db_names \<Rightarrow> string \<Rightarrow> string \<Rightarrow> mongo_log \<Rightarrow> character_base_info option result \<times> mongo_log"
where
  "AccountOp_getOneCharacterBaseInfoFill2Message db op accountName characterName log =
     with_pool_client db log (Inr None) (\<lambda>log.
       catching (\<lambda>_. None)
         (mthen (mcall as_found (FIND_ONE (accounts op) (match_account accountName)
            (Some [(''characters'', BDocument [(''$elemMatch'', BDocument
              [(''character_name'', BString characterName)])])])) db log) (\<lambda>findResult log.
          (Inr (case findResult of
                  None \<Rightarrow> Inr None
                | Some d \<Rightarrow> catch_all (rbind (get_array (field d ''characters'')) (\<lambda>array.
                    rbind (read_base_info characterName (case array of [] \<Rightarrow> None | x # _ \<Rightarrow> Some x))
                      (\<lambda>baseInfo. Inr (Some baseInfo))))), log))))"

definition found_code ::
  "mongo \<Rightarrow> db_names \<Rightarrow> document \<Rightarrow> mongo_log \<Rightarrow> int result \<times> mongo_log"
where
  "found_code db op query log =
     with_pool_client db log (Inr (-1)) (\<lambda>log.
       catching (\<lambda>_. -1)
         (mthen (mcall as_found (FIND_ONE (accounts op) query None) db log) (\<lambda>findResult log.
            (Inr (Inr (if findResult \<noteq> None then 1 else 0)), log))))"

definition AccountOp_matchAccount :: "mongo \<Rightarrow> db_names \<Rightarrow> string \<Rightarrow> string \<Rightarrow> mongo_log \<Rightarrow> int result \<times> mongo_log" where
  "AccountOp_matchAccount db op accountName password =
     found_code db op [(''account'', BString accountName), (''password'', BString password)]"

definition AccountOp_matchAccountAndCharacter ::
  "mongo \<Rightarrow> db_names \<Rightarrow> string \<Rightarrow> string \<Rightarrow> mongo_log \<Rightarrow> int result \<times> mongo_log"
where
  "AccountOp_matchAccountAndCharacter db op accountName characterName =
     found_code db op [(''account'', BString accountName), (''characters.character_name'', BString characterName)]"

text \<open>The update has two fields of the name \<^verbatim>\<open>$set\<close>. The driver returns the document as it was.\<close>

definition login_update :: "bool \<Rightarrow> u64 \<Rightarrow> document" where
  "login_update tryLogin now =
     [(''$set'', BDocument [(''on_off'', BBool tryLogin)]),
      (''$set'', BDocument [(''last_login_time'', BDate now)])]"

definition AccountOp_matchAccountAndUpdateLoginState ::
  "mongo \<Rightarrow> db_names \<Rightarrow> string \<Rightarrow> string \<Rightarrow> bool \<Rightarrow> mongo_log \<Rightarrow> int result \<times> mongo_log"
where
  "AccountOp_matchAccountAndUpdateLoginState db op accountName password tryLogin log =
     with_pool_client db log (Inr (-1)) (\<lambda>log.
       catching (\<lambda>_. -1)
         (mthen (mcall as_found (FIND_ONE_AND_UPDATE (accounts op)
             [(''account'', BString accountName), (''password'', BString password)]
             (login_update tryLogin (mg_clock db log))) db log) (\<lambda>findResult log.
           (Inr (case findResult of
                   None \<Rightarrow> Inr 0
                 | Some d \<Rightarrow> rbind (get_bool (field d ''on_off'')) (\<lambda>oldState.
                     Inr (if oldState then 2 else 1))), log))))"

section \<open>CharacterOp\<close>

definition CharacterOp_createIndex :: "mongo \<Rightarrow> db_names \<Rightarrow> mongo_log \<Rightarrow> bool result \<times> mongo_log" where
  "CharacterOp_createIndex db op log =
     with_pool_client db log (Inl NullDereference) (\<lambda>log.
       catching (\<lambda>_. False)
         (mthen (mcall as_done (CREATE_INDEX (characters op)
            [(''account'', BInt32 1), (''base_info.name'', BInt32 1)] False) db log) (\<lambda>_ log. (Inr (Inr True), log))))"

definition CharacterOp_getOneCharacterInfoFill2Message ::
  "mongo \<Rightarrow> db_names \<Rightarrow> string \<Rightarrow> string \<Rightarrow> mongo_log \<Rightarrow> character_info option result \<times> mongo_log"
where
  "CharacterOp_getOneCharacterInfoFill2Message db op accountName characterName log =
     with_pool_client db log (Inr None) (\<lambda>log.
       catching (\<lambda>_. None)
         (mthen (mcall as_found (FIND_ONE (characters op)
            [(''account'', BString accountName), (''base_info.name'', BString characterName)] None) db log)
            (\<lambda>findResult log.
              (Inr (case findResult of
                      None \<Rightarrow> Inr None
                    | Some d \<Rightarrow> catch_all (rbind (read_character_info accountName characterName d)
                        (\<lambda>characterInfo. Inr (Some characterInfo)))), log))))"

definition CharacterOp_getOneCharacterInfoFill2Data ::
  "mongo \<Rightarrow> db_names \<Rightarrow> string \<Rightarrow> string \<Rightarrow> mongo_log \<Rightarrow> string result \<times> mongo_log"
where
  "CharacterOp_getOneCharacterInfoFill2Data db op accountName characterName log =
     and_then (CharacterOp_getOneCharacterInfoFill2Message db op accountName characterName log) (\<lambda>data log.
       case data of
         None \<Rightarrow> (Inr [], log)
       | Some info \<Rightarrow>
           (rbind (CharacterInfo_serialize (CharacterInfo_count info)) (\<lambda>(bytes, _). Inr bytes), log))"

section \<open>Database\<close>

text \<open>\<^verbatim>\<open>Database\<close> keeps the names itself and in its two operators.\<close>

record database =
  db_own :: db_names
  db_mAccountOp :: db_names
  db_mCharacterOp :: db_names

definition Database_initDBCollName :: "string \<Rightarrow> string \<Rightarrow> string \<Rightarrow> database \<Rightarrow> database result" where
  "Database_initDBCollName dbName accountCollName characterCollName d =
     (let own = \<lparr>mDBName = dbName, mAccountCollectionName = accountCollName,
                 mCharacterCollectionName = characterCollName\<rparr> in
      rbind (AccountOp_initDBCollName dbName accountCollName characterCollName (db_mAccountOp d)) (\<lambda>a.
      rbind (CharacterOp_initDBCollName dbName accountCollName characterCollName (db_mCharacterOp d)) (\<lambda>c.
        Inr \<lparr>db_own = own, db_mAccountOp = a, db_mCharacterOp = c\<rparr>)))"

definition Database_check :: "mongo \<Rightarrow> database \<Rightarrow> mongo_log \<Rightarrow> unit result \<times> mongo_log" where
  "Database_check db d log =
     (if mDBName (db_own d) = [] \<or> mAccountCollectionName (db_own d) = [] \<or> mCharacterCollectionName (db_own d) = []
      then (Inl AssertFailed, log)
      else case acquire db log of (found, log) \<Rightarrow> (if found then Inr () else Inl AssertFailed, log))"

definition Database_createIndex :: "mongo \<Rightarrow> database \<Rightarrow> mongo_log \<Rightarrow> bool result \<times> mongo_log" where
  "Database_createIndex db d log =
     and_then (AccountOp_createIndex db (db_mAccountOp d) log) (\<lambda>created log.
       if created then CharacterOp_createIndex db (db_mCharacterOp d) log else (Inr False, log))"

definition Database_addNewAccount where
  "Database_addNewAccount db d = AccountOp_addNewAccount db (db_mAccountOp d)"
definition Database_addNewCharacter_schema where
  "Database_addNewCharacter_schema db d = AccountOp_addNewCharacter_schema db (db_mAccountOp d)"
definition Database_addNewCharacter where
  "Database_addNewCharacter db d = AccountOp_addNewCharacter db (db_mAccountOp d)"
definition Database_removeCharacter where
  "Database_removeCharacter db d = AccountOp_removeCharacter db (db_mAccountOp d)"

text \<open>\<^verbatim>\<open>Database::updateCharacter\<close> has no \<^verbatim>\<open>return\<close>: it gives no value, and no caller uses one.\<close>

definition Database_updateCharacter ::
  "mongo \<Rightarrow> database \<Rightarrow> 'a character_info_scheme \<Rightarrow> bool \<Rightarrow> mongo_log \<Rightarrow> unit result \<times> mongo_log"
where
  "Database_updateCharacter db d characterInfo isLast log =
     and_then (AccountOp_updateCharacter db (db_mAccountOp d) characterInfo isLast log) (\<lambda>_ log. (Inr (), log))"

definition Database_getCharacterNum where
  "Database_getCharacterNum db d = AccountOp_getCharacterNum db (db_mAccountOp d)"
definition Database_getAllCharacterName where
  "Database_getAllCharacterName db d = AccountOp_getAllCharacterName db (db_mAccountOp d)"
definition Database_getAllCharacterBaseInfo where
  "Database_getAllCharacterBaseInfo garbage db d = AccountOp_getAllCharacterBaseInfo garbage db (db_mAccountOp d)"
definition Database_getAllCharacterBaseInfoFill2Message where
  "Database_getAllCharacterBaseInfoFill2Message db d =
     AccountOp_getAllCharacterBaseInfoFill2Message db (db_mAccountOp d)"
definition Database_getOneCharacterBaseInfoFill2Message where
  "Database_getOneCharacterBaseInfoFill2Message db d =
     AccountOp_getOneCharacterBaseInfoFill2Message db (db_mAccountOp d)"
definition Database_getOneCharacterInfoFill2Message where
  "Database_getOneCharacterInfoFill2Message db d =
     CharacterOp_getOneCharacterInfoFill2Message db (db_mCharacterOp d)"
definition Database_getOneCharacterInfoFill2Data where
  "Database_getOneCharacterInfoFill2Data db d = CharacterOp_getOneCharacterInfoFill2Data db (db_mCharacterOp d)"
definition Database_matchAccount where
  "Database_matchAccount db d = AccountOp_matchAccount db (db_mAccountOp d)"
definition Database_matchAccountAndUpdateLoginState where
  "Database_matchAccountAndUpdateLoginState db d = AccountOp_matchAccountAndUpdateLoginState db (db_mAccountOp d)"
definition Database_matchAccountAndCharacter where
  "Database_matchAccountAndCharacter db d = AccountOp_matchAccountAndCharacter db (db_mAccountOp d)"

lemmas database_defs = Database_addNewAccount_def Database_addNewCharacter_schema_def
  Database_addNewCharacter_def Database_removeCharacter_def Database_getCharacterNum_def
  Database_getAllCharacterName_def Database_getAllCharacterBaseInfo_def
  Database_getAllCharacterBaseInfoFill2Message_def Database_getOneCharacterBaseInfoFill2Message_def
  Database_getOneCharacterInfoFill2Message_def Database_getOneCharacterInfoFill2Data_def
  Database_matchAccount_def Database_matchAccountAndUpdateLoginState_def
  Database_matchAccountAndCharacter_def

section \<open>New characters\<close>

abbreviation push_character :: "db_names \<Rightarrow> login_character_request_message \<Rightarrow> mongo_command" where
  "push_character op m \<equiv>
     UPDATE_ONE True (accounts op) [(''account'', BString (ACCOUNT m))] (makeDocAccountInsertNewCharacter m)"

abbreviation insert_new_character :: "db_names \<Rightarrow> login_character_request_message \<Rightarrow> mongo_command" where
  "insert_new_character op m \<equiv> INSERT_ONE True (characters op) (makeDocNewCharacter m)"

lemma insert_cb_all_or_nothing:
  "all_or_nothing (mg_reply db) (insert_cb db op accountName update doc)
     [UPDATE_ONE True (accounts op) [(''account'', BString accountName)] update,
      INSERT_ONE True (characters op) doc]"
  by (auto simp: all_or_nothing_def insert_cb_def mcall_def effect_step_session in_session_def
      counted_confirmed split: option.splits)

lemma insert_character_effective:
  assumes "transactional db" and "insert_character db op accountName characterName update doc log = (Inr r, log')"
  shows "effective (mg_reply db) log' = effective (mg_reply db) log @
    (if r = 1 then [UPDATE_ONE True (accounts op) [(''account'', BString accountName)] update,
                    INSERT_ONE True (characters op) doc] else [])"
proof -
  obtain found where find: "mcall as_found (FIND_ONE (accounts op) (makeDocAccountAndCharacter accountName characterName) None) db log =
      (Inr found, log @ [FIND_ONE (accounts op) (makeDocAccountAndCharacter accountName characterName) None])"
    using assms(2) by (auto simp: insert_character_def mcall_def split: option.splits)
  let ?log = "log @ [FIND_ONE (accounts op) (makeDocAccountAndCharacter accountName characterName) None]"
  show ?thesis
  proof (cases found)
    case (Some d)
    then show ?thesis using assms(2) find by (auto simp: insert_character_def)
  next
    case None
    let ?st = "(0, ?log @ [START_SESSION])"
    obtain t v log1 where t: "mg_with_transaction db (insert_cb db op accountName update doc) ?st = (t, v, log1)"
      by (metis prod_cases3)
    then have "transaction_run (mg_reply db) (insert_cb db op accountName update doc) ?st (t, v, log1)"
      using assms(1) by (metis transactional_def)
    from transaction_atomic(1) [OF insert_cb_all_or_nothing this]
    have "effective (mg_reply db) log1 = effective (mg_reply db) log @
        (if t = Inr () then [UPDATE_ONE True (accounts op) [(''account'', BString accountName)] update,
                    INSERT_ONE True (characters op) doc] else [])"
      by simp
    moreover have "log1 = log'" "r = 1 \<longleftrightarrow> t = Inr ()"
      using assms(2) find None t
      by (auto simp: insert_character_def mcall_def duplicate_code_def and_then_def
          split: option.splits sum.splits if_splits)
    ultimately show ?thesis by simp
  qed
qed

lemma with_pool_client_Inr:
  "with_pool_client db log none f = (Inr r, log') \<Longrightarrow>
   f (log @ [ACQUIRE]) = (Inr r, log') \<or> none = Inr r \<and> log' = log @ [ACQUIRE]"
  by (auto simp: with_pool_client_def acquire_def split: if_splits)


definition demo_character :: login_character_request_message where
  "demo_character = login_request_message.extend
     (timestamp_message.extend (new_TimestampMessage 0) \<lparr>REQUEST_CODE = 50, ACCOUNT = ''ann'', PASSWORD = ''pw''\<rparr>)
     \<lparr>CHARACTER_NAME = ''bob'', CHARACTER_GENDER = True, CHARACTER_OCCUPTION = 100111, CHARACTER_STATE = 100014\<rparr>"

definition demo_names :: db_names where
  "demo_names = \<lparr>mDBName = ''warring'', mAccountCollectionName = ''accounts'', mCharacterCollectionName = ''characters''\<rparr>"

text \<open>A server that finds nothing and accepts every write, except deletions when \<open>broken\<close>.\<close>

definition demo_mongo :: "bool \<Rightarrow> mongo_log \<Rightarrow> mongo_command \<Rightarrow> mongo_reply" where
  "demo_mongo broken log cmd =
     (case cmd of
        FIND_ONE c f p \<Rightarrow> Found None
      | INSERT_ONE b c d \<Rightarrow> Counted 1
      | UPDATE_ONE b c f d \<Rightarrow> Counted 1
      | DELETE_ONE b c f \<Rightarrow> if broken then MongoException 6 else Counted 1
      | _ \<Rightarrow> Done)"

lemma demo_transactional: "transactional (simple_driver (demo_mongo broken))"
  by (rule simple_driver_transactional) (simp add: demo_mongo_def)

lemma demo_add:
  "\<exists>log'. AccountOp_addNewCharacter (simple_driver (demo_mongo b)) op m [] = (Inr 1, log')"
  by (simp add: AccountOp_addNewCharacter_def with_pool_client_def acquire_def demo_mongo_def insert_character_def
      mcall_def simple_driver_def insert_cb_def)


section \<open>Removing a character\<close>

definition extending :: "transaction_cb \<Rightarrow> bool" where
  "extending cb = (\<forall>st. \<exists>xs. snd (snd (cb st)) = snd st @ xs)"

lemma extendingD: "extending cb \<Longrightarrow> cb (v, log) = (r, v', log') \<Longrightarrow> \<exists>xs. log' = log @ xs"
  unfolding extending_def by (metis snd_conv)

lemma transaction_extends:
  assumes "extending cb"
  shows "transaction_run reply cb st out \<Longrightarrow> \<exists>xs. snd (snd out) = snd st @ xs"
    and "commit_run reply cb st out \<Longrightarrow> \<exists>xs. snd (snd out) = snd st @ xs"
proof (induction rule: transaction_run_commit_run.inducts)
  case (callback_throws v log code v' log')
  then show ?case using extendingD [OF assms] by fastforce
next
  case (callback_again v log code v' log' out)
  then show ?case using extendingD [OF assms callback_again(1)] by auto
next
  case (callback_returns v log v' log' out)
  then show ?case using extendingD [OF assms callback_returns(1)] by auto
qed auto

lemma transaction_first:
  assumes "extending cb" and "transaction_run reply cb (v, log) out"
    and "cb (v, log @ [START_TRANSACTION]) = (r, v', log')"
  shows "\<exists>xs. snd (snd out) = log' @ xs"
  using assms(2)
proof cases
  case (callback_again code v1 log1)
  then show ?thesis using transaction_extends(1) [OF assms(1) callback_again(2)] assms(3) by auto
next
  case (callback_returns v1 log1)
  then show ?thesis using transaction_extends(2) [OF assms(1) callback_returns(2)] assms(3) by auto
qed (use assms(3) in auto)

lemma remove_cb_extends: "extending (remove_cb db op a n)"
  by (auto simp: extending_def remove_cb_def mthen_def mcall_def split: option.splits sum.splits if_splits prod.splits)

abbreviation pull_character :: "db_names \<Rightarrow> string \<Rightarrow> string \<Rightarrow> mongo_command" where
  "pull_character op accountName characterName \<equiv>
     UPDATE_ONE False (accounts op) [(''account'', BString accountName)] (makeDocAccountRemoveCharacter characterName)"

abbreviation delete_character :: "db_names \<Rightarrow> string \<Rightarrow> string \<Rightarrow> mongo_command" where
  "delete_character op accountName characterName \<equiv>
     DELETE_ONE False (characters op) [(''account'', BString accountName), (''base_info.name'', BString characterName)]"

text \<open>
  Removing a character is not: its writes are sent without the session of the transaction.
  When deleting the character document throws, the account has lost the character for good, and
  no driver that keeps the contract of \<^verbatim>\<open>with_transaction\<close> can take that back.
\<close>

theorem remove_character_not_atomic:
  assumes "transactional db" and "accountName \<noteq> characterName"
    and "mg_reply db log ACQUIRE \<noteq> NoClient" and "mg_reply db (log @ [ACQUIRE]) START_SESSION = Done"
    and "log0 = log @ [ACQUIRE, START_SESSION, START_TRANSACTION]"
    and "mg_reply db log0 (pull_character op accountName characterName) = Counted 1"
    and "mg_reply db (log0 @ [pull_character op accountName characterName])
      (delete_character op accountName characterName) = MongoException code"
  shows "\<exists>r log' xs. AccountOp_removeCharacter db op accountName characterName log = (Inr r, log') \<and>
    effective (mg_reply db) log' =
      effective (mg_reply db) log @ pull_character op accountName characterName # xs"
proof -
  let ?st = "(0, log @ [ACQUIRE, START_SESSION])" and ?cb = "remove_cb db op accountName characterName"
  let ?log1 = "log0 @ [pull_character op accountName characterName, delete_character op accountName characterName]"
  obtain t v log' where t: "mg_with_transaction db ?cb ?st = (t, v, log')" by (metis prod_cases3)
  have cb: "?cb (0, (log @ [ACQUIRE, START_SESSION]) @ [START_TRANSACTION]) = (Inl code, 0, ?log1)"
    using assms(5-7) by (simp add: remove_cb_def mcall_def)
  have "transaction_run (mg_reply db) ?cb ?st (t, v, log')"
    using assms(1) t by (metis transactional_def)
  from transaction_first [OF remove_cb_extends this cb] obtain ys where "log' = ?log1 @ ys" by auto
  then obtain xs where "effective (mg_reply db) log' = effective (mg_reply db) ?log1 @ xs"
    using effective_grows by blast
  moreover have "effective (mg_reply db) ?log1 =
      effective (mg_reply db) log @ [pull_character op accountName characterName]"
    using assms(5-7) by (simp add: effect_step_direct is_write_def in_session_def confirmed_def)
  moreover have "\<exists>r. AccountOp_removeCharacter db op accountName characterName log = (Inr r, log')"
    using assms(2-4) t
    by (auto simp: AccountOp_removeCharacter_def with_pool_client_def acquire_def mcall_def split: sum.splits)
  ultimately show ?thesis by auto
qed

theorem remove_character_not_atomic_witness:
  "\<exists>r log' xs. AccountOp_removeCharacter (simple_driver (demo_mongo True)) demo_names ''ann'' ''bob'' [] = (Inr r, log') \<and>
     effective (demo_mongo True) log' = pull_character demo_names ''ann'' ''bob'' # xs"
  using remove_character_not_atomic [OF demo_transactional, of "''ann''" "''bob''" True "[]" _ demo_names 6, OF _ _ _ refl]
  by (simp add: demo_mongo_def effects_def)

section \<open>One login at a time\<close>

text \<open>What the writes that took effect make of the field \<^verbatim>\<open>on_off\<close> of an account, and the documented
  behaviour the code relies on: \<^verbatim>\<open>find_one_and_update\<close> returns the document as it was before.\<close>

definition set_values :: "document \<Rightarrow> bool list" where
  "set_values u =
     concat (map (\<lambda>(op, v).
       case v of
         BDocument d \<Rightarrow> if op = ''$set'' then (case field d ''on_off'' of Some (BBool b) \<Rightarrow> [b] | _ \<Rightarrow> []) else []
       | _ \<Rightarrow> []) u)"

definition on_off_step :: "db_names \<Rightarrow> string \<Rightarrow> mongo_command \<Rightarrow> bool \<Rightarrow> bool" where
  "on_off_step op accountName cmd on =
     (case cmd of
        FIND_ONE_AND_UPDATE c f u \<Rightarrow>
          if c = accounts op \<and> field f ''account'' = Some (BString accountName)
          then last (on # set_values u) else on
      | UPDATE_ONE s c f u \<Rightarrow>
          if c = accounts op \<and> field f ''account'' = Some (BString accountName)
          then last (on # set_values u) else on
      | INSERT_ONE s c d \<Rightarrow>
          if c = accounts op \<and> field d ''account'' = Some (BString accountName)
          then field d ''on_off'' = Some (BBool True) else on
      | _ \<Rightarrow> on)"

definition account_on ::
  "(mongo_log \<Rightarrow> mongo_command \<Rightarrow> mongo_reply) \<Rightarrow> db_names \<Rightarrow> string \<Rightarrow> mongo_log \<Rightarrow> bool"
where
  "account_on reply op accountName log = fold (on_off_step op accountName) (effective reply log) False"

definition returns_old_state :: "(mongo_log \<Rightarrow> mongo_command \<Rightarrow> mongo_reply) \<Rightarrow> db_names \<Rightarrow> bool" where
  "returns_old_state reply op =
     (\<forall>log accountName password u d.
        reply log (FIND_ONE_AND_UPDATE (accounts op)
          [(''account'', BString accountName), (''password'', BString password)] u) = Found (Some d) \<longrightarrow>
        field d ''on_off'' = Some (BBool (account_on reply op accountName log)))"

abbreviation try_login :: "db_names \<Rightarrow> string \<Rightarrow> string \<Rightarrow> bool \<Rightarrow> u64 \<Rightarrow> mongo_command" where
  "try_login op accountName password tryLogin now \<equiv>
     FIND_ONE_AND_UPDATE (accounts op)
       [(''account'', BString accountName), (''password'', BString password)] (login_update tryLogin now)"

lemma login_update_sets [simp]: "set_values (login_update tryLogin now) = [tryLogin]"
  by (simp add: set_values_def login_update_def)

lemma logout_sets [simp]: "set_values (makeDocAccountLogout now) = [False]"
  by (simp add: set_values_def makeDocAccountLogout_def)

lemma fold_on_off_keeps:
  "\<forall>cmd\<in>set cmds. on_off_step op a cmd True \<Longrightarrow> fold (on_off_step op a) cmds True"
  by (induction cmds) auto

text \<open>A result of 1 or 2 means that the update found the account, and tells its old state.\<close>

lemma login_result:
  assumes "AccountOp_matchAccountAndUpdateLoginState db op accountName password tryLogin log = (Inr r, log')"
    and "r = 1 \<or> r = 2" and "returns_old_state (mg_reply db) op"
  shows "\<exists>now. log' = log @ [ACQUIRE, try_login op accountName password tryLogin now]"
    and "effective (mg_reply db) log' = effective (mg_reply db) log @
      [try_login op accountName password tryLogin (mg_clock db (log @ [ACQUIRE]))]"
    and "r = (if account_on (mg_reply db) op accountName log then 2 else 1)"
proof -
  let ?now = "mg_clock db (log @ [ACQUIRE])"
  let ?cmd = "try_login op accountName password tryLogin ?now"
  obtain d where d: "mg_reply db (log @ [ACQUIRE]) ?cmd = Found (Some d)"
    and log': "log' = log @ [ACQUIRE, ?cmd]"
    and r: "rbind (get_bool (field d ''on_off'')) (\<lambda>oldState. Inr (if oldState then 2 else 1)) = Inr r"
  proof (cases "mg_reply db log ACQUIRE = NoClient")
    case True
    then show ?thesis using assms(1,2)
      by (simp add: AccountOp_matchAccountAndUpdateLoginState_def with_pool_client_def acquire_def)
  next
    case client: False
    show ?thesis
    proof (cases "as_found (mg_reply db (log @ [ACQUIRE]) ?cmd)")
      case None
      then show ?thesis using assms(1,2) client
        by (simp add: AccountOp_matchAccountAndUpdateLoginState_def with_pool_client_def acquire_def mcall_def)
    next
      case (Some found)
      then have "mg_reply db (log @ [ACQUIRE]) ?cmd = Found found"
        by (cases "mg_reply db (log @ [ACQUIRE]) ?cmd") simp_all
      then show ?thesis using assms(1,2) client that
        by (cases found)
           (simp_all add: AccountOp_matchAccountAndUpdateLoginState_def with_pool_client_def acquire_def mcall_def)
    qed
  qed
  show "\<exists>now. log' = log @ [ACQUIRE, try_login op accountName password tryLogin now]"
    using log' by blast
  show "effective (mg_reply db) log' = effective (mg_reply db) log @ [?cmd]"
    using d log' by (simp add: effect_step_direct is_write_def in_session_def confirmed_def)
  have "field d ''on_off'' = Some (BBool (account_on (mg_reply db) op accountName (log @ [ACQUIRE])))"
    using assms(3) d by (simp add: returns_old_state_def)
  then show "r = (if account_on (mg_reply db) op accountName log then 2 else 1)"
    using r by (simp add: account_on_def)
qed


text \<open>A server with the one account \<^verbatim>\<open>ann\<close>, whose state it computes from the commands sent.\<close>

definition logins_of :: "mongo_log \<Rightarrow> mongo_log" where
  "logins_of log = filter (\<lambda>cmd. is_write cmd \<and> \<not> in_session cmd) log"

definition login_mongo :: "mongo_log \<Rightarrow> mongo_command \<Rightarrow> mongo_reply" where
  "login_mongo log cmd =
     (case cmd of
        FIND_ONE_AND_UPDATE c f u \<Rightarrow>
          Found (Some [(''on_off'', BBool (case field f ''account'' of
            Some (BString a) \<Rightarrow> fold (on_off_step demo_names a) (logins_of log) False | _ \<Rightarrow> False))])
      | _ \<Rightarrow> if is_write cmd \<and> \<not> in_session cmd then Counted 1 else MongoException 0)"

lemma login_mongo_effective: "effective login_mongo log = filter (\<lambda>cmd. is_write cmd \<and> \<not> in_session cmd) log"
proof (induction log rule: rev_induct)
  case Nil
  then show ?case by (simp add: effects_def)
next
  case (snoc cmd log)
  show ?case
    using snoc
    by (cases cmd) (auto simp: effect_step_def Let_def login_mongo_def is_write_def in_session_def confirmed_def)
qed

lemma login_mongo_old_state: "returns_old_state login_mongo demo_names"
  by (auto simp: returns_old_state_def login_mongo_def account_on_def login_mongo_effective logins_of_def)

abbreviation demo_logout :: mongo_command where
  "demo_logout \<equiv> UPDATE_ONE False (accounts demo_names) [(''account'', BString ''ann'')] (makeDocAccountLogout 9)"

lemma demo_login_runs:
  "AccountOp_matchAccountAndUpdateLoginState (simple_driver login_mongo) demo_names ''ann'' ''pw'' True [] =
     (Inr 1, [ACQUIRE, try_login demo_names ''ann'' ''pw'' True 1])"
  "AccountOp_matchAccountAndUpdateLoginState (simple_driver login_mongo) demo_names ''ann'' ''pw'' True
     ([ACQUIRE, try_login demo_names ''ann'' ''pw'' True 1] @ [demo_logout]) =
     (Inr 1, [ACQUIRE, try_login demo_names ''ann'' ''pw'' True 1, demo_logout, ACQUIRE,
              try_login demo_names ''ann'' ''pw'' True 4])"
  by (simp_all add: AccountOp_matchAccountAndUpdateLoginState_def with_pool_client_def acquire_def mcall_def
      simple_driver_def login_mongo_def logins_of_def is_write_def in_session_def on_off_step_def)


end
