(* ===== verification/Cache.thy ===== *)
theory Cache
  imports Game_Ops Game_Data
begin

text \<open>
  The configuration of the database server (\<^verbatim>\<open>DBServer/DBServConf\<close>), the conversions between
  numbers and strings it uses, and the cache of characters on redis (\<^verbatim>\<open>DBServer/cache/RCache\<close>).
\<close>

section \<open>DBServConf\<close>

record db_conf =
  dc_MESSAGE_LOGIN_LOGIN_MSG :: string
  dc_MESSAGE_LOGIN_LOGIN_CHARACTER_MSG :: string
  dc_MESSAGE_LOGIN_LOGIN_RESPONSE_MSG :: string
  dc_MESSAGE_LOGIN_ERROR_MSG :: string
  dc_MESSAGE_GAME_MSG :: string
  dc_MESSAGE_GAME_CHARACTER_MSG :: string
  dc_MESSAGE_GAME_RESPONSE_MSG :: string
  dc_MESSAGE_GAME_ERROR_MSG :: string
  dc_BROKER_CONN_HOST :: string
  dc_BROKER_CONN_PORT :: int
  dc_BROKER_CONN_PASSWORD :: string
  dc_BROKER_CONN_DB :: int
  dc_BROKER_CONN_POOL_SIZE :: int
  dc_CACHE_CONN_HOST :: string
  dc_CACHE_CONN_PORT :: int
  dc_CACHE_CONN_PASSWORD :: string
  dc_CACHE_CONN_DB :: int
  dc_CACHE_CONN_POOL_SIZE :: int
  dc_SERVICE_REGISTRY_CONN_HOST :: string
  dc_SERVICE_REGISTRY_CONN_PORT :: int
  dc_SERVICE_REGISTRY_CONN_PASSWORD :: string
  dc_SERVICE_REGISTRY_CONN_DB :: int
  dc_SERVICE_REGISTRY_CONN_POOL_SIZE :: int
  dc_MONGODB_URI :: string
  dc_MONGODB_DB_NAME :: string
  dc_MONGODB_COLLECTION_ACCOUNT_NAME :: string
  dc_MONGODB_COLLECTION_CHARACTER_NAME :: string
  dc_MONGODB_COLLECTION_XXX_NAME :: string
  dc_MONGODB_COLLECTION_XXXX_NAME :: string
  dc_BROKER_DB_4_LOGIN_KEY :: string
  dc_BROKER_DB_4_GATEWAY_KEY :: string
  dc_BROKER_DB_4_GAME_KEY :: string
  dc_BROKER_DB_GROUP :: string
  dc_SERVICE_LOSE_THRESHOLD_IN_SECONDS :: nat
  dc_GATEWAY_KEYS :: string
  dc_LOGIN_SERVICE_READER_THREAD_NUM :: nat
  dc_GAME_SERVICE_READER_THREAD_NUM :: nat
  dc_SERVICE_DS_PREFIX :: string
  dc_STREAM_CUSTOMER_PULL_NAP_IN_MILLISECONDS :: nat

definition DBServConf :: db_conf where
  "DBServConf =
     \<lparr>dc_MESSAGE_LOGIN_LOGIN_MSG = ''LOGIN_LOGIN_MSG'',
      dc_MESSAGE_LOGIN_LOGIN_CHARACTER_MSG = ''LOGIN_LOGIN_CHARACTER_MSG'',
      dc_MESSAGE_LOGIN_LOGIN_RESPONSE_MSG = ''LOGIN_LOGIN_RESPONSE_MSG'',
      dc_MESSAGE_LOGIN_ERROR_MSG = ''LOGIN_ERROR_MSG'',
      dc_MESSAGE_GAME_MSG = ''GAME_MSG'',
      dc_MESSAGE_GAME_CHARACTER_MSG = ''GAME_CHARACTER_MSG'',
      dc_MESSAGE_GAME_RESPONSE_MSG = ''GAME_RESPONSE_MSG'',
      dc_MESSAGE_GAME_ERROR_MSG = ''GAME_ERROR_MSG'',
      dc_BROKER_CONN_HOST = ''127.0.0.1'',
      dc_BROKER_CONN_PORT = 6379,
      dc_BROKER_CONN_PASSWORD = [],
      dc_BROKER_CONN_DB = 0,
      dc_BROKER_CONN_POOL_SIZE = 16,
      dc_CACHE_CONN_HOST = ''127.0.0.1'',
      dc_CACHE_CONN_PORT = 6379,
      dc_CACHE_CONN_PASSWORD = [],
      dc_CACHE_CONN_DB = 0,
      dc_CACHE_CONN_POOL_SIZE = 16,
      dc_SERVICE_REGISTRY_CONN_HOST = ''127.0.0.1'',
      dc_SERVICE_REGISTRY_CONN_PORT = 6379,
      dc_SERVICE_REGISTRY_CONN_PASSWORD = [],
      dc_SERVICE_REGISTRY_CONN_DB = 0,
      dc_SERVICE_REGISTRY_CONN_POOL_SIZE = 1,
      dc_MONGODB_URI = ''mongodb://192.168.119.128:27017/?minPoolSize=8&maxPoolSize=8'',
      dc_MONGODB_DB_NAME = ''warring'',
      dc_MONGODB_COLLECTION_ACCOUNT_NAME = ''accounts'',
      dc_MONGODB_COLLECTION_CHARACTER_NAME = ''characters'',
      dc_MONGODB_COLLECTION_XXX_NAME = ''XXX'',
      dc_MONGODB_COLLECTION_XXXX_NAME = ''XXXX'',
      dc_BROKER_DB_4_LOGIN_KEY = ''Warring:DBServ4LoginServ'',
      dc_BROKER_DB_4_GATEWAY_KEY = ''Warring:DBServ4GatewayServ'',
      dc_BROKER_DB_4_GAME_KEY = ''Warring:DBServ4GameServ'',
      dc_BROKER_DB_GROUP = ''Warring:DBServ:Group'',
      dc_SERVICE_LOSE_THRESHOLD_IN_SECONDS = 15,
      dc_GATEWAY_KEYS = ''Warring:Service:GATEWAYS'',
      dc_LOGIN_SERVICE_READER_THREAD_NUM = 4,
      dc_GAME_SERVICE_READER_THREAD_NUM = 4,
      dc_SERVICE_DS_PREFIX = ''Warring:Scene:'',
      dc_STREAM_CUSTOMER_PULL_NAP_IN_MILLISECONDS = 100\<rparr>"

text \<open>The options of the three connections: host, port, password and database, and the pool size.\<close>

type_synonym connection_options = "string \<times> int \<times> string \<times> int"

definition getBrokerConnOpts :: "db_conf \<Rightarrow> connection_options" where
  "getBrokerConnOpts c =
     (dc_BROKER_CONN_HOST c, dc_BROKER_CONN_PORT c, dc_BROKER_CONN_PASSWORD c, dc_BROKER_CONN_DB c)"

definition getBrokerConnPoolOpts :: "db_conf \<Rightarrow> int" where
  "getBrokerConnPoolOpts c = dc_BROKER_CONN_POOL_SIZE c"

definition getCacheConnOpts :: "db_conf \<Rightarrow> connection_options" where
  "getCacheConnOpts c =
     (dc_CACHE_CONN_HOST c, dc_CACHE_CONN_PORT c, dc_CACHE_CONN_PASSWORD c, dc_CACHE_CONN_DB c)"

definition getCacheConnPoolOpts :: "db_conf \<Rightarrow> int" where
  "getCacheConnPoolOpts c = dc_CACHE_CONN_POOL_SIZE c"

definition getServRegConnOpts :: "db_conf \<Rightarrow> connection_options" where
  "getServRegConnOpts c =
     (dc_SERVICE_REGISTRY_CONN_HOST c, dc_SERVICE_REGISTRY_CONN_PORT c,
      dc_SERVICE_REGISTRY_CONN_PASSWORD c, dc_SERVICE_REGISTRY_CONN_DB c)"

definition getServRegConnPoolOpts :: "db_conf \<Rightarrow> int" where
  "getServRegConnPoolOpts c = dc_SERVICE_REGISTRY_CONN_POOL_SIZE c"

section \<open>Numbers and strings\<close>

text \<open>\<^verbatim>\<open>std::stoi\<close>: white space, a sign and as many digits as there are.\<close>

definition is_space :: "char \<Rightarrow> bool" where
  "is_space c = (c \<in> {CHR 0x20, CHR 0x09, CHR 0x0A, CHR 0x0B, CHR 0x0C, CHR 0x0D})"

definition is_digit :: "char \<Rightarrow> bool" where
  "is_digit c = (48 \<le> (of_char c :: nat) \<and> (of_char c :: nat) \<le> 57)"

definition stoi :: "string \<Rightarrow> i32 result" where
  "stoi s =
     (let s = dropWhile is_space s;
          negative = (s \<noteq> [] \<and> hd s = CHR 0x2D);
          s = (if s \<noteq> [] \<and> (hd s = CHR 0x2D \<or> hd s = CHR 0x2B) then tl s else s);
          digits = takeWhile is_digit s in
      if digits = [] then Inl InvalidArgument
      else let n = int (decimal_value digits); i = (if negative then - n else n) in
        if i < - (2 ^ 31) \<or> i \<ge> 2 ^ 31 then Inl OutOfRange else Inr (word_of_int i))"

text \<open>\<^verbatim>\<open>std::to_string(double)\<close> prints like \<^verbatim>\<open>%f\<close>: six digits, rounded half to even.\<close>

definition round_half_even :: "nat \<Rightarrow> nat \<Rightarrow> nat" where
  "round_half_even a b =
     (let q = a div b; r = a mod b in if 2 * r < b \<or> (2 * r = b \<and> even q) then q else q + 1)"

definition to_string_double :: "f64 \<Rightarrow> string" where
  "to_string_double x =
     (let u = unat x; sign = (if u \<ge> 2 ^ 63 then ''-'' else []);
          e = u div 2 ^ 52 mod 2 ^ 11; m = u mod 2 ^ 52 in
      if e = 2047 then sign @ (if m = 0 then ''inf'' else ''nan'')
      else let mant = (if e = 0 then m else m + 2 ^ 52); ex = (if e = 0 then 1 else e);
          n = (if ex \<ge> 1075 then mant * 2 ^ (ex - 1075) * 10 ^ 6
               else round_half_even (mant * 10 ^ 6) (2 ^ (1075 - ex))) in
        sign @ decimal (n div 10 ^ 6) @ ''.'' @ six_digits (n mod 10 ^ 6))"

section \<open>RCache\<close>

fun as_bool_reply :: "redis_reply \<Rightarrow> bool option" where
  "as_bool_reply (IntReply n) = (if n = 0 then Some False else if n = 1 then Some True else None)"
| "as_bool_reply _ = None"

definition generateCharacterKey :: "string \<Rightarrow> string \<Rightarrow> string" where
  "generateCharacterKey accountName characterName = accountName @ '':'' @ characterName"

text \<open>A reply as \<^verbatim>\<open>int\<close>, or -1 for anything that is thrown.\<close>

definition int_or_error :: "redis_command \<Rightarrow> redis \<Rightarrow> log \<Rightarrow> int \<times> log" where
  "int_or_error cmd srv log =
     (case try_call as_int cmd srv log of
        (None, log) \<Rightarrow> (-1, log)
      | (Some n, log) \<Rightarrow> (int_of_long n, log))"

text \<open>The map of the fields is unordered; here its fields are in the order of insertion.\<close>

definition addCharacter :: "string \<Rightarrow> fields \<Rightarrow> redis \<Rightarrow> log \<Rightarrow> int \<times> log" where
  "addCharacter characterKey characterInfo = int_or_error (HSET characterKey characterInfo)"

definition deleteCharacter :: "string \<Rightarrow> redis \<Rightarrow> log \<Rightarrow> int \<times> log" where
  "deleteCharacter characterKey = int_or_error (UNLINK characterKey)"

definition characterExisted :: "string \<Rightarrow> redis \<Rightarrow> log \<Rightarrow> int \<times> log" where
  "characterExisted characterKey = int_or_error (EXISTS characterKey)"

definition setTTL :: "string \<Rightarrow> nat \<Rightarrow> redis \<Rightarrow> log \<Rightarrow> bool option \<times> log" where
  "setTTL characterKey secs = try_call as_bool_reply (EXPIRE characterKey secs)"

text \<open>\<^verbatim>\<open>getCharacter\<close> assigns the members one by one; what a failing conversion throws is caught and
  the members assigned before keep their new values. \<^verbatim>\<open>std::stod\<close> is an argument.\<close>

definition lookup_info :: "fields \<Rightarrow> string \<Rightarrow> string" where
  "lookup_info infos name = (case map_of infos name of None \<Rightarrow> [] | Some v \<Rightarrow> v)"

type_synonym setter = "string \<times> (string \<Rightarrow> character_info \<Rightarrow> character_info result)"

fun run_setters :: "setter list \<Rightarrow> fields \<Rightarrow> character_info \<Rightarrow> int \<times> character_info" where
  "run_setters [] infos ci = (1, ci)"
| "run_setters ((name, set_member) # ss) infos ci =
     (case set_member (lookup_info infos name) ci of
        Inl e \<Rightarrow> (-1, ci)
      | Inr ci \<Rightarrow> run_setters ss infos ci)"

definition with_int :: "(i32 \<Rightarrow> character_info \<Rightarrow> character_info) \<Rightarrow> string \<Rightarrow> character_info \<Rightarrow> character_info result" where
  "with_int assign s ci = rbind (stoi s) (\<lambda>i. Inr (assign i ci))"

definition with_double ::
  "(string \<Rightarrow> f64 result) \<Rightarrow> (f64 \<Rightarrow> character_info \<Rightarrow> character_info) \<Rightarrow> string \<Rightarrow> character_info \<Rightarrow> character_info result"
where
  "with_double stod assign s ci = rbind (stod s) (\<lambda>x. Inr (assign x ci))"

definition character_setters :: "(string \<Rightarrow> f64 result) \<Rightarrow> setter list" where
  "character_setters stod =
     [(FIELD_ACCOUNT, \<lambda>s ci. Inr (ci\<lparr>CI_ACCOUNT := s\<rparr>)),
      (FIELD_CHARACTER_NAME, \<lambda>s ci. Inr (ci\<lparr>CI_NAME := s\<rparr>)),
      (FIELD_CHARACTER_LEVEL, with_int (\<lambda>i ci. ci\<lparr>CI_LEVEL := i\<rparr>)),
      (FIELD_CHARACTER_GENDER, \<lambda>s ci. Inr (ci\<lparr>CI_GENDER := (s = ''true'')\<rparr>)),
      (FIELD_CHARACTER_OCCUPTION, with_int (\<lambda>i ci. ci\<lparr>CI_OCCUPTION := i\<rparr>)),
      (FIELD_CHARACTER_STATE, with_int (\<lambda>i ci. ci\<lparr>CI_STATE := i\<rparr>)),
      (FIELD_EXP, with_int (\<lambda>i ci. ci\<lparr>CI_EXP := i\<rparr>)),
      (FIELD_HEALTH, with_int (\<lambda>i ci. ci\<lparr>CI_HEALTH := i\<rparr>)),
      (FIELD_MANA, with_int (\<lambda>i ci. ci\<lparr>CI_MANA := i\<rparr>)),
      (FIELD_ARMOR, with_int (\<lambda>i ci. ci\<lparr>CI_ARMOR := i\<rparr>)),
      (FIELD_STAMINA, with_int (\<lambda>i ci. ci\<lparr>CI_STAMINA := i\<rparr>)),
      (FIELD_STRENGTH, with_int (\<lambda>i ci. ci\<lparr>CI_STRENGTH := i\<rparr>)),
      (FIELD_AGILITY, with_int (\<lambda>i ci. ci\<lparr>CI_AGILITY := i\<rparr>)),
      (FIELD_INTELLECT, with_int (\<lambda>i ci. ci\<lparr>CI_INTELLECT := i\<rparr>)),
      (FIELD_SCENE_ID, with_int (\<lambda>i ci. ci\<lparr>CI_SCENE_ID := i\<rparr>)),
      (FIELD_SCENE_X, with_double stod (\<lambda>x ci. ci\<lparr>CI_SCENE_X := x\<rparr>)),
      (FIELD_SCENE_Y, with_double stod (\<lambda>x ci. ci\<lparr>CI_SCENE_Y := x\<rparr>)),
      (FIELD_SCENE_Z, with_double stod (\<lambda>x ci. ci\<lparr>CI_SCENE_Z := x\<rparr>))]"

definition getCharacter ::
  "(string \<Rightarrow> f64 result) \<Rightarrow> string \<Rightarrow> character_info \<Rightarrow> redis \<Rightarrow> log \<Rightarrow> (int \<times> character_info) \<times> log"
where
  "getCharacter stod characterKey characterInfo srv log =
     (case try_call as_fields (HGETALL characterKey) srv log of
        (None, log) \<Rightarrow> ((-1, characterInfo), log)
      | (Some infos, log) \<Rightarrow> (run_setters (character_setters stod) infos characterInfo, log))"

definition getCharacterData :: "string \<Rightarrow> string \<Rightarrow> redis \<Rightarrow> log \<Rightarrow> (int \<times> string) \<times> log" where
  "getCharacterData characterKey characterData srv log =
     (case try_call as_optional_string (HGET characterKey FIELD_CHARACTER_DATA) srv log of
        (None, log) \<Rightarrow> ((-1, characterData), log)
      | (Some data, log) \<Rightarrow>
          (let characterData = (case data of None \<Rightarrow> [] | Some s \<Rightarrow> s) in
           ((if characterData = [] then 0 else 1, characterData), log)))"

lemma to_string_double_examples:
  "to_string_double DOUBLE_2000 = ''2000.000000''" "to_string_double 0xBFE0000000000000 = ''-0.500000''"
  by ((simp_all add: to_string_double_def DOUBLE_2000_def round_half_even_def six_digits_def Let_def
      decimal.simps [of 2000] decimal.simps [of 200] decimal.simps [of 20] decimal.simps [of 2] decimal.simps [of 0]
      decimal.simps [of 500000] decimal.simps [of 50000] decimal.simps [of 5000] decimal.simps [of 500]
      decimal.simps [of 50] decimal.simps [of 5] char_of_def),
      simp_all add: bit_0 eval_nat_numeral)

section \<open>Ports survive the way through a key\<close>

lemma decimal_digits: "\<forall>c\<in>set (decimal n). is_digit c"
  by (auto simp: is_digit_def dest!: decimal_chars)

lemma digit_not_special:
  assumes "is_digit c"
  shows "\<not> is_space c" "c \<noteq> CHR 0x2D" "c \<noteq> CHR 0x2B" "c \<noteq> CHR 0x3A"
  using assms by (auto simp: is_digit_def is_space_def)

lemma decimal_Cons: "\<exists>c cs. decimal n = c # cs \<and> is_digit c"
  using decimal_first [of n] decimal_digits [of n] by (cases "decimal n") auto

lemma takeWhile_decimal [simp]: "takeWhile is_digit (decimal n) = decimal n"
  using decimal_digits by (simp add: takeWhile_eq_all_conv)

lemma stoi_decimal:
  assumes "n < 2 ^ 31"
  shows "stoi (decimal n) = Inr (word_of_int (int n))"
proof -
  obtain c cs where d: "decimal n = c # cs" "is_digit c" using decimal_Cons by blast
  then have "dropWhile is_space (decimal n) = decimal n" "hd (decimal n) \<noteq> CHR 0x2D" "hd (decimal n) \<noteq> CHR 0x2B" "decimal n \<noteq> []"
    using digit_not_special [OF d(2)] by simp_all
  then show ?thesis using assms by (simp add: stoi_def Let_def)
qed

lemma stoi_negative:
  assumes "n \<le> 2 ^ 31"
  shows "stoi (CHR 0x2D # decimal n) = Inr (word_of_int (- int n))"
proof -
  have "decimal n \<noteq> []" using decimal_first [of n] by blast
  then show ?thesis using assms by (simp add: stoi_def Let_def is_space_def)
qed

lemma stoi_to_string [simp]: "stoi (to_string (sint w)) = Inr w"
proof (cases "sint w < 0")
  case True
  have "nat (- sint w) \<le> 2 ^ 31" using sint_ge [of w] by simp
  then show ?thesis using True stoi_negative [of "nat (- sint w)"] by (simp add: to_string_def)
next
  case False
  have "nat (sint w) < 2 ^ 31" using sint_lt [of w] False by simp
  then show ?thesis using False stoi_decimal [of "nat (sint w)"] by (simp add: to_string_def)
qed

lemma sint_of_nat_small:
  assumes "n < 2 ^ 31"
  shows "sint (word_of_nat n :: i32) = int n"
proof -
  have "signed_take_bit 31 (int n) = int n"
    using assms by (intro signed_take_bit_int_eq_self) auto
  then show ?thesis
    using assms by (simp add: sint_uint unsigned_of_nat signed_take_bit_take_bit of_nat_take_bit)
qed

lemma to_string_no_colon [simp]: "CHR 0x3A \<notin> set (to_string i)"
  using decimal_digits digit_not_special(4) by (auto simp: to_string_def)

lemma to_string_not_empty [simp]: "to_string i \<noteq> []"
  using decimal_first by (simp add: to_string_def)

end
