(* ===== verification/Query_Task.thy ===== *)
theory Query_Task
  imports Database Cache
begin

text \<open>
  \<^verbatim>\<open>DBServer/QueryTask.{h,cpp}\<close>: what the database server does with a request. A handler changes the
  carrier it is given. It works on three servers, MongoDB and the redis of the cache and of the
  registry; the commands sent to each are in the world it returns, also when it throws.
\<close>

section \<open>The servers a task uses\<close>

record db_world =
  dw_mongo :: mongo_log
  dw_cache :: log
  dw_registry :: log

record db_env =
  de_conf :: db_conf
  de_database :: database
  de_mongo :: mongo
  de_cache :: redis
  de_registry :: redis

definition on_mongo :: "(mongo_log \<Rightarrow> 'a \<times> mongo_log) \<Rightarrow> db_world \<Rightarrow> 'a \<times> db_world" where
  "on_mongo f w = (case f (dw_mongo w) of (r, log) \<Rightarrow> (r, w\<lparr>dw_mongo := log\<rparr>))"

definition on_cache :: "(log \<Rightarrow> 'a \<times> log) \<Rightarrow> db_world \<Rightarrow> 'a \<times> db_world" where
  "on_cache f w = (case f (dw_cache w) of (r, log) \<Rightarrow> (r, w\<lparr>dw_cache := log\<rparr>))"

definition on_registry :: "(log \<Rightarrow> 'a \<times> log) \<Rightarrow> db_world \<Rightarrow> 'a \<times> db_world" where
  "on_registry f w = (case f (dw_registry w) of (r, log) \<Rightarrow> (r, w\<lparr>dw_registry := log\<rparr>))"

abbreviation db_now :: "db_env \<Rightarrow> db_world \<Rightarrow> u64" where
  "db_now env w \<equiv> mg_clock (de_mongo env) (dw_mongo w)"

section \<open>Services\<close>

definition getMillisecondsSinceEpoch :: "u64 \<Rightarrow> string" where
  "getMillisecondsSinceEpoch now = to_string (sint now)"

text \<open>\<open>hash\<close> is \<^verbatim>\<open>std::hash<std::string>\<close>, whose values the standard does not fix.\<close>

definition generateToken :: "(string \<Rightarrow> u64) \<Rightarrow> u64 \<Rightarrow> string \<Rightarrow> string" where
  "generateToken hash now account = decimal (unat (hash (account @ getMillisecondsSinceEpoch now)))"

text \<open>\<^verbatim>\<open>ttl\<close> is a \<^verbatim>\<open>long long\<close> and the threshold a \<^verbatim>\<open>size_t\<close>: the comparison is unsigned.\<close>

definition long_at_least :: "int \<Rightarrow> nat \<Rightarrow> bool" where
  "long_at_least i n = (unat (word_of_int i :: u64) \<ge> n)"

fun first_alive :: "db_conf \<Rightarrow> redis \<Rightarrow> (string \<times> f64) list \<Rightarrow> log \<Rightarrow> string result \<times> log" where
  "first_alive conf srv [] log = (Inr [], log)"
| "first_alive conf srv ((member, score) # result) log =
     and_then (call as_int (TTL member) srv log) (\<lambda>ttl log.
       if long_at_least ttl (dc_SERVICE_LOSE_THRESHOLD_IN_SECONDS conf div 2) then (Inr member, log)
       else first_alive conf srv result log)"

definition getLowLoadService :: "db_conf \<Rightarrow> redis \<Rightarrow> string \<Rightarrow> log \<Rightarrow> string result \<times> log" where
  "getLowLoadService conf srv serviceKey log =
     and_then (call as_members (ZRANGEBYSCORE serviceKey) srv log) (\<lambda>result log.
       first_alive conf srv result log)"

definition getLowDS :: "redis \<Rightarrow> string \<Rightarrow> log \<Rightarrow> string result \<times> log" where
  "getLowDS srv dsKey log =
     and_then (call as_members (ZRANGEBYSCORE dsKey) srv log) (\<lambda>result log.
       (Inr (case result of [] \<Rightarrow> [] | (member, _) # _ \<Rightarrow> member), log))"

text \<open>The tokens between the colons; an empty token at the end is not one.\<close>

fun colon_tokens :: "string \<Rightarrow> string \<Rightarrow> string list" where
  "colon_tokens cur [] = (if cur = [] then [] else [cur])"
| "colon_tokens cur (c # cs) =
     (if c = CHR 0x3A then cur # colon_tokens [] cs else colon_tokens (cur @ [c]) cs)"

definition getServiceAddress :: "string \<Rightarrow> (string \<times> i32) option result" where
  "getServiceAddress serviceKey =
     (if serviceKey = [] then Inr None
      else let vec = colon_tokens [] serviceKey in
        if length vec < 2 then Inl AssertFailed
        else rbind (stoi (last vec)) (\<lambda>port. Inr (Some (vec ! (length vec - 2), port))))"

section \<open>Login requests\<close>

text \<open>\<^verbatim>\<open>loginResMsg\<close> is an automatic variable: its ports are indeterminate (\<open>garbage\<close>).\<close>

definition new_LoginResponseMessage :: "u64 \<Rightarrow> i32 \<times> i32 \<Rightarrow> string \<Rightarrow> login_response_message" where
  "new_LoginResponseMessage now garbage name =
     timestamp_message.extend ((new_TimestampMessage now)\<lparr>MSG_NAME := name\<rparr>)
       \<lparr>RESPONSE_CODE = CODE_NONE, TOKEN = [], GAME_GATEWAY_IP = [], GAME_GATEWAY_PORT = fst garbage,
        GAME_DS_IP = [], GAME_DS_PORT = snd garbage, CHARACTER_BASE_INFO_MESSAGES = []\<rparr>"

fun serialize_base_infos :: "character_base_info list \<Rightarrow> string list result" where
  "serialize_base_infos [] = Inr []"
| "serialize_base_infos (b # bs) =
     rbind (CharacterBaseInfo_serialize (CharacterBaseInfo_count b)) (\<lambda>(data, _).
     rbind (serialize_base_infos bs) (\<lambda>rest. Inr (data # rest)))"

definition result_code :: "int \<Rightarrow> u64 \<Rightarrow> u64 \<Rightarrow> u64" where
  "result_code result ok none = (if result = 1 then ok else if result = 0 then none else LOGIN_ERROR_FROM_DB)"

text \<open>The two cases of the \<^verbatim>\<open>switch\<close> of \<^verbatim>\<open>getLoginResponseMsg\<close>; every other code changes nothing.\<close>

definition login_switch ::
  "db_env \<Rightarrow> 'a login_request_message_scheme \<Rightarrow> string \<Rightarrow> login_response_message \<Rightarrow> db_world \<Rightarrow>
   login_response_message result \<times> db_world"
where
  "login_switch env req address res w =
     (if REQUEST_CODE req = LOGIN_REGISTER_REQUEST_CODE then
        and_then (on_mongo (Database_addNewAccount (de_mongo env) (de_database env) (ACCOUNT req) (PASSWORD req) address) w)
          (\<lambda>result w. (Inr (res\<lparr>RESPONSE_CODE :=
             result_code result LOGIN_REGISTER_RESULT_SUCCESS LOGIN_REGISTER_ERROR_ACCOUNT_EXISTED\<rparr>), w))
      else if REQUEST_CODE req = LOGIN_LOGIN_REQUEST_CODE then
        and_then (on_mongo (Database_matchAccountAndUpdateLoginState (de_mongo env) (de_database env)
            (ACCOUNT req) (PASSWORD req) True) w)
          (\<lambda>result w.
            if result = 1 then
              and_then (on_mongo (Database_getAllCharacterBaseInfoFill2Message (de_mongo env) (de_database env) (ACCOUNT req)) w)
                (\<lambda>infos w. (rbind (serialize_base_infos (case infos of None \<Rightarrow> [] | Some bs \<Rightarrow> bs)) (\<lambda>data.
                   Inr (res\<lparr>RESPONSE_CODE := LOGIN_LOGIN_RESULT_SUCCESS, CHARACTER_BASE_INFO_MESSAGES := data\<rparr>)), w))
            else (Inr (res\<lparr>RESPONSE_CODE :=
              if result = 0 then LOGIN_LOGIN_ERROR_ACCOUNT_PASSWORD_MISMATCH
              else if result = 2 then LOGIN_LOGIN_ERROR_ACCOUNT_ALREADY_ON else LOGIN_ERROR_FROM_DB\<rparr>), w))
      else (Inr res, w))"

text \<open>\<^verbatim>\<open>loginResMsg.count(); loginMsgCarrier.MESSAGE = loginResMsg.serialize();\<close>\<close>

definition reply_with :: "login_response_message \<Rightarrow> client_carrier \<Rightarrow> client_carrier result" where
  "reply_with res carrier =
     rbind (LoginResponseMessage_serialize (LoginResponseMessage_count res)) (\<lambda>(data, _).
       Inr (carrier\<lparr>CARRIER_MESSAGE := data\<rparr>))"

definition turn_back :: "string \<Rightarrow> client_carrier \<Rightarrow> client_carrier" where
  "turn_back key carrier = carrier\<lparr>CARRIER_NEXT_SERVICE := CARRIER_SERVICE carrier, CARRIER_SERVICE := key\<rparr>"

definition getLoginResponseMsg ::
  "db_env \<Rightarrow> i32 \<times> i32 \<Rightarrow> client_carrier \<Rightarrow> db_world \<Rightarrow> client_carrier result \<times> db_world"
where
  "getLoginResponseMsg env garbage carrier w =
     (if CARRIER_TYPE carrier \<noteq> dc_MESSAGE_LOGIN_LOGIN_MSG (de_conf env)
      then (Inr (carrier\<lparr>CARRIER_TYPE := dc_MESSAGE_LOGIN_ERROR_MSG (de_conf env)\<rparr>), w)
      else case LoginRequestMessage_deserialize (c_str (CARRIER_MESSAGE carrier)) (new_LoginRequestMessage (db_now env w)) of
        Inl e \<Rightarrow> (Inl e, w)
      | Inr req \<Rightarrow>
          and_then (login_switch env req (CLIENT_ADDRESS carrier)
              (new_LoginResponseMessage (db_now env w) garbage (dc_MESSAGE_LOGIN_LOGIN_RESPONSE_MSG (de_conf env))) w)
            (\<lambda>res w. (reply_with res (turn_back (dc_BROKER_DB_4_LOGIN_KEY (de_conf env)) carrier), w)))"

section \<open>Entering the game\<close>

text \<open>The low-load gateway and scene server. The second condition of the source looks at the key of
  the scene where the address of the scene server is meant; both branches of the caller repeat it.\<close>

definition has_address :: "string \<Rightarrow> bool result" where
  "has_address key = rbind (getServiceAddress key) (\<lambda>a. Inr (a \<noteq> None))"

definition address_value :: "string \<Rightarrow> (string \<times> i32) result" where
  "address_value key =
     rbind (getServiceAddress key) (\<lambda>a. case a of None \<Rightarrow> Inl BadOptional | Some v \<Rightarrow> Inr v)"

definition enter_addresses :: "string \<Rightarrow> string \<Rightarrow> string \<Rightarrow> login_response_message \<Rightarrow> login_response_message result" where
  "enter_addresses lowGateway lowScene sceneKey res =
     (let no_service = Inr (res\<lparr>RESPONSE_CODE := LOGIN_ERROR_NO_SUCH_SERVICE\<rparr>) in
      if lowGateway = [] \<or> lowScene = [] then no_service
      else rbind (has_address lowGateway) (\<lambda>gateway.
        if \<not> gateway then no_service
        else rbind (has_address sceneKey) (\<lambda>scene.
          if \<not> scene then no_service
          else rbind (address_value lowGateway) (\<lambda>g.
               rbind (address_value lowScene) (\<lambda>s.
                 Inr (res\<lparr>RESPONSE_CODE := LOGIN_CHARACTER_ENTERING, GAME_GATEWAY_IP := fst g,
                      GAME_GATEWAY_PORT := snd g, GAME_DS_IP := fst s, GAME_DS_PORT := snd s\<rparr>))))))"

definition choose_services ::
  "db_env \<Rightarrow> string \<Rightarrow> login_response_message \<Rightarrow> db_world \<Rightarrow> login_response_message result \<times> db_world"
where
  "choose_services env sceneKey res w =
     and_then (on_registry (getLowLoadService (de_conf env) (de_registry env) (dc_GATEWAY_KEYS (de_conf env))) w)
       (\<lambda>lowGateway w.
     and_then (on_registry (getLowLoadService (de_conf env) (de_registry env) sceneKey) w)
       (\<lambda>lowScene w. (enter_addresses lowGateway lowScene sceneKey res, w)))"

text \<open>What is put into the cache: every member as a string, and the serialized message.\<close>

definition character_fields :: "character_info \<Rightarrow> fields" where
  "character_fields ci =
     [(FIELD_ACCOUNT, CI_ACCOUNT ci), (FIELD_CHARACTER_NAME, CI_NAME ci),
      (FIELD_CHARACTER_LEVEL, to_string (sint (CI_LEVEL ci))),
      (FIELD_CHARACTER_GENDER, if CI_GENDER ci then ''true'' else ''false''),
      (FIELD_CHARACTER_OCCUPTION, to_string (sint (CI_OCCUPTION ci))),
      (FIELD_CHARACTER_STATE, to_string (sint (CI_STATE ci))),
      (FIELD_EXP, to_string (sint (CI_EXP ci))), (FIELD_HEALTH, to_string (sint (CI_HEALTH ci))),
      (FIELD_MANA, to_string (sint (CI_MANA ci))), (FIELD_ARMOR, to_string (sint (CI_ARMOR ci))),
      (FIELD_STAMINA, to_string (sint (CI_STAMINA ci))),
      (FIELD_STRENGTH, to_string (sint (CI_STRENGTH ci))),
      (FIELD_AGILITY, to_string (sint (CI_AGILITY ci))),
      (FIELD_INTELLECT, to_string (sint (CI_INTELLECT ci))),
      (FIELD_SCENE_ID, to_string (sint (CI_SCENE_ID ci))),
      (FIELD_SCENE_X, to_string_double (CI_SCENE_X ci)), (FIELD_SCENE_Y, to_string_double (CI_SCENE_Y ci)),
      (FIELD_SCENE_Z, to_string_double (CI_SCENE_Z ci))]"

definition enter_game ::
  "db_env \<Rightarrow> 'a login_character_request_message_scheme \<Rightarrow> login_response_message \<Rightarrow> db_world \<Rightarrow>
   login_response_message result \<times> db_world"
where
  "enter_game env req res w =
     and_then (on_mongo (Database_getOneCharacterInfoFill2Message (de_mongo env) (de_database env)
         (ACCOUNT req) (CHARACTER_NAME req)) w) (\<lambda>result w.
       case result of
         None \<Rightarrow> (Inr (res\<lparr>RESPONSE_CODE := LOGIN_CHARACTER_ERROR_ACCOUNT_MISMATCH\<rparr>), w)
       | Some ci \<Rightarrow>
           (let characterKey = generateCharacterKey (ACCOUNT req) (CHARACTER_NAME req);
                sceneKey = dc_SERVICE_DS_PREFIX (de_conf env) @ to_string (sint (CI_SCENE_ID ci)) in
            case on_cache (setTTL characterKey 300 (de_cache env)) w of
              (Some True, w) \<Rightarrow> choose_services env sceneKey res w
            | (Some False, w) \<Rightarrow>
                (case CharacterInfo_serialize (CharacterInfo_count ci) of
                   Inl e \<Rightarrow> (Inl e, w)
                 | Inr (characterData, _) \<Rightarrow>
                     let w = snd (on_cache (addCharacter characterKey
                           (character_fields ci @ [(FIELD_CHARACTER_DATA, characterData)]) (de_cache env)) w);
                         w = snd (on_cache (setTTL characterKey 300 (de_cache env)) w) in
                     choose_services env sceneKey res w)
            | (None, w) \<Rightarrow> (Inr (res\<lparr>RESPONSE_CODE := LOGIN_ERROR_FROM_DB\<rparr>), w)))"

section \<open>Character requests\<close>

definition character_switch ::
  "db_env \<Rightarrow> 'a login_character_request_message_scheme \<Rightarrow> login_response_message \<Rightarrow> db_world \<Rightarrow>
   login_response_message result \<times> db_world"
where
  "character_switch env req res w =
     (if REQUEST_CODE req = LOGIN_CREATE_CHARACTER_CODE then
        and_then (on_mongo (Database_addNewCharacter (de_mongo env) (de_database env) req) w)
          (\<lambda>result w. (Inr (res\<lparr>RESPONSE_CODE :=
             result_code result LOGIN_CREATE_CHARACTER_RESULT_SUCCESS LOGIN_CREATE_CHARACTER_ERROR_EXISTED\<rparr>), w))
      else if REQUEST_CODE req = LOGIN_DELETE_CHARACTER_CODE then
        and_then (on_mongo (Database_removeCharacter (de_mongo env) (de_database env) (ACCOUNT req) (CHARACTER_NAME req)) w)
          (\<lambda>result w. (Inr (res\<lparr>RESPONSE_CODE :=
             result_code result LOGIN_DELETE_CHARACTER_RESULT_SUCCESS LOGIN_DELETE_CHARACTER_ERROR_NO_EXISTED\<rparr>), w))
      else if REQUEST_CODE req = LOGIN_CHARACTER_ENTER_GAME_CODE then enter_game env req res w
      else (Inr res, w))"

definition getLoginCharacterResponseMsg ::
  "db_env \<Rightarrow> i32 \<times> i32 \<Rightarrow> bool \<times> i32 \<times> i32 \<Rightarrow> client_carrier \<Rightarrow> db_world \<Rightarrow> client_carrier result \<times> db_world"
where
  "getLoginCharacterResponseMsg env garbage members carrier w =
     (if CARRIER_TYPE carrier \<noteq> dc_MESSAGE_LOGIN_LOGIN_CHARACTER_MSG (de_conf env)
      then (Inr (carrier\<lparr>CARRIER_TYPE := dc_MESSAGE_LOGIN_ERROR_MSG (de_conf env)\<rparr>), w)
      else case LoginCharacterRequestMessage_deserialize (c_str (CARRIER_MESSAGE carrier))
          (new_LoginCharacterRequestMessage (db_now env w) members) of
        Inl e \<Rightarrow> (Inl e, w)
      | Inr req \<Rightarrow>
          and_then (character_switch env req
              (new_LoginResponseMessage (db_now env w) garbage (dc_MESSAGE_LOGIN_LOGIN_RESPONSE_MSG (de_conf env))) w)
            (\<lambda>res w. (reply_with res (turn_back (dc_BROKER_DB_4_LOGIN_KEY (de_conf env)) carrier), w)))"

section \<open>Game requests\<close>

definition getGameResponseMsg ::
  "db_env \<Rightarrow> u64 \<times> i32 \<times> i32 \<times> i32 \<Rightarrow> client_carrier \<Rightarrow> db_world \<Rightarrow> client_carrier result \<times> db_world"
where
  "getGameResponseMsg env garbage carrier w =
     (if CARRIER_TYPE carrier \<noteq> dc_MESSAGE_GAME_MSG (de_conf env)
      then (Inr (carrier\<lparr>CARRIER_TYPE := dc_MESSAGE_GAME_ERROR_MSG (de_conf env)\<rparr>), w)
      else (rbind (DSMessage_deserialize (c_str (CARRIER_MESSAGE carrier)) (new_DSMessage (db_now env w) garbage))
              (\<lambda>dsMsg. Inr carrier), w))"

text \<open>\<open>garbage\<close> gives the indeterminate members.\<close>

definition new_CharacterInfo :: "character_info \<Rightarrow> character_info" where
  "new_CharacterInfo garbage =
     (base_message.extend new_base (base_message.more garbage))\<lparr>CI_ACCOUNT := [], CI_NAME := []\<rparr>"

definition ds_reply_with :: "ds_load_or_upload_character_message \<Rightarrow> client_carrier \<Rightarrow> client_carrier result" where
  "ds_reply_with res carrier =
     rbind (DSLoadOrUploadCharacterMessage_serialize (DSLoadOrUploadCharacterMessage_count res)) (\<lambda>(data, _).
       Inr (carrier\<lparr>CARRIER_MESSAGE := data\<rparr>))"

text \<open>The answer to a load request: from the cache or, if it has no data, from the database.\<close>

definition load_character ::
  "db_env \<Rightarrow> 'a ds_load_or_upload_character_message_scheme \<Rightarrow> ds_load_or_upload_character_message \<Rightarrow>
   client_carrier \<Rightarrow> db_world \<Rightarrow> client_carrier result \<times> db_world"
where
  "load_character env req res carrier w =
     (let carrier = turn_back (dc_BROKER_DB_4_GAME_KEY (de_conf env)) carrier;
          res = res\<lparr>MSG_NAME := dc_MESSAGE_GAME_CHARACTER_MSG (de_conf env)\<rparr>;
          key = generateCharacterKey (DL_ACCOUNT req) (DL_CHARACTER_NAME req) in
      case on_cache (getCharacterData key [] (de_cache env)) w of
        ((result, characterData), w) \<Rightarrow>
          if result > 0 then
            (ds_reply_with (res\<lparr>DL_CODE := GAME_LOAD_CHARACTER_SUCCESS, DL_ACCOUNT := DL_ACCOUNT req,
               DL_CHARACTER_NAME := DL_CHARACTER_NAME req, DL_CHARACTER_DATA := characterData\<rparr>) carrier, w)
          else
            and_then (on_mongo (Database_getOneCharacterInfoFill2Message (de_mongo env) (de_database env)
                (DL_ACCOUNT req) (DL_CHARACTER_NAME req)) w) (\<lambda>found w.
              case found of
                Some ci \<Rightarrow>
                  (rbind (CharacterInfo_serialize (CharacterInfo_count ci)) (\<lambda>(data, ci).
                     ds_reply_with (res\<lparr>DL_CODE := GAME_LOAD_CHARACTER_SUCCESS, DL_SCENE_ID := CI_SCENE_ID ci,
                       DL_ACCOUNT := DL_ACCOUNT req, DL_CHARACTER_NAME := DL_CHARACTER_NAME req,
                       DL_CHARACTER_DATA := data\<rparr>) carrier), w)
              | None \<Rightarrow> (ds_reply_with (res\<lparr>DL_CODE := GAME_LOAD_CHARACTER_ERROR\<rparr>) carrier, w)))"

text \<open>Both uploads: into the cache, for the last one with a time to live, and into the database.\<close>

definition upload_character ::
  "db_env \<Rightarrow> character_info \<Rightarrow> bool \<Rightarrow> 'a ds_load_or_upload_character_message_scheme \<Rightarrow>
   client_carrier \<Rightarrow> db_world \<Rightarrow> client_carrier result \<times> db_world"
where
  "upload_character env members isLast req carrier w =
     (let carrier = carrier\<lparr>CARRIER_NEXT_SERVICE := [], CARRIER_SERVICE := dc_BROKER_DB_4_GAME_KEY (de_conf env)\<rparr>;
          key = generateCharacterKey (DL_ACCOUNT req) (DL_CHARACTER_NAME req);
          w = snd (on_cache (addCharacter key [(FIELD_CHARACTER_DATA, DL_CHARACTER_DATA req)] (de_cache env)) w);
          w = (if isLast then snd (on_cache (setTTL key 300 (de_cache env)) w) else w) in
      case CharacterInfo_deserialize (c_str (DL_CHARACTER_DATA req)) (new_CharacterInfo members) of
        Inl e \<Rightarrow> (Inl e, w)
      | Inr ci \<Rightarrow>
          and_then (on_mongo (Database_updateCharacter (de_mongo env) (de_database env) ci isLast) w)
            (\<lambda>_ w. (Inr carrier, w)))"

definition getGameCharacterResponseMsg ::
  "db_env \<Rightarrow> u64 \<times> i32 \<Rightarrow> u64 \<times> i32 \<Rightarrow> character_info \<Rightarrow> client_carrier \<Rightarrow> db_world \<Rightarrow>
   client_carrier result \<times> db_world"
where
  "getGameCharacterResponseMsg env garbage garbage' members carrier w =
     (if CARRIER_TYPE carrier \<noteq> dc_MESSAGE_GAME_CHARACTER_MSG (de_conf env)
      then (Inr (carrier\<lparr>CARRIER_TYPE := dc_MESSAGE_GAME_ERROR_MSG (de_conf env)\<rparr>), w)
      else case DSLoadOrUploadCharacterMessage_deserialize (c_str (CARRIER_MESSAGE carrier))
          (new_DSLoadOrUploadCharacterMessage (db_now env w) garbage) of
        Inl e \<Rightarrow> (Inl e, w)
      | Inr req \<Rightarrow>
          (let res = (new_DSLoadOrUploadCharacterMessage (db_now env w) garbage')
                 \<lparr>MSG_NAME := dc_MESSAGE_GAME_RESPONSE_MSG (de_conf env)\<rparr> in
           if DL_CODE req = GAME_LOAD_CHARACTER_CODE then load_character env req res carrier w
           else if DL_CODE req = GAME_UPLOAD_CHARACTER_CODE then upload_character env members False req carrier w
           else if DL_CODE req = GAME_LAST_UPLOAD_CHARACTER_CODE then upload_character env members True req carrier w
           else (Inr carrier, w)))"

section \<open>Choosing a service\<close>

lemma long_at_least_iff:
  assumes "- (2 ^ 63) \<le> t" and "t < 2 ^ 63" and "n < 2 ^ 63"
  shows "long_at_least t n \<longleftrightarrow> t < 0 \<or> int n \<le> t"
proof (cases "t < 0")
  case True
  then have "uint (word_of_int t :: u64) = t + 2 ^ 64"
    using assms(1) mod_pos_pos_trivial [of "t + 2 ^ 64" "2 ^ 64"] mod_add_self2 [of t "2 ^ 64"]
    by (simp add: uint_word_of_int)
  then show ?thesis using True assms by (simp add: long_at_least_def unat_eq_nat_uint nat_le_iff le_nat_iff)
next
  case False
  then have "uint (word_of_int t :: u64) = t" using assms(2) by (simp add: uint_word_of_int)
  then show ?thesis using False by (simp add: long_at_least_def unat_eq_nat_uint le_nat_iff)
qed

definition taken_as_alive :: "db_conf \<Rightarrow> int \<Rightarrow> bool" where
  "taken_as_alive conf t = (t < 0 \<or> int (dc_SERVICE_LOSE_THRESHOLD_IN_SECONDS conf div 2) \<le> t)"

lemma first_alive_find:
  assumes "\<And>log m. srv log (TTL m) = IntReply (ttl m)" and "\<And>m. - (2 ^ 63) \<le> ttl m \<and> ttl m < 2 ^ 63"
    and "dc_SERVICE_LOSE_THRESHOLD_IN_SECONDS conf < 2 ^ 63"
  shows "fst (first_alive conf srv members log) =
    Inr (case List.find (\<lambda>(m, _). taken_as_alive conf (ttl m)) members of None \<Rightarrow> [] | Some (m, _) \<Rightarrow> m)"
proof (induction members arbitrary: log)
  case Nil
  then show ?case by simp
next
  case (Cons x members)
  obtain m score where x: "x = (m, score)" by (cases x)
  have "dc_SERVICE_LOSE_THRESHOLD_IN_SECONDS conf div 2 < 2 ^ 63"
    using assms(3) by (meson div_le_dividend le_less_trans)
  then have "long_at_least (ttl m) (dc_SERVICE_LOSE_THRESHOLD_IN_SECONDS conf div 2) = taken_as_alive conf (ttl m)"
    using long_at_least_iff assms(2) by (simp add: taken_as_alive_def)
  then show ?case using Cons.IH x assms(1) by (simp add: call_def)
qed

text \<open>
  C12. \<^verbatim>\<open>getLowLoadService\<close> returns the least loaded member whose time to live is at least half the
  threshold, but the comparison is unsigned: a negative answer counts as very long. So a service
  whose key is gone (-2) and that is still in the sorted set is handed out to clients.
\<close>

theorem low_load_takes_expired:
  assumes "srv log (ZRANGEBYSCORE serviceKey) = MembersReply members"
    and "\<And>log m. srv log (TTL m) = IntReply (ttl m)" and "\<And>m. - (2 ^ 63) \<le> ttl m \<and> ttl m < 2 ^ 63"
    and "dc_SERVICE_LOSE_THRESHOLD_IN_SECONDS conf < 2 ^ 63"
  shows "fst (getLowLoadService conf srv serviceKey log) =
    Inr (case List.find (\<lambda>(m, _). ttl m < 0 \<or> int (dc_SERVICE_LOSE_THRESHOLD_IN_SECONDS conf div 2) \<le> ttl m) members of
           None \<Rightarrow> [] | Some (m, _) \<Rightarrow> m)"
  using first_alive_find [where srv = srv and ttl = ttl, OF assms(2-4)] assms(1)
  by (simp add: getLowLoadService_def call_def taken_as_alive_def)

theorem low_load_takes_expired_witness:
  "fst (getLowLoadService DBServConf
     (\<lambda>log cmd. case cmd of ZRANGEBYSCORE k \<Rightarrow> MembersReply [(''tired'', 1), (''gone'', 2), (''good'', 3)]
        | TTL m \<Rightarrow> IntReply (if m = ''gone'' then -2 else if m = ''tired'' then 6 else 14) | _ \<Rightarrow> NilReply)
     ''Warring:Service:GATEWAYS'' []) = Inr ''gone''"
  by (subst low_load_takes_expired [where members = "[(''tired'', 1), (''gone'', 2), (''good'', 3)]"
        and ttl = "\<lambda>m. if m = ''gone'' then -2 else if m = ''tired'' then 6 else 14"])
     (simp_all add: DBServConf_def)

section \<open>Addresses in keys\<close>

lemma colon_tokens_plain:
  "CHR 0x3A \<notin> set s \<Longrightarrow> colon_tokens cur s = (if cur @ s = [] then [] else [cur @ s])"
  "CHR 0x3A \<notin> set s \<Longrightarrow> colon_tokens cur (s @ CHR 0x3A # rest) = (cur @ s) # colon_tokens [] rest"
  by (induction s arbitrary: cur) auto

lemma colon_tokens_prefix: "\<exists>xs. colon_tokens cur (p @ CHR 0x3A # rest) = xs @ colon_tokens [] rest"
proof (induction p arbitrary: cur)
  case Nil
  have "colon_tokens cur ([] @ CHR 0x3A # rest) = [cur] @ colon_tokens [] rest" by simp
  then show ?case by blast
next
  case (Cons c p)
  show ?case
  proof (cases "c = CHR 0x3A")
    case True
    obtain xs where "colon_tokens [] (p @ CHR 0x3A # rest) = xs @ colon_tokens [] rest" using Cons by blast
    then have "colon_tokens cur ((c # p) @ CHR 0x3A # rest) = (cur # xs) @ colon_tokens [] rest"
      using True by simp
    then show ?thesis by blast
  next
    case False
    then show ?thesis using Cons [of "cur @ [c]"] by simp
  qed
qed

lemma getServiceAddress_tokens:
  assumes "serviceKey \<noteq> []" and "colon_tokens [] serviceKey = xs @ [ip, to_string (sint port)]"
  shows "getServiceAddress serviceKey = Inr (Some (ip, port))"
  using assms by (simp add: getServiceAddress_def Let_def nth_append)

lemma getServiceAddress_pair:
  assumes "CHR 0x3A \<notin> set ip"
  shows "getServiceAddress (ip @ '':'' @ to_string (sint port)) = Inr (Some (ip, port))"
  by (rule getServiceAddress_tokens [of _ "[]"])
     (use assms colon_tokens_plain in \<open>simp_all add: colon_tokens_plain\<close>)

lemma getServiceAddress_key:
  assumes "CHR 0x3A \<notin> set ip"
  shows "getServiceAddress (key @ '':'' @ ip @ '':'' @ to_string (sint port)) = Inr (Some (ip, port))"
proof -
  obtain xs where "colon_tokens [] (key @ CHR 0x3A # ip @ '':'' @ to_string (sint port)) =
      xs @ colon_tokens [] (ip @ '':'' @ to_string (sint port))"
    using colon_tokens_prefix by blast
  then show ?thesis
    using assms by (intro getServiceAddress_tokens [of _ xs]) (simp_all add: colon_tokens_plain)
qed

end
