(* ===== verification/Db_Server.thy ===== *)
theory Db_Server
  imports Query_Task Servers
begin

text \<open>
  \<^verbatim>\<open>DBServer/DBServerGateway.h\<close>: the readers that take requests from the streams of the broker, let
  \<^verbatim>\<open>QueryTask\<close> change them and push them to the next service, and the start of the server.
\<close>

section \<open>DBServGateman\<close>

type_synonym db_handler = "client_carrier \<Rightarrow> db_world \<Rightarrow> client_carrier result \<times> db_world"

record gateman =
  gm_mReadKey :: string
  gm_mGroup :: string
  gm_mConsumer :: string
  gm_mThreadNum :: nat
  gm_mHandleFuncs :: "string \<rightharpoonup> db_handler"

definition new_DBServGateman :: "string \<Rightarrow> string \<Rightarrow> string \<Rightarrow> gateman" where
  "new_DBServGateman readKey grp consumer =
     \<lparr>gm_mReadKey = readKey, gm_mGroup = grp, gm_mConsumer = consumer, gm_mThreadNum = 1,
      gm_mHandleFuncs = Map.empty\<rparr>"

definition setThreadNum :: "nat \<Rightarrow> gateman \<Rightarrow> gateman" where
  "setThreadNum num g = g\<lparr>gm_mThreadNum := num\<rparr>"

text \<open>\<^verbatim>\<open>emplace\<close> keeps the handler a type already has.\<close>

definition registerFunc :: "string \<Rightarrow> db_handler \<Rightarrow> gateman \<Rightarrow> gateman" where
  "registerFunc type func g =
     g\<lparr>gm_mHandleFuncs := (case gm_mHandleFuncs g type of
         None \<Rightarrow> (gm_mHandleFuncs g)(type \<mapsto> func) | Some _ \<Rightarrow> gm_mHandleFuncs g)\<rparr>"

text \<open>
  The loop of a reader, one round at a time. \<open>fill\<close> and \<open>vec\<close> are \<^verbatim>\<open>FILL_2_THIS\<close> and \<^verbatim>\<open>FILL_2_VEC\<close> of
  the message type. What the broker is sent is a list of its own, next to the world of the task.
\<close>

definition handle_carrier :: "gateman \<Rightarrow> client_carrier \<Rightarrow> db_world \<Rightarrow> client_carrier result \<times> db_world" where
  "handle_carrier g msg w =
     (case gm_mHandleFuncs g (CARRIER_TYPE msg) of None \<Rightarrow> (Inr msg, w) | Some func \<Rightarrow> func msg w)"

definition finish_carrier ::
  "gateman \<Rightarrow> (client_carrier \<Rightarrow> fields) \<Rightarrow> string \<Rightarrow> client_carrier \<Rightarrow> redis \<Rightarrow> log \<Rightarrow> unit result \<times> log"
where
  "finish_carrier g vec ident msg srv log =
     and_then (if CARRIER_TYPE msg = ''LOGIN_ERROR_MSG'' then del (gm_mReadKey g) ident srv log else (Inr 0, log))
       (\<lambda>_ log.
     and_then (ack (gm_mReadKey g) (gm_mGroup g) ident srv log) (\<lambda>acked log.
       (Inr (), if acked = 1 \<and> CARRIER_NEXT_SERVICE msg \<noteq> []
                then snd (push (CARRIER_NEXT_SERVICE msg) (vec msg) 5000 srv log) else log)))"

definition reader_round ::
  "gateman \<Rightarrow> (fields \<Rightarrow> client_carrier \<Rightarrow> client_carrier result) \<Rightarrow> (client_carrier \<Rightarrow> fields) \<Rightarrow> nat \<Rightarrow> redis \<Rightarrow>
   db_world \<Rightarrow> log \<Rightarrow> unit result \<times> db_world \<times> log"
where
  "reader_round g fill vec nap_ms srv w log =
     (case pull_group (gm_mReadKey g) (gm_mGroup g) (gm_mConsumer g) ''>'' nap_ms 1 srv log of ((n, result), log) \<Rightarrow>
        if n = Some 1 then
          (case rbind (first_item result (gm_mReadKey g)) (\<lambda>(ident, kvs).
                  rbind (fill kvs new_client_carrier) (\<lambda>msg. Inr (ident, msg))) of
             Inl e \<Rightarrow> (Inl e, w, log)
           | Inr (ident, msg) \<Rightarrow>
               (case handle_carrier g msg w of
                  (Inl e, w) \<Rightarrow> (Inl e, w, log)
                | (Inr msg, w) \<Rightarrow>
                    (case finish_carrier g vec ident msg srv log of (r, log) \<Rightarrow> (r, w, log))))
        else (Inr (), w, log))"

text \<open>\<^verbatim>\<open>while (true)\<close>: the loop only ends by an exception, which ends the thread.\<close>

fun reader ::
  "nat \<Rightarrow> gateman \<Rightarrow> (fields \<Rightarrow> client_carrier \<Rightarrow> client_carrier result) \<Rightarrow> (client_carrier \<Rightarrow> fields) \<Rightarrow> nat \<Rightarrow> redis \<Rightarrow>
   db_world \<Rightarrow> log \<Rightarrow> unit result \<times> db_world \<times> log"
where
  "reader 0 g fill vec nap_ms srv w log = (Inr (), w, log)"
| "reader (Suc rounds) g fill vec nap_ms srv w log =
     (case reader_round g fill vec nap_ms srv w log of
        (Inl e, w, log) \<Rightarrow> (Inl e, w, log)
      | (Inr _, w, log) \<Rightarrow> reader rounds g fill vec nap_ms srv w log)"

section \<open>DBServGateway\<close>

text \<open>The two readers of the server. The indeterminate members of the automatic messages of the
  handlers are arguments.\<close>

record garbage =
  gb_ports :: "i32 \<times> i32"
  gb_character :: "bool \<times> i32 \<times> i32"
  gb_ds :: "u64 \<times> i32 \<times> i32 \<times> i32"
  gb_load :: "u64 \<times> i32"
  gb_response :: "u64 \<times> i32"
  gb_info :: character_info

definition mConsumerPrefix :: string where "mConsumerPrefix = ''CONSUMER_''"

definition login_gateman :: "db_env \<Rightarrow> garbage \<Rightarrow> gateman" where
  "login_gateman env gb =
     registerFunc (dc_MESSAGE_LOGIN_LOGIN_CHARACTER_MSG (de_conf env))
       (getLoginCharacterResponseMsg env (gb_ports gb) (gb_character gb))
     (registerFunc (dc_MESSAGE_LOGIN_LOGIN_MSG (de_conf env)) (getLoginResponseMsg env (gb_ports gb))
     (setThreadNum (dc_LOGIN_SERVICE_READER_THREAD_NUM (de_conf env))
     (new_DBServGateman (dc_BROKER_DB_4_LOGIN_KEY (de_conf env)) (dc_BROKER_DB_GROUP (de_conf env))
       (mConsumerPrefix @ decimal 1))))"

definition game_gateman :: "db_env \<Rightarrow> garbage \<Rightarrow> gateman" where
  "game_gateman env gb =
     registerFunc (dc_MESSAGE_GAME_CHARACTER_MSG (de_conf env))
       (getGameCharacterResponseMsg env (gb_load gb) (gb_response gb) (gb_info gb))
     (registerFunc (dc_MESSAGE_GAME_MSG (de_conf env)) (getGameResponseMsg env (gb_ds gb))
     (setThreadNum (dc_GAME_SERVICE_READER_THREAD_NUM (de_conf env))
     (new_DBServGateman (dc_BROKER_DB_4_GAME_KEY (de_conf env)) (dc_BROKER_DB_GROUP (de_conf env))
       (mConsumerPrefix @ decimal 2))))"

text \<open>\<^verbatim>\<open>start\<close>: the names of the collections (set twice), the checks, the indices, whose failure is
  ignored, the groups, and the readers: all threads of a kind read as the same consumer.\<close>

definition createGroups :: "db_conf \<Rightarrow> redis \<Rightarrow> log \<Rightarrow> log" where
  "createGroups conf srv log =
     fold (\<lambda>key log. snd (createGroup key (dc_BROKER_DB_GROUP conf) ''$'' srv log))
       [dc_BROKER_DB_4_LOGIN_KEY conf, dc_BROKER_DB_4_GATEWAY_KEY conf, dc_BROKER_DB_4_GAME_KEY conf] log"

definition start ::
  "db_env \<Rightarrow> garbage \<Rightarrow> redis \<Rightarrow> db_world \<Rightarrow> log \<Rightarrow> (db_env \<times> gateman list) result \<times> db_world \<times> log"
where
  "start env gb srv w log =
     (let conf = de_conf env in
      case rbind (Database_initDBCollName ''warring'' ''accounts'' ''characters'' (de_database env)) (\<lambda>d.
             Database_initDBCollName (dc_MONGODB_DB_NAME conf) (dc_MONGODB_COLLECTION_ACCOUNT_NAME conf)
               (dc_MONGODB_COLLECTION_CHARACTER_NAME conf) d) of
        Inl e \<Rightarrow> (Inl e, w, log)
      | Inr d \<Rightarrow>
          (let env = env\<lparr>de_database := d\<rparr> in
           case on_mongo (Database_check (de_mongo env) d) w of
             (Inl e, w) \<Rightarrow> (Inl e, w, log)
           | (Inr _, w) \<Rightarrow>
               (case on_mongo (Database_createIndex (de_mongo env) d) w of
                  (Inl e, w) \<Rightarrow> (Inl e, w, log)
                | (Inr _, w) \<Rightarrow>
                    (Inr (env, replicate (gm_mThreadNum (login_gateman env gb)) (login_gateman env gb) @
                               replicate (gm_mThreadNum (game_gateman env gb)) (game_gateman env gb)),
                     w, createGroups conf srv log))))"

section \<open>Answers to login requests\<close>

lemma new_LoginResponseMessage_base:
  "MSG_NAME (new_LoginResponseMessage now garbage name) = name"
  "uncounted (new_LoginResponseMessage now garbage name)"
  by (simp_all add: new_LoginResponseMessage_def timestamp_message.defs new_TimestampMessage_def
      base_message.defs new_base_def uncounted_def)

text \<open>The switches change members of the response only, not what the codec keeps in it.\<close>

lemma login_switch_base:
  assumes "login_switch env req address res w = (Inr res', w')"
  shows "base_message.truncate res' = base_message.truncate res"
proof -
  consider "REQUEST_CODE req = LOGIN_REGISTER_REQUEST_CODE"
    | "REQUEST_CODE req \<noteq> LOGIN_REGISTER_REQUEST_CODE" "REQUEST_CODE req = LOGIN_LOGIN_REQUEST_CODE"
    | "REQUEST_CODE req \<noteq> LOGIN_REGISTER_REQUEST_CODE" "REQUEST_CODE req \<noteq> LOGIN_LOGIN_REQUEST_CODE" by blast
  then show ?thesis
  proof cases
    case 1
    then show ?thesis using assms by (auto simp: login_switch_def and_then_Inr base_message.defs)
  next
    case 2
    then obtain result :: int and w1 where "(if result = 1
        then and_then (on_mongo (Database_getAllCharacterBaseInfoFill2Message (de_mongo env) (de_database env) (ACCOUNT req)) w1)
          (\<lambda>infos w. (rbind (serialize_base_infos (case infos of None \<Rightarrow> [] | Some bs \<Rightarrow> bs)) (\<lambda>data.
             Inr (res\<lparr>RESPONSE_CODE := LOGIN_LOGIN_RESULT_SUCCESS, CHARACTER_BASE_INFO_MESSAGES := data\<rparr>)), w))
        else (Inr (res\<lparr>RESPONSE_CODE :=
          if result = 0 then LOGIN_LOGIN_ERROR_ACCOUNT_PASSWORD_MISMATCH
          else if result = 2 then LOGIN_LOGIN_ERROR_ACCOUNT_ALREADY_ON else LOGIN_ERROR_FROM_DB\<rparr>), w1)) = (Inr res', w')"
      using assms by (auto simp: login_switch_def and_then_Inr)
    then show ?thesis
      by (cases "result = 1") (auto simp: and_then_Inr rbind_eq_Inr base_message.defs)
  next
    case 3
    then show ?thesis using assms by (simp add: login_switch_def)
  qed
qed

lemma truncate_base:
  assumes "base_message.truncate a = base_message.truncate b"
  shows "MSG_NAME a = MSG_NAME b" "uncounted a = uncounted b"
  using assms by (simp_all add: base_message.defs uncounted_def)

lemma login_switch_same_request:
  assumes "REQUEST_CODE req = REQUEST_CODE m" "ACCOUNT req = ACCOUNT m" "PASSWORD req = PASSWORD m"
  shows "login_switch env req address res w = login_switch env m address res w"
  by (simp only: login_switch_def assms)

lemma reply_with_image:
  assumes "uncounted res" and "wire_length (MSG_NAME res) (LoginResponseMessage_members res) < 2 ^ 64"
  shows "reply_with res carrier =
    Inr (carrier\<lparr>CARRIER_MESSAGE := wire_image (MSG_NAME res) (LoginResponseMessage_members res)\<rparr>)"
  using LoginResponseMessage_m.count_serialize [OF assms]
  by (auto simp: reply_with_def LoginResponseMessage_count_def LoginResponseMessage_serialize_def)

definition login_answer :: "db_conf \<Rightarrow> login_response_message \<Rightarrow> client_carrier \<Rightarrow> client_carrier" where
  "login_answer conf res carrier =
     (turn_back (dc_BROKER_DB_4_LOGIN_KEY conf) carrier)
       \<lparr>CARRIER_MESSAGE := wire_image (MSG_NAME res) (LoginResponseMessage_members res)\<rparr>"

lemma new_login_request_consumed [simp]: "consumed (new_LoginRequestMessage now)"
  by (simp add: new_LoginRequestMessage_def timestamp_message.defs new_TimestampMessage_def base_message.defs
      new_base_def consumed_def)

lemma login_handler_answers:
  fixes m :: login_request_message
  assumes "CARRIER_TYPE carrier = dc_MESSAGE_LOGIN_LOGIN_MSG (de_conf env)"
    and "CARRIER_MESSAGE carrier = wire_image name (LoginRequestMessage_members m)"
    and "wire_length name (LoginRequestMessage_members m) < 2 ^ 64"
    and "login_switch env m (CLIENT_ADDRESS carrier) (new_LoginResponseMessage (db_now env w) ports
        (dc_MESSAGE_LOGIN_LOGIN_RESPONSE_MSG (de_conf env))) w = (Inr res, w')"
    and "wire_length (MSG_NAME res) (LoginResponseMessage_members res) < 2 ^ 64"
  shows "getLoginResponseMsg env ports carrier w = (Inr (login_answer (de_conf env) res carrier), w')"
proof -
  let ?r = "new_LoginRequestMessage (db_now env w)"
  define req where "req = LoginRequestMessage_store (LoginRequestMessage_members m)
      (after_read name (LoginRequestMessage_members m) ?r)"
  have "LoginRequestMessage_deserialize (c_str (CARRIER_MESSAGE carrier)) ?r = Inr req"
    using login_request_read [OF new_login_request_consumed assms(3)] assms(2) by (simp add: req_def)
  moreover have "uncounted res"
    using truncate_base(2) [OF login_switch_base [OF assms(4)]] new_LoginResponseMessage_base(2) by simp
  ultimately show ?thesis
    using assms(1,4,5) login_switch_same_request [OF login_request_result(2-4) [OF req_def]]
    by (simp add: getLoginResponseMsg_def reply_with_image login_answer_def)
qed

lemma decimal_one: "decimal (Suc 0) = ''1''"
  by ((simp add: decimal.simps [of "Suc 0"] char_of_def), simp add: bit_0)

lemma decimal_two: "decimal 2 = ''2''"
  by ((simp add: decimal.simps [of 2] char_of_def), simp add: bit_0)

lemma login_gateman_sel [simp]:
  "gm_mReadKey (login_gateman env gb) = dc_BROKER_DB_4_LOGIN_KEY (de_conf env)"
  "gm_mGroup (login_gateman env gb) = dc_BROKER_DB_GROUP (de_conf env)"
  "gm_mConsumer (login_gateman env gb) = ''CONSUMER_1''"
  "dc_MESSAGE_LOGIN_LOGIN_MSG (de_conf env) \<noteq> dc_MESSAGE_LOGIN_LOGIN_CHARACTER_MSG (de_conf env) \<Longrightarrow>
   gm_mHandleFuncs (login_gateman env gb) =
     [dc_MESSAGE_LOGIN_LOGIN_MSG (de_conf env) \<mapsto> getLoginResponseMsg env (gb_ports gb),
      dc_MESSAGE_LOGIN_LOGIN_CHARACTER_MSG (de_conf env) \<mapsto>
        getLoginCharacterResponseMsg env (gb_ports gb) (gb_character gb)]"
  by (simp_all add: login_gateman_def registerFunc_def setThreadNum_def new_DBServGateman_def
      mConsumerPrefix_def decimal_one)

lemma game_gateman_sel [simp]:
  "gm_mReadKey (game_gateman env gb) = dc_BROKER_DB_4_GAME_KEY (de_conf env)"
  "gm_mGroup (game_gateman env gb) = dc_BROKER_DB_GROUP (de_conf env)"
  "gm_mConsumer (game_gateman env gb) = ''CONSUMER_2''"
  "dc_MESSAGE_GAME_MSG (de_conf env) \<noteq> dc_MESSAGE_GAME_CHARACTER_MSG (de_conf env) \<Longrightarrow>
   gm_mHandleFuncs (game_gateman env gb) =
     [dc_MESSAGE_GAME_MSG (de_conf env) \<mapsto> getGameResponseMsg env (gb_ds gb),
      dc_MESSAGE_GAME_CHARACTER_MSG (de_conf env) \<mapsto>
        getGameCharacterResponseMsg env (gb_load gb) (gb_response gb) (gb_info gb)]"
  by (simp_all add: game_gateman_def registerFunc_def setThreadNum_def new_DBServGateman_def
      mConsumerPrefix_def decimal_two)

section \<open>A round of a reader\<close>

abbreviation read_entry :: "gateman \<Rightarrow> nat \<Rightarrow> redis_command" where
  "read_entry g ms \<equiv> XREADGROUP (gm_mGroup g) (gm_mConsumer g) (gm_mReadKey g) ''>'' ms 1"

abbreviation ack_entry :: "gateman \<Rightarrow> string \<Rightarrow> redis_command" where
  "ack_entry g ident \<equiv> XACK (gm_mReadKey g) (gm_mGroup g) ident"

lemma reader_round_entry:
  assumes "srv log (read_entry g ms) = StreamsReply [(gm_mReadKey g, [(ident, Some kvs)])]"
    and "fill kvs new_client_carrier = Inr msg"
  shows "reader_round g fill vec ms srv w log =
    (case handle_carrier g msg w of
       (Inl e, w) \<Rightarrow> (Inl e, w, log @ [read_entry g ms])
     | (Inr msg, w) \<Rightarrow>
         (case finish_carrier g vec ident msg srv (log @ [read_entry g ms]) of (r, log) \<Rightarrow> (r, w, log)))"
  using assms
  by (simp add: reader_round_def pull_group_def pulled_def try_call_def Let_def first_item_def del: One_nat_def)

lemma finish_carrier_push:
  assumes "CARRIER_TYPE msg \<noteq> ''LOGIN_ERROR_MSG''" and "srv log (ack_entry g ident) = IntReply 1"
    and "CARRIER_NEXT_SERVICE msg \<noteq> []"
  shows "finish_carrier g vec ident msg srv log =
    (Inr (), log @ [ack_entry g ident, XADD (CARRIER_NEXT_SERVICE msg) ''*'' (vec msg) 5000 True])"
  using assms by (simp add: finish_carrier_def ack_def call_def push_def try_call_def split: option.splits)

lemma login_reader_round:
  fixes m :: login_request_message
  assumes "dc_MESSAGE_LOGIN_LOGIN_MSG (de_conf env) \<noteq> dc_MESSAGE_LOGIN_LOGIN_CHARACTER_MSG (de_conf env)"
    and "g = login_gateman env gb"
    and "CARRIER_TYPE carrier = dc_MESSAGE_LOGIN_LOGIN_MSG (de_conf env)"
    and "CARRIER_TYPE carrier \<noteq> ''LOGIN_ERROR_MSG''" and "CARRIER_SERVICE carrier \<noteq> []"
    and "CARRIER_MESSAGE carrier = wire_image name (LoginRequestMessage_members m)"
    and "wire_length name (LoginRequestMessage_members m) < 2 ^ 64"
    and "login_switch env m (CLIENT_ADDRESS carrier) (new_LoginResponseMessage (db_now env w) (gb_ports gb)
        (dc_MESSAGE_LOGIN_LOGIN_RESPONSE_MSG (de_conf env))) w = (Inr res, w')"
    and "wire_length (MSG_NAME res) (LoginResponseMessage_members res) < 2 ^ 64"
    and "fill kvs new_client_carrier = Inr carrier"
    and "srv log (read_entry g ms) = StreamsReply [(gm_mReadKey g, [(ident, Some kvs)])]"
    and "srv (log @ [read_entry g ms]) (ack_entry g ident) = IntReply 1"
  shows "reader_round g fill vec ms srv w log =
    (Inr (), w', log @ [read_entry g ms, ack_entry g ident,
       XADD (CARRIER_SERVICE carrier) ''*'' (vec (login_answer (de_conf env) res carrier)) 5000 True])"
proof -
  have "handle_carrier g carrier w = (Inr (login_answer (de_conf env) res carrier), w')"
    using login_handler_answers [OF assms(3,6-9)] assms(1-3) by (simp add: handle_carrier_def)
  moreover have "CARRIER_TYPE (login_answer (de_conf env) res carrier) = CARRIER_TYPE carrier"
    "CARRIER_NEXT_SERVICE (login_answer (de_conf env) res carrier) = CARRIER_SERVICE carrier"
    by (simp_all add: login_answer_def turn_back_def)
  ultimately show ?thesis
    using reader_round_entry [where srv = srv and log = log and fill = fill and vec = vec, OF assms(11,10), of w]
      finish_carrier_push [of "login_answer (de_conf env) res carrier" srv "log @ [read_entry g ms]" g ident vec] assms(4,5,12)
    by (simp del: One_nat_def)
qed

section \<open>Unknown codes\<close>

lemma ds_request_read:
  fixes m r :: ds_load_or_upload_character_message
  assumes "consumed r" and "wire_length name (DSLoadOrUploadCharacterMessage_members m) < 2 ^ 64"
  shows "\<exists>req. DSLoadOrUploadCharacterMessage_deserialize (c_str (wire_image name (DSLoadOrUploadCharacterMessage_members m))) r = Inr req \<and>
    DL_CODE req = DL_CODE m \<and> DL_SCENE_ID req = DL_SCENE_ID m \<and> DL_ACCOUNT req = DL_ACCOUNT m \<and>
    DL_CHARACTER_NAME req = DL_CHARACTER_NAME m \<and> DL_CHARACTER_DATA req = DL_CHARACTER_DATA m"
proof -
  let ?ms = "DSLoadOrUploadCharacterMessage_members m"
  have "DSLoadOrUploadCharacterMessage_deserialize (c_str (wire_image name ?ms)) r =
      Inr (DSLoadOrUploadCharacterMessage_store ?ms (after_read name ?ms r))"
    unfolding DSLoadOrUploadCharacterMessage_deserialize_def c_str_def
    by (rule DSLoadOrUploadCharacterMessage_m.deserialize_image [OF assms(1) _ assms(2)])
       (simp_all add: DSLoadOrUploadCharacterMessage_members_def)
  then show ?thesis
    by (simp add: DSLoadOrUploadCharacterMessage_store_def DSLoadOrUploadCharacterMessage_members_def)
qed

lemma new_ds_consumed [simp]: "consumed (new_DSLoadOrUploadCharacterMessage now garbage)"
  by (simp add: new_DSLoadOrUploadCharacterMessage_def timestamp_message.defs new_TimestampMessage_def
      base_message.defs new_base_def consumed_def)

definition known_character_codes :: "u64 set" where
  "known_character_codes = {GAME_LOAD_CHARACTER_CODE, GAME_UPLOAD_CHARACTER_CODE, GAME_LAST_UPLOAD_CHARACTER_CODE}"

lemma unknown_code_unchanged:
  fixes m :: ds_load_or_upload_character_message
  assumes "CARRIER_TYPE carrier = dc_MESSAGE_GAME_CHARACTER_MSG (de_conf env)"
    and "CARRIER_MESSAGE carrier = wire_image name (DSLoadOrUploadCharacterMessage_members m)"
    and "wire_length name (DSLoadOrUploadCharacterMessage_members m) < 2 ^ 64"
    and "DL_CODE m \<notin> known_character_codes"
  shows "getGameCharacterResponseMsg env garbage garbage' info carrier w = (Inr carrier, w)"
  using ds_request_read [OF new_ds_consumed assms(3), of "db_now env w" garbage] assms(1,2,4)
  by (auto simp: getGameCharacterResponseMsg_def known_character_codes_def Let_def)

lemma game_carrier_sel:
  "CARRIER_TYPE (game_carrier conf ty msg c) = ty" "CARRIER_MESSAGE (game_carrier conf ty msg c) = msg"
  "CARRIER_NEXT_SERVICE (game_carrier conf ty msg c) = gc_BROKER_DB_KEY conf"
  by (simp_all add: game_carrier_def)

lemma game_carrier_read:
  "Game_FILL_2_THIS (client_fields (game_carrier conf ty msg c)) new_client_carrier = Inr (game_carrier conf ty msg c)"
  by (simp add: client_carrier_defs game_carrier_def client_fields_def client_assign_def at_second_def
      new_client_carrier_def numeral_eq_Suc)

text \<open>
  A character request with a code the database server does not know is never answered and never
  goes away: the game server forwards every code, and the reader acknowledges the entry and pushes
  the very same fields to the stream it reads from, where it will read them again.
\<close>

theorem unknown_code_circulates:
  fixes m :: ds_load_or_upload_character_message
  assumes "dc_MESSAGE_GAME_MSG (de_conf env) \<noteq> dc_MESSAGE_GAME_CHARACTER_MSG (de_conf env)"
    and "dc_MESSAGE_GAME_CHARACTER_MSG (de_conf env) \<noteq> ''LOGIN_ERROR_MSG''"
    and "g = game_gateman env gb"
    and "gc_BROKER_DB_KEY conf = gm_mReadKey g" and "gm_mReadKey g \<noteq> []"
    and "kvs = Game_FILL_2_VEC (game_carrier conf (dc_MESSAGE_GAME_CHARACTER_MSG (de_conf env))
      (wire_image name (DSLoadOrUploadCharacterMessage_members m)) c) []"
    and "wire_length name (DSLoadOrUploadCharacterMessage_members m) < 2 ^ 64"
    and "DL_CODE m \<notin> known_character_codes"
    and "srv log (read_entry g ms) = StreamsReply [(gm_mReadKey g, [(ident, Some kvs)])]"
    and "srv (log @ [read_entry g ms]) (ack_entry g ident) = IntReply 1"
  shows "reader_round g Game_FILL_2_THIS (\<lambda>msg. Game_FILL_2_VEC msg []) ms srv w log =
    (Inr (), w, log @ [read_entry g ms, ack_entry g ident, XADD (gm_mReadKey g) ''*'' kvs 5000 True])"
proof -
  let ?c = "game_carrier conf (dc_MESSAGE_GAME_CHARACTER_MSG (de_conf env))
      (wire_image name (DSLoadOrUploadCharacterMessage_members m)) c"
  have fill: "Game_FILL_2_THIS kvs new_client_carrier = Inr ?c"
    using game_carrier_read by (simp add: assms(6) Game_FILL_2_VEC_def)
  have "handle_carrier g ?c w = (Inr ?c, w)"
    using unknown_code_unchanged [OF _ _ assms(7,8), of ?c env] assms(1,3)
    by (simp add: handle_carrier_def game_carrier_sel)
  then show ?thesis
    using reader_round_entry [where srv = srv and log = log and vec = "\<lambda>msg. Game_FILL_2_VEC msg []" and fill = Game_FILL_2_THIS, OF assms(9) fill, of w]
      finish_carrier_push [of ?c srv "log @ [read_entry g ms]" g ident "\<lambda>msg. Game_FILL_2_VEC msg []"] assms(2,4,5,6,10)
    by (simp add: game_carrier_sel del: One_nat_def)
qed

definition demo_database :: database where
  "demo_database = \<lparr>db_own = demo_names, db_mAccountOp = demo_names, db_mCharacterOp = demo_names\<rparr>"

definition demo_env :: "(mongo_log \<Rightarrow> mongo_command \<Rightarrow> mongo_reply) \<Rightarrow> redis \<Rightarrow> redis \<Rightarrow> db_env" where
  "demo_env reply cache registry =
     \<lparr>de_conf = DBServConf, de_database = demo_database, de_mongo = simple_driver reply,
      de_cache = cache, de_registry = registry\<rparr>"

definition demo_garbage :: garbage where
  "demo_garbage = \<lparr>gb_ports = (1, 2), gb_character = (True, 3, 4), gb_ds = (5, 6, 7, 8), gb_load = (9, 10),
     gb_response = (11, 12), gb_info = undefined\<rparr>"

definition empty_world :: db_world where
  "empty_world = \<lparr>dw_mongo = [], dw_cache = [], dw_registry = []\<rparr>"

text \<open>A broker with one entry in every stream.\<close>

definition demo_stream :: "fields \<Rightarrow> redis" where
  "demo_stream kvs log cmd =
     (case cmd of
        XREADGROUP grp consumer key ident ms n \<Rightarrow> StreamsReply [(key, [(''1-0'', Some kvs)])]
      | _ \<Rightarrow> IntReply 1)"

definition demo_transfer :: "u64 \<Rightarrow> string \<Rightarrow> ds_load_or_upload_character_message" where
  "demo_transfer code data = (new_DSLoadOrUploadCharacterMessage 0 (0, 0))
     \<lparr>DL_CODE := code, DL_ACCOUNT := ''ann'', DL_CHARACTER_NAME := ''bob'', DL_CHARACTER_DATA := data\<rparr>"

theorem unknown_code_circulates_witness:
  "\<exists>kvs. reader_round (game_gateman (demo_env (demo_mongo False) (\<lambda>_ _. NilReply) (\<lambda>_ _. NilReply)) demo_garbage)
      Game_FILL_2_THIS (\<lambda>msg. Game_FILL_2_VEC msg []) 100 (demo_stream kvs) empty_world [] =
    (Inr (), empty_world,
     [XREADGROUP ''Warring:DBServ:Group'' ''CONSUMER_2'' ''Warring:DBServ4GameServ'' ''>'' 100 1,
      XACK ''Warring:DBServ4GameServ'' ''Warring:DBServ:Group'' ''1-0'',
      XADD ''Warring:DBServ4GameServ'' ''*'' kvs 5000 True])"
proof -
  let ?env = "demo_env (demo_mongo False) (\<lambda>_ _. NilReply) (\<lambda>_ _. NilReply)"
  let ?kvs = "Game_FILL_2_VEC (game_carrier GameServConf (dc_MESSAGE_GAME_CHARACTER_MSG (de_conf ?env))
      (wire_image ''GAME_CHARACTER_MSG'' (DSLoadOrUploadCharacterMessage_members (demo_transfer 999 []))) (demo_conn [])) []"
  have conf: "de_conf ?env = DBServConf" by (simp add: demo_env_def)
  have len: "wire_length ''GAME_CHARACTER_MSG'' (DSLoadOrUploadCharacterMessage_members (demo_transfer 999 [])) < 2 ^ 64"
    by (simp add: demo_transfer_def DSLoadOrUploadCharacterMessage_members_def wire_length_def name_lens_def)
  have code: "DL_CODE (demo_transfer 999 []) \<notin> known_character_codes"
    by (simp add: demo_transfer_def known_character_codes_def game_codes)
  show ?thesis
    by (rule exI [of _ ?kvs],
        subst unknown_code_circulates [where c = "demo_conn []" and conf = GameServConf and kvs = ?kvs and gb = demo_garbage
          and env = ?env and name = "''GAME_CHARACTER_MSG''" and m = "demo_transfer 999 []" and ident = "''1-0''"])
       (use len code in \<open>simp_all add: conf DBServConf_def GameServConf_def demo_stream_def del: One_nat_def\<close>)
qed

section \<open>Exceptions of the driver\<close>

lemma character_request_read:
  fixes m r :: login_character_request_message
  assumes "consumed r" and "wire_length name (LoginCharacterRequestMessage_members m) < 2 ^ 64"
  shows "\<exists>req. LoginCharacterRequestMessage_deserialize (c_str (wire_image name (LoginCharacterRequestMessage_members m))) r = Inr req \<and>
    REQUEST_CODE req = REQUEST_CODE m \<and> ACCOUNT req = ACCOUNT m \<and> CHARACTER_NAME req = CHARACTER_NAME m \<and>
    CHARACTER_GENDER req = CHARACTER_GENDER m \<and> CHARACTER_OCCUPTION req = CHARACTER_OCCUPTION m \<and>
    CHARACTER_STATE req = CHARACTER_STATE m"
proof -
  let ?ms = "LoginCharacterRequestMessage_members m"
  have "LoginCharacterRequestMessage_deserialize (c_str (wire_image name ?ms)) r =
      Inr (LoginCharacterRequestMessage_store ?ms (after_read name ?ms r))"
    unfolding LoginCharacterRequestMessage_deserialize_def c_str_def
    by (rule LoginCharacterRequestMessage_m.deserialize_image [OF assms(1) _ assms(2)])
       (simp_all add: LoginCharacterRequestMessage_members_def)
  then show ?thesis
    by (simp add: LoginCharacterRequestMessage_store_def LoginCharacterRequestMessage_members_def)
qed

lemma new_character_request_consumed [simp]: "consumed (new_LoginCharacterRequestMessage now members)"
  by (cases members) (simp add: new_LoginCharacterRequestMessage_def login_request_message.defs
      new_LoginRequestMessage_def timestamp_message.defs new_TimestampMessage_def base_message.defs
      new_base_def consumed_def)

text \<open>
  One exception of MongoDB ends a reader thread for good. \<^verbatim>\<open>addNewCharacter\<close> looks the character
  up outside of its \<^verbatim>\<open>try\<close>: when that throws, the exception leaves the loop of the reader, the
  request is never acknowledged or answered, and no later request is read by this thread.
\<close>

theorem mongo_error_ends_reader:
  fixes m :: login_character_request_message and carrier :: client_carrier
  assumes "dc_MESSAGE_LOGIN_LOGIN_MSG (de_conf env) \<noteq> dc_MESSAGE_LOGIN_LOGIN_CHARACTER_MSG (de_conf env)"
    and "g = login_gateman env gb"
    and "CARRIER_TYPE carrier = dc_MESSAGE_LOGIN_LOGIN_CHARACTER_MSG (de_conf env)"
    and "CARRIER_MESSAGE carrier = wire_image name (LoginCharacterRequestMessage_members m)"
    and "wire_length name (LoginCharacterRequestMessage_members m) < 2 ^ 64"
    and "REQUEST_CODE m = LOGIN_CREATE_CHARACTER_CODE"
    and "mg_reply (de_mongo env) (dw_mongo w) ACQUIRE \<noteq> NoClient"
    and "mg_reply (de_mongo env) (dw_mongo w @ [ACQUIRE]) (FIND_ONE (accounts (db_mAccountOp (de_database env)))
      (makeDocAccountAndCharacter (ACCOUNT m) (CHARACTER_NAME m)) None) = MongoException code"
    and "srv log (read_entry g ms) = StreamsReply [(gm_mReadKey g, [(ident, Some (Login_FILL_2_VEC carrier []))])]"
  shows "\<exists>w'. \<forall>rounds. reader (Suc rounds) g Login_FILL_2_THIS (\<lambda>msg. Login_FILL_2_VEC msg []) ms srv w log =
    (Inl MongoError, w', log @ [read_entry g ms])"
proof -
  let ?find = "FIND_ONE (accounts (db_mAccountOp (de_database env))) (makeDocAccountAndCharacter (ACCOUNT m) (CHARACTER_NAME m)) None"
  let ?w = "w\<lparr>dw_mongo := dw_mongo w @ [ACQUIRE, ?find]\<rparr>"
  obtain req where req: "LoginCharacterRequestMessage_deserialize (c_str (CARRIER_MESSAGE carrier))
      (new_LoginCharacterRequestMessage (db_now env w) (gb_character gb)) = Inr req"
    and same: "REQUEST_CODE req = REQUEST_CODE m" "ACCOUNT req = ACCOUNT m" "CHARACTER_NAME req = CHARACTER_NAME m"
    using character_request_read [OF new_character_request_consumed assms(5)] assms(4) by metis
  have "AccountOp_addNewCharacter (de_mongo env) (db_mAccountOp (de_database env)) req (dw_mongo w) =
      (Inl MongoError, dw_mongo w @ [ACQUIRE, ?find])"
    using assms(7,8) same
    by (simp add: AccountOp_addNewCharacter_def with_pool_client_def acquire_def insert_character_def mcall_def)
  then have handled: "handle_carrier g carrier w = (Inl MongoError, ?w)"
    using assms(1-3,6) req same
    by (simp add: handle_carrier_def getLoginCharacterResponseMsg_def character_switch_def
        Database_addNewCharacter_def on_mongo_def)
  have read: "Login_FILL_2_THIS (Login_FILL_2_VEC carrier []) new_client_carrier = Inr carrier"
    using client_assign_fields [of carrier "[]" new_client_carrier]
    by (cases carrier) (simp add: client_carrier_defs new_client_carrier_def)
  have "reader_round g Login_FILL_2_THIS (\<lambda>msg. Login_FILL_2_VEC msg []) ms srv w log =
      (Inl MongoError, ?w, log @ [read_entry g ms])"
    using reader_round_entry [where srv = srv and log = log and vec = "\<lambda>msg. Login_FILL_2_VEC msg []"
        and fill = Login_FILL_2_THIS, OF assms(9) read, of w] handled by (simp del: One_nat_def)
  then show ?thesis by (intro exI [of _ ?w]) (simp del: One_nat_def)
qed

definition failing_mongo :: "mongo_log \<Rightarrow> mongo_command \<Rightarrow> mongo_reply" where
  "failing_mongo log cmd = (case cmd of FIND_ONE c f p \<Rightarrow> MongoException 89 | _ \<Rightarrow> Done)"

definition demo_create_carrier :: client_carrier where
  "demo_create_carrier = new_client_carrier\<lparr>CARRIER_TYPE := ''LOGIN_LOGIN_CHARACTER_MSG'', CARRIER_SERVICE := ''Warring:LoginServ_'',
     CARRIER_MESSAGE := wire_image ''LOGIN_LOGIN_CHARACTER_MSG'' (LoginCharacterRequestMessage_members demo_character)\<rparr>"

lemma demo_character_sel:
  "REQUEST_CODE demo_character = 50" "ACCOUNT demo_character = ''ann''" "CHARACTER_NAME demo_character = ''bob''"
  "wire_length ''LOGIN_LOGIN_CHARACTER_MSG'' (LoginCharacterRequestMessage_members demo_character) < 2 ^ 64"
  by (simp_all add: demo_character_def login_request_message.defs timestamp_message.defs new_TimestampMessage_def
      base_message.defs LoginCharacterRequestMessage_members_def wire_length_def name_lens_def)

lemma demo_env_sel [simp]:
  "de_conf (demo_env reply cache registry) = DBServConf"
  "de_database (demo_env reply cache registry) = demo_database"
  "de_mongo (demo_env reply cache registry) = simple_driver reply"
  "de_cache (demo_env reply cache registry) = cache" "de_registry (demo_env reply cache registry) = registry"
  by (simp_all add: demo_env_def)

theorem mongo_error_ends_reader_witness:
  "\<exists>w' log'. \<forall>rounds. reader (Suc rounds) (login_gateman (demo_env failing_mongo (\<lambda>_ _. NilReply) (\<lambda>_ _. NilReply)) demo_garbage)
      Login_FILL_2_THIS (\<lambda>msg. Login_FILL_2_VEC msg []) 100 (demo_stream (Login_FILL_2_VEC demo_create_carrier [])) empty_world [] =
    (Inl MongoError, w', log')"
proof -
  let ?env = "demo_env failing_mongo (\<lambda>_ _. NilReply) (\<lambda>_ _. NilReply)"
  let ?srv = "demo_stream (Login_FILL_2_VEC demo_create_carrier [])" and ?g = "login_gateman ?env demo_garbage"
  have "\<exists>w'. \<forall>rounds. reader (Suc rounds) ?g Login_FILL_2_THIS (\<lambda>msg. Login_FILL_2_VEC msg []) 100 ?srv empty_world [] =
      (Inl MongoError, w', [] @ [read_entry ?g 100])"
    by (rule mongo_error_ends_reader [where env = ?env and gb = demo_garbage and carrier = demo_create_carrier and m = demo_character
          and code = 89 and name = "''LOGIN_LOGIN_CHARACTER_MSG''" and ident = "''1-0''", OF _ refl])
       (use demo_character_sel(4) in \<open>simp_all add: DBServConf_def demo_create_carrier_def demo_character_sel(1-3)
          login_codes failing_mongo_def demo_stream_def\<close>)
  then show ?thesis by blast
qed

section \<open>Addresses\<close>

text \<open>
  The database server reads from the keys what the servers put into them: the address a game
  or gateway server registers under and the address of a scene server come back as host and port.
\<close>

theorem registered_address_found:
  assumes "CHR 0x3A \<notin> set ip" and "port < 2 ^ 31"
  shows "getServiceAddress (service_key key ip port) = Inr (Some (ip, word_of_nat port)) \<and>
    getServiceAddress (scene_address ip (word_of_nat port)) = Inr (Some (ip, word_of_nat port))"
  using getServiceAddress_key [OF assms(1), of key "word_of_nat port"]
    getServiceAddress_pair [OF assms(1), of "word_of_nat port"] sint_of_nat_small [OF assms(2)]
  by (simp add: service_key_def scene_address_def)

theorem registered_address_found_witness:
  "getServiceAddress (service_key ''Warring:GatewayServ_1'' ''10.0.0.7'' 22222) = Inr (Some (''10.0.0.7'', 22222))"
  using registered_address_found [of "''10.0.0.7''" 22222 "''Warring:GatewayServ_1''"] by simp

section \<open>Uploaded characters\<close>

lemma upload_cache:
  assumes "upload_character env info isLast req carrier w = (r, w')"
  shows "dw_cache w' = dw_cache w @
    HSET (generateCharacterKey (DL_ACCOUNT req) (DL_CHARACTER_NAME req)) [(FIELD_CHARACTER_DATA, DL_CHARACTER_DATA req)] #
    (if isLast then [EXPIRE (generateCharacterKey (DL_ACCOUNT req) (DL_CHARACTER_NAME req)) 300] else [])"
  using assms
  by (auto simp: upload_character_def Let_def on_cache_def on_mongo_def addCharacter_def int_or_error_def setTTL_def
      try_call_def and_then_def split: sum.splits prod.splits option.splits if_splits)

text \<open>The documented behaviour of redis: a field has the value that was last stored, also when the
  key has been given a time to live and that has not passed.\<close>

definition stores_fields :: "redis \<Rightarrow> bool" where
  "stores_fields cache =
     (\<forall>log key fields name v later. map_of fields name = Some v \<longrightarrow> (\<forall>cmd\<in>set later. \<exists>k n. cmd = EXPIRE k n) \<longrightarrow>
        cache (log @ HSET key fields # later) (HGET key name) = StringReply v)"

lemma ds_reply_with_image:
  assumes "uncounted res" and "wire_length (MSG_NAME res) (DSLoadOrUploadCharacterMessage_members res) < 2 ^ 64"
  shows "ds_reply_with res carrier =
    Inr (carrier\<lparr>CARRIER_MESSAGE := wire_image (MSG_NAME res) (DSLoadOrUploadCharacterMessage_members res)\<rparr>)"
  using DSLoadOrUploadCharacterMessage_m.count_serialize [OF assms]
  by (auto simp: ds_reply_with_def DSLoadOrUploadCharacterMessage_count_def DSLoadOrUploadCharacterMessage_serialize_def)

definition loaded_message :: "db_conf \<Rightarrow> string \<Rightarrow> string \<Rightarrow> string \<Rightarrow> ds_load_or_upload_character_message \<Rightarrow> ds_load_or_upload_character_message" where
  "loaded_message conf account character data res =
     res\<lparr>MSG_NAME := dc_MESSAGE_GAME_CHARACTER_MSG conf, DL_CODE := GAME_LOAD_CHARACTER_SUCCESS, DL_ACCOUNT := account,
       DL_CHARACTER_NAME := character, DL_CHARACTER_DATA := data\<rparr>"

text \<open>
  C11. What a scene server uploads is what the next load of the character gets, even if MongoDB
  fails in between: the answer carries exactly the uploaded bytes and goes back to the server that
  asked. Only the scene in it is not set: it is whatever the automatic variable held.
\<close>

theorem uploaded_character_loaded:
  fixes req req' res :: ds_load_or_upload_character_message
  assumes "stores_fields (de_cache env)"
    and "upload_character env info isLast req carrier w = (r, w1)" and "DL_CHARACTER_DATA req \<noteq> []"
    and "DL_ACCOUNT req' = DL_ACCOUNT req" and "DL_CHARACTER_NAME req' = DL_CHARACTER_NAME req"
    and "uncounted res"
    and "answer = loaded_message (de_conf env) (DL_ACCOUNT req) (DL_CHARACTER_NAME req) (DL_CHARACTER_DATA req) res"
    and "wire_length (MSG_NAME answer) (DSLoadOrUploadCharacterMessage_members answer) < 2 ^ 64"
  shows "\<exists>c' w2. load_character env req' res carrier' w1 = (Inr c', w2) \<and>
    CARRIER_MESSAGE c' = wire_image (MSG_NAME answer) (DSLoadOrUploadCharacterMessage_members answer) \<and>
    CARRIER_NEXT_SERVICE c' = CARRIER_SERVICE carrier' \<and> CLIENT_ID c' = CLIENT_ID carrier' \<and>
    DL_SCENE_ID answer = DL_SCENE_ID res"
proof -
  let ?key = "generateCharacterKey (DL_ACCOUNT req) (DL_CHARACTER_NAME req)"
  have "de_cache env (dw_cache w1) (HGET ?key FIELD_CHARACTER_DATA) = StringReply (DL_CHARACTER_DATA req)"
    using assms(1) upload_cache [OF assms(2)] by (auto simp: stores_fields_def)
  then have get: "getCharacterData ?key [] (de_cache env) (dw_cache w1) =
      ((1, DL_CHARACTER_DATA req), dw_cache w1 @ [HGET ?key FIELD_CHARACTER_DATA])"
    using assms(3) by (simp add: getCharacterData_def try_call_def)
  have "uncounted answer" using assms(6,7) by (simp add: loaded_message_def uncounted_def)
  from ds_reply_with_image [OF this assms(8)]
  have "load_character env req' res carrier' w1 =
      (Inr ((turn_back (dc_BROKER_DB_4_GAME_KEY (de_conf env)) carrier')
        \<lparr>CARRIER_MESSAGE := wire_image (MSG_NAME answer) (DSLoadOrUploadCharacterMessage_members answer)\<rparr>),
       w1\<lparr>dw_cache := dw_cache w1 @ [HGET ?key FIELD_CHARACTER_DATA]\<rparr>)"
    using get assms(4,5,7) by (simp add: load_character_def on_cache_def Let_def loaded_message_def)
  then show ?thesis using assms(7) by (simp add: turn_back_def loaded_message_def)
qed

text \<open>A redis that keeps the fields of its keys.\<close>

fun stored_field :: "log \<Rightarrow> string \<Rightarrow> string \<Rightarrow> string option" where
  "stored_field [] key name = None"
| "stored_field (HSET k fs # log) key name =
     (if k = key \<and> map_of fs name \<noteq> None then map_of fs name else stored_field log key name)"
| "stored_field (cmd # log) key name = stored_field log key name"

definition demo_cache :: redis where
  "demo_cache log cmd =
     (case cmd of
        HGET key name \<Rightarrow> (case stored_field (rev log) key name of None \<Rightarrow> NilReply | Some v \<Rightarrow> StringReply v)
      | _ \<Rightarrow> IntReply 1)"

lemma stored_field_expire:
  "\<forall>cmd\<in>set xs. \<exists>k n. cmd = EXPIRE k n \<Longrightarrow> stored_field (xs @ log) key name = stored_field log key name"
  by (induction xs) auto

lemma demo_cache_stores: "stores_fields demo_cache"
  unfolding stores_fields_def
proof (intro allI impI)
  fix log later :: log and key name v :: string and fields :: fields
  assume "map_of fields name = Some v" and "\<forall>cmd\<in>set later. \<exists>k n. cmd = EXPIRE k n"
  then show "demo_cache (log @ HSET key fields # later) (HGET key name) = StringReply v"
    using stored_field_expire [of "rev later" "HSET key fields # rev log" key name] by (simp add: demo_cache_def)
qed

lemma demo_transfer_sel [simp]:
  "DL_CODE (demo_transfer code data) = code" "DL_ACCOUNT (demo_transfer code data) = ''ann''"
  "DL_CHARACTER_NAME (demo_transfer code data) = ''bob''" "DL_CHARACTER_DATA (demo_transfer code data) = data"
  by (simp_all add: demo_transfer_def)

theorem uploaded_character_loaded_witness:
  "\<exists>c' w2. load_character (demo_env (demo_mongo False) demo_cache (\<lambda>_ _. NilReply)) (demo_transfer 240 [])
      (new_DSLoadOrUploadCharacterMessage 0 (11, 12)) new_client_carrier
      (snd (upload_character (demo_env (demo_mongo False) demo_cache (\<lambda>_ _. NilReply)) (gb_info demo_garbage) True
         (demo_transfer 251 ''bytes'') new_client_carrier empty_world)) = (Inr c', w2)"
proof -
  let ?env = "demo_env (demo_mongo False) demo_cache (\<lambda>_ _. NilReply)"
  let ?res = "new_DSLoadOrUploadCharacterMessage 0 (11, 12)"
  obtain r w1 where up: "upload_character ?env (gb_info demo_garbage) True (demo_transfer 251 ''bytes'') new_client_carrier empty_world = (r, w1)"
    by (metis surj_pair)
  have "uncounted ?res"
    by (simp add: new_DSLoadOrUploadCharacterMessage_def timestamp_message.defs new_TimestampMessage_def
        base_message.defs new_base_def uncounted_def)
  moreover have "wire_length (MSG_NAME (loaded_message DBServConf ''ann'' ''bob'' ''bytes'' ?res))
      (DSLoadOrUploadCharacterMessage_members (loaded_message DBServConf ''ann'' ''bob'' ''bytes'' ?res)) < 2 ^ 64"
    by (simp add: loaded_message_def DSLoadOrUploadCharacterMessage_members_def wire_length_def name_lens_def DBServConf_def)
  ultimately show ?thesis
    using uploaded_character_loaded [OF _ up, of "demo_transfer 240 []" ?res _ new_client_carrier] demo_cache_stores up
    by fastforce
qed

section \<open>A new character enters the game\<close>

lemma enter_addresses_ok:
  assumes "getServiceAddress lowGateway = Inr (Some (gip, gport))" and "getServiceAddress lowScene = Inr (Some (sip, sport))"
    and "getServiceAddress sceneKey = Inr (Some a)" and "lowGateway \<noteq> []" and "lowScene \<noteq> []"
  shows "enter_addresses lowGateway lowScene sceneKey res =
    Inr (res\<lparr>RESPONSE_CODE := LOGIN_CHARACTER_ENTERING, GAME_GATEWAY_IP := gip, GAME_GATEWAY_PORT := gport,
      GAME_DS_IP := sip, GAME_DS_PORT := sport\<rparr>)"
  using assms by (simp add: enter_addresses_def has_address_def address_value_def Let_def)

lemma found_character:
  assumes "mg_reply db log ACQUIRE \<noteq> NoClient"
    and "mg_reply db (log @ [ACQUIRE]) (FIND_ONE (characters (db_mCharacterOp d))
      [(''account'', BString accountName), (''base_info.name'', BString characterName)] None) = Found (Some doc)"
    and "read_character_info accountName characterName doc = Inr info"
  shows "\<exists>log'. Database_getOneCharacterInfoFill2Message db d accountName characterName log = (Inr (Some info), log')"
  using assms
  by (simp add: Database_getOneCharacterInfoFill2Message_def CharacterOp_getOneCharacterInfoFill2Message_def
      with_pool_client_def acquire_def mcall_def catch_all_def)

lemma character_info_serializes:
  assumes "uncounted ci" and "length (MSG_NAME ci) + length (CI_ACCOUNT ci) + length (CI_NAME ci) < 2 ^ 61"
  shows "\<exists>data ci'. CharacterInfo_serialize (CharacterInfo_count ci) = Inr (data, ci')"
proof -
  have "wire_length (MSG_NAME ci) (CharacterInfo_members ci) < 2 ^ 64"
    using assms(2) by (simp add: wire_length_def name_lens_def CharacterInfo_members_def)
  then show ?thesis
    using CharacterInfo_m.count_serialize [OF assms(1)]
    by (auto simp: CharacterInfo_count_def CharacterInfo_serialize_def)
qed

lemma choose_services_ok:
  assumes "getLowLoadService (de_conf env) (de_registry env) (dc_GATEWAY_KEYS (de_conf env)) (dw_registry w) = (Inr lowGateway, rlog)"
    and "getLowLoadService (de_conf env) (de_registry env) sceneKey rlog = (Inr lowScene, rlog')"
    and "enter_addresses lowGateway lowScene sceneKey res = Inr res'"
  shows "choose_services env sceneKey res w = (Inr res', w\<lparr>dw_registry := rlog'\<rparr>)"
  using assms by (simp add: choose_services_def on_registry_def)

lemma enter_game_found:
  fixes m :: login_character_request_message
  assumes "Database_getOneCharacterInfoFill2Message (de_mongo env) (de_database env) (ACCOUNT m) (CHARACTER_NAME m)
      (dw_mongo w) = (Inr (Some ci), mlog)"
    and "de_cache env (dw_cache w) (EXPIRE (generateCharacterKey (ACCOUNT m) (CHARACTER_NAME m)) 300) = IntReply (if cached then 1 else 0)"
    and "CharacterInfo_serialize (CharacterInfo_count ci) = Inr (data, ci')"
    and "sceneKey = dc_SERVICE_DS_PREFIX (de_conf env) @ to_string (sint (CI_SCENE_ID ci))"
    and "\<And>w1. dw_registry w1 = dw_registry w \<Longrightarrow> choose_services env sceneKey res w1 = (Inr res', w1\<lparr>dw_registry := rlog\<rparr>)"
  shows "\<exists>w'. enter_game env m res w = (Inr res', w')"
  using assms
  by (cases cached)
     (auto simp: enter_game_def on_mongo_def on_cache_def setTTL_def addCharacter_def int_or_error_def try_call_def
        Let_def split: option.splits)

text \<open>
  C10. A character that was just created can enter the game, cached or not: the document \<^verbatim>\<open>addNewCharacter\<close>
  stores is read back, its state decides the scene, and the client is told the hosts and ports under
  which the chosen gateway and scene server have registered.
\<close>

theorem created_character_enters:
  fixes m :: login_character_request_message
  assumes "mg_reply (de_mongo env) (dw_mongo w) ACQUIRE \<noteq> NoClient"
    and "mg_reply (de_mongo env) (dw_mongo w @ [ACQUIRE]) (FIND_ONE (characters (db_mCharacterOp (de_database env)))
      [(''account'', BString (ACCOUNT m)), (''base_info.name'', BString (CHARACTER_NAME m))] None) =
      Found (Some (makeDocNewCharacter m))"
    and "length (ACCOUNT m) + length (CHARACTER_NAME m) < 2 ^ 60"
    and "de_cache env (dw_cache w) (EXPIRE (generateCharacterKey (ACCOUNT m) (CHARACTER_NAME m)) 300) = IntReply (if cached then 1 else 0)"
    and "dc_SERVICE_DS_PREFIX (de_conf env) = ''Warring:Scene:''"
    and "sceneKey = ''Warring:Scene:'' @ to_string (sint (spawn_scene (CHARACTER_STATE m)))"
    and "getLowLoadService (de_conf env) (de_registry env) (dc_GATEWAY_KEYS (de_conf env)) (dw_registry w) =
      (Inr (service_key gatewayKey gatewayIP gatewayPort), rlog)"
    and "getLowLoadService (de_conf env) (de_registry env) sceneKey rlog = (Inr (scene_address sceneIP scenePort), rlog')"
    and "CHR 0x3A \<notin> set gatewayIP" and "CHR 0x3A \<notin> set sceneIP" and "gatewayPort < 2 ^ 31"
  shows "\<exists>w'. enter_game env m res w =
    (Inr (res\<lparr>RESPONSE_CODE := LOGIN_CHARACTER_ENTERING,
       GAME_GATEWAY_IP := gatewayIP, GAME_GATEWAY_PORT := word_of_nat gatewayPort,
       GAME_DS_IP := sceneIP, GAME_DS_PORT := scenePort\<rparr>), w')"
proof -
  obtain ci where ci: "read_character_info (ACCOUNT m) (CHARACTER_NAME m) (makeDocNewCharacter m) = Inr ci"
    and sel: "CI_ACCOUNT ci = ACCOUNT m" "CI_NAME ci = CHARACTER_NAME m" "uncounted ci"
      "CI_SCENE_ID ci = spawn_scene (CHARACTER_STATE m)" "MSG_NAME ci = MSG_NAME_NONE"
    using read_new_character [of m] by blast
  obtain mlog where found: "Database_getOneCharacterInfoFill2Message (de_mongo env) (de_database env) (ACCOUNT m)
      (CHARACTER_NAME m) (dw_mongo w) = (Inr (Some ci), mlog)"
    using found_character [OF assms(1,2) ci] by blast
  obtain data ci' where data: "CharacterInfo_serialize (CharacterInfo_count ci) = Inr (data, ci')"
    using character_info_serializes [OF sel(3)] sel assms(3) by (auto simp: MSG_NAME_NONE_def)
  have "getServiceAddress sceneKey = Inr (Some (''Scene'', spawn_scene (CHARACTER_STATE m)))"
    using getServiceAddress_key [of "''Scene''" "''Warring''" "spawn_scene (CHARACTER_STATE m)"] assms(6) by simp
  moreover have "getServiceAddress (service_key gatewayKey gatewayIP gatewayPort) = Inr (Some (gatewayIP, word_of_nat gatewayPort))"
    using getServiceAddress_key [OF assms(9), of gatewayKey "word_of_nat gatewayPort"] sint_of_nat_small [OF assms(11)]
    by (simp add: service_key_def)
  moreover have "getServiceAddress (scene_address sceneIP scenePort) = Inr (Some (sceneIP, scenePort))"
    using getServiceAddress_pair [OF assms(10)] by (simp add: scene_address_def)
  ultimately have "enter_addresses (service_key gatewayKey gatewayIP gatewayPort) (scene_address sceneIP scenePort) sceneKey res =
      Inr (res\<lparr>RESPONSE_CODE := LOGIN_CHARACTER_ENTERING, GAME_GATEWAY_IP := gatewayIP,
        GAME_GATEWAY_PORT := word_of_nat gatewayPort, GAME_DS_IP := sceneIP, GAME_DS_PORT := scenePort\<rparr>)" (is "_ = Inr ?res")
    by (intro enter_addresses_ok) (simp_all add: service_key_def scene_address_def)
  then have "choose_services env sceneKey res w1 = (Inr ?res, w1\<lparr>dw_registry := rlog'\<rparr>)"
    if "dw_registry w1 = dw_registry w" for w1
    using choose_services_ok [of env w1] assms(7,8) that by simp
  from enter_game_found [OF found assms(4) data _ this] show ?thesis
    using assms(5,6) sel(4) by simp
qed

definition demo_registry :: redis where
  "demo_registry log cmd =
     (case cmd of
        ZRANGEBYSCORE key \<Rightarrow>
          if key = ''Warring:Service:GATEWAYS''
          then MembersReply [(service_key ''Warring:GatewayServ_1'' ''10.0.0.7'' 22222, 0)]
          else if key = ''Warring:Scene:200301'' then MembersReply [(scene_address ''10.0.0.9'' 7777, 0)]
          else MembersReply []
      | TTL key \<Rightarrow> IntReply (-2)
      | _ \<Rightarrow> NilReply)"

definition demo_stored :: "mongo_log \<Rightarrow> mongo_command \<Rightarrow> mongo_reply" where
  "demo_stored log cmd =
     (case cmd of FIND_ONE c f p \<Rightarrow> Found (Some (makeDocNewCharacter demo_character)) | _ \<Rightarrow> Done)"

lemma demo_scene: "to_string (sint (spawn_scene (CHARACTER_STATE demo_character))) = ''200301''"
proof -
  have "CHARACTER_STATE demo_character = GAME_DATA_CODE_STATE_QIN"
    by (simp add: demo_character_def login_request_message.defs state_codes)
  then have "spawn_scene (CHARACTER_STATE demo_character) = 200301"
    by (simp add: spawn_scene_def newerSpawnLocation_def state_codes scene_codes)
  moreover have "decimal 200301 = ''200301''"
    by ((simp add: decimal.simps [of 200301] decimal.simps [of 20030] decimal.simps [of 2003] decimal.simps [of 200]
        decimal.simps [of 20] decimal.simps [of 2] char_of_def), simp add: bit_0)
  ultimately show ?thesis by (simp add: to_string_def)
qed

theorem created_character_enters_witness:
  "\<exists>w'. enter_game (demo_env demo_stored demo_cache demo_registry) demo_character
      (new_LoginResponseMessage 0 (1, 2) ''LOGIN_LOGIN_RESPONSE_MSG'') empty_world =
    (Inr ((new_LoginResponseMessage 0 (1, 2) ''LOGIN_LOGIN_RESPONSE_MSG'')
       \<lparr>RESPONSE_CODE := LOGIN_CHARACTER_ENTERING, GAME_GATEWAY_IP := ''10.0.0.7'', GAME_GATEWAY_PORT := word_of_nat 22222,
         GAME_DS_IP := ''10.0.0.9'', GAME_DS_PORT := 7777\<rparr>), w')"
  by (rule created_character_enters [where cached = True and gatewayKey = "''Warring:GatewayServ_1''"
        and rlog = "[ZRANGEBYSCORE ''Warring:Service:GATEWAYS'', TTL (service_key ''Warring:GatewayServ_1'' ''10.0.0.7'' 22222)]"
        and rlog' = "[ZRANGEBYSCORE ''Warring:Service:GATEWAYS'', TTL (service_key ''Warring:GatewayServ_1'' ''10.0.0.7'' 22222),
          ZRANGEBYSCORE ''Warring:Scene:200301'', TTL (scene_address ''10.0.0.9'' 7777)]", OF _ _ _ _ _ refl])
     (simp_all add: demo_stored_def demo_character_sel(2,3) demo_cache_def DBServConf_def demo_scene
        getLowLoadService_def call_def demo_registry_def long_at_least_def empty_world_def)

section \<open>Registering an account\<close>

definition register_code :: "mongo_reply \<Rightarrow> u64" where
  "register_code reply =
     (if reply = Counted 1 then LOGIN_REGISTER_RESULT_SUCCESS
      else if reply = Counted 0 \<or> reply = MongoException 11000 then LOGIN_REGISTER_ERROR_ACCOUNT_EXISTED
      else LOGIN_ERROR_FROM_DB)"

abbreviation insert_account :: "db_env \<Rightarrow> 'a login_request_message_scheme \<Rightarrow> string \<Rightarrow> db_world \<Rightarrow> mongo_command" where
  "insert_account env m address w \<equiv>
     INSERT_ONE False (accounts (db_mAccountOp (de_database env)))
       (makeDocNewAccount (ACCOUNT m) (PASSWORD m) address (mg_clock (de_mongo env) (dw_mongo w @ [ACQUIRE])))"

lemma register_switch:
  assumes "REQUEST_CODE m = LOGIN_REGISTER_REQUEST_CODE"
    and "mg_reply (de_mongo env) (dw_mongo w) ACQUIRE \<noteq> NoClient"
  shows "login_switch env m address res w =
    (Inr (res\<lparr>RESPONSE_CODE := register_code (mg_reply (de_mongo env) (dw_mongo w @ [ACQUIRE]) (insert_account env m address w))\<rparr>),
     w\<lparr>dw_mongo := dw_mongo w @ [ACQUIRE, insert_account env m address w]\<rparr>)"
proof (cases "mg_reply (de_mongo env) (dw_mongo w @ [ACQUIRE]) (insert_account env m address w)")
  case (MongoException code)
  then show ?thesis using assms
    by (simp add: login_switch_def on_mongo_def Database_addNewAccount_def AccountOp_addNewAccount_def
        with_pool_client_def acquire_def mcall_def duplicate_code_def register_code_def result_code_def)
qed (use assms in \<open>simp_all add: login_switch_def on_mongo_def Database_addNewAccount_def AccountOp_addNewAccount_def
        with_pool_client_def acquire_def mcall_def duplicate_code_def register_code_def result_code_def\<close>)

end
