(* ===== verification/Logger_Buffer.thy ===== *)
theory Logger_Buffer
  imports Safe_Queue
begin

text \<open>
  \<^verbatim>\<open>Base/utility/LoggerBuffer.h\<close> and \<^verbatim>\<open>LoggerLine.{h,cpp}\<close>: the buffer a thread collects its log lines
  in, and the pair of buffers of a thread that it exchanges with the two queues of the logger.
  \<^verbatim>\<open>mCurrent\<close> and \<^verbatim>\<open>mCursor\<close> are offsets into \<^verbatim>\<open>mBuffer\<close>.
\<close>

section \<open>LoggerBuffer\<close>

definition SMALLBUFFERSIZE :: nat where "SMALLBUFFERSIZE = 4096"
definition LARGEBUFFERSIZE :: nat where "LARGEBUFFERSIZE = 4096 * 10"

definition SUITABLEBUFFSIZE :: "nat \<Rightarrow> nat" where
  "SUITABLEBUFFSIZE n =
     (if n \<ge> LARGEBUFFERSIZE then LARGEBUFFERSIZE
      else if n \<le> SMALLBUFFERSIZE then SMALLBUFFERSIZE else n)"

record logger_buffer =
  lb_mThreadID :: string
  lb_mCapacity :: nat
  lb_mBuffer :: bytes
  lb_mCurrent :: nat
  lb_mCursor :: nat

definition zeros :: "nat \<Rightarrow> bytes" where
  "zeros n = replicate n (CHR 0x00)"

definition new_LoggerBuffer :: "nat \<Rightarrow> logger_buffer" where
  "new_LoggerBuffer n =
     \<lparr>lb_mThreadID = [], lb_mCapacity = SUITABLEBUFFSIZE n, lb_mBuffer = zeros (SUITABLEBUFFSIZE n),
      lb_mCurrent = 0, lb_mCursor = 0\<rparr>"

text \<open>\<^verbatim>\<open>LoggerBufferNType\<close>.\<close>

definition new_LoggerBufferN :: logger_buffer where
  "new_LoggerBufferN = new_LoggerBuffer 40960"

definition LoggerBuffer_setThreadID :: "string \<Rightarrow> logger_buffer \<Rightarrow> logger_buffer" where
  "LoggerBuffer_setThreadID ident b = b\<lparr>lb_mThreadID := ident\<rparr>"

definition LoggerBuffer_empty :: "logger_buffer \<Rightarrow> bool" where
  "LoggerBuffer_empty b = (lb_mCurrent b = 0)"

definition LoggerBuffer_getSize :: "logger_buffer \<Rightarrow> nat" where
  "LoggerBuffer_getSize b = lb_mCurrent b"

definition LoggerBuffer_getAvail :: "logger_buffer \<Rightarrow> nat" where
  "LoggerBuffer_getAvail b = lb_mCapacity b - lb_mCurrent b"

definition LoggerBuffer_bzero :: "logger_buffer \<Rightarrow> logger_buffer" where
  "LoggerBuffer_bzero b = b\<lparr>lb_mBuffer := zeros (lb_mCapacity b)\<rparr>"

text \<open>\<^verbatim>\<open>reset\<close> leaves the cursor where it is.\<close>

definition LoggerBuffer_reset :: "logger_buffer \<Rightarrow> logger_buffer" where
  "LoggerBuffer_reset b = (LoggerBuffer_bzero b)\<lparr>lb_mCurrent := 0\<rparr>"

definition LoggerBuffer_setCursor :: "nat \<Rightarrow> logger_buffer \<Rightarrow> logger_buffer" where
  "LoggerBuffer_setCursor pos b = b\<lparr>lb_mCursor := (if pos > lb_mCapacity b then lb_mCapacity b else pos)\<rparr>"

definition LoggerBuffer_push :: "string \<Rightarrow> logger_buffer \<Rightarrow> bool \<times> logger_buffer" where
  "LoggerBuffer_push msg b =
     (if LoggerBuffer_getAvail b > length msg
      then (True, b\<lparr>lb_mBuffer := take (lb_mCurrent b) (lb_mBuffer b) @ msg @
                       drop (lb_mCurrent b + length msg) (lb_mBuffer b),
                    lb_mCurrent := lb_mCurrent b + length msg\<rparr>)
      else (False, b))"

text \<open>The string view at the cursor ends at the first zero byte; without one \<^verbatim>\<open>strlen\<close> leaves the
  buffer, and so does the copy of \<^verbatim>\<open>getAvail()\<close> bytes when the cursor is behind \<^verbatim>\<open>mCurrent\<close>.\<close>

fun find_char :: "char \<Rightarrow> string \<Rightarrow> nat option" where
  "find_char c [] = None"
| "find_char c (x # xs) = (if x = c then Some 0 else map_option Suc (find_char c xs))"

definition LoggerBuffer_popLine :: "logger_buffer \<Rightarrow> (string \<times> logger_buffer) result" where
  "LoggerBuffer_popLine b =
     (if lb_mCursor b = lb_mCapacity b then Inr ([], b)
      else let cursor = lb_mCursor b; rest = drop cursor (lb_mBuffer b);
          sv = takeWhile (\<lambda>c. c \<noteq> CHR 0x00) rest in
        if sv = rest then Inl OutOfBounds
        else case find_char (CHR 0x0A) sv of
          None \<Rightarrow>
            if cursor + LoggerBuffer_getAvail b > lb_mCapacity b then Inl OutOfBounds
            else Inr (take (LoggerBuffer_getAvail b) rest @ [CHR 0x0A], LoggerBuffer_reset b)
        | Some pos \<Rightarrow>
            Inr (take (pos + 1) rest,
              b\<lparr>lb_mBuffer := take cursor (lb_mBuffer b) @ zeros (pos + 1) @ drop (cursor + (pos + 1)) (lb_mBuffer b),
                lb_mCursor := cursor + (pos + 1)\<rparr>))"

text \<open>What a buffer holds, and its invariant while the logger uses it.\<close>

definition buffer_text :: "logger_buffer \<Rightarrow> string" where
  "buffer_text b = take (lb_mCurrent b) (lb_mBuffer b)"

definition buffer_ok :: "logger_buffer \<Rightarrow> bool" where
  "buffer_ok b =
     (lb_mCapacity b = LARGEBUFFERSIZE \<and> length (lb_mBuffer b) = lb_mCapacity b \<and> lb_mCurrent b < lb_mCapacity b)"

lemma LARGEBUFFERSIZE_pos [simp]: "0 < LARGEBUFFERSIZE"
  by (simp add: LARGEBUFFERSIZE_def)

lemma length_zeros [simp]: "length (zeros n) = n"
  by (simp add: zeros_def)

lemma new_LoggerBufferN_ok [simp]: "buffer_ok new_LoggerBufferN" "buffer_text new_LoggerBufferN = []"
  by (simp_all add: buffer_ok_def buffer_text_def new_LoggerBufferN_def new_LoggerBuffer_def
      SUITABLEBUFFSIZE_def LARGEBUFFERSIZE_def)

lemma LoggerBuffer_reset_ok [simp]:
  assumes "buffer_ok b"
  shows "buffer_ok (LoggerBuffer_reset b)" "buffer_text (LoggerBuffer_reset b) = []"
  using assms by (auto simp: buffer_ok_def buffer_text_def LoggerBuffer_reset_def LoggerBuffer_bzero_def)

lemma LoggerBuffer_push_ok:
  assumes "buffer_ok b" and "LoggerBuffer_push msg b = (r, b')"
  shows "buffer_ok b'" "buffer_text b' = (if r then buffer_text b @ msg else buffer_text b)"
    "r \<longleftrightarrow> length (buffer_text b) + length msg < LARGEBUFFERSIZE"
  using assms
  by (auto simp: buffer_ok_def buffer_text_def LoggerBuffer_push_def LoggerBuffer_getAvail_def split: if_splits)

lemma buffer_text_size: "buffer_ok b \<Longrightarrow> take (LoggerBuffer_getSize b) (lb_mBuffer b) = buffer_text b"
  by (simp add: buffer_text_def LoggerBuffer_getSize_def)

lemma buffer_text_length: "buffer_ok b \<Longrightarrow> length (buffer_text b) = lb_mCurrent b"
  by (simp add: buffer_text_def buffer_ok_def)

text \<open>
  The cursor that \<^verbatim>\<open>reset\<close> forgets: of a buffer with one line, the first two calls of \<^verbatim>\<open>popLine\<close>
  return the line and the rest of the buffer, and the third reads beyond the buffer.
\<close>

lemma find_char_zeros [simp]: "takeWhile (\<lambda>c. c \<noteq> CHR 0x00) (zeros n) = []"
  by (cases n) (simp_all add: zeros_def)

lemma popLine_after_reset:
  assumes "buffer_ok b" and "lb_mBuffer b = zeros (lb_mCapacity b)" and "lb_mCurrent b = 0"
    and "0 < lb_mCursor b" and "lb_mCursor b < lb_mCapacity b"
  shows "LoggerBuffer_popLine b = Inl OutOfBounds"
  using assms
  by (simp add: LoggerBuffer_popLine_def Let_def zeros_def LoggerBuffer_getAvail_def takeWhile_eq_Nil_iff)

section \<open>LoggerLine\<close>

text \<open>
  Buffers are passed by \<^verbatim>\<open>unique_ptr\<close>; \<open>None\<close> is the empty pointer, also what \<^verbatim>\<open>std::move\<close> leaves. The
  two queues belong to the logger. A line reaches them through weak pointers: \<open>lock\<close> succeeds when
  the line has been linked and the logger is still there (\<open>qs\<close> is not \<open>None\<close>).
\<close>

type_synonym buffer_ptr = "logger_buffer option"

record log_queues =
  lq_filled :: "buffer_ptr safe_queue"
  lq_empty :: "buffer_ptr safe_queue"

record logger_line =
  ll_A :: buffer_ptr
  ll_B :: buffer_ptr
  ll_linked :: bool

definition new_LoggerLine :: logger_line where
  "new_LoggerLine = \<lparr>ll_A = Some new_LoggerBufferN, ll_B = Some new_LoggerBufferN, ll_linked = False\<rparr>"

definition getBufferPtrQueue :: "logger_line \<Rightarrow> logger_line" where
  "getBufferPtrQueue ln = ln\<lparr>ll_linked := True\<rparr>"

definition lock_queues :: "logger_line \<Rightarrow> log_queues option \<Rightarrow> log_queues option" where
  "lock_queues ln qs = (if ll_linked ln then qs else None)"

definition push_filled :: "buffer_ptr \<Rightarrow> log_queues \<Rightarrow> log_queues" where
  "push_filled p q = q\<lparr>lq_filled := SafeQueue_push p (lq_filled q)\<rparr>"

definition getEmptyBuffer :: "logger_line \<Rightarrow> log_queues option \<Rightarrow> logger_line \<times> log_queues option" where
  "getEmptyBuffer ln qs =
     (if ll_B ln \<noteq> None then (ln, qs)
      else case lock_queues ln qs of
        None \<Rightarrow> (ln, qs)
      | Some q \<Rightarrow>
          (case SafeQueue_pop (lq_empty q) of
             (Some p, e) \<Rightarrow> (ln\<lparr>ll_B := p\<rparr>, Some (q\<lparr>lq_empty := e\<rparr>))
           | (None, e) \<Rightarrow> (ln\<lparr>ll_B := Some new_LoggerBufferN\<rparr>, Some (q\<lparr>lq_empty := e\<rparr>))))"

definition swap_buffers :: "logger_line \<Rightarrow> logger_line" where
  "swap_buffers ln = ln\<lparr>ll_A := ll_B ln, ll_B := ll_A ln\<rparr>"

definition hand_over :: "logger_line \<times> log_queues option \<Rightarrow> logger_line \<times> log_queues option" where
  "hand_over s = (case s of (ln, qs) \<Rightarrow>
     (case lock_queues ln qs of
        None \<Rightarrow> (ln, qs)
      | Some q \<Rightarrow> (ln\<lparr>ll_B := None\<rparr>, Some (push_filled (ll_B ln) q))))"

definition pushToQueue :: "logger_line \<Rightarrow> log_queues option \<Rightarrow> logger_line \<times> log_queues option" where
  "pushToQueue ln qs = (case getEmptyBuffer ln qs of (ln, qs) \<Rightarrow> hand_over (swap_buffers ln, qs))"

definition pushToBuffer ::
  "string \<Rightarrow> logger_line \<Rightarrow> log_queues option \<Rightarrow> (logger_line \<times> log_queues option) result"
where
  "pushToBuffer msg ln qs =
     (case ll_A ln of
        None \<Rightarrow> Inl NullDereference
      | Some a \<Rightarrow>
          (case LoggerBuffer_push msg a of
             (True, a) \<Rightarrow> Inr (ln\<lparr>ll_A := Some a\<rparr>, qs)
           | (False, a) \<Rightarrow>
               (case getEmptyBuffer ln qs of (ln, qs) \<Rightarrow>
                  (let ln = swap_buffers ln in
                   case ll_A ln of
                     None \<Rightarrow> Inl NullDereference
                   | Some b \<Rightarrow> Inr (hand_over (ln\<lparr>ll_A := Some (snd (LoggerBuffer_push msg b))\<rparr>, qs))))))"

text \<open>The destructor hands over what is left, first of the working buffer.\<close>

definition push_rest :: "buffer_ptr \<Rightarrow> log_queues \<Rightarrow> log_queues" where
  "push_rest p q =
     (case p of None \<Rightarrow> q | Some b \<Rightarrow> if LoggerBuffer_empty b then q else push_filled p q)"

definition delete_LoggerLine :: "logger_line \<Rightarrow> log_queues option \<Rightarrow> log_queues option" where
  "delete_LoggerLine ln qs =
     (case lock_queues ln qs of
        None \<Rightarrow> qs
      | Some q \<Rightarrow> Some (push_rest (ll_B ln) (push_rest (ll_A ln) q)))"

section \<open>Invariants of lines and queues\<close>

definition clean_buffer :: "buffer_ptr \<Rightarrow> bool" where
  "clean_buffer p = (\<exists>b. p = Some b \<and> buffer_ok b \<and> buffer_text b = [])"

definition full_buffer :: "buffer_ptr \<Rightarrow> bool" where
  "full_buffer p = (\<exists>b. p = Some b \<and> buffer_ok b)"

definition line_ok :: "logger_line \<Rightarrow> bool" where
  "line_ok ln = (full_buffer (ll_A ln) \<and> (ll_B ln = None \<or> clean_buffer (ll_B ln)))"

definition queues_ok :: "log_queues \<Rightarrow> bool" where
  "queues_ok q = (list_all full_buffer (sq_mData (lq_filled q)) \<and> list_all clean_buffer (sq_mData (lq_empty q)))"

definition ptr_text :: "buffer_ptr \<Rightarrow> string" where
  "ptr_text p = (case p of None \<Rightarrow> [] | Some b \<Rightarrow> buffer_text b)"

text \<open>The text that waits in the queue, and what a line still keeps for itself.\<close>

definition queued_text :: "log_queues \<Rightarrow> string" where
  "queued_text q = concat (map ptr_text (sq_mData (lq_filled q)))"

definition line_text :: "logger_line \<Rightarrow> string" where
  "line_text ln = ptr_text (ll_A ln)"

lemma clean_is_full: "clean_buffer p \<Longrightarrow> full_buffer p"
  by (auto simp: clean_buffer_def full_buffer_def)

lemma clean_text: "clean_buffer p \<Longrightarrow> ptr_text p = []"
  by (auto simp: clean_buffer_def ptr_text_def)

lemma clean_new [simp]: "clean_buffer (Some new_LoggerBufferN)"
  by (simp add: clean_buffer_def)

lemma new_LoggerLine_ok [simp]: "line_ok new_LoggerLine" "line_text new_LoggerLine = []"
  by (simp_all add: line_ok_def line_text_def new_LoggerLine_def full_buffer_def ptr_text_def)

lemma getBufferPtrQueue_sel [simp]:
  "line_ok (getBufferPtrQueue ln) = line_ok ln" "line_text (getBufferPtrQueue ln) = line_text ln"
  "ll_linked (getBufferPtrQueue ln)"
  by (simp_all add: getBufferPtrQueue_def line_ok_def line_text_def)

text \<open>Getting a spare buffer takes a clean one from the queue or makes one.\<close>

lemma getEmptyBuffer_ok:
  assumes "line_ok ln" and "ll_linked ln" and "queues_ok q"
  shows "\<exists>p e. getEmptyBuffer ln (Some q) = (ln\<lparr>ll_B := p\<rparr>, Some (q\<lparr>lq_empty := e\<rparr>)) \<and> clean_buffer p \<and>
    list_all clean_buffer (sq_mData e) \<and> length (sq_mData e) \<le> length (sq_mData (lq_empty q))"
proof (cases "ll_B ln")
  case None
  show ?thesis
  proof (cases "sq_mData (lq_empty q)")
    case Nil
    then show ?thesis using None assms
      by (intro exI [of _ "Some new_LoggerBufferN"] exI [of _ "lq_empty q"])
        (auto simp: getEmptyBuffer_def lock_queues_def SafeQueue_pop_def)
  next
    case (Cons p ps)
    then show ?thesis using None assms
      by (intro exI [of _ p] exI [of _ "lq_empty q\<lparr>sq_mData := ps\<rparr>"])
        (auto simp: getEmptyBuffer_def lock_queues_def SafeQueue_pop_def queues_ok_def)
  qed
next
  case (Some b)
  then show ?thesis
    using assms
    by (intro exI [of _ "ll_B ln"] exI [of _ "lq_empty q"]) (auto simp: getEmptyBuffer_def line_ok_def queues_ok_def)
qed

text \<open>
  One step of a line: what was handed over, followed by what the line keeps, is what it kept before
  followed by the message. The text already queued does not change.
\<close>

lemma hand_over_ok:
  assumes "ll_linked ln" and "full_buffer (ll_A ln)" and "full_buffer (ll_B ln)" and "queues_ok q"
  shows "\<exists>ln' q'. hand_over (ln, Some q) = (ln', Some q') \<and> ll_linked ln' \<and> line_ok ln' \<and> queues_ok q' \<and>
    lq_empty q' = lq_empty q \<and> queued_text q' = queued_text q @ ptr_text (ll_B ln) \<and>
    sq_mData (lq_filled q') = sq_mData (lq_filled q) @ [ll_B ln] \<and> line_text ln' = ptr_text (ll_A ln)"
  using assms
  by (simp add: hand_over_def lock_queues_def push_filled_def SafeQueue_push_def line_ok_def queues_ok_def
      queued_text_def line_text_def)

lemma queues_ok_empty:
  "queues_ok q \<Longrightarrow> list_all clean_buffer (sq_mData e) \<Longrightarrow> queues_ok (q\<lparr>lq_empty := e\<rparr>)"
  by (simp add: queues_ok_def)

lemma queued_text_empty [simp]: "queued_text (q\<lparr>lq_empty := e\<rparr>) = queued_text q"
  by (simp add: queued_text_def)

definition line_step_ok :: "string \<Rightarrow> logger_line \<Rightarrow> log_queues \<Rightarrow> logger_line \<Rightarrow> log_queues \<Rightarrow> bool" where
  "line_step_ok msg ln q ln' q' =
     (ll_linked ln' \<and> line_ok ln' \<and> queues_ok q' \<and>
      length (sq_mData (lq_empty q')) \<le> length (sq_mData (lq_empty q)) \<and>
      (\<exists>chunk. queued_text q' = queued_text q @ chunk \<and> chunk @ line_text ln' = line_text ln @ msg))"

lemma pushToQueue_ok:
  assumes "line_ok ln" and "ll_linked ln" and "queues_ok q"
  shows "\<exists>ln' q'. pushToQueue ln (Some q) = (ln', Some q') \<and> line_step_ok [] ln q ln' q' \<and> line_text ln' = []"
proof -
  obtain p e where e: "getEmptyBuffer ln (Some q) = (ln\<lparr>ll_B := p\<rparr>, Some (q\<lparr>lq_empty := e\<rparr>))" "clean_buffer p"
    "list_all clean_buffer (sq_mData e)" "length (sq_mData e) \<le> length (sq_mData (lq_empty q))"
    using getEmptyBuffer_ok [OF assms] by blast
  let ?ln = "swap_buffers (ln\<lparr>ll_B := p\<rparr>)"
  have "ll_linked ?ln" "full_buffer (ll_A ?ln)" "full_buffer (ll_B ?ln)" "ll_B ?ln = ll_A ln" "ll_A ?ln = p"
    using assms e(2) clean_is_full by (simp_all add: swap_buffers_def line_ok_def)
  with hand_over_ok [of ?ln "q\<lparr>lq_empty := e\<rparr>"] queues_ok_empty [OF assms(3) e(3)] show ?thesis
    using e(1,2,4) by (auto simp: pushToQueue_def line_step_ok_def line_text_def clean_text)
qed

lemma pushToBuffer_ok:
  assumes "line_ok ln" and "ll_linked ln" and "queues_ok q" and "length msg < LARGEBUFFERSIZE"
  shows "\<exists>ln' q'. pushToBuffer msg ln (Some q) = Inr (ln', Some q') \<and> line_step_ok msg ln q ln' q'"
proof -
  obtain a where a: "ll_A ln = Some a" "buffer_ok a" using assms(1) by (auto simp: line_ok_def full_buffer_def)
  obtain r a' where r: "LoggerBuffer_push msg a = (r, a')" by fastforce
  note pushed = LoggerBuffer_push_ok [OF a(2) r]
  show ?thesis
  proof (cases r)
    case True
    then show ?thesis
      using a r pushed assms
      by (auto simp: pushToBuffer_def line_step_ok_def line_ok_def full_buffer_def line_text_def ptr_text_def)
  next
    case False
    obtain p e where e: "getEmptyBuffer ln (Some q) = (ln\<lparr>ll_B := p\<rparr>, Some (q\<lparr>lq_empty := e\<rparr>))" "clean_buffer p"
      "list_all clean_buffer (sq_mData e)" "length (sq_mData e) \<le> length (sq_mData (lq_empty q))"
      using getEmptyBuffer_ok [OF assms(1-3)] by blast
    obtain b where b: "p = Some b" "buffer_ok b" "buffer_text b = []" using e(2) by (auto simp: clean_buffer_def)
    obtain r' b' where r': "LoggerBuffer_push msg b = (r', b')" by fastforce
    note pushed' = LoggerBuffer_push_ok [OF b(2) r']
    have "r'" "buffer_text b' = msg" "buffer_ok b'" using pushed' b(3) assms(4) by auto
    let ?ln = "(swap_buffers (ln\<lparr>ll_B := p\<rparr>))\<lparr>ll_A := Some b'\<rparr>"
    have "ll_linked ?ln" "full_buffer (ll_A ?ln)" "full_buffer (ll_B ?ln)" "ll_B ?ln = Some a"
      using assms(2) a \<open>buffer_ok b'\<close> by (simp_all add: swap_buffers_def full_buffer_def)
    with hand_over_ok [of ?ln "q\<lparr>lq_empty := e\<rparr>"] queues_ok_empty [OF assms(3) e(3)] show ?thesis
      using False a b r r' e(1,4) \<open>buffer_text b' = msg\<close>
      by (auto simp: pushToBuffer_def line_step_ok_def line_text_def ptr_text_def swap_buffers_def Let_def)
  qed
qed

text \<open>
  A message that does not fit into an empty buffer is dropped without a word: the buffers are
  exchanged, the second push fails like the first, and its result is not looked at.
\<close>

lemma pushToBuffer_long:
  assumes "line_ok ln" and "ll_linked ln" and "queues_ok q" and "LARGEBUFFERSIZE \<le> length msg"
  shows "\<exists>ln' q'. pushToBuffer msg ln (Some q) = Inr (ln', Some q') \<and> line_step_ok [] ln q ln' q' \<and> line_text ln' = []"
proof -
  obtain a where a: "ll_A ln = Some a" "buffer_ok a" using assms(1) by (auto simp: line_ok_def full_buffer_def)
  have refused: "LoggerBuffer_push msg b = (False, b)" if "buffer_ok b" for b
    using that assms(4) by (auto simp: LoggerBuffer_push_def LoggerBuffer_getAvail_def buffer_ok_def)
  obtain p e where e: "getEmptyBuffer ln (Some q) = (ln\<lparr>ll_B := p\<rparr>, Some (q\<lparr>lq_empty := e\<rparr>))" "clean_buffer p"
    using getEmptyBuffer_ok [OF assms(1-3)] by blast
  then obtain b where b: "p = Some b" "buffer_ok b" by (auto simp: clean_buffer_def)
  have "pushToBuffer msg ln (Some q) = Inr (pushToQueue ln (Some q))"
    using a b e(1) refused by (cases ln) (simp add: pushToBuffer_def pushToQueue_def swap_buffers_def Let_def)
  then show ?thesis using pushToQueue_ok [OF assms(1-3)] by simp
qed

end
