(* ===== verification/Logger_File.thy ===== *)
theory Logger_File
  imports Logger_Buffer
begin

text \<open>
  \<^verbatim>\<open>Base/utility/LoggerFile.{h,cpp}\<close>: the current log file, its size limit and the loop that writes a
  buffer into it. The operating system is an argument: \<open>fs log call\<close> is what it returns for \<open>call\<close>
  after the calls in \<open>log\<close>, and the calls made are part of every result.
\<close>

section \<open>System calls\<close>

datatype fs_call =
    FS_open string | FS_write int string | FS_close int | FS_fdatasync int
  | FS_ftruncate int nat | FS_fstat int | FS_create_directories string | FS_exists string

type_synonym fs_log = "(fs_call \<times> int) list"
type_synonym fs = "fs_log \<Rightarrow> fs_call \<Rightarrow> int"

definition sys_call :: "fs_call \<Rightarrow> fs \<Rightarrow> fs_log \<Rightarrow> int \<times> fs_log" where
  "sys_call c fs log = (fs log c, log @ [(c, fs log c)])"

text \<open>Where the process runs: name, number, directory and the clock as \<^verbatim>\<open>getRough\<close> prints it.\<close>

record log_env =
  le_fs :: fs
  le_pname :: string
  le_pid :: nat
  le_cwd :: string
  le_rough :: "fs_log \<Rightarrow> string"

section \<open>LoggerFile\<close>

record log_file =
  lf_mFd :: int
  lf_mOldFd :: int
  lf_TID :: string
  lf_mNo :: nat
  lf_mLogFileName :: string
  lf_mFileSizeLimite :: nat
  lf_mCurrDataSize :: nat
  lf_mPath :: string
  lf_mRunning :: bool

definition new_LoggerFile :: log_file where
  "new_LoggerFile =
     \<lparr>lf_mFd = -1, lf_mOldFd = -1, lf_TID = [], lf_mNo = 1, lf_mLogFileName = [], lf_mFileSizeLimite = 0,
      lf_mCurrDataSize = 0, lf_mPath = [], lf_mRunning = True\<rparr>"

definition LoggerFile_threadID :: "nat \<Rightarrow> log_file \<Rightarrow> string \<times> log_file" where
  "LoggerFile_threadID tid f = (decimal tid, f\<lparr>lf_TID := decimal tid\<rparr>)"

definition POSTFIX :: string where "POSTFIX = ''.log''"

text \<open>The two calls of \<^verbatim>\<open>std::filesystem\<close> answer 1, 0 or throw (-1). When the directory cannot be had,
  the path becomes the current directory, without a slash at its end.\<close>

definition createCustomLogPath ::
  "log_env \<Rightarrow> string \<Rightarrow> log_file \<Rightarrow> fs_log \<Rightarrow> (bool \<times> log_file) result \<times> fs_log"
where
  "createCustomLogPath env logPath f log =
     (if logPath = [] then (Inl OutOfBounds, log)
      else let logPath = (if last logPath = CHR 0x2F then logPath else logPath @ [CHR 0x2F]);
               f = f\<lparr>lf_mPath := logPath\<rparr>;
               (made, log) = sys_call (FS_create_directories logPath) (le_fs env) log in
        if made < 0 then (Inl FilesystemError, log)
        else if made > 0 then (Inr (True, f), log)
        else let (there, log) = sys_call (FS_exists logPath) (le_fs env) log in
          if there < 0 then (Inl FilesystemError, log)
          else if there > 0 then (Inr (True, f), log)
          else (Inr (False, f\<lparr>lf_mPath := le_cwd env\<rparr>), log))"

definition createDefaultLogPath ::
  "log_env \<Rightarrow> log_file \<Rightarrow> fs_log \<Rightarrow> log_file result \<times> fs_log"
where
  "createDefaultLogPath env f log =
     (if lf_mPath f = []
      then and_then (createCustomLogPath env (le_cwd env @ ''/log/'') f log) (\<lambda>(_, f) log. (Inr f, log))
      else (Inr f, log))"

definition generateAbsoluteLogPathName :: "log_env \<Rightarrow> log_file \<Rightarrow> fs_log \<Rightarrow> string \<times> log_file" where
  "generateAbsoluteLogPathName env f log =
     (let name = le_pname env @ ''['' @ decimal (le_pid env) @ ''-'' @ decimal (lf_mNo f) @ '']'' @
                 le_rough env log @ POSTFIX in
      (lf_mPath f @ name, f\<lparr>lf_mLogFileName := name\<rparr>))"

definition createLogFile :: "log_env \<Rightarrow> log_file \<Rightarrow> fs_log \<Rightarrow> int \<times> log_file \<times> fs_log" where
  "createLogFile env f log =
     (let (path, f) = generateAbsoluteLogPathName env f log;
          f = f\<lparr>lf_mOldFd := lf_mFd f\<rparr>;
          (fd, log) = sys_call (FS_open path) (le_fs env) log;
          f = f\<lparr>lf_mFd := fd\<rparr> in
      if fd \<noteq> -1 then (fd, f\<lparr>lf_mCurrDataSize := 0, lf_mNo := wrap64 (lf_mNo f + 1)\<rparr>, log)
      else (fd, f, log))"

definition available :: "log_file \<Rightarrow> bool" where
  "available f = (lf_mFd f \<noteq> -1)"

definition setFileSizeWithHole :: "nat \<Rightarrow> fs \<Rightarrow> log_file \<Rightarrow> fs_log \<Rightarrow> bool \<times> fs_log" where
  "setFileSizeWithHole sz fs f log =
     (case sys_call (FS_ftruncate (lf_mFd f) sz) fs log of (res, log) \<Rightarrow> (res = 0, log))"

text \<open>\<^verbatim>\<open>fstat\<close> answers the size here, or -1, which becomes the largest \<^verbatim>\<open>size_t\<close>.\<close>

definition getFileSize :: "fs \<Rightarrow> log_file \<Rightarrow> fs_log \<Rightarrow> nat \<times> fs_log" where
  "getFileSize fs f log =
     (case sys_call (FS_fstat (lf_mFd f)) fs log of (res, log) \<Rightarrow> (if res = -1 then 2 ^ 64 - 1 else nat res, log))"

definition setFileSizeLimite :: "nat \<Rightarrow> log_file \<Rightarrow> log_file" where
  "setFileSizeLimite sz f = f\<lparr>lf_mFileSizeLimite := sz\<rparr>"

definition closeOld :: "fs \<Rightarrow> log_file \<Rightarrow> fs_log \<Rightarrow> fs_log" where
  "closeOld fs f log = snd (sys_call (FS_close (lf_mOldFd f)) fs log)"

definition LoggerFile_close :: "fs \<Rightarrow> log_file \<Rightarrow> fs_log \<Rightarrow> log_file \<times> fs_log" where
  "LoggerFile_close fs f log = (f\<lparr>lf_mRunning := False\<rparr>, snd (sys_call (FS_close (lf_mFd f)) fs log))"

text \<open>
  The loop of \<^verbatim>\<open>archive\<close>. It always writes from the start of \<open>buff\<close>; only the number of bytes
  shrinks. \<^verbatim>\<open>write\<close> never returns more than it was given; were it to, the loop of the model stops.
\<close>

function archive_loop ::
  "fs \<Rightarrow> bool \<Rightarrow> string \<Rightarrow> nat \<Rightarrow> log_file \<Rightarrow> fs_log \<Rightarrow> log_file \<times> fs_log"
where
  "archive_loop fs sync buff sent f log =
     (if \<not> lf_mRunning f then (f, log)
      else let remain = length buff - sent; sz = fs log (FS_write (lf_mFd f) (take remain buff));
               log = log @ [(FS_write (lf_mFd f) (take remain buff), sz)] in
        if sz \<le> 0 \<or> sz > int remain then (f, log)
        else archive_loop fs sync buff (sent + nat sz) (f\<lparr>lf_mCurrDataSize := wrap64 (lf_mCurrDataSize f + nat sz)\<rparr>)
               (if sync then snd (sys_call (FS_fdatasync (lf_mFd f)) fs log) else log))"
  by pat_completeness auto
termination by (relation "measure (\<lambda>(fs, sync, buff, sent, f, log). length buff - sent)") auto

declare archive_loop.simps [simp del]

definition LoggerFile_archive ::
  "fs \<Rightarrow> string \<Rightarrow> bool \<Rightarrow> log_file \<Rightarrow> fs_log \<Rightarrow> bool \<times> log_file \<times> fs_log"
where
  "LoggerFile_archive fs buff sync f log =
     (if wrap64 (lf_mCurrDataSize f + length buff) > lf_mFileSizeLimite f then (False, f, log)
      else (True, archive_loop fs sync buff 0 f log))"

section \<open>What reaches the files\<close>

text \<open>The bytes written, in the order of the calls, and the number of them since the last file was opened.\<close>

fun written :: "fs_log \<Rightarrow> string" where
  "written [] = []"
| "written ((FS_write fd buff, sz) # log) = take (nat sz) buff @ written log"
| "written (_ # log) = written log"

fun size_step :: "fs_call \<times> int \<Rightarrow> nat \<Rightarrow> nat" where
  "size_step (FS_open path, fd) n = (if fd = -1 then n else 0)"
| "size_step (FS_write fd buff, sz) n = n + nat sz"
| "size_step _ n = n"

definition bytes_in_file :: "fs_log \<Rightarrow> nat" where
  "bytes_in_file log = fold size_step log 0"

definition files_bounded :: "nat \<Rightarrow> fs_log \<Rightarrow> bool" where
  "files_bounded limit log = (\<forall>k. bytes_in_file (take k log) \<le> limit)"

lemma written_append [simp]: "written (xs @ ys) = written xs @ written ys"
  by (induction xs rule: written.induct) simp_all

lemma bytes_in_file_append [simp]: "bytes_in_file (log @ cs) = fold size_step cs (bytes_in_file log)"
  by (simp add: bytes_in_file_def)

lemma files_bounded_snoc:
  "files_bounded limit (log @ [c]) \<longleftrightarrow> files_bounded limit log \<and> bytes_in_file (log @ [c]) \<le> limit"
proof
  assume b: "files_bounded limit (log @ [c])"
  have "bytes_in_file (take k log) \<le> limit" for k
  proof (cases "k \<le> length log")
    case True
    then show ?thesis using b [unfolded files_bounded_def, rule_format, of k] by simp
  next
    case False
    then show ?thesis using b [unfolded files_bounded_def, rule_format, of "length log"] by simp
  qed
  then show "files_bounded limit log \<and> bytes_in_file (log @ [c]) \<le> limit"
    using b [unfolded files_bounded_def, rule_format, of "length log + 1"] by (simp add: files_bounded_def)
next
  assume a: "files_bounded limit log \<and> bytes_in_file (log @ [c]) \<le> limit"
  then have "bytes_in_file (take k (log @ [c])) \<le> limit" for k
    by (cases "k \<le> length log") (auto simp: files_bounded_def take_Cons')
  then show "files_bounded limit (log @ [c])" by (simp add: files_bounded_def)
qed

lemma files_bounded_now: "files_bounded limit log \<Longrightarrow> bytes_in_file log \<le> limit"
  unfolding files_bounded_def by (metis order_refl take_all)

lemma files_bounded_quiet:
  "(\<And>c n. c \<in> set cs \<Longrightarrow> size_step c n = n) \<Longrightarrow>
   files_bounded limit (log @ cs) = files_bounded limit log \<and> bytes_in_file (log @ cs) = bytes_in_file log"
proof (induction cs rule: rev_induct)
  case Nil
  then show ?case by simp
next
  case (snoc c cs)
  then have ih: "files_bounded limit (log @ cs) = files_bounded limit log" "bytes_in_file (log @ cs) = bytes_in_file log"
    by auto
  have "bytes_in_file ((log @ cs) @ [c]) = bytes_in_file log" using ih(2) snoc.prems by simp
  then show ?case using ih files_bounded_snoc [of limit "log @ cs" c] files_bounded_now by auto
qed

text \<open>What every \<^verbatim>\<open>write\<close> keeps: at most the bytes it was given; a negative result is an error.\<close>

definition writes_at_most :: "fs \<Rightarrow> bool" where
  "writes_at_most fs = (\<forall>log fd buff. fs log (FS_write fd buff) \<le> int (length buff))"

text \<open>And what it does to a file while nothing goes wrong: it takes everything.\<close>

definition writes_all :: "fs \<Rightarrow> bool" where
  "writes_all fs =
     (\<forall>log fd buff. fs log (FS_write fd buff) = int (length buff) \<and> (\<forall>path. fs log (FS_open path) \<noteq> -1))"

definition file_ok :: "log_file \<Rightarrow> fs_log \<Rightarrow> bool" where
  "file_ok f log =
     (lf_mCurrDataSize f = bytes_in_file log \<and> bytes_in_file log \<le> lf_mFileSizeLimite f \<and>
      lf_mFileSizeLimite f < 2 ^ 63)"

text \<open>The three ways through one round of the loop.\<close>

definition write_call :: "string \<Rightarrow> nat \<Rightarrow> log_file \<Rightarrow> fs_call" where
  "write_call buff sent f = FS_write (lf_mFd f) (take (length buff - sent) buff)"

definition count_bytes :: "nat \<Rightarrow> log_file \<Rightarrow> log_file" where
  "count_bytes k f = f\<lparr>lf_mCurrDataSize := wrap64 (lf_mCurrDataSize f + k)\<rparr>"

definition note_write :: "fs \<Rightarrow> bool \<Rightarrow> log_file \<Rightarrow> fs_call \<Rightarrow> int \<Rightarrow> fs_log \<Rightarrow> fs_log" where
  "note_write fs sync f c sz log =
     (if sync then snd (sys_call (FS_fdatasync (lf_mFd f)) fs (log @ [(c, sz)])) else log @ [(c, sz)])"

lemma count_bytes_sel [simp]:
  "lf_mFd (count_bytes k f) = lf_mFd f" "lf_mRunning (count_bytes k f) = lf_mRunning f"
  "lf_mFileSizeLimite (count_bytes k f) = lf_mFileSizeLimite f"
  "lf_mCurrDataSize (count_bytes k f) = wrap64 (lf_mCurrDataSize f + k)"
  by (simp_all add: count_bytes_def)

lemma note_write_effect [simp]:
  "written (note_write fs sync f (FS_write fd b) sz log) = written log @ take (nat sz) b"
  "bytes_in_file (note_write fs sync f (FS_write fd b) sz log) = bytes_in_file log + nat sz"
  "\<exists>cs. note_write fs sync f c sz log = log @ cs"
  by (simp_all add: note_write_def sys_call_def)

lemma archive_loop_step:
  assumes "lf_mRunning f" and "fs log (write_call buff sent f) = sz" and "0 < sz" and "sz \<le> int (length buff - sent)"
  shows "archive_loop fs sync buff sent f log =
    archive_loop fs sync buff (sent + nat sz) (count_bytes (nat sz) f) (note_write fs sync f (write_call buff sent f) sz log)"
proof -
  have "sent < length buff" using assms(3,4) by simp
  then show ?thesis
    using assms
    by (subst archive_loop.simps) (auto simp: Let_def write_call_def count_bytes_def note_write_def)
qed

lemma archive_loop_stop:
  assumes "\<not> lf_mRunning f \<or> fs log (write_call buff sent f) \<le> 0"
  shows "archive_loop fs sync buff sent f log =
    (f, if lf_mRunning f then log @ [(write_call buff sent f, fs log (write_call buff sent f))] else log)"
  using assms by (subst archive_loop.simps) (simp add: Let_def write_call_def)

lemma write_call_small:
  "writes_at_most fs \<Longrightarrow> fs log (write_call buff sent f) \<le> int (length buff - sent)"
  unfolding writes_at_most_def write_call_def by (metis length_take min.cobounded2 of_nat_le_iff order_trans)

lemma archive_loop_bytes:
  assumes "writes_at_most fs" and "limit < 2 ^ 63"
  shows "archive_loop fs sync buff sent f log = (f', log') \<Longrightarrow> lf_mCurrDataSize f = bytes_in_file log \<Longrightarrow>
   bytes_in_file log + (length buff - sent) \<le> limit \<Longrightarrow> files_bounded limit log \<Longrightarrow>
   files_bounded limit log' \<and> lf_mCurrDataSize f' = bytes_in_file log' \<and> bytes_in_file log' \<le> limit \<and>
   lf_mFileSizeLimite f' = lf_mFileSizeLimite f \<and> lf_mRunning f' = lf_mRunning f"
proof (induction "length buff - sent" arbitrary: sent f log rule: less_induct)
  case less
  show ?case
  proof (cases "\<not> lf_mRunning f \<or> fs log (write_call buff sent f) \<le> 0")
    case True
    then show ?thesis using less.prems by (auto simp: archive_loop_stop write_call_def files_bounded_snoc)
  next
    case False
    then have step: "lf_mRunning f" by simp
    define k where "k = nat (fs log (write_call buff sent f))"
    have k: "0 < k" "k \<le> length buff - sent" "fs log (write_call buff sent f) = int k"
      using False write_call_small [OF assms(1), of log buff sent f] by (auto simp: k_def)
    let ?log = "note_write fs sync f (write_call buff sent f) (int k) log"
    have bytes: "bytes_in_file ?log = bytes_in_file log + k" by (simp add: write_call_def)
    have "files_bounded limit (log @ [(write_call buff sent f, int k)])"
      using less.prems(3,4) k(2) by (simp add: files_bounded_snoc write_call_def)
    then have "files_bounded limit ?log"
      using less.prems(3) k(2) files_bounded_snoc [of limit "log @ [(write_call buff sent f, int k)]"]
      by (auto simp: note_write_def sys_call_def write_call_def)
    moreover have "lf_mCurrDataSize (count_bytes k f) = bytes_in_file ?log"
      using less.prems(2,3) k(2) bytes assms(2) by simp
    moreover have "archive_loop fs sync buff (sent + k) (count_bytes k f) ?log = (f', log')"
      using less.prems(1) archive_loop_step [where fs = fs and log = log, OF step k(3)] k(1,2) by simp
    moreover have "bytes_in_file ?log + (length buff - (sent + k)) \<le> limit" using less.prems(3) k bytes by simp
    ultimately show ?thesis using less.hyps [of "sent + k" "count_bytes k f" ?log] k(1,2) by simp
  qed
qed

text \<open>When the writes from now on take everything, one round writes the rest and the next nothing.\<close>

lemma archive_loop_rest:
  assumes "\<And>cs b. fs (log @ cs) (FS_write (lf_mFd f) b) = int (length b)" and "lf_mRunning f"
    and "sent \<le> length buff" and "archive_loop fs sync buff sent f log = (f', log')"
  shows "written log' = written log @ take (length buff - sent) buff"
proof (cases "sent = length buff")
  case True
  then show ?thesis
    using assms(1) [of "[]"] assms(2,4) archive_loop_stop [of f fs log buff sent sync] by (auto simp: write_call_def)
next
  case False
  define k where "k = length buff - sent"
  have k: "0 < k" "k \<le> length buff - sent" "sent + k = length buff" using False assms(3) by (simp_all add: k_def)
  have now: "fs log (write_call buff sent f) = int k" using assms(1) [of "[]"] by (simp add: write_call_def k_def)
  obtain cs where cs: "note_write fs sync f (write_call buff sent f) (int k) log = log @ cs"
    using note_write_effect(3) by blast
  have "archive_loop fs sync buff (length buff) (count_bytes k f) (log @ cs) = (f', log')"
    using archive_loop_step [where fs = fs and log = log, OF assms(2) now] k assms(4) cs by simp
  then have "written log' = written (log @ cs)"
    using assms(1) [of cs] assms(2) archive_loop_stop [of "count_bytes k f" fs "log @ cs" buff "length buff" sync]
    by (auto simp: write_call_def)
  then show ?thesis by (simp add: cs [symmetric] write_call_def k_def)
qed

lemma archive_loop_all:
  assumes "writes_all fs" and "lf_mRunning f" and "archive_loop fs sync buff 0 f log = (f', log')"
  shows "written log' = written log @ buff"
  using archive_loop_rest [OF _ assms(2) _ assms(3)] assms(1) by (simp add: writes_all_def)

text \<open>
  A write that takes only \<open>k\<close> bytes makes the file wrong: the next write starts at the beginning of
  the buffer again, so the first bytes are there twice and the last ones are not there at all.
\<close>

theorem short_write_garbles:
  assumes "lf_mRunning f" and "0 < k" and "k < length buff" and "fs log (FS_write (lf_mFd f) buff) = int k"
    and "\<And>log' b. log' \<noteq> log \<Longrightarrow> fs log' (FS_write (lf_mFd f) b) = int (length b)"
    and "LoggerFile_archive fs buff sync f log = (True, f', log')"
  shows "written log' = written log @ take k buff @ take (length buff - k) buff"
proof -
  let ?log = "note_write fs sync f (write_call buff 0 f) (int k) log"
  have loop: "archive_loop fs sync buff 0 f log = (f', log')"
    using assms(6) by (simp add: LoggerFile_archive_def split: if_splits)
  have now: "fs log (write_call buff 0 f) = int k" using assms(4) by (simp add: write_call_def)
  have rest: "archive_loop fs sync buff k (count_bytes k f) ?log = (f', log')"
    using archive_loop_step [where fs = fs and log = log, OF assms(1) now] assms(2,3) loop by simp
  have "?log @ cs \<noteq> log" for cs by (simp add: note_write_def sys_call_def)
  then have "written log' = written ?log @ take (length buff - k) buff"
    using archive_loop_rest [OF _ _ _ rest] assms(1,3,5) by simp
  then show ?thesis by (simp add: write_call_def)
qed

theorem short_write_garbles_witness:
  "\<exists>f' log'. LoggerFile_archive (\<lambda>log c. case c of FS_write _ b \<Rightarrow> if log = [] then 2 else int (length b) | _ \<Rightarrow> 0)
      ''abc'' False (new_LoggerFile\<lparr>lf_mFileSizeLimite := 100\<rparr>) [] = (True, f', log') \<and> written log' = ''aba''"
proof -
  let ?fs = "\<lambda>log c. case c of FS_write _ b \<Rightarrow> if log = [] then 2 else int (length b) | _ \<Rightarrow> 0"
  let ?f = "new_LoggerFile\<lparr>lf_mFileSizeLimite := 100\<rparr>"
  obtain f' log' where r: "LoggerFile_archive ?fs ''abc'' False ?f [] = (True, f', log')"
    by (cases "archive_loop ?fs False ''abc'' 0 ?f []") (auto simp: LoggerFile_archive_def new_LoggerFile_def)
  then have "written log' = ''aba''"
    using short_write_garbles [of ?f 2 "''abc''" ?fs "[]" False f' log'] by (simp add: new_LoggerFile_def)
  then show ?thesis using r by blast
qed

end
