(* ===== verification/Logger_Core.thy ===== *)
theory Logger_Core
  imports Logger_File Safe_Hashmap Wheel_Timer
begin

text \<open>
  \<^verbatim>\<open>Base/utility/Logger.{h,cpp}\<close> and \<^verbatim>\<open>LoggerMessage.{h,cpp}\<close>: the table of the lines of the threads,
  the background thread that writes full buffers to the log file and, when the timer has run out,
  first collects what the threads have written so far, and the log statements of the servers.
  The lines are objects of a store, so that the table and the owner of a registered line share
  them. The timer calls \<open>notify\<close>, which stands for \<^verbatim>\<open>timeoutNotify\<close> of this logger.
\<close>

section \<open>The logger\<close>

type_synonym tid = nat

record 'f logger =
  lg_mCurrentLoggerFile :: log_file
  lg_mFileSizeLimite :: nat
  lg_mSync :: bool
  lg_mRunning :: bool
  lg_mTimeoutSeconds :: nat
  lg_mTimeout :: bool
  lg_mTimerTaskID :: string
  lg_mTimeWheelTimerWeak :: "'f wheel_timer option"
  lg_queues :: log_queues
  lg_mLoggerLineHashtable :: "(tid, nat) safe_hashmap"
  lg_mThreadIDHashset :: "tid list"
  lg_mStandbyQueueMax :: nat
  lg_lines :: "nat \<rightharpoonup> logger_line"
  lg_next :: nat

definition new_Logger :: "(tid \<Rightarrow> nat) \<Rightarrow> 'f logger" where
  "new_Logger hash =
     \<lparr>lg_mCurrentLoggerFile = new_LoggerFile, lg_mFileSizeLimite = 1024 * 1024, lg_mSync = False,
      lg_mRunning = True, lg_mTimeoutSeconds = 5, lg_mTimeout = False, lg_mTimerTaskID = [],
      lg_mTimeWheelTimerWeak = None, lg_queues = \<lparr>lq_filled = new_SafeQueue, lq_empty = new_SafeQueue\<rparr>,
      lg_mLoggerLineHashtable = new_SafeHashmap 1031 hash, lg_mThreadIDHashset = [], lg_mStandbyQueueMax = 16,
      lg_lines = Map.empty, lg_next = 0\<rparr>"

definition Logger_customPath ::
  "log_env \<Rightarrow> string \<Rightarrow> 'f logger \<Rightarrow> fs_log \<Rightarrow> (bool \<times> 'f logger) result \<times> fs_log"
where
  "Logger_customPath env logPath lg log =
     and_then (createCustomLogPath env logPath (lg_mCurrentLoggerFile lg) log) (\<lambda>(made, f) log.
       (Inr (made, lg\<lparr>lg_mCurrentLoggerFile := f\<rparr>), log))"

definition setStandbyQueueMax :: "nat \<Rightarrow> 'f logger \<Rightarrow> 'f logger" where
  "setStandbyQueueMax num lg = lg\<lparr>lg_mStandbyQueueMax := num\<rparr>"

definition Logger_setFileSizeLimite :: "nat \<Rightarrow> 'f logger \<Rightarrow> 'f logger" where
  "Logger_setFileSizeLimite sz lg = lg\<lparr>lg_mFileSizeLimite := sz\<rparr>"

text \<open>\<^verbatim>\<open>isFull\<close> compares what \<^verbatim>\<open>fstat\<close> says with the limit of the file.\<close>

definition Logger_isFull :: "fs \<Rightarrow> 'f logger \<Rightarrow> fs_log \<Rightarrow> bool \<times> fs_log" where
  "Logger_isFull fs lg log =
     (case getFileSize fs (lg_mCurrentLoggerFile lg) log of
        (sz, log) \<Rightarrow> (sz \<ge> lf_mFileSizeLimite (lg_mCurrentLoggerFile lg), log))"

definition Logger_createFile :: "log_env \<Rightarrow> 'f logger \<Rightarrow> fs_log \<Rightarrow> int \<times> 'f logger \<times> fs_log" where
  "Logger_createFile env lg log =
     (case createLogFile env (lg_mCurrentLoggerFile lg) log of (fd, f, log) \<Rightarrow>
        let f = (if fd \<noteq> -1 then setFileSizeLimite (lg_mFileSizeLimite lg) f else f) in
        (fd, lg\<lparr>lg_mCurrentLoggerFile := f\<rparr>, log))"

definition add_timer_task :: "'f timer_task \<Rightarrow> 'f logger \<Rightarrow> 'f logger" where
  "add_timer_task tt lg = lg\<lparr>lg_mTimeWheelTimerWeak := map_option (addTask tt) (lg_mTimeWheelTimerWeak lg)\<rparr>"

definition Logger_setTimer :: "'f \<Rightarrow> string \<Rightarrow> 'f logger \<Rightarrow> 'f logger" where
  "Logger_setTimer notify ident lg =
     (add_timer_task (new_TimerTask 0 0 (lg_mTimeoutSeconds lg) (-1) ident (Some notify)) lg)
       \<lparr>lg_mTimerTaskID := ident\<rparr>"

definition Logger_cancelTimer :: "'f logger \<Rightarrow> 'f logger" where
  "Logger_cancelTimer lg =
     (if lg_mTimerTaskID lg = [] then lg
      else add_timer_task
        \<lparr>tt_Hours = 0, tt_Minutes = 0, tt_Seconds = 0, mCycleNumber = 0, mID = lg_mTimerTaskID lg, mTask = None\<rparr> lg)"

text \<open>A smaller size than the default is raised to the default.\<close>

definition init_settings ::
  "'f \<Rightarrow> 'f wheel_timer option \<Rightarrow> nat \<Rightarrow> string \<Rightarrow> nat \<Rightarrow> bool \<Rightarrow> 'f logger \<Rightarrow> 'f logger"
where
  "init_settings notify twTimer timerSecs timerID fileSize sync lg =
     (let lg = Logger_setTimer notify timerID (lg\<lparr>lg_mTimeWheelTimerWeak := twTimer, lg_mTimeoutSeconds := timerSecs\<rparr>) in
      lg\<lparr>lg_mFileSizeLimite := (if fileSize < lg_mFileSizeLimite lg then lg_mFileSizeLimite lg else fileSize),
         lg_mSync := sync\<rparr>)"

definition Logger_init ::
  "log_env \<Rightarrow> 'f \<Rightarrow> 'f wheel_timer option \<Rightarrow> nat \<Rightarrow> string \<Rightarrow> nat \<Rightarrow> bool \<Rightarrow> 'f logger \<Rightarrow> fs_log \<Rightarrow>
   (bool \<times> 'f logger) result \<times> fs_log"
where
  "Logger_init env notify twTimer timerSecs timerID fileSize sync lg log =
     (let lg = init_settings notify twTimer timerSecs timerID fileSize sync lg in
      and_then (createDefaultLogPath env (lg_mCurrentLoggerFile lg) log) (\<lambda>f log.
        case Logger_createFile env (lg\<lparr>lg_mCurrentLoggerFile := f\<rparr>) log of (fd, lg, log) \<Rightarrow>
          if fd < 0 then (Inr (False, lg\<lparr>lg_mRunning := False\<rparr>), log) else (Inr (True, lg), log)))"

section \<open>The lines of the threads\<close>

text \<open>A line changes together with the queues of the logger.\<close>

definition on_line ::
  "nat \<Rightarrow> (logger_line \<Rightarrow> log_queues option \<Rightarrow> (logger_line \<times> log_queues option) result) \<Rightarrow> 'f logger \<Rightarrow> 'f logger result"
where
  "on_line a f lg =
     (case lg_lines lg a of
        None \<Rightarrow> Inl UseAfterFree
      | Some ln \<Rightarrow> rbind (f ln (Some (lg_queues lg))) (\<lambda>(ln, qs).
          Inr (lg\<lparr>lg_lines := (lg_lines lg)(a \<mapsto> ln),
                  lg_queues := (case qs of Some q \<Rightarrow> q | None \<Rightarrow> lg_queues lg)\<rparr>)))"

definition set_insert :: "'a \<Rightarrow> 'a list \<Rightarrow> 'a list" where
  "set_insert x xs = (if x \<in> set xs then xs else xs @ [x])"

definition registerLoggerLine :: "tid \<Rightarrow> nat \<Rightarrow> 'f logger \<Rightarrow> 'f logger result" where
  "registerLoggerLine tid a lg =
     rbind (SafeHashmap_insertOrAssign tid a (lg_mLoggerLineHashtable lg)) (\<lambda>t.
     rbind (on_line a (\<lambda>ln qs. Inr (getBufferPtrQueue ln, qs)) (lg\<lparr>lg_mLoggerLineHashtable := t\<rparr>)) (\<lambda>lg.
       Inr (lg\<lparr>lg_mThreadIDHashset := set_insert tid (lg_mThreadIDHashset lg)\<rparr>)))"

definition make_LoggerLine :: "'f logger \<Rightarrow> nat \<times> 'f logger" where
  "make_LoggerLine lg =
     (lg_next lg, lg\<lparr>lg_lines := (lg_lines lg)(lg_next lg \<mapsto> new_LoggerLine), lg_next := lg_next lg + 1\<rparr>)"

definition findLoggerLine :: "tid \<Rightarrow> 'f logger \<Rightarrow> (nat \<times> 'f logger) result" where
  "findLoggerLine tid lg =
     rbind (SafeHashmap_find tid (lg_mLoggerLineHashtable lg)) (\<lambda>found.
     rbind (case found of
         Some a \<Rightarrow> Inr (a, lg)
       | None \<Rightarrow>
           (case make_LoggerLine lg of (a, lg) \<Rightarrow>
              rbind (SafeHashmap_insert tid a (lg_mLoggerLineHashtable lg)) (\<lambda>t.
                Inr (a, lg\<lparr>lg_mLoggerLineHashtable := t,
                           lg_mThreadIDHashset := set_insert tid (lg_mThreadIDHashset lg)\<rparr>)))) (\<lambda>(a, lg).
     rbind (on_line a (\<lambda>ln qs. Inr (getBufferPtrQueue ln, qs)) lg) (\<lambda>lg. Inr (a, lg))))"

text \<open>\<open>held\<close>: somebody else holds the line; otherwise its destructor runs when the table drops it.\<close>

definition removeLoggerLine :: "tid \<Rightarrow> bool \<Rightarrow> 'f logger \<Rightarrow> 'f logger result" where
  "removeLoggerLine tid held lg =
     rbind (SafeHashmap_find tid (lg_mLoggerLineHashtable lg)) (\<lambda>found.
     rbind (SafeHashmap_erase tid (lg_mLoggerLineHashtable lg)) (\<lambda>t.
       let lg = lg\<lparr>lg_mLoggerLineHashtable := t, lg_mThreadIDHashset := removeAll tid (lg_mThreadIDHashset lg)\<rparr> in
       case found of
         None \<Rightarrow> Inr lg
       | Some a \<Rightarrow>
           if held then Inr lg
           else (case lg_lines lg a of
               None \<Rightarrow> Inl UseAfterFree
             | Some ln \<Rightarrow> Inr (lg\<lparr>lg_lines := (lg_lines lg)(a := None),
                 lg_queues := (case delete_LoggerLine ln (Some (lg_queues lg)) of Some q \<Rightarrow> q | None \<Rightarrow> lg_queues lg)\<rparr>))))"

section \<open>The background thread\<close>

definition timeoutNotify :: "'f logger \<Rightarrow> 'f logger" where
  "timeoutNotify lg = lg\<lparr>lg_mTimeout := True\<rparr>"

text \<open>The set of thread ids is unordered; the list gives the order in which it is walked through.\<close>

fun push_lines :: "tid list \<Rightarrow> 'f logger \<Rightarrow> 'f logger result" where
  "push_lines [] lg = Inr lg"
| "push_lines (tid # tids) lg =
     rbind (SafeHashmap_find tid (lg_mLoggerLineHashtable lg)) (\<lambda>found.
     rbind (case found of None \<Rightarrow> Inr lg | Some a \<Rightarrow> on_line a (\<lambda>ln qs. Inr (pushToQueue ln qs)) lg) (push_lines tids))"

definition timeoutPushToFile :: "'f logger \<Rightarrow> 'f logger result" where
  "timeoutPushToFile lg =
     (if lg_mTimeout lg
      then rbind (push_lines (lg_mThreadIDHashset lg) lg) (\<lambda>lg. Inr (lg\<lparr>lg_mTimeout := False\<rparr>))
      else Inr lg)"

text \<open>
  \<^verbatim>\<open>archive\<close> waits up to a second for a buffer; when none came it goes on with the fresh empty one.
  When the file is full a new one is opened, the buffer written to it and the old one closed.
\<close>

definition take_filled :: "'f logger \<Rightarrow> buffer_ptr \<times> 'f logger" where
  "take_filled lg =
     (case SafeQueue_waitAndPop_for (lq_filled (lg_queues lg)) of
        (_, None, q) \<Rightarrow> (Some new_LoggerBufferN, lg)
      | (_, Some p, q) \<Rightarrow> (p, lg\<lparr>lg_queues := (lg_queues lg)\<lparr>lq_filled := q\<rparr>\<rparr>))"

definition recycle :: "logger_buffer \<Rightarrow> 'f logger \<Rightarrow> 'f logger" where
  "recycle b lg =
     (if SafeQueue_size (lq_empty (lg_queues lg)) < lg_mStandbyQueueMax lg
      then lg\<lparr>lg_queues := (lg_queues lg)\<lparr>lq_empty := SafeQueue_push (Some (LoggerBuffer_reset b)) (lq_empty (lg_queues lg))\<rparr>\<rparr>
      else lg)"

definition write_buffer :: "fs \<Rightarrow> logger_buffer \<Rightarrow> 'f logger \<Rightarrow> fs_log \<Rightarrow> bool \<times> 'f logger \<times> fs_log" where
  "write_buffer fs b lg log =
     (case LoggerFile_archive fs (take (LoggerBuffer_getSize b) (lb_mBuffer b)) (lg_mSync lg) (lg_mCurrentLoggerFile lg) log of
        (res, f, log) \<Rightarrow> (res, lg\<lparr>lg_mCurrentLoggerFile := f\<rparr>, log))"

definition Logger_archive :: "log_env \<Rightarrow> 'f logger \<Rightarrow> fs_log \<Rightarrow> 'f logger result \<times> fs_log" where
  "Logger_archive env lg log =
     (case take_filled lg of
        (None, lg) \<Rightarrow> (Inl NullDereference, log)
      | (Some b, lg) \<Rightarrow>
          (case write_buffer (le_fs env) b lg log of
             (True, lg, log) \<Rightarrow> (Inr (recycle b lg), log)
           | (False, lg, log) \<Rightarrow>
               (case Logger_createFile env lg log of (fd, lg, log) \<Rightarrow>
                  if fd = -1 then (Inr lg, log)
                  else (case write_buffer (le_fs env) b lg log of (_, lg, log) \<Rightarrow>
                    (Inr (recycle b lg), closeOld (le_fs env) (lg_mCurrentLoggerFile lg) log)))))"

definition Logger_work_round :: "log_env \<Rightarrow> 'f logger \<Rightarrow> fs_log \<Rightarrow> 'f logger result \<times> fs_log" where
  "Logger_work_round env lg log =
     (if lg_mRunning lg then and_then (timeoutPushToFile lg, log) (Logger_archive env) else (Inr lg, log))"

text \<open>\<^verbatim>\<open>stop\<close> and the destructor. The latter closes the file and waits for the background thread, but
  only \<^verbatim>\<open>stop\<close> tells that thread to end: \<open>None\<close> is a \<^verbatim>\<open>join\<close> that never returns.\<close>

definition Logger_stop :: "fs \<Rightarrow> 'f logger \<Rightarrow> fs_log \<Rightarrow> 'f logger \<times> fs_log" where
  "Logger_stop fs lg log =
     (let lg = (Logger_cancelTimer lg)\<lparr>lg_mRunning := False\<rparr>;
          (f, log) = LoggerFile_close fs (lg_mCurrentLoggerFile lg) log in
      (lg\<lparr>lg_mCurrentLoggerFile := f\<rparr>, log))"

definition delete_Logger :: "fs \<Rightarrow> 'f logger \<Rightarrow> fs_log \<Rightarrow> ('f logger \<times> fs_log) option" where
  "delete_Logger fs lg log =
     (let lg = Logger_cancelTimer lg; (f, log) = LoggerFile_close fs (lg_mCurrentLoggerFile lg) log in
      if lg_mRunning lg then None else Some (lg\<lparr>lg_mCurrentLoggerFile := f\<rparr>, log))"

section \<open>The logger under all its threads\<close>

text \<open>
  Threads write lines, the timer notifies, lines are removed, and the background thread makes its
  rounds, in any order; each of these is one step. (In the code they are not all under a lock.)
\<close>

datatype log_event = WriteLine tid string | TimerNotify | WorkRound | RemoveLine tid

definition write_line :: "tid \<Rightarrow> string \<Rightarrow> 'f logger \<Rightarrow> 'f logger result" where
  "write_line tid text lg = rbind (findLoggerLine tid lg) (\<lambda>(a, lg). on_line a (pushToBuffer text) lg)"

fun log_step :: "log_env \<Rightarrow> log_event \<Rightarrow> 'f logger \<times> fs_log \<Rightarrow> ('f logger \<times> fs_log) result" where
  "log_step env (WriteLine tid text) (lg, log) = rbind (write_line tid text lg) (\<lambda>lg. Inr (lg, log))"
| "log_step env TimerNotify (lg, log) = Inr (timeoutNotify lg, log)"
| "log_step env WorkRound (lg, log) =
     (case Logger_work_round env lg log of (r, log) \<Rightarrow> rbind r (\<lambda>lg. Inr (lg, log)))"
| "log_step env (RemoveLine tid) (lg, log) = rbind (removeLoggerLine tid False lg) (\<lambda>lg. Inr (lg, log))"

fun log_run :: "log_env \<Rightarrow> log_event list \<Rightarrow> 'f logger \<times> fs_log \<Rightarrow> ('f logger \<times> fs_log) result" where
  "log_run env [] s = Inr s"
| "log_run env (e # es) s = rbind (log_step env e s) (log_run env es)"

text \<open>What a thread has written, without the lines that are too long for a buffer, and what the logger
  still keeps of it.\<close>

fun lines_of :: "tid \<Rightarrow> log_event list \<Rightarrow> string" where
  "lines_of tid [] = []"
| "lines_of tid (WriteLine t text # es) = 
     (if t = tid \<and> length text < LARGEBUFFERSIZE then text @ lines_of tid es else lines_of tid es)"
| "lines_of tid (_ # es) = lines_of tid es"

definition kept_of :: "tid \<Rightarrow> 'f logger \<Rightarrow> string" where
  "kept_of tid lg =
     (case hashmap_abs (lg_mLoggerLineHashtable lg) tid of
        None \<Rightarrow> []
      | Some a \<Rightarrow> (case lg_lines lg a of None \<Rightarrow> [] | Some ln \<Rightarrow> line_text ln))"

definition logger_inv :: "'f logger \<Rightarrow> bool" where
  "logger_inv lg =
     (hashmap_ok (lg_mLoggerLineHashtable lg) \<and> queues_ok (lg_queues lg) \<and>
      (\<forall>tid a. hashmap_abs (lg_mLoggerLineHashtable lg) tid = Some a \<longrightarrow>
         a < lg_next lg \<and> (\<exists>ln. lg_lines lg a = Some ln \<and> line_ok ln \<and> ll_linked ln)) \<and>
      (\<forall>tid tid' a. hashmap_abs (lg_mLoggerLineHashtable lg) tid = Some a \<longrightarrow>
         hashmap_abs (lg_mLoggerLineHashtable lg) tid' = Some a \<longrightarrow> tid = tid'))"

lemma logger_invD:
  assumes "logger_inv lg"
  shows "hashmap_ok (lg_mLoggerLineHashtable lg)" "queues_ok (lg_queues lg)"
    "hashmap_abs (lg_mLoggerLineHashtable lg) tid = Some a \<Longrightarrow>
      a < lg_next lg \<and> (\<exists>ln. lg_lines lg a = Some ln \<and> line_ok ln \<and> ll_linked ln)"
    "hashmap_abs (lg_mLoggerLineHashtable lg) tid = Some a \<Longrightarrow>
      hashmap_abs (lg_mLoggerLineHashtable lg) tid' = Some a \<Longrightarrow> tid = tid'"
  using assms unfolding logger_inv_def by blast+

lemma logger_inv_cong:
  assumes "logger_inv lg" and "lg_mLoggerLineHashtable lg' = lg_mLoggerLineHashtable lg"
    and "lg_lines lg' = lg_lines lg" and "lg_next lg' = lg_next lg" and "queues_ok (lg_queues lg')"
  shows "logger_inv lg'" "kept_of tid lg' = kept_of tid lg"
  using assms by (simp_all add: logger_inv_def) (auto simp: kept_of_def split: option.split)

text \<open>What a step that touches only lines and queues of the logger leaves alone.\<close>

definition same_settings :: "'f logger \<Rightarrow> 'f logger \<Rightarrow> bool" where
  "same_settings lg lg' =
     (lg_mCurrentLoggerFile lg' = lg_mCurrentLoggerFile lg \<and> lg_mFileSizeLimite lg' = lg_mFileSizeLimite lg \<and>
      lg_mRunning lg' = lg_mRunning lg \<and> lg_mSync lg' = lg_mSync lg \<and>
      lg_mStandbyQueueMax lg' = lg_mStandbyQueueMax lg)"

text \<open>
  \<open>told w chunks lg lg'\<close>: a part of a run in which thread \<open>t\<close> wrote \<open>w t\<close>. Of what the threads had
  written, the pieces \<open>chunks\<close> went to the queue, each tagged with its thread.
\<close>

definition text_of :: "tid \<Rightarrow> (tid \<times> string) list \<Rightarrow> string" where
  "text_of t chunks = concat (map snd (filter (\<lambda>c. fst c = t) chunks))"

definition just :: "tid \<Rightarrow> string \<Rightarrow> tid \<Rightarrow> string" where
  "just tid text t = (if t = tid then text else [])"

definition told :: "(tid \<Rightarrow> string) \<Rightarrow> (tid \<times> string) list \<Rightarrow> 'f logger \<Rightarrow> 'f logger \<Rightarrow> bool" where
  "told w chunks lg lg' =
     (same_settings lg lg' \<and> logger_inv lg' \<and>
      queued_text (lg_queues lg') = queued_text (lg_queues lg) @ concat (map snd chunks) \<and>
      length (sq_mData (lq_empty (lg_queues lg'))) \<le> length (sq_mData (lq_empty (lg_queues lg))) \<and>
      (\<forall>t. text_of t chunks @ kept_of t lg' = kept_of t lg @ w t))"

lemma text_of_append [simp]: "text_of t (xs @ ys) = text_of t xs @ text_of t ys"
  by (simp add: text_of_def)

lemma text_of_simps [simp]: "text_of t [] = []" "text_of t ((tid, text) # xs) = just tid text t @ text_of t xs"
  by (simp_all add: text_of_def just_def)

lemma just_empty [simp]: "just tid [] t = []"
  by (simp add: just_def)

lemma told_same: "logger_inv lg \<Longrightarrow> told (\<lambda>_. []) [] lg lg"
  by (simp add: told_def same_settings_def)

lemma told_trans:
  assumes "told w xs lg lg1" and "told w' ys lg1 lg2"
  shows "told (\<lambda>t. w t @ w' t) (xs @ ys) lg lg2"
proof -
  have "text_of t xs @ text_of t ys @ kept_of t lg2 = kept_of t lg @ w t @ w' t" for t
  proof -
    have "text_of t ys @ kept_of t lg2 = kept_of t lg1 @ w' t" "text_of t xs @ kept_of t lg1 = kept_of t lg @ w t"
      using assms by (auto simp: told_def)
    then show ?thesis by (metis append.assoc)
  qed
  then show ?thesis using assms by (auto simp: told_def same_settings_def)
qed

lemma on_line_told:
  assumes "logger_inv lg" and "hashmap_abs (lg_mLoggerLineHashtable lg) tid = Some a"
    and "\<And>ln. lg_lines lg a = Some ln \<Longrightarrow> line_ok ln \<Longrightarrow> ll_linked ln \<Longrightarrow>
      \<exists>ln' q'. f ln (Some (lg_queues lg)) = Inr (ln', Some q') \<and> line_step_ok text ln (lg_queues lg) ln' q'"
  shows "\<exists>lg' chunk. on_line a f lg = Inr lg' \<and> told (just tid text) [(tid, chunk)] lg lg' \<and>
    lg_mLoggerLineHashtable lg' = lg_mLoggerLineHashtable lg"
proof -
  obtain ln where ln: "lg_lines lg a = Some ln" "line_ok ln" "ll_linked ln"
    using logger_invD(3) [OF assms(1,2)] by blast
  obtain ln' q' where f: "f ln (Some (lg_queues lg)) = Inr (ln', Some q')"
    and ok: "line_step_ok text ln (lg_queues lg) ln' q'"
    using assms(3) [OF ln] by blast
  obtain chunk where chunk: "queued_text q' = queued_text (lg_queues lg) @ chunk" "chunk @ line_text ln' = line_text ln @ text"
    using ok by (auto simp: line_step_ok_def)
  let ?lg = "lg\<lparr>lg_lines := (lg_lines lg)(a \<mapsto> ln'), lg_queues := q'\<rparr>"
  have "on_line a f lg = Inr ?lg" using ln(1) f by (simp add: on_line_def)
  moreover have "logger_inv ?lg"
    using assms(1) ok unfolding logger_inv_def line_step_ok_def by auto
  moreover have "text_of t [(tid, chunk)] @ kept_of t ?lg = kept_of t lg @ just tid text t" for t
  proof (cases "t = tid")
    case True
    then show ?thesis using assms(2) ln(1) chunk(2) by (simp add: kept_of_def just_def)
  next
    case False
    then have "hashmap_abs (lg_mLoggerLineHashtable lg) t \<noteq> Some a"
      using logger_invD(4) [OF assms(1,2)] by blast
    then show ?thesis using False by (auto simp: kept_of_def just_def split: option.split)
  qed
  ultimately show ?thesis
    using chunk(1) ok by (intro exI [of _ ?lg] exI [of _ chunk]) (simp add: told_def same_settings_def line_step_ok_def)
qed

lemma line_step_link: "line_ok ln \<Longrightarrow> queues_ok q \<Longrightarrow> line_step_ok [] ln q (getBufferPtrQueue ln) q"
  by (simp add: line_step_ok_def)

lemma findLoggerLine_ok:
  assumes "logger_inv lg"
  shows "\<exists>a lg' c. findLoggerLine tid lg = Inr (a, lg') \<and> told (\<lambda>_. []) c lg lg' \<and>
    hashmap_abs (lg_mLoggerLineHashtable lg') tid = Some a"
proof (cases "hashmap_abs (lg_mLoggerLineHashtable lg) tid")
  case (Some a)
  have "\<exists>lg' chunk. on_line a (\<lambda>ln qs. Inr (getBufferPtrQueue ln, qs)) lg = Inr lg' \<and>
      told (just tid []) [(tid, chunk)] lg lg' \<and> lg_mLoggerLineHashtable lg' = lg_mLoggerLineHashtable lg"
    using line_step_link logger_invD(2) [OF assms] by (intro on_line_told [OF assms Some]) auto
  moreover have "just tid [] = (\<lambda>_. [])" by (simp add: fun_eq_iff)
  ultimately show ?thesis
    using Some hm.find_abs [OF logger_invD(1) [OF assms], of tid] by (auto simp: findLoggerLine_def)
next
  case None
  let ?a = "lg_next lg"
  obtain t where t: "SafeHashmap_insert tid ?a (lg_mLoggerLineHashtable lg) = Inr t" "hashmap_ok t"
    "hashmap_abs t = (hashmap_abs (lg_mLoggerLineHashtable lg))(tid \<mapsto> ?a)"
    using hm.ins_abs [OF logger_invD(1) [OF assms], of tid ?a] None by auto
  have fresh: "hashmap_abs (lg_mLoggerLineHashtable lg) t' \<noteq> Some ?a" for t'
    using logger_invD(3) [OF assms] by blast
  obtain lg' where lg': "findLoggerLine tid lg = Inr (?a, lg')" "same_settings lg lg'"
    "lg_mLoggerLineHashtable lg' = t" "lg_queues lg' = lg_queues lg" "lg_next lg' = ?a + 1"
    "lg_lines lg' = (lg_lines lg)(?a \<mapsto> getBufferPtrQueue new_LoggerLine)"
    using t(1) None hm.find_abs [OF logger_invD(1) [OF assms], of tid]
    by (auto simp: findLoggerLine_def make_LoggerLine_def on_line_def same_settings_def)
  have "logger_inv lg'"
    using assms lg' t(2,3) fresh unfolding logger_inv_def by (auto simp: less_Suc_eq split: if_splits)
  moreover have "kept_of t' lg' = kept_of t' lg" for t'
    using lg' t(3) fresh None by (auto simp: kept_of_def split: option.split)
  ultimately have "told (\<lambda>_. []) [] lg lg'" using lg' by (simp add: told_def)
  then show ?thesis using lg'(1,3) t(3) by auto
qed

definition fitting :: "string \<Rightarrow> string" where
  "fitting text = (if length text < LARGEBUFFERSIZE then text else [])"

lemma write_line_ok:
  assumes "logger_inv lg"
  shows "\<exists>lg' c. write_line tid text lg = Inr lg' \<and> told (just tid (fitting text)) c lg lg'"
proof -
  obtain a lg1 c where f: "findLoggerLine tid lg = Inr (a, lg1)" "told (\<lambda>_. []) c lg lg1"
    "hashmap_abs (lg_mLoggerLineHashtable lg1) tid = Some a" using findLoggerLine_ok [OF assms(1)] by blast
  then have inv: "logger_inv lg1" by (simp add: told_def)
  have "\<exists>ln' q'. pushToBuffer text ln (Some (lg_queues lg1)) = Inr (ln', Some q') \<and>
      line_step_ok (fitting text) ln (lg_queues lg1) ln' q'" if "line_ok ln" "ll_linked ln" for ln
    using pushToBuffer_ok [OF that logger_invD(2) [OF inv], of "text"]
      pushToBuffer_long [OF that logger_invD(2) [OF inv], of "text"]
    by (cases "length text < LARGEBUFFERSIZE") (auto simp: fitting_def)
  then obtain lg' chunk where p: "on_line a (pushToBuffer text) lg1 = Inr lg'"
    "told (just tid (fitting text)) [(tid, chunk)] lg1 lg'"
    using on_line_told [OF inv f(3), of "pushToBuffer text" "fitting text"] by blast
  then show ?thesis using f(1) told_trans [OF f(2) p(2)] by (auto simp: write_line_def)
qed

lemma push_lines_ok:
  "logger_inv lg \<Longrightarrow> \<exists>lg' c. push_lines tids lg = Inr lg' \<and> told (\<lambda>_. []) c lg lg'"
proof (induction tids arbitrary: lg)
  case Nil
  then show ?case using told_same by auto
next
  case (Cons tid tids)
  note find = hm.find_abs [OF logger_invD(1) [OF Cons.prems], of tid]
  show ?case
  proof (cases "hashmap_abs (lg_mLoggerLineHashtable lg) tid")
    case None
    then show ?thesis using Cons find by auto
  next
    case (Some a)
    have none: "just tid [] = (\<lambda>_. [])" by (simp add: fun_eq_iff)
    obtain lg1 chunk where p: "on_line a (\<lambda>ln qs. Inr (pushToQueue ln qs)) lg = Inr lg1" "told (\<lambda>_. []) [(tid, chunk)] lg lg1"
      using on_line_told [OF Cons.prems Some, of "\<lambda>ln qs. Inr (pushToQueue ln qs)" "[]"]
        pushToQueue_ok [OF _ _ logger_invD(2) [OF Cons.prems]] unfolding none by fastforce
    obtain lg2 c where q: "push_lines tids lg1 = Inr lg2" "told (\<lambda>_. []) c lg1 lg2"
      using Cons.IH [of lg1] p(2) by (auto simp: told_def)
    show ?thesis using Some find p(1) q(1) told_trans [OF p(2) q(2)] by auto
  qed
qed

lemma delete_LoggerLine_ok:
  assumes "line_ok ln" and "ll_linked ln" and "queues_ok q"
  shows "\<exists>q'. delete_LoggerLine ln (Some q) = Some q' \<and> queues_ok q' \<and> lq_empty q' = lq_empty q \<and>
    queued_text q' = queued_text q @ line_text ln"
proof -
  obtain a where a: "ll_A ln = Some a" "buffer_ok a" using assms(1) by (auto simp: line_ok_def full_buffer_def)
  have empty: "LoggerBuffer_empty b \<longleftrightarrow> buffer_text b = []" if "buffer_ok b" for b
    using buffer_text_length [OF that] by (auto simp: LoggerBuffer_empty_def)
  have "push_rest (ll_B ln) q' = q'" for q'
    using assms(1) empty by (auto simp: line_ok_def clean_buffer_def push_rest_def)
  then show ?thesis
    using a assms(2,3) empty [OF a(2)]
    by (auto simp: delete_LoggerLine_def lock_queues_def push_rest_def push_filled_def SafeQueue_push_def
        queues_ok_def full_buffer_def queued_text_def line_text_def ptr_text_def)
qed

lemma removeLoggerLine_ok:
  assumes "logger_inv lg"
  shows "\<exists>lg' c. removeLoggerLine tid False lg = Inr lg' \<and> told (\<lambda>_. []) c lg lg'"
proof -
  note ok = logger_invD(1) [OF assms]
  obtain t where t: "SafeHashmap_erase tid (lg_mLoggerLineHashtable lg) = Inr t" "hashmap_ok t"
    "hashmap_abs t = (hashmap_abs (lg_mLoggerLineHashtable lg))(tid := None)"
    using hm.del_abs [OF ok, of tid] by auto
  let ?lg = "lg\<lparr>lg_mLoggerLineHashtable := t, lg_mThreadIDHashset := removeAll tid (lg_mThreadIDHashset lg)\<rparr>"
  show ?thesis
  proof (cases "hashmap_abs (lg_mLoggerLineHashtable lg) tid")
    case None
    have "logger_inv ?lg" using assms t(2,3) unfolding logger_inv_def by (auto split: if_splits)
    then have "told (\<lambda>_. []) [] lg ?lg"
      using None t(3) by (auto simp: told_def same_settings_def kept_of_def split: option.split)
    then show ?thesis using None t(1) hm.find_abs [OF ok, of tid] by (auto simp: removeLoggerLine_def Let_def)
  next
    case (Some a)
    then obtain ln where ln: "lg_lines lg a = Some ln" "line_ok ln" "ll_linked ln"
      using logger_invD(3) [OF assms] by blast
    obtain q where q: "delete_LoggerLine ln (Some (lg_queues lg)) = Some q" "queues_ok q"
      "lq_empty q = lq_empty (lg_queues lg)" "queued_text q = queued_text (lg_queues lg) @ line_text ln"
      using delete_LoggerLine_ok [OF ln(2,3) logger_invD(2) [OF assms]] by blast
    let ?lg' = "?lg\<lparr>lg_lines := (lg_lines lg)(a := None), lg_queues := q\<rparr>"
    have other: "hashmap_abs (lg_mLoggerLineHashtable lg) t' \<noteq> Some a" if "t' \<noteq> tid" for t'
      using logger_invD(4) [OF assms Some] that by blast
    have "logger_inv ?lg'"
      using assms t(2,3) q(2) other unfolding logger_inv_def by (auto split: if_splits)
    moreover have "text_of t' [(tid, line_text ln)] @ kept_of t' ?lg' = kept_of t' lg" for t'
      using Some ln(1) t(3) other [of t'] by (auto simp: kept_of_def just_def split: option.split)
    ultimately have "told (\<lambda>_. []) [(tid, line_text ln)] lg ?lg'"
      using q(3,4) by (simp add: told_def same_settings_def)
    then show ?thesis
      using Some ln(1) q(1) t(1) hm.find_abs [OF ok, of tid] by (auto simp: removeLoggerLine_def Let_def)
  qed
qed

section \<open>Writing to the file\<close>

definition file_inv :: "nat \<Rightarrow> log_file \<Rightarrow> fs_log \<Rightarrow> bool" where
  "file_inv limit f log =
     (lf_mCurrDataSize f = bytes_in_file log \<and> bytes_in_file log \<le> limit \<and> lf_mFileSizeLimite f = limit \<and>
      files_bounded limit log \<and> lf_mRunning f)"

lemma LoggerFile_archive_inv:
  assumes "writes_at_most fs" and "limit < 2 ^ 63" and "file_inv limit f log" and "length buff \<le> limit"
    and "LoggerFile_archive fs buff sync f log = (r, f', log')"
  shows "file_inv limit f' log'" "r = (bytes_in_file log + length buff \<le> limit)"
    "\<not> r \<Longrightarrow> log' = log" "r \<Longrightarrow> writes_all fs \<Longrightarrow> written log' = written log @ buff"
proof -
  have f: "lf_mCurrDataSize f = bytes_in_file log" "lf_mRunning f" "files_bounded limit log"
    "lf_mFileSizeLimite f = limit" "bytes_in_file log \<le> limit"
    using assms(3) by (auto simp: file_inv_def)
  have w: "wrap64 (lf_mCurrDataSize f + length buff) = bytes_in_file log + length buff"
    using f assms(2,4) by simp
  then show r: "r = (bytes_in_file log + length buff \<le> limit)" and "\<not> r \<Longrightarrow> log' = log"
    using assms(5) f(4) by (auto simp: LoggerFile_archive_def split: if_splits)
  show "file_inv limit f' log'"
  proof (cases r)
    case True
    then have "archive_loop fs sync buff 0 f log = (f', log')" "bytes_in_file log + (length buff - 0) \<le> limit"
      using assms(5) w r by (auto simp: LoggerFile_archive_def split: if_splits)
    from archive_loop_bytes [OF assms(1,2) this(1) f(1) this(2) f(3)] show ?thesis
      using f(2,4) by (simp add: file_inv_def)
  next
    case False
    then show ?thesis using assms(3,5) by (auto simp: LoggerFile_archive_def split: if_splits)
  qed
  show "written log' = written log @ buff" if "r" "writes_all fs"
    using that assms(5) archive_loop_all [OF that(2) f(2)] by (auto simp: LoggerFile_archive_def split: if_splits)
qed

text \<open>
  One round of the background thread. Whatever the system calls answer, no open file grows beyond
  the limit; and when every write takes everything, what leaves the queue is what reaches the files.
\<close>

definition moved :: "fs \<Rightarrow> 'f logger \<Rightarrow> fs_log \<Rightarrow> 'f logger \<Rightarrow> fs_log \<Rightarrow> bool" where
  "moved fs lg log lg' log' =
     (logger_inv lg' \<and> file_inv (lg_mFileSizeLimite lg) (lg_mCurrentLoggerFile lg') log' \<and>
      lg_mFileSizeLimite lg' = lg_mFileSizeLimite lg \<and> lg_mRunning lg' = lg_mRunning lg \<and>
      lg_mStandbyQueueMax lg' = lg_mStandbyQueueMax lg \<and>
      (length (sq_mData (lq_empty (lg_queues lg))) \<le> lg_mStandbyQueueMax lg \<longrightarrow>
       length (sq_mData (lq_empty (lg_queues lg'))) \<le> lg_mStandbyQueueMax lg) \<and>
      (\<forall>t. kept_of t lg' = kept_of t lg) \<and>
      (writes_all fs \<longrightarrow>
       written log' @ queued_text (lg_queues lg') = written log @ queued_text (lg_queues lg)))"

lemma take_filled_ok:
  assumes "queues_ok (lg_queues lg)"
  shows "\<exists>b q. take_filled lg = (Some b, lg\<lparr>lg_queues := q\<rparr>) \<and> buffer_ok b \<and> queues_ok q \<and>
    lq_empty q = lq_empty (lg_queues lg) \<and> buffer_text b @ queued_text q = queued_text (lg_queues lg)"
proof (cases "sq_mData (lq_filled (lg_queues lg))")
  case Nil
  then show ?thesis
    using assms
    by (intro exI [of _ new_LoggerBufferN] exI [of _ "lg_queues lg"])
      (simp add: take_filled_def SafeQueue_waitAndPop_for_def SafeQueue_waitAndPop_def)
next
  case (Cons p ps)
  then obtain b where "p = Some b" "buffer_ok b" "list_all full_buffer ps"
    using assms by (auto simp: queues_ok_def full_buffer_def)
  then show ?thesis
    using assms Cons
    by (intro exI [of _ b] exI [of _ "(lg_queues lg)\<lparr>lq_filled := (lq_filled (lg_queues lg))\<lparr>sq_mData := ps\<rparr>\<rparr>"])
      (simp add: take_filled_def SafeQueue_waitAndPop_for_def SafeQueue_waitAndPop_def queues_ok_def queued_text_def ptr_text_def)
qed

lemma recycle_ok:
  assumes "queues_ok (lg_queues lg)" and "buffer_ok b"
  shows "\<exists>q. recycle b lg = lg\<lparr>lg_queues := q\<rparr> \<and> queues_ok q \<and> queued_text q = queued_text (lg_queues lg) \<and>
    (length (sq_mData (lq_empty (lg_queues lg))) \<le> lg_mStandbyQueueMax lg \<longrightarrow>
     length (sq_mData (lq_empty q)) \<le> lg_mStandbyQueueMax lg)"
proof (cases "SafeQueue_size (lq_empty (lg_queues lg)) < lg_mStandbyQueueMax lg")
  case True
  then show ?thesis
    using assms LoggerBuffer_reset_ok [OF assms(2)]
    by (intro exI [of _ "(lg_queues lg)\<lparr>lq_empty := SafeQueue_push (Some (LoggerBuffer_reset b)) (lq_empty (lg_queues lg))\<rparr>"])
      (simp add: recycle_def SafeQueue_push_def SafeQueue_size_def queues_ok_def clean_buffer_def queued_text_def)
next
  case False
  then show ?thesis using assms by (intro exI [of _ "lg_queues lg"]) (simp add: recycle_def)
qed

lemma createLogFile_sel:
  assumes "createLogFile env f log = (fd, f', log')"
  shows "\<exists>path. fd = le_fs env log (FS_open path) \<and> log' = log @ [(FS_open path, fd)] \<and> lf_mRunning f' = lf_mRunning f \<and>
    lf_mFileSizeLimite f' = lf_mFileSizeLimite f \<and> lf_mCurrDataSize f' = (if fd = -1 then lf_mCurrDataSize f else 0)"
  using assms
  by (auto simp: createLogFile_def generateAbsoluteLogPathName_def sys_call_def Let_def split: if_splits)

lemma Logger_createFile_ok:
  assumes "Logger_createFile env lg log = (fd, lg', log')"
    and "file_inv limit (lg_mCurrentLoggerFile lg) log" and "limit = lg_mFileSizeLimite lg"
  shows "\<exists>f. lg' = lg\<lparr>lg_mCurrentLoggerFile := f\<rparr> \<and> file_inv limit f log' \<and> written log' = written log \<and>
    (fd \<noteq> -1 \<longrightarrow> bytes_in_file log' = 0) \<and> (writes_all (le_fs env) \<longrightarrow> fd \<noteq> -1)"
proof -
  obtain f where f: "createLogFile env (lg_mCurrentLoggerFile lg) log = (fd, f, log')"
    "lg' = lg\<lparr>lg_mCurrentLoggerFile := if fd \<noteq> -1 then setFileSizeLimite (lg_mFileSizeLimite lg) f else f\<rparr>"
    using assms(1) by (auto simp: Logger_createFile_def Let_def split: prod.splits)
  let ?g = "if fd \<noteq> -1 then setFileSizeLimite (lg_mFileSizeLimite lg) f else f"
  note sel = createLogFile_sel [OF f(1)]
  have "writes_all (le_fs env) \<Longrightarrow> fd \<noteq> -1" using sel by (auto simp: writes_all_def)
  moreover have "file_inv limit ?g log'" "written log' = written log" "fd \<noteq> -1 \<longrightarrow> bytes_in_file log' = 0"
    using sel assms(2,3) by (auto simp: file_inv_def files_bounded_snoc setFileSizeLimite_def)
  ultimately show ?thesis using f(2) by blast
qed

lemma closeOld_effect:
  "written (closeOld fs f log) = written log" "file_inv limit f' (closeOld fs f log) = file_inv limit f' log"
  by (auto simp: closeOld_def sys_call_def file_inv_def files_bounded_snoc)

lemma Logger_archive_moved:
  assumes "logger_inv lg" and "writes_at_most (le_fs env)" and "lg_mFileSizeLimite lg < 2 ^ 63"
    and "LARGEBUFFERSIZE \<le> lg_mFileSizeLimite lg"
    and "file_inv (lg_mFileSizeLimite lg) (lg_mCurrentLoggerFile lg) log"
  shows "\<exists>lg' log'. Logger_archive env lg log = (Inr lg', log') \<and> moved (le_fs env) lg log lg' log'"
proof -
  let ?limit = "lg_mFileSizeLimite lg"
  obtain b q where t: "take_filled lg = (Some b, lg\<lparr>lg_queues := q\<rparr>)" "buffer_ok b" "queues_ok q"
    "lq_empty q = lq_empty (lg_queues lg)" "buffer_text b @ queued_text q = queued_text (lg_queues lg)"
    using take_filled_ok [OF logger_invD(2) [OF assms(1)]] by blast
  let ?lg = "lg\<lparr>lg_queues := q\<rparr>"
  have short: "length (buffer_text b) \<le> ?limit"
    using t(2) assms(4) buffer_text_length [OF t(2)] by (simp add: buffer_ok_def)
  have result: "moved (le_fs env) lg log (recycle b (?lg\<lparr>lg_mCurrentLoggerFile := f\<rparr>)) log'"
    if f: "file_inv ?limit f log'" "writes_all (le_fs env) \<Longrightarrow> written log' = written log @ buffer_text b" for f log'
  proof -
    obtain q' where "recycle b (?lg\<lparr>lg_mCurrentLoggerFile := f\<rparr>) = ?lg\<lparr>lg_mCurrentLoggerFile := f, lg_queues := q'\<rparr>"
      "queues_ok q'" "queued_text q' = queued_text q"
      "length (sq_mData (lq_empty (lg_queues lg))) \<le> lg_mStandbyQueueMax lg \<longrightarrow>
       length (sq_mData (lq_empty q')) \<le> lg_mStandbyQueueMax lg"
      using recycle_ok [of "?lg\<lparr>lg_mCurrentLoggerFile := f\<rparr>" b] t(2,3,4) by auto
    then show ?thesis
      using f t(5) logger_inv_cong [OF assms(1), of "?lg\<lparr>lg_mCurrentLoggerFile := f, lg_queues := q'\<rparr>"]
      by (auto simp: moved_def)
  qed
  obtain r f1 log1 where w1: "LoggerFile_archive (le_fs env) (buffer_text b) (lg_mSync lg) (lg_mCurrentLoggerFile lg) log = (r, f1, log1)"
    by (metis prod_cases3)
  note one = LoggerFile_archive_inv [OF assms(2,3,5) short w1]
  show ?thesis
  proof (cases r)
    case True
    then show ?thesis
      using t w1 result [OF one(1)] one(4) by (simp add: Logger_archive_def write_buffer_def buffer_text_size)
  next
    case False
    then have log1: "log1 = log" using one(3) by simp
    let ?lg1 = "?lg\<lparr>lg_mCurrentLoggerFile := f1\<rparr>"
    obtain fd lg2 log2 where c: "Logger_createFile env ?lg1 log = (fd, lg2, log2)" by (metis prod_cases3)
    have inv1: "file_inv ?limit (lg_mCurrentLoggerFile ?lg1) log" using one(1) log1 by simp
    have limit1: "?limit = lg_mFileSizeLimite ?lg1" by simp
    obtain f2 where f2: "lg2 = ?lg1\<lparr>lg_mCurrentLoggerFile := f2\<rparr>" "file_inv ?limit f2 log2"
      "written log2 = written log" "fd \<noteq> -1 \<longrightarrow> bytes_in_file log2 = 0" "writes_all (le_fs env) \<longrightarrow> fd \<noteq> -1"
      using Logger_createFile_ok [OF c inv1 limit1] by blast
    show ?thesis
    proof (cases "fd = -1")
      case True
      have "moved (le_fs env) lg log (?lg\<lparr>lg_mCurrentLoggerFile := f2\<rparr>) log2"
        using True f2 t(3,4) logger_inv_cong [OF assms(1), of "?lg\<lparr>lg_mCurrentLoggerFile := f2\<rparr>"]
        by (simp add: moved_def)
      then show ?thesis
        using t w1 False True c f2(1) log1 by (simp add: Logger_archive_def write_buffer_def buffer_text_size)
    next
      case fresh: False
      obtain r3 f3 log3 where w3: "LoggerFile_archive (le_fs env) (buffer_text b) (lg_mSync lg) f2 log2 = (r3, f3, log3)"
        by (metis prod_cases3)
      note two = LoggerFile_archive_inv [OF assms(2,3) f2(2) short w3]
      have "r3" using two(2) f2(4) fresh short by simp
      have "written log3 = written log @ buffer_text b" if "writes_all (le_fs env)"
        using two(4) [OF \<open>r3\<close> that] f2(3) by simp
      then have "moved (le_fs env) lg log (recycle b (?lg\<lparr>lg_mCurrentLoggerFile := f3\<rparr>)) (closeOld (le_fs env) f3 log3)"
        using two(1) by (intro result) (simp_all add: closeOld_effect)
      moreover have "Logger_archive env lg log =
          (Inr (recycle b (?lg\<lparr>lg_mCurrentLoggerFile := f3\<rparr>)), closeOld (le_fs env) f3 log3)"
        using t(1,2) w1 False fresh c f2(1) log1 w3 by (simp add: Logger_archive_def write_buffer_def buffer_text_size)
      ultimately show ?thesis by blast
    qed
  qed
qed

section \<open>Runs\<close>

definition log_inv :: "'f logger \<Rightarrow> fs_log \<Rightarrow> bool" where
  "log_inv lg log =
     (logger_inv lg \<and> file_inv (lg_mFileSizeLimite lg) (lg_mCurrentLoggerFile lg) log \<and>
      LARGEBUFFERSIZE \<le> lg_mFileSizeLimite lg \<and> lg_mFileSizeLimite lg < 2 ^ 63 \<and>
      length (sq_mData (lq_empty (lg_queues lg))) \<le> lg_mStandbyQueueMax lg)"

definition advanced ::
  "fs \<Rightarrow> (tid \<Rightarrow> string) \<Rightarrow> (tid \<times> string) list \<Rightarrow> 'f logger \<Rightarrow> fs_log \<Rightarrow> 'f logger \<Rightarrow> fs_log \<Rightarrow> bool"
where
  "advanced fs w chunks lg log lg' log' =
     (log_inv lg' log' \<and> lg_mFileSizeLimite lg' = lg_mFileSizeLimite lg \<and>
      lg_mStandbyQueueMax lg' = lg_mStandbyQueueMax lg \<and>
      (writes_all fs \<longrightarrow> written log' @ queued_text (lg_queues lg') =
         written log @ queued_text (lg_queues lg) @ concat (map snd chunks)) \<and>
      (\<forall>t. text_of t chunks @ kept_of t lg' = kept_of t lg @ w t))"

lemma told_advanced:
  assumes "log_inv lg log" and "told w chunks lg lg'"
  shows "advanced fs w chunks lg log lg' log"
  using assms by (auto simp: log_inv_def told_def same_settings_def advanced_def)

lemma moved_advanced:
  assumes "log_inv lg log" and "moved fs lg log lg' log'"
  shows "advanced fs (\<lambda>_. []) [] lg log lg' log'"
  using assms by (auto simp: log_inv_def moved_def advanced_def)

lemma advanced_trans:
  assumes "advanced fs w xs lg log lg1 log1" and "advanced fs w' ys lg1 log1 lg2 log2"
  shows "advanced fs (\<lambda>t. w t @ w' t) (xs @ ys) lg log lg2 log2"
proof -
  have "text_of t xs @ text_of t ys @ kept_of t lg2 = kept_of t lg @ w t @ w' t" for t
  proof -
    have "text_of t ys @ kept_of t lg2 = kept_of t lg1 @ w' t" "text_of t xs @ kept_of t lg1 = kept_of t lg @ w t"
      using assms by (auto simp: advanced_def)
    then show ?thesis by (metis append.assoc)
  qed
  then show ?thesis using assms by (simp add: advanced_def)
qed

lemma work_round_advanced:
  assumes "log_inv lg log" and "writes_at_most (le_fs env)"
  shows "\<exists>lg' log' c. Logger_work_round env lg log = (Inr lg', log') \<and> advanced (le_fs env) (\<lambda>_. []) c lg log lg' log'"
proof (cases "lg_mRunning lg")
  case False
  then show ?thesis
    using told_advanced [OF assms(1) told_same] assms(1) by (auto simp: Logger_work_round_def log_inv_def)
next
  case True
  obtain lg1 c where t: "timeoutPushToFile lg = Inr lg1" "told (\<lambda>_. []) c lg lg1"
  proof (cases "lg_mTimeout lg")
    case True
    obtain lg1 c where p: "push_lines (lg_mThreadIDHashset lg) lg = Inr lg1" "told (\<lambda>_. []) c lg lg1"
      using push_lines_ok assms(1) unfolding log_inv_def by blast
    have "told (\<lambda>_. []) c lg (lg1\<lparr>lg_mTimeout := False\<rparr>)"
      using p(2) logger_inv_cong [of lg1 "lg1\<lparr>lg_mTimeout := False\<rparr>"] logger_invD(2)
      by (auto simp: told_def same_settings_def)
    then show thesis using that p(1) True by (simp add: timeoutPushToFile_def)
  next
    case False
    then show thesis using that told_same assms(1) by (auto simp: timeoutPushToFile_def log_inv_def)
  qed
  have a: "advanced (le_fs env) (\<lambda>_. []) c lg log lg1 log" using told_advanced [OF assms(1) t(2)] .
  then have inv: "log_inv lg1 log" by (simp add: advanced_def)
  then obtain lg' log' where m: "Logger_archive env lg1 log = (Inr lg', log')" "moved (le_fs env) lg1 log lg' log'"
    using Logger_archive_moved [OF _ assms(2)] unfolding log_inv_def by blast
  show ?thesis
    using True t(1) m(1) advanced_trans [OF a moved_advanced [OF inv m(2)]] by (auto simp: Logger_work_round_def)
qed

definition written_in :: "log_event \<Rightarrow> tid \<Rightarrow> string" where
  "written_in e t = lines_of t [e]"

lemma lines_of_Cons: "lines_of t (e # es) = written_in e t @ lines_of t es"
  by (cases e) (simp_all add: written_in_def)

lemma log_step_advanced:
  assumes "log_inv lg log" and "writes_at_most (le_fs env)"
  shows "\<exists>lg' log' c. log_step env e (lg, log) = Inr (lg', log') \<and> advanced (le_fs env) (written_in e) c lg log lg' log'"
proof -
  have inv: "logger_inv lg" using assms(1) by (simp add: log_inv_def)
  show ?thesis
  proof (cases e)
    case (WriteLine tid line)
    have "written_in e = just tid (fitting line)"
      using WriteLine by (auto simp: written_in_def just_def fitting_def fun_eq_iff)
    then show ?thesis
      using WriteLine write_line_ok [OF inv, of tid line] told_advanced [OF assms(1)] by fastforce
  next
    case TimerNotify
    have "told (written_in e) [] lg (timeoutNotify lg)"
      using TimerNotify logger_inv_cong [OF inv, of "timeoutNotify lg"] logger_invD(2) [OF inv]
      by (simp add: told_def same_settings_def timeoutNotify_def written_in_def)
    then show ?thesis using TimerNotify told_advanced [OF assms(1)] by fastforce
  next
    case WorkRound
    have "written_in e = (\<lambda>_. [])" using WorkRound by (simp add: written_in_def fun_eq_iff)
    then show ?thesis using WorkRound work_round_advanced [OF assms] by fastforce
  next
    case (RemoveLine tid)
    have "written_in e = (\<lambda>_. [])" using RemoveLine by (simp add: written_in_def fun_eq_iff)
    then show ?thesis
      using RemoveLine removeLoggerLine_ok [OF inv, of tid] told_advanced [OF assms(1)] by fastforce
  qed
qed

lemma log_run_advanced:
  "log_inv lg log \<Longrightarrow> writes_at_most (le_fs env) \<Longrightarrow>
   \<exists>lg' log' c. log_run env es (lg, log) = Inr (lg', log') \<and> advanced (le_fs env) (\<lambda>t. lines_of t es) c lg log lg' log'"
proof (induction es arbitrary: lg log)
  case Nil
  then show ?case using told_advanced [OF Nil.prems(1) told_same] by (fastforce simp: log_inv_def)
next
  case (Cons e es)
  obtain lg1 log1 c where s: "log_step env e (lg, log) = Inr (lg1, log1)" "advanced (le_fs env) (written_in e) c lg log lg1 log1"
    using log_step_advanced [OF Cons.prems] by blast
  then have "log_inv lg1 log1" by (simp add: advanced_def)
  then obtain lg2 log2 c' where r: "log_run env es (lg1, log1) = Inr (lg2, log2)"
    "advanced (le_fs env) (\<lambda>t. lines_of t es) c' lg1 log1 lg2 log2"
    using Cons.IH Cons.prems(2) by blast
  show ?case using s(1) r(1) advanced_trans [OF s(2) r(2)] by (auto simp: lines_of_Cons)
qed

lemma createCustomLogPath_frame:
  assumes "createCustomLogPath env path f log = (Inr (made, f'), log')"
  shows "lf_mRunning f' = lf_mRunning f \<and> lf_mCurrDataSize f' = lf_mCurrDataSize f \<and> written log' = written log \<and>
    bytes_in_file log' = bytes_in_file log \<and> (files_bounded limit log \<longrightarrow> files_bounded limit log')"
proof -
  have f: "lf_mRunning f' = lf_mRunning f" "lf_mCurrDataSize f' = lf_mCurrDataSize f"
    using assms by (auto simp: createCustomLogPath_def sys_call_def Let_def split: if_splits)
  have quiet: "list_all (\<lambda>c. \<forall>n. size_step c n = n) cs \<Longrightarrow>
      files_bounded limit (log @ cs) = files_bounded limit log \<and> bytes_in_file (log @ cs) = bytes_in_file log" for cs
    by (rule files_bounded_quiet) (simp add: list_all_iff)
  have "\<exists>p a b. log' = log @ [(FS_create_directories p, a)] \<or> log' = log @ [(FS_create_directories p, a), (FS_exists p, b)]"
    using assms by (auto simp: createCustomLogPath_def sys_call_def Let_def split: if_splits)
  then obtain p a b where "log' = log @ [(FS_create_directories p, a)] \<or>
      log' = log @ [(FS_create_directories p, a), (FS_exists p, b)]" by blast
  then show ?thesis
    using f quiet [of "[(FS_create_directories p, a)]"] quiet [of "[(FS_create_directories p, a), (FS_exists p, b)]"]
    by auto
qed

lemma createDefaultLogPath_frame:
  assumes "createDefaultLogPath env f log = (Inr f', log')"
  shows "lf_mRunning f' = lf_mRunning f \<and> lf_mCurrDataSize f' = lf_mCurrDataSize f \<and> written log' = written log \<and>
    bytes_in_file log' = bytes_in_file log \<and> (files_bounded limit log \<longrightarrow> files_bounded limit log')"
  using assms createCustomLogPath_frame
  by (auto simp: createDefaultLogPath_def and_then_Inr split: if_splits prod.splits)

lemma init_settings_sel:
  "lg_mCurrentLoggerFile (init_settings notify tw secs ident fileSize sync (new_Logger hash)) = new_LoggerFile"
  "lg_mFileSizeLimite (init_settings notify tw secs ident fileSize sync (new_Logger hash)) = max fileSize (1024 * 1024)"
  "lg_mLoggerLineHashtable (init_settings notify tw secs ident fileSize sync (new_Logger hash)) = new_SafeHashmap 1031 hash"
  "lg_queues (init_settings notify tw secs ident fileSize sync (new_Logger hash)) =
     \<lparr>lq_filled = new_SafeQueue, lq_empty = new_SafeQueue\<rparr>"
  "lg_mStandbyQueueMax (init_settings notify tw secs ident fileSize sync (new_Logger hash)) = 16"
  by (simp_all add: init_settings_def Let_def Logger_setTimer_def add_timer_task_def new_Logger_def)

lemma Logger_init_result:
  assumes "Logger_init env notify tw secs ident fileSize sync (new_Logger hash) [] = (Inr (True, lg), log)"
    and "lg0 = init_settings notify tw secs ident fileSize sync (new_Logger hash)"
  obtains f log1 fd g where "createDefaultLogPath env new_LoggerFile [] = (Inr f, log1)"
    "createLogFile env f log1 = (fd, g, log)" "0 \<le> fd"
    "lg = lg0\<lparr>lg_mCurrentLoggerFile := setFileSizeLimite (lg_mFileSizeLimite lg0) g\<rparr>"
proof -
  have cur: "lg_mCurrentLoggerFile lg0 = new_LoggerFile" by (simp add: assms(2) init_settings_sel)
  obtain f log1 where p: "createDefaultLogPath env new_LoggerFile [] = (Inr f, log1)"
    and rest: "(case Logger_createFile env (lg0\<lparr>lg_mCurrentLoggerFile := f\<rparr>) log1 of (fd, lg, log) \<Rightarrow>
      if fd < 0 then (Inr (False, lg\<lparr>lg_mRunning := False\<rparr>), log) else (Inr (True, lg), log)) =
      ((Inr (True, lg), log) :: (bool \<times> 'a logger) result \<times> fs_log)"
    using assms(1) cur unfolding Logger_init_def Let_def and_then_Inr assms(2) [symmetric] by auto
  obtain fd lg' log' where c: "Logger_createFile env (lg0\<lparr>lg_mCurrentLoggerFile := f\<rparr>) log1 = (fd, lg', log')"
    by (metis prod_cases3)
  then have r: "0 \<le> fd" "lg' = lg" "log' = log" using rest by (simp_all split: if_splits)
  obtain g where g: "createLogFile env f log1 = (fd, g, log)"
    "lg = lg0\<lparr>lg_mCurrentLoggerFile := if fd \<noteq> -1 then setFileSizeLimite (lg_mFileSizeLimite lg0) g else g\<rparr>"
    using c r(2,3) by (auto simp: Logger_createFile_def Let_def split: prod.splits)
  then show thesis using that p r(1) by simp
qed

lemma Logger_init_inv:
  assumes "Logger_init env notify tw secs ident fileSize sync (new_Logger hash) [] = (Inr (True, lg), log)"
    and "fileSize < 2 ^ 63"
  shows "log_inv lg log" "written log = []" "queued_text (lg_queues lg) = []" "kept_of t lg = []"
    "lg_mFileSizeLimite lg = max fileSize (1024 * 1024)"
proof -
  let ?lg = "init_settings notify tw secs ident fileSize sync (new_Logger hash)"
  obtain f log1 fd g where p: "createDefaultLogPath env new_LoggerFile [] = (Inr f, log1)"
    "createLogFile env f log1 = (fd, g, log)" "0 \<le> fd"
    "lg = ?lg\<lparr>lg_mCurrentLoggerFile := setFileSizeLimite (lg_mFileSizeLimite ?lg) g\<rparr>"
    using Logger_init_result [OF assms(1) refl] by blast
  note f = createDefaultLogPath_frame [OF p(1), of "lg_mFileSizeLimite ?lg"]
  have start: "files_bounded limit []" "bytes_in_file [] = 0" for limit
    by (simp_all add: files_bounded_def bytes_in_file_def)
  have fi: "file_inv (lg_mFileSizeLimite lg) (lg_mCurrentLoggerFile lg) log" "written log = []"
    using createLogFile_sel [OF p(2)] p(3,4) f start
    by (auto simp: file_inv_def setFileSizeLimite_def files_bounded_snoc new_LoggerFile_def)
  show "written log = []" by (rule fi(2))
  have rest: "lg_mLoggerLineHashtable lg = new_SafeHashmap 1031 hash" "lg_mStandbyQueueMax lg = 16"
    "lg_queues lg = \<lparr>lq_filled = new_SafeQueue, lq_empty = new_SafeQueue\<rparr>"
    and limit: "lg_mFileSizeLimite lg = max fileSize (1024 * 1024)"
    using p(4) by (simp_all add: init_settings_sel)
  show "lg_mFileSizeLimite lg = max fileSize (1024 * 1024)" by (rule limit)
  show "queued_text (lg_queues lg) = []" "kept_of t lg = []"
    using rest by (simp_all add: queued_text_def new_SafeQueue_def kept_of_def new_SafeHashmap_ok)
  show "log_inv lg log"
    using fi(1) rest limit assms(2)
    by (simp add: log_inv_def logger_inv_def new_SafeHashmap_ok queues_ok_def new_SafeQueue_def LARGEBUFFERSIZE_def)
qed


text \<open>
  C31. Whatever the operating system answers - short writes, failing writes, files that cannot be
  opened - the logger goes on, no log file ever holds more bytes than the limit, and no more than
  \<^verbatim>\<open>mStandbyQueueMax\<close> spare buffers are kept.
\<close>

theorem log_files_bounded:
  assumes "Logger_init env notify tw secs ident fileSize sync (new_Logger hash) [] = (Inr (True, lg0), log0)"
    and "fileSize < 2 ^ 63" and "writes_at_most (le_fs env)"
  shows "\<exists>lg log. log_run env es (lg0, log0) = Inr (lg, log) \<and> files_bounded (max fileSize (1024 * 1024)) log \<and>
    SafeQueue_size (lq_empty (lg_queues lg)) \<le> lg_mStandbyQueueMax lg0"
proof -
  obtain lg log c where r: "log_run env es (lg0, log0) = Inr (lg, log)"
    "advanced (le_fs env) (\<lambda>t. lines_of t es) c lg0 log0 lg log"
    using log_run_advanced [OF Logger_init_inv(1) [OF assms(1,2)] assms(3)] by blast
  then show ?thesis
    using Logger_init_inv(5) [OF assms(1,2)]
    by (auto simp: advanced_def log_inv_def file_inv_def SafeQueue_size_def)
qed

text \<open>An operating system that does everything it is asked.\<close>

definition obliging_fs :: fs where
  "obliging_fs log c =
     (case c of FS_open _ \<Rightarrow> 3 | FS_write _ buff \<Rightarrow> int (length buff) | FS_create_directories _ \<Rightarrow> 1 | _ \<Rightarrow> 0)"

definition demo_log_env :: log_env where
  "demo_log_env = \<lparr>le_fs = obliging_fs, le_pname = ''login'', le_pid = 7, le_cwd = ''/srv'', le_rough = (\<lambda>_. ''now'')\<rparr>"

lemma obliging_writes: "writes_all (le_fs demo_log_env)" "writes_at_most (le_fs demo_log_env)"
  by (simp_all add: writes_all_def writes_at_most_def demo_log_env_def obliging_fs_def)

lemma demo_logger_starts:
  "\<exists>lg log. Logger_init demo_log_env () None 5 ''log'' 0 True (new_Logger (\<lambda>tid. tid)) [] = (Inr (True, lg), log) \<and>
    lg_mStandbyQueueMax lg = 16"
  by (simp add: Logger_init_def Let_def init_settings_sel createDefaultLogPath_def createCustomLogPath_def sys_call_def
      demo_log_env_def obliging_fs_def new_LoggerFile_def Logger_createFile_def createLogFile_def
      generateAbsoluteLogPathName_def)


theorem log_files_bounded_witness:
  "\<exists>lg0 log0 lg log. Logger_init demo_log_env () None 5 ''log'' 0 True (new_Logger (\<lambda>tid. tid)) [] = (Inr (True, lg0), log0) \<and>
    log_run demo_log_env [WriteLine 1 ''ab'', TimerNotify, WorkRound] (lg0, log0) = Inr (lg, log) \<and>
    files_bounded (1024 * 1024) log \<and> SafeQueue_size (lq_empty (lg_queues lg)) \<le> 16"
proof -
  obtain lg0 log0 where s: "Logger_init demo_log_env () None 5 ''log'' 0 True (new_Logger (\<lambda>tid. tid)) [] = (Inr (True, lg0), log0)"
    "lg_mStandbyQueueMax lg0 = 16"
    using demo_logger_starts by blast
  show ?thesis
    using log_files_bounded [OF s(1) _ obliging_writes(2), of "[WriteLine 1 ''ab'', TimerNotify, WorkRound]"] s
    by (simp del: log_run.simps)
qed

section \<open>Log statements\<close>

text \<open>
  \<^verbatim>\<open>LoggerLineMessage\<close>, the object behind \<^verbatim>\<open>LOG_INFO << ...\<close>. How a stream prints a thread id and a
  double is given by arguments; \<open>stamp\<close> is what the clock prints when the level is set.
\<close>

datatype log_level = L_FATAL | L_ERROR | L_WARN | L_INFO | L_DEBUG

datatype log_tag = TAG_CONSOLE | TAG_TODO_MORE

definition LEVELNAME :: "string list" where
  "LEVELNAME = [''[FATAL]'', ''[ERROR]'', ''[WARN ]'', ''[INFO ]'', ''[DEBUG]'']"

fun enum2uint :: "log_level \<Rightarrow> nat" where
  "enum2uint L_FATAL = 0"
| "enum2uint L_ERROR = 1"
| "enum2uint L_WARN = 2"
| "enum2uint L_INFO = 3"
| "enum2uint L_DEBUG = 4"

record line_message =
  lm_mOss :: string
  lm_mTID :: tid
  lm_mCout :: bool
  lm_mLevel :: log_level
  lm_mFileName :: string
  lm_mFuncName :: string
  lm_mLine :: nat

record stream_format =
  sf_tid :: "tid \<Rightarrow> string"
  sf_double :: "f64 \<Rightarrow> string"

definition to_stream :: "string \<Rightarrow> line_message \<Rightarrow> line_message" where
  "to_stream s m = m\<lparr>lm_mOss := lm_mOss m @ s\<rparr>"

definition preoccuipedStr :: "stream_format \<Rightarrow> string \<Rightarrow> log_level \<Rightarrow> line_message \<Rightarrow> line_message" where
  "preoccuipedStr fmt stamp level m =
     (let index = enum2uint level;
          rest = ''['' @ sf_tid fmt (lm_mTID m) @ ''][''  @ stamp @ ''][''  @ lm_mFileName m @ '':'' @
                 lm_mFuncName m @ '':'' @ decimal (lm_mLine m) @ '']'' in
      if index < length LEVELNAME
      then to_stream (LEVELNAME ! index @ rest) (if index \<le> 2 then m\<lparr>lm_mCout := True\<rparr> else m)
      else to_stream (''[UNDEF]'' @ rest) m)"

definition new_LoggerLineMessage ::
  "stream_format \<Rightarrow> string \<Rightarrow> log_level \<Rightarrow> string \<Rightarrow> string \<Rightarrow> nat \<Rightarrow> tid \<Rightarrow> line_message"
where
  "new_LoggerLineMessage fmt stamp level src func line tid =
     preoccuipedStr fmt stamp level
       \<lparr>lm_mOss = [], lm_mTID = tid, lm_mCout = False, lm_mLevel = level, lm_mFileName = src,
        lm_mFuncName = func, lm_mLine = line\<rparr>"

datatype log_arg =
    ArgChar char | ArgInt i32 | ArgUint "32 word" | ArgInt64 u64 | ArgUint64 u64 | ArgDouble f64
  | ArgString string | ArgTid tid | ArgTag log_tag | ArgLevel log_level string

fun stream_op :: "stream_format \<Rightarrow> log_arg \<Rightarrow> line_message \<Rightarrow> line_message" where
  "stream_op fmt (ArgChar c) m = to_stream [c] m"
| "stream_op fmt (ArgInt i) m = to_stream (to_string (sint i)) m"
| "stream_op fmt (ArgUint i) m = to_stream (decimal (unat i)) m"
| "stream_op fmt (ArgInt64 i) m = to_stream (to_string (sint i)) m"
| "stream_op fmt (ArgUint64 i) m = to_stream (decimal (unat i)) m"
| "stream_op fmt (ArgDouble x) m = to_stream (sf_double fmt x) m"
| "stream_op fmt (ArgString s) m = to_stream s m"
| "stream_op fmt (ArgTid t) m = to_stream (sf_tid fmt t) m"
| "stream_op fmt (ArgTag tag) m = (if tag = TAG_CONSOLE then m\<lparr>lm_mCout := True\<rparr> else m)"
| "stream_op fmt (ArgLevel level stamp) m = preoccuipedStr fmt stamp level m"

text \<open>The destructor: the line goes to the logger of the process, if there is one, and to the
  terminal, if the level or a tag asks for it. The second result is the output on the terminal.\<close>

definition LoggerLineMessage_push :: "line_message \<Rightarrow> 'f logger option \<Rightarrow> ('f logger option \<times> string) result" where
  "LoggerLineMessage_push m linked =
     (let line = lm_mOss m @ [CHR 0x0A] in
      case linked of
        None \<Rightarrow> Inr (None, ''not link'' @ [CHR 0x0A] @ line)
      | Some lg \<Rightarrow> rbind (write_line (lm_mTID m) line lg) (\<lambda>lg. Inr (Some lg, if lm_mCout m then line else [])))"

definition log_statement ::
  "stream_format \<Rightarrow> string \<Rightarrow> log_level \<Rightarrow> string \<Rightarrow> string \<Rightarrow> nat \<Rightarrow> tid \<Rightarrow> log_arg list \<Rightarrow> 'f logger option \<Rightarrow>
   ('f logger option \<times> string) result"
where
  "log_statement fmt stamp level src func line tid args linked =
     LoggerLineMessage_push (fold (stream_op fmt) args (new_LoggerLineMessage fmt stamp level src func line tid)) linked"

end
