(* ===== verification/R_Thread.thy ===== *)
theory R_Thread
  imports Safe_Queue
begin

text \<open>
  \<^verbatim>\<open>Base/thread/RThread.{h,inl}\<close> and \<^verbatim>\<open>ThreadParam.h\<close>: a thread with a local queue of tasks, which it
  fills from an external queue that several threads share, and the commands by which others stop,
  resume, cancel or change it. The thread is a program counter over the statements of \<^verbatim>\<open>work\<close> that
  touch shared members; a command is the list of the writes it makes, in order, and since the code
  takes no lock around them the steps of the thread may come between any two of them.

  What a task does is the argument \<open>call\<close>: it returns a value or throws. A task that was made from a
  function without a result has no future. The external queues and the queues of results are
  objects with an address; \<open>te_owned a\<close> says that the use count of the queue at \<open>a\<close> is not zero, which
  is what \<^verbatim>\<open>weak_ptr::lock\<close> asks.
\<close>

section \<open>Tasks\<close>

datatype 'v call_result = Returned 'v | Threw

record 'f task_with_future =
  tk_mFunc :: 'f
  tk_mFuture :: bool

definition RTHREAD_MAX_LOAD_NUMBER :: nat where "RTHREAD_MAX_LOAD_NUMBER = 10"
definition LAST_EXPECTED_NUMBER :: nat where "LAST_EXPECTED_NUMBER = 4"
definition MAX_THREADS_NUM :: nat where "MAX_THREADS_NUM = 256"

text \<open>\<^verbatim>\<open>addTask\<close>: a function that returns a value (\<open>has_result\<close>) is wrapped into a packaged task.\<close>

definition thd_addTask ::
  "'f \<Rightarrow> bool \<Rightarrow> 'f task_with_future safe_queue \<Rightarrow> 'f task_with_future safe_queue"
where
  "thd_addTask f has_result q = SafeQueue_push \<lparr>tk_mFunc = f, tk_mFuture = has_result\<rparr> q"

record ('f, 'v) thread_env =
  te_tasks :: "nat \<Rightarrow> 'f task_with_future safe_queue"
  te_owned :: "nat \<Rightarrow> bool"
  te_results :: "nat \<Rightarrow> 'v safe_queue"
  te_results_owned :: "nat \<Rightarrow> bool"

section \<open>The members of a thread and where it stands\<close>

datatype thread_pc =
    AtStart | AtLoop | AtWait | AtBlock | AtSleep | AtLock
  | AtLook "nat option" | AtPop "nat option" | AtCall "nat option" | AtFetch "nat option" | AtLevel "nat option"
  | AtWipe | AtDrain | AtDrainPop | AtDrainCall | AtEnd | Ended

record ('f, 'v) rthread =
  rt_mRunning :: bool
  rt_mStop :: bool
  rt_mInactive :: bool
  rt_mWipe :: bool
  rt_mID :: "nat option"
  rt_mMaxLoadSize :: nat
  rt_mMiddleweight :: nat
  rt_mLightweight :: nat
  rt_mCaptureFuture :: bool
  rt_mTaskResult :: "'v option"
  rt_mTasks :: "'f task_with_future safe_queue"
  rt_mExternalTasksPtr :: "nat option"
  rt_mResultsQueuePtr :: "nat option"
  rt_pc :: thread_pc
  rt_hand :: "'f task_with_future option"
  rt_done :: bool
  rt_ran :: "'f task_with_future list"

text \<open>
  \<open>rt_hand\<close> is the variable \<^verbatim>\<open>taskWithFut\<close> of \<^verbatim>\<open>work\<close>, \<open>rt_done\<close> says that what it holds has been
  called already, and \<open>rt_ran\<close> lists the calls made so far. A result never assigned is \<open>None\<close>.
\<close>

definition new_RThread :: "('f, 'v) rthread" where
  "new_RThread =
     \<lparr>rt_mRunning = False, rt_mStop = False, rt_mInactive = False, rt_mWipe = False, rt_mID = None,
      rt_mMaxLoadSize = RTHREAD_MAX_LOAD_NUMBER, rt_mMiddleweight = RTHREAD_MAX_LOAD_NUMBER div 2,
      rt_mLightweight = RTHREAD_MAX_LOAD_NUMBER div 4, rt_mCaptureFuture = False, rt_mTaskResult = None,
      rt_mTasks = new_SafeQueue, rt_mExternalTasksPtr = None, rt_mResultsQueuePtr = None,
      rt_pc = AtStart, rt_hand = None, rt_done = False, rt_ran = []\<rparr>"

definition lock_tasks :: "('f, 'v) rthread \<Rightarrow> ('f, 'v) thread_env \<Rightarrow> nat option" where
  "lock_tasks rt env =
     (case rt_mExternalTasksPtr rt of None \<Rightarrow> None | Some a \<Rightarrow> if te_owned env a then Some a else None)"

definition lock_results :: "('f, 'v) rthread \<Rightarrow> ('f, 'v) thread_env \<Rightarrow> nat option" where
  "lock_results rt env =
     (case rt_mResultsQueuePtr rt of None \<Rightarrow> None | Some a \<Rightarrow> if te_results_owned env a then Some a else None)"

definition linkExternalTasks ::
  "nat option \<Rightarrow> ('f, 'v) rthread \<Rightarrow> ('f, 'v) thread_env \<Rightarrow> bool \<times> ('f, 'v) rthread"
where
  "linkExternalTasks p rt env =
     (let rt = rt\<lparr>rt_mExternalTasksPtr := p\<rparr> in (lock_tasks rt env \<noteq> None, rt))"

definition externalTasksLinked :: "('f, 'v) rthread \<Rightarrow> ('f, 'v) thread_env \<Rightarrow> bool" where
  "externalTasksLinked rt env = (lock_tasks rt env \<noteq> None)"

definition linkResultsQueue ::
  "nat option \<Rightarrow> ('f, 'v) rthread \<Rightarrow> ('f, 'v) thread_env \<Rightarrow> bool \<times> ('f, 'v) rthread"
where
  "linkResultsQueue p rt env =
     (let rt = rt\<lparr>rt_mResultsQueuePtr := p\<rparr> in (lock_results rt env \<noteq> None, rt))"

definition resultsQueueLinked :: "('f, 'v) rthread \<Rightarrow> ('f, 'v) thread_env \<Rightarrow> bool" where
  "resultsQueueLinked rt env = (lock_results rt env \<noteq> None)"

section \<open>Taking tasks from the external queue\<close>

text \<open>
  \<^verbatim>\<open>loadRatio\<close> divides as \<^verbatim>\<open>float\<close> and is compared with the constants 0.8 and 0.2 rounded to \<^verbatim>\<open>float\<close>. For
  sizes below \<open>2 ^ 24\<close> both operands are exact, and the rounded quotient reaches 0.8f = 13421773 / 2 ^ 24
  when the true one lies above the midpoint 26843545 / 2 ^ 25 to the float below it (the tie goes
  to that float, whose last digit is even); 0.2f is a quarter of it. By a size of zero the
  quotient is not a number or infinite.
\<close>

definition at_least_high :: "nat \<Rightarrow> nat \<Rightarrow> bool" where
  "at_least_high sz mx = (if mx = 0 then sz > 0 else 26843545 * mx < sz * 2 ^ 25)"

definition at_least_low :: "nat \<Rightarrow> nat \<Rightarrow> bool" where
  "at_least_low sz mx = (if mx = 0 then sz > 0 else 26843545 * mx < sz * 2 ^ 27)"

text \<open>The pair \<^verbatim>\<open>getRatioAndMax\<close> returns, with the ratio as numerator and denominator.\<close>

definition loadRatio :: "('f, 'v) rthread \<Rightarrow> nat \<times> nat" where
  "loadRatio rt = (SafeQueue_size (rt_mTasks rt), rt_mMaxLoadSize rt)"

definition getRatioAndMax :: "('f, 'v) rthread \<Rightarrow> (nat \<times> nat) \<times> nat" where
  "getRatioAndMax rt = (loadRatio rt, rt_mMaxLoadSize rt)"

definition push_all :: "'a list \<Rightarrow> 'a safe_queue \<Rightarrow> 'a safe_queue" where
  "push_all xs q = fold SafeQueue_push xs q"

text \<open>
  \<^verbatim>\<open>addTasks\<close>, with what it returns. With \<open>wait\<close> the call blocks while the queue is empty, which is
  \<open>None\<close>, until the time is out (\<open>out\<close>).
\<close>

definition addTasks ::
  "nat option \<Rightarrow> bool \<Rightarrow> nat \<Rightarrow> bool \<Rightarrow> ('f, 'v) rthread \<Rightarrow> ('f, 'v) thread_env \<Rightarrow>
   (int \<times> ('f, 'v) rthread \<times> ('f, 'v) thread_env) option"
where
  "addTasks p wait n out rt env =
     (if n < 1 then Some (-1, rt, env)
      else case p of
        None \<Rightarrow> Some (-1, rt, env)
      | Some a \<Rightarrow>
          if n = 1
          then case SafeQueue_pop (te_tasks env a) of
                 (Some t, q) \<Rightarrow> Some (1, rt\<lparr>rt_mTasks := SafeQueue_push t (rt_mTasks rt)\<rparr>,
                                      env\<lparr>te_tasks := (te_tasks env)(a := q)\<rparr>)
               | (None, q) \<Rightarrow> if wait \<and> \<not> out then None else Some (0, rt, env)
          else case SafeQueue_popN [] (min n (rt_mMaxLoadSize rt div 2)) (te_tasks env a) of
                 (sz, temp, q) \<Rightarrow> Some (int (length temp), rt\<lparr>rt_mTasks := push_all temp (rt_mTasks rt)\<rparr>,
                                       env\<lparr>te_tasks := (te_tasks env)(a := q)\<rparr>))"

text \<open>Not a number (no load and a limit of zero) is neither above nor below a bound.\<close>

definition addByLevel ::
  "nat option \<Rightarrow> nat \<Rightarrow> nat \<Rightarrow> ('f, 'v) rthread \<Rightarrow> ('f, 'v) thread_env \<Rightarrow> ('f, 'v) rthread \<times> ('f, 'v) thread_env"
where
  "addByLevel p middleweight lightweight rt env =
     (let sz = SafeQueue_size (rt_mTasks rt); mx = rt_mMaxLoadSize rt in
      if p = None \<or> at_least_high sz mx \<or> mx = 0 then (rt, env)
      else case addTasks p False (if at_least_low sz mx then lightweight else middleweight) False rt env of
             Some (x, rt, env) \<Rightarrow> (rt, env)
           | None \<Rightarrow> (rt, env))"

section \<open>The thread\<close>

text \<open>
  Calling what \<^verbatim>\<open>taskWithFut\<close> holds: an empty function and a packaged task that was called before
  throw; what a packaged task throws stays in its future until somebody asks for the result.
  An exception that leaves \<^verbatim>\<open>work\<close> ends the process.
\<close>

definition call_hand ::
  "('f \<Rightarrow> 'v call_result) \<Rightarrow> ('f, 'v) rthread \<Rightarrow> ('f, 'v) thread_env \<Rightarrow> (('f, 'v) rthread \<times> ('f, 'v) thread_env) result"
where
  "call_hand call rt env =
     (case rt_hand rt of
        None \<Rightarrow> Inl TaskException
      | Some t \<Rightarrow>
          if tk_mFuture t \<and> rt_done rt then Inl TaskException
          else let rt = rt\<lparr>rt_ran := rt_ran rt @ [t], rt_done := True\<rparr> in
            case call (tk_mFunc t) of
              Threw \<Rightarrow> if tk_mFuture t \<and> \<not> rt_mCaptureFuture rt then Inr (rt, env) else Inl TaskException
            | Returned v \<Rightarrow>
                if rt_mCaptureFuture rt \<and> tk_mFuture t
                then Inr (rt\<lparr>rt_mTaskResult := Some v\<rparr>,
                       (case lock_results rt env of
                          None \<Rightarrow> env
                        | Some a \<Rightarrow> env\<lparr>te_results := (te_results env)(a := SafeQueue_push v (te_results env a))\<rparr>))
                else Inr (rt, env))"

definition goto_pc :: "thread_pc \<Rightarrow> ('f, 'v) rthread \<Rightarrow> ('f, 'v) rthread" where
  "goto_pc pc rt = rt\<lparr>rt_pc := pc\<rparr>"

definition pop_hand :: "('f, 'v) rthread \<Rightarrow> ('f, 'v) rthread" where
  "pop_hand rt =
     (case SafeQueue_pop (rt_mTasks rt) of
        (Some t, q) \<Rightarrow> rt\<lparr>rt_hand := Some t, rt_done := False, rt_mTasks := q\<rparr>
      | (None, q) \<Rightarrow> rt)"

text \<open>
  One step of \<^verbatim>\<open>work\<close>. \<open>out\<close> ends a timed wait, and at \<open>AtSleep\<close> it is a spurious wake-up. Between
  \<open>AtBlock\<close>, where the condition has been found false, and \<open>AtSleep\<close> nobody can be woken yet.
\<close>

definition thread_step ::
  "('f \<Rightarrow> 'v call_result) \<Rightarrow> nat \<Rightarrow> bool \<Rightarrow> ('f, 'v) rthread \<times> ('f, 'v) thread_env \<Rightarrow>
   (('f, 'v) rthread \<times> ('f, 'v) thread_env) result"
where
  "thread_step call tid out = (\<lambda>(rt, env).
     (case rt_pc rt of
        AtStart \<Rightarrow> Inr (goto_pc AtLoop (rt\<lparr>rt_mID := Some tid, rt_mRunning := True\<rparr>), env)
      | AtLoop \<Rightarrow> Inr (goto_pc (if rt_mRunning rt then AtWait else AtWipe) rt, env)
      | AtWait \<Rightarrow> Inr (goto_pc (if rt_mStop rt then AtBlock else AtLock) rt, env)
      | AtBlock \<Rightarrow> Inr (goto_pc AtSleep rt, env)
      | AtSleep \<Rightarrow> Inr (goto_pc (if out then AtWait else AtSleep) rt, env)
      | AtLock \<Rightarrow> Inr (goto_pc (AtLook (lock_tasks rt env)) rt, env)
      | AtLook p \<Rightarrow>
          Inr (goto_pc (if \<not> SafeQueue_empty (rt_mTasks rt) then AtPop p
                        else if p = None then Ended else AtFetch p) rt, env)
      | AtPop p \<Rightarrow> Inr (goto_pc (AtCall p) (pop_hand rt), env)
      | AtCall p \<Rightarrow> rbind (call_hand call rt env) (\<lambda>(rt, env). Inr (goto_pc (AtLevel p) rt, env))
      | AtFetch p \<Rightarrow>
          (case addTasks p True 1 out rt env of
             None \<Rightarrow> Inr (rt, env)
           | Some (x, rt, env) \<Rightarrow> Inr (goto_pc (AtLevel p) rt, env))
      | AtLevel p \<Rightarrow>
          (case addByLevel p (rt_mMiddleweight rt) (rt_mLightweight rt) rt env of (rt, env) \<Rightarrow>
             Inr (goto_pc AtLoop rt, env))
      | AtWipe \<Rightarrow> Inr (goto_pc (if rt_mWipe rt then AtDrain else AtEnd) rt, env)
      | AtDrain \<Rightarrow> Inr (goto_pc (if SafeQueue_empty (rt_mTasks rt) then AtEnd else AtDrainPop) rt, env)
      | AtDrainPop \<Rightarrow> Inr (goto_pc AtDrainCall (pop_hand rt), env)
      | AtDrainCall \<Rightarrow> rbind (call_hand call rt env) (\<lambda>(rt, env). Inr (goto_pc AtDrain rt, env))
      | AtEnd \<Rightarrow> Inr (goto_pc Ended (rt\<lparr>rt_mInactive := True\<rparr>), env)
      | Ended \<Rightarrow> Inr (rt, env)))"

section \<open>Commands\<close>

datatype rt_write =
    SetRunning bool | SetStop bool | SetWipe | SetExternal "nat option" | SetResults "nat option" | ClearTasks
  | SetCapture bool | SetMax nat | SetMiddle nat | SetLight nat | NotifyOne

fun write_member :: "rt_write \<Rightarrow> ('f, 'v) rthread \<Rightarrow> ('f, 'v) rthread" where
  "write_member (SetRunning b) rt = rt\<lparr>rt_mRunning := b\<rparr>"
| "write_member (SetStop b) rt = rt\<lparr>rt_mStop := b\<rparr>"
| "write_member SetWipe rt = rt\<lparr>rt_mWipe := True\<rparr>"
| "write_member (SetExternal p) rt = rt\<lparr>rt_mExternalTasksPtr := p\<rparr>"
| "write_member (SetResults p) rt = rt\<lparr>rt_mResultsQueuePtr := p\<rparr>"
| "write_member ClearTasks rt = rt\<lparr>rt_mTasks := SafeQueue_clear (rt_mTasks rt)\<rparr>"
| "write_member (SetCapture b) rt = rt\<lparr>rt_mCaptureFuture := b\<rparr>"
| "write_member (SetMax n) rt = rt\<lparr>rt_mMaxLoadSize := n\<rparr>"
| "write_member (SetMiddle n) rt = rt\<lparr>rt_mMiddleweight := n\<rparr>"
| "write_member (SetLight n) rt = rt\<lparr>rt_mLightweight := n\<rparr>"
| "write_member NotifyOne rt = (if rt_pc rt = AtSleep then goto_pc AtWait rt else rt)"

definition rt_stop :: "rt_write list" where
  "rt_stop = [SetStop True, NotifyOne, SetExternal None]"

definition rt_resume :: "nat option \<Rightarrow> rt_write list" where
  "rt_resume p = [SetStop False, SetExternal p, NotifyOne]"

definition rt_cancel :: "rt_write list" where
  "rt_cancel = [SetRunning False, SetExternal None, ClearTasks]"

definition cancelWhenComplete :: "rt_write list" where
  "cancelWhenComplete = [SetRunning False, SetWipe, SetExternal None]"

definition updateMember :: "nat \<Rightarrow> nat \<Rightarrow> nat \<Rightarrow> nat option \<Rightarrow> rt_write list result" where
  "updateMember maxLoadSize middleweightDiv lightweightDiv p =
     (if middleweightDiv = 0 \<or> lightweightDiv = 0 then Inl DivideByZero
      else Inr [SetMax maxLoadSize, SetMiddle (maxLoadSize div middleweightDiv),
                SetLight (maxLoadSize div lightweightDiv), SetExternal p])"

datatype command_type =
    CMD_NONE | CMD_STOP | CMD_RESUME | CMD_CANCEL | CMD_UPDATE_DATA | CMD_CANCEL_WHEN_COMPLETE | CMD_CAPTURE_FUTURE_SWITCH

fun command_writes ::
  "command_type \<Rightarrow> nat option \<Rightarrow> nat \<Rightarrow> nat \<Rightarrow> nat \<Rightarrow> ('f, 'v) rthread \<Rightarrow> rt_write list result"
where
  "command_writes CMD_NONE extPtr maxSize md ld rt = Inr []"
| "command_writes CMD_STOP extPtr maxSize md ld rt = Inr rt_stop"
| "command_writes CMD_RESUME extPtr maxSize md ld rt = Inr (rt_resume extPtr)"
| "command_writes CMD_CANCEL extPtr maxSize md ld rt = Inr rt_cancel"
| "command_writes CMD_UPDATE_DATA extPtr maxSize md ld rt = updateMember maxSize md ld extPtr"
| "command_writes CMD_CANCEL_WHEN_COMPLETE extPtr maxSize md ld rt = Inr cancelWhenComplete"
| "command_writes CMD_CAPTURE_FUTURE_SWITCH extPtr maxSize md ld rt = Inr [SetCapture (\<not> rt_mCaptureFuture rt)]"

text \<open>A command nobody interrupts, with the default arguments of the declaration.\<close>

definition rt_command :: "command_type \<Rightarrow> ('f, 'v) rthread \<Rightarrow> ('f, 'v) rthread" where
  "rt_command cmd rt =
     (case command_writes cmd None 10 2 4 rt of Inl e \<Rightarrow> rt | Inr ws \<Rightarrow> fold write_member ws rt)"

text \<open>The destructor up to its \<^verbatim>\<open>join\<close>.\<close>

definition delete_RThread :: "rt_write list" where
  "delete_RThread = [SetExternal None, ClearTasks]"

section \<open>Threads that share queues\<close>

datatype 'f pool_event = Own nat bool | Write nat rt_write | PushTask nat 'f bool | Expire nat

type_synonym ('f, 'v) threads = "('f, 'v) rthread list \<times> ('f, 'v) thread_env"

fun pool_step :: "('f \<Rightarrow> 'v call_result) \<Rightarrow> 'f pool_event \<Rightarrow> ('f, 'v) threads \<Rightarrow> ('f, 'v) threads result" where
  "pool_step call (Own i out) (ths, env) =
     (if i < length ths
      then rbind (thread_step call i out (ths ! i, env)) (\<lambda>(rt, env). Inr (ths[i := rt], env))
      else Inr (ths, env))"
| "pool_step call (Write i w) (ths, env) =
     Inr (if i < length ths then ths[i := write_member w (ths ! i)] else ths, env)"
| "pool_step call (PushTask a f has_result) (ths, env) =
     Inr (ths, env\<lparr>te_tasks := (te_tasks env)(a := thd_addTask f has_result (te_tasks env a))\<rparr>)"
| "pool_step call (Expire a) (ths, env) = Inr (ths, env\<lparr>te_owned := (te_owned env)(a := False)\<rparr>)"

fun pool_run :: "('f \<Rightarrow> 'v call_result) \<Rightarrow> 'f pool_event list \<Rightarrow> ('f, 'v) threads \<Rightarrow> ('f, 'v) threads result" where
  "pool_run call [] s = Inr s"
| "pool_run call (e # es) s = rbind (pool_step call e s) (pool_run call es)"

section \<open>Every task runs once, in order\<close>

text \<open>What a thread has run, is about to run and keeps in its local queue.\<close>

definition in_hand :: "('f, 'v) rthread \<Rightarrow> 'f task_with_future list" where
  "in_hand rt =
     (case rt_pc rt of
        AtCall p \<Rightarrow> (case rt_hand rt of None \<Rightarrow> [] | Some t \<Rightarrow> [t])
      | AtDrainCall \<Rightarrow> (case rt_hand rt of None \<Rightarrow> [] | Some t \<Rightarrow> [t])
      | _ \<Rightarrow> [])"

definition accounted :: "('f, 'v) rthread \<Rightarrow> 'f task_with_future list" where
  "accounted rt = rt_ran rt @ in_hand rt @ sq_mData (rt_mTasks rt)"

text \<open>What holds between the statements of \<^verbatim>\<open>work\<close> while nobody clears the local queue.\<close>

definition thread_ok :: "('f, 'v) rthread \<Rightarrow> bool" where
  "thread_ok rt =
     (case rt_pc rt of
        AtPop p \<Rightarrow> sq_mData (rt_mTasks rt) \<noteq> []
      | AtDrainPop \<Rightarrow> sq_mData (rt_mTasks rt) \<noteq> []
      | AtCall p \<Rightarrow> rt_hand rt \<noteq> None \<and> \<not> rt_done rt
      | AtDrainCall \<Rightarrow> rt_hand rt \<noteq> None \<and> \<not> rt_done rt
      | _ \<Rightarrow> True)"

definition never_throws :: "('f \<Rightarrow> 'v call_result) \<Rightarrow> bool" where
  "never_throws call = (\<forall>f. call f \<noteq> Threw)"

text \<open>The queues after a thread has taken \<open>c\<close> from the front of the one at \<open>p\<close>.\<close>

definition took ::
  "nat option \<Rightarrow> 'f task_with_future list \<Rightarrow> ('f, 'v) thread_env \<Rightarrow> ('f, 'v) thread_env \<Rightarrow> bool"
where
  "took p c env env' =
     ((\<forall>a. sq_mData (te_tasks env a) = (if p = Some a then c else []) @ sq_mData (te_tasks env' a)) \<and>
      (p = None \<longrightarrow> c = []) \<and> te_owned env' = te_owned env)"

lemma push_all_data [simp]: "sq_mData (push_all xs q) = sq_mData q @ xs"
  by (induction xs arbitrary: q) (simp_all add: push_all_def SafeQueue_push_def)

lemma took_nothing [simp]: "took p [] env env"
  by (simp add: took_def)

lemma goto_pc_sel [simp]:
  "rt_pc (goto_pc pc rt) = pc" "rt_mTasks (goto_pc pc rt) = rt_mTasks rt" "rt_ran (goto_pc pc rt) = rt_ran rt"
  "rt_hand (goto_pc pc rt) = rt_hand rt" "rt_done (goto_pc pc rt) = rt_done rt"
  "rt_mRunning (goto_pc pc rt) = rt_mRunning rt" "rt_mStop (goto_pc pc rt) = rt_mStop rt"
  "rt_mWipe (goto_pc pc rt) = rt_mWipe rt" "rt_mInactive (goto_pc pc rt) = rt_mInactive rt"
  "rt_mMaxLoadSize (goto_pc pc rt) = rt_mMaxLoadSize rt" "rt_mMiddleweight (goto_pc pc rt) = rt_mMiddleweight rt"
  "rt_mLightweight (goto_pc pc rt) = rt_mLightweight rt" "rt_mExternalTasksPtr (goto_pc pc rt) = rt_mExternalTasksPtr rt"
  by (simp_all add: goto_pc_def)

text \<open>Taking from the external queue changes nothing but the two queues.\<close>

lemma addTasks_takes:
  assumes "addTasks p wait n out rt env = Some (x, rt', env')"
  obtains c where "rt' = rt\<lparr>rt_mTasks := rt_mTasks rt'\<rparr>"
    and "sq_mData (rt_mTasks rt') = sq_mData (rt_mTasks rt) @ c" and "took p c env env'" and "length c \<le> n"
proof (cases "n < 1 \<or> p = None")
  case True
  then show ?thesis using assms that [of "[]"] by (auto simp: addTasks_def split: option.splits)
next
  case False
  then obtain a where p: "p = Some a" and n: "\<not> n < 1" by auto
  show ?thesis
  proof (cases "n = 1")
    case True
    show ?thesis
    proof (cases "sq_mData (te_tasks env a)")
      case Nil
      then show ?thesis using assms that [of "[]"] p n True by (auto simp: addTasks_def SafeQueue_pop_def split: if_splits)
    next
      case (Cons t ts)
      then show ?thesis using assms that [of "[t]"] p n True
        by (auto simp: addTasks_def SafeQueue_pop_def SafeQueue_push_def took_def)
    qed
  next
    case False
    define c where "c = take (min n (rt_mMaxLoadSize rt div 2)) (sq_mData (te_tasks env a))"
    have r: "rt' = rt\<lparr>rt_mTasks := push_all c (rt_mTasks rt)\<rparr>"
      and e: "env' = env\<lparr>te_tasks := (te_tasks env)(a := (te_tasks env a)\<lparr>sq_mData :=
        drop (min n (rt_mMaxLoadSize rt div 2)) (sq_mData (te_tasks env a))\<rparr>)\<rparr>"
      using assms n p False by (simp_all add: addTasks_def SafeQueue_popN_eq c_def)
    show ?thesis
    proof (rule that)
      show "rt' = rt\<lparr>rt_mTasks := rt_mTasks rt'\<rparr>" by (simp add: r)
      show "sq_mData (rt_mTasks rt') = sq_mData (rt_mTasks rt) @ c" by (simp add: r)
      show "took p c env env'" by (simp add: took_def e p c_def)
      show "length c \<le> n" by (simp add: c_def)
    qed
  qed
qed

lemma addByLevel_takes:
  assumes "addByLevel p mw lw rt env = (rt', env')"
  obtains c where "rt' = rt\<lparr>rt_mTasks := rt_mTasks rt'\<rparr>"
    and "sq_mData (rt_mTasks rt') = sq_mData (rt_mTasks rt) @ c" and "took p c env env'"
    and "length c \<le> (if at_least_low (length (sq_mData (rt_mTasks rt))) (rt_mMaxLoadSize rt) then lw else mw)"
    and "at_least_high (length (sq_mData (rt_mTasks rt))) (rt_mMaxLoadSize rt) \<longrightarrow> c = []"
proof (cases "p = None \<or> at_least_high (SafeQueue_size (rt_mTasks rt)) (rt_mMaxLoadSize rt) \<or> rt_mMaxLoadSize rt = 0")
  case True
  then show ?thesis using assms that [of "[]"] by (auto simp: addByLevel_def Let_def SafeQueue_size_def)
next
  case False
  define n where "n = (if at_least_low (SafeQueue_size (rt_mTasks rt)) (rt_mMaxLoadSize rt) then lw else mw)"
  show ?thesis
  proof (cases "addTasks p False n False rt env")
    case None
    then show ?thesis using assms that [of "[]"] False by (auto simp: addByLevel_def Let_def n_def)
  next
    case (Some r)
    then obtain x where "addTasks p False n False rt env = Some (x, rt', env')"
      using assms False by (cases r) (auto simp: addByLevel_def Let_def n_def)
    then obtain c where c: "rt' = rt\<lparr>rt_mTasks := rt_mTasks rt'\<rparr>"
      "sq_mData (rt_mTasks rt') = sq_mData (rt_mTasks rt) @ c" "took p c env env'" "length c \<le> n"
      by (rule addTasks_takes)
    show ?thesis by (rule that [OF c(1-3)]) (use c(4) False in \<open>simp_all add: n_def SafeQueue_size_def\<close>)
  qed
qed

text \<open>The members that only commands change.\<close>

definition control ::
  "('f, 'v) rthread \<Rightarrow> bool \<times> bool \<times> nat \<times> nat \<times> nat \<times> nat option"
where
  "control rt = (rt_mStop rt, rt_mWipe rt, rt_mMaxLoadSize rt, rt_mMiddleweight rt, rt_mLightweight rt,
     rt_mExternalTasksPtr rt)"

lemma control_goto [simp]: "control (goto_pc pc rt) = control rt"
  by (simp add: control_def goto_pc_def)

lemma only_tasks:
  assumes "rt' = rt\<lparr>rt_mTasks := q\<rparr>"
  shows "rt_ran rt' = rt_ran rt" "control rt' = control rt" "rt_pc rt' = rt_pc rt" "rt_mRunning rt' = rt_mRunning rt"
    "rt_mInactive rt' = rt_mInactive rt" "rt_hand rt' = rt_hand rt"
  using assms by (simp_all add: control_def)

lemma call_hand_ok:
  assumes "never_throws call" and "rt_hand rt = Some t" and "\<not> rt_done rt"
  obtains rt' env' where "call_hand call rt env = Inr (rt', env')" and "rt_ran rt' = rt_ran rt @ [t]"
    and "rt_mTasks rt' = rt_mTasks rt" and "control rt' = control rt" and "te_tasks env' = te_tasks env"
    and "te_owned env' = te_owned env" and "rt_mRunning rt' = rt_mRunning rt" and "rt_mInactive rt' = rt_mInactive rt"
proof (cases "call (tk_mFunc t)")
  case (Returned v)
  show ?thesis
    by (rule that [of "fst (projr (call_hand call rt env))" "snd (projr (call_hand call rt env))"])
      (use assms Returned in \<open>auto simp: call_hand_def Let_def control_def split: option.split\<close>)
next
  case Threw
  then show ?thesis using assms(1) by (simp add: never_throws_def)
qed

lemma pop_hand_front:
  assumes "sq_mData (rt_mTasks rt) = t # ts"
  shows "rt_hand (pop_hand rt) = Some t" "\<not> rt_done (pop_hand rt)" "sq_mData (rt_mTasks (pop_hand rt)) = ts"
    "rt_ran (pop_hand rt) = rt_ran rt" "control (pop_hand rt) = control rt"
    "rt_mRunning (pop_hand rt) = rt_mRunning rt" "rt_mInactive (pop_hand rt) = rt_mInactive rt"
  using assms by (simp_all add: pop_hand_def SafeQueue_pop_def control_def)

text \<open>Where a step takes tasks from: only at the two places that have locked a queue.\<close>

definition advanced_thread ::
  "'f task_with_future list \<Rightarrow> nat option \<Rightarrow> ('f, 'v) rthread \<times> ('f, 'v) thread_env \<Rightarrow>
   ('f, 'v) rthread \<times> ('f, 'v) thread_env \<Rightarrow> bool"
where
  "advanced_thread c p = (\<lambda>(rt, env) (rt', env').
     thread_ok rt' \<and> accounted rt' = accounted rt @ c \<and> took p c env env' \<and> control rt' = control rt)"

lemma thread_step_advances:
  assumes ok: "never_throws call" "thread_ok rt"
  obtains rt' env' c p where "thread_step call tid out (rt, env) = Inr (rt', env')"
    and "advanced_thread c p (rt, env) (rt', env')"
proof -
  have "\<exists>rt' env' c p. thread_step call tid out (rt, env) = Inr (rt', env') \<and> advanced_thread c p (rt, env) (rt', env')"
  proof (cases "rt_pc rt")
    case (AtPop p)
    then obtain t ts where q: "sq_mData (rt_mTasks rt) = t # ts"
      using ok(2) by (cases "sq_mData (rt_mTasks rt)") (auto simp: thread_ok_def)
    show ?thesis
      by (rule exI [of _ "goto_pc (AtCall p) (pop_hand rt)"], rule exI [of _ env], rule exI [of _ "[]"], rule exI [of _ None])
        (use pop_hand_front [OF q] in \<open>simp add: thread_step_def AtPop advanced_thread_def thread_ok_def accounted_def in_hand_def q\<close>)
  next
    case AtDrainPop
    then obtain t ts where q: "sq_mData (rt_mTasks rt) = t # ts"
      using ok(2) by (cases "sq_mData (rt_mTasks rt)") (auto simp: thread_ok_def)
    show ?thesis
      by (rule exI [of _ "goto_pc AtDrainCall (pop_hand rt)"], rule exI [of _ env], rule exI [of _ "[]"], rule exI [of _ None])
        (use pop_hand_front [OF q] in \<open>simp add: thread_step_def AtDrainPop advanced_thread_def thread_ok_def accounted_def in_hand_def q\<close>)
  next
    case (AtCall p)
    then obtain t where h: "rt_hand rt = Some t" "\<not> rt_done rt" using ok(2) by (auto simp: thread_ok_def)
    obtain rt' env' where c: "call_hand call rt env = Inr (rt', env')" "rt_ran rt' = rt_ran rt @ [t]"
      "rt_mTasks rt' = rt_mTasks rt" "control rt' = control rt" "te_tasks env' = te_tasks env" "te_owned env' = te_owned env"
      by (rule call_hand_ok [OF ok(1) h])
    show ?thesis
      by (rule exI [of _ "goto_pc (AtLevel p) rt'"], rule exI [of _ env'], rule exI [of _ "[]"], rule exI [of _ None])
        (use c h in \<open>simp add: thread_step_def AtCall advanced_thread_def thread_ok_def accounted_def in_hand_def took_def\<close>)
  next
    case AtDrainCall
    then obtain t where h: "rt_hand rt = Some t" "\<not> rt_done rt" using ok(2) by (auto simp: thread_ok_def)
    obtain rt' env' where c: "call_hand call rt env = Inr (rt', env')" "rt_ran rt' = rt_ran rt @ [t]"
      "rt_mTasks rt' = rt_mTasks rt" "control rt' = control rt" "te_tasks env' = te_tasks env" "te_owned env' = te_owned env"
      by (rule call_hand_ok [OF ok(1) h])
    show ?thesis
      by (rule exI [of _ "goto_pc AtDrain rt'"], rule exI [of _ env'], rule exI [of _ "[]"], rule exI [of _ None])
        (use c h in \<open>simp add: thread_step_def AtDrainCall advanced_thread_def thread_ok_def accounted_def in_hand_def took_def\<close>)
  next
    case (AtFetch p)
    show ?thesis
    proof (cases "addTasks p True 1 out rt env")
      case None
      then show ?thesis using ok(2)
        by (intro exI [of _ rt] exI [of _ env] exI [of _ "[]"] exI [of _ None])
          (simp add: thread_step_def AtFetch advanced_thread_def)
    next
      case (Some r)
      then obtain x rt' env' where r: "addTasks p True 1 out rt env = Some (x, rt', env')" by (cases r) auto
      obtain c where c: "rt' = rt\<lparr>rt_mTasks := rt_mTasks rt'\<rparr>" "sq_mData (rt_mTasks rt') = sq_mData (rt_mTasks rt) @ c"
        "took p c env env'"
        by (rule addTasks_takes [OF r])
      have "rt_ran rt' = rt_ran rt" "control rt' = control rt" using only_tasks [OF c(1)] by simp_all
      then show ?thesis using c(2,3)
        by (intro exI [of _ "goto_pc (AtLevel p) rt'"] exI [of _ env'] exI [of _ c] exI [of _ p])
          (simp add: thread_step_def AtFetch advanced_thread_def r [unfolded One_nat_def] thread_ok_def accounted_def in_hand_def)
    qed
  next
    case (AtLevel p)
    obtain rt' env' where r: "addByLevel p (rt_mMiddleweight rt) (rt_mLightweight rt) rt env = (rt', env')" by fastforce
    obtain c where c: "rt' = rt\<lparr>rt_mTasks := rt_mTasks rt'\<rparr>" "sq_mData (rt_mTasks rt') = sq_mData (rt_mTasks rt) @ c"
      "took p c env env'"
      by (rule addByLevel_takes [OF r])
    have "rt_ran rt' = rt_ran rt" "control rt' = control rt" using only_tasks [OF c(1)] by simp_all
    then show ?thesis using c(2,3)
      by (intro exI [of _ "goto_pc AtLoop rt'"] exI [of _ env'] exI [of _ c] exI [of _ p])
        (simp add: thread_step_def AtLevel advanced_thread_def r thread_ok_def accounted_def in_hand_def)
  qed (intro exI [of _ "fst (projr (thread_step call tid out (rt, env)))"] exI [of _ env] exI [of _ "[]"] exI [of _ None],
      simp add: thread_step_def advanced_thread_def thread_ok_def accounted_def in_hand_def control_def goto_pc_def
        SafeQueue_empty_def split: option.split)+
  then show ?thesis using that by blast
qed

text \<open>The tasks handed to the queue at an address, and the takings of a run: who took what from where.\<close>

fun handed :: "nat \<Rightarrow> 'f pool_event list \<Rightarrow> 'f task_with_future list" where
  "handed a [] = []"
| "handed a (PushTask b f has_result # es) = (if b = a then [\<lparr>tk_mFunc = f, tk_mFuture = has_result\<rparr>] else []) @ handed a es"
| "handed a (_ # es) = handed a es"

type_synonym 'f taking = "nat \<times> nat \<times> 'f task_with_future"

definition taken_from :: "nat \<Rightarrow> 'f taking list \<Rightarrow> 'f task_with_future list" where
  "taken_from a ts = map (\<lambda>x. snd (snd x)) (filter (\<lambda>x. fst (snd x) = a) ts)"

definition taken_by :: "nat \<Rightarrow> 'f taking list \<Rightarrow> 'f task_with_future list" where
  "taken_by i ts = map (\<lambda>x. snd (snd x)) (filter (\<lambda>x. fst x = i) ts)"

text \<open>No command of the run throws the local tasks away.\<close>

definition nothing_cleared :: "'f pool_event list \<Rightarrow> bool" where
  "nothing_cleared es = (\<forall>i. Write i ClearTasks \<notin> set es)"

lemma taken_simps [simp]:
  "taken_from a [] = []" "taken_by i [] = []"
  "taken_from a (ts @ us) = taken_from a ts @ taken_from a us"
  "taken_by i (ts @ us) = taken_by i ts @ taken_by i us"
  by (simp_all add: taken_from_def taken_by_def)

lemma taken_tagged [simp]:
  "taken_from a (map (\<lambda>t. (i, b, t)) c) = (if b = a then c else [])"
  "taken_by j (map (\<lambda>t. (i, b, t)) c) = (if i = j then c else [])"
  by (simp_all add: taken_from_def taken_by_def filter_map o_def)

definition all_accounted ::
  "'f pool_event list \<Rightarrow> 'f taking list \<Rightarrow> ('f, 'v) threads \<Rightarrow> ('f, 'v) threads \<Rightarrow> bool"
where
  "all_accounted es takes = (\<lambda>(ths, env) (ths', env').
     length ths' = length ths \<and> (\<forall>rt \<in> set ths'. thread_ok rt) \<and>
     (\<forall>a. sq_mData (te_tasks env a) @ handed a es = taken_from a takes @ sq_mData (te_tasks env' a)) \<and>
     (\<forall>i < length ths. accounted (ths' ! i) = accounted (ths ! i) @ taken_by i takes))"

lemma handed_append [simp]: "handed a (es @ fs) = handed a es @ handed a fs"
  by (induction a es rule: handed.induct) simp_all

lemma all_accounted_trans:
  assumes "all_accounted es takes s s'" and "all_accounted fs takes2 s' s''"
  shows "all_accounted (es @ fs) (takes @ takes2) s s''"
proof -
  obtain ths env where s: "s = (ths, env)" by fastforce
  obtain ths' env' where s': "s' = (ths', env')" by fastforce
  obtain ths'' env'' where s'': "s'' = (ths'', env'')" by fastforce
  have "sq_mData (te_tasks env a) @ handed a (es @ fs) = taken_from a (takes @ takes2) @ sq_mData (te_tasks env'' a)" for a
  proof -
    have "sq_mData (te_tasks env a) @ handed a es = taken_from a takes @ sq_mData (te_tasks env' a)"
      "sq_mData (te_tasks env' a) @ handed a fs = taken_from a takes2 @ sq_mData (te_tasks env'' a)"
      using assms by (simp_all add: s s' s'' all_accounted_def)
    then show ?thesis by (metis append.assoc handed_append taken_simps(3))
  qed
  then show ?thesis using assms by (simp add: s s' s'' all_accounted_def)
qed

lemma same_work:
  assumes "rt_pc rt' = rt_pc rt" and "rt_mTasks rt' = rt_mTasks rt" and "rt_hand rt' = rt_hand rt"
    and "rt_done rt' = rt_done rt" and "rt_ran rt' = rt_ran rt" and "thread_ok rt"
  shows "thread_ok rt' \<and> accounted rt' = accounted rt"
  using assms by (cases "rt_pc rt") (simp_all add: thread_ok_def accounted_def in_hand_def)

lemma write_member_ok:
  assumes "w \<noteq> ClearTasks" and "thread_ok rt"
  shows "thread_ok (write_member w rt) \<and> accounted (write_member w rt) = accounted rt"
proof (cases w)
  case NotifyOne
  then show ?thesis using assms(2) by (simp add: thread_ok_def accounted_def in_hand_def goto_pc_def)
qed (rule same_work; use assms in simp)+

lemma pool_step_accounted:
  assumes "never_throws call" and "\<forall>rt \<in> set ths. thread_ok rt" and "nothing_cleared [e]"
  obtains s' takes where "pool_step call e (ths, env) = Inr s'" and "all_accounted [e] takes (ths, env) s'"
proof (cases e)
  case (Own i out)
  show ?thesis
  proof (cases "i < length ths")
    case True
    then have ok: "thread_ok (ths ! i)" using assms(2) by simp
    obtain rt' env' c p where st: "thread_step call i out (ths ! i, env) = Inr (rt', env')"
      "advanced_thread c p (ths ! i, env) (rt', env')"
      by (rule thread_step_advances [OF assms(1) ok])
    define takes where "takes = (case p of None \<Rightarrow> [] | Some a \<Rightarrow> map (\<lambda>t. (i, a, t)) c)"
    have tk: "took p c env env'" using st(2) by (simp add: advanced_thread_def)
    have "all_accounted [e] takes (ths, env) (ths[i := rt'], env')"
      using st(2) tk assms(2) Own True
      by (auto simp: all_accounted_def advanced_thread_def takes_def took_def nth_list_update dest!: set_update_subset_insert [THEN subsetD]
          split: option.splits)
    moreover have "pool_step call e (ths, env) = Inr (ths[i := rt'], env')" using st(1) True Own by simp
    ultimately show ?thesis using that by blast
  next
    case False
    have "all_accounted [e] [] (ths, env) (ths, env)" using assms(2) Own by (simp add: all_accounted_def)
    then show ?thesis using that False Own by simp
  qed
next
  case (Write i w)
  then have w: "w \<noteq> ClearTasks" using assms(3) by (auto simp: nothing_cleared_def)
  have ok: "thread_ok (write_member w (ths ! i))" "accounted (write_member w (ths ! i)) = accounted (ths ! i)"
    if "i < length ths"
    using write_member_ok [OF w, of "ths ! i"] assms(2) nth_mem [OF that] by blast+
  have "all_accounted [e] [] (ths, env) (if i < length ths then ths[i := write_member w (ths ! i)] else ths, env)"
    using assms(2) Write ok
    by (auto simp: all_accounted_def nth_list_update dest!: set_update_subset_insert [THEN subsetD])
  then show ?thesis using that Write by simp
next
  case (PushTask a f has_result)
  have "all_accounted [e] [] (ths, env)
    (ths, env\<lparr>te_tasks := (te_tasks env)(a := thd_addTask f has_result (te_tasks env a))\<rparr>)"
    using assms(2) PushTask by (auto simp: all_accounted_def thd_addTask_def SafeQueue_push_def)
  then show ?thesis using that PushTask by simp
next
  case (Expire a)
  have "all_accounted [e] [] (ths, env) (ths, env\<lparr>te_owned := (te_owned env)(a := False)\<rparr>)"
    using assms(2) Expire by (simp add: all_accounted_def)
  then show ?thesis using that Expire by simp
qed

lemma pool_run_accounted:
  assumes "never_throws call" and "\<forall>rt \<in> set ths. thread_ok rt" and "nothing_cleared es"
  shows "\<exists>s' takes. pool_run call es (ths, env) = Inr s' \<and> all_accounted es takes (ths, env) s'"
  using assms(2,3)
proof (induction es arbitrary: ths env)
  case Nil
  then show ?case by (intro exI [of _ "(ths, env)"] exI [of _ "[]"]) (simp add: all_accounted_def)
next
  case (Cons e es)
  have "nothing_cleared [e]" "nothing_cleared es" using Cons.prems(2) by (simp_all add: nothing_cleared_def)
  obtain s1 tk1 where s1: "pool_step call e (ths, env) = Inr s1" "all_accounted [e] tk1 (ths, env) s1"
    by (rule pool_step_accounted [OF assms(1) Cons.prems(1) \<open>nothing_cleared [e]\<close>])
  obtain ths1 env1 where p: "s1 = (ths1, env1)" by fastforce
  have "\<forall>rt \<in> set ths1. thread_ok rt" using s1(2) by (simp add: p all_accounted_def)
  then obtain s2 tk2 where s2: "pool_run call es s1 = Inr s2" "all_accounted es tk2 s1 s2"
    using Cons.IH \<open>nothing_cleared es\<close> p by blast
  have "all_accounted (e # es) (tk1 @ tk2) (ths, env) s2" using all_accounted_trans [OF s1(2) s2(2)] by simp
  then show ?case using s1(1) s2(1) by auto
qed

text \<open>
  C21. However the threads of a pool interleave with each other, with producers and with the writes of
  any commands but \<^verbatim>\<open>CANCEL\<close>, every task that was put into an external queue is still there or was
  taken by exactly one thread, the queues are emptied from the front, and each thread has run,
  holds or keeps exactly the tasks it took, in the order in which it took them: none is lost and
  none runs twice.
\<close>

theorem tasks_once_in_order:
  fixes call :: "'f \<Rightarrow> 'v call_result" and env :: "('f, 'v) thread_env"
  assumes "never_throws call" and "nothing_cleared es" and "\<And>a. te_tasks env a = new_SafeQueue"
  shows "\<exists>ths' env' takes. pool_run call es (replicate n new_RThread, env) = Inr (ths', env') \<and>
    (\<forall>a. handed a es = taken_from a takes @ sq_mData (te_tasks env' a)) \<and>
    (\<forall>i < n. rt_ran (ths' ! i) @ in_hand (ths' ! i) @ sq_mData (rt_mTasks (ths' ! i)) = taken_by i takes)"
proof -
  have fresh: "thread_ok (new_RThread :: ('f, 'v) rthread)" "accounted (new_RThread :: ('f, 'v) rthread) = []"
    by (simp_all add: thread_ok_def new_RThread_def accounted_def in_hand_def new_SafeQueue_def)
  then have "\<forall>rt \<in> set (replicate n (new_RThread :: ('f, 'v) rthread)). thread_ok rt" by simp
  from pool_run_accounted [OF assms(1) this assms(2)] obtain ths' env' takes
    where r: "pool_run call es (replicate n new_RThread, env) = Inr (ths', env')"
      "all_accounted es takes (replicate n new_RThread, env) (ths', env')"
    by (metis surj_pair)
  have "handed a es = taken_from a takes @ sq_mData (te_tasks env' a)" for a
    using r(2) assms(3) by (simp add: all_accounted_def new_SafeQueue_def)
  moreover have "accounted (ths' ! i) = taken_by i takes" if "i < n" for i
    using r(2) that fresh by (simp add: all_accounted_def)
  ultimately show ?thesis using r(1) unfolding accounted_def by blast
qed

section \<open>The load limit\<close>

definition load_ok :: "('f, 'v) rthread \<Rightarrow> bool" where
  "load_ok rt =
     (rt_mMaxLoadSize rt = 10 \<and> rt_mMiddleweight rt = 5 \<and> rt_mLightweight rt = 2 \<and>
      length (sq_mData (rt_mTasks rt)) \<le> 9 \<and> (\<forall>p. rt_pc rt = AtFetch p \<longrightarrow> sq_mData (rt_mTasks rt) = []))"

lemma levels_of_ten [simp]:
  "at_least_high n 10 \<longleftrightarrow> 8 \<le> n" "at_least_low n 10 \<longleftrightarrow> 2 \<le> n"
  by (cases "8 \<le> n"; simp add: at_least_high_def; linarith)
    (cases "2 \<le> n"; simp add: at_least_low_def; linarith)

lemma addByLevel_load:
  assumes "load_ok rt" and "addByLevel p 5 2 rt env = (rt', env')"
  shows "length (sq_mData (rt_mTasks rt')) \<le> 9" and "rt' = rt\<lparr>rt_mTasks := rt_mTasks rt'\<rparr>"
proof -
  obtain c where c: "rt' = rt\<lparr>rt_mTasks := rt_mTasks rt'\<rparr>"
    "sq_mData (rt_mTasks rt') = sq_mData (rt_mTasks rt) @ c" "took p c env env'"
    "length c \<le> (if at_least_low (length (sq_mData (rt_mTasks rt))) (rt_mMaxLoadSize rt) then 2 else 5)"
    "at_least_high (length (sq_mData (rt_mTasks rt))) (rt_mMaxLoadSize rt) \<longrightarrow> c = []"
    by (rule addByLevel_takes [OF assms(2)])
  show "rt' = rt\<lparr>rt_mTasks := rt_mTasks rt'\<rparr>" by (rule c(1))
  have "rt_mMaxLoadSize rt = 10" "length (sq_mData (rt_mTasks rt)) \<le> 9" using assms(1) by (simp_all add: load_ok_def)
  then show "length (sq_mData (rt_mTasks rt')) \<le> 9"
    using c(4,5) unfolding c(2) by (cases "8 \<le> length (sq_mData (rt_mTasks rt))") (auto split: if_splits)
qed

lemma pop_hand_length: "length (sq_mData (rt_mTasks (pop_hand rt))) \<le> length (sq_mData (rt_mTasks rt))"
  by (cases "sq_mData (rt_mTasks rt)") (simp_all add: pop_hand_def SafeQueue_pop_def)

lemma pop_hand_control [simp]: "control (pop_hand rt) = control rt"
  by (cases "sq_mData (rt_mTasks rt)") (simp_all add: pop_hand_def SafeQueue_pop_def control_def)

lemma call_hand_keeps:
  assumes "call_hand call rt env = Inr (rt', env')"
  shows "rt_mTasks rt' = rt_mTasks rt" and "control rt' = control rt"
  using assms by (auto simp: call_hand_def Let_def control_def split: option.splits if_splits call_result.splits)

lemma load_okI:
  assumes "control rt' = control rt" and "load_ok rt" and "length (sq_mData (rt_mTasks rt')) \<le> 9"
    and "\<And>p. rt_pc rt' \<noteq> AtFetch p"
  shows "load_ok rt'"
  using assms by (simp add: load_ok_def control_def)

lemma thread_step_load:
  assumes ok: "load_ok rt" and st: "thread_step call tid out (rt, env) = Inr (rt', env')"
  shows "load_ok rt'"
proof -
  have le: "length (sq_mData (rt_mTasks rt)) \<le> 9" using ok by (simp add: load_ok_def)
  show ?thesis
  proof (cases "rt_pc rt")
    case (AtLook p)
    then show ?thesis using st ok
      by (auto simp: thread_step_def load_ok_def goto_pc_def SafeQueue_empty_def split: if_splits)
  next
    case (AtPop p)
    then have "rt' = goto_pc (AtCall p) (pop_hand rt)" using st by (simp add: thread_step_def)
    then show ?thesis using load_okI [OF _ ok, of rt'] pop_hand_length [of rt] le by simp
  next
    case AtDrainPop
    then have "rt' = goto_pc AtDrainCall (pop_hand rt)" using st by (simp add: thread_step_def)
    then show ?thesis using load_okI [OF _ ok, of rt'] pop_hand_length [of rt] le by simp
  next
    case (AtCall p)
    then obtain r e where "call_hand call rt env = Inr (r, e)" "rt' = goto_pc (AtLevel p) r"
      using st by (auto simp: thread_step_def rbind_eq_Inr)
    then show ?thesis using load_okI [OF _ ok, of rt'] call_hand_keeps [of call rt env r e] le by simp
  next
    case AtDrainCall
    then obtain r e where "call_hand call rt env = Inr (r, e)" "rt' = goto_pc AtDrain r"
      using st by (auto simp: thread_step_def rbind_eq_Inr)
    then show ?thesis using load_okI [OF _ ok, of rt'] call_hand_keeps [of call rt env r e] le by simp
  next
    case (AtFetch p)
    show ?thesis
    proof (cases "addTasks p True 1 out rt env")
      case None
      then show ?thesis using st ok AtFetch by (simp add: thread_step_def)
    next
      case (Some r)
      then obtain x r e where r: "addTasks p True 1 out rt env = Some (x, r, e)" by (cases r) auto
      obtain c where c: "r = rt\<lparr>rt_mTasks := rt_mTasks r\<rparr>" "sq_mData (rt_mTasks r) = sq_mData (rt_mTasks rt) @ c" "took p c env e" "length c \<le> 1"
        by (rule addTasks_takes [OF r])
      have "rt' = goto_pc (AtLevel p) r" using st r by (simp add: thread_step_def AtFetch)
      then show ?thesis using load_okI [OF _ ok, of rt'] c(2,4) only_tasks(2) [OF c(1)] ok AtFetch by (simp add: load_ok_def)
    qed
  next
    case (AtLevel p)
    obtain r e where r: "addByLevel p 5 2 rt env = (r, e)" by fastforce
    then have "rt' = goto_pc AtLoop r" using st ok by (simp add: thread_step_def AtLevel load_ok_def)
    then show ?thesis
      using load_okI [OF _ ok, of rt'] addByLevel_load(1) [OF ok r] only_tasks(2) [OF addByLevel_load(2) [OF ok r]] by simp
  next
    case Ended
    then show ?thesis using st ok by (simp add: thread_step_def)
  qed (use st in \<open>auto simp: thread_step_def control_def goto_pc_def intro!: load_okI [OF _ ok] le split: if_splits\<close>)
qed

definition same_parameters :: "'f pool_event list \<Rightarrow> bool" where
  "same_parameters es = (\<forall>i n. Write i (SetMax n) \<notin> set es \<and> Write i (SetMiddle n) \<notin> set es \<and> Write i (SetLight n) \<notin> set es)"

lemma write_member_load:
  assumes "load_ok rt" and "\<forall>n. w \<noteq> SetMax n \<and> w \<noteq> SetMiddle n \<and> w \<noteq> SetLight n"
  shows "load_ok (write_member w rt)"
  using assms by (cases w) (simp_all add: load_ok_def goto_pc_def SafeQueue_clear_eq)

lemma pool_run_load:
  assumes "\<forall>rt \<in> set ths. load_ok rt" and "same_parameters es" and "pool_run call es (ths, env) = Inr (ths', env')"
  shows "\<forall>rt \<in> set ths'. load_ok rt"
  using assms
proof (induction es arbitrary: ths env)
  case Nil
  then show ?case by simp
next
  case (Cons e es)
  obtain ths1 env1 where s: "pool_step call e (ths, env) = Inr (ths1, env1)" "pool_run call es (ths1, env1) = Inr (ths', env')"
    using Cons.prems(3) by (auto simp: rbind_eq_Inr)
  have "\<forall>rt \<in> set ths1. load_ok rt"
  proof (cases e)
    case (Own i out)
    show ?thesis
    proof (cases "i < length ths")
      case True
      then obtain rt1 where "thread_step call i out (ths ! i, env) = Inr (rt1, env1)" "ths1 = ths[i := rt1]"
        using s(1) Own by (auto simp: rbind_eq_Inr)
      then show ?thesis using Cons.prems(1) thread_step_load [of "ths ! i"] True
        by (metis in_set_conv_nth length_list_update nth_list_update_eq nth_list_update_neq)
    next
      case False
      then show ?thesis using s(1) Own Cons.prems(1) by simp
    qed
  next
    case (Write i w)
    have "\<forall>n. w \<noteq> SetMax n \<and> w \<noteq> SetMiddle n \<and> w \<noteq> SetLight n"
      using Cons.prems(2) by (auto simp: same_parameters_def Write)
    then show ?thesis using s(1) Write Cons.prems(1) write_member_load [of "ths ! i" w]
      by (auto dest!: set_update_subset_insert [THEN subsetD] split: if_splits)
  qed (use s(1) Cons.prems(1) in auto)
  moreover have "same_parameters es" using Cons.prems(2) by (simp add: same_parameters_def)
  ultimately show ?case using Cons.IH s(2) by blast
qed

text \<open>
  C23. A thread with its default parameters never keeps more than 9 tasks, one less than its load
  limit, whatever the other threads, producers and commands do as long as they do not set other
  parameters. (With \<^verbatim>\<open>updateMember\<close> and its default divisors the limit can be exceeded.)
\<close>

theorem local_load_bounded:
  assumes "same_parameters es" and "pool_run call es (replicate n new_RThread, env) = Inr (ths', env')" and "i < n"
  shows "SafeQueue_size (rt_mTasks (ths' ! i)) < RTHREAD_MAX_LOAD_NUMBER \<and> rt_mMaxLoadSize (ths' ! i) = RTHREAD_MAX_LOAD_NUMBER"
proof -
  have start: "\<forall>rt \<in> set (replicate n new_RThread). load_ok rt"
    by (simp add: load_ok_def new_RThread_def RTHREAD_MAX_LOAD_NUMBER_def new_SafeQueue_def)
  have len: "length ths' = n"
  proof -
    have "length ths' = length ths" if "pool_run call es (ths, env) = Inr (ths', env')" for ths env es
      using that
    proof (induction es arbitrary: ths env)
      case (Cons e es)
      then show ?case by (cases e) (auto simp: rbind_eq_Inr split: if_splits)
    qed simp
    then show ?thesis using assms(2) by fastforce
  qed
  have "load_ok (ths' ! i)" using pool_run_load [OF start assms(1,2)] assms(3) len by simp
  then show ?thesis by (simp add: load_ok_def RTHREAD_MAX_LOAD_NUMBER_def SafeQueue_size_def)
qed

section \<open>Ending a thread\<close>

text \<open>Steps of the thread alone, every timed wait running out.\<close>

fun own_run ::
  "('f \<Rightarrow> 'v call_result) \<Rightarrow> nat \<Rightarrow> nat \<Rightarrow> ('f, 'v) rthread \<times> ('f, 'v) thread_env \<Rightarrow>
   (('f, 'v) rthread \<times> ('f, 'v) thread_env) result"
where
  "own_run call tid 0 s = Inr s"
| "own_run call tid (Suc k) s = rbind (thread_step call tid True s) (own_run call tid k)"

definition finishes ::
  "('f \<Rightarrow> 'v call_result) \<Rightarrow> nat \<Rightarrow> nat \<Rightarrow> nat option \<Rightarrow> 'f task_with_future list \<Rightarrow>
   ('f, 'v) rthread \<times> ('f, 'v) thread_env \<Rightarrow> bool"
where
  "finishes call tid k p c = (\<lambda>(rt, env). \<exists>j \<le> k. \<exists>rt' env'.
     own_run call tid j (rt, env) = Inr (rt', env') \<and> rt_pc rt' = Ended \<and> sq_mData (rt_mTasks rt') = [] \<and>
     rt_ran rt' = accounted rt @ c \<and> took p c env env')"

lemma took_trans: "took p c env env' \<Longrightarrow> took p d env' env'' \<Longrightarrow> took p (c @ d) env env''"
  by (simp add: took_def)

lemma finishes_step:
  assumes "thread_step call tid True (rt, env) = Inr (rt1, env1)" and "accounted rt1 = accounted rt @ d"
    and "took p d env env1" and "finishes call tid k p c (rt1, env1)"
  shows "finishes call tid (Suc k) p (d @ c) (rt, env)"
proof -
  obtain j rt' env' where f: "j \<le> k" "own_run call tid j (rt1, env1) = Inr (rt', env')" "rt_pc rt' = Ended"
    "sq_mData (rt_mTasks rt') = []" "rt_ran rt' = accounted rt1 @ c" "took p c env1 env'"
    using assms(4) by (auto simp: finishes_def)
  have "own_run call tid (Suc j) (rt, env) = Inr (rt', env')" using assms(1) f(2) by simp
  then show ?thesis using f assms(2) took_trans [OF assms(3) f(6)]
    by (auto simp: finishes_def intro!: exI [of _ "Suc j"])
qed

lemma finishes_quiet:
  assumes "thread_step call tid True (rt, env) = Inr (rt1, env1)" and "accounted rt1 = accounted rt"
    and "te_tasks env1 = te_tasks env" and "te_owned env1 = te_owned env" and "finishes call tid k p c (rt1, env1)"
  shows "finishes call tid (Suc k) p c (rt, env)"
  using finishes_step [where d = "[]", OF assms(1)] assms(2-5) by (simp add: took_def)

lemma finishes_mono: "finishes call tid k p c s \<Longrightarrow> k \<le> l \<Longrightarrow> finishes call tid l p c s"
  by (cases s) (auto simp: finishes_def intro: le_trans)

text \<open>Each statement of \<^verbatim>\<open>work\<close> on the way out.\<close>

lemma finishes_end:
  assumes "rt_pc rt = AtEnd" and "sq_mData (rt_mTasks rt) = []"
  shows "finishes call tid 1 p [] (rt, env)"
  using assms
  by (auto simp: finishes_def thread_step_def accounted_def in_hand_def intro!: exI [of _ "Suc 0"])

lemma finishes_drain:
  assumes "never_throws call" and "rt_pc rt = AtDrain"
  shows "finishes call tid (3 * length (sq_mData (rt_mTasks rt)) + 2) p [] (rt, env)"
  using assms(2)
proof (induction "sq_mData (rt_mTasks rt)" arbitrary: rt env)
  case Nil
  have "finishes call tid (Suc 1) p [] (rt, env)"
    by (rule finishes_quiet [of _ _ _ _ "goto_pc AtEnd rt"], use Nil in \<open>simp_all add: thread_step_def SafeQueue_empty_def\<close>)
      (use Nil in \<open>simp_all add: accounted_def in_hand_def finishes_end [unfolded One_nat_def]\<close>)
  then show ?case using Nil by (simp add: numeral_2_eq_2)
next
  case (Cons t ts)
  let ?r1 = "goto_pc AtDrainPop rt" and ?r2 = "goto_pc AtDrainCall (pop_hand rt)"
  have q: "sq_mData (rt_mTasks rt) = t # ts" using Cons(2) by simp
  note h = pop_hand_front [OF q]
  obtain rt3 env3 where c: "call_hand call ?r2 env = Inr (rt3, env3)" "rt_ran rt3 = rt_ran ?r2 @ [t]"
    "rt_mTasks rt3 = rt_mTasks ?r2" "te_tasks env3 = te_tasks env" "te_owned env3 = te_owned env"
    by (rule call_hand_ok [OF assms(1), of ?r2 t env]) (use h in simp_all)
  let ?r3 = "goto_pc AtDrain rt3"
  have f3: "finishes call tid (3 * length ts + 2) p [] (?r3, env3)"
    using Cons(1) [of ?r3 env3] c(3) h by simp
  have f2: "finishes call tid (Suc (3 * length ts + 2)) p [] (?r2, env)"
    by (rule finishes_quiet [OF _ _ _ _ f3]) (use c h in \<open>simp_all add: thread_step_def accounted_def in_hand_def\<close>)
  have f1: "finishes call tid (Suc (Suc (3 * length ts + 2))) p [] (?r1, env)"
    by (rule finishes_quiet [OF _ _ _ _ f2])
      (use h q in \<open>simp_all add: thread_step_def accounted_def in_hand_def pop_hand_def SafeQueue_pop_def goto_pc_def\<close>)
  have "finishes call tid (Suc (Suc (Suc (3 * length ts + 2)))) p [] (rt, env)"
    by (rule finishes_quiet [OF _ _ _ _ f1])
      (use q Cons(3) in \<open>simp_all add: thread_step_def accounted_def in_hand_def SafeQueue_empty_def\<close>)
  then show ?case using q by (simp add: numeral_2_eq_2 numeral_3_eq_3)
qed

definition closing :: "('f, 'v) rthread \<Rightarrow> bool" where
  "closing rt = (\<not> rt_mRunning rt \<and> rt_mWipe rt \<and> \<not> rt_mStop rt)"

lemma closing_goto [simp]: "closing (goto_pc pc rt) = closing rt"
  by (simp add: closing_def)

lemma finishes_loop:
  assumes "never_throws call" and "rt_pc rt = AtLoop" and "closing rt"
  shows "finishes call tid (3 * length (sq_mData (rt_mTasks rt)) + 4) p [] (rt, env)"
proof -
  let ?r1 = "goto_pc AtWipe rt" and ?r2 = "goto_pc AtDrain rt"
  have f2: "finishes call tid (3 * length (sq_mData (rt_mTasks rt)) + 2) p [] (?r2, env)"
    using finishes_drain [OF assms(1), of ?r2 tid p env] by simp
  have f1: "finishes call tid (Suc (3 * length (sq_mData (rt_mTasks rt)) + 2)) p [] (?r1, env)"
    by (rule finishes_quiet [OF _ _ _ _ f2])
      (use assms(3) in \<open>simp_all add: thread_step_def accounted_def in_hand_def closing_def goto_pc_def\<close>)
  have "finishes call tid (Suc (Suc (3 * length (sq_mData (rt_mTasks rt)) + 2))) p [] (rt, env)"
    by (rule finishes_quiet [OF _ _ _ _ f1])
      (use assms in \<open>simp_all add: thread_step_def accounted_def in_hand_def closing_def\<close>)
  then show ?thesis by (rule finishes_mono) simp
qed

lemma finishes_level:
  assumes "never_throws call" and "rt_pc rt = AtLevel p" and "closing rt"
  obtains c where "finishes call tid (3 * (length (sq_mData (rt_mTasks rt)) + max (rt_mMiddleweight rt) (rt_mLightweight rt)) + 5) p c (rt, env)"
proof -
  obtain rt1 env1 where r: "addByLevel p (rt_mMiddleweight rt) (rt_mLightweight rt) rt env = (rt1, env1)" by fastforce
  obtain c where c: "rt1 = rt\<lparr>rt_mTasks := rt_mTasks rt1\<rparr>" "sq_mData (rt_mTasks rt1) = sq_mData (rt_mTasks rt) @ c"
    "took p c env env1"
    "length c \<le> (if at_least_low (length (sq_mData (rt_mTasks rt))) (rt_mMaxLoadSize rt) then rt_mLightweight rt else rt_mMiddleweight rt)"
    by (rule addByLevel_takes [OF r])
  have len: "length c \<le> max (rt_mMiddleweight rt) (rt_mLightweight rt)" using c(4) by (auto split: if_splits)
  note o = only_tasks [OF c(1)]
  have cl: "closing rt1" using assms(3) o by (simp add: closing_def control_def)
  let ?r1 = "goto_pc AtLoop rt1"
  have f1: "finishes call tid (3 * length (sq_mData (rt_mTasks rt1)) + 4) p [] (?r1, env1)"
    using finishes_loop [OF assms(1), of ?r1 tid p env1] cl by simp
  have f0: "finishes call tid (Suc (3 * length (sq_mData (rt_mTasks rt1)) + 4)) p (c @ []) (rt, env)"
    by (rule finishes_step [OF _ _ c(3) f1])
      (use r c(2) o assms(2) in \<open>simp_all add: thread_step_def accounted_def in_hand_def\<close>)
  show ?thesis
  proof (rule that)
    show "finishes call tid (3 * (length (sq_mData (rt_mTasks rt)) + max (rt_mMiddleweight rt) (rt_mLightweight rt)) + 5) p c (rt, env)"
      using finishes_mono [OF f0] len c(2) by simp
  qed
qed

text \<open>An upper bound for the steps from the current statement.\<close>

definition budget :: "('f, 'v) rthread \<Rightarrow> nat" where
  "budget rt = 3 * (length (sq_mData (rt_mTasks rt)) + 1 + max (rt_mMiddleweight rt) (rt_mLightweight rt))"

lemma finishes_call:
  assumes "never_throws call" and "thread_ok rt" and "rt_pc rt = AtCall p" and "closing rt"
  obtains c where "finishes call tid (budget rt + 3) p c (rt, env)"
proof -
  obtain t where h: "rt_hand rt = Some t" "\<not> rt_done rt" using assms(2,3) by (auto simp: thread_ok_def)
  obtain r e where c: "call_hand call rt env = Inr (r, e)" "rt_ran r = rt_ran rt @ [t]" "rt_mTasks r = rt_mTasks rt"
    "control r = control rt" "te_tasks e = te_tasks env" "te_owned e = te_owned env" "rt_mRunning r = rt_mRunning rt"
    by (rule call_hand_ok [OF assms(1) h])
  have cl: "closing r" using assms(4) c(4,7) by (simp add: closing_def control_def)
  let ?r1 = "goto_pc (AtLevel p) r"
  obtain d where f1: "finishes call tid (3 * (length (sq_mData (rt_mTasks ?r1)) + max (rt_mMiddleweight ?r1) (rt_mLightweight ?r1)) + 5) p d (?r1, e)"
    by (rule finishes_level [OF assms(1), of ?r1 p]) (use cl in simp_all)
  have f0: "finishes call tid (Suc (3 * (length (sq_mData (rt_mTasks ?r1)) + max (rt_mMiddleweight ?r1) (rt_mLightweight ?r1)) + 5)) p d (rt, env)"
    by (rule finishes_quiet [OF _ _ _ _ f1]) (use c h assms(3) in \<open>simp_all add: thread_step_def accounted_def in_hand_def\<close>)
  show ?thesis
  proof (rule that)
    show "finishes call tid (budget rt + 3) p d (rt, env)"
      using finishes_mono [OF f0] c(3,4) by (simp add: budget_def control_def)
  qed
qed

lemma finishes_pop:
  assumes "never_throws call" and "thread_ok rt" and "rt_pc rt = AtPop p" and "closing rt"
  obtains c where "finishes call tid (budget rt + 4) p c (rt, env)"
proof -
  obtain t ts where q: "sq_mData (rt_mTasks rt) = t # ts"
    using assms(2,3) by (cases "sq_mData (rt_mTasks rt)") (auto simp: thread_ok_def)
  note h = pop_hand_front [OF q]
  let ?r1 = "goto_pc (AtCall p) (pop_hand rt)"
  have cl: "closing ?r1" using assms(4) h(5,6) by (simp add: closing_def control_def)
  have ok: "thread_ok ?r1" using h by (simp add: thread_ok_def)
  obtain d where f1: "finishes call tid (budget ?r1 + 3) p d (?r1, env)"
    by (rule finishes_call [OF assms(1) ok _ cl]) simp
  have f0: "finishes call tid (Suc (budget ?r1 + 3)) p d (rt, env)"
    by (rule finishes_quiet [OF _ _ _ _ f1]) (use h q assms(3) in \<open>simp_all add: thread_step_def accounted_def in_hand_def\<close>)
  show ?thesis
  proof (rule that)
    show "finishes call tid (budget rt + 4) p d (rt, env)"
      using finishes_mono [OF f0] h(3,5) q by (simp add: budget_def control_def)
  qed
qed

lemma finishes_fetch:
  assumes "never_throws call" and "rt_pc rt = AtFetch p" and "closing rt"
  obtains c where "finishes call tid (budget rt + 6) p c (rt, env)"
proof -
  have "addTasks p True 1 True rt env \<noteq> None"
    by (auto simp: addTasks_def split: option.splits prod.splits)
  then obtain x r e where r: "addTasks p True 1 True rt env = Some (x, r, e)" by auto
  obtain c where c: "r = rt\<lparr>rt_mTasks := rt_mTasks r\<rparr>" "sq_mData (rt_mTasks r) = sq_mData (rt_mTasks rt) @ c"
    "took p c env e" "length c \<le> 1"
    by (rule addTasks_takes [OF r])
  note o = only_tasks [OF c(1)]
  let ?r1 = "goto_pc (AtLevel p) r"
  have cl: "closing ?r1" using assms(3) o by (simp add: closing_def control_def)
  obtain d where f1: "finishes call tid (3 * (length (sq_mData (rt_mTasks ?r1)) + max (rt_mMiddleweight ?r1) (rt_mLightweight ?r1)) + 5) p d (?r1, e)"
    by (rule finishes_level [OF assms(1) _ cl]) simp
  have f0: "finishes call tid (Suc (3 * (length (sq_mData (rt_mTasks ?r1)) + max (rt_mMiddleweight ?r1) (rt_mLightweight ?r1)) + 5)) p (c @ d) (rt, env)"
    by (rule finishes_step [OF _ _ c(3) f1])
      (use r [unfolded One_nat_def] c(2) o assms(2) in \<open>simp_all add: thread_step_def accounted_def in_hand_def\<close>)
  show ?thesis
  proof (rule that)
    show "finishes call tid (budget rt + 6) p (c @ d) (rt, env)"
      using finishes_mono [OF f0] c(2,4) o(2) by (simp add: budget_def control_def)
  qed
qed

lemma finishes_look:
  assumes "never_throws call" and "rt_pc rt = AtLook p" and "closing rt"
  obtains c where "finishes call tid (budget rt + 7) p c (rt, env)"
proof (cases "sq_mData (rt_mTasks rt) = []")
  case True
  show ?thesis
  proof (cases p)
    case None
    have "finishes call tid (budget rt + 7) p [] (rt, env)"
      using True None assms(2)
      by (auto simp: finishes_def thread_step_def accounted_def in_hand_def SafeQueue_empty_def intro!: exI [of _ "Suc 0"])
    then show ?thesis by (rule that)
  next
    case (Some a)
    let ?r1 = "goto_pc (AtFetch p) rt"
    obtain c where f1: "finishes call tid (budget ?r1 + 6) p c (?r1, env)"
      by (rule finishes_fetch [OF assms(1), of ?r1 p]) (use assms(3) in simp_all)
    have "finishes call tid (Suc (budget ?r1 + 6)) p c (rt, env)"
      by (rule finishes_quiet [OF _ _ _ _ f1])
        (use True Some assms(2) in \<open>simp_all add: thread_step_def accounted_def in_hand_def SafeQueue_empty_def\<close>)
    then show ?thesis by (intro that [of c]) (simp add: budget_def)
  qed
next
  case False
  let ?r1 = "goto_pc (AtPop p) rt"
  obtain c where f1: "finishes call tid (budget ?r1 + 4) p c (?r1, env)"
    by (rule finishes_pop [OF assms(1), of ?r1 p]) (use False assms(3) in \<open>simp_all add: thread_ok_def\<close>)
  have "finishes call tid (Suc (budget ?r1 + 4)) p c (rt, env)"
    by (rule finishes_quiet [OF _ _ _ _ f1])
      (use False assms(2) in \<open>simp_all add: thread_step_def accounted_def in_hand_def SafeQueue_empty_def\<close>)
  then have "finishes call tid (budget rt + 7) p c (rt, env)"
    by (rule finishes_mono) (simp add: budget_def)
  then show ?thesis by (rule that)
qed

text \<open>The statements between the head of the loop and its end, those of a sleeping thread excepted.\<close>

fun in_loop :: "thread_pc \<Rightarrow> bool" where
  "in_loop AtLoop = True"
| "in_loop AtWait = True"
| "in_loop AtLock = True"
| "in_loop (AtLook p) = True"
| "in_loop (AtPop p) = True"
| "in_loop (AtCall p) = True"
| "in_loop (AtFetch p) = True"
| "in_loop (AtLevel p) = True"
| "in_loop _ = False"

lemma finishes_in_loop:
  assumes "never_throws call" and "thread_ok rt" and "in_loop (rt_pc rt)" and "closing rt"
  shows "\<exists>p c. finishes call tid (budget rt + 9) p c (rt, env)"
proof -
  have lock: "\<exists>p c. finishes call tid (budget r + 8) p c (r, env)"
    if "rt_pc r = AtLock" "closing r" for r :: "('a, 'b) rthread"
  proof -
    note here = that
    let ?r1 = "goto_pc (AtLook (lock_tasks r env)) r"
    obtain c where f1: "finishes call tid (budget ?r1 + 7) (lock_tasks r env) c (?r1, env)"
      by (rule finishes_look [OF assms(1), of ?r1 "lock_tasks r env"]) (use here in simp_all)
    have "finishes call tid (Suc (budget ?r1 + 7)) (lock_tasks r env) c (r, env)"
      by (rule finishes_quiet [OF _ _ _ _ f1]) (use here in \<open>simp_all add: thread_step_def accounted_def in_hand_def\<close>)
    then have "finishes call tid (budget r + 8) (lock_tasks r env) c (r, env)" by (simp add: budget_def)
    then show ?thesis by blast
  qed
  show ?thesis
  proof (cases "rt_pc rt")
    case AtLoop
    have "finishes call tid (budget rt + 9) None [] (rt, env)"
      using finishes_mono [OF finishes_loop [OF assms(1) AtLoop assms(4)]] by (simp add: budget_def)
    then show ?thesis by blast
  next
    case AtWait
    let ?r1 = "goto_pc AtLock rt"
    obtain p c where f1: "finishes call tid (budget ?r1 + 8) p c (?r1, env)" using lock [of ?r1] assms(4) by auto
    have "finishes call tid (Suc (budget ?r1 + 8)) p c (rt, env)"
      by (rule finishes_quiet [OF _ _ _ _ f1])
        (use AtWait assms(4) in \<open>simp_all add: thread_step_def accounted_def in_hand_def closing_def\<close>)
    then have "finishes call tid (budget rt + 9) p c (rt, env)" by (simp add: budget_def)
    then show ?thesis by blast
  next
    case AtLock
    obtain p c where "finishes call tid (budget rt + 8) p c (rt, env)" using lock [OF AtLock assms(4)] by blast
    then have "finishes call tid (budget rt + 9) p c (rt, env)" by (rule finishes_mono) simp
    then show ?thesis by blast
  next
    case (AtLook p)
    obtain c where "finishes call tid (budget rt + 7) p c (rt, env)" by (rule finishes_look [OF assms(1) AtLook assms(4)])
    then have "finishes call tid (budget rt + 9) p c (rt, env)" by (rule finishes_mono) simp
    then show ?thesis by blast
  next
    case (AtPop p)
    obtain c where "finishes call tid (budget rt + 4) p c (rt, env)" by (rule finishes_pop [OF assms(1,2) AtPop assms(4)])
    then have "finishes call tid (budget rt + 9) p c (rt, env)" by (rule finishes_mono) simp
    then show ?thesis by blast
  next
    case (AtCall p)
    obtain c where "finishes call tid (budget rt + 3) p c (rt, env)" by (rule finishes_call [OF assms(1,2) AtCall assms(4)])
    then have "finishes call tid (budget rt + 9) p c (rt, env)" by (rule finishes_mono) simp
    then show ?thesis by blast
  next
    case (AtFetch p)
    obtain c where "finishes call tid (budget rt + 6) p c (rt, env)" by (rule finishes_fetch [OF assms(1) AtFetch assms(4)])
    then have "finishes call tid (budget rt + 9) p c (rt, env)" by (rule finishes_mono) simp
    then show ?thesis by blast
  next
    case (AtLevel p)
    obtain c where "finishes call tid (3 * (length (sq_mData (rt_mTasks rt)) + max (rt_mMiddleweight rt) (rt_mLightweight rt)) + 5) p c (rt, env)"
      by (rule finishes_level [OF assms(1) AtLevel assms(4)])
    then have "finishes call tid (budget rt + 9) p c (rt, env)" by (rule finishes_mono) (simp add: budget_def)
    then show ?thesis by blast
  qed (use assms(3) in simp_all)
qed


section \<open>What goes wrong\<close>

lemma pool_run_append: "pool_run call (es @ fs) s = rbind (pool_run call es s) (pool_run call fs)"
proof (induction es arbitrary: s)
  case (Cons e es)
  then show ?case by (cases "pool_step call e s") simp_all
qed simp

text \<open>The steps, by the statement the thread stands at.\<close>

lemma thread_step_simps:
  "rt_pc rt = AtStart \<Longrightarrow> thread_step call tid out (rt, env) =
     Inr (goto_pc AtLoop (rt\<lparr>rt_mID := Some tid, rt_mRunning := True\<rparr>), env)"
  "rt_pc rt = AtLoop \<Longrightarrow> thread_step call tid out (rt, env) = Inr (goto_pc (if rt_mRunning rt then AtWait else AtWipe) rt, env)"
  "rt_pc rt = AtWait \<Longrightarrow> thread_step call tid out (rt, env) = Inr (goto_pc (if rt_mStop rt then AtBlock else AtLock) rt, env)"
  "rt_pc rt = AtLock \<Longrightarrow> thread_step call tid out (rt, env) = Inr (goto_pc (AtLook (lock_tasks rt env)) rt, env)"
  "rt_pc rt = AtLook p \<Longrightarrow> thread_step call tid out (rt, env) =
     Inr (goto_pc (if sq_mData (rt_mTasks rt) \<noteq> [] then AtPop p else if p = None then Ended else AtFetch p) rt, env)"
  "rt_pc rt = AtPop p \<Longrightarrow> thread_step call tid out (rt, env) = Inr (goto_pc (AtCall p) (pop_hand rt), env)"
  "rt_pc rt = AtCall p \<Longrightarrow> thread_step call tid out (rt, env) =
     rbind (call_hand call rt env) (\<lambda>(rt, env). Inr (goto_pc (AtLevel p) rt, env))"
  "rt_pc rt = AtFetch p \<Longrightarrow> thread_step call tid out (rt, env) =
     (case addTasks p True 1 out rt env of
        None \<Rightarrow> Inr (rt, env) | Some (x, rt, env) \<Rightarrow> Inr (goto_pc (AtLevel p) rt, env))"
  "rt_pc rt = AtLevel p \<Longrightarrow> thread_step call tid out (rt, env) =
     (case addByLevel p (rt_mMiddleweight rt) (rt_mLightweight rt) rt env of (rt, env) \<Rightarrow> Inr (goto_pc AtLoop rt, env))"
  "rt_pc rt = Ended \<Longrightarrow> thread_step call tid out (rt, env) = Inr (rt, env)"
  by (simp_all add: thread_step_def SafeQueue_empty_def)

text \<open>A thread that has returned stays where it is, whatever happens to its members.\<close>

lemma write_dead:
  assumes "rt_pc rt = Ended" and "\<not> rt_mInactive rt"
  shows "rt_pc (write_member w rt) = Ended \<and> \<not> rt_mInactive (write_member w rt) \<and> rt_ran (write_member w rt) = rt_ran rt \<and>
    ((\<forall>b. w \<noteq> SetRunning b) \<longrightarrow> rt_mRunning (write_member w rt) = rt_mRunning rt)"
  using assms by (cases w) auto

lemma pool_run_own:
  "thread_step call 0 out (rt, env) = Inr (rt', env') \<Longrightarrow>
   pool_run call (Own 0 out # es) ([rt], env) = pool_run call es ([rt'], env')"
  by simp

lemma dead_stays:
  assumes "rt_pc rt = Ended" and "\<not> rt_mInactive rt"
  shows "\<exists>rt' env'. pool_run call es ([rt], env) = Inr ([rt'], env') \<and> rt_pc rt' = Ended \<and> \<not> rt_mInactive rt' \<and>
    rt_ran rt' = rt_ran rt \<and> ((\<forall>b. Write 0 (SetRunning b) \<notin> set es) \<longrightarrow> rt_mRunning rt' = rt_mRunning rt)"
  using assms
proof (induction es arbitrary: rt env)
  case Nil
  then show ?case by simp
next
  case (Cons e es)
  show ?case
  proof (cases e)
    case (Write i w)
    show ?thesis
    proof (cases "i = 0")
      case True
      have w: "rt_pc (write_member w rt) = Ended" "\<not> rt_mInactive (write_member w rt)" "rt_ran (write_member w rt) = rt_ran rt"
        "(\<forall>b. w \<noteq> SetRunning b) \<longrightarrow> rt_mRunning (write_member w rt) = rt_mRunning rt"
        using write_dead [OF Cons.prems, of w] by auto
      show ?thesis using Cons.IH [OF w(1,2), of env] w(3,4) Write True by auto
    next
      case False
      then show ?thesis using Cons.IH [OF Cons.prems, of env] Write by auto
    qed
  next
    case (Own i out)
    then show ?thesis using Cons.IH [OF Cons.prems, of env] Cons.prems by (cases "i = 0") (auto simp: thread_step_simps)
  next
    case (PushTask a f has_result)
    then show ?thesis
      using Cons.IH [OF Cons.prems, of "env\<lparr>te_tasks := (te_tasks env)(a := thd_addTask f has_result (te_tasks env a))\<rparr>"] by auto
  next
    case (Expire a)
    then show ?thesis using Cons.IH [OF Cons.prems, of "env\<lparr>te_owned := (te_owned env)(a := False)\<rparr>"] by auto
  qed
qed

text \<open>
  The thread starts inside its constructor. If it looks for its external queue before
  \<^verbatim>\<open>linkExternalTasks\<close> has been called, it returns, and nothing that is done afterwards lets it run a
  task; yet it is never marked as inactive, and unless somebody cancels it, it reports that it runs.
\<close>

theorem early_thread_is_dead:
  "\<exists>rt' env'. pool_run call (replicate 5 (Own 0 out) @ es) ([new_RThread], env) = Inr ([rt'], env') \<and>
    rt_pc rt' = Ended \<and> \<not> rt_mInactive rt' \<and> rt_ran rt' = [] \<and>
    ((\<exists>b. Write 0 (SetRunning b) \<in> set es) \<or> rt_mRunning rt')"
proof -
  define r1 :: "('a, 'b) rthread" where "r1 = goto_pc AtLoop (new_RThread\<lparr>rt_mID := Some 0, rt_mRunning := True\<rparr>)"
  have f: "rt_mRunning r1" "\<not> rt_mStop r1" "rt_mExternalTasksPtr r1 = None" "sq_mData (rt_mTasks r1) = []"
    "rt_ran r1 = []" "\<not> rt_mInactive r1" "rt_pc r1 = AtLoop"
    by (simp_all add: r1_def new_RThread_def new_SafeQueue_def goto_pc_def)
  define r2 r3 r4 r5 where r: "r2 = goto_pc AtWait r1" "r3 = goto_pc AtLock r2" "r4 = goto_pc (AtLook None) r3"
    "r5 = goto_pc Ended r4"
  have s1: "thread_step call 0 out (new_RThread, env) = Inr (r1, env)"
    by (simp add: thread_step_simps r1_def new_RThread_def)
  have s2: "thread_step call 0 out (r1, env) = Inr (r2, env)" by (simp add: thread_step_simps f r)
  have s3: "thread_step call 0 out (r2, env) = Inr (r3, env)" by (simp add: thread_step_simps f r)
  have s4: "thread_step call 0 out (r3, env) = Inr (r4, env)" by (simp add: thread_step_simps f r lock_tasks_def)
  have s5: "thread_step call 0 out (r4, env) = Inr (r5, env)" by (simp add: thread_step_simps f r)
  have "pool_run call (replicate 5 (Own 0 out) @ es) ([new_RThread], env) = pool_run call es ([r5], env)"
    by (simp add: numeral_eq_Suc s1 s2 s3 s4 s5)
  moreover have "rt_pc r5 = Ended" "\<not> rt_mInactive r5" "rt_ran r5 = []" "rt_mRunning r5" by (simp_all add: r f)
  ultimately show ?thesis using dead_stays [of r5 call es env] by fastforce
qed

text \<open>
  \<^verbatim>\<open>CANCEL\<close> empties the local queue without a lock. When that happens between the test for emptiness
  and the \<^verbatim>\<open>pop\<close> behind it, the pop fails and the thread calls the task it has just run once more.
\<close>

lemma cancel_runs_task_twice:
  assumes "rt_pc rt = AtPop p" and "rt_hand rt = Some t" and "rt_done rt" and "\<not> tk_mFuture t"
    and "call (tk_mFunc t) = Returned v"
  obtains rt' where "own_run call tid 2 (rt_command CMD_CANCEL rt, env) = Inr (rt', env)" and "rt_ran rt' = rt_ran rt @ [t]"
proof -
  let ?r = "rt_command CMD_CANCEL rt"
  have r: "?r = rt\<lparr>rt_mRunning := False, rt_mExternalTasksPtr := None, rt_mTasks := SafeQueue_clear (rt_mTasks rt)\<rparr>"
    by (simp add: rt_command_def rt_cancel_def)
  have p: "pop_hand ?r = ?r" by (simp add: r pop_hand_def SafeQueue_pop_def SafeQueue_clear_eq)
  define r1 where "r1 = goto_pc (AtCall p) ?r"
  have f: "rt_pc r1 = AtCall p" "rt_hand r1 = Some t" "rt_ran r1 = rt_ran rt" using assms by (simp_all add: r1_def r)
  have "thread_step call tid True (?r, env) = Inr (r1, env)" using assms(1) p by (simp add: thread_step_simps r r1_def)
  moreover have "thread_step call tid True (r1, env) = Inr (goto_pc (AtLevel p) (r1\<lparr>rt_ran := rt_ran r1 @ [t], rt_done := True\<rparr>), env)"
    using assms(4,5) f by (simp add: thread_step_simps call_hand_def)
  ultimately show ?thesis by (intro that [of "goto_pc (AtLevel p) (r1\<lparr>rt_ran := rt_ran r1 @ [t], rt_done := True\<rparr>)"])
    (simp_all add: numeral_2_eq_2 f)
qed

text \<open>With a limit of 40 and the default divisors of \<^verbatim>\<open>command\<close>, a thread with 31 tasks takes 10 more.\<close>

lemma update_exceeds_limit:
  assumes "updateMember 40 2 4 p = Inr ws" and "rt = fold write_member ws new_RThread"
  shows "rt_mMaxLoadSize rt = 40 \<and> rt_mLightweight rt = 10 \<and> \<not> at_least_high 31 40 \<and> at_least_low 31 40"
  using assms by (auto simp: updateMember_def at_least_high_def at_least_low_def)

section \<open>The properties at concrete inputs\<close>

definition demo_queues :: "(nat, nat) thread_env" where
  "demo_queues = \<lparr>te_tasks = (\<lambda>_. new_SafeQueue), te_owned = (\<lambda>_. True), te_results = (\<lambda>_. new_SafeQueue),
     te_results_owned = (\<lambda>_. True)\<rparr>"

definition demo_events :: "nat pool_event list" where
  "demo_events =
     [Write 0 (SetExternal (Some 0)), Write 1 (SetExternal (Some 0)), PushTask 0 7 False, Own 0 False, Own 1 True,
      PushTask 0 8 True, Own 1 False, Write 1 (SetRunning False), Own 0 False]"

lemma demo_events_fine: "never_throws (\<lambda>f :: nat. Returned f)" "nothing_cleared demo_events" "same_parameters demo_events"
  by (simp_all add: never_throws_def nothing_cleared_def same_parameters_def demo_events_def)

theorem tasks_once_in_order_witness:
  "\<exists>ths' env' takes. pool_run (\<lambda>f. Returned f) demo_events (replicate 2 new_RThread, demo_queues) = Inr (ths', env') \<and>
    map tk_mFunc (taken_from 0 takes @ sq_mData (te_tasks env' 0)) = [7, 8] \<and>
    rt_ran (ths' ! 1) @ in_hand (ths' ! 1) @ sq_mData (rt_mTasks (ths' ! 1)) = taken_by 1 takes"
proof -
  obtain ths' env' takes where
    "pool_run (\<lambda>f. Returned f) demo_events (replicate 2 new_RThread, demo_queues) = Inr (ths', env')"
    "\<forall>a. handed a demo_events = taken_from a takes @ sq_mData (te_tasks env' a)"
    "\<forall>i < 2. rt_ran (ths' ! i) @ in_hand (ths' ! i) @ sq_mData (rt_mTasks (ths' ! i)) = taken_by i takes"
    using tasks_once_in_order [OF demo_events_fine(1,2), of demo_queues 2] by (auto simp: demo_queues_def)
  moreover have "map tk_mFunc (handed 0 demo_events) = [7, 8]" by (simp add: demo_events_def)
  ultimately show ?thesis by (metis one_less_numeral_iff semiring_norm(76))
qed

theorem local_load_bounded_witness:
  "\<exists>ths' env'. pool_run (\<lambda>f. Returned f) demo_events (replicate 2 new_RThread, demo_queues) = Inr (ths', env') \<and>
    SafeQueue_size (rt_mTasks (ths' ! 1)) < RTHREAD_MAX_LOAD_NUMBER"
proof -
  have "\<forall>rt \<in> set (replicate 2 (new_RThread :: (nat, nat) rthread)). thread_ok rt" by (simp add: thread_ok_def new_RThread_def)
  then obtain ths' env' where r: "pool_run (\<lambda>f. Returned f) demo_events (replicate 2 new_RThread, demo_queues) = Inr (ths', env')"
    using pool_run_accounted [OF demo_events_fine(1) _ demo_events_fine(2)] by (metis surj_pair)
  then show ?thesis using local_load_bounded [OF demo_events_fine(3) r, of 1] by auto
qed

definition demo_thread :: "(nat, nat) rthread" where
  "demo_thread = goto_pc AtLoop (new_RThread\<lparr>rt_mRunning := True, rt_mTasks := \<lparr>sq_mData = [\<lparr>tk_mFunc = 7, tk_mFuture = False\<rparr>]\<rparr>\<rparr>)"


end
