(* ===== verification/Thread_Pool.thy ===== *)
theory Thread_Pool
  imports R_Thread Wheel_Timer
begin

text \<open>
  \<^verbatim>\<open>Base/thread/Threadpool.{h,cpp}\<close>: a pool of threads over one queue of tasks. A thread of its own
  reads what the tasks report, and when its timer has run out it grows or shrinks the pool to
  the number of threads the reports ask for. The queue of tasks and the queue of results
  are the ones with address 0 of the environment of the threads. \<open>starts k\<close> says whether the \<open>k\<close>-th
  \<^verbatim>\<open>std::thread\<close> of the process can be started; otherwise its constructor throws.
\<close>

section \<open>The pool\<close>

record thread_info =
  ti_mID :: "nat option"
  ti_mRunning :: bool
  ti_mInactive :: bool
  ti_mMaxLoadSize :: nat
  ti_mCurrentSize :: nat
  ti_mRatio :: "nat \<times> nat"

datatype pool_timer_type = TIMER_NONE | ADJUST_THREAD_NUMBER | COLLECT_THREAD_STATE | TIMER_TODO_MORE

type_synonym 'f pool_thread = "('f, 16 word) rthread"

record ('f, 't) threadpool =
  tp_mRunning :: bool
  tp_mHardwareNum :: nat
  tp_mActiveNum :: nat
  tp_mExpectation :: nat
  tp_mIsAdjustThreadNum :: bool
  tp_mAdjustThdNumTimeout :: bool
  tp_mIsCollectThreadState :: bool
  tp_mAdjustThdNumTaskID :: string
  tp_mThreadsHash :: "nat \<rightharpoonup> thread_info"
  tp_env :: "('f, 16 word) thread_env"
  tp_mThreads :: "'f pool_thread list"
  tp_mTimeWheelTimerWeak :: "'t wheel_timer option"
  tp_started :: nat

definition new_queues :: "('f, 'v) thread_env" where
  "new_queues = \<lparr>te_tasks = (\<lambda>_. new_SafeQueue), te_owned = (\<lambda>a. a = 0), te_results = (\<lambda>_. new_SafeQueue),
     te_results_owned = (\<lambda>a. a = 0)\<rparr>"

text \<open>A thread is started, then linked to the queue of tasks; the link never fails, the pool owns the queue.\<close>

definition linked_thread :: "'f pool_thread" where
  "linked_thread = write_member (SetExternal (Some 0)) new_RThread"

definition start_thread ::
  "(nat \<Rightarrow> bool) \<Rightarrow> ('f, 't) threadpool \<Rightarrow> ('f pool_thread \<times> ('f, 't) threadpool) result"
where
  "start_thread starts tp =
     (if starts (tp_started tp) then Inr (linked_thread, tp\<lparr>tp_started := tp_started tp + 1\<rparr>) else Inl SystemError)"

fun push_threads :: "(nat \<Rightarrow> bool) \<Rightarrow> nat \<Rightarrow> nat \<Rightarrow> ('f, 't) threadpool \<Rightarrow> (nat \<times> ('f, 't) threadpool) result" where
  "push_threads starts 0 res tp = Inr (res, tp)"
| "push_threads starts (Suc n) res tp =
     rbind (start_thread starts tp) (\<lambda>(thd, tp).
       push_threads starts n (res + 1) (tp\<lparr>tp_mThreads := tp_mThreads tp @ [thd]\<rparr>))"

section \<open>Results\<close>

definition command_at :: "nat \<Rightarrow> command_type \<Rightarrow> ('f, 't) threadpool \<Rightarrow> ('f, 't) threadpool result" where
  "command_at i cmd tp =
     (if i < length (tp_mThreads tp)
      then Inr (tp\<lparr>tp_mThreads := (tp_mThreads tp)[i := rt_command cmd (tp_mThreads tp ! i)]\<rparr>)
      else Inl OutOfRange)"

definition switch_capture :: "bool \<Rightarrow> nat \<Rightarrow> ('f, 't) threadpool \<Rightarrow> ('f, 't) threadpool result" where
  "switch_capture from i tp =
     (if i < length (tp_mThreads tp)
      then if rt_mCaptureFuture (tp_mThreads tp ! i) = from then command_at i CMD_CAPTURE_FUTURE_SWITCH tp else Inr tp
      else Inl OutOfRange)"

definition readyCaptureThdResults :: "nat \<Rightarrow> ('f, 't) threadpool \<Rightarrow> ('f, 't) threadpool result" where
  "readyCaptureThdResults i tp =
     rbind (switch_capture False i tp) (\<lambda>tp.
       Inr (tp\<lparr>tp_mThreads := (tp_mThreads tp)[i := snd (linkResultsQueue (Some 0) (tp_mThreads tp ! i) (tp_env tp))]\<rparr>))"

definition cancelCollectThdResults :: "nat \<Rightarrow> ('f, 't) threadpool \<Rightarrow> ('f, 't) threadpool result" where
  "cancelCollectThdResults i tp = switch_capture True i tp"

definition SPECIAL_INDEX :: nat where "SPECIAL_INDEX = 0"

text \<open>The constructor, with what \<^verbatim>\<open>hardware_concurrency\<close> answers (0 when it is not known).\<close>

definition new_Threadpool :: "(nat \<Rightarrow> bool) \<Rightarrow> nat \<Rightarrow> ('f, 't) threadpool result" where
  "new_Threadpool starts hardware =
     (let active = (if hardware \<le> MAX_THREADS_NUM then hardware else MAX_THREADS_NUM);
          tp = \<lparr>tp_mRunning = True, tp_mHardwareNum = hardware, tp_mActiveNum = active, tp_mExpectation = 0,
                tp_mIsAdjustThreadNum = True, tp_mAdjustThdNumTimeout = False, tp_mIsCollectThreadState = False,
                tp_mAdjustThdNumTaskID = [], tp_mThreadsHash = Map.empty, tp_env = new_queues, tp_mThreads = [],
                tp_mTimeWheelTimerWeak = None, tp_started = 0\<rparr> in
      rbind (push_threads starts active 0 tp) (\<lambda>(res, tp).
      rbind (switch_capture False SPECIAL_INDEX tp) (\<lambda>tp.
        readyCaptureThdResults SPECIAL_INDEX tp)))"

definition tp_addTask :: "'f \<Rightarrow> bool \<Rightarrow> ('f, 't) threadpool \<Rightarrow> ('f, 't) threadpool" where
  "tp_addTask f has_result tp =
     tp\<lparr>tp_env := (tp_env tp)\<lparr>te_tasks := (te_tasks (tp_env tp))(0 := thd_addTask f has_result (te_tasks (tp_env tp) 0))\<rparr>\<rparr>"

section \<open>The number of threads\<close>

text \<open>
  The first loop of \<^verbatim>\<open>expandThreads\<close>, from index \<open>i\<close> over \<open>k\<close> threads: every thread that is inactive is
  replaced, and \<open>n\<close>, what is still to be created, goes down by one, below zero as well.
\<close>

fun fill_holes ::
  "(nat \<Rightarrow> bool) \<Rightarrow> nat \<Rightarrow> nat \<Rightarrow> nat \<Rightarrow> nat \<Rightarrow> ('f, 't) threadpool \<Rightarrow> (nat \<times> nat \<times> ('f, 't) threadpool) result"
where
  "fill_holes starts i 0 n res tp = Inr (n, res, tp)"
| "fill_holes starts i (Suc k) n res tp =
     (if i \<ge> length (tp_mThreads tp) then Inl OutOfRange
      else if rt_mInactive (tp_mThreads tp ! i)
      then rbind (start_thread starts tp) (\<lambda>(thd, tp).
             fill_holes starts (i + 1) k (wrap64 (n + (2 ^ 64 - 1))) (res + 1)
               (tp\<lparr>tp_mThreads := (tp_mThreads tp)[i := thd]\<rparr>))
      else fill_holes starts (i + 1) k n res tp)"

definition expandThreads :: "(nat \<Rightarrow> bool) \<Rightarrow> nat \<Rightarrow> ('f, 't) threadpool \<Rightarrow> ('f, 't) threadpool result" where
  "expandThreads starts num tp =
     (let n = (if wrap64 (tp_mActiveNum tp + num) > MAX_THREADS_NUM
               then wrap64 (MAX_THREADS_NUM + (2 ^ 64 - tp_mActiveNum tp)) else num) in
      rbind (fill_holes starts (tp_mHardwareNum tp) (tp_mActiveNum tp - tp_mHardwareNum tp) n 0 tp) (\<lambda>(n, res, tp).
      rbind (push_threads starts n res tp) (\<lambda>(res, tp).
        Inr (tp\<lparr>tp_mActiveNum := (tp_mActiveNum tp + res) mod 2 ^ 32\<rparr>))))"

text \<open>The loop of \<^verbatim>\<open>shrinkThreads\<close>: \<open>i\<close> goes down to \<open>n\<close>; below zero it becomes the largest index.\<close>

function cancel_down :: "nat \<Rightarrow> nat \<Rightarrow> ('f, 't) threadpool \<Rightarrow> ('f, 't) threadpool result" where
  "cancel_down n i tp =
     (if i < n then Inr tp
      else rbind (command_at i CMD_CANCEL_WHEN_COMPLETE tp) (\<lambda>tp.
        if i = 0 then Inl OutOfRange else cancel_down n (i - 1) tp))"
  by pat_completeness auto
termination by (relation "measure (\<lambda>(n, i, tp). i)") auto

declare cancel_down.simps [simp del]

definition shrinkThreads :: "nat \<Rightarrow> ('f, 't) threadpool \<Rightarrow> ('f, 't) threadpool result" where
  "shrinkThreads num tp =
     (let n = wrap64 (tp_mActiveNum tp + (2 ^ 64 - num mod 2 ^ 64)) in
      if n < tp_mHardwareNum tp then Inr tp
      else rbind (cancel_down n ((tp_mActiveNum tp + (2 ^ 32 - 1)) mod 2 ^ 32) tp) (\<lambda>tp.
        Inr (tp\<lparr>tp_mActiveNum := n mod 2 ^ 32\<rparr>)))"

definition adjustThdNumTimeoutNotify :: "('f, 't) threadpool \<Rightarrow> ('f, 't) threadpool" where
  "adjustThdNumTimeoutNotify tp = tp\<lparr>tp_mAdjustThdNumTimeout := True\<rparr>"

definition resetAdjustThdNumTimeout :: "('f, 't) threadpool \<Rightarrow> ('f, 't) threadpool" where
  "resetAdjustThdNumTimeout tp = tp\<lparr>tp_mAdjustThdNumTimeout := False\<rparr>"

text \<open>
  \<^verbatim>\<open>getExpectationAndAdjust\<close> with its two reference parameters. Before the time is out it waits for a
  result; \<open>None\<close> is a wait that does not end.
\<close>

definition getExpectationAndAdjust ::
  "(nat \<Rightarrow> bool) \<Rightarrow> bool \<Rightarrow> nat \<Rightarrow> nat \<Rightarrow> ('f, 't) threadpool \<Rightarrow> (nat \<times> nat \<times> ('f, 't) threadpool) result option"
where
  "getExpectationAndAdjust starts countTimeout tot n tp =
     (if \<not> countTimeout
      then (case SafeQueue_waitAndPop (te_results (tp_env tp) 0) of
              None \<Rightarrow> None
            | Some (res, q) \<Rightarrow>
                Some (Inr (wrap64 (tot + unat res), wrap64 (n + 1),
                  tp\<lparr>tp_env := (tp_env tp)\<lparr>te_results := (te_results (tp_env tp))(0 := q)\<rparr>\<rparr>)))
      else if n = 0 then Some (Inl DivideByZero)
      else let ratio = (tot div n) mod 2 ^ 16;
               tp = tp\<lparr>tp_mExpectation := wrap64 (tp_mHardwareNum tp * (1 + ratio))\<rparr> in
        Some (rbind (if tp_mExpectation tp > tp_mActiveNum tp
                     then expandThreads starts (tp_mExpectation tp - tp_mActiveNum tp) tp
                     else if tp_mExpectation tp < tp_mActiveNum tp
                     then shrinkThreads (tp_mActiveNum tp - tp_mExpectation tp) tp
                     else Inr tp) (\<lambda>tp. Inr (0, 0, resetAdjustThdNumTimeout tp))))"

section \<open>State of the threads, timer and the loop of the pool\<close>

definition info_of :: "'f pool_thread \<Rightarrow> thread_info" where
  "info_of rt =
     \<lparr>ti_mID = rt_mID rt, ti_mRunning = rt_mRunning rt, ti_mInactive = rt_mInactive rt,
      ti_mMaxLoadSize = rt_mMaxLoadSize rt, ti_mCurrentSize = SafeQueue_size (rt_mTasks rt), ti_mRatio = loadRatio rt\<rparr>"

definition updateThreadInfo :: "('f, 't) threadpool \<Rightarrow> ('f, 't) threadpool" where
  "updateThreadInfo tp =
     tp\<lparr>tp_mThreadsHash := fold (\<lambda>i h. h(i \<mapsto> info_of (tp_mThreads tp ! i))) [0..<length (tp_mThreads tp)] (tp_mThreadsHash tp)\<rparr>"

definition collectThdState :: "bool \<Rightarrow> ('f, 't) threadpool \<Rightarrow> ('f, 't) threadpool" where
  "collectThdState collect tp = (if collect then updateThreadInfo tp else tp)"

definition tp_setTimer :: "'t \<Rightarrow> string \<Rightarrow> pool_timer_type \<Rightarrow> ('f, 't) threadpool \<Rightarrow> ('f, 't) threadpool" where
  "tp_setTimer notify ident which tp =
     (case tp_mTimeWheelTimerWeak tp of
        None \<Rightarrow> tp
      | Some timer \<Rightarrow>
          if which = ADJUST_THREAD_NUMBER
          then tp\<lparr>tp_mTimeWheelTimerWeak := Some (addTask (new_TimerTask 0 0 5 (-1) ident (Some notify)) timer),
                  tp_mAdjustThdNumTaskID := ident\<rparr>
          else tp)"

text \<open>One round of \<^verbatim>\<open>work\<close>; the wait at its start ends at once when there is something to do, else after
  three seconds.\<close>

definition tp_work_round ::
  "(nat \<Rightarrow> bool) \<Rightarrow> nat \<Rightarrow> nat \<Rightarrow> ('f, 't) threadpool \<Rightarrow> (nat \<times> nat \<times> ('f, 't) threadpool) result option"
where
  "tp_work_round starts tot n tp =
     (if \<not> tp_mRunning tp then Some (Inr (tot, n, tp))
      else map_option (\<lambda>r. rbind r (\<lambda>(tot, n, tp). Inr (tot, n, collectThdState (tp_mIsCollectThreadState tp) tp)))
        (if tp_mIsAdjustThreadNum tp
         then getExpectationAndAdjust starts (tp_mAdjustThdNumTimeout tp) tot n tp
         else Some (Inr (tot, n, tp))))"

text \<open>The destructor up to the threads it waits for: all of them lose their queue and their local tasks.\<close>

definition delete_Threadpool :: "('f, 't) threadpool \<Rightarrow> ('f, 't) threadpool" where
  "delete_Threadpool tp =
     tp\<lparr>tp_mThreads := map (fold write_member delete_RThread) (tp_mThreads tp), tp_mThreadsHash := Map.empty\<rparr>"

section \<open>Growing and shrinking\<close>

lemma fill_holes_none:
  assumes "\<forall>j \<in> {i..<i + k}. j < length (tp_mThreads tp) \<and> \<not> rt_mInactive (tp_mThreads tp ! j)"
  shows "fill_holes starts i k n res tp = Inr (n, res, tp)"
  using assms
proof (induction k arbitrary: i)
  case (Suc k)
  have "i < length (tp_mThreads tp) \<and> \<not> rt_mInactive (tp_mThreads tp ! i)" by (rule bspec [OF Suc.prems]) simp
  moreover have "fill_holes starts (i + 1) k n res tp = Inr (n, res, tp)"
    by (rule Suc.IH) (use Suc.prems in simp)
  ultimately show ?case by simp
qed simp

lemma push_threads_all:
  assumes "\<forall>k. starts k"
  shows "push_threads starts n res tp =
    Inr (res + n, tp\<lparr>tp_mThreads := tp_mThreads tp @ replicate n linked_thread, tp_started := tp_started tp + n\<rparr>)"
  using assms
  by (induction n arbitrary: res tp) (simp_all add: start_thread_def replicate_append_same [symmetric])

text \<open>What \<^verbatim>\<open>shrinkThreads\<close> does to the threads from \<open>n\<close> to \<open>i\<close>.\<close>

definition cancel_range :: "nat \<Rightarrow> nat \<Rightarrow> 'f pool_thread list \<Rightarrow> 'f pool_thread list" where
  "cancel_range n m ths =
     map (\<lambda>j. if n \<le> j \<and> j < m then rt_command CMD_CANCEL_WHEN_COMPLETE (ths ! j) else ths ! j) [0..<length ths]"

lemma cancel_range_nth [simp]:
  "j < length ths \<Longrightarrow> cancel_range n m ths ! j =
    (if n \<le> j \<and> j < m then rt_command CMD_CANCEL_WHEN_COMPLETE (ths ! j) else ths ! j)"
  "length (cancel_range n m ths) = length ths"
  by (simp_all add: cancel_range_def)

lemma cancel_range_empty: "cancel_range n n ths = ths"
  by (rule nth_equalityI) auto

lemma cancel_down_effect:
  assumes "0 < n" and "n \<le> Suc i" and "i < length (tp_mThreads tp)"
  shows "cancel_down n i tp = Inr (tp\<lparr>tp_mThreads := cancel_range n (Suc i) (tp_mThreads tp)\<rparr>)"
  using assms
proof (induction i arbitrary: tp)
  case 0
  then have "n = 1" by simp
  then show ?case using cancel_range_empty [of 1 "tp_mThreads tp"] by (simp add: cancel_down.simps)
next
  case (Suc i)
  show ?case
  proof (cases "n = Suc (Suc i)")
    case True
    then show ?thesis using cancel_range_empty [of n "tp_mThreads tp"] by (simp add: cancel_down.simps)
  next
    case False
    then have n: "n \<le> Suc i" using Suc.prems(2) by simp
    let ?ths = "(tp_mThreads tp)[Suc i := rt_command CMD_CANCEL_WHEN_COMPLETE (tp_mThreads tp ! Suc i)]"
    have "cancel_down n i (tp\<lparr>tp_mThreads := ?ths\<rparr>) = Inr (tp\<lparr>tp_mThreads := cancel_range n (Suc i) ?ths\<rparr>)"
      using Suc.IH [of "tp\<lparr>tp_mThreads := ?ths\<rparr>"] Suc.prems(1,3) n by simp
    moreover have "cancel_range n (Suc i) ?ths = cancel_range n (Suc (Suc i)) (tp_mThreads tp)"
      by (rule nth_equalityI) (use n in \<open>auto simp: nth_list_update less_Suc_eq\<close>)
    ultimately show ?thesis using n Suc.prems(3) by (subst cancel_down.simps) (simp add: command_at_def)
  qed
qed

lemma shrinkThreads_effect:
  assumes "0 < tp_mHardwareNum tp" and "num \<le> tp_mActiveNum tp" and "tp_mHardwareNum tp \<le> tp_mActiveNum tp - num"
    and "tp_mActiveNum tp \<le> length (tp_mThreads tp)" and "tp_mActiveNum tp < 2 ^ 32"
  shows "shrinkThreads num tp =
    Inr (tp\<lparr>tp_mThreads := cancel_range (tp_mActiveNum tp - num) (tp_mActiveNum tp) (tp_mThreads tp),
            tp_mActiveNum := tp_mActiveNum tp - num\<rparr>)"
proof -
  define a where "a = tp_mActiveNum tp"
  have a: "0 < a" "a < 2 ^ 32" "num \<le> a" using assms by (simp_all add: a_def)
  have "a + (2 ^ 64 - num mod 2 ^ 64) = (a - num) + 2 ^ 64" using a by simp
  moreover have "wrap64 ((a - num) + 2 ^ 64) = wrap64 (a - num)" unfolding wrap64_def by (rule mod_add_self2)
  moreover have "wrap64 (a - num) = a - num" by (rule wrap64_small) (use a in simp)
  ultimately have n: "wrap64 (a + (2 ^ 64 - num mod 2 ^ 64)) = a - num" by (simp only:)
  have "a + (2 ^ 32 - 1) = (a - 1) + 2 ^ 32" using a by simp
  moreover have "((a - 1) + 2 ^ 32) mod 2 ^ 32 = a - 1" using a by (simp only: mod_add_self2) simp
  ultimately have i: "(a + (2 ^ 32 - 1)) mod 2 ^ 32 = a - 1" by (simp only:)
  have "cancel_down (a - num) (a - 1) tp = Inr (tp\<lparr>tp_mThreads := cancel_range (a - num) (Suc (a - 1)) (tp_mThreads tp)\<rparr>)"
    by (rule cancel_down_effect) (use assms a in \<open>simp_all add: a_def\<close>)
  then show ?thesis
    using assms(3) a n i by (simp add: shrinkThreads_def Let_def a_def [symmetric] del: One_nat_def)
qed

lemma expandThreads_effect:
  assumes "\<forall>k. starts k" and "tp_mActiveNum tp + num \<le> MAX_THREADS_NUM"
    and "\<forall>j \<in> {tp_mHardwareNum tp..<tp_mActiveNum tp}. j < length (tp_mThreads tp) \<and> \<not> rt_mInactive (tp_mThreads tp ! j)"
  shows "expandThreads starts num tp =
    Inr (tp\<lparr>tp_mThreads := tp_mThreads tp @ replicate num linked_thread, tp_started := tp_started tp + num,
            tp_mActiveNum := tp_mActiveNum tp + num\<rparr>)"
proof -
  have w: "wrap64 (tp_mActiveNum tp + num) = tp_mActiveNum tp + num" "(tp_mActiveNum tp + num) mod 2 ^ 32 = tp_mActiveNum tp + num"
    using assms(2) by (simp_all add: MAX_THREADS_NUM_def)
  have h: "fill_holes starts (tp_mHardwareNum tp) (tp_mActiveNum tp - tp_mHardwareNum tp) num 0 tp = Inr (num, 0, tp)"
    by (rule fill_holes_none) (use assms(3) in auto)
  show ?thesis using assms(1,2) w h by (simp add: expandThreads_def push_threads_all)
qed


section \<open>Shrinking and growing again\<close>

text \<open>The threads work and producers add tasks; commands come only through the pool.\<close>

definition only_work :: "'f pool_event list \<Rightarrow> bool" where
  "only_work es = (\<forall>e \<in> set es. case e of Write i w \<Rightarrow> False | Expire a \<Rightarrow> False | _ \<Rightarrow> True)"

definition run_threads ::
  "('f \<Rightarrow> 16 word call_result) \<Rightarrow> 'f pool_event list \<Rightarrow> ('f, 't) threadpool \<Rightarrow> ('f, 't) threadpool result"
where
  "run_threads call es tp =
     rbind (pool_run call es (tp_mThreads tp, tp_env tp)) (\<lambda>(ths, env). Inr (tp\<lparr>tp_mThreads := ths, tp_env := env\<rparr>))"

text \<open>A thread that was never told to end.\<close>

definition serving :: "('f, 'v) rthread \<Rightarrow> bool" where
  "serving rt =
     (\<not> rt_mWipe rt \<and> \<not> rt_mInactive rt \<and> (rt_pc rt = AtStart \<or> rt_mRunning rt) \<and>
      rt_pc rt \<noteq> AtWipe \<and> rt_pc rt \<noteq> AtDrain \<and> rt_pc rt \<noteq> AtDrainPop \<and> rt_pc rt \<noteq> AtDrainCall \<and> rt_pc rt \<noteq> AtEnd)"

definition settled :: "('f, 'v) rthread \<Rightarrow> bool" where
  "settled rt = (thread_ok rt \<and> (serving rt \<or> rt_mWipe rt))"

lemma serving_step:
  assumes "serving rt" and "thread_step call tid out (rt, env) = Inr (rt', env')"
  shows "serving rt'"
proof (cases "rt_pc rt")
  case (AtPop p)
  then have "rt' = goto_pc (AtCall p) (pop_hand rt)" using assms(2) by (simp add: thread_step_simps)
  then show ?thesis using assms(1) AtPop
    by (cases "sq_mData (rt_mTasks rt)") (simp_all add: serving_def pop_hand_def SafeQueue_pop_def goto_pc_def)
next
  case (AtCall p)
  then obtain r e where r: "call_hand call rt env = Inr (r, e)" "rt' = goto_pc (AtLevel p) r"
    using assms(2) by (auto simp: thread_step_simps rbind_eq_Inr)
  have "rt_mRunning r = rt_mRunning rt" "rt_mWipe r = rt_mWipe rt" "rt_mInactive r = rt_mInactive rt"
    using r(1) by (auto simp: call_hand_def Let_def split: option.splits if_splits call_result.splits)
  then show ?thesis using assms(1) AtCall r(2) by (simp add: serving_def)
next
  case (AtFetch p)
  show ?thesis
  proof (cases "addTasks p True 1 out rt env")
    case None
    then show ?thesis using assms AtFetch by (simp add: thread_step_simps)
  next
    case (Some r)
    then obtain x r e where r: "addTasks p True 1 out rt env = Some (x, r, e)" by (cases r) auto
    obtain c where c: "r = rt\<lparr>rt_mTasks := rt_mTasks r\<rparr>" by (rule addTasks_takes [OF r])
    have "rt' = goto_pc (AtLevel p) r" using assms(2) r by (simp add: thread_step_simps AtFetch)
    then show ?thesis using only_tasks [OF c] assms(1) AtFetch by (simp add: serving_def control_def)
  qed
next
  case (AtLevel p)
  obtain r e where r: "addByLevel p (rt_mMiddleweight rt) (rt_mLightweight rt) rt env = (r, e)" by fastforce
  obtain c where c: "r = rt\<lparr>rt_mTasks := rt_mTasks r\<rparr>" by (rule addByLevel_takes [OF r])
  have "rt' = goto_pc AtLoop r" using assms(2) r by (simp add: thread_step_simps AtLevel)
  then show ?thesis using only_tasks [OF c] assms(1) AtLevel by (simp add: serving_def control_def)
qed (use assms in \<open>auto simp: serving_def thread_step_def goto_pc_def split: if_splits\<close>)

lemma pool_run_settled:
  assumes "never_throws call" and "\<forall>rt \<in> set ths. settled rt" and "only_work es"
  shows "\<exists>ths' env'. pool_run call es (ths, env) = Inr (ths', env') \<and> (\<forall>rt \<in> set ths'. settled rt) \<and>
    map serving ths' = map serving ths"
  using assms(2,3)
proof (induction es arbitrary: ths env)
  case Nil
  then show ?case by simp
next
  case (Cons e es)
  have rest: "only_work es" using Cons.prems(2) by (simp add: only_work_def)
  have "\<exists>ths1 env1. pool_step call e (ths, env) = Inr (ths1, env1) \<and> (\<forall>rt \<in> set ths1. settled rt) \<and>
    map serving ths1 = map serving ths"
  proof (cases e)
    case (Own i out)
    show ?thesis
    proof (cases "i < length ths")
      case True
      have s: "settled (ths ! i)" using Cons.prems(1) True by simp
      then have ok: "thread_ok (ths ! i)" by (simp add: settled_def)
      obtain rt' env' c p where st: "thread_step call i out (ths ! i, env) = Inr (rt', env')"
        "advanced_thread c p (ths ! i, env) (rt', env')"
        by (rule thread_step_advances [OF assms(1) ok])
      have w: "thread_ok rt'" "rt_mWipe rt' = rt_mWipe (ths ! i)" using st(2) by (simp_all add: advanced_thread_def control_def)
      have sv: "serving rt' = serving (ths ! i)"
        using s serving_step [OF _ st(1)] w(2) by (auto simp: settled_def serving_def)
      have "settled rt'" using s sv w by (simp add: settled_def)
      then have "\<forall>rt \<in> set (ths[i := rt']). settled rt"
        using Cons.prems(1) by (auto dest!: set_update_subset_insert [THEN subsetD])
      moreover have "map serving (ths[i := rt']) = map serving ths"
        using sv True by (simp add: map_update list_update_same_conv)
      ultimately show ?thesis using st(1) True Own by auto
    next
      case False
      then show ?thesis using Cons.prems(1) Own by auto
    qed
  next
    case (Write i w)
    then show ?thesis using Cons.prems(2) by (simp add: only_work_def)
  next
    case (PushTask a f has_result)
    then show ?thesis using Cons.prems(1) by auto
  next
    case (Expire a)
    then show ?thesis using Cons.prems(2) by (simp add: only_work_def)
  qed
  then obtain ths1 env1 where "pool_step call e (ths, env) = Inr (ths1, env1)" "\<forall>rt \<in> set ths1. settled rt"
    "map serving ths1 = map serving ths" by blast
  then show ?case using Cons.IH [of ths1 env1] rest by auto
qed

text \<open>The pool gives up \<open>k\<close> threads, works, takes \<open>k\<close> threads again and works.\<close>

definition resize_cycle ::
  "('f \<Rightarrow> 16 word call_result) \<Rightarrow> (nat \<Rightarrow> bool) \<Rightarrow> nat \<Rightarrow> 'f pool_event list \<times> 'f pool_event list \<Rightarrow>
   ('f, 't) threadpool \<Rightarrow> ('f, 't) threadpool result"
where
  "resize_cycle call starts k w tp =
     rbind (shrinkThreads k tp) (\<lambda>tp. rbind (run_threads call (fst w) tp) (\<lambda>tp.
       rbind (expandThreads starts k tp) (run_threads call (snd w))))"

fun resize_cycles ::
  "('f \<Rightarrow> 16 word call_result) \<Rightarrow> (nat \<Rightarrow> bool) \<Rightarrow> nat \<Rightarrow> ('f pool_event list \<times> 'f pool_event list) list \<Rightarrow>
   ('f, 't) threadpool \<Rightarrow> ('f, 't) threadpool result"
where
  "resize_cycles call starts k [] tp = Inr tp"
| "resize_cycles call starts k (w # ws) tp = rbind (resize_cycle call starts k w tp) (resize_cycles call starts k ws)"

text \<open>The state of the pool between two cycles: who still serves, by index.\<close>

definition pool_shape :: "nat \<Rightarrow> nat \<Rightarrow> bool list \<Rightarrow> ('f, 't) threadpool \<Rightarrow> bool" where
  "pool_shape hw a st tp =
     (tp_mHardwareNum tp = hw \<and> tp_mActiveNum tp = a \<and> (\<forall>rt \<in> set (tp_mThreads tp). settled rt) \<and>
      map serving (tp_mThreads tp) = st)"

lemma run_threads_shape:
  assumes "never_throws call" and "only_work es" and "pool_shape hw a st tp"
  obtains tp' where "run_threads call es tp = Inr tp'" and "pool_shape hw a st tp'"
proof -
  obtain ths' env' where "pool_run call es (tp_mThreads tp, tp_env tp) = Inr (ths', env')" "\<forall>rt \<in> set ths'. settled rt"
    "map serving ths' = map serving (tp_mThreads tp)"
    using pool_run_settled [OF assms(1) _ assms(2), of "tp_mThreads tp" "tp_env tp"] assms(3) by (auto simp: pool_shape_def)
  then show ?thesis using assms(3)
    by (intro that [of "tp\<lparr>tp_mThreads := ths', tp_env := env'\<rparr>"]) (auto simp: run_threads_def pool_shape_def)
qed

lemma cancelled_settled:
  assumes "settled rt"
  shows "settled (rt_command CMD_CANCEL_WHEN_COMPLETE rt)" and "\<not> serving (rt_command CMD_CANCEL_WHEN_COMPLETE rt)"
proof -
  let ?r = "rt_command CMD_CANCEL_WHEN_COMPLETE rt"
  have r: "?r = rt\<lparr>rt_mRunning := False, rt_mWipe := True, rt_mExternalTasksPtr := None\<rparr>"
    by (simp add: rt_command_def cancelWhenComplete_def)
  have "thread_ok ?r \<and> accounted ?r = accounted rt"
    by (rule same_work) (use assms in \<open>simp_all add: r settled_def\<close>)
  then show "settled ?r" "\<not> serving ?r" by (simp_all add: r settled_def serving_def)
qed

lemma linked_thread_fresh [simp]: "serving linked_thread" "settled linked_thread"
  by (simp_all add: linked_thread_def new_RThread_def serving_def settled_def thread_ok_def)

text \<open>Who serves after \<open>m\<close> threads have been appended behind the \<open>a\<close> counted ones.\<close>

definition who_serves :: "nat \<Rightarrow> nat \<Rightarrow> bool \<Rightarrow> nat \<Rightarrow> bool list" where
  "who_serves a k b m = replicate (a - k) True @ replicate k b @ replicate m True"

lemma resize_cycle_shape:
  assumes "never_throws call" and "\<forall>k. starts k" and "only_work (fst w)" and "only_work (snd w)"
    and "0 < hw" and "hw + k \<le> a" and "a \<le> MAX_THREADS_NUM" and shape: "pool_shape hw a (who_serves a k b m) tp"
  obtains tp' where "resize_cycle call starts k w tp = Inr tp'" and "pool_shape hw a (who_serves a k False (m + k)) tp'"
proof -
  let ?ths = "tp_mThreads tp"
  have tp: "tp_mHardwareNum tp = hw" "tp_mActiveNum tp = a" "\<forall>rt \<in> set ?ths. settled rt" "map serving ?ths = who_serves a k b m"
    using shape by (simp_all add: pool_shape_def)
  have len: "length ?ths = a + m" using arg_cong [OF tp(4), of length] assms(6) by (simp add: who_serves_def)
  have sv: "serving (?ths ! j) = who_serves a k b m ! j" if "j < a + m" for j
    using arg_cong [OF tp(4), of "\<lambda>l. l ! j"] that len by simp
  define tp1 where "tp1 = tp\<lparr>tp_mThreads := cancel_range (a - k) a ?ths, tp_mActiveNum := a - k\<rparr>"
  have s1: "shrinkThreads k tp = Inr tp1"
    using shrinkThreads_effect [of tp k] assms(5-7) len tp(1,2) by (simp add: tp1_def MAX_THREADS_NUM_def)
  have "pool_shape hw (a - k) (who_serves a k False m) tp1"
  proof -
    have "settled (cancel_range (a - k) a ?ths ! j)" if "j < a + m" for j
    proof -
      have "settled (?ths ! j)" using tp(3) len that by (metis nth_mem)
      then show ?thesis using cancelled_settled(1) [of "?ths ! j"] that len by simp
    qed
    then have "\<forall>rt \<in> set (cancel_range (a - k) a ?ths). settled rt" using len by (auto simp: in_set_conv_nth)
    moreover have "map serving (cancel_range (a - k) a ?ths) = who_serves a k False m"
    proof (rule nth_equalityI)
      show "length (map serving (cancel_range (a - k) a ?ths)) = length (who_serves a k False m)"
        using len assms(6) by (simp add: who_serves_def)
      fix j assume "j < length (map serving (cancel_range (a - k) a ?ths))"
      then have j: "j < a + m" using len by simp
      then have "settled (?ths ! j)" using tp(3) len by (metis nth_mem)
      then show "map serving (cancel_range (a - k) a ?ths) ! j = who_serves a k False m ! j"
        using j len sv [OF j] assms(6) cancelled_settled(2) [of "?ths ! j"] by (auto simp: who_serves_def nth_append)
    qed
    ultimately show ?thesis using tp(1) by (simp add: pool_shape_def tp1_def)
  qed
  then obtain tp2 where s2: "run_threads call (fst w) tp1 = Inr tp2" "pool_shape hw (a - k) (who_serves a k False m) tp2"
    using run_threads_shape [OF assms(1,3)] by blast
  have tp2: "tp_mHardwareNum tp2 = hw" "tp_mActiveNum tp2 = a - k" "\<forall>rt \<in> set (tp_mThreads tp2). settled rt"
    "map serving (tp_mThreads tp2) = who_serves a k False m"
    using s2(2) by (simp_all add: pool_shape_def)
  have len2: "length (tp_mThreads tp2) = a + m" using arg_cong [OF tp2(4), of length] assms(6) by (simp add: who_serves_def)
  have "\<not> rt_mInactive (tp_mThreads tp2 ! j)" if "j < a - k" for j
  proof -
    have "serving (tp_mThreads tp2 ! j) = who_serves a k False m ! j"
      using arg_cong [OF tp2(4), of "\<lambda>l. l ! j"] that len2 by simp
    then have "serving (tp_mThreads tp2 ! j)" using that by (simp add: who_serves_def nth_append)
    then show ?thesis by (simp add: serving_def)
  qed
  then have "expandThreads starts k tp2 =
    Inr (tp2\<lparr>tp_mThreads := tp_mThreads tp2 @ replicate k linked_thread, tp_started := tp_started tp2 + k,
             tp_mActiveNum := tp_mActiveNum tp2 + k\<rparr>)"
    by (intro expandThreads_effect) (use assms(2,6,7) tp2 len2 in auto)
  moreover define tp3 where "tp3 = tp2\<lparr>tp_mThreads := tp_mThreads tp2 @ replicate k linked_thread,
    tp_started := tp_started tp2 + k, tp_mActiveNum := tp_mActiveNum tp2 + k\<rparr>"
  ultimately have s3: "expandThreads starts k tp2 = Inr tp3" by simp
  have "pool_shape hw a (who_serves a k False (m + k)) tp3"
    using tp2 assms(6) by (auto simp: pool_shape_def tp3_def who_serves_def replicate_add)
  then obtain tp4 where s4: "run_threads call (snd w) tp3 = Inr tp4" "pool_shape hw a (who_serves a k False (m + k)) tp4"
    using run_threads_shape [OF assms(1,4)] by blast
  show ?thesis by (rule that [of tp4]) (use s1 s2(1) s3 s4 in \<open>simp_all add: resize_cycle_def\<close>)
qed

lemma resize_cycles_shape:
  assumes "never_throws call" and "\<forall>k. starts k" and "\<forall>w \<in> set ws. only_work (fst w) \<and> only_work (snd w)"
    and "0 < hw" and "hw + k \<le> a" and "a \<le> MAX_THREADS_NUM" and "pool_shape hw a (who_serves a k False m) tp"
  shows "\<exists>tp'. resize_cycles call starts k ws tp = Inr tp' \<and> pool_shape hw a (who_serves a k False (m + k * length ws)) tp'"
  using assms(3,7)
proof (induction ws arbitrary: tp m)
  case Nil
  then show ?case by simp
next
  case (Cons w ws)
  obtain tp1 where "resize_cycle call starts k w tp = Inr tp1" "pool_shape hw a (who_serves a k False (m + k)) tp1"
    using resize_cycle_shape [OF assms(1,2) _ _ assms(4-6) Cons.prems(2), of w] Cons.prems(1) by auto
  then show ?case using Cons.IH [of "m + k" tp1] Cons.prems(1) by (auto simp: algebra_simps)
qed

text \<open>
  Each time the pool shrinks by \<open>k\<close> threads and grows by \<open>k\<close> again, \<open>k\<close> threads more keep running,
  while \<^verbatim>\<open>mActiveNum\<close> says the same as before: growing looks for ended threads only below
  \<^verbatim>\<open>mActiveNum\<close>, where there are none, and appends new ones behind the ended ones, and the next time
  it is the ended ones that are told to end. So \<^verbatim>\<open>mMaxNum\<close> bounds nothing.
\<close>

theorem resizing_leaks_threads:
  assumes "never_throws call" and "\<forall>k. starts k" and "\<forall>w \<in> set ws. only_work (fst w) \<and> only_work (snd w)"
    and "0 < tp_mHardwareNum tp" and "tp_mHardwareNum tp + k \<le> a" and "a \<le> MAX_THREADS_NUM"
    and "tp_mActiveNum tp = a" and "tp_mThreads tp = replicate a linked_thread" and "ws \<noteq> []"
  shows "\<exists>tp'. resize_cycles call starts k ws tp = Inr tp' \<and> tp_mActiveNum tp' = a \<and>
    length (filter serving (tp_mThreads tp')) = a + k * (length ws - 1)"
proof -
  let ?hw = "tp_mHardwareNum tp"
  obtain w ws' where ws: "ws = w # ws'" using assms(9) by (cases ws) auto
  have "replicate a True = replicate (a - k) True @ replicate k True"
    using assms(5) by (simp add: replicate_add [symmetric])
  then have "pool_shape ?hw a (who_serves a k True 0) tp"
    using assms(7,8) by (simp add: pool_shape_def who_serves_def)
  then obtain tp1 where s1: "resize_cycle call starts k w tp = Inr tp1" "pool_shape ?hw a (who_serves a k False k) tp1"
    using resize_cycle_shape [OF assms(1,2) _ _ assms(4-6), of w True 0] assms(3) ws by auto
  obtain tp' where s2: "resize_cycles call starts k ws' tp1 = Inr tp'"
    "pool_shape ?hw a (who_serves a k False (k + k * length ws')) tp'"
    using resize_cycles_shape [OF assms(1,2) _ assms(4-6) s1(2), of ws'] assms(3) ws by auto
  have st: "map serving (tp_mThreads tp') = who_serves a k False (k + k * length ws')" "tp_mActiveNum tp' = a"
    using s2(2) by (simp_all add: pool_shape_def)
  have "length (filter serving (tp_mThreads tp')) = length (filter id (map serving (tp_mThreads tp')))"
    by (simp add: filter_map o_def)
  also have "\<dots> = a + k * (length ws - 1)" using assms(5) by (simp add: st who_serves_def ws)
  finally show ?thesis using s1(1) s2(1) st(2) ws by simp
qed

text \<open>
  Growing over more ended threads than were asked for counts below zero, and the pool
  then starts threads until the system has no more.
\<close>

lemma push_threads_exhausts:
  assumes "j < n" and "\<not> starts (tp_started tp + j)"
  shows "push_threads starts n res tp = Inl SystemError"
  using assms
proof (induction n arbitrary: j res tp)
  case (Suc n)
  show ?case
  proof (cases "starts (tp_started tp)")
    case True
    then obtain i where "j = Suc i" using Suc.prems(2) by (cases j) auto
    then show ?thesis using Suc True by (simp add: start_thread_def)
  qed (simp add: start_thread_def)
qed simp

lemma fill_holes_all:
  assumes "\<forall>j \<in> {i..<i + k}. j < length (tp_mThreads tp) \<and> rt_mInactive (tp_mThreads tp ! j)"
  shows "fill_holes starts i k n res tp = Inl SystemError \<or>
    (\<exists>tp'. fill_holes starts i k n res tp = Inr ((if k = 0 then n else wrap64 (n + k * (2 ^ 64 - 1))), res + k, tp') \<and>
      tp_started tp' = tp_started tp + k)"
  using assms
proof (induction k arbitrary: i n res tp)
  case (Suc k)
  have i: "i < length (tp_mThreads tp)" "rt_mInactive (tp_mThreads tp ! i)"
    using Suc.prems by (simp_all add: Ball_def)
  show ?case
  proof (cases "starts (tp_started tp)")
    case True
    define tp1 where "tp1 = tp\<lparr>tp_started := tp_started tp + 1, tp_mThreads := (tp_mThreads tp)[i := linked_thread]\<rparr>"
    have "\<forall>j \<in> {i + 1..<i + 1 + k}. j < length (tp_mThreads tp1) \<and> rt_mInactive (tp_mThreads tp1 ! j)"
      using Suc.prems by (simp add: tp1_def)
    note ih = Suc.IH [OF this, of "wrap64 (n + (2 ^ 64 - 1))" "res + 1"]
    have w: "wrap64 (wrap64 (n + (2 ^ 64 - 1)) + k * (2 ^ 64 - 1)) = wrap64 (n + Suc k * (2 ^ 64 - 1))"
      by (simp only: wrap64_add_left mult_Suc add.assoc)
    have "fill_holes starts i (Suc k) n res tp = fill_holes starts (i + 1) k (wrap64 (n + (2 ^ 64 - 1))) (res + 1) tp1"
      using i True by (simp add: start_thread_def tp1_def)
    moreover have "tp_started tp1 = tp_started tp + 1" by (simp add: tp1_def)
    ultimately show ?thesis using ih w by (cases "k = 0") auto
  qed (use i in \<open>simp add: start_thread_def\<close>)
qed simp

lemma expand_below_zero:
  assumes "\<forall>j \<in> {tp_mHardwareNum tp..<tp_mActiveNum tp}. j < length (tp_mThreads tp) \<and> rt_mInactive (tp_mThreads tp ! j)"
    and "num < tp_mActiveNum tp - tp_mHardwareNum tp" and "tp_mActiveNum tp + num \<le> MAX_THREADS_NUM"
    and "m < 2 ^ 63" and "\<not> starts (tp_started tp + (tp_mActiveNum tp - tp_mHardwareNum tp) + m)"
  shows "expandThreads starts num tp = Inl SystemError"
proof -
  let ?k = "tp_mActiveNum tp - tp_mHardwareNum tp"
  have k: "0 < ?k" "num < ?k" "?k \<le> 256" using assms(2,3) by (simp_all add: MAX_THREADS_NUM_def)
  have "num + ?k * (2 ^ 64 - 1) = (2 ^ 64 - (?k - num)) + (?k - 1) * 2 ^ 64"
  proof -
    have "int (num + ?k * (2 ^ 64 - 1)) = int ((2 ^ 64 - (?k - num)) + (?k - 1) * 2 ^ 64)"
      using k by (simp add: of_nat_diff algebra_simps)
    then show ?thesis by (simp only: of_nat_eq_iff)
  qed
  then have w: "wrap64 (num + ?k * (2 ^ 64 - 1)) = wrap64 (2 ^ 64 - (?k - num))"
    unfolding wrap64_def by (simp only: mod_mult_self1)
  also have "\<dots> = 2 ^ 64 - (?k - num)" by (rule wrap64_small) (use k in simp)
  finally have w: "wrap64 (num + ?k * (2 ^ 64 - 1)) = 2 ^ 64 - (?k - num)" .
  have big: "m < 2 ^ 64 - (?k - num)" using assms(4) k by simp
  have n: "wrap64 (tp_mActiveNum tp + num) = tp_mActiveNum tp + num" using assms(3) by (simp add: MAX_THREADS_NUM_def)
  have "fill_holes starts (tp_mHardwareNum tp) ?k num 0 tp = Inl SystemError \<or>
    (\<exists>tp'. fill_holes starts (tp_mHardwareNum tp) ?k num 0 tp = Inr (2 ^ 64 - (?k - num), ?k, tp') \<and>
      tp_started tp' = tp_started tp + ?k)"
    using fill_holes_all [of "tp_mHardwareNum tp" ?k tp starts num 0] assms(1) k w by auto
  then show ?thesis
  proof
    assume "fill_holes starts (tp_mHardwareNum tp) ?k num 0 tp = Inl SystemError"
    then show ?thesis using assms(3) n by (simp add: expandThreads_def)
  next
    assume "\<exists>tp'. fill_holes starts (tp_mHardwareNum tp) ?k num 0 tp = Inr (2 ^ 64 - (?k - num), ?k, tp') \<and>
      tp_started tp' = tp_started tp + ?k"
    then obtain tp' where f: "fill_holes starts (tp_mHardwareNum tp) ?k num 0 tp = Inr (2 ^ 64 - (?k - num), ?k, tp')"
      "tp_started tp' = tp_started tp + ?k" by blast
    have "push_threads starts (2 ^ 64 - (?k - num)) ?k tp' = Inl SystemError"
      by (rule push_threads_exhausts [OF big]) (use assms(5) f(2) in simp)
    then show ?thesis using f(1) assms(3) n by (simp add: expandThreads_def)
  qed
qed

section \<open>The properties at concrete inputs\<close>

definition demo_pool :: "(nat, unit) threadpool" where
  "demo_pool =
     \<lparr>tp_mRunning = True, tp_mHardwareNum = 2, tp_mActiveNum = 4, tp_mExpectation = 0, tp_mIsAdjustThreadNum = True,
      tp_mAdjustThdNumTimeout = True, tp_mIsCollectThreadState = False, tp_mAdjustThdNumTaskID = [],
      tp_mThreadsHash = Map.empty, tp_env = new_queues, tp_mThreads = replicate 4 linked_thread,
      tp_mTimeWheelTimerWeak = None, tp_started = 4\<rparr>"


theorem resizing_leaks_threads_witness:
  "\<exists>tp'. resize_cycles (\<lambda>f. Returned 0) (\<lambda>k. True) 2 [([], []), ([Own 0 False], [PushTask 0 7 False]), ([], [])] demo_pool = Inr tp' \<and>
    tp_mActiveNum tp' = 4 \<and> length (filter serving (tp_mThreads tp')) = 8"
  using resizing_leaks_threads [of "\<lambda>f. Returned 0" "\<lambda>k. True"
    "[([], []), ([Own 0 False], [PushTask 0 7 False]), ([], [])]" demo_pool 2 4]
  by (simp add: never_throws_def only_work_def demo_pool_def MAX_THREADS_NUM_def del: resize_cycles.simps)

end
