(* ===== verification/Clock.thy ===== *)
theory Clock
  imports Tcp_Server
begin

text \<open>
  \<^verbatim>\<open>Base/utility/Time.h\<close>, \<^verbatim>\<open>Widgets.h\<close>, \<^verbatim>\<open>Cmd.h\<close> and \<^verbatim>\<open>TimeWheelTimer::generateID\<close>: time stamps, the ids
  of timer tasks and what the servers build on them. A reading of the system clock is its number
  of microseconds since the epoch and an argument, one for each time the code looks at the clock;
  how \<^verbatim>\<open>localtime\<close> and \<^verbatim>\<open>strftime\<close> print a second is the argument \<open>rough\<close>.
\<close>

section \<open>Time\<close>

definition microsecondsSinceEpoch :: "nat \<Rightarrow> nat" where
  "microsecondsSinceEpoch now = now"

definition millisecondsSinceEpoch :: "nat \<Rightarrow> nat" where
  "millisecondsSinceEpoch now = now div 1000"

definition secondsSinceEpoch :: "nat \<Rightarrow> nat" where
  "secondsSinceEpoch now = now div 1000000"

definition Time_getRough :: "(nat \<Rightarrow> string) \<Rightarrow> nat \<Rightarrow> string" where
  "Time_getRough rough now = rough (secondsSinceEpoch now)"

record time_stamp =
  tm_mRoughDate :: string
  tm_mSecondsSinceEpoch :: nat

definition new_Time :: "(nat \<Rightarrow> string) \<Rightarrow> nat \<Rightarrow> nat \<Rightarrow> time_stamp" where
  "new_Time rough now1 now2 =
     \<lparr>tm_mRoughDate = Time_getRough rough now1, tm_mSecondsSinceEpoch = secondsSinceEpoch now2\<rparr>"

text \<open>The microseconds are read first, the date after them.\<close>

definition Time_call :: "(nat \<Rightarrow> string) \<Rightarrow> nat \<Rightarrow> nat \<Rightarrow> string" where
  "Time_call rough now1 now2 =
     (let microseconds = microsecondsSinceEpoch now1 mod 1000000 in
      Time_getRough rough now2 @ ''.'' @ six_digits microseconds)"

definition Time_getNow :: "(nat \<Rightarrow> string) \<Rightarrow> bool \<Rightarrow> nat \<Rightarrow> nat \<Rightarrow> nat \<Rightarrow> time_stamp \<Rightarrow> string" where
  "Time_getNow rough lazy now1 now2 now3 t =
     (let microseconds = microsecondsSinceEpoch now1 mod 1000000 in
      if lazy \<and> tm_mSecondsSinceEpoch t = secondsSinceEpoch now2
      then tm_mRoughDate t @ ''.'' @ six_digits microseconds
      else Time_getRough rough now3 @ ''.'' @ six_digits microseconds)"

text \<open>The lazy stamp is the exact one while the second of the construction lasts, and later as well,
  because then it is not lazy.\<close>

lemma lazy_stamp_exact:
  assumes "secondsSinceEpoch c1 = secondsSinceEpoch c2" and "secondsSinceEpoch now2 = secondsSinceEpoch now3"
  shows "Time_getNow rough lazy now1 now2 now3 (new_Time rough c1 c2) = Time_call rough now1 now3"
  using assms by (simp add: Time_getNow_def Time_call_def new_Time_def Time_getRough_def Let_def)

text \<open>When the second ends between the two readings the stamp is nearly a second too late.\<close>

lemma stamp_ahead:
  assumes "now2 = now1 + 1" and "now1 mod 1000000 = 999999"
  shows "Time_call rough now1 now2 = rough (secondsSinceEpoch now1 + 1) @ ''.'' @ six_digits 999999"
proof -
  have "now2 = (now1 div 1000000 + 1) * 1000000"
    using assms div_mult_mod_eq [of now1 1000000] by (simp only: add_mult_distrib)
  then have "now2 div 1000000 = now1 div 1000000 + 1" by simp
  then show ?thesis using assms(2)
    by (simp add: Time_call_def Time_getRough_def secondsSinceEpoch_def microsecondsSinceEpoch_def)
qed

text \<open>\<^verbatim>\<open>Chronometer\<close>: readings of the steady clock in nanoseconds, in units of \<open>u\<close> nanoseconds.\<close>

definition Chronometer_getElapsed :: "nat \<Rightarrow> nat \<Rightarrow> nat \<Rightarrow> nat" where
  "Chronometer_getElapsed u mTimepoint now = (now - mTimepoint) div u"

definition Widgets_getTID :: "nat \<Rightarrow> string" where
  "Widgets_getTID intid = decimal intid"

definition Widgets_getTimestamp :: "nat \<Rightarrow> string" where
  "Widgets_getTimestamp now = decimal (microsecondsSinceEpoch now)"

text \<open>
  \<^verbatim>\<open>Cmd\<close>: the first 1024 bytes a command prints, as a C string, without the last character. Without a
  zero byte among them the string has no end, and an empty string has no last character.
\<close>

definition Cmd_call :: "bytes \<Rightarrow> string result" where
  "Cmd_call output =
     (let mBuff = take 1024 output @ replicate (1024 - length output) (CHR 0x00);
          text = takeWhile (\<lambda>c. c \<noteq> CHR 0x00) mBuff in
      if length text = 1024 \<or> text = [] then Inl OutOfBounds else Inr (butlast text))"

lemma Cmd_call_line:
  assumes "CHR 0x00 \<notin> set line" and "length line < 1023"
  shows "Cmd_call (line @ [CHR 0x0A]) = Inr line"
proof -
  have "takeWhile (\<lambda>c. c \<noteq> CHR 0x00) ((line @ [CHR 0x0A]) @ replicate (Suc n) (CHR 0x00)) = line @ [CHR 0x0A]" for n
    using assms(1) by (subst takeWhile_append2) auto
  moreover have "1024 - length (line @ [CHR 0x0A]) = Suc (1022 - length line)" using assms(2) by simp
  ultimately show ?thesis using assms(2) by (simp only: Cmd_call_def Let_def) simp
qed

section \<open>Ids of timer tasks\<close>

definition generateID :: "nat \<Rightarrow> 'f wheel_timer \<Rightarrow> string \<times> 'f wheel_timer" where
  "generateID now st =
     (let st = st\<lparr>mIncrPerSec := wrap64 (mIncrPerSec st + 1)\<rparr> in
      (decimal (secondsSinceEpoch now) @ ''-'' @ decimal (mIncrPerSec st), st))"

text \<open>\<^verbatim>\<open>TcpServer::registerTimerTask\<close> with the id it generates.\<close>

definition server_registerTimerTask ::
  "nat \<Rightarrow> nat \<Rightarrow> nat \<Rightarrow> nat \<Rightarrow> int \<Rightarrow> 't \<Rightarrow> 't tcp_server \<Rightarrow> bool \<times> 't tcp_server"
where
  "server_registerTimerTask now hours minutes seconds cyc func s =
     (case ts_mTimer s of
        None \<Rightarrow> (False, s)
      | Some timer \<Rightarrow>
          (case generateID now timer of (ident, timer) \<Rightarrow>
            registerTimerTask hours minutes seconds cyc func ident (s\<lparr>ts_mTimer := Some timer\<rparr>)))"

lemma append_dash_inject:
  assumes "CHR 0x2D \<notin> set a" and "CHR 0x2D \<notin> set b" and "a @ ''-'' @ c = b @ ''-'' @ d"
  shows "a = b \<and> c = d"
proof -
  have w: "takeWhile (\<lambda>x. x \<noteq> CHR 0x2D) (x @ ''-'' @ y) = x" if "CHR 0x2D \<notin> set x" for x y :: string
  proof -
    have "\<forall>c \<in> set x. c \<noteq> CHR 0x2D" using that by blast
    then show ?thesis by (simp add: takeWhile_append2)
  qed
  have "a = b" using arg_cong [OF assms(3), of "takeWhile (\<lambda>x. x \<noteq> CHR 0x2D)"] unfolding w [OF assms(1)] w [OF assms(2)] .
  then show ?thesis using assms(3) by simp
qed

lemma decimal_no_dash: "CHR 0x2D \<notin> set (decimal n)"
proof
  assume "CHR 0x2D \<in> set (decimal n)"
  then obtain d :: nat where "d < 10" "CHR 0x2D = char_of (48 + d)" using decimal_chars by blast
  then have "(of_char (CHR 0x2D) :: nat) = 48 + d" by (simp add: of_char_of take_bit_nat_def)
  then show False by simp
qed

text \<open>The ids of one timer agree only in the same second and for the same count.\<close>

lemma generateID_inject:
  "fst (generateID now st) = fst (generateID now' st') \<longleftrightarrow>
   secondsSinceEpoch now = secondsSinceEpoch now' \<and> wrap64 (mIncrPerSec st + 1) = wrap64 (mIncrPerSec st' + 1)"
proof -
  have "decimal a @ ''-'' @ decimal b = decimal c @ ''-'' @ decimal d \<longleftrightarrow> a = c \<and> b = d" for a b c d :: nat
  proof
    assume "decimal a @ ''-'' @ decimal b = decimal c @ ''-'' @ decimal d"
    then have "decimal a = decimal c \<and> decimal b = decimal d"
      by (rule append_dash_inject [OF decimal_no_dash decimal_no_dash])
    then show "a = c \<and> b = d" by (simp only: decimal_inject)
  qed (elim conjE, simp only:)
  then show ?thesis unfolding generateID_def Let_def fst_conv by simp
qed

section \<open>What the timer does to the count\<close>

lemma push_node_count: "push_node i n st = Inr st' \<Longrightarrow> mIncrPerSec st' = mIncrPerSec st"
  by (auto simp: push_node_def set_slot_def rbind_eq_Inr)

lemma erase_count [simp]:
  "mIncrPerSec (erase_head i st) = mIncrPerSec st" "mIncrPerSec (erase_at i p st) = mIncrPerSec st"
  "mIncrPerSec (set_slot i ns st) = mIncrPerSec st" "mIncrPerSec (eraseTimerTask key st) = mIncrPerSec st"
  "mIncrPerSec (call_task t st) = mIncrPerSec st"
  by (simp_all add: erase_head_def erase_at_def set_slot_def eraseTimerTask_def call_task_def split: option.split)

lemma addTimerNodeFor_count: "addTimerNodeFor t st = Inr st' \<Longrightarrow> mIncrPerSec st' = mIncrPerSec st"
  by (auto simp: addTimerNodeFor_def Let_def dest: push_node_count split: if_splits)

lemma repeatTimerTask_count: "repeatTimerTask key st = Inr st' \<Longrightarrow> mIncrPerSec st' = mIncrPerSec st"
  by (auto simp: repeatTimerTask_def Let_def dest: addTimerNodeFor_count split: option.splits)

lemma registerTask_count: "registerTask st = Inr st' \<Longrightarrow> mIncrPerSec st' = mIncrPerSec st"
  by (auto simp: registerTask_def Let_def dest!: addTimerNodeFor_count split: option.splits prod.splits if_splits)

lemma visit_second_count: "visit_second i n st = Inr st' \<Longrightarrow> mIncrPerSec st' = mIncrPerSec st"
  by (auto simp: visit_second_def Let_def rbind_eq_Inr dest: repeatTimerTask_count split: if_splits)

lemma visit_minute_count: "visit_minute i n st = Inr st' \<Longrightarrow> mIncrPerSec st' = mIncrPerSec st"
  by (auto simp: visit_minute_def Let_def dest: push_node_count split: if_splits)

lemma visit_hour_count: "visit_hour i p n st = Inr (b, st') \<Longrightarrow> mIncrPerSec st' = mIncrPerSec st"
  by (auto simp: visit_hour_def Let_def rbind_eq_Inr dest: push_node_count split: if_splits)

lemma second_loop_count: "second_loop i st = Some (Inr st') \<Longrightarrow> mIncrPerSec st' = mIncrPerSec st"
proof -
  assume a: "second_loop i st = Some (Inr st')"
  have "\<forall>st'. r = Inr st' \<longrightarrow> mIncrPerSec st' = mIncrPerSec st" if "second_loop i st = Some r" for r
    by (rule second_loop.raw_induct [OF _ that, where P = "\<lambda>i st r. \<forall>st'. r = Inr st' \<longrightarrow> mIncrPerSec st' = mIncrPerSec st"])
      (auto dest: visit_second_count split: sum.splits list.splits)
  then show ?thesis using a by blast
qed

lemma minute_loop_count: "minute_loop i st = Some (Inr st') \<Longrightarrow> mIncrPerSec st' = mIncrPerSec st"
proof -
  assume a: "minute_loop i st = Some (Inr st')"
  have "\<forall>st'. r = Inr st' \<longrightarrow> mIncrPerSec st' = mIncrPerSec st" if "minute_loop i st = Some r" for r
    by (rule minute_loop.raw_induct [OF _ that, where P = "\<lambda>i st r. \<forall>st'. r = Inr st' \<longrightarrow> mIncrPerSec st' = mIncrPerSec st"])
      (auto dest: visit_minute_count split: sum.splits list.splits)
  then show ?thesis using a by blast
qed

lemma hour_loop_count: "hour_loop i p st = Some (Inr st') \<Longrightarrow> mIncrPerSec st' = mIncrPerSec st"
proof -
  assume a: "hour_loop i p st = Some (Inr st')"
  have "\<forall>st'. r = Inr st' \<longrightarrow> mIncrPerSec st' = mIncrPerSec st" if "hour_loop i p st = Some r" for r
    by (rule hour_loop.raw_induct [OF _ that, where P = "\<lambda>i p st r. \<forall>st'. r = Inr st' \<longrightarrow> mIncrPerSec st' = mIncrPerSec st"])
      (fastforce dest: visit_hour_count split: sum.splits if_splits)
  then show ?thesis using a by blast
qed

lemma tick_count: "tick st = Some (Inr st') \<Longrightarrow> mIncrPerSec st' = 0"
  by (auto simp: tick_def Let_def then_do_def checkSecondWheel_def checkMinuteWheel_def checkHourWheel_def
      dest!: second_loop_count minute_loop_count hour_loop_count split: option.splits sum.splits if_splits)

lemma pushes_keep:
  "ts_mTimer (fold (pushTaskID \<circ> snd) xs s) = ts_mTimer s"
  "ts_mTimerTasks (fold (pushTaskID \<circ> snd) xs s) = ts_mTimerTasks s"
  by (induction xs arbitrary: s) (simp_all add: pushTaskID_def)

text \<open>
  The count starts again whenever the timer ticks, but its ticks are not the seconds of the wall
  clock. When a tick falls between two registrations within one second of the clock, the second
  one gets the id of the first: it is refused, nobody looks at the result, and the heartbeat of
  its connection is never checked.
\<close>

theorem second_registration_refused:
  assumes "ts_mTimer s = Some timer" and "mIncrPerSec timer = 0"
    and "server_registerTimerTask now h m sec cyc func s = (True, s1)"
    and "timer_register s1 = Inr s2" and "timer_seconds 1 s2 = Some (Inr s3)"
    and "secondsSinceEpoch now' = secondsSinceEpoch now"
  shows "fst (server_registerTimerTask now' h' m' sec' cyc' func' s3) = False \<and>
    ts_mTimerTasks (snd (server_registerTimerTask now' h' m' sec' cyc' func' s3)) = ts_mTimerTasks s1"
proof -
  obtain ident timer' where g: "generateID now timer = (ident, timer')" by fastforce
  let ?s = "s\<lparr>ts_mTimer := Some timer'\<rparr>"
  have reg: "registerTimerTask h m sec cyc func ident ?s = (True, s1)"
    using assms(1,3) g by (simp add: server_registerTimerTask_def)
  then obtain t1 where s1: "ts_mTimer s1 = Some t1" "ts_mTimerTasks s1 ident = Some func"
    by (auto simp: registerTimerTask_def split: option.splits)
  obtain t2 where s2: "ts_mTimer s2 = Some t2" "ts_mTimerTasks s2 = ts_mTimerTasks s1"
    using assms(4) s1(1) by (auto simp: timer_register_def rbind_eq_Inr)
  obtain t3 where t3: "tick t2 = Some (Inr t3)"
    and s3: "s3 = fold (pushTaskID \<circ> snd) (drop (length (tw_fired t2)) (tw_fired t3)) (s2\<lparr>ts_mTimer := Some t3\<rparr>)"
    using assms(5) s2(1) by (auto simp: timer_seconds_def then_do_def split: option.splits sum.splits)
  have s3': "ts_mTimer s3 = Some t3" "ts_mTimerTasks s3 = ts_mTimerTasks s1"
    using s3 s2(2) by (simp_all add: pushes_keep)
  have "mIncrPerSec t3 = 0" by (rule tick_count [OF t3])
  then have "fst (generateID now' t3) = ident"
    using generateID_inject [of now' t3 now timer] assms(2,6) g by simp
  then obtain t4 where g': "generateID now' t3 = (ident, t4)" by (cases "generateID now' t3") auto
  have "server_registerTimerTask now' h' m' sec' cyc' func' s3 = (False, s3\<lparr>ts_mTimer := Some t4\<rparr>)"
    using s3' s1(2) g' by (simp add: server_registerTimerTask_def registerTimerTask_def)
  then show ?thesis using s3'(2) by simp
qed

text \<open>Between two ticks the ids differ: the first \<open>2 ^ 64 - 1\<close> registrations of a second get different ids.\<close>

definition nth_id :: "nat \<Rightarrow> 'f wheel_timer \<Rightarrow> nat \<Rightarrow> string" where
  "nth_id i timer now = fst (generateID now (timer\<lparr>mIncrPerSec := wrap64 (mIncrPerSec timer + i)\<rparr>))"

lemma ids_of_a_second_differ:
  assumes "i < j" and "j < 2 ^ 64"
  shows "nth_id i timer now \<noteq> nth_id j timer now'"
proof
  assume "nth_id i timer now = nth_id j timer now'"
  then have "(mIncrPerSec timer + i + 1) mod 2 ^ 64 = (mIncrPerSec timer + j + 1) mod 2 ^ 64"
    unfolding nth_id_def generateID_inject by (simp add: wrap64_def mod_Suc_eq)
  then have "(2 ^ 64 :: nat) dvd (mIncrPerSec timer + j + 1) - (mIncrPerSec timer + i + 1)"
    using assms(1) mod_eq_dvd_iff_nat [of "mIncrPerSec timer + i + 1" "mIncrPerSec timer + j + 1" "2 ^ 64"] by simp
  then have "(2 ^ 64 :: nat) dvd j - i" by simp
  then show False using assms by (meson dvd_imp_le less_imp_diff_less not_less zero_less_diff)
qed

definition demo_server :: "nat tcp_server" where
  "demo_server = (new_TcpServer ''login'' 4 2 1031 (\<lambda>_. 0))\<lparr>ts_mTimer := Some new_TimeWheelTimer\<rparr>"

theorem second_registration_refused_witness:
  "\<exists>s1 s2 s3. server_registerTimerTask 5200000 0 0 10 (-1) 1 demo_server = (True, s1) \<and> timer_register s1 = Inr s2 \<and>
    timer_seconds 1 s2 = Some (Inr s3) \<and> \<not> fst (server_registerTimerTask 5900000 0 0 10 (-1) 2 s3)"
proof -
  obtain s1 where s1: "server_registerTimerTask 5200000 0 0 10 (-1) 1 demo_server = (True, s1)"
    and t1: "\<exists>t. ts_mTimer s1 = Some t \<and> timer_inv t \<and> tw_Hours t = 0"
  proof -
    let ?g = "generateID 5200000 (new_TimeWheelTimer :: string wheel_timer)"
    let ?t = "addTask (new_TimerTask 0 0 10 (-1) (fst ?g) (Some (fst ?g))) (snd ?g)"
    have "timer_inv ?t" "tw_Hours ?t = 0"
      by (simp_all add: timer_inv_def timer_ok_def addTask_def generateID_def Let_def new_TimeWheelTimer_def new_TimerTask_def
          SafeQueue_push_def new_SafeQueue_def)
    then show ?thesis
      by (intro that) (auto simp: server_registerTimerTask_def registerTimerTask_def demo_server_def new_TcpServer_def
          generateID_def Let_def)
  qed
  then obtain t where t: "ts_mTimer s1 = Some t" "timer_inv t" "tw_Hours t = 0" by blast
  obtain t2 where t2: "registerTask t = Inr t2" "timer_ok t2" "clock t2 = clock t"
    using registerTask_ok [of t] t(2) by (auto simp: timer_inv_def)
  have "clock t < 3600" using t(2,3) by (simp add: timer_inv_def timer_ok_def clock_def)
  then have hours: "tw_Hours t2 < 2 ^ 64 - 1" using t2(3) by (simp add: clock_def)
  define s2 where "s2 = s1\<lparr>ts_mTimer := Some t2\<rparr>"
  have r: "timer_register s1 = Inr s2" using t(1) t2(1) by (simp add: timer_register_def s2_def)
  obtain t3 where "tick t2 = Some (Inr t3)" using tick_ok [OF t2(2) hours] by auto
  then obtain s3 where s3: "timer_seconds 1 s2 = Some (Inr s3)" by (simp add: timer_seconds_def s2_def)
  have "\<not> fst (server_registerTimerTask 5900000 0 0 10 (-1) 2 s3)"
    using second_registration_refused [OF _ _ s1 r s3, of new_TimeWheelTimer 5900000 0 0 10 "-1" 2]
    by (simp add: demo_server_def new_TimeWheelTimer_def secondsSinceEpoch_def)
  then show ?thesis using s1 r s3 by blast
qed

end
