(* ===== verification/Sockets.thy ===== *)
theory Sockets
  imports Prelude
begin

unbundle bit_operations_syntax

text \<open>
  \<^verbatim>\<open>Base/net/SocketAddr.h\<close>, \<^verbatim>\<open>Socket.h\<close>, \<^verbatim>\<open>Socket.cpp\<close> and \<^verbatim>\<open>TCPSocket.h\<close>: IPv4 addresses with their
  text, and the sockets.

  A \<^verbatim>\<open>sockaddr_in\<close> keeps the port in network order, as a word of the little-endian target, and the
  four octets of the address in the order they are written. \<^verbatim>\<open>inet_pton\<close>, \<^verbatim>\<open>inet_ntop\<close> and the
  numeric case of \<^verbatim>\<open>getnameinfo\<close> are written out (glibc: four decimal numbers up to 255 without
  leading zeros); resolving names is an argument.

  The kernel is an argument too: it answers a system call, given the calls made so far. The log of
  these calls is the state of the operations, so every call an operation makes, with its values,
  is part of its result. Constants are those of Linux.
\<close>

section \<open>Addresses\<close>

type_synonym octets = "8 word \<times> 8 word \<times> 8 word \<times> 8 word"

record sockaddr_in =
  sin_family :: "16 word"
  sin_port :: "16 word"
  sin_addr :: octets

definition AF_INET :: "16 word" where
  "AF_INET = 2"

definition AF_UNSPEC :: "16 word" where
  "AF_UNSPEC = 0"

definition htons :: "16 word \<Rightarrow> 16 word" where
  "htons p = of_nat (le_decode (rev (le_encode 2 (unat p))))"

definition ntohs :: "16 word \<Rightarrow> 16 word" where
  "ntohs p = of_nat (le_decode (rev (le_encode 2 (unat p))))"

subsection \<open>Text\<close>

text \<open>The loop of \<^verbatim>\<open>inet_pton\<close>: the finished numbers, last first, and the one being read.\<close>

definition is_digit :: "char \<Rightarrow> bool" where
  "is_digit c = (48 \<le> (of_char c :: nat) \<and> (of_char c :: nat) \<le> 57)"

fun pton :: "nat list \<Rightarrow> nat option \<Rightarrow> string \<Rightarrow> nat list option" where
  "pton done cur [] =
     (case cur of None \<Rightarrow> None | Some v \<Rightarrow> if length done = 3 then Some (rev (v # done)) else None)"
| "pton done cur (c # cs) =
     (if is_digit c then
        (let d = of_char c - 48 in
         case cur of
           None \<Rightarrow> pton done (Some d) cs
         | Some v \<Rightarrow> if v = 0 \<or> 10 * v + d > 255 then None else pton done (Some (10 * v + d)) cs)
      else if c = CHR ''.'' then
        (case cur of
           None \<Rightarrow> None
         | Some v \<Rightarrow> if length done = 3 then None else pton (v # done) None cs)
      else None)"

definition inet_pton :: "string \<Rightarrow> octets option" where
  "inet_pton s =
     (case pton [] None s of
        Some [a, b, c, d] \<Rightarrow> Some (of_nat a, of_nat b, of_nat c, of_nat d)
      | _ \<Rightarrow> None)"

fun dotted :: "nat list \<Rightarrow> string" where
  "dotted [] = []"
| "dotted [v] = decimal v"
| "dotted (v # vs) = decimal v @ ''.'' @ dotted vs"

definition inet_ntop :: "octets \<Rightarrow> string" where
  "inet_ntop q = (case q of (a, b, c, d) \<Rightarrow> dotted [unat a, unat b, unat c, unat d])"

text \<open>\<^verbatim>\<open>c_text()\<close>: what a C function sees of a string.\<close>

definition c_text :: "string \<Rightarrow> string" where
  "c_text s = takeWhile (\<lambda>c. c \<noteq> CHR 0x00) s"

subsection \<open>SocketAddr\<close>

definition new_SocketAddr_port :: "16 word \<Rightarrow> sockaddr_in" where
  "new_SocketAddr_port port = \<lparr>sin_family = AF_INET, sin_port = htons port, sin_addr = (0, 0, 0, 0)\<rparr>"

text \<open>\<^verbatim>\<open>memset\<close> first; a text that is no address leaves \<^verbatim>\<open>sin_addr\<close> zero.\<close>

definition new_SocketAddr :: "string \<Rightarrow> 16 word \<Rightarrow> sockaddr_in" where
  "new_SocketAddr ip port =
     \<lparr>sin_family = AF_INET, sin_port = htons port,
      sin_addr = (case inet_pton (c_text ip) of None \<Rightarrow> (0, 0, 0, 0) | Some q \<Rightarrow> q)\<rparr>"

definition getPort :: "sockaddr_in \<Rightarrow> 16 word" where
  "getPort a = ntohs (sin_port a)"

definition getIP :: "sockaddr_in \<Rightarrow> string" where
  "getIP a = inet_ntop (sin_addr a)"

definition numeric_nameinfo :: "sockaddr_in \<Rightarrow> (string \<times> string) option" where
  "numeric_nameinfo a =
     (if sin_family a = AF_INET then Some (inet_ntop (sin_addr a), decimal (unat (ntohs (sin_port a))))
      else None)"

definition host_service :: "(string \<times> string) option \<Rightarrow> string" where
  "host_service r = (case r of Some (host, service) \<Rightarrow> host @ '':'' @ service | None \<Rightarrow> ''UNKNOWN'')"

text \<open>\<open>resolve\<close> is \<^verbatim>\<open>getnameinfo\<close> without flags.\<close>

definition getHostAndService :: "(sockaddr_in \<Rightarrow> (string \<times> string) option) \<Rightarrow> sockaddr_in \<Rightarrow> string" where
  "getHostAndService resolve a = host_service (resolve a)"

definition getHostAndServiceNUM :: "sockaddr_in \<Rightarrow> string" where
  "getHostAndServiceNUM a = host_service (numeric_nameinfo a)"

section \<open>Reading and printing an address\<close>

lemma swap_bytes: "ntohs (htons p) = p"
proof -
  let ?b = "le_encode 2 (unat p)"
  have p: "unat p < 256 ^ 2" using unsigned_less [of p] by simp
  have "le_decode (rev ?b) < 256 ^ 2" using le_decode_less [of "rev ?b"] by simp
  then have "unat (htons p) = le_decode (rev ?b)"
    by (simp add: htons_def unsigned_of_nat take_bit_nat_eq_self)
  then have "le_encode 2 (unat (htons p)) = rev ?b" by simp
  then show ?thesis using p by (simp add: ntohs_def del: le_encode.simps)
qed

lemma htons_inject [simp]: "htons p = htons q \<longleftrightarrow> p = q"
  by (metis swap_bytes)

lemma dotted_snoc: "dotted (vs @ [v]) = concat (map (\<lambda>v. decimal v @ ''.'') vs) @ decimal v"
proof (induction vs)
  case Nil
  then show ?case by simp
next
  case (Cons x vs)
  then show ?case by (cases vs) simp_all
qed

lemma digit_char [simp]: "(d::nat) < 10 \<Longrightarrow> is_digit (char_of (48 + d))"
  by (simp add: is_digit_def)

lemma decimal_small: "d < 10 \<Longrightarrow> decimal d = [char_of (48 + d)]"
  by (simp add: decimal.simps [of d])

lemma decimal_step: "0 < v \<Longrightarrow> d < 10 \<Longrightarrow> decimal (10 * v + d) = decimal v @ [char_of (48 + d)]"
  by (simp add: decimal.simps [of "10 * v + d"])

lemma digit_cases:
  assumes "is_digit c"
  obtains d :: nat where "d < 10" "c = char_of (48 + d)"
proof
  show "(of_char c - 48 :: nat) < 10" using assms by (auto simp: is_digit_def)
  show "c = char_of (48 + (of_char c - 48) :: nat)" using assms by (simp add: is_digit_def)
qed

lemma pton_digit:
  "d < 10 \<Longrightarrow> pton done cur (char_of (48 + d) # cs) =
     (case cur of None \<Rightarrow> pton done (Some d) cs
      | Some v \<Rightarrow> if v = 0 \<or> 10 * v + d > 255 then None else pton done (Some (10 * v + d)) cs)"
  by (simp add: Let_def)

lemma pton_dot:
  "pton done cur (CHR ''.'' # cs) =
     (case cur of None \<Rightarrow> None
      | Some v \<Rightarrow> if length done = 3 then None else pton (v # done) None cs)"
  by (simp add: is_digit_def)

declare pton.simps(2) [simp del]

lemma pton_decimal: "v < 256 \<Longrightarrow> pton done None (decimal v @ cs) = pton done (Some v) cs"
proof (induction v arbitrary: cs rule: decimal.induct)
  case (1 n)
  show ?case
  proof (cases "n < 10")
    case True
    then show ?thesis by (simp add: decimal_small pton_digit)
  next
    case False
    then have "pton done None (decimal (n div 10) @ cs') = pton done (Some (n div 10)) cs'" for cs'
      using 1 by simp
    moreover have "n div 10 \<noteq> 0" using False by simp
    ultimately show ?thesis using False "1.prems"
      by (simp add: decimal.simps [of n] pton_digit)
  qed
qed

lemma pton_complete:
  "vs \<noteq> [] \<Longrightarrow> length done + length vs = 4 \<Longrightarrow> \<forall>v\<in>set vs. v < 256 \<Longrightarrow>
   pton done None (dotted vs) = Some (rev done @ vs)"
proof (induction vs arbitrary: "done" rule: dotted.induct)
  case 1
  then show ?case by simp
next
  case (2 v)
  then show ?case using pton_decimal [of v "done" "[]"] by simp
next
  case (3 v v' vs)
  then have "pton (v # done) None (dotted (v' # vs)) = Some (rev (v # done) @ v' # vs)" by auto
  then show ?case using 3(3,4) by (simp add: pton_decimal pton_dot)
qed

text \<open>What has been read of an address, as text.\<close>

definition text_read :: "nat list \<Rightarrow> nat option \<Rightarrow> string" where
  "text_read done cur =
     concat (map (\<lambda>v. decimal v @ ''.'') (rev done)) @ (case cur of None \<Rightarrow> [] | Some v \<Rightarrow> decimal v)"

lemma pton_sound:
  "pton done cur s = Some q \<Longrightarrow> \<forall>v\<in>set done. v < 256 \<Longrightarrow> pred_option (\<lambda>v. v < 256) cur \<Longrightarrow>
   length q = 4 \<and> (\<forall>v\<in>set q. v < 256) \<and> text_read done cur @ s = dotted q"
proof (induction s arbitrary: "done" cur)
  case Nil
  then obtain v where v: "cur = Some v" "length done = 3" "q = rev done @ [v]"
    by (auto split: option.splits if_splits)
  with Nil show ?case by (auto simp: text_read_def dotted_snoc)
next
  case (Cons c s)
  show ?case
  proof (cases "is_digit c")
    case True
    then obtain d :: nat where d: "d < 10" "c = char_of (48 + d)" by (rule digit_cases)
    show ?thesis
    proof (cases cur)
      case None
      then have "pton done (Some d) s = Some q" using Cons.prems d by (simp add: pton_digit)
      from Cons.IH [OF this] Cons.prems d None show ?thesis
        by (simp add: text_read_def decimal_small)
    next
      case (Some v)
      then have n: "0 < v" "10 * v + d < 256" and "pton done (Some (10 * v + d)) s = Some q"
        using Cons.prems d by (auto simp: pton_digit split: if_splits)
      from Cons.IH [OF this(3)] Cons.prems d Some n show ?thesis
        by (simp add: text_read_def decimal_step)
    qed
  next
    case False
    then have "c = CHR ''.''" and "\<exists>v. cur = Some v \<and> pton (v # done) None s = Some q"
      using Cons.prems by (auto simp: pton.simps(2) split: if_splits option.splits)
    then obtain v where "c = CHR ''.''" "cur = Some v" "pton (v # done) None s = Some q" by blast
    with Cons.IH [of "v # done" None] Cons.prems show ?thesis by (simp add: text_read_def)
  qed
qed

lemma four_cases:
  assumes "length q = 4"
  obtains a b c d where "q = [a, b, c, d]"
  using assms by (auto simp: eval_nat_numeral length_Suc_conv)

lemma unat_octet [simp]: "v < 256 \<Longrightarrow> unat (of_nat v :: 8 word) = v"
  by (simp add: unsigned_of_nat take_bit_nat_eq_self)

lemma octet_less [simp]: "unat (w :: 8 word) < 256"
  using unsigned_less [of w] by simp

lemma inet_pton_ntop: "inet_pton (inet_ntop q) = Some q"
proof (cases q)
  case (fields a b c d)
  have "pton [] None (dotted [unat a, unat b, unat c, unat d]) = Some [unat a, unat b, unat c, unat d]"
    using pton_complete [of "[unat a, unat b, unat c, unat d]" "[]"] by simp
  then show ?thesis by (simp add: fields inet_ntop_def inet_pton_def)
qed

lemma inet_ntop_pton:
  assumes "inet_pton s = Some q"
  shows "inet_ntop q = s"
proof -
  from assms obtain vs where p: "pton [] None s = Some vs"
    by (auto simp: inet_pton_def split: option.splits)
  from pton_sound [OF this] have vs: "length vs = 4" "\<forall>v\<in>set vs. v < 256" "s = dotted vs"
    by (simp_all add: text_read_def)
  from vs(1) obtain a b c d where "vs = [a, b, c, d]" by (rule four_cases)
  with vs p assms show ?thesis by (auto simp: inet_pton_def inet_ntop_def)
qed

lemma inet_pton_iff: "inet_pton s = Some q \<longleftrightarrow> s = inet_ntop q"
  using inet_pton_ntop inet_ntop_pton by blast

lemma inet_ntop_inject [simp]: "inet_ntop p = inet_ntop q \<longleftrightarrow> p = q"
  by (metis inet_pton_ntop option.inject)


lemma dotted_length: "length (inet_ntop q) < 16"
proof -
  have "length (decimal v) \<le> 3" if "v < 256" for v
    using that by (simp add: decimal.simps [of v] decimal.simps [of "v div 10"]
        decimal.simps [of "v div 10 div 10"])
  then have d: "length (decimal (unat w)) \<le> 3" for w :: "8 word" by simp
  obtain a b c e where q: "q = (a, b, c, e)" by (cases q)
  show ?thesis using d [of a] d [of b] d [of c] d [of e] by (simp add: q inet_ntop_def)
qed

lemma getPort_new [simp]: "getPort (new_SocketAddr ip p) = p" "getPort (new_SocketAddr_port p) = p"
  by (simp_all add: getPort_def new_SocketAddr_def new_SocketAddr_port_def swap_bytes)

lemma getIP_new:
  "getIP (new_SocketAddr ip p) =
     (if inet_pton (c_text ip) = None then ''0.0.0.0'' else c_text ip)"
proof (cases "inet_pton (c_text ip)")
  case None
  have "inet_ntop (0, 0, 0, 0) = ''0.0.0.0''" by code_simp
  then show ?thesis using None by (simp add: getIP_def new_SocketAddr_def)
next
  case (Some q)
  then show ?thesis using inet_ntop_pton [OF Some] by (simp add: getIP_def new_SocketAddr_def)
qed

lemma host_service_num:
  "sin_family a = AF_INET \<Longrightarrow>
   getHostAndServiceNUM a = getIP a @ '':'' @ decimal (unat (getPort a))"
  by (simp add: getHostAndServiceNUM_def numeric_nameinfo_def host_service_def getIP_def getPort_def)

lemma colon_free: "CHR '':'' \<notin> set (inet_ntop q)"
proof -
  have "CHR '':'' \<notin> set (decimal n)" for n
  proof
    assume "CHR '':'' \<in> set (decimal n)"
    then obtain d :: nat where d: "d < 10" "CHR '':'' = char_of (48 + d)" using decimal_chars by blast
    have "is_digit (CHR '':'')" unfolding d(2) by (rule digit_char [OF d(1)])
    then show False by (simp add: is_digit_def)
  qed
  then show ?thesis by (cases q) (simp add: inet_ntop_def)
qed

lemma split_at_colon:
  "x @ CHR '':'' # u = y @ CHR '':'' # v \<Longrightarrow> CHR '':'' \<notin> set x \<Longrightarrow> CHR '':'' \<notin> set y \<Longrightarrow> x = y \<and> u = v"
  by (induction x arbitrary: y) (case_tac y; auto)+


section \<open>Sockets\<close>

datatype sock_option = SO_KEEPALIVE | SO_REUSEADDR | SO_REUSEPORT | TCP_NODELAY | SO_LINGER

datatype fcntl_command = F_GETFL | F_SETFL | F_GETFD | F_SETFD

datatype sys_call =
    SysSocket i32 i32 i32
  | SysClose int
  | SysSetsockopt int sock_option "int list"
  | SysSocketError int
  | SysFcntl int fcntl_command i32
  | SysConnect int sockaddr_in
  | SysBind int sockaddr_in
  | SysListen int int
  | SysAccept int
  | SysShutdownWrite int

text \<open>A result, an error with its \<^verbatim>\<open>errno\<close>, or a new connection with the address of its peer.\<close>

datatype sys_reply = SysResult int | SysFailed int | SysPeer int sockaddr_in

type_synonym sys_kernel = "sys_call list \<Rightarrow> sys_call \<Rightarrow> sys_reply"

definition sys_return :: "sys_reply \<Rightarrow> int" where
  "sys_return r = (case r of SysResult n \<Rightarrow> n | SysFailed _ \<Rightarrow> -1 | SysPeer fd _ \<Rightarrow> fd)"

definition sys_do :: "sys_kernel \<Rightarrow> sys_call \<Rightarrow> sys_call list \<Rightarrow> int \<times> sys_call list" where
  "sys_do sys c log = (sys_return (sys log c), log @ [c])"

definition PF_INET :: i32 where "PF_INET = 2"
definition SOCK_STREAM :: i32 where "SOCK_STREAM = 1"
definition SOCK_DGRAM :: i32 where "SOCK_DGRAM = 2"
definition SOCK_NONBLOCK :: i32 where "SOCK_NONBLOCK = 0x800"
definition SOCK_CLOEXEC :: i32 where "SOCK_CLOEXEC = 0x80000"
definition IPPROTO_TCP :: i32 where "IPPROTO_TCP = 6"
definition IPPROTO_UDP :: i32 where "IPPROTO_UDP = 17"
definition O_NONBLOCK :: i32 where "O_NONBLOCK = 0x800"
definition FD_CLOEXEC :: i32 where "FD_CLOEXEC = 1"
definition SOMAXCONN :: int where "SOMAXCONN = 4096"

definition createTCPSocket :: "sys_kernel \<Rightarrow> sys_call list \<Rightarrow> int \<times> sys_call list" where
  "createTCPSocket sys log = sys_do sys (SysSocket PF_INET SOCK_STREAM IPPROTO_TCP) log"

definition createUDPSocket :: "sys_kernel \<Rightarrow> sys_call list \<Rightarrow> int \<times> sys_call list" where
  "createUDPSocket sys log = sys_do sys (SysSocket PF_INET SOCK_DGRAM IPPROTO_UDP) log"

definition createNonblockingTCPSocket :: "sys_kernel \<Rightarrow> sys_call list \<Rightarrow> int \<times> sys_call list" where
  "createNonblockingTCPSocket sys log =
     sys_do sys (SysSocket PF_INET (SOCK_STREAM OR SOCK_NONBLOCK OR SOCK_CLOEXEC) IPPROTO_TCP) log"

definition createNonblockingUDPSocket :: "sys_kernel \<Rightarrow> sys_call list \<Rightarrow> int \<times> sys_call list" where
  "createNonblockingUDPSocket sys log =
     sys_do sys (SysSocket PF_INET (SOCK_DGRAM OR SOCK_NONBLOCK OR SOCK_CLOEXEC) IPPROTO_UDP) log"

text \<open>The flags are read and written as they come, an error (-1) as well.\<close>

definition setNonBlackAndCloseOnExec :: "sys_kernel \<Rightarrow> int \<Rightarrow> sys_call list \<Rightarrow> sys_call list" where
  "setNonBlackAndCloseOnExec sys fd log =
     (let (flags, log) = sys_do sys (SysFcntl fd F_GETFL 0) log;
          (_, log) = sys_do sys (SysFcntl fd F_SETFL (word_of_int flags OR O_NONBLOCK)) log;
          (flags, log) = sys_do sys (SysFcntl fd F_GETFD 0) log;
          (_, log) = sys_do sys (SysFcntl fd F_SETFD (word_of_int flags OR FD_CLOEXEC)) log
      in log)"

definition isNonBlocking :: "sys_kernel \<Rightarrow> int \<Rightarrow> sys_call list \<Rightarrow> bool \<times> sys_call list" where
  "isNonBlocking sys fd log =
     (let (flags, log) = sys_do sys (SysFcntl fd F_GETFL 0) log
      in ((word_of_int flags :: i32) AND O_NONBLOCK \<noteq> 0, log))"

text \<open>The member functions, on the descriptor of the object; results that the code ignores are
  dropped here too.\<close>

definition set_option :: "sys_kernel \<Rightarrow> int \<Rightarrow> sock_option \<Rightarrow> bool \<Rightarrow> sys_call list \<Rightarrow> sys_call list" where
  "set_option sys fd opt on log = snd (sys_do sys (SysSetsockopt fd opt [if on then 1 else 0]) log)"

definition setKeepAlive :: "sys_kernel \<Rightarrow> int \<Rightarrow> bool \<Rightarrow> sys_call list \<Rightarrow> sys_call list" where
  "setKeepAlive sys fd on log = set_option sys fd SO_KEEPALIVE on log"

definition setResueAddr :: "sys_kernel \<Rightarrow> int \<Rightarrow> bool \<Rightarrow> sys_call list \<Rightarrow> sys_call list" where
  "setResueAddr sys fd on log = set_option sys fd SO_REUSEADDR on log"

definition setReusePort :: "sys_kernel \<Rightarrow> int \<Rightarrow> bool \<Rightarrow> sys_call list \<Rightarrow> sys_call list" where
  "setReusePort sys fd on log = set_option sys fd SO_REUSEPORT on log"

definition setTcpNoDelay :: "sys_kernel \<Rightarrow> int \<Rightarrow> bool \<Rightarrow> sys_call list \<Rightarrow> sys_call list" where
  "setTcpNoDelay sys fd on log = set_option sys fd TCP_NODELAY on log"

definition setLinger :: "sys_kernel \<Rightarrow> int \<Rightarrow> int \<Rightarrow> int \<Rightarrow> sys_call list \<Rightarrow> sys_call list" where
  "setLinger sys fd on lingerTime log =
     snd (sys_do sys (SysSetsockopt fd SO_LINGER [on, lingerTime]) log)"

definition getSocketError :: "sys_kernel \<Rightarrow> int \<Rightarrow> sys_call list \<Rightarrow> int \<times> sys_call list" where
  "getSocketError sys fd log =
     ((case sys log (SysSocketError fd) of SysFailed err \<Rightarrow> err | r \<Rightarrow> sys_return r),
      log @ [SysSocketError fd])"

definition Socket_close :: "sys_kernel \<Rightarrow> int \<Rightarrow> sys_call list \<Rightarrow> sys_call list" where
  "Socket_close sys fd log = snd (sys_do sys (SysClose fd) log)"

text \<open>The destructor closes the descriptor whether \<^verbatim>\<open>close\<close> was called or not.\<close>

definition delete_Socket :: "sys_kernel \<Rightarrow> int \<Rightarrow> sys_call list \<Rightarrow> sys_call list" where
  "delete_Socket sys fd log = snd (sys_do sys (SysClose fd) log)"

definition new_TCPSocket :: "sys_kernel \<Rightarrow> int \<Rightarrow> bool \<Rightarrow> sys_call list \<Rightarrow> int \<times> sys_call list" where
  "new_TCPSocket sys fd nonBlocking log =
     (fd, if nonBlocking then setNonBlackAndCloseOnExec sys fd log else log)"

definition shutdownW :: "sys_kernel \<Rightarrow> int \<Rightarrow> sys_call list \<Rightarrow> sys_call list" where
  "shutdownW sys fd log = snd (sys_do sys (SysShutdownWrite fd) log)"

definition TCPSocket_connect :: "sys_kernel \<Rightarrow> int \<Rightarrow> sockaddr_in \<Rightarrow> sys_call list \<Rightarrow> int \<times> sys_call list" where
  "TCPSocket_connect sys fd a log = sys_do sys (SysConnect fd a) log"

definition TCPSocket_bind :: "sys_kernel \<Rightarrow> int \<Rightarrow> sockaddr_in \<Rightarrow> sys_call list \<Rightarrow> int \<times> sys_call list" where
  "TCPSocket_bind sys fd a log = sys_do sys (SysBind fd a) log"

definition TCPSocket_listen :: "sys_kernel \<Rightarrow> int \<Rightarrow> sys_call list \<Rightarrow> int \<times> sys_call list" where
  "TCPSocket_listen sys fd log = sys_do sys (SysListen fd SOMAXCONN) log"

text \<open>When \<^verbatim>\<open>::accept\<close> fails the address is what was on the stack, \<open>garbage\<close>.\<close>

definition TCPSocket_accept ::
  "sys_kernel \<Rightarrow> int \<Rightarrow> sockaddr_in \<Rightarrow> sys_call list \<Rightarrow> (int \<times> sockaddr_in) \<times> sys_call list"
where
  "TCPSocket_accept sys fd garbage log =
     ((case sys log (SysAccept fd) of SysPeer connfd a \<Rightarrow> (connfd, a) | r \<Rightarrow> (sys_return r, garbage)),
      log @ [SysAccept fd])"

section \<open>What the calls come to\<close>

lemma sys_do_simps [simp]: "sys_do sys c log = (sys_return (sys log c), log @ [c])"
  by (simp add: sys_do_def)

text \<open>The two flags of a descriptor as the calls so far have left them, and a kernel that hands
  them back (\<^verbatim>\<open>fcntl(2)\<close>, for flags that a socket can have).\<close>

fun file_flags :: "(int \<Rightarrow> i32) \<Rightarrow> fcntl_command \<Rightarrow> sys_call list \<Rightarrow> int \<Rightarrow> i32" where
  "file_flags initial set_cmd [] = initial"
| "file_flags initial set_cmd (c # cs) =
     file_flags (case c of SysFcntl fd cmd v \<Rightarrow> if cmd = set_cmd then initial(fd := v) else initial
                 | _ \<Rightarrow> initial) set_cmd cs"

definition keeps_flags :: "(int \<Rightarrow> i32) \<Rightarrow> sys_kernel \<Rightarrow> bool" where
  "keeps_flags initial sys =
     (\<forall>log fd v. sys log (SysFcntl fd F_GETFL v) = SysResult (sint (file_flags initial F_SETFL log fd)))"

lemma file_flags_append:
  "file_flags initial cmd (cs @ ds) = file_flags (file_flags initial cmd cs) cmd ds"
  by (induction cs arbitrary: initial) simp_all

lemma set_nonblocking_flags:
  assumes "keeps_flags initial sys"
  shows "file_flags initial F_SETFL (setNonBlackAndCloseOnExec sys fd log) fd =
    file_flags initial F_SETFL log fd OR O_NONBLOCK"
  using assms by (simp add: setNonBlackAndCloseOnExec_def Let_def file_flags_append keeps_flags_def sys_return_def)

lemma nonblocking_after_set:
  assumes "keeps_flags initial sys"
  shows "fst (isNonBlocking sys fd (setNonBlackAndCloseOnExec sys fd log))"
proof -
  have "(w OR O_NONBLOCK) AND O_NONBLOCK = O_NONBLOCK" for w :: i32
    by (simp add: bit_eq_iff bit_simps)
  moreover have "O_NONBLOCK \<noteq> 0" by (simp add: O_NONBLOCK_def)
  ultimately show ?thesis
    using assms set_nonblocking_flags [OF assms, of fd log]
    by (simp add: isNonBlocking_def keeps_flags_def sys_return_def)
qed

text \<open>A socket that is closed and destroyed closes its descriptor twice.\<close>

lemma closed_twice: "delete_Socket sys fd (Socket_close sys fd log) = log @ [SysClose fd, SysClose fd]"
  by (simp add: delete_Socket_def Socket_close_def)

section \<open>Properties\<close>

lemma ntop_no_nul [simp]: "c_text (inet_ntop q) = inet_ntop q"
proof -
  have "c \<noteq> CHR 0x00" if "c \<in> set (decimal n)" for c n
  proof -
    from decimal_chars [OF that] obtain d :: nat where d: "d < 10" "c = char_of (48 + d)" by blast
    have "is_digit c" unfolding d(2) by (rule digit_char [OF d(1)])
    then show ?thesis by (auto simp: is_digit_def)
  qed
  then show ?thesis unfolding c_text_def takeWhile_eq_all_conv
    by (cases q) (fastforce simp: inet_ntop_def)
qed

text \<open>
  C37. Addresses and their text. An address made from a text and a port has that port and, if the
  text is an address in its canonical form, prints as the same text, otherwise as 0.0.0.0, all
  interfaces; and every IPv4 address is the one made from the text and the port it prints.
\<close>

theorem address_round_trip:
  "getPort (new_SocketAddr ip port) = port \<and>
   getIP (new_SocketAddr ip port) = (if \<exists>q. c_text ip = inet_ntop q then c_text ip else ''0.0.0.0'') \<and>
   (sin_family a = AF_INET \<longrightarrow> new_SocketAddr (getIP a) (getPort a) = a)"
proof (intro conjI impI)
  show "getIP (new_SocketAddr ip port) = (if \<exists>q. c_text ip = inet_ntop q then c_text ip else ''0.0.0.0'')"
    by (auto simp: getIP_new inet_pton_iff [symmetric])
  assume "sin_family a = AF_INET"
  moreover have "htons (ntohs p) = p" for p
    using swap_bytes [of p] by (simp add: htons_def ntohs_def)
  ultimately show "new_SocketAddr (getIP a) (getPort a) = a"
    by (simp add: new_SocketAddr_def getIP_def getPort_def inet_pton_ntop)
qed simp

theorem address_round_trip_witness:
  "getPort (new_SocketAddr ''192.168.0.255'' 8080) = 8080 \<and> getIP (new_SocketAddr ''192.168.0.255'' 8080) = ''192.168.0.255'' \<and>
   getIP (new_SocketAddr ''192.168.00.1'' 8080) = ''0.0.0.0'' \<and>
   new_SocketAddr (getIP (new_SocketAddr ''10.0.0.7'' 1)) (getPort (new_SocketAddr ''10.0.0.7'' 1)) = new_SocketAddr ''10.0.0.7'' 1"
proof -
  have c: "c_text ''192.168.0.255'' = ''192.168.0.255''" "c_text ''192.168.00.1'' = ''192.168.00.1''"
    by (simp_all add: c_text_def)
  have "inet_pton ''192.168.0.255'' = Some (192, 168, 0, 255)" "inet_pton ''192.168.00.1'' = None"
    by code_simp+
  then have "\<exists>q. c_text ''192.168.0.255'' = inet_ntop q" "\<not> (\<exists>q. c_text ''192.168.00.1'' = inet_ntop q)"
    by (auto simp: c inet_pton_iff [symmetric])
  then show ?thesis
    using address_round_trip [of "''192.168.0.255''" 8080 "new_SocketAddr ''10.0.0.7'' 1"]
      address_round_trip [of "''192.168.00.1''" 8080 "new_SocketAddr ''10.0.0.7'' 1"]
    by (simp add: c new_SocketAddr_def [of "''10.0.0.7''"])
qed

end
