(* ===== verification/Acceptor.thy ===== *)
theory Acceptor
  imports Tcp_Server Sockets
begin

text \<open>
  \<^verbatim>\<open>Base/net/Acceptor.h\<close> (the part that is compiled) with the system calls of \<^verbatim>\<open>TcpConnection\<close> and
  \<^verbatim>\<open>TcpServer\<close>: how a server listens, and what becomes of each descriptor that \<^verbatim>\<open>accept\<close> returns. The
  decisions are those of \<^verbatim>\<open>Tcp_Server\<close>; here they are tied to the addresses and calls of \<^verbatim>\<open>Sockets\<close>.
\<close>

section \<open>The acceptor\<close>

text \<open>\<open>ac_mVisitors\<close> is the queue behind the weak pointer, if it is alive; the two flags tell
  whether the functions are set.\<close>

record acceptor =
  ac_mLocalAddr :: sockaddr_in
  ac_mListenSocket :: int
  ac_mListenHandler :: addr
  ac_mFilterFunc :: bool
  ac_mConnectionFunc :: bool
  ac_mVisitors :: "(int \<times> sockaddr_in) list option"

text \<open>The constructor, with the poller of its event loop: \<open>a\<close> is the address of the new handler,
  \<open>ctl_ok\<close> the success of \<^verbatim>\<open>epoll_ctl\<close>. The results of the socket calls are not looked at.\<close>

definition new_Acceptor ::
  "sys_kernel \<Rightarrow> sockaddr_in \<Rightarrow> addr \<Rightarrow> u32 \<Rightarrow> bool \<Rightarrow> 'a epoll_poller_scheme \<times> store \<Rightarrow> sys_call list \<Rightarrow>
   (acceptor \<times> ('a epoll_poller_scheme \<times> store) \<times> sys_call list) result"
where
  "new_Acceptor sys listenAddr a garbage ctl_ok ps log =
     (case ps of (p, hs) \<Rightarrow>
        let (fd, log) = createTCPSocket sys log;
            h = enableReading (setFunc ReadFunc (new_EventHandler fd garbage));
            hs = hs(a \<mapsto> h);
            p = registerEventHandler a h p
        in rbind (EpollPoller_update a ctl_ok p hs) (\<lambda>ps.
             let log = setResueAddr sys fd True log;
                 log = setReusePort sys fd True log;
                 (_, log) = TCPSocket_bind sys fd listenAddr log
             in Inr (\<lparr>ac_mLocalAddr = listenAddr, ac_mListenSocket = fd, ac_mListenHandler = a,
                      ac_mFilterFunc = False, ac_mConnectionFunc = False, ac_mVisitors = None\<rparr>, ps, log)))"

definition setVistorsDest :: "(int \<times> sockaddr_in) list option \<Rightarrow> acceptor \<Rightarrow> acceptor" where
  "setVistorsDest q ac = ac\<lparr>ac_mVisitors := q\<rparr>"

definition setFilterFunc :: "acceptor \<Rightarrow> acceptor" where
  "setFilterFunc ac = ac\<lparr>ac_mFilterFunc := True\<rparr>"

definition setConnectionFunc :: "acceptor \<Rightarrow> acceptor" where
  "setConnectionFunc ac = ac\<lparr>ac_mConnectionFunc := True\<rparr>"

definition Acceptor_listen :: "sys_kernel \<Rightarrow> acceptor \<Rightarrow> sys_call list \<Rightarrow> sys_call list" where
  "Acceptor_listen sys ac log = snd (TCPSocket_listen sys (ac_mListenSocket ac) log)"

section \<open>A new connection\<close>

text \<open>What \<^verbatim>\<open>Tcp_Server\<close> knows of a peer.\<close>

definition peer_of :: "sockaddr_in \<Rightarrow> socket_addr" where
  "peer_of addr = \<lparr>sa_ip = getIP addr, sa_hostService = getHostAndServiceNUM addr\<rparr>"

text \<open>The calls of the constructor of \<^verbatim>\<open>TcpConnection\<close>, and of its destructor.\<close>

definition connection_calls :: "sys_kernel \<Rightarrow> int \<Rightarrow> bool \<Rightarrow> sys_call list \<Rightarrow> sys_call list" where
  "connection_calls sys connfd noDelay log =
     (let (fd, log) = new_TCPSocket sys connfd True log;
          log = setKeepAlive sys fd True log
      in setTcpNoDelay sys fd noDelay log)"

definition delete_TcpConnection ::
  "sys_kernel \<Rightarrow> addr \<Rightarrow> bool \<Rightarrow> int \<Rightarrow> 'a epoll_poller_scheme \<times> store \<Rightarrow> sys_call list \<Rightarrow>
   (('a epoll_poller_scheme \<times> store) \<times> sys_call list) result"
where
  "delete_TcpConnection sys h ctl_ok fd ps log =
     (case ps of (p, hs) \<Rightarrow>
        rbind (EpollPoller_remove h ctl_ok p hs) (\<lambda>ps. Inr (ps, delete_Socket sys fd log)))"

text \<open>\<^verbatim>\<open>activeClose\<close> and \<^verbatim>\<open>closeFunc\<close> of a connection, as calls: with a close function set the
  descriptor is left to the destructor.\<close>

definition active_close_calls :: "sys_kernel \<Rightarrow> bool \<Rightarrow> int \<Rightarrow> tcp_connection \<Rightarrow> sys_call list \<Rightarrow> sys_call list" where
  "active_close_calls sys force fd c log =
     (let log = if force then setLinger sys fd 1 0 log else log
      in if activeClose force c = CloseSocket then Socket_close sys fd log else log)"

text \<open>\<^verbatim>\<open>TcpServer::newConnectionFunc\<close> with its calls. Without a running event loop the function
  returns and nobody owns the descriptor.\<close>

definition accept_connection ::
  "sys_kernel \<Rightarrow> bool \<Rightarrow> (string \<Rightarrow> 't tcp_server \<Rightarrow> 't tcp_server) \<Rightarrow> int \<Rightarrow> sockaddr_in \<Rightarrow> addr \<Rightarrow> u32 \<Rightarrow>
   't tcp_server \<Rightarrow> sys_call list \<Rightarrow> ('t tcp_server \<times> sys_call list) result"
where
  "accept_connection sys noDelay connNameFunc connfd peerAddr a garbage s log =
     rbind (newConnection_begin connfd (peer_of peerAddr) a garbage s) (\<lambda>(name, s).
       case name of
         None \<Rightarrow> Inr (s, log)
       | Some connName \<Rightarrow>
           rbind (newConnection_end a (connNameFunc connName s)) (\<lambda>s.
             Inr (s, connection_calls sys connfd noDelay log)))"

text \<open>\<^verbatim>\<open>connFunc\<close>, the read callback of the listening socket. \<open>stack\<close> is what the automatic
  \<^verbatim>\<open>sockaddr_in\<close> holds before.\<close>

definition Acceptor_connFunc ::
  "sys_kernel \<Rightarrow> bool \<Rightarrow> (string \<Rightarrow> 't tcp_server \<Rightarrow> 't tcp_server) \<Rightarrow> sockaddr_in \<Rightarrow> addr \<Rightarrow> u32 \<Rightarrow>
   acceptor \<times> 't tcp_server \<times> sys_call list \<Rightarrow>
   (admission \<times> acceptor \<times> 't tcp_server \<times> sys_call list) result"
where
  "Acceptor_connFunc sys noDelay connNameFunc stack a garbage st =
     (case st of (ac, s, log) \<Rightarrow>
        let ((connfd, clisa), log) = TCPSocket_accept sys (ac_mListenSocket ac) stack log in
        if connfd > 0 then
          (let ac = (case ac_mVisitors ac of None \<Rightarrow> ac | Some q \<Rightarrow> ac\<lparr>ac_mVisitors := Some (q @ [(connfd, clisa)])\<rparr>) in
           if ac_mConnectionFunc ac then
             (if ac_mFilterFunc ac \<and> \<not> connFilterFunc (peer_of clisa) s
              then Inr (Refused, ac, s, snd (sys_do sys (SysClose connfd) log))
              else rbind (accept_connection sys noDelay connNameFunc connfd clisa a garbage s log)
                     (\<lambda>(s, log). Inr (Admitted, ac, s, log)))
           else Inr (NoConnection, ac, s, log))
        else Inr (NoConnection, ac, s, log))"

text \<open>\<^verbatim>\<open>TcpServer::start\<close> up to the loop.\<close>

definition TcpServer_listen :: "sys_kernel \<Rightarrow> acceptor \<Rightarrow> sys_call list \<Rightarrow> sys_call list" where
  "TcpServer_listen sys ac log = Acceptor_listen sys ac log"

section \<open>Listening\<close>

lemma read_interest: "mEvents (enableReading (setFunc ReadFunc (new_EventHandler fd g))) = READ_EVENT"
  by (simp add: enableReading_def setFunc_def new_EventHandler_def event_masks)

text \<open>Whatever the kernel answers, the same calls are made: a failed \<^verbatim>\<open>bind\<close> is not noticed, and
  \<^verbatim>\<open>listen\<close> on a socket without an address picks a free port.\<close>

lemma listening_calls:
  assumes "new_Acceptor sys listenAddr a garbage True (p, hs) log = Inr (ac, (p', hs'), log')"
    and "fd = sys_return (sys log (SysSocket PF_INET SOCK_STREAM IPPROTO_TCP))"
    and "mEventHandlerHash p fd = None"
  shows "TcpServer_listen sys ac log' = log @
      [SysSocket PF_INET SOCK_STREAM IPPROTO_TCP, SysSetsockopt fd SO_REUSEADDR [1],
       SysSetsockopt fd SO_REUSEPORT [1], SysBind fd listenAddr, SysListen fd SOMAXCONN] \<and>
    kernel p' = (kernel p)(fd \<mapsto> READ_EVENT) \<and> mEventHandlerHash p' fd = Some a"
  using assms
  by (auto simp: new_Acceptor_def Let_def createTCPSocket_def EpollPoller_update_def handler_def
      registerEventHandler_def TcpServer_listen_def Acceptor_listen_def TCPSocket_listen_def TCPSocket_bind_def
      setResueAddr_def setReusePort_def set_option_def read_interest
      enableReading_def setFunc_def new_EventHandler_def NONE_EVENT_def)

section \<open>Names\<close>

lemma ntohs_inject [simp]: "ntohs p = ntohs q \<longleftrightarrow> p = q"
  using htons_inject [of p q] by (simp add: htons_def ntohs_def)

lemma numeric_name_inject:
  assumes "sin_family p = AF_INET" and "sin_family q = AF_INET"
  shows "getHostAndServiceNUM p = getHostAndServiceNUM q \<longleftrightarrow> p = q"
proof
  assume "getHostAndServiceNUM p = getHostAndServiceNUM q"
  then have "getIP p @ CHR '':'' # decimal (unat (getPort p)) = getIP q @ CHR '':'' # decimal (unat (getPort q))"
    using assms by (simp add: host_service_num)
  then have "getIP p = getIP q \<and> decimal (unat (getPort p)) = decimal (unat (getPort q))"
    by (rule split_at_colon) (simp_all add: getIP_def colon_free)
  then have "getIP p = getIP q" "getPort p = getPort q" by (auto intro: unsigned_word_eqI)
  then have "sin_addr p = sin_addr q" "sin_port p = sin_port q"
    by (simp_all add: getIP_def getPort_def)
  then show "p = q" using assms by simp
qed simp

lemma connection_names:
  assumes "sin_family p = AF_INET" and "sin_family q = AF_INET"
  shows "generateConnID fd1 (peer_of p) s = generateConnID fd2 (peer_of q) s \<longleftrightarrow> fd1 = fd2 \<and> p = q"
  using connection_name_unique [of fd1 "peer_of p" s fd2 "peer_of q"] numeric_name_inject [OF assms]
  by (simp add: peer_of_def)

section \<open>Every accepted descriptor has an owner\<close>

lemma accept_connection_made:
  assumes "server_inv s" and "ts_conns s a = None"
    and "getDesiredIndex ROUND_ROBIN (ts_mEventLoopThreadpool s) = Inr (index, pool)"
    and "getEventLoop index pool = Inr (Some th)"
    and "\<And>n. touches_only_tasks (connNameFunc n)"
    and nm: "nm = generateConnID connfd (peer_of addr) s"
  shows "\<exists>s'. accept_connection sys noDelay connNameFunc connfd addr a garbage s log =
      Inr (s', connection_calls sys connfd noDelay log) \<and> server_inv s' \<and>
    hashmap_abs (ts_mTcpConnections s') = ref_op (Insert nm a) (hashmap_abs (ts_mTcpConnections s)) \<and>
    ts_conns s' = (ts_conns s)(a \<mapsto> (new_TcpConnection connfd (getIP addr) (getHostAndServiceNUM addr) nm garbage)
      \<lparr>mMessageFunc := True, mCloseFunc := True\<rparr>)"
proof -
  obtain s' where s': "newConnectionFunc connNameFunc connfd (peer_of addr) a garbage s = Inr s'" "server_inv s'"
    "hashmap_abs (ts_mTcpConnections s') = ref_op (Insert nm a) (hashmap_abs (ts_mTcpConnections s))"
    "ts_conns s' = (ts_conns s)(a \<mapsto> (new_TcpConnection connfd (getIP addr) (getHostAndServiceNUM addr) nm garbage)
      \<lparr>mMessageFunc := True, mCloseFunc := True\<rparr>)"
    using connection_made [where connNameFunc = connNameFunc and garbage = garbage, OF assms(1-5) nm]
    by (auto simp: peer_of_def)
  obtain s1 where "newConnection_begin connfd (peer_of addr) a garbage s = Inr (Some nm, s1)"
    using connection_begun [OF assms(1,3,4) nm, of a garbage] by blast
  moreover from this have "newConnection_end a (connNameFunc nm s1) = Inr s'"
    using s'(1) by (simp add: newConnectionFunc_def)
  ultimately have "accept_connection sys noDelay connNameFunc connfd addr a garbage s log =
      Inr (s', connection_calls sys connfd noDelay log)"
    by (simp add: accept_connection_def)
  with s'(2-4) show ?thesis by blast
qed

lemma connection_calls_log:
  "\<exists>flags fdflags. connection_calls sys connfd noDelay log = log @
     [SysFcntl connfd F_GETFL 0, SysFcntl connfd F_SETFL (flags OR O_NONBLOCK),
      SysFcntl connfd F_GETFD 0, SysFcntl connfd F_SETFD (fdflags OR FD_CLOEXEC),
      SysSetsockopt connfd SO_KEEPALIVE [1], SysSetsockopt connfd TCP_NODELAY [if noDelay then 1 else 0]]"
  by (auto simp: connection_calls_def new_TCPSocket_def setNonBlackAndCloseOnExec_def Let_def
      setKeepAlive_def setTcpNoDelay_def set_option_def)

text \<open>An accepted descriptor, with both functions set.\<close>

lemma accepted_outcome:
  assumes "sys log (SysAccept (ac_mListenSocket ac)) = SysPeer connfd addr" and "0 < connfd"
    and "ac_mFilterFunc ac" and "ac_mConnectionFunc ac" and "called = log @ [SysAccept (ac_mListenSocket ac)]"
    and "accept_connection sys noDelay connNameFunc connfd addr a garbage s called = Inr (s', log')"
  shows "\<exists>ac'. Acceptor_connFunc sys noDelay connNameFunc stack a garbage (ac, s, log) =
    (if getIP addr \<in> ts_mConnBlacklist s then Inr (Refused, ac', s, called @ [SysClose connfd])
     else Inr (Admitted, ac', s', log'))"
  using assms
  by (cases "ac_mVisitors ac")
    (simp_all add: Acceptor_connFunc_def TCPSocket_accept_def Let_def connFilterFunc_def isInBlacklist_def peer_of_def)

text \<open>
  C20. A client is accepted. The kernel hands the acceptor a descriptor with the address of its
  peer. If the text of the peer's address is on the blacklist, the descriptor is closed and
  nothing else changes. Otherwise, as long as an event loop runs and no open connection has the
  same descriptor and peer, a connection object owns the descriptor: it is found under its name,
  has the peer's address as text, calls the server's functions, and no other connection or name
  is touched; its descriptor is made non-blocking and is not closed.
\<close>

theorem accepted_descriptor_owned:
  assumes "server_inv s" and "ts_conns s a = None"
    and "getDesiredIndex ROUND_ROBIN (ts_mEventLoopThreadpool s) = Inr (index, pool)"
    and "getEventLoop index pool = Inr (Some th)"
    and "\<And>n. touches_only_tasks (connNameFunc n)"
    and "sys log (SysAccept (ac_mListenSocket ac)) = SysPeer connfd addr" and "0 < connfd"
    and "sin_family addr = AF_INET" and "ac_mFilterFunc ac" and "ac_mConnectionFunc ac"
    and "\<forall>n b. hashmap_abs (ts_mTcpConnections s) n = Some b \<longrightarrow>
      (\<exists>fd' addr'. n = generateConnID fd' (peer_of addr') s \<and> sin_family addr' = AF_INET \<and> (fd', addr') \<noteq> (connfd, addr))"
  shows "\<exists>ac'. if getIP addr \<in> ts_mConnBlacklist s
    then Acceptor_connFunc sys noDelay connNameFunc stack a garbage (ac, s, log) =
      Inr (Refused, ac', s, log @ [SysAccept (ac_mListenSocket ac), SysClose connfd])
    else \<exists>s' c flags fdflags.
      Acceptor_connFunc sys noDelay connNameFunc stack a garbage (ac, s, log) = Inr (Admitted, ac', s',
        log @ [SysAccept (ac_mListenSocket ac),
          SysFcntl connfd F_GETFL 0, SysFcntl connfd F_SETFL (flags OR O_NONBLOCK),
          SysFcntl connfd F_GETFD 0, SysFcntl connfd F_SETFD (fdflags OR FD_CLOEXEC),
          SysSetsockopt connfd SO_KEEPALIVE [1], SysSetsockopt connfd TCP_NODELAY [if noDelay then 1 else 0]]) \<and>
      server_inv s' \<and> ts_conns s' = (ts_conns s)(a \<mapsto> c) \<and>
      hashmap_abs (ts_mTcpConnections s') =
        (hashmap_abs (ts_mTcpConnections s))(generateConnID connfd (peer_of addr) s \<mapsto> a) \<and>
      mName c = generateConnID connfd (peer_of addr) s \<and> mPeerIP c = getIP addr \<and>
      mPeerIPPort c = getIP addr @ '':'' @ decimal (unat (getPort addr)) \<and> mMessageFunc c \<and> mCloseFunc c"
proof -
  let ?n = "generateConnID connfd (peer_of addr) s"
  let ?log = "log @ [SysAccept (ac_mListenSocket ac)]"
  let ?c = "(new_TcpConnection connfd (getIP addr) (getHostAndServiceNUM addr) ?n garbage)\<lparr>mMessageFunc := True, mCloseFunc := True\<rparr>"
  have "hashmap_abs (ts_mTcpConnections s) ?n \<noteq> Some b" for b
    using assms(11) connection_names [OF assms(8)] by metis
  then have fresh: "hashmap_abs (ts_mTcpConnections s) ?n = None" by (metis option.exhaust)
  obtain s' where s': "accept_connection sys noDelay connNameFunc connfd addr a garbage s ?log =
      Inr (s', connection_calls sys connfd noDelay ?log)" "server_inv s'"
    "hashmap_abs (ts_mTcpConnections s') = (hashmap_abs (ts_mTcpConnections s))(?n \<mapsto> a)"
    "ts_conns s' = (ts_conns s)(a \<mapsto> ?c)"
    using accept_connection_made [OF assms(1-5) refl] fresh by fastforce
  obtain ac' where run: "Acceptor_connFunc sys noDelay connNameFunc stack a garbage (ac, s, log) =
    (if getIP addr \<in> ts_mConnBlacklist s then Inr (Refused, ac', s, ?log @ [SysClose connfd])
     else Inr (Admitted, ac', s', connection_calls sys connfd noDelay ?log))"
    using accepted_outcome [OF assms(6,7,9,10) refl s'(1)] by blast
  have c: "mName ?c = ?n" "mPeerIP ?c = getIP addr" "mPeerIPPort ?c = getIP addr @ '':'' @ decimal (unat (getPort addr))"
    "mMessageFunc ?c" "mCloseFunc ?c"
    by (simp_all add: new_TcpConnection_def Let_def loop_update_def host_service_num [OF assms(8)])
  obtain flags fdflags where calls: "connection_calls sys connfd noDelay ?log = ?log @
     [SysFcntl connfd F_GETFL 0, SysFcntl connfd F_SETFL (flags OR O_NONBLOCK),
      SysFcntl connfd F_GETFD 0, SysFcntl connfd F_SETFD (fdflags OR FD_CLOEXEC),
      SysSetsockopt connfd SO_KEEPALIVE [1], SysSetsockopt connfd TCP_NODELAY [if noDelay then 1 else 0]]"
    using connection_calls_log by blast
  show ?thesis unfolding run calls using s'(2-4) c
    by (cases "getIP addr \<in> ts_mConnBlacklist s")
      (simp_all only: if_True if_False,
       (intro exI [of _ ac'], simp),
       (intro exI [of _ ac'] exI [of _ s'] exI [of _ ?c] exI [of _ flags] exI [of _ fdflags], simp))
qed

text \<open>A client from 10.0.0.7 comes to a server without connections, and to one that blocks it.\<close>

definition demo_addr :: sockaddr_in where
  "demo_addr = new_SocketAddr ''10.0.0.7'' 4000"

definition demo_accepts :: sys_kernel where
  "demo_accepts log c = (case c of SysAccept fd \<Rightarrow> SysPeer 5 demo_addr | _ \<Rightarrow> SysResult 0)"

definition demo_acceptor :: acceptor where
  "demo_acceptor = \<lparr>ac_mLocalAddr = new_SocketAddr_port 9000, ac_mListenSocket = 3, ac_mListenHandler = 7,
     ac_mFilterFunc = True, ac_mConnectionFunc = True, ac_mVisitors = None\<rparr>"

definition demo_nameFunc :: "string \<Rightarrow> string tcp_server \<Rightarrow> string tcp_server" where
  "demo_nameFunc n s = snd (registerTimerTask 0 0 3600 (-1) n n s)"

lemma demo_peer_address:
  "getIP demo_addr = ''10.0.0.7''" "sin_family demo_addr = AF_INET" "getPort demo_addr = 4000"
proof -
  have "inet_pton (c_text ''10.0.0.7'') = Some (10, 0, 0, 7)" by code_simp
  then show "getIP demo_addr = ''10.0.0.7''" by (simp add: demo_addr_def getIP_new c_text_def)
  show "getPort demo_addr = 4000" by (simp add: demo_addr_def)
qed (simp add: demo_addr_def new_SocketAddr_def)

lemma demo_nameFunc_frame: "touches_only_tasks (demo_nameFunc n)"
  by (auto simp: touches_only_tasks_def demo_nameFunc_def registerTimerTask_def split: option.splits)

theorem accepted_descriptor_owned_witness:
  "(\<exists>ac' s' c log'. Acceptor_connFunc demo_accepts False demo_nameFunc demo_addr 100 0 (demo_acceptor, demo_server, []) =
      Inr (Admitted, ac', s', log') \<and> ts_conns s' = [100 \<mapsto> c] \<and> mPeerIPPort c = ''10.0.0.7:4000'') \<and>
   (\<exists>ac'. Acceptor_connFunc demo_accepts False demo_nameFunc demo_addr 100 0
      (demo_acceptor, addToBlacklist [''10.0.0.7''] demo_server, []) =
      Inr (Refused, ac', addToBlacklist [''10.0.0.7''] demo_server, [SysAccept 3, SysClose 5]))"
proof -
  have port: "decimal 4000 = ''4000''" by code_simp
  have ok: "ts_conns demo_server = Map.empty" "hashmap_abs (ts_mTcpConnections demo_server) = Map.empty"
    "ts_mConnBlacklist demo_server = {}"
    by (simp_all add: demo_server_def new_TcpServer_def new_SafeHashmap_ok)
  have blocked: "server_inv (addToBlacklist [''10.0.0.7''] demo_server)"
    using server_inv_cong [of "addToBlacklist [''10.0.0.7''] demo_server" demo_server] demo_server_inv
    by (simp add: addToBlacklist_def)
  have acc: "demo_accepts [] (SysAccept (ac_mListenSocket demo_acceptor)) = SysPeer 5 demo_addr"
    "ac_mFilterFunc demo_acceptor" "ac_mConnectionFunc demo_acceptor" "ac_mListenSocket demo_acceptor = 3"
    by (simp_all add: demo_accepts_def demo_acceptor_def)
  note use = accepted_descriptor_owned [where connNameFunc = demo_nameFunc and a = 100 and garbage = 0 and stack = demo_addr
      and sys = demo_accepts and log = "[]" and ac = demo_acceptor and connfd = 5 and addr = demo_addr and noDelay = False,
      OF _ _ _ _ demo_nameFunc_frame acc(1) _ demo_peer_address(2) acc(2,3)]
  have "\<exists>ac'. \<exists>s' c log'. Acceptor_connFunc demo_accepts False demo_nameFunc demo_addr 100 0 (demo_acceptor, demo_server, []) =
      Inr (Admitted, ac', s', log') \<and> ts_conns s' = [100 \<mapsto> c] \<and> mPeerIPPort c = ''10.0.0.7:4000''"
    using use [OF demo_server_inv _ demo_loop] ok by (auto simp: demo_peer_address port)
  moreover have "\<exists>ac'. Acceptor_connFunc demo_accepts False demo_nameFunc demo_addr 100 0
      (demo_acceptor, addToBlacklist [''10.0.0.7''] demo_server, []) =
      Inr (Refused, ac', addToBlacklist [''10.0.0.7''] demo_server, [SysAccept 3, SysClose 5])"
    using use [of "addToBlacklist [''10.0.0.7''] demo_server"] blocked demo_loop ok
    by (auto simp: demo_peer_address addToBlacklist_def acc(4))
  ultimately show ?thesis by blast
qed

end
