(* ===== verification/Loop_Poller.thy ===== *)
theory Loop_Poller
  imports Event_Loop Sockets
begin

unbundle bit_operations_syntax

text \<open>
  \<^verbatim>\<open>EventLoop\<close> with its poller: the constructors and destructors of \<^verbatim>\<open>EventLoop.h\<close>,
  \<^verbatim>\<open>EventLoopThread.h\<close> and the two pollers, and the operations that an event loop hands on to the
  poller it has. \<^verbatim>\<open>mPoller\<close> points to one of two classes, so it is a sum and a virtual call a case
  distinction. What is shown is that \<^verbatim>\<open>wakeup\<close> is seen: the eventfd stays registered whatever happens
  to the other descriptors, so that the condition \<open>poll_ok\<close> of \<open>Event_Loop\<close> holds of the poller the
  servers use.
\<close>

section \<open>Pollers as objects\<close>

datatype poller_type = POLL_POLLER | EPOLL_POLLER

datatype poller_object = PollObject poll_poller | EpollObject epoll_poller

definition new_PollPoller :: poll_poller where
  "new_PollPoller = \<lparr>mSettlement = 1000, mAccumulatedMillisec = 0, mTouchedEventNum = 0, mRate = None,
     mDetectionIntervalInMilliseconds = 30 * 1000, mTimeoutInMilliseconds = 300 * 1000,
     mRestThresholdInseconds = 3600, mEventHandlerHash = Map.empty, mPollfds = []\<rparr>"

text \<open>A failed \<^verbatim>\<open>epoll_create1\<close> is only printed.\<close>

definition new_EpollPoller :: epoll_poller where
  "new_EpollPoller = \<lparr>mSettlement = 1000, mAccumulatedMillisec = 0, mTouchedEventNum = 0, mRate = None,
     mDetectionIntervalInMilliseconds = 30 * 1000, mTimeoutInMilliseconds = 300 * 1000,
     mRestThresholdInseconds = 3600, mEventHandlerHash = Map.empty, mEpollEvents_size = 16, kernel = Map.empty\<rparr>"

fun object_register :: "addr \<Rightarrow> event_handler \<Rightarrow> poller_object \<Rightarrow> poller_object" where
  "object_register a h (PollObject p) = PollObject (registerEventHandler a h p)"
| "object_register a h (EpollObject p) = EpollObject (registerEventHandler a h p)"

fun object_update :: "addr \<Rightarrow> bool \<Rightarrow> poller_object \<Rightarrow> store \<Rightarrow> (poller_object \<times> store) result" where
  "object_update a ctl_ok (PollObject p) hs = rbind (PollPoller_update a p hs) (\<lambda>(p, hs). Inr (PollObject p, hs))"
| "object_update a ctl_ok (EpollObject p) hs =
     rbind (EpollPoller_update a ctl_ok p hs) (\<lambda>(p, hs). Inr (EpollObject p, hs))"

fun object_remove :: "addr \<Rightarrow> bool \<Rightarrow> poller_object \<Rightarrow> store \<Rightarrow> (poller_object \<times> store) result" where
  "object_remove a ctl_ok (PollObject p) hs = rbind (PollPoller_remove a p hs) (\<lambda>(p, hs). Inr (PollObject p, hs))"
| "object_remove a ctl_ok (EpollObject p) hs =
     rbind (EpollPoller_remove a ctl_ok p hs) (\<lambda>(p, hs). Inr (EpollObject p, hs))"

text \<open>\<open>ready\<close> is what the kernel reports, \<open>None\<close> an error; \<^verbatim>\<open>poll\<close> writes it into the array.\<close>

definition set_revents :: "(int \<times> u32) list \<Rightarrow> pollfd \<Rightarrow> pollfd" where
  "set_revents ready pfd =
     pfd\<lparr>pf_revents := (case map_of ready (pf_fd pfd) of None \<Rightarrow> 0 | Some e \<Rightarrow> ucast e)\<rparr>"

fun object_poll ::
  "(int \<times> u32) list option \<Rightarrow> nat \<Rightarrow> poller_object \<Rightarrow> store \<Rightarrow> addr list \<times> store \<times> poller_object"
where
  "object_poll ready dur (PollObject p) hs =
     (case (case ready of
              None \<Rightarrow> PollPoller_poll (-1) (mPollfds p) dur p hs
            | Some evs \<Rightarrow> PollPoller_poll (int (length evs)) (map (set_revents evs) (mPollfds p)) dur p hs) of
        (as, hs, p) \<Rightarrow> (as, hs, PollObject p))"
| "object_poll ready dur (EpollObject p) hs =
     (case EpollPoller_poll ready dur p hs of (as, hs, p) \<Rightarrow> (as, hs, EpollObject p))"

fun object_size :: "poller_object \<Rightarrow> nat" where
  "object_size (PollObject p) = eventSize p"
| "object_size (EpollObject p) = eventSize p"

fun object_setTimeoutParam :: "int \<Rightarrow> int \<Rightarrow> int \<Rightarrow> poller_object \<Rightarrow> poller_object" where
  "object_setTimeoutParam i t r (PollObject p) = PollObject (setTimeoutParam i t r p)"
| "object_setTimeoutParam i t r (EpollObject p) = EpollObject (setTimeoutParam i t r p)"

section \<open>EventLoop\<close>

text \<open>\<open>lo_loop\<close> is what the loop thread and \<^verbatim>\<open>quit\<close> work on.\<close>

record loop_object =
  lo_mWakeupFD :: int
  lo_mPoller :: poller_object
  lo_loop :: event_loop

text \<open>The constructor: \<open>fd\<close> is what \<^verbatim>\<open>eventfd\<close> returned, \<open>a\<close> the address of the new handler.\<close>

definition construct_EventLoop ::
  "poller_type \<Rightarrow> int \<Rightarrow> addr \<Rightarrow> u32 \<Rightarrow> bool \<Rightarrow> store \<Rightarrow> (loop_object \<times> store) result"
where
  "construct_EventLoop which fd a garbage ctl_ok hs =
     (let p = (if which = POLL_POLLER then PollObject new_PollPoller else EpollObject new_EpollPoller);
          h = enableReading (setFunc ReadFunc (new_EventHandler fd garbage));
          p = object_register a h p
      in rbind (object_update a ctl_ok p (hs(a \<mapsto> h))) (\<lambda>(p, hs).
           Inr (\<lparr>lo_mWakeupFD = fd, lo_mPoller = p, lo_loop = new_EventLoop a\<rparr>, hs)))"

text \<open>The destructor; the result ends with the descriptor that is closed.\<close>

definition delete_EventLoop :: "bool \<Rightarrow> loop_object \<Rightarrow> store \<Rightarrow> (poller_object \<times> store \<times> int) result" where
  "delete_EventLoop ctl_ok lo hs =
     (let a = mWakeupHandler (lo_loop lo) in
      rbind (handler a hs) (\<lambda>h.
      rbind (object_remove a ctl_ok (lo_mPoller lo) (hs(a \<mapsto> disableAll h))) (\<lambda>(p, hs).
        Inr (p, hs, lo_mWakeupFD lo))))"

definition loop_registerEventHandler :: "addr \<Rightarrow> loop_object \<times> store \<Rightarrow> (loop_object \<times> store) result" where
  "loop_registerEventHandler b s =
     (case s of (lo, hs) \<Rightarrow>
        rbind (handler b hs) (\<lambda>h. Inr (lo\<lparr>lo_mPoller := object_register b h (lo_mPoller lo)\<rparr>, hs)))"

definition loop_updateHandler :: "addr \<Rightarrow> bool \<Rightarrow> loop_object \<times> store \<Rightarrow> (loop_object \<times> store) result" where
  "loop_updateHandler b ctl_ok s =
     (case s of (lo, hs) \<Rightarrow>
        rbind (object_update b ctl_ok (lo_mPoller lo) hs) (\<lambda>(p, hs). Inr (lo\<lparr>lo_mPoller := p\<rparr>, hs)))"

definition loop_removeHandler :: "addr \<Rightarrow> bool \<Rightarrow> loop_object \<times> store \<Rightarrow> (loop_object \<times> store) result" where
  "loop_removeHandler b ctl_ok s =
     (case s of (lo, hs) \<Rightarrow>
        rbind (object_remove b ctl_ok (lo_mPoller lo) hs) (\<lambda>(p, hs). Inr (lo\<lparr>lo_mPoller := p\<rparr>, hs)))"

definition loop_getEventSize :: "loop_object \<Rightarrow> nat" where
  "loop_getEventSize lo = object_size (lo_mPoller lo)"

definition loop_setTimeoutParam :: "int \<Rightarrow> int \<Rightarrow> int \<Rightarrow> loop_object \<Rightarrow> loop_object" where
  "loop_setTimeoutParam i t r lo = lo\<lparr>lo_mPoller := object_setTimeoutParam i t r (lo_mPoller lo)\<rparr>"

text \<open>\<^verbatim>\<open>addEvent\<close> and \<^verbatim>\<open>removeEvent\<close> of the thread of a loop.\<close>

definition wakeup_loop :: "loop_object \<times> store \<Rightarrow> loop_object \<times> store" where
  "wakeup_loop s = (case s of (lo, hs) \<Rightarrow> (lo\<lparr>lo_loop := wakeup (lo_loop lo)\<rparr>, hs))"

definition thread_addEvent :: "addr \<Rightarrow> bool \<Rightarrow> loop_object \<times> store \<Rightarrow> (loop_object \<times> store) result" where
  "thread_addEvent b ctl_ok s =
     rbind (loop_registerEventHandler b s) (\<lambda>s.
     rbind (loop_updateHandler b ctl_ok s) (\<lambda>s. Inr (wakeup_loop s)))"

definition thread_removeEvent :: "addr \<Rightarrow> bool \<Rightarrow> loop_object \<times> store \<Rightarrow> (loop_object \<times> store) result" where
  "thread_removeEvent b ctl_ok s = rbind (loop_removeHandler b ctl_ok s) (\<lambda>s. Inr (wakeup_loop s))"

text \<open>The statement of \<^verbatim>\<open>loop\<close> that polls, and any other.\<close>

definition loop_turn :: "(int \<times> u32) list option \<Rightarrow> nat \<Rightarrow> loop_object \<times> store \<Rightarrow> loop_object \<times> store" where
  "loop_turn ready dur s =
     (case s of (lo, hs) \<Rightarrow>
        if el_pc (lo_loop lo) = InPoll then
          (case object_poll ready dur (lo_mPoller lo) hs of
             (as, hs, p) \<Rightarrow> (lo\<lparr>lo_mPoller := p, lo_loop := loop_step as (lo_loop lo)\<rparr>, hs))
        else (lo\<lparr>lo_loop := loop_step [] (lo_loop lo)\<rparr>, hs))"

section \<open>A wakeup is seen\<close>

text \<open>What others do to a loop.\<close>

datatype loop_use =
    UseRegister addr
  | UseUpdate addr bool
  | UseRemove addr bool
  | UseAdd addr bool
  | UseRemoveEvent addr bool
  | UseEnable addr "callback set" u32
  | UseTurn "(int \<times> u32) list option" nat
  | UseQuit
  | UseWakeup
  | UseTimeoutParam int int int

text \<open>\<open>UseEnable\<close>: the owner of a handler changes its callbacks and the events it wants.\<close>

fun use_loop :: "loop_use \<Rightarrow> loop_object \<times> store \<Rightarrow> (loop_object \<times> store) result" where
  "use_loop (UseRegister b) s = loop_registerEventHandler b s"
| "use_loop (UseUpdate b ok) s = loop_updateHandler b ok s"
| "use_loop (UseRemove b ok) s = loop_removeHandler b ok s"
| "use_loop (UseAdd b ok) s = thread_addEvent b ok s"
| "use_loop (UseRemoveEvent b ok) s = thread_removeEvent b ok s"
| "use_loop (UseEnable b fs ev) s =
     (case s of (lo, hs) \<Rightarrow> rbind (handler b hs) (\<lambda>h. Inr (lo, hs(b \<mapsto> h\<lparr>mFuncs := fs, mEvents := ev\<rparr>))))"
| "use_loop (UseTurn ready dur) s = Inr (loop_turn ready dur s)"
| "use_loop UseQuit s = (case s of (lo, hs) \<Rightarrow> Inr (lo\<lparr>lo_loop := quit (lo_loop lo)\<rparr>, hs))"
| "use_loop UseWakeup s = Inr (wakeup_loop s)"
| "use_loop (UseTimeoutParam i t r) s = (case s of (lo, hs) \<Rightarrow> Inr (loop_setTimeoutParam i t r lo, hs))"

fun use_addr :: "loop_use \<Rightarrow> addr option" where
  "use_addr (UseRegister b) = Some b"
| "use_addr (UseUpdate b ok) = Some b"
| "use_addr (UseRemove b ok) = Some b"
| "use_addr (UseAdd b ok) = Some b"
| "use_addr (UseRemoveEvent b ok) = Some b"
| "use_addr (UseEnable b fs ev) = Some b"
| "use_addr _ = None"

fun use_all :: "loop_use list \<Rightarrow> loop_object \<times> store \<Rightarrow> (loop_object \<times> store) result" where
  "use_all [] s = Inr s"
| "use_all (u # us) s = rbind (use_loop u s) (use_all us)"

text \<open>The handler of the eventfd is registered, in the interest list, and calls \<^verbatim>\<open>nap\<close>; every other
  handler has another descriptor.\<close>

definition wakes :: "int \<Rightarrow> addr \<Rightarrow> loop_object \<times> store \<Rightarrow> bool" where
  "wakes fd a s =
     (case s of (lo, hs) \<Rightarrow>
        (\<exists>p h. lo_mPoller lo = EpollObject p \<and> mEventHandlerHash p fd = Some a \<and> kernel p fd = Some READ_EVENT \<and>
           hs a = Some h \<and> eh_FD h = fd \<and> mEvents h = READ_EVENT \<and> ReadFunc \<in> mFuncs h) \<and>
        mWakeupHandler (lo_loop lo) = a \<and>
        (\<forall>b h. b \<noteq> a \<longrightarrow> hs b = Some h \<longrightarrow> eh_FD h \<noteq> fd))"

lemma loop_kept [simp]:
  "mWakeupHandler (loop_step as l) = mWakeupHandler l" "mWakeupHandler (wakeup l) = mWakeupHandler l"
  "mWakeupHandler (quit l) = mWakeupHandler l"
  by (simp_all add: loop_step_def do_handler_def nap_def Let_def wakeup_def quit_def split: loop_pc.split list.split)

text \<open>A poller changes the index and the reported events of a handler only.\<close>

definition core :: "event_handler \<Rightarrow> int \<times> u32 \<times> callback set" where
  "core h = (eh_FD h, mEvents h, mFuncs h)"

definition same_cores :: "store \<Rightarrow> store \<Rightarrow> bool" where
  "same_cores hs hs' = (\<forall>b. map_option core (hs' b) = map_option core (hs b))"

lemma same_cores_refl [simp]: "same_cores hs hs"
  by (simp add: same_cores_def)

lemma same_coresD:
  assumes "same_cores hs hs'"
  shows "hs' b = Some k \<Longrightarrow> \<exists>k'. hs b = Some k' \<and> core k' = core k"
    and "hs b = Some k \<Longrightarrow> \<exists>k'. hs' b = Some k' \<and> core k' = core k"
  using assms unfolding same_cores_def by (metis map_option_eq_Some option.simps(9))+

lemma same_cores_trans: "same_cores hs hs' \<Longrightarrow> same_cores hs' hs'' \<Longrightarrow> same_cores hs hs''"
  by (simp add: same_cores_def)

lemma same_cores_upd: "hs b = Some h \<Longrightarrow> core h' = core h \<Longrightarrow> same_cores hs (hs(b \<mapsto> h'))"
  by (simp add: same_cores_def)

lemma core_index [simp]: "core (h\<lparr>mIndex := i\<rparr>) = core h" "core (h\<lparr>mRevents := r\<rparr>) = core h"
  by (simp_all add: core_def)

lemma epoll_loop_cores: "same_cores (snd s) (snd (epoll_loop evs hash s))"
proof (induction evs hash s rule: epoll_loop.induct)
  case (2 fd events evs hash s)
  have "same_cores (snd s) (snd (touch fd events hash s))"
    by (auto simp: touch_def same_cores_def option.map_comp comp_def split: option.split)
  then show ?case using 2 by (auto intro: same_cores_trans)
qed simp

lemma epoll_poll_kept:
  assumes "EpollPoller_poll ready dur p hs = (as, hs', p')"
  shows "mEventHandlerHash p' = mEventHandlerHash p \<and> kernel p' = kernel p \<and> same_cores hs hs'"
  using assms epoll_loop_cores [of "([], hs)" "the ready" "mEventHandlerHash p"]
  by (auto simp: EpollPoller_poll_def settle_def Let_def split: option.splits list.splits prod.splits if_splits)

text \<open>Operations on a handler of another descriptor.\<close>

lemma epoll_update_other:
  assumes "EpollPoller_update b ok p hs = Inr (p', hs')" and "\<And>h. hs b = Some h \<Longrightarrow> eh_FD h \<noteq> fd"
  shows "mEventHandlerHash p' fd = mEventHandlerHash p fd \<and> kernel p' fd = kernel p fd \<and> same_cores hs hs'"
  using assms
  by (auto simp: EpollPoller_update_def handler_def Let_def same_cores_def split: option.splits if_splits)

lemma epoll_remove_other:
  assumes "EpollPoller_remove b ok p hs = Inr (p', hs')" and "\<And>h. hs b = Some h \<Longrightarrow> eh_FD h \<noteq> fd"
  shows "mEventHandlerHash p' fd = mEventHandlerHash p fd \<and> kernel p' fd = kernel p fd \<and> same_cores hs hs'"
  using assms
  by (auto simp: EpollPoller_remove_def handler_def Let_def same_cores_def split: option.splits if_splits)

lemma register_other:
  assumes "eh_FD h \<noteq> fd"
  shows "mEventHandlerHash (registerEventHandler b h p) fd = mEventHandlerHash p fd"
    "kernel (registerEventHandler b h p) = kernel p"
  using assms by (auto simp: registerEventHandler_def split: option.split)

lemma wakes_kept:
  assumes "wakes fd a (lo, hs)" and "lo_mPoller lo = EpollObject p"
    and "mEventHandlerHash p' fd = mEventHandlerHash p fd" and "kernel p' fd = kernel p fd"
    and "same_cores hs hs'" and "mWakeupHandler l = mWakeupHandler (lo_loop lo)"
    and "lo_mPoller lo' = EpollObject p'" and "lo_loop lo' = l"
  shows "wakes fd a (lo', hs')"
proof -
  obtain h where h: "mEventHandlerHash p fd = Some a" "kernel p fd = Some READ_EVENT" "hs a = Some h"
    "eh_FD h = fd" "mEvents h = READ_EVENT" "ReadFunc \<in> mFuncs h"
    using assms(1,2) by (auto simp: wakes_def)
  obtain h' where "hs' a = Some h'" "core h' = core h"
    using same_coresD(2) [OF assms(5) h(3)] by blast
  moreover have "eh_FD k \<noteq> fd" if other: "b \<noteq> a" "hs' b = Some k" for b k
  proof -
    obtain k' where "hs b = Some k'" "core k' = core k"
      using same_coresD(1) [OF assms(5) other(2)] by blast
    then show ?thesis using assms(1) other(1) by (auto simp: wakes_def core_def)
  qed
  ultimately show ?thesis using h assms by (auto simp: wakes_def core_def)
qed

lemma wakes_registered:
  assumes "wakes fd a s" and "loop_registerEventHandler b s = Inr s'" and "b \<noteq> a"
  shows "wakes fd a s'"
proof -
  obtain lo hs where s: "s = (lo, hs)" by (cases s)
  obtain p where p: "lo_mPoller lo = EpollObject p" using assms(1) s by (auto simp: wakes_def)
  obtain h where h: "hs b = Some h" "s' = (lo\<lparr>lo_mPoller := object_register b h (lo_mPoller lo)\<rparr>, hs)"
    using assms(2) s by (auto simp: loop_registerEventHandler_def handler_def split: option.splits)
  have "eh_FD h \<noteq> fd" using assms(1,3) s h(1) by (auto simp: wakes_def)
  then show ?thesis unfolding h(2)
    by (intro wakes_kept [OF assms(1) [unfolded s] p, where p' = "registerEventHandler b h p" and l = "lo_loop lo"])
      (simp_all add: p register_other)
qed

lemma wakes_updated:
  assumes "wakes fd a s" and "loop_updateHandler b ok s = Inr s'" and "b \<noteq> a"
  shows "wakes fd a s'"
proof -
  obtain lo hs where s: "s = (lo, hs)" by (cases s)
  obtain p where p: "lo_mPoller lo = EpollObject p" using assms(1) s by (auto simp: wakes_def)
  obtain p' hs' where u: "EpollPoller_update b ok p hs = Inr (p', hs')" "s' = (lo\<lparr>lo_mPoller := EpollObject p'\<rparr>, hs')"
    using assms(2) s p by (auto simp: loop_updateHandler_def rbind_eq_Inr)
  have "\<And>h. hs b = Some h \<Longrightarrow> eh_FD h \<noteq> fd" using assms(1,3) s by (auto simp: wakes_def)
  from epoll_update_other [OF u(1) this] show ?thesis unfolding u(2)
    by (intro wakes_kept [OF assms(1) [unfolded s] p, where p' = p' and l = "lo_loop lo"]) simp_all
qed

lemma wakes_removed:
  assumes "wakes fd a s" and "loop_removeHandler b ok s = Inr s'" and "b \<noteq> a"
  shows "wakes fd a s'"
proof -
  obtain lo hs where s: "s = (lo, hs)" by (cases s)
  obtain p where p: "lo_mPoller lo = EpollObject p" using assms(1) s by (auto simp: wakes_def)
  obtain p' hs' where u: "EpollPoller_remove b ok p hs = Inr (p', hs')" "s' = (lo\<lparr>lo_mPoller := EpollObject p'\<rparr>, hs')"
    using assms(2) s p by (auto simp: loop_removeHandler_def rbind_eq_Inr)
  have "\<And>h. hs b = Some h \<Longrightarrow> eh_FD h \<noteq> fd" using assms(1,3) s by (auto simp: wakes_def)
  from epoll_remove_other [OF u(1) this] show ?thesis unfolding u(2)
    by (intro wakes_kept [OF assms(1) [unfolded s] p, where p' = p' and l = "lo_loop lo"]) simp_all
qed

lemma wakes_wakeup: "wakes fd a (wakeup_loop s) \<longleftrightarrow> wakes fd a s"
  by (cases s) (simp add: wakes_def wakeup_loop_def)

lemma wakes_used:
  assumes "wakes fd a s" and "use_loop u s = Inr s'" and "use_addr u \<noteq> Some a"
  shows "wakes fd a s'"
proof (cases u)
  case (UseAdd b ok)
  then obtain s1 s2 where s: "loop_registerEventHandler b s = Inr s1" "loop_updateHandler b ok s1 = Inr s2" "s' = wakeup_loop s2"
    using assms(2) by (auto simp: thread_addEvent_def rbind_eq_Inr)
  have b: "b \<noteq> a" using assms(3) UseAdd by simp
  have "wakes fd a s2" by (rule wakes_updated [OF wakes_registered [OF assms(1) s(1) b] s(2) b])
  then show ?thesis by (simp add: s(3) wakes_wakeup)
next
  case (UseRemoveEvent b ok)
  then obtain s1 where s: "loop_removeHandler b ok s = Inr s1" "s' = wakeup_loop s1"
    using assms(2) by (auto simp: thread_removeEvent_def rbind_eq_Inr)
  have "b \<noteq> a" using assms(3) UseRemoveEvent by simp
  with wakes_removed [OF assms(1) s(1)] show ?thesis by (simp add: s(2) wakes_wakeup)
next
  case (UseTurn ready dur)
  obtain lo hs where s: "s = (lo, hs)" by (cases s)
  obtain p where p: "lo_mPoller lo = EpollObject p" using assms(1) s by (auto simp: wakes_def)
  obtain as hs' p' where r: "EpollPoller_poll ready dur p hs = (as, hs', p')" by (cases "EpollPoller_poll ready dur p hs")
  show ?thesis
  proof (cases "el_pc (lo_loop lo) = InPoll")
    case True
    then have s': "s' = (lo\<lparr>lo_mPoller := EpollObject p', lo_loop := loop_step as (lo_loop lo)\<rparr>, hs')"
      using assms(2) s p r UseTurn by (simp add: loop_turn_def)
    show ?thesis unfolding s'
      by (intro wakes_kept [OF assms(1) [unfolded s] p, where p' = p' and l = "loop_step as (lo_loop lo)"])
        (simp_all add: epoll_poll_kept [OF r])
  next
    case False
    then show ?thesis using assms(1,2) s UseTurn by (auto simp: loop_turn_def wakes_def)
  qed
next
  case (UseTimeoutParam i t r)
  obtain lo hs where s: "s = (lo, hs)" by (cases s)
  obtain p where p: "lo_mPoller lo = EpollObject p" using assms(1) s by (auto simp: wakes_def)
  show ?thesis using assms(1,2) s p UseTimeoutParam
    by (auto simp: loop_setTimeoutParam_def setTimeoutParam_def wakes_def)
next
  case (UseEnable b fs ev)
  obtain lo hs where s: "s = (lo, hs)" by (cases s)
  obtain h where "hs b = Some h" "s' = (lo, hs(b \<mapsto> h\<lparr>mFuncs := fs, mEvents := ev\<rparr>))"
    using assms(2) s UseEnable by (auto simp: handler_def split: option.splits)
  then show ?thesis using assms(1,3) s UseEnable by (auto simp: wakes_def split: if_splits)
next
  case (UseRegister b)
  then show ?thesis using wakes_registered [OF assms(1), of b] assms(2,3) by simp
next
  case (UseUpdate b ok)
  then show ?thesis using wakes_updated [OF assms(1), of b] assms(2,3) by simp
next
  case (UseRemove b ok)
  then show ?thesis using wakes_removed [OF assms(1), of b] assms(2,3) by simp
next
  case UseQuit
  then show ?thesis using assms(1,2) by (auto simp: wakes_def)
next
  case UseWakeup
  then show ?thesis using assms(1,2) wakes_wakeup [of fd a s] by simp
qed

lemma wakes_all:
  "use_all us s = Inr s' \<Longrightarrow> wakes fd a s \<Longrightarrow> \<forall>u\<in>set us. use_addr u \<noteq> Some a \<Longrightarrow> wakes fd a s'"
  by (induction us arbitrary: s) (auto simp: rbind_eq_Inr intro: wakes_used)

lemma constructed_wakes:
  assumes "construct_EventLoop EPOLL_POLLER fd a garbage True hs = Inr s"
    and "\<forall>b h. b \<noteq> a \<longrightarrow> hs b = Some h \<longrightarrow> eh_FD h \<noteq> fd"
  shows "wakes fd a s"
  using assms
  by (auto simp: construct_EventLoop_def Let_def wakes_def new_EpollPoller_def EpollPoller_update_def handler_def
      registerEventHandler_def enableReading_def setFunc_def new_EventHandler_def new_EventLoop_def NONE_EVENT_def)

text \<open>
  C17. Whatever handlers come and go in a loop over \<^verbatim>\<open>epoll\<close>, and whatever its threads do: the eventfd is
  in the interest list for reading, its handler calls \<^verbatim>\<open>nap\<close>, and when the kernel reports it, as
  it does while the counter is not zero, the loop gets that handler. So \<open>poll_ok\<close> holds of every
  poll, and a \<^verbatim>\<open>wakeup\<close> ends the next one.
\<close>

theorem wakeup_is_seen:
  assumes "construct_EventLoop EPOLL_POLLER fd a garbage True hs0 = Inr s0"
    and "\<forall>b h. b \<noteq> a \<longrightarrow> hs0 b = Some h \<longrightarrow> eh_FD h \<noteq> fd"
    and "use_all us s0 = Inr (lo, hs)" and "\<forall>u\<in>set us. use_addr u \<noteq> Some a"
    and "0 < el_eventfd (lo_loop lo) \<longrightarrow> fd \<in> fst ` set evs"
  shows "(\<exists>p h. lo_mPoller lo = EpollObject p \<and> kernel p fd = Some READ_EVENT \<and> hs a = Some h \<and> ReadFunc \<in> mFuncs h) \<and>
    poll_ok (fst (object_poll (Some evs) dur (lo_mPoller lo) hs)) (lo_loop lo)"
proof -
  have w: "wakes fd a (lo, hs)"
    using wakes_all [OF assms(3) constructed_wakes [OF assms(1,2)] assms(4)] .
  then obtain p h where p: "lo_mPoller lo = EpollObject p" "mEventHandlerHash p fd = Some a" "kernel p fd = Some READ_EVENT"
    "hs a = Some h" "ReadFunc \<in> mFuncs h" and a: "mWakeupHandler (lo_loop lo) = a"
    by (auto simp: wakes_def)
  have "fst (object_poll (Some evs) dur (lo_mPoller lo) hs) = List.map_filter (\<lambda>e. mEventHandlerHash p (fst e)) evs"
    using poll_reports_prefix [where q = p and hs = hs and evs = evs and dur' = dur, THEN conjunct2] p(1)
    by (cases "EpollPoller_poll (Some evs) dur p hs") simp
  moreover have "a \<in> set (List.map_filter (\<lambda>e. mEventHandlerHash p (fst e)) evs)" if "fd \<in> fst ` set evs"
    using that p(2) by (force simp: List.map_filter_def)
  ultimately show ?thesis using p a assms(5) by (auto simp: poll_ok_def)
qed

text \<open>A connection with descriptor 9 comes and goes; then a wakeup is reported.\<close>

theorem wakeup_is_seen_witness:
  "\<exists>s0 lo hs. construct_EventLoop EPOLL_POLLER 5 1 0 True [2 \<mapsto> demo_handler 9] = Inr s0 \<and>
    use_all [UseAdd 2 True, UseTurn None 0, UseTurn None 0, UseRemoveEvent 2 True, UseQuit] s0 = Inr (lo, hs) \<and>
    el_pc (lo_loop lo) = InPoll \<and>
    poll_ok (fst (object_poll (Some [(5, POLLIN)]) 0 (lo_mPoller lo) hs)) (lo_loop lo)"
proof -
  let ?us = "[UseAdd 2 True, UseTurn None 0, UseTurn None 0, UseRemoveEvent 2 True, UseQuit]"
  obtain s0 lo hs where s0: "construct_EventLoop EPOLL_POLLER 5 1 0 True [2 \<mapsto> demo_handler 9] = Inr s0"
    and run: "use_all ?us s0 = Inr (lo, hs)" "el_pc (lo_loop lo) = InPoll"
    by (auto simp: construct_EventLoop_def Let_def new_EpollPoller_def EpollPoller_update_def handler_def
        registerEventHandler_def enableReading_def setFunc_def new_EventHandler_def new_EventLoop_def demo_handler_def
        thread_addEvent_def thread_removeEvent_def loop_registerEventHandler_def loop_updateHandler_def
        loop_removeHandler_def EpollPoller_remove_def wakeup_loop_def loop_turn_def loop_step_def quit_def wakeup_def)
  then show ?thesis
    using wakeup_is_seen [OF s0 _ run(1), of "[(5, POLLIN)]" 0]
    by (auto simp: demo_handler_def new_EventHandler_def enableReading_def)
qed

text \<open>The destructor takes the eventfd out of the tables and closes it.\<close>

lemma destroyed_loop:
  assumes "wakes fd a (lo, hs)" and "lo_mWakeupFD lo = fd"
  shows "\<exists>p hs'. delete_EventLoop True lo hs = Inr (EpollObject p, hs', fd) \<and> kernel p fd = None \<and> mEventHandlerHash p fd = None"
  using assms
  by (auto simp: wakes_def delete_EventLoop_def Let_def handler_def EpollPoller_remove_def disableAll_def)

end
