(* ===== verification/Server_Setup.thy ===== *)
theory Server_Setup
  imports Servers Service_Registry Cache Clock Acceptor
begin

text \<open>
  How the login, gateway and game servers come up: the constructors and \<^verbatim>\<open>start\<close> of
  \<^verbatim>\<open>LoginServer.h\<close>, \<^verbatim>\<open>GatewayServer.h\<close> and \<^verbatim>\<open>GameServer.h\<close>, the connection options and \<^verbatim>\<open>readConf\<close> of the
  configurations, and \<^verbatim>\<open>PSConsumerFunc\<close> with the subscription. The constructors of the members are those of
  \<^verbatim>\<open>Tcp_Server\<close> and \<^verbatim>\<open>Acceptor\<close>; the threads that are started are the loops of \<^verbatim>\<open>Servers\<close>.
\<close>

section \<open>Connection options\<close>

definition login_getBrokerConnOpts :: "login_conf \<Rightarrow> connection_options" where
  "login_getBrokerConnOpts c =
     (lc_BROKER_CONN_HOST c, lc_BROKER_CONN_PORT c, lc_BROKER_CONN_PASSWORD c, lc_BROKER_CONN_DB c)"

definition login_getBrokerConnPoolOpts :: "login_conf \<Rightarrow> int" where
  "login_getBrokerConnPoolOpts c = lc_BROKER_CONN_POOL_SIZE c"

definition gateway_getBrokerConnOpts :: "gateway_conf \<Rightarrow> connection_options" where
  "gateway_getBrokerConnOpts c =
     (wc_BROKER_CONN_HOST c, wc_BROKER_CONN_PORT c, wc_BROKER_CONN_PASSWORD c, wc_BROKER_CONN_DB c)"

definition gateway_getBrokerConnPoolOpts :: "gateway_conf \<Rightarrow> int" where
  "gateway_getBrokerConnPoolOpts c = wc_BROKER_CONN_POOL_SIZE c"

definition gateway_getRegistryConnOpts :: "gateway_conf \<Rightarrow> connection_options" where
  "gateway_getRegistryConnOpts c =
     (wc_REGISTRY_CONN_HOST c, wc_REGISTRY_CONN_PORT c, wc_REGISTRY_CONN_PASSWORD c, wc_REGISTRY_CONN_DB c)"

definition gateway_getRegistryConnPoolOpts :: "gateway_conf \<Rightarrow> int" where
  "gateway_getRegistryConnPoolOpts c = wc_REGISTRY_CONN_POOL_SIZE c"

definition game_getBrokerConnOpts :: "game_conf \<Rightarrow> connection_options" where
  "game_getBrokerConnOpts c =
     (gc_BROKER_CONN_HOST c, gc_BROKER_CONN_PORT c, gc_BROKER_CONN_PASSWORD c, gc_BROKER_CONN_DB c)"

definition game_getBrokerConnPoolOpts :: "game_conf \<Rightarrow> int" where
  "game_getBrokerConnPoolOpts c = gc_BROKER_CONN_POOL_SIZE c"

definition game_getRegistryConnOpts :: "game_conf \<Rightarrow> connection_options" where
  "game_getRegistryConnOpts c =
     (gc_REGISTRY_CONN_HOST c, gc_REGISTRY_CONN_PORT c, gc_REGISTRY_CONN_PASSWORD c, gc_REGISTRY_CONN_DB c)"

definition game_getRegistryConnPoolOpts :: "game_conf \<Rightarrow> int" where
  "game_getRegistryConnPoolOpts c = gc_REGISTRY_CONN_POOL_SIZE c"

definition center_getServRegConnOpts :: "center_conf \<Rightarrow> connection_options" where
  "center_getServRegConnOpts c =
     (REGISTRY_CONN_HOST c, REGISTRY_CONN_PORT c, REGISTRY_CONN_PASSWORD c, REGISTRY_CONN_DB c)"

definition center_getServRegConnPoolOpts :: "center_conf \<Rightarrow> int" where
  "center_getServRegConnPoolOpts c = REGISTRY_CONN_POOL_SIZE c"

text \<open>\<^verbatim>\<open>readConf\<close> of every configuration only makes a client; \<open>connect\<close> is what its constructor does.\<close>

definition catch_redis :: "unit result \<Rightarrow> bool result" where
  "catch_redis r = (case r of Inr _ \<Rightarrow> Inr True | Inl e \<Rightarrow> if e = RedisError then Inr False else Inl e)"

definition login_readConf :: "(connection_options \<Rightarrow> unit result) \<Rightarrow> connection_options \<Rightarrow> bool result" where
  "login_readConf connect connOpts = catch_redis (connect connOpts)"

definition gateway_readConf :: "(connection_options \<Rightarrow> unit result) \<Rightarrow> connection_options \<Rightarrow> bool result" where
  "gateway_readConf connect connOpts = catch_redis (connect connOpts)"

definition game_readConf :: "(connection_options \<Rightarrow> unit result) \<Rightarrow> connection_options \<Rightarrow> bool result" where
  "game_readConf connect connOpts = catch_redis (connect connOpts)"

definition center_readConf :: "(connection_options \<Rightarrow> unit result) \<Rightarrow> connection_options \<Rightarrow> bool result" where
  "center_readConf connect connOpts = catch_redis (connect connOpts)"

definition db_readConf :: "(connection_options \<Rightarrow> unit result) \<Rightarrow> connection_options \<Rightarrow> bool result" where
  "db_readConf connect connOpts = catch_redis (connect connOpts)"

section \<open>Construction\<close>

datatype server_function = ConnNameFunc | ServerMessageFunc | ServerCloseFunc

datatype long_task = StreamConsumer | SubscriptionConsumer

text \<open>A server: its \<^verbatim>\<open>mTcpServer\<close> with the acceptor, the registered types of \<open>'o\<close>, the functions
  set, the tasks started by \<^verbatim>\<open>setLongtimeTask\<close>, its own port and address, and the system calls and
  commands to the broker that have been made.\<close>

record 'o server_setup =
  ss_server :: "string tcp_server"
  ss_acceptor :: acceptor
  ss_types :: "'o message_types"
  ss_functions :: "server_function set"
  ss_tasks :: "long_task list"
  ss_port :: "16 word"
  ss_ip :: string
  ss_calls :: "sys_call list"
  ss_broker :: log

text \<open>What the machine contributes: the kernel, the number of hardware threads, the hash, the
  address of the listening handler and its uninitialised \<^verbatim>\<open>mRevents\<close>.\<close>

record machine =
  m_sys :: sys_kernel
  m_hardware :: nat
  m_hash :: "string \<Rightarrow> nat"
  m_handler :: addr
  m_revents :: u32
  m_poller :: "epoll_poller \<times> store"

text \<open>The constructor of \<^verbatim>\<open>TcpServer\<close>; \<^verbatim>\<open>IgnoreSigPipe()\<close> has no effect.\<close>

definition construct_TcpServer ::
  "machine \<Rightarrow> sockaddr_in \<Rightarrow> nat \<Rightarrow> string \<Rightarrow> nat \<Rightarrow> 'o server_setup result"
where
  "construct_TcpServer m sa thdNum servName bucketSize =
     rbind (new_Acceptor (m_sys m) sa (m_handler m) (m_revents m) True (m_poller m) []) (\<lambda>(ac, ps, calls).
       Inr \<lparr>ss_server = new_TcpServer servName (m_hardware m) thdNum bucketSize (m_hash m),
            ss_acceptor = setConnectionFunc ac, ss_types = Map.empty, ss_functions = {}, ss_tasks = [],
            ss_port = 0, ss_ip = [], ss_calls = calls, ss_broker = []\<rparr>)"

text \<open>The loop over \<^verbatim>\<open>mEventLoopTIDs\<close>.\<close>

definition register_types ::
  "(thread_id \<Rightarrow> 'o message_types \<Rightarrow> 'o message_types) \<Rightarrow> 'o server_setup \<Rightarrow> 'o server_setup result"
where
  "register_types reg su =
     rbind (getEventLoopThreadIDs (lp_mEventLoopThreads (ts_mEventLoopThreadpool (ss_server su)))) (\<lambda>tids.
       Inr (su\<lparr>ss_types := fold reg tids (ss_types su)\<rparr>))"

definition new_LoginServer ::
  "machine \<Rightarrow> login_conf \<Rightarrow> sockaddr_in \<Rightarrow> string \<Rightarrow> u64 \<Rightarrow> bool \<times> i32 \<times> i32 \<Rightarrow> redis \<Rightarrow> login_object server_setup result"
where
  "new_LoginServer m conf sa servName now garbage srv =
     rbind (construct_TcpServer m sa (lc_SERVER_IO_THREAD_NUM conf) servName (lc_SERVER_SAFE_HASH_BUCKET_SIZE conf)) (\<lambda>su.
     rbind (register_types (login_register conf now garbage) su) (\<lambda>su.
     let (_, log) = createGroup (lc_BROKER_DB_KEY conf) (lc_BROKER_DB_GROUP conf) ''$'' srv (ss_broker su);
         (_, log) = createGroup (BROKER_LOGIN_KEY conf) (BROKER_LOGIN_GROUP conf) ''$'' srv log
     in Inr (su\<lparr>ss_broker := log\<rparr>)))"

text \<open>The gateway and game servers take their address from the output of a command.\<close>

definition new_GatewayServer ::
  "machine \<Rightarrow> gateway_conf \<Rightarrow> sockaddr_in \<Rightarrow> string \<Rightarrow> u64 \<Rightarrow> u64 \<Rightarrow> bytes \<Rightarrow> gateway_object server_setup result"
where
  "new_GatewayServer m conf sa servName now garbage ifconfig =
     rbind (construct_TcpServer m sa (wc_SERVER_IO_THREAD_NUM conf) servName (wc_SERVER_SAFE_HASH_BUCKET_SIZE conf)) (\<lambda>su.
     rbind (register_types (gateway_register conf now garbage) su) (\<lambda>su.
     rbind (Cmd_call ifconfig) (\<lambda>ip. Inr (su\<lparr>ss_port := getPort sa, ss_ip := ip\<rparr>))))"

definition new_GameServer ::
  "machine \<Rightarrow> game_conf \<Rightarrow> sockaddr_in \<Rightarrow> string \<Rightarrow> u64 \<Rightarrow> u64 \<times> i32 \<times> i32 \<times> i32 \<Rightarrow> u64 \<times> i32 \<Rightarrow> bytes \<Rightarrow>
   game_object server_setup result"
where
  "new_GameServer m conf sa servName now garbage garbage' ifconfig =
     rbind (construct_TcpServer m sa (gc_SERVER_IO_THREAD_NUM conf) servName (gc_SERVER_SAFE_HASH_BUCKET_SIZE conf)) (\<lambda>su.
     rbind (register_types (game_register conf now garbage garbage') su) (\<lambda>su.
     rbind (Cmd_call ifconfig) (\<lambda>ip. Inr (su\<lparr>ss_port := getPort sa, ss_ip := ip\<rparr>))))"

section \<open>Start\<close>

text \<open>\<open>linkTimer\<close>, the blacklist, the functions, the tasks, and \<^verbatim>\<open>mTcpServer.start()\<close> up to its loop.\<close>

definition setLongtimeTask :: "long_task \<Rightarrow> 'o server_setup \<Rightarrow> 'o server_setup" where
  "setLongtimeTask t su = su\<lparr>ss_tasks := ss_tasks su @ [t]\<rparr>"

definition initConnBlacklist :: "string list \<Rightarrow> 'o server_setup \<Rightarrow> 'o server_setup" where
  "initConnBlacklist ips su = su\<lparr>ss_server := addToBlacklist ips (ss_server su)\<rparr>"

definition link_timer :: "string wheel_timer option \<Rightarrow> 'o server_setup \<Rightarrow> 'o server_setup" where
  "link_timer timer su = su\<lparr>ss_server := snd (linkTimer timer (ss_server su))\<rparr>"

definition set_functions :: "server_function set \<Rightarrow> 'o server_setup \<Rightarrow> 'o server_setup" where
  "set_functions fs su =
     su\<lparr>ss_acceptor := setFilterFunc (ss_acceptor su), ss_functions := ss_functions su \<union> fs\<rparr>"

definition start_listening :: "machine \<Rightarrow> 'o server_setup \<Rightarrow> 'o server_setup" where
  "start_listening m su = su\<lparr>ss_calls := TcpServer_listen (m_sys m) (ss_acceptor su) (ss_calls su)\<rparr>"

definition LoginServer_start ::
  "machine \<Rightarrow> login_conf \<Rightarrow> string wheel_timer option \<Rightarrow> login_object server_setup \<Rightarrow> login_object server_setup"
where
  "LoginServer_start m conf timer su =
     start_listening m (setLongtimeTask StreamConsumer (set_functions {ConnNameFunc, ServerMessageFunc}
       (initConnBlacklist (lc_CONNECTION_BLACKLIST conf) (link_timer timer su))))"

definition GatewayServer_start ::
  "machine \<Rightarrow> gateway_conf \<Rightarrow> string wheel_timer option \<Rightarrow> gateway_object server_setup \<Rightarrow> gateway_object server_setup"
where
  "GatewayServer_start m conf timer su =
     start_listening m (setLongtimeTask SubscriptionConsumer (setLongtimeTask StreamConsumer
       (set_functions {ConnNameFunc, ServerMessageFunc}
         (initConnBlacklist (wc_CONNECTION_BLACKLIST conf) (link_timer timer su)))))"

definition GameServer_start ::
  "machine \<Rightarrow> game_conf \<Rightarrow> string wheel_timer option \<Rightarrow> game_object server_setup \<Rightarrow> game_object server_setup"
where
  "GameServer_start m conf timer su =
     start_listening m (setLongtimeTask SubscriptionConsumer (setLongtimeTask StreamConsumer
       (set_functions {ConnNameFunc, ServerMessageFunc, ServerCloseFunc}
         (initConnBlacklist (gc_CONNECTION_BLACKLIST conf) (link_timer timer su)))))"

section \<open>Registering and subscribing\<close>

text \<open>The subscriber \<^verbatim>\<open>mSub\<close>: the functions it calls and the channels it has subscribed to on its own
  connection; \<open>answered\<close> says whether redis took the command, otherwise \<^verbatim>\<open>subscribe\<close> throws.\<close>

datatype subscriber_function = OnMessageFunc | OnPMessageFunc | OnMetaFunc

record subscriber =
  sb_functions :: "subscriber_function set"
  sb_channels :: "string list"

definition new_subscriber :: subscriber where
  "new_subscriber = \<lparr>sb_functions = {}, sb_channels = []\<rparr>"

definition subscribe_channel :: "bool \<Rightarrow> string \<Rightarrow> log \<times> subscriber \<Rightarrow> unit result \<times> log \<times> subscriber" where
  "subscribe_channel answered channel st =
     (case st of (log, sub) \<Rightarrow>
        let sub = sub\<lparr>sb_functions := sb_functions sub \<union> {OnMessageFunc, OnPMessageFunc, OnMetaFunc}\<rparr> in
        if answered then (Inr (), log, sub\<lparr>sb_channels := sb_channels sub @ [channel]\<rparr>)
        else (Inl RedisError, log, sub))"

text \<open>\<^verbatim>\<open>registerService\<close> to its end.\<close>

definition gateway_registerAndSubscribe ::
  "gateway_conf \<Rightarrow> string \<Rightarrow> nat \<Rightarrow> bool \<Rightarrow> redis \<Rightarrow> log \<times> subscriber \<Rightarrow> unit result \<times> log \<times> subscriber"
where
  "gateway_registerAndSubscribe conf ip port answered srv st =
     (case st of (log, sub) \<Rightarrow>
        and_then (case gateway_registerService conf ip port srv log of (r, log) \<Rightarrow> (r, log, sub))
          (\<lambda>_. subscribe_channel answered (wc_SERVICE_REGISTRY_CHANNEL conf)))"

definition game_registerAndSubscribe ::
  "game_conf \<Rightarrow> string \<Rightarrow> nat \<Rightarrow> bool \<Rightarrow> redis \<Rightarrow> log \<times> subscriber \<Rightarrow> unit result \<times> log \<times> subscriber"
where
  "game_registerAndSubscribe conf ip port answered srv st =
     (case st of (log, sub) \<Rightarrow>
        and_then (case game_registerService conf ip port srv log of (r, log) \<Rightarrow> (r, log, sub))
          (\<lambda>_. subscribe_channel answered (gc_SERVICE_REGISTRY_CHANNEL conf)))"

text \<open>A service that has registered without an exception hears the center server, whose channel has
  the same name, and its key already has a time to live when it starts to listen.\<close>

lemma register_commands_sent:
  assumes "register_commands keys key ip port ttl srv log = (Inr (), log')"
  shows "log' = log @ [SADD keys key, HSET key [(''address'', ip), (''port'', to_string (int port))], EXPIRE key ttl]"
  using assms by (auto simp: register_commands_def and_then_Inr call_def split: option.splits)

lemma registered_and_subscribed:
  assumes "gateway_registerAndSubscribe GatewayServConf ip port answered srv (log, new_subscriber) = (Inr (), log', sub)"
  shows "sb_channels sub = [SERVICE_REGISTRY_CHANNEL CenterServConf] \<and> OnMessageFunc \<in> sb_functions sub \<and>
    (\<exists>cmds key ttl. log' = log @ cmds @ [EXPIRE key ttl] \<and> SADD (SERVICE_KEYS CenterServConf) key \<in> set cmds)"
proof -
  obtain log1 where reg: "gateway_registerService GatewayServConf ip port srv log = (Inr (), log1)"
    and sub: "subscribe_channel answered (wc_SERVICE_REGISTRY_CHANNEL GatewayServConf) (log1, new_subscriber) = (Inr (), log', sub)"
    using assms by (auto simp: gateway_registerAndSubscribe_def and_then_Inr split: prod.splits)
  note sent = register_commands_sent [OF reg [unfolded gateway_registerService_def]]
  have names: "wc_SERVICE_REGISTRY_CHANNEL GatewayServConf = SERVICE_REGISTRY_CHANNEL CenterServConf"
    "wc_SERVICE_KEYS GatewayServConf = SERVICE_KEYS CenterServConf"
    by (simp_all add: GatewayServConf_def CenterServConf_def)
  have "log' = log1" "sb_channels sub = [wc_SERVICE_REGISTRY_CHANNEL GatewayServConf]" "OnMessageFunc \<in> sb_functions sub"
    using sub by (auto simp: subscribe_channel_def Let_def new_subscriber_def split: if_splits)
  then show ?thesis using sent unfolding names by (auto intro!: exI [of _ "[_, _]"])
qed

section \<open>The subscription\<close>

text \<open>What one \<^verbatim>\<open>consume()\<close> does: it calls one of the three functions, or throws. The pattern and meta
  functions are empty.\<close>

datatype consumed =
    OnMessage string string
  | OnPMessage string string string
  | OnMeta int
  | TimeoutThrown
  | ErrorThrown

text \<open>\<^verbatim>\<open>PSConsumerFunc\<close> over what the subscriber gets, with the server as it is at that moment; only an
  exception that is not one of redis, or undefined behaviour, ends it.\<close>

fun PSConsumerFunc ::
  "(string \<Rightarrow> 't tcp_server \<Rightarrow> redis \<Rightarrow> log \<Rightarrow> unit result \<times> log) \<Rightarrow> redis \<Rightarrow> (consumed \<times> 't tcp_server) list \<Rightarrow>
   log \<Rightarrow> unit result \<times> log"
where
  "PSConsumerFunc onMessage srv [] log = (Inr (), log)"
| "PSConsumerFunc onMessage srv ((ev, s) # evs) log =
     (case (case ev of
              OnMessage channel msg \<Rightarrow> ps_round (onMessage msg s srv log)
            | TimeoutThrown \<Rightarrow> ps_round (Inl RedisError, log)
            | ErrorThrown \<Rightarrow> ps_round (Inl RedisError, log)
            | _ \<Rightarrow> (Inr (), log)) of
        (Inl e, log) \<Rightarrow> (Inl e, log)
      | (Inr _, log) \<Rightarrow> PSConsumerFunc onMessage srv evs log)"

section \<open>A started server is ready\<close>

lemma construct_TcpServer_calls:
  assumes "m_poller m = (p, hs)" and "fd = sys_return (m_sys m [] (SysSocket PF_INET SOCK_STREAM IPPROTO_TCP))"
    and "mEventHandlerHash p fd = None"
  shows "\<exists>ac calls. construct_TcpServer m sa n servName b = Inr
      \<lparr>ss_server = new_TcpServer servName (m_hardware m) n b (m_hash m), ss_acceptor = ac, ss_types = Map.empty,
       ss_functions = {}, ss_tasks = [], ss_port = 0, ss_ip = [], ss_calls = calls, ss_broker = []\<rparr> \<and>
    ac_mConnectionFunc ac \<and> ac_mLocalAddr ac = sa \<and> ac_mListenSocket ac = fd \<and>
    TcpServer_listen (m_sys m) (setFilterFunc ac) calls =
      [SysSocket PF_INET SOCK_STREAM IPPROTO_TCP, SysSetsockopt fd SO_REUSEADDR [1],
       SysSetsockopt fd SO_REUSEPORT [1], SysBind fd sa, SysListen fd SOMAXCONN]"
proof -
  obtain ac p' hs' calls where made:
    "new_Acceptor (m_sys m) sa (m_handler m) (m_revents m) True (p, hs) [] = Inr (ac, (p', hs'), calls)"
    and fields: "ac_mLocalAddr ac = sa" "ac_mListenSocket ac = fd"
    using assms(2,3)
    by (auto simp: new_Acceptor_def Let_def createTCPSocket_def EpollPoller_update_def handler_def
        registerEventHandler_def TCPSocket_bind_def setResueAddr_def setReusePort_def set_option_def
        enableReading_def setFunc_def new_EventHandler_def)
  have "TcpServer_listen (m_sys m) (setFilterFunc (setConnectionFunc ac)) calls = TcpServer_listen (m_sys m) ac calls"
    by (simp add: TcpServer_listen_def Acceptor_listen_def setFilterFunc_def setConnectionFunc_def)
  then show ?thesis
    using made fields listening_calls [OF made assms(2,3)] assms(1)
    by (simp add: construct_TcpServer_def setConnectionFunc_def)
qed

text \<open>A registration that gives each new thread the same objects gives them to all.\<close>

lemma register_all:
  assumes "\<And>tid types. types tid = None \<Longrightarrow> reg tid types = types(tid \<mapsto> objs)"
    and "distinct tids" and "\<forall>tid\<in>set tids. types tid = None"
  shows "fold reg tids types = (\<lambda>tid. if tid \<in> set tids then Some objs else types tid)"
  using assms(2,3)
proof (induction tids arbitrary: types)
  case Nil
  then show ?case by simp
next
  case (Cons tid tids)
  then have "fold reg tids (types(tid \<mapsto> objs)) =
      (\<lambda>t. if t \<in> set tids then Some objs else (types(tid \<mapsto> objs)) t)" by (intro Cons.IH) auto
  then show ?case using Cons.prems assms(1) by auto
qed

lemma register_types_new:
  assumes "\<And>tid types. types tid = None \<Longrightarrow> reg tid types = types(tid \<mapsto> objs)"
    and "ss_types su = Map.empty" and "ss_server su = new_TcpServer servName hw n b f"
  shows "register_types reg su = Inr (su\<lparr>ss_types := (\<lambda>tid. if tid < n then Some objs else None)\<rparr>)"
  using register_all [of reg objs "[0..<n]" Map.empty] assms
  by (simp add: register_types_def new_TcpServer_def new_EventLoopThreadpool_def)

lemma login_register_new:
  assumes "distinct [MESSAGE_LOGIN_BASE_MSG conf, MESSAGE_LOGIN_HEARTBEAT_MSG conf,
      MESSAGE_LOGIN_LOGIN_MSG conf, MESSAGE_LOGIN_LOGIN_CHARACTER_MSG conf]" and "types tid = None"
  shows "login_register conf now garbage tid types = types(tid \<mapsto>
    [MESSAGE_LOGIN_BASE_MSG conf \<mapsto> LoginTimestamp (new_TimestampMessage now),
     MESSAGE_LOGIN_HEARTBEAT_MSG conf \<mapsto> LoginHeartBeat (new_HeartBeatPacket now),
     MESSAGE_LOGIN_LOGIN_MSG conf \<mapsto> LoginRequest (new_LoginRequestMessage now),
     MESSAGE_LOGIN_LOGIN_CHARACTER_MSG conf \<mapsto> LoginCharacterRequest (new_LoginCharacterRequestMessage now garbage)])"
  using assms by (auto simp: login_register_def registerMessageType_def Let_def)

lemma started_inv: "server_inv s \<Longrightarrow> server_inv (addToBlacklist ips (snd (linkTimer timer s)))"
  using server_inv_cong [of "addToBlacklist ips (snd (linkTimer timer s))" s]
  by (simp add: addToBlacklist_def linkTimer_def)


definition demo_machine :: machine where
  "demo_machine = \<lparr>m_sys = (\<lambda>log c. case c of SysSocket _ _ _ \<Rightarrow> SysResult 3 | _ \<Rightarrow> SysResult 0), m_hardware = 4,
     m_hash = length, m_handler = 7, m_revents = 0,
     m_poller = (\<lparr>mSettlement = 100, mAccumulatedMillisec = 0, mTouchedEventNum = 0, mRate = None,
       mDetectionIntervalInMilliseconds = 0, mTimeoutInMilliseconds = 0, mRestThresholdInseconds = 0,
       mEventHandlerHash = Map.empty, mEpollEvents_size = 16, kernel = Map.empty\<rparr>, Map.empty)\<rparr>"


section \<open>The address a service publishes\<close>

lemma gateway_register_new:
  assumes "distinct [MESSAGE_GATEWAY_BASE_MSG conf, MESSAGE_GATEWAY_HEARTBEAT_MSG conf, MESSAGE_GATEWAY_ENTER_GANE_MSG conf]"
    and "types tid = None"
  shows "gateway_register conf now garbage tid types = types(tid \<mapsto>
    [MESSAGE_GATEWAY_BASE_MSG conf \<mapsto> GatewayTimestamp (new_TimestampMessage now),
     MESSAGE_GATEWAY_HEARTBEAT_MSG conf \<mapsto> GatewayHeartBeat (new_HeartBeatPacket now),
     MESSAGE_GATEWAY_ENTER_GANE_MSG conf \<mapsto> EnterGameRequest (new_EnterGameRequestMessage now garbage)])"
  using assms by (auto simp: gateway_register_def registerMessageType_def Let_def)

lemma game_register_new:
  assumes "distinct [MESSAGE_GAME_BASE_MSG conf, MESSAGE_GAME_HEARTBEAT_MSG conf, MESSAGE_GAME_MSG conf,
      MESSAGE_GAME_CHARACTER_MSG conf]" and "types tid = None"
  shows "game_register conf now garbage garbage' tid types = types(tid \<mapsto>
    [MESSAGE_GAME_BASE_MSG conf \<mapsto> GameTimestamp (new_TimestampMessage now),
     MESSAGE_GAME_HEARTBEAT_MSG conf \<mapsto> GameHeartBeat (new_HeartBeatPacket now),
     MESSAGE_GAME_MSG conf \<mapsto> GameDS (new_DSMessage now garbage),
     MESSAGE_GAME_CHARACTER_MSG conf \<mapsto> GameCharacter (new_DSLoadOrUploadCharacterMessage now garbage')])"
  using assms by (auto simp: game_register_def registerMessageType_def Let_def)

text \<open>The gateway and the game server listen on the port they are given and know their address
  from the first line of the command's output; the close function is only set by the game server.\<close>

lemma gateway_server_ready:
  assumes "distinct [MESSAGE_GATEWAY_BASE_MSG conf, MESSAGE_GATEWAY_HEARTBEAT_MSG conf, MESSAGE_GATEWAY_ENTER_GANE_MSG conf]"
    and "m_poller m = (p, hs)" and "fd = sys_return (m_sys m [] (SysSocket PF_INET SOCK_STREAM IPPROTO_TCP))"
    and "mEventHandlerHash p fd = None" and "CHR 0x00 \<notin> set line" and "length line < 1023"
  shows "\<exists>su0. new_GatewayServer m conf (new_SocketAddr ip port) servName now garbage (line @ [CHR 0x0A]) = Inr su0 \<and>
    ss_ip su0 = line \<and> ss_port su0 = port \<and>
    (let su = GatewayServer_start m conf timer su0 in
      (\<forall>tid < wc_SERVER_IO_THREAD_NUM conf. \<exists>objs. ss_types su tid = Some objs \<and>
         dom objs = {MESSAGE_GATEWAY_BASE_MSG conf, MESSAGE_GATEWAY_HEARTBEAT_MSG conf, MESSAGE_GATEWAY_ENTER_GANE_MSG conf}) \<and>
      ss_tasks su = [StreamConsumer, SubscriptionConsumer] \<and> ServerCloseFunc \<notin> ss_functions su)"
proof -
  obtain ac calls where made: "(construct_TcpServer m (new_SocketAddr ip port) (wc_SERVER_IO_THREAD_NUM conf) servName
      (wc_SERVER_SAFE_HASH_BUCKET_SIZE conf) :: gateway_object server_setup result) = Inr
      \<lparr>ss_server = new_TcpServer servName (m_hardware m) (wc_SERVER_IO_THREAD_NUM conf) (wc_SERVER_SAFE_HASH_BUCKET_SIZE conf) (m_hash m),
       ss_acceptor = ac, ss_types = Map.empty, ss_functions = {}, ss_tasks = [],
       ss_port = 0, ss_ip = [], ss_calls = calls, ss_broker = []\<rparr>" (is "_ = Inr ?su")
    using construct_TcpServer_calls [OF assms(2-4)] by blast
  note types = register_types_new [of "gateway_register conf now garbage" _ ?su, OF gateway_register_new [OF assms(1)]]
  show ?thesis
    using made types Cmd_call_line [OF assms(5,6)]
    by (auto simp: new_GatewayServer_def GatewayServer_start_def Let_def start_listening_def
        setLongtimeTask_def set_functions_def initConnBlacklist_def link_timer_def)
qed

lemma game_server_ready:
  assumes "distinct [MESSAGE_GAME_BASE_MSG conf, MESSAGE_GAME_HEARTBEAT_MSG conf, MESSAGE_GAME_MSG conf,
      MESSAGE_GAME_CHARACTER_MSG conf]"
    and "m_poller m = (p, hs)" and "fd = sys_return (m_sys m [] (SysSocket PF_INET SOCK_STREAM IPPROTO_TCP))"
    and "mEventHandlerHash p fd = None" and "CHR 0x00 \<notin> set line" and "length line < 1023"
  shows "\<exists>su0. new_GameServer m conf (new_SocketAddr ip port) servName now garbage garbage' (line @ [CHR 0x0A]) = Inr su0 \<and>
    ss_ip su0 = line \<and> ss_port su0 = port \<and>
    (let su = GameServer_start m conf timer su0 in
      (\<forall>tid < gc_SERVER_IO_THREAD_NUM conf. \<exists>objs. ss_types su tid = Some objs \<and>
         dom objs = {MESSAGE_GAME_BASE_MSG conf, MESSAGE_GAME_HEARTBEAT_MSG conf, MESSAGE_GAME_MSG conf,
           MESSAGE_GAME_CHARACTER_MSG conf}) \<and>
      ss_tasks su = [StreamConsumer, SubscriptionConsumer] \<and> ServerCloseFunc \<in> ss_functions su)"
proof -
  obtain ac calls where made: "(construct_TcpServer m (new_SocketAddr ip port) (gc_SERVER_IO_THREAD_NUM conf) servName
      (gc_SERVER_SAFE_HASH_BUCKET_SIZE conf) :: game_object server_setup result) = Inr
      \<lparr>ss_server = new_TcpServer servName (m_hardware m) (gc_SERVER_IO_THREAD_NUM conf) (gc_SERVER_SAFE_HASH_BUCKET_SIZE conf) (m_hash m),
       ss_acceptor = ac, ss_types = Map.empty, ss_functions = {}, ss_tasks = [],
       ss_port = 0, ss_ip = [], ss_calls = calls, ss_broker = []\<rparr>" (is "_ = Inr ?su")
    using construct_TcpServer_calls [OF assms(2-4)] by blast
  note types = register_types_new [of "game_register conf now garbage garbage'" _ ?su, OF game_register_new [OF assms(1)]]
  show ?thesis
    using made types Cmd_call_line [OF assms(5,6)]
    by (auto simp: new_GameServer_def GameServer_start_def Let_def start_listening_def
        setLongtimeTask_def set_functions_def initConnBlacklist_def link_timer_def)
qed

section \<open>The subscription survives\<close>

text \<open>The commands \<^verbatim>\<open>expire\<close> of the service's key among the commands sent.\<close>

definition renewals :: "string \<Rightarrow> nat \<Rightarrow> log \<Rightarrow> redis_command list" where
  "renewals key ttl log = filter (\<lambda>c. c = EXPIRE key ttl) log"

lemma renewals_append [simp]: "renewals key ttl (xs @ ys) = renewals key ttl xs @ renewals key ttl ys"
  by (simp add: renewals_def)

lemma call_outcome: "\<exists>r. call f c srv log = (r, log @ [c]) \<and> (\<forall>e. r = Inl e \<longrightarrow> e = RedisError)"
  by (auto simp: call_def split: option.splits)

lemma on_message_heartbeat:
  assumes "getActiveConnectionNum s = Inr n"
  shows "\<exists>r log'. on_message hb key ttl loads hb s srv log = (r, log') \<and> (\<forall>e. r = Inl e \<longrightarrow> e = RedisError) \<and>
    renewals key ttl log' = renewals key ttl log @ [EXPIRE key ttl]"
proof -
  obtain r1 where r1: "call as_int (EXPIRE key ttl) srv log = (r1, log @ [EXPIRE key ttl])" "\<forall>e. r1 = Inl e \<longrightarrow> e = RedisError"
    using call_outcome by blast
  let ?z = "ZADD loads key (double_of_int (int n))"
  obtain r2 where r2: "call as_int ?z srv (log @ [EXPIRE key ttl]) = (r2, (log @ [EXPIRE key ttl]) @ [?z])"
    "\<forall>e. r2 = Inl e \<longrightarrow> e = RedisError"
    using call_outcome by blast
  show ?thesis
    using assms r1 r2 by (cases r1; cases r2) (auto simp: on_message_def renewals_def)
qed

text \<open>
  C39. A service stays registered as long as it is subscribed. Whatever the subscriber meets,
  messages of any kind, time-outs and errors of redis, also in its own commands, the loop goes on
  to the end, and it sends exactly one renewal of the service's key for each heartbeat message. It
  only relies on messages not being empty and on the pool of event loops being readable.
\<close>

theorem subscription_survives:
  assumes "hb \<noteq> ''''"
    and "\<forall>(ev, s)\<in>set evs. (\<forall>channel. ev \<noteq> OnMessage channel '''') \<and> (\<exists>n. getActiveConnectionNum s = Inr n)"
  shows "\<exists>log'. PSConsumerFunc (on_message hb key ttl loads) srv evs log = (Inr (), log') \<and>
    renewals key ttl log' = renewals key ttl log @
      replicate (length (filter (\<lambda>(ev, s). \<exists>channel. ev = OnMessage channel hb) evs)) (EXPIRE key ttl)"
  using assms(2)
proof (induction evs arbitrary: log)
  case Nil
  then show ?case by simp
next
  case (Cons x evs)
  obtain ev s where x: "x = (ev, s)" by (cases x)
  obtain n where n: "getActiveConnectionNum s = Inr n" using Cons.prems x by auto
  have rest: "\<exists>log'. PSConsumerFunc (on_message hb key ttl loads) srv evs l = (Inr (), log') \<and>
    renewals key ttl log' = renewals key ttl l @
      replicate (length (filter (\<lambda>(ev, s). \<exists>channel. ev = OnMessage channel hb) evs)) (EXPIRE key ttl)" for l
    using Cons by simp
  show ?case
  proof (cases "\<exists>channel. ev = OnMessage channel hb")
    case True
    then obtain channel where ev: "ev = OnMessage channel hb" by blast
    obtain r log1 where "on_message hb key ttl loads hb s srv log = (r, log1)" "\<forall>e. r = Inl e \<longrightarrow> e = RedisError"
      "renewals key ttl log1 = renewals key ttl log @ [EXPIRE key ttl]"
      using on_message_heartbeat [OF n] by blast
    then show ?thesis using rest [of log1] x ev by (cases r) (auto simp: ps_round_def)
  next
    case False
    have "PSConsumerFunc (on_message hb key ttl loads) srv (x # evs) log =
        PSConsumerFunc (on_message hb key ttl loads) srv evs log"
      using False Cons.prems x by (cases ev) (auto simp: ps_round_def on_message_def)
    then show ?thesis using rest [of log] False x by auto
  qed
qed

theorem subscription_survives_witness:
  "\<exists>log'. PSConsumerFunc (on_message ''SEND_HEARTBEAT'' ''g:ip:1'' 15 ''loads'') (\<lambda>log c. ErrorReply)
      [(OnMessage ''ch'' ''SEND_HEARTBEAT'', Tcp_Server.demo_server), (ErrorThrown, Tcp_Server.demo_server), (OnMessage ''ch'' ''+other'', Tcp_Server.demo_server),
       (TimeoutThrown, Tcp_Server.demo_server), (OnMessage ''ch'' ''SEND_HEARTBEAT'', Tcp_Server.demo_server)] [] = (Inr (), log') \<and>
    renewals ''g:ip:1'' 15 log' = [EXPIRE ''g:ip:1'' 15, EXPIRE ''g:ip:1'' 15]"
proof -
  have "\<exists>n. getActiveConnectionNum Tcp_Server.demo_server = Inr n"
    by (simp add: getActiveConnectionNum_def Tcp_Server.demo_server_def getEventLoop_def thread_at_def numeral_2_eq_2)
  then show ?thesis
    using subscription_survives [of "''SEND_HEARTBEAT''"
        "[(OnMessage ''ch'' ''SEND_HEARTBEAT'', Tcp_Server.demo_server), (ErrorThrown, Tcp_Server.demo_server), (OnMessage ''ch'' ''+other'', Tcp_Server.demo_server),
          (TimeoutThrown, Tcp_Server.demo_server), (OnMessage ''ch'' ''SEND_HEARTBEAT'', Tcp_Server.demo_server)]"
        "''g:ip:1''" 15 "''loads''" "\<lambda>log c. ErrorReply" "[]"]
    by (simp add: renewals_def numeral_2_eq_2)
qed

end
