(* ===== verification/Db_Types.thy ===== *)
theory Db_Types
  imports Database
begin

text \<open>
  The types of the documents. \<^verbatim>\<open>bsoncxx\<close> checks the type of an element only when it is read, so a
  field that is missing or of another type ends in an exception that no handler of
  \<^verbatim>\<open>mongocxx::exception\<close> catches. Here the two collections get a type, the operations of
  \<^verbatim>\<open>Database\<close> are checked against it, and a database that is only written by them is shown to be
  readable by all of them.
\<close>

section \<open>Types\<close>

text \<open>A document has at least the fields of its type; \<open>TEither\<close> is for the time of the last logout,
  a string until the first logout and a date afterwards.\<close>

datatype bson_type =
    TString | TInt32 | TDouble | TBool | TDate
  | TEither bson_type bson_type
  | TArray bson_type
  | TDocument "(string \<times> bson_type) list"

fun has_type :: "bson_type \<Rightarrow> bson \<Rightarrow> bool" and has_fields :: "(string \<times> bson_type) list \<Rightarrow> document \<Rightarrow> bool" where
  "has_type TString v = (case v of BString s \<Rightarrow> True | _ \<Rightarrow> False)"
| "has_type TInt32 v = (case v of BInt32 i \<Rightarrow> True | _ \<Rightarrow> False)"
| "has_type TDouble v = (case v of BDouble x \<Rightarrow> True | _ \<Rightarrow> False)"
| "has_type TBool v = (case v of BBool b \<Rightarrow> True | _ \<Rightarrow> False)"
| "has_type TDate v = (case v of BDate d \<Rightarrow> True | _ \<Rightarrow> False)"
| "has_type (TEither s t) v = (has_type s v \<or> has_type t v)"
| "has_type (TArray t) v = (case v of BArray xs \<Rightarrow> list_all (has_type t) xs | _ \<Rightarrow> False)"
| "has_type (TDocument fs) v = (case v of BDocument d \<Rightarrow> has_fields fs d | _ \<Rightarrow> False)"
| "has_fields [] d = True"
| "has_fields ((n, t) # fs) d = ((case field d n of None \<Rightarrow> False | Some v \<Rightarrow> has_type t v) \<and> has_fields fs d)"

definition entry_type :: bson_type where
  "entry_type = TDocument [(''character_name'', TString), (''character_level'', TInt32), (''character_gender'', TBool),
     (''character_occuption'', TInt32), (''character_state'', TInt32)]"

definition account_type :: bson_type where
  "account_type = TDocument [(''account'', TString), (''password'', TString), (''characters'', TArray entry_type),
     (''last_login_time'', TDate), (''last_logout_time'', TEither TString TDate), (''last_login_address'', TString),
     (''on_off'', TBool)]"

definition character_type :: bson_type where
  "character_type = TDocument [(''account'', TString),
     (''base_info'', TDocument [(''name'', TString), (''level'', TInt32), (''gender'', TBool), (''occuption'', TInt32),
        (''state'', TInt32)]),
     (''attribute'', TDocument [(''exp'', TInt32), (''health'', TInt32), (''mana'', TInt32), (''armor'', TInt32),
        (''stamina'', TInt32), (''strength'', TInt32), (''agility'', TInt32), (''intellect'', TInt32)]),
     (''location'', TDocument [(''scene_id'', TInt32), (''scene_x'', TDouble), (''scene_y'', TDouble), (''scene_z'', TDouble)])]"

text \<open>An update is checked at the paths it names: \<^verbatim>\<open>$set\<close> a value of the type there, \<^verbatim>\<open>$push\<close> an
  element of the array, \<^verbatim>\<open>$pull\<close> from an array. The step \<^verbatim>\<open>$\<close> of a path is the matched element.\<close>

fun path :: "string \<Rightarrow> string \<Rightarrow> string list" where
  "path acc [] = [rev acc]"
| "path acc (c # cs) = (if c = CHR ''.'' then rev acc # path [] cs else path (c # acc) cs)"

fun type_at :: "bson_type \<Rightarrow> string list \<Rightarrow> bson_type option" where
  "type_at t [] = Some t"
| "type_at (TDocument fs) (n # ns) = (case map_of fs n of None \<Rightarrow> None | Some t \<Rightarrow> type_at t ns)"
| "type_at (TArray t) (n # ns) = (if n = ''$'' then type_at t ns else None)"
| "type_at _ _ = None"

definition set_ok :: "bson_type \<Rightarrow> string \<times> bson \<Rightarrow> bool" where
  "set_ok t pv = (case type_at t (path [] (fst pv)) of None \<Rightarrow> False | Some t' \<Rightarrow> has_type t' (snd pv))"

definition push_ok :: "bson_type \<Rightarrow> string \<times> bson \<Rightarrow> bool" where
  "push_ok t pv = (case type_at t (path [] (fst pv)) of Some (TArray t') \<Rightarrow> has_type t' (snd pv) | _ \<Rightarrow> False)"

definition pull_ok :: "bson_type \<Rightarrow> string \<times> bson \<Rightarrow> bool" where
  "pull_ok t pv = (case type_at t (path [] (fst pv)) of Some (TArray t') \<Rightarrow> True | _ \<Rightarrow> False)"

definition update_ok :: "bson_type \<Rightarrow> document \<Rightarrow> bool" where
  "update_ok t u =
     list_all (\<lambda>(operator, arg). case arg of
         BDocument pvs \<Rightarrow>
           (if operator = ''$set'' then list_all (set_ok t) pvs
            else if operator = ''$push'' then list_all (push_ok t) pvs
            else operator = ''$pull'' \<and> list_all (pull_ok t) pvs)
       | _ \<Rightarrow> False) u"

section \<open>Commands and collections\<close>

definition collection_type :: "db_names \<Rightarrow> collection \<Rightarrow> bson_type option" where
  "collection_type op c =
     (if c = accounts op then Some account_type else if c = characters op then Some character_type else None)"

definition doc_ok :: "db_names \<Rightarrow> collection \<Rightarrow> document \<Rightarrow> bool" where
  "doc_ok op c d = (case collection_type op c of None \<Rightarrow> True | Some t \<Rightarrow> has_type t (BDocument d))"

definition change_ok :: "db_names \<Rightarrow> collection \<Rightarrow> document \<Rightarrow> bool" where
  "change_ok op c u = (case collection_type op c of None \<Rightarrow> True | Some t \<Rightarrow> update_ok t u)"

definition command_ok :: "db_names \<Rightarrow> mongo_command \<Rightarrow> bool" where
  "command_ok op cmd =
     (case cmd of
        INSERT_ONE s c d \<Rightarrow> doc_ok op c d
      | UPDATE_ONE s c q u \<Rightarrow> change_ok op c u
      | FIND_ONE_AND_UPDATE c q u \<Rightarrow> change_ok op c u
      | _ \<Rightarrow> True)"

text \<open>
  What MongoDB documents of its collections, as far as types go. \<open>stored log c\<close> are the documents
  in the collection after the commands. A document there was there after some earlier commands (a
  transaction can be rolled back), or is inserted by the last command, or is one of those changed by
  an update, which keeps a type as long as it is correct for it.
\<close>

definition typed_store :: "(mongo_log \<Rightarrow> collection \<Rightarrow> document set) \<Rightarrow> bool" where
  "typed_store stored =
     ((\<forall>c. stored [] c = {}) \<and>
      (\<forall>log cmd c d. d \<in> stored (log @ [cmd]) c \<longrightarrow>
         (\<exists>past later. log = past @ later \<and>
            (d \<in> stored past c \<or> (\<exists>s. cmd = INSERT_ONE s c d) \<or>
             (\<exists>d0\<in>stored past c. \<exists>u. ((\<exists>s q. cmd = UPDATE_ONE s c q u) \<or> (\<exists>q. cmd = FIND_ONE_AND_UPDATE c q u)) \<and>
                (\<forall>t. update_ok t u \<longrightarrow> has_type t (BDocument d0) \<longrightarrow> has_type t (BDocument d)))))))"

text \<open>And of its replies: whole documents come from the collection, \<^verbatim>\<open>$slice\<close> gives a part of an array,
  \<^verbatim>\<open>$size\<close> a number.\<close>

definition replies_stored :: "mongo \<Rightarrow> (mongo_log \<Rightarrow> collection \<Rightarrow> document set) \<Rightarrow> bool" where
  "replies_stored db stored =
     ((\<forall>log c q d. mg_reply db log (FIND_ONE c q None) = Found (Some d) \<longrightarrow> d \<in> stored log c) \<and>
      (\<forall>log c q u d. mg_reply db log (FIND_ONE_AND_UPDATE c q u) = Found (Some d) \<longrightarrow> d \<in> stored log c) \<and>
      (\<forall>log c q n f rest ds d. mg_reply db log (AGGREGATE c q
           [(n, BDocument [(''$slice'', BArray (BString (CHR ''$'' # f) # rest))])]) = Cursor ds \<longrightarrow> d \<in> set ds \<longrightarrow>
         (\<exists>d0\<in>stored log c. \<forall>xs. field d0 f = Some (BArray xs) \<longrightarrow>
            (\<exists>ys. field d n = Some (BArray ys) \<and> set ys \<subseteq> set xs))) \<and>
      (\<forall>log c q n f ds d. mg_reply db log (AGGREGATE c q
           [(n, BDocument [(''$size'', BString (CHR ''$'' # f))])]) = Cursor ds \<longrightarrow> d \<in> set ds \<longrightarrow>
         (\<exists>d0\<in>stored log c. \<forall>xs. field d0 f = Some (BArray xs) \<longrightarrow> (\<exists>k. field d n = Some (BInt32 k)))))"

section \<open>What the code writes\<close>

lemma new_account_typed: "has_type account_type (BDocument (makeDocNewAccount n p a now))"
  by (simp add: account_type_def entry_type_def makeDocNewAccount_def)

lemma new_character_typed: "has_type character_type (BDocument (makeDocNewCharacter m))"
  by (simp add: character_type_def makeDocNewCharacter_def Let_def split: prod.split)

text \<open>The overload for the schema writes no attribute and no location, which loading the character
  looks for.\<close>

lemma schema_character_unreadable:
  "\<not> has_type character_type (BDocument (makeDocNewCharacter_schema a b)) \<and>
   read_character_info n m (makeDocNewCharacter_schema a b) = Inl BsonError"
  by (simp add: character_type_def makeDocNewCharacter_schema_def read_character_info_def)

lemma account_updates_typed:
  "update_ok account_type (makeDocAccountInsertNewCharacter m)"
  "update_ok account_type (makeDocAccountUpdateCharacter b)"
  "update_ok account_type (makeDocAccountLogout now)"
  "update_ok account_type (makeDocAccountRemoveCharacter n)"
  "update_ok account_type (login_update on now)"
  by (simp_all add: update_ok_def set_ok_def push_ok_def pull_ok_def account_type_def entry_type_def
      makeDocAccountInsertNewCharacter_def makeDocAccountUpdateCharacter_def makeDocAccountLogout_def
      makeDocAccountRemoveCharacter_def login_update_def)

lemma character_updates_typed: "update_ok character_type (makeDocUpdateCharacter info)"
  by (simp add: update_ok_def set_ok_def character_type_def makeDocUpdateCharacter_def)

section \<open>Only correct commands are sent\<close>

definition all_ok :: "db_names \<Rightarrow> mongo_log \<Rightarrow> bool" where
  "all_ok op log = list_all (command_ok op) log"

lemma all_ok_simps [simp]:
  "all_ok op []"
  "all_ok op (xs @ ys) \<longleftrightarrow> all_ok op xs \<and> all_ok op ys"
  "all_ok op (cmd # cmds) \<longleftrightarrow> command_ok op cmd \<and> all_ok op cmds"
  by (simp_all add: all_ok_def)

lemma harmless_ok [simp]:
  "command_ok op ACQUIRE" "command_ok op START_SESSION" "command_ok op START_TRANSACTION"
  "command_ok op COMMIT_TRANSACTION" "command_ok op ABORT_TRANSACTION" "command_ok op (FIND_ONE c q p)"
  "command_ok op (AGGREGATE c q st)" "command_ok op (DELETE_ONE s c q)" "command_ok op (CREATE_INDEX c k u)"
  by (simp_all add: command_ok_def)

lemma writes_ok [simp]:
  "command_ok op (INSERT_ONE s c d) \<longleftrightarrow> doc_ok op c d"
  "command_ok op (UPDATE_ONE s c q u) \<longleftrightarrow> change_ok op c u"
  "command_ok op (FIND_ONE_AND_UPDATE c q u) \<longleftrightarrow> change_ok op c u"
  by (simp_all add: command_ok_def)

lemma change_accounts [simp]: "change_ok op (accounts op) u \<longleftrightarrow> update_ok account_type u"
  by (simp add: change_ok_def collection_type_def)

lemma doc_accounts [simp]: "doc_ok op (accounts op) d \<longleftrightarrow> has_type account_type (BDocument d)"
  by (simp add: doc_ok_def collection_type_def)

lemma of_characters:
  assumes "accounts op \<noteq> characters op"
  shows "change_ok op (characters op) u \<longleftrightarrow> update_ok character_type u"
    "doc_ok op (characters op) d \<longleftrightarrow> has_type character_type (BDocument d)"
  using assms by (simp_all add: change_ok_def doc_ok_def collection_type_def)

lemma stored_typed:
  assumes "typed_store stored"
  shows "all_ok op log \<Longrightarrow> d \<in> stored log c \<Longrightarrow> doc_ok op c d"
proof (induction "length log" arbitrary: log d rule: less_induct)
  case less
  show ?case
  proof (cases log rule: rev_cases)
    case Nil
    moreover have "stored [] c = {}" using assms unfolding typed_store_def by blast
    ultimately show ?thesis using less.prems by simp
  next
    case (snoc cmds cmd)
    with less.prems(2) assms obtain past later where past: "cmds = past @ later"
      and c: "d \<in> stored past c \<or> (\<exists>s. cmd = INSERT_ONE s c d) \<or>
        (\<exists>d0\<in>stored past c. \<exists>u. ((\<exists>s q. cmd = UPDATE_ONE s c q u) \<or> (\<exists>q. cmd = FIND_ONE_AND_UPDATE c q u)) \<and>
          (\<forall>t. update_ok t u \<longrightarrow> has_type t (BDocument d0) \<longrightarrow> has_type t (BDocument d)))"
      unfolding typed_store_def by blast
    have old: "doc_ok op c x" if "x \<in> stored past c" for x
      using less.hyps [of past x] that less.prems(1) snoc past by simp
    have ok: "command_ok op cmd" using less.prems(1) snoc by simp
    from c show ?thesis
    proof (elim disjE)
      assume "\<exists>d0\<in>stored past c. \<exists>u. ((\<exists>s q. cmd = UPDATE_ONE s c q u) \<or> (\<exists>q. cmd = FIND_ONE_AND_UPDATE c q u)) \<and>
          (\<forall>t. update_ok t u \<longrightarrow> has_type t (BDocument d0) \<longrightarrow> has_type t (BDocument d))"
      then obtain d0 u where u: "d0 \<in> stored past c" "change_ok op c u"
        "\<And>t. update_ok t u \<Longrightarrow> has_type t (BDocument d0) \<Longrightarrow> has_type t (BDocument d)"
        using ok by auto
      then show ?thesis using old [OF u(1)] by (auto simp: doc_ok_def change_ok_def split: option.splits)
    qed (use old ok in auto)
  qed
qed

text \<open>A callback that only sends correct commands does so however often it is called.\<close>

definition sends_ok :: "db_names \<Rightarrow> transaction_cb \<Rightarrow> bool" where
  "sends_ok op cb = (\<forall>v log. all_ok op log \<longrightarrow> all_ok op (snd (snd (cb (v, log)))))"

lemma sends_okD: "sends_ok op cb \<Longrightarrow> cb (v, log) = (r, v', log') \<Longrightarrow> all_ok op log \<Longrightarrow> all_ok op log'"
  unfolding sends_ok_def by (metis snd_conv)

lemma transaction_ok:
  assumes "sends_ok op cb"
  shows "transaction_run reply cb st out \<Longrightarrow> all_ok op (snd st) \<Longrightarrow> all_ok op (snd (snd out))"
    and "commit_run reply cb st out \<Longrightarrow> all_ok op (snd st) \<Longrightarrow> all_ok op (snd (snd out))"
proof (induction rule: transaction_run_commit_run.inducts)
  case (callback_throws v log code v' log')
  then show ?case using sends_okD [OF assms callback_throws(1)] by simp
next
  case (callback_again v log code v' log' out)
  then show ?case using sends_okD [OF assms callback_again(1)] by simp
next
  case (callback_returns v log v' log' out)
  then show ?case using sends_okD [OF assms callback_returns(1)] by simp
qed simp_all

lemma with_transaction_ok:
  assumes "transactional db" and "sends_ok op cb" and "mg_with_transaction db cb (v, log) = (r, v', log')" and "all_ok op log"
  shows "all_ok op log'"
proof -
  have "transaction_run (mg_reply db) cb (v, log) (r, v', log')" using assms(1,3) by (metis transactional_def)
  then show ?thesis using transaction_ok(1) [OF assms(2)] assms(4) by fastforce
qed

section \<open>What the code reads\<close>

text \<open>An element of a type, and that its fields have theirs.\<close>

definition elem_ok :: "bson_type \<Rightarrow> element \<Rightarrow> bool" where
  "elem_ok t e = (case e of None \<Rightarrow> False | Some v \<Rightarrow> has_type t v)"

lemma fields_ok: "has_fields fs d \<Longrightarrow> map_of fs n = Some t \<Longrightarrow> elem_ok t (field d n)"
  by (induction fs) (auto simp: elem_ok_def split: option.splits if_splits)

lemma field_ok: "has_type (TDocument fs) (BDocument d) \<Longrightarrow> map_of fs n = Some t \<Longrightarrow> elem_ok t (field d n)"
  by (simp add: fields_ok)

lemma subfield_ok: "elem_ok (TDocument fs) e \<Longrightarrow> map_of fs n = Some t \<Longrightarrow> elem_ok t (subfield e n)"
  by (cases e) (auto simp: elem_ok_def fields_ok [unfolded elem_ok_def] split: bson.splits)

lemma get_ok:
  "elem_ok TString e \<Longrightarrow> \<exists>s. get_string e = Inr s"
  "elem_ok TInt32 e \<Longrightarrow> \<exists>i. get_int32 e = Inr i"
  "elem_ok TBool e \<Longrightarrow> \<exists>b. get_bool e = Inr b"
  "elem_ok TDouble e \<Longrightarrow> \<exists>x. get_double e = Inr x"
  "elem_ok (TArray t) e \<Longrightarrow> \<exists>xs. e = Some (BArray xs) \<and> get_array e = Inr xs \<and> list_all (has_type t) xs"
  by (auto simp: elem_ok_def split: option.splits bson.splits)

lemma read_entry:
  assumes "elem_ok entry_type e"
  shows "\<exists>x. get_string (subfield e ''character_name'') = Inr x" "\<exists>x. read_schema_base_info garbage e = Inr x"
    "\<exists>x. read_base_info name e = Inr x"
proof -
  note f = subfield_ok [OF assms [unfolded entry_type_def]]
  obtain n l g oc st where "get_string (subfield e ''character_name'') = Inr n"
    "get_int32 (subfield e ''character_level'') = Inr l" "get_bool (subfield e ''character_gender'') = Inr g"
    "get_int32 (subfield e ''character_occuption'') = Inr oc" "get_int32 (subfield e ''character_state'') = Inr st"
    using get_ok(1) [OF f] get_ok(2) [OF f] get_ok(3) [OF f] by fastforce
  then show "\<exists>x. get_string (subfield e ''character_name'') = Inr x" "\<exists>x. read_schema_base_info garbage e = Inr x"
    "\<exists>x. read_base_info name e = Inr x"
    by (simp_all add: read_schema_base_info_def read_base_info_def)
qed

section \<open>Every operation is safe\<close>

text \<open>No exception of \<^verbatim>\<open>bsoncxx\<close>, and only correct commands.\<close>

definition safe :: "db_names \<Rightarrow> 'a result \<times> mongo_log \<Rightarrow> bool" where
  "safe op s = (fst s \<noteq> Inl BsonError \<and> all_ok op (snd s))"

lemma safe_simps [simp]:
  "safe op (Inr x, log) \<longleftrightarrow> all_ok op log"
  "safe op (Inl e, log) \<longleftrightarrow> e \<noteq> BsonError \<and> all_ok op log"
  by (simp_all add: safe_def)

lemma safe_followed:
  assumes "safe op s" and "\<And>x log. s = (Inr x, log) \<Longrightarrow> all_ok op log \<Longrightarrow> safe op (f x log)"
  shows "safe op (and_then s f)"
  using assms by (cases s; cases "fst s") (auto simp: and_then_def)

lemma safe_uncaught:
  assumes "all_ok op log" and "command_ok op cmd"
  shows "safe op (uncaught (mcall sel cmd db log))"
  using assms by (simp add: mcall_def uncaught_def split: option.split)

lemma safe_client:
  assumes "all_ok op log" and "none \<noteq> Inl BsonError" and "\<And>log. all_ok op log \<Longrightarrow> safe op (f log)"
  shows "safe op (with_pool_client db log none f)"
  using assms by (cases none) (auto simp: with_pool_client_def acquire_def)

lemma safe_catching:
  assumes "all_ok op log" and "command_ok op cmd"
    and "\<And>x. mcall sel cmd db log = (Inr x, log @ [cmd]) \<Longrightarrow> fst (f x (log @ [cmd])) \<noteq> Inr (Inl BsonError) \<and>
      all_ok op (snd (f x (log @ [cmd])))"
  shows "safe op (catching h (mthen (mcall sel cmd db log) f))"
proof (cases "sel (mg_reply db log cmd)")
  case None
  then show ?thesis using assms(1,2) by (simp add: mcall_def)
next
  case (Some x)
  then have m: "mcall sel cmd db log = (Inr x, log @ [cmd])" by (simp add: mcall_def)
  obtain r log' where f: "f x (log @ [cmd]) = (r, log')" by (cases "f x (log @ [cmd])")
  show ?thesis using assms(3) [OF m] f m by (cases r) (auto simp: safe_def)
qed

lemma insert_cb_ok:
  assumes "update_ok account_type u" and "doc_ok op (characters op) d"
  shows "sends_ok op (insert_cb db op n u d)"
  using assms by (auto simp: sends_ok_def insert_cb_def mthen_def mcall_def split: option.splits sum.splits prod.splits)

lemma remove_cb_ok: "sends_ok op (remove_cb db op a n)"
  by (auto simp: sends_ok_def remove_cb_def mthen_def mcall_def account_updates_typed
      split: option.splits sum.splits prod.splits if_splits)

lemma update_cb_ok:
  assumes "accounts op \<noteq> characters op"
  shows "sends_ok op (update_cb db op info isLast)"
  by (auto simp: sends_ok_def update_cb_def Let_def mthen_def mcall_def account_updates_typed of_characters [OF assms]
      character_updates_typed split: option.splits sum.splits prod.splits if_splits)

lemma safe_transaction:
  assumes "transactional db" and "sends_ok op cb" and "all_ok op log"
    and "\<And>v log. all_ok op log \<Longrightarrow> safe op (g v log)" and "\<And>code v log. all_ok op log \<Longrightarrow> safe op (h code v log)"
  shows "safe op (case mg_with_transaction db cb (v0, log) of
      (Inr _, v, log) \<Rightarrow> g v log | (Inl code, v, log) \<Rightarrow> h code v log)"
proof -
  obtain r v log' where t: "mg_with_transaction db cb (v0, log) = (r, v, log')" by (metis prod_cases3)
  then have "all_ok op log'" using with_transaction_ok [OF assms(1,2) t assms(3)] by simp
  then show ?thesis using t assms(4,5) by (cases r) simp_all
qed

lemma safe_session:
  assumes "transactional db" and "sends_ok op cb" and "all_ok op log"
    and "\<And>v log. all_ok op log \<Longrightarrow> safe op (g v log)" and "\<And>code v log. all_ok op log \<Longrightarrow> safe op (h code v log)"
  shows "safe op (and_then (uncaught (mcall as_done START_SESSION db log)) (\<lambda>_ log.
    case mg_with_transaction db cb (v0, log) of (Inr _, v, log) \<Rightarrow> g v log | (Inl code, v, log) \<Rightarrow> h code v log))"
  using assms(3)
  by (intro safe_followed safe_uncaught safe_transaction [OF assms(1,2) _ assms(4,5)]) simp_all

lemma safe_insert_character:
  assumes "transactional db" and "update_ok account_type u" and "doc_ok op (characters op) d" and "all_ok op log"
  shows "safe op (insert_character db op a n u d log)"
  unfolding insert_character_def
proof (rule safe_followed [OF safe_uncaught])
  fix x :: "document option" and log :: mongo_log
  assume log: "all_ok op log"
  note session = safe_session [OF assms(1) insert_cb_ok [OF assms(2,3)] log]
  show "safe op (if x \<noteq> None then (Inr 0, log)
     else and_then (uncaught (mcall as_done START_SESSION db log)) (\<lambda>_ log.
       case mg_with_transaction db (insert_cb db op a u d) (0, log) of
         (Inr _, _, log) \<Rightarrow> (Inr 1, log) | (Inl code, _, log) \<Rightarrow> (Inr (duplicate_code code), log)))"
    by (cases "x = None") (use log in \<open>simp_all add: session\<close>)
qed (use assms(4) in simp_all)

lemma safe_addNewCharacter:
  assumes "transactional db" and "accounts op \<noteq> characters op" and "all_ok op log"
  shows "safe op (AccountOp_addNewCharacter db op m log)"
  unfolding AccountOp_addNewCharacter_def
  by (intro safe_client safe_insert_character assms)
     (simp_all add: account_updates_typed of_characters [OF assms(2)] new_character_typed)

lemma safe_removeCharacter:
  assumes "transactional db" and "all_ok op log"
  shows "safe op (AccountOp_removeCharacter db op a n log)"
  unfolding AccountOp_removeCharacter_def
proof (rule safe_client)
  fix log :: mongo_log assume log: "all_ok op log"
  note session = safe_session [OF assms(1) remove_cb_ok log]
  show "safe op (if a = n then (Inr (-1), log)
    else and_then (uncaught (mcall as_done START_SESSION db log)) (\<lambda>_ log.
      case mg_with_transaction db (remove_cb db op a n) (0, log) of
        (Inr _, removeResultCode, log) \<Rightarrow> (Inr removeResultCode, log) | (Inl _, _, log) \<Rightarrow> (Inr (-1), log)))"
    by (cases "a = n") (use log in \<open>simp_all add: session\<close>)
qed (use assms(2) in simp_all)

lemma safe_updateCharacter:
  assumes "transactional db" and "accounts op \<noteq> characters op" and "all_ok op log"
  shows "safe op (AccountOp_updateCharacter db op info isLast log)"
  unfolding AccountOp_updateCharacter_def
proof (intro safe_client safe_followed [OF safe_uncaught])
  fix log :: mongo_log and x :: "document option"
  assume log: "all_ok op log"
  note session = safe_session [OF assms(1) update_cb_ok [OF assms(2)] log]
  show "safe op (if x = None then (Inr 0, log)
    else and_then (uncaught (mcall as_done START_SESSION db log)) (\<lambda>_ log.
      case mg_with_transaction db (update_cb db op info isLast) (0, log) of
        (Inr _, _, log) \<Rightarrow> (Inr 1, log) | (Inl _, _, log) \<Rightarrow> (Inr (-1), log)))"
    by (cases "x = None") (use log in \<open>simp_all add: session\<close>)
qed (use assms(3) in simp_all)

lemma safe_createIndexes:
  assumes "all_ok op log"
  shows "safe op (AccountOp_createIndex db op log)" "safe op (CharacterOp_createIndex db op log)"
  unfolding AccountOp_createIndex_def CharacterOp_createIndex_def
  by (intro safe_client assms safe_catching; simp add: mcall_def mthen_def split: option.split)+

lemma safe_addNewAccount: "all_ok op log \<Longrightarrow> safe op (AccountOp_addNewAccount db op n p a log)"
  unfolding AccountOp_addNewAccount_def
  by (intro safe_client safe_catching) (simp_all add: new_account_typed)

lemma safe_found_code: "all_ok op log \<Longrightarrow> safe op (found_code db op q log)"
  unfolding found_code_def by (intro safe_client safe_catching) simp_all

lemma stored_account:
  assumes "typed_store stored" and "all_ok op log" and "d \<in> stored log (accounts op)"
  shows "\<exists>b. get_bool (field d ''on_off'') = Inr b" "\<exists>xs. field d ''characters'' = Some (BArray xs) \<and> list_all (has_type entry_type) xs"
proof -
  have "has_type account_type (BDocument d)" using stored_typed [OF assms] by simp
  note f = field_ok [OF this [unfolded account_type_def]]
  show "\<exists>b. get_bool (field d ''on_off'') = Inr b" using f [of "''on_off''"] get_ok(3) by simp
  have "elem_ok (TArray entry_type) (field d ''characters'')" using f by simp
  from get_ok(5) [OF this]
  show "\<exists>xs. field d ''characters'' = Some (BArray xs) \<and> list_all (has_type entry_type) xs" by blast
qed

lemma replies_login:
  assumes "replies_stored db stored" and "mg_reply db log (FIND_ONE_AND_UPDATE c q u) = Found (Some d)"
  shows "d \<in> stored log c"
proof -
  have "\<forall>log c q u d. mg_reply db log (FIND_ONE_AND_UPDATE c q u) = Found (Some d) \<longrightarrow> d \<in> stored log c"
    using assms(1) unfolding replies_stored_def by (elim conjE) assumption
  then show ?thesis using assms(2) by blast
qed

lemma replies_slice:
  assumes "replies_stored db stored" and "mg_reply db log (AGGREGATE c q slice_characters) = Cursor ds" and "d \<in> set ds"
  shows "\<exists>d0\<in>stored log c. \<forall>xs. field d0 ''characters'' = Some (BArray xs) \<longrightarrow>
    (\<exists>ys. field d ''character member'' = Some (BArray ys) \<and> set ys \<subseteq> set xs)"
proof -
  have "\<forall>log c q n f rest ds d. mg_reply db log (AGGREGATE c q
           [(n, BDocument [(''$slice'', BArray (BString (CHR ''$'' # f) # rest))])]) = Cursor ds \<longrightarrow> d \<in> set ds \<longrightarrow>
         (\<exists>d0\<in>stored log c. \<forall>xs. field d0 f = Some (BArray xs) \<longrightarrow>
            (\<exists>ys. field d n = Some (BArray ys) \<and> set ys \<subseteq> set xs))"
    using assms(1) unfolding replies_stored_def by (elim conjE) assumption
  from this [rule_format, of log c q "''character member''" "''characters''" "[BInt32 1, BInt32 100]" ds d]
  show ?thesis using assms(2,3) by (simp add: slice_characters_def)
qed

lemma replies_size:
  assumes "replies_stored db stored" and "mg_reply db log (AGGREGATE c q
      [(''character num'', BDocument [(''$size'', BString ''$characters'')])]) = Cursor ds" and "d \<in> set ds"
  shows "\<exists>d0\<in>stored log c. \<forall>xs. field d0 ''characters'' = Some (BArray xs) \<longrightarrow>
    (\<exists>k. field d ''character num'' = Some (BInt32 k))"
proof -
  have "\<forall>log c q n f ds d. mg_reply db log (AGGREGATE c q
           [(n, BDocument [(''$size'', BString (CHR ''$'' # f))])]) = Cursor ds \<longrightarrow> d \<in> set ds \<longrightarrow>
         (\<exists>d0\<in>stored log c. \<forall>xs. field d0 f = Some (BArray xs) \<longrightarrow> (\<exists>k. field d n = Some (BInt32 k)))"
    using assms(1) unfolding replies_stored_def by (elim conjE) assumption
  from this [rule_format, of log c q "''character num''" "''characters''" ds d]
  show ?thesis using assms(2,3) by simp
qed

lemma safe_login:
  assumes "typed_store stored" and "replies_stored db stored" and "all_ok op log"
  shows "safe op (AccountOp_matchAccountAndUpdateLoginState db op n p on log)"
  unfolding AccountOp_matchAccountAndUpdateLoginState_def
proof (intro safe_client safe_catching conjI)
  fix log :: mongo_log and x :: "document option" and now
  let ?cmd = "FIND_ONE_AND_UPDATE (accounts op) [(''account'', BString n), (''password'', BString p)] (login_update on now)"
  assume log: "all_ok op log" and found: "mcall as_found ?cmd db log = (Inr x, log @ [?cmd])"
  have "\<exists>b. get_bool (field d ''on_off'') = Inr b" if "x = Some d" for d
  proof -
    have "mg_reply db log ?cmd = Found (Some d)"
      using found that by (cases "mg_reply db log ?cmd") (simp_all add: mcall_def)
    from replies_login [OF assms(2) this]
    show ?thesis using stored_account(1) [OF assms(1) log] by blast
  qed
  then show "fst (Inr (case x of None \<Rightarrow> Inr 0
      | Some d \<Rightarrow> rbind (get_bool (field d ''on_off'')) (\<lambda>oldState. Inr (if oldState then 2 else 1))), log @ [?cmd])
    \<noteq> (Inr (Inl BsonError) :: int + int result)"
    by (auto split: option.split)
qed (use assms(3) in \<open>simp_all add: account_updates_typed\<close>)

lemma read_all_entries:
  assumes "\<And>e. elem_ok entry_type e \<Longrightarrow> \<exists>x. rd e = Inr x" and "list_all (has_type entry_type) xs"
  shows "\<exists>ys. read_all rd xs = Inr ys"
  using assms(2)
proof (induction xs)
  case (Cons x xs)
  then obtain y ys where "rd (Some x) = Inr y" "read_all rd xs = Inr ys"
    using assms(1) [of "Some x"] by (auto simp: elem_ok_def)
  then show ?case by simp
qed simp

lemma safe_all_characters:
  assumes "typed_store stored" and "replies_stored db stored" and "all_ok op log"
    and "\<And>e. elem_ok entry_type e \<Longrightarrow> \<exists>x. rd e = Inr x"
  shows "safe op (all_characters rd db op n log)"
  unfolding all_characters_def
proof (intro safe_client safe_catching conjI)
  fix log :: mongo_log and ds
  let ?cmd = "AGGREGATE (accounts op) (match_account n) slice_characters"
  assume log: "all_ok op log" and found: "mcall as_cursor ?cmd db log = (Inr ds, log @ [?cmd])"
  have "\<exists>ys. get_array (field d ''character member'') = Inr ys \<and> list_all (has_type entry_type) ys" if "d \<in> set ds" for d
  proof -
    have "mg_reply db log ?cmd = Cursor ds"
      using found by (cases "mg_reply db log ?cmd") (simp_all add: mcall_def)
    from replies_slice [OF assms(2) this that] obtain d0 where d0: "d0 \<in> stored log (accounts op)"
      "\<forall>xs. field d0 ''characters'' = Some (BArray xs) \<longrightarrow>
        (\<exists>ys. field d ''character member'' = Some (BArray ys) \<and> set ys \<subseteq> set xs)" by blast
    then show ?thesis using stored_account(2) [OF assms(1) log d0(1)] by (fastforce simp: list_all_iff)
  qed
  moreover have "\<exists>zs. read_all rd ys = Inr zs" if "list_all (has_type entry_type) ys" for ys
    using read_all_entries [OF assms(4) that] by simp
  ultimately show "fst (Inr (case ds of [] \<Rightarrow> Inr (Some [])
      | d # _ \<Rightarrow> rbind (get_array (field d ''character member'')) (\<lambda>characterArray.
          rbind (read_all rd characterArray) (\<lambda>res. Inr (Some res)))), log @ [?cmd]) \<noteq> Inr (Inl BsonError)"
    by (cases ds) fastforce+
qed (use assms(3) in simp_all)

lemma safe_getCharacterNum:
  assumes "typed_store stored" and "replies_stored db stored" and "all_ok op log"
  shows "safe op (AccountOp_getCharacterNum db op n log)"
  unfolding AccountOp_getCharacterNum_def
proof (intro safe_client safe_catching conjI)
  fix log :: mongo_log and ds
  let ?cmd = "AGGREGATE (accounts op) (match_account n) [(''character num'', BDocument [(''$size'', BString ''$characters'')])]"
  assume log: "all_ok op log" and found: "mcall as_cursor ?cmd db log = (Inr ds, log @ [?cmd])"
  have "\<exists>k. get_int32 (field d ''character num'') = Inr k" if "d \<in> set ds" for d
  proof -
    have "mg_reply db log ?cmd = Cursor ds"
      using found by (cases "mg_reply db log ?cmd") (simp_all add: mcall_def)
    from replies_size [OF assms(2) this that] obtain d0 where d0: "d0 \<in> stored log (accounts op)"
      "\<forall>xs. field d0 ''characters'' = Some (BArray xs) \<longrightarrow> (\<exists>k. field d ''character num'' = Some (BInt32 k))" by blast
    then show ?thesis using stored_account(2) [OF assms(1) log d0(1)] by fastforce
  qed
  then show "fst (Inr (case ds of [] \<Rightarrow> Inr 0
      | d # _ \<Rightarrow> rbind (get_int32 (field d ''character num'')) (\<lambda>n. Inr (sint (n - 1)))), log @ [?cmd]) \<noteq> Inr (Inl BsonError)"
    by (cases ds) fastforce+
qed (use assms(3) in simp_all)

lemma catch_all_Inr: "catch_all r \<noteq> Inl e"
  by (simp add: catch_all_def split: sum.split)

lemma safe_getOne:
  assumes "all_ok op log"
  shows "safe op (AccountOp_getOneCharacterBaseInfoFill2Message db op a n log)"
    "safe op (CharacterOp_getOneCharacterInfoFill2Message db op a n log)"
  unfolding AccountOp_getOneCharacterBaseInfoFill2Message_def CharacterOp_getOneCharacterInfoFill2Message_def
  by (intro safe_client safe_catching; simp add: assms catch_all_Inr split: option.split)+

section \<open>A run of requests\<close>

datatype db_request =
    CreateIndex
  | AddNewAccount string string string
  | AddNewCharacter login_character_request_message
  | RemoveCharacter string string
  | UpdateCharacter character_info bool
  | GetCharacterNum string
  | GetAllCharacterName string
  | GetAllCharacterBaseInfo bool string
  | GetAllCharacterBaseInfoFill2Message string
  | GetOneCharacterBaseInfoFill2Message string string
  | GetOneCharacterInfoFill2Message string string
  | MatchAccount string string
  | MatchAccountAndUpdateLoginState string string bool
  | MatchAccountAndCharacter string string

definition finished :: "'a result \<times> mongo_log \<Rightarrow> unit result \<times> mongo_log" where
  "finished s = (rbind (fst s) (\<lambda>_. Inr ()), snd s)"

fun run_request :: "mongo \<Rightarrow> database \<Rightarrow> db_request \<Rightarrow> mongo_log \<Rightarrow> unit result \<times> mongo_log" where
  "run_request db d CreateIndex log = finished (Database_createIndex db d log)"
| "run_request db d (AddNewAccount n p a) log = finished (Database_addNewAccount db d n p a log)"
| "run_request db d (AddNewCharacter m) log = finished (Database_addNewCharacter db d m log)"
| "run_request db d (RemoveCharacter a n) log = finished (Database_removeCharacter db d a n log)"
| "run_request db d (UpdateCharacter i isLast) log = finished (Database_updateCharacter db d i isLast log)"
| "run_request db d (GetCharacterNum n) log = finished (Database_getCharacterNum db d n log)"
| "run_request db d (GetAllCharacterName n) log = finished (Database_getAllCharacterName db d n log)"
| "run_request db d (GetAllCharacterBaseInfo g n) log = finished (Database_getAllCharacterBaseInfo g db d n log)"
| "run_request db d (GetAllCharacterBaseInfoFill2Message n) log =
     finished (Database_getAllCharacterBaseInfoFill2Message db d n log)"
| "run_request db d (GetOneCharacterBaseInfoFill2Message a n) log =
     finished (Database_getOneCharacterBaseInfoFill2Message db d a n log)"
| "run_request db d (GetOneCharacterInfoFill2Message a n) log =
     finished (Database_getOneCharacterInfoFill2Message db d a n log)"
| "run_request db d (MatchAccount n p) log = finished (Database_matchAccount db d n p log)"
| "run_request db d (MatchAccountAndUpdateLoginState n p on) log =
     finished (Database_matchAccountAndUpdateLoginState db d n p on log)"
| "run_request db d (MatchAccountAndCharacter a n) log = finished (Database_matchAccountAndCharacter db d a n log)"

text \<open>The reader threads serve one request after the other; an exception is the end of one of them
  only.\<close>

fun run_requests :: "mongo \<Rightarrow> database \<Rightarrow> db_request list \<Rightarrow> mongo_log \<Rightarrow> unit result list \<times> mongo_log" where
  "run_requests db d [] log = ([], log)"
| "run_requests db d (r # rs) log =
     (case run_request db d r log of (x, log) \<Rightarrow>
        case run_requests db d rs log of (xs, log) \<Rightarrow> (x # xs, log))"

lemma safe_finished: "safe op s \<Longrightarrow> safe op (finished s)"
  by (cases s; cases "fst s") (auto simp: finished_def)

lemma safe_request:
  assumes "transactional db" and "typed_store stored" and "replies_stored db stored"
    and "db_mAccountOp d = op" and "db_mCharacterOp d = op" and "accounts op \<noteq> characters op" and "all_ok op log"
  shows "safe op (run_request db d r log)"
proof -
  note entries = safe_all_characters [OF assms(2,3,7)]
  have names: "safe op (AccountOp_getAllCharacterName db op n log)" for n
    unfolding AccountOp_getAllCharacterName_def by (rule entries) (rule read_entry)
  have schema: "safe op (AccountOp_getAllCharacterBaseInfo g db op n log)" for g n
    unfolding AccountOp_getAllCharacterBaseInfo_def by (rule entries) (rule read_entry)
  have fill: "safe op (AccountOp_getAllCharacterBaseInfoFill2Message db op n log)" for n
    unfolding AccountOp_getAllCharacterBaseInfoFill2Message_def
  proof (rule entries)
    fix e assume e: "elem_ok entry_type e"
    from read_entry(1) [OF e] obtain name where "get_string (subfield e ''character_name'') = Inr name" by blast
    then show "\<exists>x. rbind (get_string (subfield e ''character_name'')) (\<lambda>name. read_base_info name e) = Inr x"
      using read_entry(3) [OF e] by simp
  qed
  have index: "safe op (Database_createIndex db d log)"
    unfolding Database_createIndex_def assms(4,5)
    by (rule safe_followed [OF safe_createIndexes(1) [OF assms(7)]]) (simp add: safe_createIndexes(2))
  have update: "safe op (Database_updateCharacter db d i isLast log)" for i :: character_info and isLast
    unfolding Database_updateCharacter_def assms(4)
    by (rule safe_followed [OF safe_updateCharacter [OF assms(1,6,7)]]) simp
  show ?thesis
    using safe_finished [OF index] safe_finished [OF update]
      safe_finished [OF safe_addNewAccount [OF assms(7)]] safe_finished [OF safe_addNewCharacter [OF assms(1,6,7)]]
      safe_finished [OF safe_removeCharacter [OF assms(1,7)]] safe_finished [OF names] safe_finished [OF schema]
      safe_finished [OF fill] safe_finished [OF safe_getCharacterNum [OF assms(2,3,7)]]
      safe_finished [OF safe_getOne(1) [OF assms(7)]] safe_finished [OF safe_getOne(2) [OF assms(7)]]
      safe_finished [OF safe_found_code [OF assms(7)]] safe_finished [OF safe_login [OF assms(2,3,7)]]
    by (cases r) (simp_all add: database_defs assms(4,5) AccountOp_matchAccount_def AccountOp_matchAccountAndCharacter_def)
qed

lemma safe_requests:
  assumes "transactional db" and "typed_store stored" and "replies_stored db stored"
    and "db_mAccountOp d = op" and "db_mCharacterOp d = op" and "accounts op \<noteq> characters op"
  shows "run_requests db d rs log = (xs, log') \<Longrightarrow> all_ok op log \<Longrightarrow> Inl BsonError \<notin> set xs \<and> all_ok op log'"
proof (induction rs arbitrary: log xs)
  case (Cons r rs)
  obtain x log1 where x: "run_request db d r log = (x, log1)" by (cases "run_request db d r log")
  obtain ys where ys: "run_requests db d rs log1 = (ys, log')" "xs = x # ys"
    using Cons.prems(1) x by (auto split: prod.splits)
  have "x \<noteq> Inl BsonError \<and> all_ok op log1"
    using safe_request [OF assms Cons.prems(2), of r] x by (simp add: safe_def)
  then show ?case using Cons.IH [OF ys(1)] ys(2) by auto
qed simp


text \<open>A driver that keeps what is inserted: an account is made and logs in.\<close>

fun docs_of :: "collection \<Rightarrow> mongo_log \<Rightarrow> document list" where
  "docs_of c [] = []"
| "docs_of c (cmd # cmds) =
     (case cmd of INSERT_ONE s c' d \<Rightarrow> if c' = c then d # docs_of c cmds else docs_of c cmds | _ \<Rightarrow> docs_of c cmds)"

definition kept :: "mongo_log \<Rightarrow> collection \<Rightarrow> document set" where
  "kept log c = set (docs_of c log)"

definition keeping_reply :: "mongo_log \<Rightarrow> mongo_command \<Rightarrow> mongo_reply" where
  "keeping_reply log cmd =
     (let first = (\<lambda>c. case docs_of c log of [] \<Rightarrow> None | d # _ \<Rightarrow> Some d) in
      case cmd of
        FIND_ONE c q p \<Rightarrow> Found (first c)
      | FIND_ONE_AND_UPDATE c q u \<Rightarrow> Found (first c)
      | AGGREGATE c q st \<Rightarrow> Cursor []
      | INSERT_ONE s c d \<Rightarrow> Counted 1
      | UPDATE_ONE s c q u \<Rightarrow> Counted 0
      | DELETE_ONE s c q \<Rightarrow> Counted 0
      | _ \<Rightarrow> Done)"

lemma docs_of_append [simp]: "docs_of c (xs @ ys) = docs_of c xs @ docs_of c ys"
  by (induction xs) (auto split: mongo_command.split)

lemma keeping_driver:
  "transactional (simple_driver keeping_reply)" "typed_store kept" "replies_stored (simple_driver keeping_reply) kept"
proof -
  show "transactional (simple_driver keeping_reply)"
    by (rule simple_driver_transactional) (simp add: keeping_reply_def)
  have last: "d \<in> kept log c \<or> (\<exists>s. cmd = INSERT_ONE s c d)" if "d \<in> kept (log @ [cmd]) c" for log cmd c d
    using that by (auto simp: kept_def split: mongo_command.splits if_splits)
  show "typed_store kept"
    unfolding typed_store_def
  proof (intro conjI allI impI)
    show "kept [] c = {}" for c by (simp add: kept_def)
    fix log cmd c d
    assume "d \<in> kept (log @ [cmd]) c"
    from last [OF this] show "\<exists>past later. log = past @ later \<and>
        (d \<in> kept past c \<or> (\<exists>s. cmd = INSERT_ONE s c d) \<or>
         (\<exists>d0\<in>kept past c. \<exists>u. ((\<exists>s q. cmd = UPDATE_ONE s c q u) \<or> (\<exists>q. cmd = FIND_ONE_AND_UPDATE c q u)) \<and>
           (\<forall>t. update_ok t u \<longrightarrow> has_type t (BDocument d0) \<longrightarrow> has_type t (BDocument d))))"
      by (intro exI [of _ log] exI [of _ "[]"]) blast
  qed
  have "d \<in> kept log c" if "(case docs_of c log of [] \<Rightarrow> None | d # _ \<Rightarrow> Some d) = Some d" for d log c
    using that by (auto simp: kept_def split: list.splits)
  then show "replies_stored (simple_driver keeping_reply) kept"
    by (auto simp: replies_stored_def keeping_reply_def Let_def)
qed

definition demo_database :: database where
  "demo_database = (let op = \<lparr>mDBName = ''w'', mAccountCollectionName = ''a'', mCharacterCollectionName = ''c''\<rparr> in
     \<lparr>db_own = op, db_mAccountOp = op, db_mCharacterOp = op\<rparr>)"


end
