(* ===== verification/Spec2Isabelle.thy ===== *)
theory Spec2Isabelle
  imports Prelude Message_Codec Message_Format Custom_Messages Login_Messages Game_Messages Carriers
    Safe_Queue Safe_Hashmap Wheel_Timer IO_Buffer Pollers Tcp_Connection Event_Loop Redis_Client
    Broker_Manager Service_Registry Message_Ops Game_Ops Tcp_Server Servers
    Game_Data Mongo_Client Db_Documents Database Cache Query_Task Db_Server
    Logger_Buffer Logger_File Logger_Core R_Thread Thread_Pool Clock
    Sockets Acceptor Loop_Poller Server_Setup Db_Types
begin

text \<open>
  A verification library for WarringServer, a set of C++ servers for an online game.

  \<^bold>\<open>The program.\<close> A client connects to the login server, later to a gateway server; scene servers
  (dedicated game processes) connect to the game server. These three are built on one network
  library (\<^verbatim>\<open>Base/net\<close>): an acceptor, a pool of event loops over \<^verbatim>\<open>epoll\<close>, connections with buffers, a
  table of connections by name, and a timer whose tasks close silent connections. Messages
  (\<^verbatim>\<open>Base/message\<close>) have a binary format of their own. A server does not answer a request itself: it
  packs the message into a carrier and appends it to a redis stream (\<^verbatim>\<open>Broker\<close>), from which the
  database server (\<^verbatim>\<open>DBServer\<close>) takes it, works on MongoDB and a cache in redis, turns the carrier
  around and appends it to the stream of the server that asked; a thread there puts the answer into
  the connection named in the carrier. The broker manager looks after messages that nobody
  acknowledged; the center server (\<^verbatim>\<open>CenterServer\<close>) keeps the registry of gateway and game servers,
  which renew their keys when it sends a heartbeat. \<^verbatim>\<open>Base/thread\<close> and \<^verbatim>\<open>Base/utility\<close> hold the thread
  pool, queue, hash table, timer and logger.

  \<^bold>\<open>Theories and sources.\<close> \<open>Prelude\<close> has the machine types, failures as values (\<open>result\<close>, \<open>rbind\<close>),
  little-endian numbers, decimal text and list facts. Then, each over the ones it calls:

  \<^item> Messages. \<open>Message_Codec\<close>: \<^verbatim>\<open>BaseMessage\<close> (\<open>base_message\<close> has its members, \<open>member\<close> one constructor
  for each overload of push and pop). \<open>Message_Format\<close>: the contract of a concrete message, with the
  time stamp and heartbeat messages. \<open>Custom_Messages\<close>, \<open>Login_Messages\<close>, \<open>Game_Messages\<close>: the messages
  of \<^verbatim>\<open>CustomMessages\<close>, \<^verbatim>\<open>LoginMessage\<close>, \<^verbatim>\<open>GameMessage\<close> and \<^verbatim>\<open>GatewayMessage\<close>. \<open>Carriers\<close>: \<^verbatim>\<open>FILL_2_VEC\<close> and
  \<^verbatim>\<open>FILL_2_THIS\<close>.
  \<^item> Utilities and threads. \<open>Safe_Queue\<close>, \<open>Safe_Hashmap\<close>: \<^verbatim>\<open>SafeQueue.h\<close>, \<^verbatim>\<open>SafeHashmap.h\<close>. \<open>Wheel_Timer\<close>:
  \<^verbatim>\<open>Timer\<close>. \<open>Logger_Buffer\<close>, \<open>Logger_File\<close>, \<open>Logger_Core\<close>: \<^verbatim>\<open>LoggerBuffer\<close>, \<^verbatim>\<open>LoggerLine\<close>, \<^verbatim>\<open>LoggerFile\<close>, \<^verbatim>\<open>Logger\<close>,
  \<^verbatim>\<open>LoggerMessage\<close>. \<open>Clock\<close>: \<^verbatim>\<open>Time.h\<close>, \<^verbatim>\<open>Cmd.h\<close>, \<^verbatim>\<open>Widgets.h\<close> and the ids of timer tasks. \<open>R_Thread\<close>,
  \<open>Thread_Pool\<close>: \<^verbatim>\<open>RThread\<close>, \<^verbatim>\<open>Threadpool\<close>.
  \<^item> Network. \<open>Sockets\<close>: \<^verbatim>\<open>SocketAddr.h\<close>, \<^verbatim>\<open>Socket\<close>, \<^verbatim>\<open>TCPSocket.h\<close>. \<open>IO_Buffer\<close>: \<^verbatim>\<open>IOBuffer.h\<close>. \<open>Pollers\<close>:
  \<^verbatim>\<open>EventHandler.h\<close> and the two pollers. \<open>Tcp_Connection\<close>, \<open>Event_Loop\<close>, \<open>Tcp_Server\<close>, \<open>Acceptor\<close>: the headers of
  these names, \<open>Event_Loop\<close> with the thread and the pool of loops. \<open>Loop_Poller\<close>: an \<^verbatim>\<open>EventLoop\<close> with its
  poller and eventfd.
  \<^item> Servers. \<open>Redis_Client\<close>: \<^verbatim>\<open>RSBrokerHelper.h\<close>. \<open>Broker_Manager\<close>: \<^verbatim>\<open>RSBrokerManager\<close>. \<open>Service_Registry\<close>:
  \<^verbatim>\<open>ServiceRegistry.h\<close>. \<open>Message_Ops\<close>, \<open>Game_Ops\<close>: the \<^verbatim>\<open>MessageOp\<close> and \<^verbatim>\<open>HeartbeatOp\<close> classes and the scenes.
  \<open>Servers\<close>: \<^verbatim>\<open>LoginServer.cpp\<close>, \<^verbatim>\<open>GatewayServer.cpp\<close>, \<^verbatim>\<open>GameServer.cpp\<close>. \<open>Server_Setup\<close>: their constructors,
  \<^verbatim>\<open>start\<close>, configurations and the loop of the subscription.
  \<^item> Database server. \<open>Game_Data\<close>: \<^verbatim>\<open>GameDataTable\<close>. \<open>Mongo_Client\<close>: what is used of the driver.
  \<open>Db_Documents\<close>, \<open>Database\<close>, \<open>Db_Types\<close>: \<^verbatim>\<open>DBServer/db\<close>. \<open>Cache\<close>: \<^verbatim>\<open>RCache\<close> and \<^verbatim>\<open>DBServConf\<close>. \<open>Query_Task\<close>,
  \<open>Db_Server\<close>: \<^verbatim>\<open>QueryTask\<close> and \<^verbatim>\<open>DBServerGateway.h\<close>.

  \<^bold>\<open>State and operations.\<close> A class is a record with its members, prefixed where two classes share a
  name (\<open>ts_mTcpConnections\<close>); an operation is a function of the same name that returns the changed
  record, prefixed by its class where needed. Every exception, failed \<^verbatim>\<open>at()\<close>, division by zero or
  use of a dead object is an \<open>Inl\<close> of \<open>result\<close>. Objects behind a \<^verbatim>\<open>shared_ptr\<close> live in a map from
  addresses; who owns a connection (\<open>ts_bound\<close>, \<open>ts_held\<close>, the table) is part of the state, so use after
  destruction is visible. Code outside the repository is an argument: redis, MongoDB and the
  operating system are functions from the calls so far and the next call to a reply, without
  further law, and the calls made are part of every result. The laws assumed of them are named
  and each has an instance in a witness: \<open>transactional\<close> (the documented contract of
  \<^verbatim>\<open>with_transaction\<close>), \<open>typed_store\<close> and \<open>replies_stored\<close> (documents in a collection were put there and
  an update changes the paths it names), \<open>keeps_flags\<close> (\<^verbatim>\<open>fcntl\<close>). Time, random numbers, thread ids,
  hash functions, locale-dependent printing and uninitialised members (\<open>garbage\<close>) are arguments too.

  \<^bold>\<open>Threads.\<close> What runs under one lock is one function. Where the order of threads matters there is a
  step relation or a list of events: waiting in \<^verbatim>\<open>SafeQueue\<close>, \<^verbatim>\<open>quit\<close> and \<^verbatim>\<open>wakeup\<close> of a loop, \<^verbatim>\<open>work\<close> of
  \<^verbatim>\<open>RThread\<close> (a program counter, commands split into single writes), the two threads of the timer, the
  logger, and \<open>server_step\<close> for acceptor, loops, timer, heartbeats and consumers of a server. Their
  invariants are proved by rule induction and hold in every reachable state.

  \<^bold>\<open>Interfaces.\<close> \<open>message_format\<close> (every message interprets it and gets its round trip), \<open>carrier_codec\<close> (the
  four carriers), \<open>fifo\<close> (\<^verbatim>\<open>SafeQueue\<close>, the queue of \<^verbatim>\<open>IOBuffer\<close>), \<open>map_store\<close> (\<^verbatim>\<open>Bucket\<close> and \<^verbatim>\<open>SafeHashmap\<close>),
  \<open>poller_table\<close> (both pollers) are locales, interpreted where the component is defined.

  \<^bold>\<open>What is shown.\<close>
  \<^item> Messages come back as they were sent, the buffer is filled exactly and never left, and the
  stream of a connection is cut into messages independently of how it arrives.
  \<^item> A descriptor from \<^verbatim>\<open>accept\<close> gets one owner or is closed; the table of connections never leads to a
  dead object whatever the threads do; a wakeup reaches the loop it is for; two races are shown where the code itself breaks (the peer
  closes while output is ready; the heartbeat check meets a close).
  \<^item> A request travels from a connection to the database and its answer back to the same connection;
  a new character enters the game with the addresses the services registered; uploads are read
  back; transactions are atomic and logins exclusive; the stored documents keep their types.
  \<^item> Pending messages are only touched with a reason and are all dealt with in a quiet round; lost
  services are removed after exactly three misses; a subscribed service renews its key.
  \<^item> Timer tasks run when they should and no loop of the timer gets stuck; queue, hash table and
  buffers refine their abstract counterparts; threads run each task once and in order, drain,
  and keep their load bound; the pool reaches its size; the logger loses and mixes no line and
  keeps its limits.
  \<^item> Smaller theorems in each theory describe flaws met on the way, such as a task of minutes that
  runs once, ended threads that the pool does not reuse, or a short write that garbles a log.

  \<^bold>\<open>Bounds and fuel.\<close> \<^verbatim>\<open>size_t\<close> is a natural number with \<open>wrap64\<close> where it can wrap; \<^verbatim>\<open>int\<close>, \<^verbatim>\<open>uint8_t\<close> and bit
  masks are words; \<^verbatim>\<open>double\<close> is its bit pattern. Loops that may run for ever, over the slots of the timer
  that grow while they are visited, are partial functions, and a theorem shows that they return; the
  other loops recurse on what is left to do. Endless loops of threads are folds over the list of what
  they meet, so a theorem about all lists is one about every moment of the run.

  \<^bold>\<open>Not modelled.\<close> Code under \<^verbatim>\<open>#if 0\<close> and the producer and consumer classes (marked deprecated, not
  used); the generator of random test data, \<^verbatim>\<open>getExpectation\<close> and \<^verbatim>\<open>getVariance\<close> (floating point, never
  called); joins in destructors, \<^verbatim>\<open>setBenchTask\<close>, the unused \<^verbatim>\<open>RegHeartbeatMessage\<close>; that
  threads started in constructors can see members before these are initialised; torn reads of
  members that are shared without a lock; tests and generated build files. A moved-from string is
  empty, as in libstdc++.
\<close>

section \<open>From a client to the database and back\<close>

text \<open>
  C4. Registering an account through all servers. The login server takes the request of a client
  whole from its connection and puts it on the stream of the database server; the reader there
  inserts the account and puts the answer on the stream of the login server, with the code that
  tells what MongoDB replied; the consumer of the login server puts exactly the bytes of the answer
  behind the output of the connection that still has the name of the one that asked. The broker
  only has to hand the entries on.
\<close>

theorem register_round_trip:
  fixes m r :: login_request_message
  assumes "pending c = wire_image (MSG_NAME m) (LoginRequestMessage_members m) @ rest"
    and "wire_length (MSG_NAME m) (LoginRequestMessage_members m) < 2 ^ 64" and "length (mIncompleteMessage c) \<noteq> 8"
    and "types tid = Some objs" and "objs (MSG_NAME m) = Some (LoginRequest r)" and "consumed r"
    and "MSG_NAME m = dc_MESSAGE_LOGIN_LOGIN_MSG (de_conf env)" and "MSG_NAME m \<noteq> ''LOGIN_ERROR_MSG''"
    and "MSG_NAME m \<noteq> dc_MESSAGE_LOGIN_LOGIN_CHARACTER_MSG (de_conf env)"
    and "REQUEST_CODE m = LOGIN_REGISTER_REQUEST_CODE" and "BROKER_LOGIN_KEY conf \<noteq> []"
    and "request = login_carrier conf (MSG_NAME m) (wire_image (MSG_NAME m) (LoginRequestMessage_members m)) c"
    and "g = login_gateman env gb"
    and "dbsrv dblog (read_entry g ms) = StreamsReply [(gm_mReadKey g, [(ident, Some (Login_FILL_2_VEC request []))])]"
    and "dbsrv (dblog @ [read_entry g ms]) (ack_entry g ident) = IntReply 1"
    and "mg_reply (de_mongo env) (dw_mongo w) ACQUIRE \<noteq> NoClient"
    and "res = (new_LoginResponseMessage (db_now env w) (gb_ports gb) (dc_MESSAGE_LOGIN_LOGIN_RESPONSE_MSG (de_conf env)))
      \<lparr>RESPONSE_CODE := register_code (mg_reply (de_mongo env) (dw_mongo w @ [ACQUIRE])
        (insert_account env m (mPeerIPPort c) w))\<rparr>"
    and "wire_length (MSG_NAME res) (LoginResponseMessage_members res) < 2 ^ 64"
    and "answer = login_answer (de_conf env) res request"
    and "server_inv s" and "hashmap_abs (ts_mTcpConnections s) (mName c) = Some a"
    and "cmd = XREADGROUP (BROKER_LOGIN_GROUP conf) ''LoginStreamConsumer'' (BROKER_LOGIN_KEY conf) ''>''
      (lc_STREAM_CUSTOMER_PULL_NAP_IN_MILLISECONDS conf) 1"
    and "srv log cmd = StreamsReply [(BROKER_LOGIN_KEY conf, [(ident', Some (Login_FILL_2_VEC answer []))])]"
    and "srv (log @ [cmd]) (XACK (BROKER_LOGIN_KEY conf) (BROKER_LOGIN_GROUP conf) ident') = IntReply i"
  shows "(\<exists>c' types'. login_messageFunc conf brk now accepted tid (Some c) types blog =
        Inr (Some c', types', blog @ [XADD (lc_BROKER_DB_KEY conf) ''*'' (Login_FILL_2_VEC request []) 5000 True]) \<and>
        pending c' = rest) \<and>
    reader_round g Login_FILL_2_THIS (\<lambda>msg. Login_FILL_2_VEC msg []) ms dbsrv w dblog =
      (Inr (), w\<lparr>dw_mongo := dw_mongo w @ [ACQUIRE, insert_account env m (mPeerIPPort c) w]\<rparr>,
       dblog @ [read_entry g ms, ack_entry g ident,
         XADD (BROKER_LOGIN_KEY conf) ''*'' (Login_FILL_2_VEC answer []) 5000 True]) \<and>
    (\<exists>c' s'. ts_conns s a = Some c' \<and> mName c' = mName c \<and>
       login_consume conf srv s log =
         (Inr (), s', log @ [cmd, XACK (BROKER_LOGIN_KEY conf) (BROKER_LOGIN_GROUP conf) ident']) \<and>
       ts_conns s' = (ts_conns s)(a \<mapsto> putToBuffer (CARRIER_MESSAGE answer) c') \<and>
       outgoing (putToBuffer (CARRIER_MESSAGE answer) c') =
         outgoing c' @ wire_image (MSG_NAME res) (LoginResponseMessage_members res))"
proof (intro conjI)
  show "\<exists>c' types'. login_messageFunc conf brk now accepted tid (Some c) types blog =
        Inr (Some c', types', blog @ [XADD (lc_BROKER_DB_KEY conf) ''*'' (Login_FILL_2_VEC request []) 5000 True]) \<and>
        pending c' = rest"
    using login_request_step [where types = types and tid = tid and objs = objs, OF assms(1-6), of conf brk now accepted blog]
      assms(12) by (auto simp: Login_FILL_2_VEC_def)
next
  let ?w = "w\<lparr>dw_mongo := dw_mongo w @ [ACQUIRE, insert_account env m (mPeerIPPort c) w]\<rparr>"
  have switch: "login_switch env m (CLIENT_ADDRESS request) (new_LoginResponseMessage (db_now env w) (gb_ports gb)
        (dc_MESSAGE_LOGIN_LOGIN_RESPONSE_MSG (de_conf env))) w = (Inr res, ?w)"
    using register_switch [OF assms(10,16)] assms(12,17) by (simp add: login_carrier_sel)
  have "Login_FILL_2_THIS (Login_FILL_2_VEC request []) new_client_carrier = Inr request"
    using login_carrier_read assms(12) by (simp add: Login_FILL_2_VEC_def)
  from login_reader_round [where srv = dbsrv and log = dblog and vec = "\<lambda>msg. Login_FILL_2_VEC msg []"
      and fill = Login_FILL_2_THIS, OF _ assms(13) _ _ _ _ assms(2) switch assms(18) this assms(14,15)]
  show "reader_round g Login_FILL_2_THIS (\<lambda>msg. Login_FILL_2_VEC msg []) ms dbsrv w dblog =
      (Inr (), ?w, dblog @ [read_entry g ms, ack_entry g ident,
         XADD (BROKER_LOGIN_KEY conf) ''*'' (Login_FILL_2_VEC answer []) 5000 True])"
    using assms(7-9,11,12,19) by (simp add: login_carrier_sel)
next
  have same: "CLIENT_ID answer = mName c"
    "CARRIER_MESSAGE answer = wire_image (MSG_NAME res) (LoginResponseMessage_members res)"
    using assms(12,19) by (simp_all add: login_answer_def turn_back_def login_carrier_sel)
  obtain c' where c': "ts_conns s a = Some c'" "mName c' = mName c"
    using server_inv_name [OF assms(20,21)] by blast
  let ?s = "set_conn a (putToBuffer (CARRIER_MESSAGE answer) c') s"
  have "login_consume conf srv s log =
      (Inr (), ?s, log @ [cmd, XACK (BROKER_LOGIN_KEY conf) (BROKER_LOGIN_GROUP conf) ident'])"
    using login_round [where srv = srv and log = log, OF assms(20,22,23)] assms(21,24) c' same(1)
    by (simp add: ack_def call_def ignore_reply_def)
  then show "\<exists>c' s'. ts_conns s a = Some c' \<and> mName c' = mName c \<and>
       login_consume conf srv s log =
         (Inr (), s', log @ [cmd, XACK (BROKER_LOGIN_KEY conf) (BROKER_LOGIN_GROUP conf) ident']) \<and>
       ts_conns s' = (ts_conns s)(a \<mapsto> putToBuffer (CARRIER_MESSAGE answer) c') \<and>
       outgoing (putToBuffer (CARRIER_MESSAGE answer) c') =
         outgoing c' @ wire_image (MSG_NAME res) (LoginResponseMessage_members res)"
    using c' same(2) by (intro exI [of _ c'] exI [of _ ?s]) (simp add: set_conn_def)
qed

section \<open>A run\<close>

definition demo_register :: login_request_message where
  "demo_register = demo_login\<lparr>REQUEST_CODE := LOGIN_REGISTER_REQUEST_CODE\<rparr>"

definition demo_register_image :: bytes where
  "demo_register_image = wire_image ''LOGIN_LOGIN_MSG'' (LoginRequestMessage_members demo_register)"

definition asking_conn :: tcp_connection where
  "asking_conn = (demo_conn demo_register_image)\<lparr>mName := demo_name\<rparr>"

definition demo_request :: client_carrier where
  "demo_request = login_carrier LoginServConf ''LOGIN_LOGIN_MSG'' demo_register_image asking_conn"

definition demo_response :: login_response_message where
  "demo_response = (new_LoginResponseMessage 0 (1, 2) ''LOGIN_LOGIN_RESPONSE_MSG'')\<lparr>RESPONSE_CODE := LOGIN_REGISTER_RESULT_SUCCESS\<rparr>"

lemma demo_register_sel:
  "MSG_NAME demo_register = ''LOGIN_LOGIN_MSG''" "REQUEST_CODE demo_register = LOGIN_REGISTER_REQUEST_CODE"
  "wire_length ''LOGIN_LOGIN_MSG'' (LoginRequestMessage_members demo_register) < 2 ^ 64"
  by (simp_all add: demo_register_def demo_login_def LoginRequestMessage_members_def wire_length_def name_lens_def)

lemma asking_conn_sel:
  "mName asking_conn = demo_name" "mIncompleteMessage asking_conn = []"
  "pending asking_conn = demo_register_image @ []"
  using demo_conn_sel(1,2) [of demo_register_image] by (simp_all add: asking_conn_def pending_def)

lemma demo_response_small:
  "wire_length (MSG_NAME demo_response) (LoginResponseMessage_members demo_response) < 2 ^ 64"
  by (simp add: demo_response_def new_LoginResponseMessage_def timestamp_message.defs new_TimestampMessage_def
      base_message.defs LoginResponseMessage_members_def wire_length_def name_lens_def)

theorem register_round_trip_witness:
  "\<exists>c' s' log'. login_consume LoginServConf (demo_stream (Login_FILL_2_VEC (login_answer DBServConf demo_response demo_request) []))
      with_client [] = (Inr (), s', log') \<and>
    ts_conns s' = (ts_conns with_client)(100 \<mapsto> c') \<and>
    outgoing c' = outgoing demo_client @ wire_image (MSG_NAME demo_response) (LoginResponseMessage_members demo_response)"
proof -
  let ?env = "demo_env (demo_mongo False) (\<lambda>_ _. NilReply) (\<lambda>_ _. NilReply)"
  have res: "demo_response = (new_LoginResponseMessage (db_now ?env empty_world) (gb_ports demo_garbage)
      (dc_MESSAGE_LOGIN_LOGIN_RESPONSE_MSG (de_conf ?env)))
      \<lparr>RESPONSE_CODE := register_code (mg_reply (de_mongo ?env) (dw_mongo empty_world @ [ACQUIRE])
        (insert_account ?env demo_register (mPeerIPPort asking_conn) empty_world))\<rparr>"
    by (simp add: demo_response_def simple_driver_def empty_world_def demo_garbage_def DBServConf_def
        demo_mongo_def register_code_def)
  have conf: "dc_MESSAGE_LOGIN_LOGIN_MSG DBServConf = ''LOGIN_LOGIN_MSG''"
    "dc_MESSAGE_LOGIN_LOGIN_CHARACTER_MSG DBServConf = ''LOGIN_LOGIN_CHARACTER_MSG''"
    "BROKER_LOGIN_KEY LoginServConf = ''Warring:LoginServ''"
    by (simp_all add: DBServConf_def LoginServConf_def)
  have request:
    "pending asking_conn = wire_image (MSG_NAME demo_register) (LoginRequestMessage_members demo_register) @ []"
    "wire_length (MSG_NAME demo_register) (LoginRequestMessage_members demo_register) < 2 ^ 64"
    "length (mIncompleteMessage asking_conn) \<noteq> 8"
    "demo_objs (MSG_NAME demo_register) = Some (LoginRequest (new_LoginRequestMessage 1000))"
    "demo_request = login_carrier LoginServConf (MSG_NAME demo_register)
      (wire_image (MSG_NAME demo_register) (LoginRequestMessage_members demo_register)) asking_conn"
    unfolding demo_register_sel(1)
    using asking_conn_sel demo_register_sel(3) demo_types_login(2)
    by (simp_all add: demo_register_image_def demo_request_def)
  have names:
    "MSG_NAME demo_register = dc_MESSAGE_LOGIN_LOGIN_MSG (de_conf ?env)" "MSG_NAME demo_register \<noteq> ''LOGIN_ERROR_MSG''"
    "MSG_NAME demo_register \<noteq> dc_MESSAGE_LOGIN_LOGIN_CHARACTER_MSG (de_conf ?env)" "BROKER_LOGIN_KEY LoginServConf \<noteq> []"
    by (simp_all add: demo_register_sel(1) conf)
  have replies:
    "demo_stream kvs log (XREADGROUP grp consumer key ident ms n) = StreamsReply [(key, [(''1-0'', Some kvs)])]"
    "demo_stream kvs log (XACK key grp ident) = IntReply 1" for kvs log grp consumer key ident ms n
    by (simp_all add: demo_stream_def)
  have db: "mg_reply (de_mongo ?env) (dw_mongo empty_world) ACQUIRE \<noteq> NoClient"
    and answer: "login_answer DBServConf demo_response demo_request = login_answer (de_conf ?env) demo_response demo_request"
    and table: "hashmap_abs (ts_mTcpConnections with_client) (mName asking_conn) = Some 100"
    by (simp_all add: demo_mongo_def with_client_state(5) asking_conn_sel(1))
  from register_round_trip [where types = demo_types and tid = 4 and log = "[]" and dblog = "[]" and ms = 100
      and srv = "demo_stream (Login_FILL_2_VEC (login_answer DBServConf demo_response demo_request) [])"
      and dbsrv = "demo_stream (Login_FILL_2_VEC demo_request [])" and gb = demo_garbage,
      OF request(1-3) demo_types_login(1) request(4) new_login_consumed names(1-3) demo_register_sel(2) names(4)
        request(5) refl replies db res demo_response_small answer with_client_state(1) table refl replies,
      THEN conjunct2, THEN conjunct2]
  obtain c' s' where "ts_conns with_client 100 = Some c'"
    and "login_consume LoginServConf (demo_stream (Login_FILL_2_VEC (login_answer DBServConf demo_response demo_request) []))
        with_client [] = (Inr (), s', [] @ [XREADGROUP (BROKER_LOGIN_GROUP LoginServConf) ''LoginStreamConsumer''
          (BROKER_LOGIN_KEY LoginServConf) ''>'' (lc_STREAM_CUSTOMER_PULL_NAP_IN_MILLISECONDS LoginServConf) 1,
          XACK (BROKER_LOGIN_KEY LoginServConf) (BROKER_LOGIN_GROUP LoginServConf) ''1-0''])"
    and "ts_conns s' = (ts_conns with_client)(100 \<mapsto>
        putToBuffer (CARRIER_MESSAGE (login_answer DBServConf demo_response demo_request)) c')"
    and "outgoing (putToBuffer (CARRIER_MESSAGE (login_answer DBServConf demo_response demo_request)) c') =
        outgoing c' @ wire_image (MSG_NAME demo_response) (LoginResponseMessage_members demo_response)"
    by blast
  moreover from this(1) have "c' = demo_client" using with_client_state(2) by simp
  ultimately show ?thesis by blast
qed

end
